(* ===== verification/Prelude.thy ===== *)
theory Prelude
  imports Complex_Main "HOL-Library.Multiset" "HOL-Library.AList" "HOL-Library.Sublist"
begin

section \<open>The fragment of Python and its standard library the models share\<close>

text \<open>
  Everything the component theories use of the language itself is here: exceptions as
  values, slices, stable sorting with \<open>reverse=True\<close>, insertion-ordered dictionaries
  (association lists with distinct keys), and the string methods.

  Conventions.  A Python \<open>str\<close> is a \<open>string\<close>, read as a sequence of Latin-1 code
  points: \<open>lower\<close>, \<open>isspace\<close> and \<open>isalnum\<close> below agree with Python on all 256 of
  them; text outside Latin-1 is not represented.  A Python \<open>int\<close> is an \<open>int\<close>, or a
  \<open>nat\<close> where the code only ever builds non-negative ones.  A Python \<open>float\<close> is a
  \<open>real\<close>: rounding of binary floating point is not modelled.
\<close>

named_theorems py_simps \<open>evaluation rules of the Python fragment\<close>
named_theorems inv_intros \<open>preservation of component invariants\<close>

subsection \<open>Exceptions\<close>

datatype py_error =
    ValueError string
  | TypeErr string
  | KeyError
  | IndexError
  | ZeroDivisionError
  | NotImplementedErr
  | OverflowErr
  | RuntimeErr string

type_synonym 'a res = "py_error + 'a"

definition bind_res :: "'e + 'a \<Rightarrow> ('a \<Rightarrow> 'e + 'b) \<Rightarrow> 'e + 'b" where
  "bind_res r f = (case r of Inl e \<Rightarrow> Inl e | Inr x \<Rightarrow> f x)"

lemma bind_res_simps [simp]:
  "bind_res (Inl e) f = Inl e"
  "bind_res (Inr x) f = f x"
  by (simp_all add: bind_res_def)

lemma bind_res_Inr_conv: "bind_res r f = Inr y \<longleftrightarrow> (\<exists>x. r = Inr x \<and> f x = Inr y)"
  by (cases r) auto

text \<open>Division of floats raises on zero, where HOL's \<open>/\<close> is total.\<close>

definition py_div :: "real \<Rightarrow> real \<Rightarrow> real res" where
  "py_div a b = (if b = 0 then Inl ZeroDivisionError else Inr (a / b))"

lemma py_div_nonzero [simp]: "b \<noteq> 0 \<Longrightarrow> py_div a b = Inr (a / b)"
  by (simp add: py_div_def)

text \<open>A list comprehension whose body may raise: the first exception wins.\<close>

fun mapM :: "('a \<Rightarrow> 'e + 'b) \<Rightarrow> 'a list \<Rightarrow> 'e + 'b list" where
  "mapM f [] = Inr []"
| "mapM f (x # xs) = bind_res (f x) (\<lambda>y. bind_res (mapM f xs) (\<lambda>ys. Inr (y # ys)))"

lemma mapM_Inr: "(\<And>x. x \<in> set xs \<Longrightarrow> f x = Inr (g x)) \<Longrightarrow> mapM f xs = Inr (map g xs)"
  by (induction xs) auto

lemma mapM_Inr_conv: "mapM f xs = Inr ys \<longleftrightarrow> list_all2 (\<lambda>x y. f x = Inr y) xs ys"
proof (induction xs arbitrary: ys)
  case Nil
  then show ?case by auto
next
  case (Cons x xs)
  then show ?case
    by (cases ys) (auto simp: bind_res_Inr_conv)
qed

lemma list_all2_ex1: "list_all2 P xs ys \<Longrightarrow> y \<in> set ys \<Longrightarrow> \<exists>x \<in> set xs. P x y"
  by (auto simp: list_all2_conv_all_nth in_set_conv_nth) (metis nth_mem)

lemma list_all2_ex2: "list_all2 P xs ys \<Longrightarrow> x \<in> set xs \<Longrightarrow> \<exists>y \<in> set ys. P x y"
  by (auto simp: list_all2_conv_all_nth in_set_conv_nth) (metis nth_mem)

lemma mapM_Inl: "mapM f xs = Inl e \<Longrightarrow> \<exists>x \<in> set xs. f x = Inl e"
  by (induction xs) (auto simp: bind_res_def split: sum.splits)

subsection \<open>Dynamically typed values\<close>

text \<open>
  The values a JSON document or a free-form \<open>dict[str, object]\<close> can hold.  Python's
  \<open>json\<close> module also accepts \<open>NaN\<close> and the infinities, so floats are kept apart from
  reals here.
\<close>

datatype pyfloat = Fin real | PosInf | NegInf | NaN

datatype pyval =
    PyNone
  | PyBool bool
  | PyInt int
  | PyFloat pyfloat
  | PyStr string
  | PyList "pyval list"
  | PyDict "(string \<times> pyval) list"

subsection \<open>Slices\<close>

text \<open>\<open>xs[:n]\<close> and \<open>xs[n:]\<close>: a negative bound counts from the end.\<close>

definition py_take :: "int \<Rightarrow> 'a list \<Rightarrow> 'a list" where
  "py_take n xs = (if 0 \<le> n then take (nat n) xs else take (length xs - nat (- n)) xs)"

definition py_drop :: "int \<Rightarrow> 'a list \<Rightarrow> 'a list" where
  "py_drop n xs = (if 0 \<le> n then drop (nat n) xs else drop (length xs - nat (- n)) xs)"

lemma py_take_Nil [simp]: "py_take n [] = []"
  by (simp add: py_take_def)

lemma set_py_take_subset: "set (py_take n xs) \<subseteq> set xs"
  by (auto simp: py_take_def dest: in_set_takeD)

lemma in_set_py_takeD: "x \<in> set (py_take n xs) \<Longrightarrow> x \<in> set xs"
  using set_py_take_subset by fast

lemma length_py_take: "0 \<le> n \<Longrightarrow> length (py_take n xs) = min (length xs) (nat n)"
  by (simp add: py_take_def)

lemma length_py_take_le: "length (py_take n xs) \<le> length xs"
  by (simp add: py_take_def)

lemma py_take_prefix: "prefix (py_take n xs) xs"
  by (simp add: py_take_def take_is_prefix)

lemma py_take_all: "int (length xs) \<le> n \<Longrightarrow> py_take n xs = xs"
  by (simp add: py_take_def)

lemma map_py_take: "map f (py_take n xs) = py_take n (map f xs)"
  by (simp add: py_take_def take_map)

lemma distinct_py_take: "distinct xs \<Longrightarrow> distinct (py_take n xs)"
  by (simp add: py_take_def)

lemma mset_py_take_subset: "mset (py_take n xs) \<subseteq># mset xs"
proof -
  obtain k where "py_take n xs = take k xs" by (simp add: py_take_def) metis
  moreover have "mset xs = mset (take k xs) + mset (drop k xs)"
    by (simp flip: mset_append)
  ultimately show ?thesis by simp
qed

lemma sorted_wrt_py_take: "sorted_wrt P xs \<Longrightarrow> sorted_wrt P (py_take n xs)"
  by (simp add: py_take_def sorted_wrt_take)

subsection \<open>Stable sorting, descending\<close>

text \<open>
  \<open>sorted(xs, key=f, reverse=True)\<close> is stable: elements with equal keys keep their order.
  Python obtains it by reversing, sorting ascending and reversing again, as here.
\<close>

definition sort_desc :: "('a \<Rightarrow> 'k::linorder) \<Rightarrow> 'a list \<Rightarrow> 'a list" where
  "sort_desc f xs = rev (sort_key f (rev xs))"

lemma mset_sort_desc [simp]: "mset (sort_desc f xs) = mset xs"
  by (simp add: sort_desc_def)

lemma set_sort_desc [simp]: "set (sort_desc f xs) = set xs"
  by (simp add: sort_desc_def)

lemma length_sort_desc [simp]: "length (sort_desc f xs) = length xs"
  by (simp add: sort_desc_def)

lemma sort_desc_Nil [simp]: "sort_desc f [] = []"
  by (simp add: sort_desc_def)

lemma distinct_sort_desc [simp]: "distinct (sort_desc f xs) = distinct xs"
  by (simp add: sort_desc_def)

lemma distinct_map_sort_desc [simp]: "distinct (map g (sort_desc f xs)) = distinct (map g xs)"
proof -
  have "mset (map g (sort_desc f xs)) = mset (map g xs)" by simp
  then show ?thesis by (rule mset_eq_imp_distinct_iff)
qed

lemma sorted_sort_desc: "sorted_wrt (\<lambda>x y. f y \<le> f x) (sort_desc f xs)"
proof -
  have "sorted_wrt (\<lambda>x y. f x \<le> f y) (sort_key f (rev xs))"
    using sorted_sort_key [of f "rev xs"] by (simp add: sorted_map)
  then show ?thesis by (simp add: sort_desc_def sorted_wrt_rev)
qed

lemma sort_desc_stable: "filter (\<lambda>x. f x = k) (sort_desc f xs) = filter (\<lambda>x. f x = k) xs"
proof -
  have "filter (\<lambda>x. f x = k) (sort_key f (rev xs)) = filter (\<lambda>x. f x = k) (rev xs)"
    by (rule sort_key_stable)
  then show ?thesis by (simp add: sort_desc_def flip: rev_filter)
qed

lemma sort_desc_id: "sorted_wrt (\<lambda>x y. f y \<le> f x) xs \<Longrightarrow> sort_desc f xs = xs"
proof -
  assume "sorted_wrt (\<lambda>x y. f y \<le> f x) xs"
  then have "sorted (map f (rev xs))"
    by (simp add: sorted_map sorted_wrt_rev)
  then have "sort_key f (rev xs) = rev xs"
    by (rule sort_key_id_if_sorted)
  then show ?thesis by (simp add: sort_desc_def)
qed

text \<open>A prefix of a descending list holds its largest elements.\<close>

lemma sorted_wrt_take_drop:
  assumes "sorted_wrt P xs" and "x \<in> set (take n xs)" and "y \<in> set (drop n xs)"
  shows "P x y"
proof -
  have "sorted_wrt P (take n xs @ drop n xs)" using assms(1) by simp
  then show ?thesis using assms(2,3) by (simp only: sorted_wrt_append)
qed

lemma py_take_sort_desc_top:
  assumes "x \<in> set (py_take n (sort_desc f xs))" "y \<in> set xs"
    and "y \<notin> set (py_take n (sort_desc f xs))"
  shows "f y \<le> f x"
proof -
  obtain k where k: "py_take n (sort_desc f xs) = take k (sort_desc f xs)"
    by (cases "0 \<le> n") (auto simp: py_take_def)
  have "y \<in> set (take k (sort_desc f xs) @ drop k (sort_desc f xs))"
    using assms(2) by simp
  then have "y \<in> set (drop k (sort_desc f xs))"
    using assms(3) k by (simp only: set_append) auto
  then show ?thesis
    using sorted_wrt_take_drop [OF sorted_sort_desc, of x k f xs y] assms(1) k by simp
qed

text \<open>\<open>enumerate(xs)\<close> pairs every element with its position.\<close>

lemma map_snd_enum: "map (\<lambda>x. f (snd x)) (List.enumerate n xs) = map f xs"
  by (rule nth_equalityI) (simp_all add: nth_enumerate_eq)

lemma sorted_wrt_enum: "sorted_wrt (\<lambda>x y. P (snd x) (snd y)) (List.enumerate n xs) = sorted_wrt P xs"
  by (simp add: sorted_wrt_iff_nth_less nth_enumerate_eq)

subsection \<open>Dictionaries\<close>

text \<open>
  A \<open>dict\<close> keeps insertion order, and assigning to an existing key keeps the key's
  place: \<open>AList.update\<close> on an association list with distinct keys does the same.
\<close>

type_synonym ('k, 'v) dict = "('k \<times> 'v) list"

abbreviation dget :: "('k, 'v) dict \<Rightarrow> 'k \<Rightarrow> 'v option" where
  "dget d k \<equiv> map_of d k"

abbreviation dset :: "'k \<Rightarrow> 'v \<Rightarrow> ('k, 'v) dict \<Rightarrow> ('k, 'v) dict" where
  "dset k v d \<equiv> AList.update k v d"

abbreviation ddel :: "'k \<Rightarrow> ('k, 'v) dict \<Rightarrow> ('k, 'v) dict" where
  "ddel k d \<equiv> AList.delete k d"

abbreviation dkeys :: "('k, 'v) dict \<Rightarrow> 'k list" where
  "dkeys d \<equiv> map fst d"

abbreviation dvalues :: "('k, 'v) dict \<Rightarrow> 'v list" where
  "dvalues d \<equiv> map snd d"

definition dict_ok :: "('k, 'v) dict \<Rightarrow> bool" where
  "dict_ok d \<longleftrightarrow> distinct (dkeys d)"

text \<open>\<open>d.update(e)\<close>\<close>

definition dict_update :: "('k, 'v) dict \<Rightarrow> ('k, 'v) dict \<Rightarrow> ('k, 'v) dict" where
  "dict_update d e = fold (\<lambda>(k, v). dset k v) e d"

lemma dict_ok_Nil [simp, inv_intros]: "dict_ok []"
  by (simp add: dict_ok_def)

lemma dget_dset [simp]: "dget (dset k v d) j = (if j = k then Some v else dget d j)"
  by (simp add: update_conv)

lemma dget_ddel [simp]: "dget (ddel k d) j = (if j = k then None else dget d j)"
  by (simp add: delete_conv')

lemma dict_ok_dset [simp, inv_intros]: "dict_ok d \<Longrightarrow> dict_ok (dset k v d)"
  by (simp add: dict_ok_def distinct_update)

lemma dict_ok_ddel [simp, inv_intros]: "dict_ok d \<Longrightarrow> dict_ok (ddel k d)"
  by (simp add: dict_ok_def distinct_delete)

lemma dict_ok_update [simp, inv_intros]: "dict_ok d \<Longrightarrow> dict_ok (dict_update d e)"
  unfolding dict_update_def by (induction e arbitrary: d) auto

lemma dget_updateD: "dget (dict_update d e) k = Some v \<Longrightarrow> (k, v) \<in> set e \<or> dget d k = Some v"
  unfolding dict_update_def
proof (induction e arbitrary: d)
  case (Cons p e)
  obtain j w where p: "p = (j, w)" by (cases p)
  from Cons.prems p have "dget (fold (\<lambda>(k, v). dset k v) e (dset j w d)) k = Some v" by simp
  from Cons.IH [OF this] p show ?case by (auto split: if_splits)
qed simp

lemma dict_ok_filter [simp, inv_intros]: "dict_ok d \<Longrightarrow> dict_ok (filter P d)"
  by (simp add: dict_ok_def distinct_map_filter)

lemma dict_ok_mem: "dict_ok d \<Longrightarrow> (k, v) \<in> set d \<longleftrightarrow> dget d k = Some v"
  by (simp add: dict_ok_def)

lemma dget_filter_value:
  assumes "dict_ok d"
  shows "dget (filter (\<lambda>(k, v). P v) d) k = Some v \<longleftrightarrow> dget d k = Some v \<and> P v"
proof -
  have "dict_ok (filter (\<lambda>(k, v). P v) d)" using assms by simp
  then have "dget (filter (\<lambda>(k, v). P v) d) k = Some v \<longleftrightarrow> (k, v) \<in> set (filter (\<lambda>(k, v). P v) d)"
    by (simp only: dict_ok_mem)
  then show ?thesis using assms by (simp add: dict_ok_mem)
qed

lemma in_dvalues: "dict_ok d \<Longrightarrow> v \<in> set (dvalues d) \<longleftrightarrow> (\<exists>k. dget d k = Some v)"
proof -
  assume ok: "dict_ok d"
  have "v \<in> set (dvalues d) \<longleftrightarrow> (\<exists>k. (k, v) \<in> set d)" by force
  then show ?thesis by (simp add: dict_ok_mem [OF ok])
qed

lemma dkeys_dset: "set (dkeys (dset k v d)) = insert k (set (dkeys d))"
  using dom_update [of k v d] by (auto simp: dom_map_of_conv_image_fst)

lemma dkeys_ddel: "set (dkeys (ddel k d)) = set (dkeys d) - {k}"
  by (simp add: delete_keys)

lemma length_ddel:
  "dict_ok d \<Longrightarrow> dget d k = Some v \<Longrightarrow> Suc (length (ddel k d)) = length d"
proof -
  assume ok: "dict_ok d" and k: "dget d k = Some v"
  have "dkeys (ddel k d) = removeAll k (dkeys d)"
    by (simp add: delete_keys)
  moreover have "k \<in> set (dkeys d)"
    using map_of_SomeD [OF k] by force
  ultimately have "length (dkeys (ddel k d)) = length (dkeys d) - 1"
    using ok by (simp add: dict_ok_def distinct_remove1_removeAll [symmetric] length_remove1)
  moreover have "0 < length d" using k by (cases d) auto
  ultimately show ?thesis by simp
qed

lemma dset_new: "k \<notin> set (dkeys d) \<Longrightarrow> dset k v d = d @ [(k, v)]"
  by (induction d) auto

text \<open>Removing a key from a dictionary removes exactly its value from the multiset of values.\<close>

lemma mset_dvalues_ddel:
  "dict_ok d \<Longrightarrow> dget d k = Some v \<Longrightarrow> mset (dvalues d) = add_mset v (mset (dvalues (ddel k d)))"
proof (induction d)
  case Nil
  then show ?case by simp
next
  case (Cons p d)
  obtain j w where p: "p = (j, w)" by (cases p)
  show ?case
  proof (cases "j = k")
    case True
    with Cons.prems p have "k \<notin> fst ` set d" and "w = v" by (auto simp: dict_ok_def)
    then show ?thesis using True p by simp
  next
    case False
    with Cons p show ?thesis by (auto simp: dict_ok_def)
  qed
qed

lemma mset_dvalues_dset:
  "k \<notin> set (dkeys d) \<Longrightarrow> mset (dvalues (dset k v d)) = add_mset v (mset (dvalues d))"
  by (simp add: dset_new)

text \<open>\<open>collections.Counter\<close>: a missing key counts zero.\<close>

definition count_of :: "('k, int) dict \<Rightarrow> 'k \<Rightarrow> int" where
  "count_of c x = (case dget c x of None \<Rightarrow> 0 | Some n \<Rightarrow> n)"

definition counter_add :: "'k \<Rightarrow> ('k, int) dict \<Rightarrow> ('k, int) dict" where
  "counter_add x c = dset x (count_of c x + 1) c"

definition counter :: "'k list \<Rightarrow> ('k, int) dict" where
  "counter xs = fold counter_add xs []"

lemma count_of_Nil [simp]: "count_of [] x = 0"
  by (simp add: count_of_def)

lemma count_of_dset [simp]: "count_of (dset k n c) x = (if x = k then n else count_of c x)"
  by (simp add: count_of_def)

lemma count_of_ddel [simp]: "count_of (ddel k c) x = (if x = k then 0 else count_of c x)"
  by (simp add: count_of_def)

lemma counter_add_props:
  "dict_ok c \<Longrightarrow> dict_ok (counter_add x c)"
  "count_of (counter_add x c) y = count_of c y + (if y = x then 1 else 0)"
  "fst ` set (counter_add x c) = insert x (fst ` set c)"
  using dkeys_dset [of x "count_of c x + 1" c] by (simp_all add: counter_add_def)

lemma fold_counter_add:
  "dict_ok c \<Longrightarrow> dict_ok (fold counter_add xs c)
    \<and> count_of (fold counter_add xs c) y = count_of c y + int (count_list xs y)
    \<and> fst ` set (fold counter_add xs c) = fst ` set c \<union> set xs"
  by (induction xs arbitrary: c) (auto simp: counter_add_props)

lemma dict_ok_counter [simp]: "dict_ok (counter xs)"
  and count_of_counter [simp]: "count_of (counter xs) y = int (count_list xs y)"
  and dkeys_counter [simp]: "fst ` set (counter xs) = set xs"
  using fold_counter_add [of "[]" xs y] fold_counter_add [of "[]" xs] by (simp_all add: counter_def)

lemma dget_counter: "dget (counter xs) y = (if y \<in> set xs then Some (int (count_list xs y)) else None)"
proof (cases "dget (counter xs) y")
  case None
  then have "y \<notin> fst ` set (counter xs)" by (simp add: map_of_eq_None_iff)
  then show ?thesis using None by simp
next
  case (Some n)
  then have "n = int (count_list xs y)" using count_of_counter [of xs y] by (simp add: count_of_def del: count_of_counter)
  moreover have "y \<in> fst ` set (counter xs)"
    using imageI [OF map_of_SomeD [OF Some], of fst] by (simp only: fst_conv)
  ultimately show ?thesis using Some by simp
qed

subsection \<open>Strings\<close>

definition code_pt :: "char \<Rightarrow> nat" where
  "code_pt c = of_char c"

definition is_space :: "char \<Rightarrow> bool" where
  "is_space c \<longleftrightarrow> (let n = code_pt c in
     (9 \<le> n \<and> n \<le> 13) \<or> (28 \<le> n \<and> n \<le> 32) \<or> n = 133 \<or> n = 160)"

definition lower_char :: "char \<Rightarrow> char" where
  "lower_char c = (let n = code_pt c in
     if (65 \<le> n \<and> n \<le> 90) \<or> (192 \<le> n \<and> n \<le> 222 \<and> n \<noteq> 215) then char_of (n + 32) else c)"

definition lower :: "string \<Rightarrow> string" where
  "lower = map lower_char"

definition is_digit :: "char \<Rightarrow> bool" where
  "is_digit c \<longleftrightarrow> (let n = code_pt c in 48 \<le> n \<and> n \<le> 57)"

definition is_alpha :: "char \<Rightarrow> bool" where
  "is_alpha c \<longleftrightarrow> (let n = code_pt c in
     (65 \<le> n \<and> n \<le> 90) \<or> (97 \<le> n \<and> n \<le> 122) \<or> n = 170 \<or> n = 181 \<or> n = 186
     \<or> (192 \<le> n \<and> n \<noteq> 215 \<and> n \<noteq> 247))"

text \<open>\<open>str.isalnum\<close> or underscore, the class \<open>\w\<close> of the \<open>re\<close> module.\<close>

definition is_word :: "char \<Rightarrow> bool" where
  "is_word c \<longleftrightarrow> (let n = code_pt c in
     is_alpha c \<or> is_digit c \<or> n = 95 \<or> n = 178 \<or> n = 179 \<or> n = 185 \<or> (188 \<le> n \<and> n \<le> 190))"

definition strip_by :: "(char \<Rightarrow> bool) \<Rightarrow> string \<Rightarrow> string" where
  "strip_by P s = rev (dropWhile P (rev (dropWhile P s)))"

abbreviation strip :: "string \<Rightarrow> string" where
  "strip \<equiv> strip_by is_space"

fun words :: "string \<Rightarrow> string list" where
  \<comment> \<open>\<open>str.split()\<close>: maximal runs of non-space characters\<close>
  "words [] = []"
| "words (c # cs) =
     (if is_space c then words cs
      else if cs = [] \<or> is_space (hd cs) then [c] # words cs
      else (case words cs of [] \<Rightarrow> [[c]] | w # ws \<Rightarrow> (c # w) # ws))"

fun join :: "string \<Rightarrow> string list \<Rightarrow> string" where
  "join sep [] = []"
| "join sep [x] = x"
| "join sep (x # y # xs) = x @ sep @ join sep (y # xs)"

lemma set_join: "c \<in> set (join sep ws) \<Longrightarrow> c \<in> set sep \<or> c \<in> set (concat ws)"
  by (induction sep ws rule: join.induct) auto

lemma sublist_join: "w \<in> set ws \<Longrightarrow> sublist w (join sep ws)"
proof (induction sep ws rule: join.induct)
  case (3 sep x y xs)
  show ?case
  proof (cases "w = x")
    case True
    then show ?thesis by (simp add: sublist_append_rightI)
  next
    case False
    then have "sublist w (join sep (y # xs))" using 3 by simp
    then show ?thesis by (metis append.assoc join.simps(3) sublist_order.order.trans sublist_append_leftI)
  qed
qed simp_all

lemma code_pt_less: "code_pt c < 256"
  by (simp add: code_pt_def)

lemma code_pt_char_of: "n < 256 \<Longrightarrow> code_pt (char_of n) = n"
  by (simp add: code_pt_def)

lemma lower_char_idem [simp]: "lower_char (lower_char c) = lower_char c"
  using code_pt_less [of c]
  by (auto simp: lower_char_def Let_def code_pt_char_of)

lemma lower_idem [simp]: "lower (lower s) = lower s"
  by (simp add: lower_def)

lemma length_lower [simp]: "length (lower s) = length s"
  by (simp add: lower_def)

lemma lower_append: "lower (s @ t) = lower s @ lower t"
  by (simp add: lower_def)

lemma is_space_lower [simp]: "is_space (lower_char c) = is_space c"
  using code_pt_less [of c]
  by (auto simp: lower_char_def is_space_def Let_def code_pt_char_of)

lemma space_is_space [simp]: "is_space CHR '' ''"
  by (simp add: is_space_def code_pt_def)

lemma lower_space [simp]: "lower_char CHR '' '' = CHR '' ''"
  by (simp add: lower_char_def code_pt_def)

lemma rstrip_prefix: "prefix (rev (dropWhile P (rev t))) t"
proof -
  have "suffix (dropWhile P (rev t)) (rev t)" by (rule suffix_dropWhile)
  then show ?thesis by (simp add: suffix_to_prefix)
qed

lemma hd_prefix: "prefix u t \<Longrightarrow> u \<noteq> [] \<Longrightarrow> hd u = hd t"
  by (auto simp: prefix_def)

lemma strip_by_hd: "strip_by P s \<noteq> [] \<Longrightarrow> \<not> P (hd (strip_by P s))"
proof -
  assume ne: "strip_by P s \<noteq> []"
  let ?t = "dropWhile P s"
  have pre: "prefix (strip_by P s) ?t" unfolding strip_by_def by (rule rstrip_prefix)
  then have "hd (strip_by P s) = hd ?t" using ne by (rule hd_prefix)
  moreover have "?t \<noteq> []" using pre ne by (metis prefix_Nil)
  ultimately show ?thesis using hd_dropWhile [of P s] by simp
qed

lemma strip_by_last: "strip_by P s \<noteq> [] \<Longrightarrow> \<not> P (last (strip_by P s))"
  unfolding strip_by_def using hd_dropWhile [of P "rev (dropWhile P s)"]
  by (simp add: last_rev)

lemma strip_by_id: "s = [] \<or> (\<not> P (hd s) \<and> \<not> P (last s)) \<Longrightarrow> strip_by P s = s"
proof -
  assume a: "s = [] \<or> (\<not> P (hd s) \<and> \<not> P (last s))"
  then have 1: "dropWhile P s = s" by (auto simp: dropWhile_eq_self_iff)
  from a have "dropWhile P (rev s) = rev s" by (auto simp: dropWhile_eq_self_iff hd_rev)
  with 1 show ?thesis by (simp add: strip_by_def)
qed

lemma strip_by_idem [simp]: "strip_by P (strip_by P s) = strip_by P s"
  using strip_by_hd strip_by_last by (blast intro: strip_by_id)

lemma strip_by_sublist: "sublist (strip_by P s) s"
proof -
  have "sublist (strip_by P s) (dropWhile P s)"
    unfolding strip_by_def by (rule prefix_imp_sublist [OF rstrip_prefix])
  moreover have "sublist (dropWhile P s) s" by simp
  ultimately show ?thesis by (rule sublist_order.order.trans)
qed

lemma length_strip_by_le: "length (strip_by P s) \<le> length s"
  using strip_by_sublist by (rule sublist_length_le)

lemma words_Cons_cases:
  obtains (space) "is_space c" "words (c # cs) = words cs"
  | (single) "\<not> is_space c" "cs = [] \<or> is_space (hd cs)" "words (c # cs) = [c] # words cs"
  | (grow) w ws where "\<not> is_space c" "cs \<noteq> []" "\<not> is_space (hd cs)" "words cs = w # ws"
      "words (c # cs) = (c # w) # ws"
  | (lone) "\<not> is_space c" "cs \<noteq> []" "\<not> is_space (hd cs)" "words cs = []" "words (c # cs) = [[c]]"
proof -
  consider "is_space c" | "\<not> is_space c" "cs = [] \<or> is_space (hd cs)"
    | "\<not> is_space c" "cs \<noteq> []" "\<not> is_space (hd cs)" by blast
  then show ?thesis
  proof cases
    case 1
    show ?thesis by (rule space) (use 1 in simp_all)
  next
    case 2
    show ?thesis by (rule single) (use 2 in simp_all)
  next
    case 3
    show ?thesis
    proof (cases "words cs")
      case Nil
      show ?thesis by (rule lone) (use 3 Nil in simp_all)
    next
      case (Cons w ws)
      show ?thesis by (rule grow [of w ws]) (use 3 Cons in simp_all)
    qed
  qed
qed

lemma words_no_space: "w \<in> set (words s) \<Longrightarrow> w \<noteq> [] \<and> (\<forall>c \<in> set w. \<not> is_space c)"
proof (induction s arbitrary: w)
  case (Cons c cs)
  show ?case
  proof (cases c cs rule: words_Cons_cases)
    case space
    with Cons show ?thesis by simp
  next
    case single
    with Cons show ?thesis by auto
  next
    case (grow v vs)
    have "w = c # v \<or> w \<in> set (words cs)" using Cons.prems unfolding grow by auto
    moreover have "v \<noteq> [] \<and> (\<forall>c \<in> set v. \<not> is_space c)" using Cons.IH [of v] grow by simp
    ultimately show ?thesis using Cons.IH [of w] grow(1) by auto
  next
    case lone
    with Cons.prems show ?thesis by simp
  qed
qed simp

lemma words_eq_Nil: "words s = [] \<longleftrightarrow> (\<forall>c \<in> set s. is_space c)"
proof (induction s)
  case (Cons c cs)
  show ?case
  proof (cases c cs rule: words_Cons_cases)
    case space
    then show ?thesis using Cons.IH by simp
  qed simp_all
qed simp

lemma words_word:
  "w \<noteq> [] \<Longrightarrow> \<forall>c \<in> set w. \<not> is_space c \<Longrightarrow>
   words (w @ CHR '' '' # s) = w # words s \<and> words w = [w]"
proof (induction w)
  case Nil
  then show ?case by simp
next
  case (Cons c w)
  then show ?case by (cases w) auto
qed

lemma words_join:
  "\<forall>w \<in> set ws. w \<noteq> [] \<and> (\<forall>c \<in> set w. \<not> is_space c) \<Longrightarrow> words (join '' '' ws) = ws"
proof (induction ws)
  case Nil
  then show ?case by simp
next
  case (Cons w ws)
  then show ?case using words_word [of w] by (cases ws) auto
qed

text \<open>
  A string is tidy when every space in it is a single blank.  Joining words gives a tidy
  string, a substring of a tidy string is tidy, and splitting a tidy string that does not
  end in a blank and joining it again only removes leading blanks.
\<close>

fun tidy :: "string \<Rightarrow> bool" where
  "tidy [] = True"
| "tidy [c] = (is_space c \<longrightarrow> c = CHR '' '')"
| "tidy (c # d # cs) =
     ((is_space c \<longrightarrow> c = CHR '' '' \<and> \<not> is_space d) \<and> tidy (d # cs))"

lemma tidy_appendD: "tidy (s @ t) \<Longrightarrow> tidy s \<and> tidy t"
proof (induction s rule: tidy.induct)
  case 1
  then show ?case by simp
next
  case (2 c)
  then show ?case by (cases t) auto
next
  case (3 c d cs)
  then show ?case by auto
qed

lemma tidy_sublist: "sublist s t \<Longrightarrow> tidy t \<Longrightarrow> tidy s"
  unfolding sublist_def using tidy_appendD by blast

lemma tidy_word: "\<forall>c \<in> set w. \<not> is_space c \<Longrightarrow> tidy w"
  by (induction w rule: tidy.induct) auto

lemma tidy_word_append:
  "\<forall>c \<in> set w. \<not> is_space c \<Longrightarrow> tidy t \<Longrightarrow> t \<noteq> [] \<Longrightarrow> \<not> is_space (hd t) \<Longrightarrow>
   tidy (w @ CHR '' '' # t)"
proof (induction w rule: tidy.induct)
  case 1
  then show ?case by (cases t) auto
next
  case (2 c)
  then show ?case by (cases t) auto
next
  case (3 c d cs)
  then show ?case by auto
qed

lemma tidy_join:
  "\<forall>w \<in> set ws. w \<noteq> [] \<and> (\<forall>c \<in> set w. \<not> is_space c) \<Longrightarrow>
   tidy (join '' '' ws) \<and> (ws \<noteq> [] \<longrightarrow> join '' '' ws \<noteq> [] \<and> hd (join '' '' ws) = hd (hd ws))"
proof (induction ws)
  case Nil
  then show ?case by simp
next
  case (Cons w ws)
  show ?case
  proof (cases ws)
    case Nil
    with Cons.prems show ?thesis by (simp add: tidy_word)
  next
    case (Cons y ys)
    with Cons.prems have "\<not> is_space (hd y)" by auto
    with Cons Cons.IH Cons.prems show ?thesis by (auto simp: tidy_word_append)
  qed
qed

lemma join_words_tidy:
  "tidy s \<Longrightarrow> s = [] \<or> \<not> is_space (last s) \<Longrightarrow> join '' '' (words s) = dropWhile is_space s"
proof (induction s rule: words.induct)
  case 1
  then show ?case by simp
next
  case (2 c cs)
  have t: "tidy cs" using "2.prems"(1) tidy_appendD [of "[c]" cs] by simp
  show ?case
  proof (cases "is_space c")
    case True
    with 2 t show ?thesis by (cases cs) auto
  next
    case c: False
    show ?thesis
    proof (cases cs)
      case Nil
      with c show ?thesis by simp
    next
      case (Cons d ds)
      have l: "\<not> is_space (last cs)" using "2.prems"(2) Cons by simp
      have "last cs \<in> set cs" using Cons by simp
      with l have ne: "words cs \<noteq> []"
        using words_eq_Nil [of cs] by blast
      have d: "tidy (d # ds)" using t Cons by simp
      show ?thesis
      proof (cases "is_space d")
        case True
        then have "d = CHR '' ''" "ds = [] \<or> \<not> is_space (hd ds)"
          using d by (cases ds; auto)+
        moreover have "join '' '' (words cs) = dropWhile is_space cs"
          using 2 c t l Cons True by simp
        ultimately show ?thesis using c Cons True ne l
          by (cases "words cs"; cases ds) auto
      next
        case False
        then have "join '' '' (words cs) = cs"
          using 2 c t l Cons by simp
        then show ?thesis using c Cons False ne
          by (cases "words cs" rule: remdups_adj.cases) (auto split: list.splits)
      qed
    qed
  qed
qed

subsection \<open>Decimal numerals\<close>

definition digit_char :: "nat \<Rightarrow> char" where
  "digit_char d = char_of (48 + d)"

fun str_nat :: "nat \<Rightarrow> string" where
  "str_nat n = (if n < 10 then [digit_char n] else str_nat (n div 10) @ [digit_char (n mod 10)])"

declare str_nat.simps [simp del]

definition str_int :: "int \<Rightarrow> string" where
  "str_int i = (if i < 0 then CHR ''-'' # str_nat (nat (- i)) else str_nat (nat i))"

text \<open>\<open>int(s)\<close> on a string of decimal digits\<close>

definition nat_of_digits :: "string \<Rightarrow> nat" where
  "nat_of_digits ds = foldl (\<lambda>a c. 10 * a + (code_pt c - 48)) 0 ds"

lemma is_digit_digit_char: "d < 10 \<Longrightarrow> is_digit (digit_char d)"
  by (simp add: is_digit_def digit_char_def Let_def code_pt_char_of)

lemma digit_char_value: "d < 10 \<Longrightarrow> code_pt (digit_char d) - 48 = d"
  by (simp add: digit_char_def code_pt_char_of)

lemma str_nat_digits: "str_nat n \<noteq> [] \<and> (\<forall>c \<in> set (str_nat n). is_digit c)"
proof (induction n rule: str_nat.induct)
  case (1 n)
  show ?case
  proof (cases "n < 10")
    case True
    then show ?thesis by (simp add: str_nat.simps [of n] is_digit_digit_char)
  next
    case False
    with "1.IH" show ?thesis by (auto simp: str_nat.simps [of n] is_digit_digit_char)
  qed
qed

lemma nat_of_digits_str_nat [simp]: "nat_of_digits (str_nat n) = n"
proof (induction n rule: str_nat.induct)
  case (1 n)
  show ?case
  proof (cases "n < 10")
    case True
    then show ?thesis by (simp add: str_nat.simps [of n] nat_of_digits_def digit_char_value)
  next
    case False
    with "1.IH" have "nat_of_digits (str_nat (n div 10)) = n div 10" by simp
    with False show ?thesis
      by (simp add: str_nat.simps [of n] nat_of_digits_def digit_char_value)
  qed
qed

lemma str_nat_inj: "str_nat m = str_nat n \<Longrightarrow> m = n"
  by (metis nat_of_digits_str_nat)

subsection \<open>Splitting at a character\<close>

text \<open>\<open>str.split(sep)\<close> for a one-character separator\<close>

fun split_on :: "char \<Rightarrow> string \<Rightarrow> string list" where
  "split_on c [] = [[]]"
| "split_on c (d # ds) =
     (if d = c then [] # split_on c ds
      else (case split_on c ds of [] \<Rightarrow> [[d]] | w # ws \<Rightarrow> (d # w) # ws))"

lemma split_on_ne [simp]: "split_on c s \<noteq> []"
  by (cases s) (auto split: list.split)

lemma split_on_free: "w \<in> set (split_on c s) \<Longrightarrow> c \<notin> set w"
proof (induction s arbitrary: w)
  case (Cons d s)
  then show ?case by (cases "split_on c s") (auto split: if_splits)
qed simp

lemma split_on_one: "c \<notin> set w \<Longrightarrow> split_on c w = [w]"
  by (induction w) auto

lemma split_on_word: "c \<notin> set w \<Longrightarrow> split_on c (w @ c # s) = w # split_on c s"
  by (induction w) auto

lemma split_on_join: "ws \<noteq> [] \<Longrightarrow> list_all (\<lambda>w. c \<notin> set w) ws \<Longrightarrow> split_on c (join [c] ws) = ws"
proof (induction ws)
  case (Cons w ws)
  then show ?case by (cases ws) (auto simp: split_on_word split_on_one)
qed simp

lemma concat_split_on: "concat (map (\<lambda>w. w @ [c]) (split_on c s)) = s @ [c]"
proof (induction s)
  case (Cons d s)
  obtain w ws where "split_on c s = w # ws" by (cases "split_on c s") simp_all
  then show ?case using Cons by auto
qed simp

end
