(* ===== verification/GraphSchema.thy ===== *)
theory GraphSchema
  imports Prelude
begin

section \<open>The closed vocabulary of the knowledge graph (app/graph/schema.py)\<close>

text \<open>
  Node labels, relationship types, the table of legal edges, key normalisation, and the two
  constructors \<open>GraphNode\<close> and \<open>GraphRelationship\<close> with the checks of their
  \<open>__post_init__\<close>.  The lemmas show that keys are stable under normalisation, that a
  constructed node or edge always fits the vocabulary, and that the \<open>uid\<close> strings the
  store uses as dictionary keys determine the node and the edge.
\<close>

subsection \<open>Labels, relationship types, legal edges\<close>

datatype NodeLabel =
    PAPER | AUTHOR | INSTITUTION | DATASET | MODEL | TASK | METRIC | METHOD | BENCHMARK | VENUE

datatype RelationType =
    AUTHORED_BY | AFFILIATED_WITH | CITES | EVALUATES_ON | USES_DATASET | PROPOSES
  | USES_METHOD | REPORTS | ADDRESSES | PUBLISHED_IN | COMPARES_TO

fun label_value :: "NodeLabel \<Rightarrow> string" where
  "label_value PAPER = ''Paper''"
| "label_value AUTHOR = ''Author''"
| "label_value INSTITUTION = ''Institution''"
| "label_value DATASET = ''Dataset''"
| "label_value MODEL = ''Model''"
| "label_value TASK = ''Task''"
| "label_value METRIC = ''Metric''"
| "label_value METHOD = ''Method''"
| "label_value BENCHMARK = ''Benchmark''"
| "label_value VENUE = ''Venue''"

fun rel_value :: "RelationType \<Rightarrow> string" where
  "rel_value AUTHORED_BY = ''AUTHORED_BY''"
| "rel_value AFFILIATED_WITH = ''AFFILIATED_WITH''"
| "rel_value CITES = ''CITES''"
| "rel_value EVALUATES_ON = ''EVALUATES_ON''"
| "rel_value USES_DATASET = ''USES_DATASET''"
| "rel_value PROPOSES = ''PROPOSES''"
| "rel_value USES_METHOD = ''USES_METHOD''"
| "rel_value REPORTS = ''REPORTS''"
| "rel_value ADDRESSES = ''ADDRESSES''"
| "rel_value PUBLISHED_IN = ''PUBLISHED_IN''"
| "rel_value COMPARES_TO = ''COMPARES_TO''"

definition all_labels :: "NodeLabel list" where
  "all_labels = [PAPER, AUTHOR, INSTITUTION, DATASET, MODEL, TASK, METRIC, METHOD, BENCHMARK, VENUE]"

definition ENTITY_LABELS :: "string list" where
  "ENTITY_LABELS = map label_value (filter (\<lambda>l. l \<noteq> PAPER) all_labels)"

definition ALLOWED_EDGES :: "(string, string \<times> string) dict" where
  "ALLOWED_EDGES =
    [(rel_value AUTHORED_BY, (label_value PAPER, label_value AUTHOR)),
     (rel_value AFFILIATED_WITH, (label_value AUTHOR, label_value INSTITUTION)),
     (rel_value CITES, (label_value PAPER, label_value PAPER)),
     (rel_value EVALUATES_ON, (label_value PAPER, label_value BENCHMARK)),
     (rel_value USES_DATASET, (label_value PAPER, label_value DATASET)),
     (rel_value PROPOSES, (label_value PAPER, label_value MODEL)),
     (rel_value USES_METHOD, (label_value PAPER, label_value METHOD)),
     (rel_value REPORTS, (label_value PAPER, label_value METRIC)),
     (rel_value ADDRESSES, (label_value PAPER, label_value TASK)),
     (rel_value PUBLISHED_IN, (label_value PAPER, label_value VENUE)),
     (rel_value COMPARES_TO, (label_value MODEL, label_value MODEL))]"

subsection \<open>Key normalisation\<close>

definition key_strip_char :: "char \<Rightarrow> bool" where
  "key_strip_char c \<longleftrightarrow> c \<in> set ('' .,;:()[]{}'' @ [CHR 0x22, CHR 0x27])"

definition normalize_key :: "string \<Rightarrow> string" where
  "normalize_key v = strip_by key_strip_char (join '' '' (words (lower v)))"

subsection \<open>Nodes and relationships\<close>

text \<open>
  A node's \<open>properties\<close> dictionary is a mutable object that the store updates in place and
  that nodes held elsewhere may share, so a node carries a reference \<open>n_props\<close> to it; the
  store's heap (theory \<open>GraphStore\<close>) holds its contents.
\<close>

record graph_node =
  n_label :: string
  n_key :: string
  n_props :: nat

record graph_rel =
  r_type :: string
  r_start :: graph_node
  r_end :: graph_node
  r_props :: nat

definition GraphNode :: "string \<Rightarrow> string \<Rightarrow> nat \<Rightarrow> graph_node res" where
  "GraphNode label key props =
     (if label \<notin> set (map label_value all_labels) then Inl (ValueError ''Unknown node label'')
      else let k = normalize_key key in
        if k = [] then Inl (ValueError ''Graph nodes need a non-empty key'')
        else Inr \<lparr>n_label = label, n_key = k, n_props = props\<rparr>)"

definition node_uid :: "graph_node \<Rightarrow> string" where
  "node_uid n = n_label n @ '':'' @ n_key n"

definition GraphRelationship ::
    "string \<Rightarrow> graph_node \<Rightarrow> graph_node \<Rightarrow> nat \<Rightarrow> graph_rel res" where
  "GraphRelationship ty start end props =
     (case dget ALLOWED_EDGES ty of
        None \<Rightarrow> Inl (ValueError ''Unknown relationship type'')
      | Some expected \<Rightarrow>
          if (n_label start, n_label end) \<noteq> expected then Inl (ValueError ''wrong endpoints'')
          else Inr \<lparr>r_type = ty, r_start = start, r_end = end, r_props = props\<rparr>)"

definition rel_uid :: "graph_rel \<Rightarrow> string" where
  "rel_uid e = node_uid (r_start e) @ ''-['' @ r_type e @ '']->'' @ node_uid (r_end e)"

subsection \<open>What the constructors guarantee\<close>

definition node_ok :: "graph_node \<Rightarrow> bool" where
  "node_ok n \<longleftrightarrow> n_label n \<in> set (map label_value all_labels)
     \<and> n_key n \<noteq> [] \<and> normalize_key (n_key n) = n_key n"

definition rel_ok :: "graph_rel \<Rightarrow> bool" where
  "rel_ok e \<longleftrightarrow> node_ok (r_start e) \<and> node_ok (r_end e)
     \<and> dget ALLOWED_EDGES (r_type e) = Some (n_label (r_start e), n_label (r_end e))"

lemma space_strip [simp]: "key_strip_char CHR '' ''"
  by (simp add: key_strip_char_def)

lemma lower_char_lower: "lower s = s \<longleftrightarrow> (\<forall>c \<in> set s. lower_char c = c)"
  unfolding lower_def by (induction s) auto

lemma set_words: "c \<in> set (concat (words s)) \<Longrightarrow> c \<in> set s"
proof (induction s)
  case (Cons d s)
  then show ?case by (cases d s rule: words_Cons_cases) auto
qed simp

lemma normalize_key_lower: "lower (normalize_key v) = normalize_key v"
proof -
  have "lower_char c = c" if c: "c \<in> set (normalize_key v)" for c
  proof -
    have "c \<in> set (join '' '' (words (lower v)))"
      using c set_mono_sublist [OF strip_by_sublist] unfolding normalize_key_def by blast
    then have "c = CHR '' '' \<or> c \<in> set (lower v)"
      using set_join set_words by fastforce
    then show ?thesis by (auto simp: lower_def)
  qed
  then show ?thesis by (simp add: lower_char_lower)
qed

lemma normalize_key_tidy: "tidy (normalize_key v)"
  unfolding normalize_key_def
  using strip_by_sublist tidy_sublist tidy_join words_no_space by blast

text \<open>Normalising a key twice is normalising it once, so a key read back from a stored
  node addresses the same node.\<close>

lemma normalize_key_idem: "normalize_key (normalize_key v) = normalize_key v"
proof -
  let ?k = "normalize_key v"
  have sp: "\<not> is_space c" if "c \<in> set ?k" "\<not> key_strip_char c" for c
  proof
    assume "is_space c"
    moreover have "tidy [c]" using normalize_key_tidy [of v] \<open>c \<in> set ?k\<close>
      by (metis append_Cons append_Nil in_set_conv_decomp tidy_appendD)
    ultimately have "c = CHR '' ''" by simp
    then show False using that(2) by simp
  qed
  have ends: "?k = [] \<or> (\<not> key_strip_char (hd ?k) \<and> \<not> key_strip_char (last ?k))"
    unfolding normalize_key_def using strip_by_hd strip_by_last by blast
  then have "?k = [] \<or> (\<not> is_space (hd ?k) \<and> \<not> is_space (last ?k))"
    using sp by (metis hd_in_set last_in_set)
  then have "join '' '' (words ?k) = ?k"
    using join_words_tidy [OF normalize_key_tidy [of v]] by (auto simp: dropWhile_eq_self_iff)
  then show ?thesis
    using ends strip_by_id unfolding normalize_key_def [of ?k] normalize_key_lower by simp
qed

lemma GraphNode_Inr_conv:
  "GraphNode label key props = Inr n \<longleftrightarrow>
     label \<in> set (map label_value all_labels) \<and> normalize_key key \<noteq> []
     \<and> n = \<lparr>n_label = label, n_key = normalize_key key, n_props = props\<rparr>"
  by (auto simp: GraphNode_def Let_def)

lemma GraphNode_ok: "GraphNode label key props = Inr n \<Longrightarrow> node_ok n"
  by (auto simp: GraphNode_Inr_conv node_ok_def normalize_key_idem)

lemma GraphRelationship_Inr_conv:
  "GraphRelationship ty s e props = Inr r \<longleftrightarrow>
     dget ALLOWED_EDGES ty = Some (n_label s, n_label e)
     \<and> r = \<lparr>r_type = ty, r_start = s, r_end = e, r_props = props\<rparr>"
  by (auto simp: GraphRelationship_def split: option.splits)

lemma GraphRelationship_ok:
  "GraphRelationship ty s e props = Inr r \<Longrightarrow> node_ok s \<Longrightarrow> node_ok e \<Longrightarrow> rel_ok r"
  by (auto simp: GraphRelationship_Inr_conv rel_ok_def)

subsection \<open>Identifiers determine nodes and edges\<close>

lemma append_sep_inj:
  "x \<notin> set a \<Longrightarrow> x \<notin> set b \<Longrightarrow> a @ x # c = b @ x # d \<longleftrightarrow> a = b \<and> c = d"
proof (induction a arbitrary: b)
  case Nil
  then show ?case by (cases b) auto
next
  case (Cons y a)
  then show ?case by (cases b) auto
qed

lemma label_no_colon: "l \<in> set (map label_value all_labels) \<Longrightarrow> CHR '':'' \<notin> set l"
  by (auto simp: all_labels_def)

lemma node_uid_split:
  "node_ok a \<Longrightarrow> node_ok b \<Longrightarrow> n_label a @ '':'' @ s = n_label b @ '':'' @ t \<longleftrightarrow>
   n_label a = n_label b \<and> s = t"
  using append_sep_inj [of "CHR '':''" "n_label a" "n_label b"] label_no_colon
  by (auto simp: node_ok_def)

text \<open>The \<open>uid\<close> under which the store files a node determines its label and its key:
  two distinct valid nodes never collide.\<close>

theorem node_uid_inj:
  assumes "node_ok a" and "node_ok b" and "node_uid a = node_uid b"
  shows "n_label a = n_label b \<and> n_key a = n_key b"
  using assms node_uid_split by (simp add: node_uid_def)

lemma node_uid_inj_witness:
  "node_uid \<lparr>n_label = ''Paper'', n_key = ''p1'', n_props = 0\<rparr> = ''Paper:p1''
   \<and> n_key \<lparr>n_label = ''Paper'', n_key = ''p1'', n_props = 0\<rparr> = ''p1''"
proof -
  let ?n = "\<lparr>n_label = ''Paper'', n_key = ''p1'', n_props = 0\<rparr>"
  have ok: "node_ok ?n" by code_simp
  have "node_uid ?n = node_uid (?n\<lparr>n_props := 1\<rparr>)" by (simp add: node_uid_def)
  moreover have "node_ok (?n\<lparr>n_props := 1\<rparr>)" by code_simp
  ultimately have "n_key ?n = n_key (?n\<lparr>n_props := 1\<rparr>)" using node_uid_inj [OF ok] by blast
  then show ?thesis by (simp add: node_uid_def)
qed

lemma upper_not_lower: "65 \<le> code_pt c \<Longrightarrow> code_pt c \<le> 90 \<Longrightarrow> lower_char c \<noteq> c"
proof
  assume a: "65 \<le> code_pt c" "code_pt c \<le> 90" "lower_char c = c"
  from a(1,2) have "code_pt (lower_char c) = code_pt c + 32"
    by (simp add: lower_char_def code_pt_char_of)
  with a(3) show False by simp
qed

lemma allowed_type_upper:
  "dget ALLOWED_EDGES t = Some p \<Longrightarrow>
   t \<noteq> [] \<and> 65 \<le> code_pt (hd t) \<and> code_pt (hd t) \<le> 90 \<and> CHR '']'' \<notin> set t"
  by (auto simp: ALLOWED_EDGES_def code_pt_def split: if_splits)

lemma allowed_type:
  "dget ALLOWED_EDGES t = Some p \<Longrightarrow>
   t \<noteq> [] \<and> lower_char (hd t) \<noteq> hd t \<and> CHR '']'' \<notin> set t"
  using allowed_type_upper upper_not_lower by blast

lemma key_lower: "node_ok n \<Longrightarrow> c \<in> set (n_key n) \<Longrightarrow> lower_char c = c"
  using normalize_key_lower lower_char_lower unfolding node_ok_def by metis

text \<open>
  A key is in lower case and a relationship type starts with a capital, so the separator
  \<open>-[T\<close> cannot start inside a key, whatever characters the key holds.
\<close>

lemma key_sep_inj:
  assumes "\<forall>c \<in> set k. lower_char c = c" "\<forall>c \<in> set k'. lower_char c = c"
    and "lower_char (hd t) \<noteq> hd t" "lower_char (hd t') \<noteq> hd t'" "t \<noteq> []" "t' \<noteq> []"
    and "k @ ''-['' @ t @ r = k' @ ''-['' @ t' @ r'"
  shows "k = k' \<and> t @ r = t' @ r'"
  using assms
proof (induction k arbitrary: k')
  case Nil
  have dash: "lower_char (CHR ''-'') = CHR ''-''" by (simp add: lower_char_def code_pt_def)
  show ?case
  proof (cases k')
    case Nil
    with Nil.prems show ?thesis by simp
  next
    case (Cons c k1)
    note c = this
    show ?thesis
    proof (cases k1)
      case Nil
      with c Nil.prems show ?thesis by simp
    next
      case (Cons d k2)
      with c Nil.prems dash show ?thesis
        by (cases k2; cases t) auto
    qed
  qed
next
  case (Cons c k)
  have dash: "lower_char (CHR ''-'') = CHR ''-''" by (simp add: lower_char_def code_pt_def)
  show ?case
  proof (cases k')
    case Nil
    show ?thesis
    proof (cases k)
      case Nil
      with \<open>k' = []\<close> Cons.prems show ?thesis by simp
    next
      case (Cons d k2)
      with \<open>k' = []\<close> Cons.prems dash show ?thesis
        by (cases k2; cases t') auto
    qed
  next
    case (Cons c' k1)
    with Cons.prems Cons.IH [of k1] show ?thesis by simp
  qed
qed

text \<open>The \<open>uid\<close> under which the store files an edge determines the edge's type and both
  endpoints: valid edges never collide, whatever characters their keys hold.\<close>

theorem rel_uid_inj:
  assumes "rel_ok e" and "rel_ok f" and eq: "rel_uid e = rel_uid f"
  shows "r_type e = r_type f \<and> node_uid (r_start e) = node_uid (r_start f)
     \<and> node_uid (r_end e) = node_uid (r_end f)"
proof -
  note ok = assms(1,2) [unfolded rel_ok_def]
  have te: "r_type e \<noteq> []" "lower_char (hd (r_type e)) \<noteq> hd (r_type e)"
      "CHR '']'' \<notin> set (r_type e)"
    and tf: "r_type f \<noteq> []" "lower_char (hd (r_type f)) \<noteq> hd (r_type f)"
      "CHR '']'' \<notin> set (r_type f)"
    using ok allowed_type by blast+
  from eq have "n_label (r_start e) = n_label (r_start f)"
    and tails: "n_key (r_start e) @ ''-['' @ r_type e @ '']->'' @ node_uid (r_end e)
      = n_key (r_start f) @ ''-['' @ r_type f @ '']->'' @ node_uid (r_end f)"
    using node_uid_split [of "r_start e" "r_start f"] ok
    by (simp_all add: rel_uid_def node_uid_def)
  moreover have "n_key (r_start e) = n_key (r_start f)
      \<and> r_type e @ '']->'' @ node_uid (r_end e) = r_type f @ '']->'' @ node_uid (r_end f)"
    by (rule key_sep_inj [OF _ _ te(2) tf(2) te(1) tf(1) tails]) (use ok key_lower in blast)+
  moreover from this have "r_type e = r_type f \<and> node_uid (r_end e) = node_uid (r_end f)"
    using append_sep_inj [OF te(3) tf(3)] by simp
  ultimately show ?thesis by (simp add: node_uid_def)
qed

definition sample_edge :: "nat \<Rightarrow> graph_rel" where
  "sample_edge ref = \<lparr>r_type = ''COMPARES_TO'',
     r_start = \<lparr>n_label = ''Model'', n_key = ''a-[x]->model:b'', n_props = 0\<rparr>,
     r_end = \<lparr>n_label = ''Model'', n_key = ''bert'', n_props = 0\<rparr>, r_props = ref\<rparr>"

lemma rel_uid_inj_witness:
  "rel_ok (sample_edge 0) \<and> rel_ok (sample_edge 1) \<and> rel_uid (sample_edge 0) = rel_uid (sample_edge 1)
   \<and> r_type (sample_edge 0) = r_type (sample_edge 1)"
proof -
  have 1: "rel_ok (sample_edge 0)" and 2: "rel_ok (sample_edge 1)" by code_simp+
  have 3: "rel_uid (sample_edge 0) = rel_uid (sample_edge 1)"
    by (simp add: rel_uid_def sample_edge_def)
  from rel_uid_inj [OF 1 2 3] 1 2 3 show ?thesis by simp
qed

end
