(* ===== verification/GraphStore.thy ===== *)
theory GraphStore
  imports GraphSchema "HOL-Library.List_Lexorder"
begin

section \<open>The in-memory graph store (InMemoryGraphStore of app/graph/store.py)\<close>

text \<open>
  The state is the dictionary of nodes by uid, the dictionary of edges by uid, the two
  adjacency indexes (\<open>defaultdict(set)\<close>: an absent key is an empty set), and a heap with
  the contents of the property dictionaries, which the store updates in place.  A set of
  edge uids is a list without repetition; the order in which Python iterates over a set of
  strings is not specified, so \<open>neighbors\<close> takes it as an argument \<open>it\<close>.  Persistence
  is modelled as the payload written and read back; the file itself is not.
\<close>

type_synonym props = "(string, pyval) dict"

record graph_store =
  g_nodes :: "(string, graph_node) dict"
  g_edges :: "(string, graph_rel) dict"
  g_out :: "string \<Rightarrow> string list"
  g_in :: "string \<Rightarrow> string list"
  g_heap :: "nat \<Rightarrow> props"

definition empty_store :: graph_store where
  "empty_store = \<lparr>g_nodes = [], g_edges = [], g_out = (\<lambda>_. []), g_in = (\<lambda>_. []),
     g_heap = (\<lambda>_. [])\<rparr>"

subsection \<open>Updates\<close>

definition set_add :: "'a \<Rightarrow> 'a list \<Rightarrow> 'a list" where
  "set_add x xs = (if x \<in> set xs then xs else xs @ [x])"

definition register_edge :: "graph_rel \<Rightarrow> graph_store \<Rightarrow> graph_store" where
  "register_edge e s =
     (let u = rel_uid e; a = node_uid (r_start e); b = node_uid (r_end e)
      in s\<lparr>g_edges := dset u e (g_edges s),
           g_out := (g_out s)(a := set_add u (g_out s a)),
           g_in := (g_in s)(b := set_add u (g_in s b))\<rparr>)"

definition upsert_node :: "graph_node \<Rightarrow> graph_store \<Rightarrow> graph_store" where
  "upsert_node n s =
     (case dget (g_nodes s) (node_uid n) of
        None \<Rightarrow> s\<lparr>g_nodes := dset (node_uid n) n (g_nodes s)\<rparr>
      | Some existing \<Rightarrow>
          s\<lparr>g_heap := (g_heap s)(n_props existing :=
               dict_update (g_heap s (n_props existing)) (g_heap s (n_props n)))\<rparr>)"

definition upsert_nodes :: "graph_node list \<Rightarrow> graph_store \<Rightarrow> graph_store \<times> nat" where
  "upsert_nodes ns s = (if ns = [] then (s, 0) else (fold upsert_node ns s, length ns))"

definition setdefault_node :: "graph_node \<Rightarrow> graph_store \<Rightarrow> graph_store" where
  "setdefault_node n s =
     (if dget (g_nodes s) (node_uid n) = None
      then s\<lparr>g_nodes := dset (node_uid n) n (g_nodes s)\<rparr> else s)"

definition upsert_relationship :: "graph_rel \<Rightarrow> graph_store \<Rightarrow> graph_store" where
  "upsert_relationship e s =
     register_edge e (setdefault_node (r_end e) (setdefault_node (r_start e) s))"

definition upsert_relationships :: "graph_rel list \<Rightarrow> graph_store \<Rightarrow> graph_store \<times> nat" where
  "upsert_relationships es s =
     (if es = [] then (s, 0) else (fold upsert_relationship es s, length es))"

definition detach_edge :: "string \<Rightarrow> graph_store \<Rightarrow> graph_store" where
  "detach_edge u s =
     (case dget (g_edges s) u of
        None \<Rightarrow> s
      | Some e \<Rightarrow>
          let a = node_uid (r_start e); b = node_uid (r_end e)
          in s\<lparr>g_edges := ddel u (g_edges s),
               g_out := (g_out s)(a := removeAll u (g_out s a)),
               g_in := (g_in s)(b := removeAll u (g_in s b))\<rparr>)"

definition delete_paper :: "string \<Rightarrow> graph_store \<Rightarrow> graph_store \<times> nat" where
  "delete_paper paper_id s =
     (let uid = ''Paper:'' @ lower paper_id in
      if dget (g_nodes s) uid = None then (s, 0)
      else let attached = remdups (g_out s uid @ g_in s uid);
               s1 = s\<lparr>g_out := (g_out s)(uid := []), g_in := (g_in s)(uid := [])\<rparr>;
               s2 = fold detach_edge attached s1
           in (s2\<lparr>g_nodes := ddel uid (g_nodes s2)\<rparr>, length attached + 1))"

subsection \<open>Queries\<close>

record hit =
  h_node :: graph_node
  h_rel :: string
  h_dir :: string
  h_dist :: nat

text \<open>The two inner loops of \<open>neighbors\<close>; the state is \<open>(seen, next_frontier, hits)\<close>.\<close>

type_synonym bfs_state = "string list \<times> string list \<times> hit list"

fun scan_edges ::
    "graph_store \<Rightarrow> string list \<Rightarrow> nat \<Rightarrow> bool \<Rightarrow> string list \<Rightarrow> bfs_state \<Rightarrow> bfs_state res" where
  "scan_edges s wanted d fwd [] st = Inr st"
| "scan_edges s wanted d fwd (eu # eus) (seen, nxt, hits) =
     (case dget (g_edges s) eu of
        None \<Rightarrow> Inl KeyError
      | Some e \<Rightarrow>
          if wanted \<noteq> [] \<and> r_type e \<notin> set wanted then scan_edges s wanted d fwd eus (seen, nxt, hits)
          else let t = (if fwd then r_end e else r_start e); u = node_uid t in
            if u \<in> set seen then scan_edges s wanted d fwd eus (seen, nxt, hits)
            else scan_edges s wanted d fwd eus
              (u # seen, nxt @ [u],
               hits @ [\<lparr>h_node = t, h_rel = r_type e,
                 h_dir = (if fwd then ''out'' else ''in''), h_dist = d\<rparr>]))"

fun scan_frontier ::
    "(string list \<Rightarrow> string list) \<Rightarrow> graph_store \<Rightarrow> string list \<Rightarrow> nat \<Rightarrow> string list
      \<Rightarrow> bfs_state \<Rightarrow> bfs_state res" where
  "scan_frontier it s wanted d [] st = Inr st"
| "scan_frontier it s wanted d (uid # uids) st =
     bind_res (scan_edges s wanted d True (it (g_out s uid)) st) (\<lambda>st1.
     bind_res (scan_edges s wanted d False (it (g_in s uid)) st1) (\<lambda>st2.
     scan_frontier it s wanted d uids st2))"

fun walk ::
    "(string list \<Rightarrow> string list) \<Rightarrow> graph_store \<Rightarrow> string list \<Rightarrow> nat \<Rightarrow> nat
      \<Rightarrow> string list \<Rightarrow> string list \<Rightarrow> hit list \<Rightarrow> hit list res" where
  "walk it s wanted 0 d frontier seen hits = Inr hits"
| "walk it s wanted (Suc n) d frontier seen hits =
     bind_res (scan_frontier it s wanted d frontier (seen, [], hits)) (\<lambda>(seen', nxt, hits').
       if nxt = [] then Inr hits' else walk it s wanted n (Suc d) nxt seen' hits')"

definition neighbors ::
    "(string list \<Rightarrow> string list) \<Rightarrow> graph_store \<Rightarrow> string \<Rightarrow> string \<Rightarrow> int \<Rightarrow> string list \<Rightarrow> int
      \<Rightarrow> hit list res" where
  "neighbors it s label key depth relationship_types limit =
     (let start_uid = label @ '':'' @ normalize_key key in
      if dget (g_nodes s) start_uid = None then Inr []
      else bind_res
        (walk it s relationship_types (nat (max depth 1)) 1 [start_uid] [start_uid] [])
        (\<lambda>hits. Inr (py_take limit hits)))"

definition find_nodes :: "graph_store \<Rightarrow> string \<Rightarrow> string option \<Rightarrow> int \<Rightarrow> graph_node list" where
  "find_nodes s label contains limit =
     (let needle = strip (lower (case contains of None \<Rightarrow> [] | Some c \<Rightarrow> c));
          found = filter (\<lambda>n. n_label n = label \<and> (needle = [] \<or> sublist needle (n_key n)))
            (dvalues (g_nodes s))
      in py_take limit (sort_key (\<lambda>n. map code_pt (n_key n)) found))"

definition counts :: "graph_store \<Rightarrow> (string, nat) dict" where
  "counts s =
     dset ''_relationships'' (length (g_edges s))
       (fold (\<lambda>n d. dset (n_label n) (Suc (case dget d (n_label n) of None \<Rightarrow> 0 | Some c \<Rightarrow> c)) d)
         (dvalues (g_nodes s)) [])"

subsection \<open>The representation invariant\<close>

text \<open>
  Every node and edge is filed under its own uid, both endpoints of every edge are stored,
  and the adjacency indexes list exactly the edges that leave, respectively enter, a node.
\<close>

definition nodes_wf :: "graph_store \<Rightarrow> bool" where
  "nodes_wf s \<longleftrightarrow> dict_ok (g_nodes s)
     \<and> (\<forall>u n. dget (g_nodes s) u = Some n \<longrightarrow> node_ok n \<and> node_uid n = u)"

definition edges_wf :: "graph_store \<Rightarrow> bool" where
  "edges_wf s \<longleftrightarrow> dict_ok (g_edges s)
     \<and> (\<forall>u e. dget (g_edges s) u = Some e \<longrightarrow> rel_ok e \<and> rel_uid e = u
          \<and> dget (g_nodes s) (node_uid (r_start e)) \<noteq> None
          \<and> dget (g_nodes s) (node_uid (r_end e)) \<noteq> None)"

definition adj_wf :: "graph_store \<Rightarrow> bool" where
  "adj_wf s \<longleftrightarrow>
     (\<forall>v. distinct (g_out s v) \<and> set (g_out s v)
        = {u. \<exists>e. dget (g_edges s) u = Some e \<and> node_uid (r_start e) = v})
   \<and> (\<forall>v. distinct (g_in s v) \<and> set (g_in s v)
        = {u. \<exists>e. dget (g_edges s) u = Some e \<and> node_uid (r_end e) = v})"

definition store_wf :: "graph_store \<Rightarrow> bool" where
  "store_wf s \<longleftrightarrow> nodes_wf s \<and> edges_wf s \<and> adj_wf s"

lemma store_wf_empty [inv_intros]: "store_wf empty_store"
  by (simp add: store_wf_def nodes_wf_def edges_wf_def adj_wf_def empty_store_def)

lemma nodes_wf_add:
  "nodes_wf s \<Longrightarrow> node_ok n \<Longrightarrow> nodes_wf (s\<lparr>g_nodes := dset (node_uid n) n (g_nodes s)\<rparr>)"
  by (auto simp: nodes_wf_def)

lemma store_wf_add_node:
  "store_wf s \<Longrightarrow> node_ok n \<Longrightarrow> store_wf (s\<lparr>g_nodes := dset (node_uid n) n (g_nodes s)\<rparr>)"
  using nodes_wf_add by (auto simp: store_wf_def edges_wf_def adj_wf_def)

lemma store_wf_heap [simp]: "store_wf (s\<lparr>g_heap := h\<rparr>) = store_wf s"
  by (simp add: store_wf_def nodes_wf_def edges_wf_def adj_wf_def)

lemma store_wf_upsert_node [inv_intros]:
  "store_wf s \<Longrightarrow> node_ok n \<Longrightarrow> store_wf (upsert_node n s)"
  using store_wf_add_node by (simp add: upsert_node_def split: option.split)

lemma store_wf_setdefault [inv_intros]:
  "store_wf s \<Longrightarrow> node_ok n \<Longrightarrow> store_wf (setdefault_node n s)"
  using store_wf_add_node by (simp add: setdefault_node_def)

lemma setdefault_present [simp]:
  "dget (g_nodes (setdefault_node n s)) (node_uid n) \<noteq> None"
  by (auto simp: setdefault_node_def)

lemma setdefault_mono:
  "dget (g_nodes s) u \<noteq> None \<Longrightarrow> dget (g_nodes (setdefault_node n s)) u \<noteq> None"
  by (simp add: setdefault_node_def)

lemma distinct_set_add [simp]: "distinct (set_add x xs) = distinct xs"
  by (simp add: set_add_def)

lemma set_set_add [simp]: "set (set_add x xs) = insert x (set xs)"
  by (auto simp: set_add_def)

text \<open>
  Registering an edge whose uid is already present replaces an edge with the same endpoints,
  because uids determine them; without that the indexes would keep a stale entry.
\<close>

lemma adj_wf_register:
  assumes "edges_wf s" "adj_wf s" "rel_ok e"
  shows "adj_wf (register_edge e s)"
proof -
  have old: "node_uid (r_start f) = node_uid (r_start e) \<and> node_uid (r_end f) = node_uid (r_end e)"
    if "dget (g_edges s) (rel_uid e) = Some f" for f
    using that assms rel_uid_inj [of f e] by (auto simp: edges_wf_def)
  show ?thesis
    using assms(2) old
    unfolding adj_wf_def register_edge_def Let_def by (auto split: if_splits)
qed

lemma store_wf_register [inv_intros]:
  assumes "store_wf s" "rel_ok e"
    and "dget (g_nodes s) (node_uid (r_start e)) \<noteq> None"
    and "dget (g_nodes s) (node_uid (r_end e)) \<noteq> None"
  shows "store_wf (register_edge e s)"
proof -
  have "nodes_wf (register_edge e s)"
    using assms by (simp add: store_wf_def nodes_wf_def register_edge_def Let_def)
  moreover have "edges_wf (register_edge e s)"
    using assms by (auto simp: store_wf_def edges_wf_def register_edge_def Let_def)
  ultimately show ?thesis using assms adj_wf_register by (simp add: store_wf_def)
qed

lemma store_wf_upsert_relationship [inv_intros]:
  assumes "store_wf s" "rel_ok e"
  shows "store_wf (upsert_relationship e s)"
proof -
  have n: "node_ok (r_start e)" "node_ok (r_end e)" using assms(2) by (auto simp: rel_ok_def)
  show ?thesis unfolding upsert_relationship_def
    by (intro store_wf_register store_wf_setdefault assms n setdefault_present setdefault_mono)
qed

lemma store_wf_fold:
  "(\<And>x s. x \<in> set xs \<Longrightarrow> store_wf s \<Longrightarrow> store_wf (f x s)) \<Longrightarrow> store_wf s \<Longrightarrow> store_wf (fold f xs s)"
  by (induction xs arbitrary: s) auto

lemma store_wf_upsert_nodes [inv_intros]:
  "store_wf s \<Longrightarrow> \<forall>n \<in> set ns. node_ok n \<Longrightarrow> store_wf (fst (upsert_nodes ns s))"
  by (auto simp: upsert_nodes_def intro!: store_wf_fold store_wf_upsert_node)

lemma store_wf_upsert_relationships [inv_intros]:
  "store_wf s \<Longrightarrow> \<forall>e \<in> set es. rel_ok e \<Longrightarrow> store_wf (fst (upsert_relationships es s))"
  by (auto simp: upsert_relationships_def intro!: store_wf_fold store_wf_upsert_relationship)

subsection \<open>Deleting a paper\<close>

text \<open>Edge uids in an index name a stored edge at that node: what \<open>detach_edge\<close> relies on.\<close>

definition adj_sound :: "graph_store \<Rightarrow> bool" where
  "adj_sound s \<longleftrightarrow>
     (\<forall>v. \<forall>u \<in> set (g_out s v). \<exists>e. dget (g_edges s) u = Some e \<and> node_uid (r_start e) = v)
   \<and> (\<forall>v. \<forall>u \<in> set (g_in s v). \<exists>e. dget (g_edges s) u = Some e \<and> node_uid (r_end e) = v)"

lemma detach_edge_eq:
  assumes "adj_sound s"
  shows "detach_edge u s = s\<lparr>g_edges := ddel u (g_edges s),
           g_out := (\<lambda>v. removeAll u (g_out s v)), g_in := (\<lambda>v. removeAll u (g_in s v))\<rparr>"
proof (cases "dget (g_edges s) u")
  case None
  then have "u \<notin> set (g_out s v)" "u \<notin> set (g_in s v)" for v
    using assms unfolding adj_sound_def by (metis option.distinct(1))+
  moreover have "ddel u (g_edges s) = g_edges s"
    using None by (simp add: map_of_eq_None_iff)
  ultimately show ?thesis using None by (simp add: detach_edge_def)
next
  case (Some e)
  have "v \<noteq> node_uid (r_start e) \<Longrightarrow> u \<notin> set (g_out s v)"
    and "v \<noteq> node_uid (r_end e) \<Longrightarrow> u \<notin> set (g_in s v)" for v
    using assms Some by (fastforce simp: adj_sound_def)+
  then have "(g_out s)(node_uid (r_start e) := removeAll u (g_out s (node_uid (r_start e))))
        = (\<lambda>v. removeAll u (g_out s v))"
    and "(g_in s)(node_uid (r_end e) := removeAll u (g_in s (node_uid (r_end e))))
        = (\<lambda>v. removeAll u (g_in s v))"
    by (auto simp: fun_eq_iff)
  then show ?thesis using Some by (simp add: detach_edge_def)
qed

lemma adj_sound_detach: "adj_sound s \<Longrightarrow> adj_sound (detach_edge u s)"
  by (auto simp: detach_edge_eq) (auto simp: adj_sound_def)

lemma removeAll_filter: "removeAll u xs = filter (\<lambda>x. x \<noteq> u) xs"
  by (induction xs) auto

lemma ddel_filter: "ddel u d = filter (\<lambda>p. fst p \<noteq> u) d"
  by (induction d) auto

lemma fold_detach_eq:
  "adj_sound s \<Longrightarrow> fold detach_edge us s = s\<lparr>g_edges := filter (\<lambda>p. fst p \<notin> set us) (g_edges s),
     g_out := (\<lambda>v. filter (\<lambda>u. u \<notin> set us) (g_out s v)),
     g_in := (\<lambda>v. filter (\<lambda>u. u \<notin> set us) (g_in s v))\<rparr>"
proof (induction us arbitrary: s)
  case Nil
  then show ?case by simp
next
  case (Cons u us)
  have "fold detach_edge (u # us) s = fold detach_edge us (detach_edge u s)" by simp
  also have "\<dots> = (detach_edge u s)\<lparr>
      g_edges := filter (\<lambda>p. fst p \<notin> set us) (g_edges (detach_edge u s)),
      g_out := (\<lambda>v. filter (\<lambda>u. u \<notin> set us) (g_out (detach_edge u s) v)),
      g_in := (\<lambda>v. filter (\<lambda>u. u \<notin> set us) (g_in (detach_edge u s) v))\<rparr>"
    by (rule Cons.IH [OF adj_sound_detach [OF Cons.prems]])
  finally show ?case
    using Cons.prems
    by (simp add: detach_edge_eq ddel_filter removeAll_filter)
qed

definition incident :: "string \<Rightarrow> graph_rel \<Rightarrow> bool" where
  "incident uid e \<longleftrightarrow> node_uid (r_start e) = uid \<or> node_uid (r_end e) = uid"

lemma delete_paper_eq:
  assumes wf: "store_wf s" and uid: "''Paper:'' @ lower pid = uid"
    and n: "dget (g_nodes s) uid \<noteq> None"
  shows "delete_paper pid s =
    (s\<lparr>g_nodes := ddel uid (g_nodes s),
       g_edges := filter (\<lambda>(u, e). \<not> incident uid e) (g_edges s),
       g_out := (\<lambda>v. if v = uid then [] else filter (\<lambda>u. u \<notin> set (g_in s uid)) (g_out s v)),
       g_in := (\<lambda>v. if v = uid then [] else filter (\<lambda>u. u \<notin> set (g_out s uid)) (g_in s v))\<rparr>,
     card {u. \<exists>e. dget (g_edges s) u = Some e \<and> incident uid e} + 1)"
proof -
  let ?att = "remdups (g_out s uid @ g_in s uid)"
  let ?s1 = "s\<lparr>g_out := (g_out s)(uid := []), g_in := (g_in s)(uid := [])\<rparr>"
  have adj: "adj_wf s" and ok: "dict_ok (g_edges s)"
    using wf by (auto simp: store_wf_def edges_wf_def)
  have att: "set ?att = {u. \<exists>e. dget (g_edges s) u = Some e \<and> incident uid e}"
    using adj by (auto simp: adj_wf_def incident_def)
  have "adj_sound ?s1" using adj by (auto simp: adj_sound_def adj_wf_def)
  note f = fold_detach_eq [OF this, of ?att]
  have e: "filter (\<lambda>p. fst p \<notin> set ?att) (g_edges s) = filter (\<lambda>(u, e). \<not> incident uid e) (g_edges s)"
    using ok by (intro filter_cong) (auto simp: att dict_ok_mem simp del: set_remdups set_append)
  have o: "(\<lambda>v. filter (\<lambda>u. u \<notin> set ?att) (((g_out s)(uid := [])) v))
      = (\<lambda>v. if v = uid then [] else filter (\<lambda>u. u \<notin> set (g_in s uid)) (g_out s v))"
    using adj by (auto simp: fun_eq_iff adj_wf_def intro!: filter_cong)
  have i: "(\<lambda>v. filter (\<lambda>u. u \<notin> set ?att) (((g_in s)(uid := [])) v))
      = (\<lambda>v. if v = uid then [] else filter (\<lambda>u. u \<notin> set (g_out s uid)) (g_in s v))"
    using adj by (auto simp: fun_eq_iff adj_wf_def intro!: filter_cong)
  have len: "length ?att = card {u. \<exists>e. dget (g_edges s) u = Some e \<and> incident uid e}"
    by (subst att [symmetric]) (rule distinct_card [symmetric], rule distinct_remdups)
  have "delete_paper pid s = (let s2 = fold detach_edge ?att ?s1 in
      (s2\<lparr>g_nodes := ddel uid (g_nodes s2)\<rparr>, length ?att + 1))"
    using n unfolding delete_paper_def uid Let_def by simp
  then show ?thesis unfolding f len using e o i by (simp add: Let_def)
qed

lemma store_wf_delete [inv_intros]:
  assumes wf: "store_wf s"
  shows "store_wf (fst (delete_paper pid s))"
proof (cases "dget (g_nodes s) (''Paper:'' @ lower pid)")
  case None
  with wf show ?thesis by (simp add: delete_paper_def)
next
  case (Some n)
  define uid where "uid = ''Paper:'' @ lower pid"
  note eq = delete_paper_eq [OF wf uid_def [symmetric]]
  have some: "dget (g_nodes s) uid \<noteq> None" using Some by (simp add: uid_def)
  let ?t = "fst (delete_paper pid s)"
  have ok: "dict_ok (g_edges s)" using wf by (auto simp: store_wf_def edges_wf_def)
  have e: "dget (g_edges ?t) u = Some e \<longleftrightarrow> dget (g_edges s) u = Some e \<and> \<not> incident uid e" for u e
    using eq some by (simp add: dget_filter_value [OF ok])
  have adj: "adj_wf s" using wf by (simp add: store_wf_def)
  have "nodes_wf ?t" using wf eq some by (auto simp: store_wf_def nodes_wf_def)
  moreover have "edges_wf ?t" unfolding edges_wf_def e
    using wf eq some ok by (auto simp: store_wf_def edges_wf_def incident_def)
  moreover have "adj_wf ?t" unfolding adj_wf_def e
    using adj eq some by (auto simp: adj_wf_def incident_def)
  ultimately show ?thesis by (simp add: store_wf_def)
qed

text \<open>C10: Deleting a paper from a consistent graph removes its node and exactly the edges that
  touch it, keeps every other node and edge, leaves the indexes consistent, and returns one
  more than the number of edges removed.\<close>

theorem delete_paper_correct:
  assumes wf: "store_wf s" and n: "dget (g_nodes s) (''Paper:'' @ lower pid) \<noteq> None"
    and d: "delete_paper pid s = (t, k)"
  shows "store_wf t
     \<and> (dget (g_nodes t) u = (if u = ''Paper:'' @ lower pid then None else dget (g_nodes s) u))
     \<and> (dget (g_edges t) u = Some e \<longleftrightarrow>
           dget (g_edges s) u = Some e \<and> \<not> incident (''Paper:'' @ lower pid) e)
     \<and> k = card {u. \<exists>e. dget (g_edges s) u = Some e \<and> incident (''Paper:'' @ lower pid) e} + 1"
proof -
  define uid where "uid = ''Paper:'' @ lower pid"
  have some: "dget (g_nodes s) uid \<noteq> None" using n by (simp add: uid_def)
  note eq = delete_paper_eq [OF wf uid_def [symmetric] some, unfolded d]
  have ok: "dict_ok (g_edges s)" using wf by (auto simp: store_wf_def edges_wf_def)
  have "store_wf t" using store_wf_delete [OF wf, of pid] d by simp
  moreover have "dget (g_nodes t) u = (if u = uid then None else dget (g_nodes s) u)"
    using eq by simp
  moreover have "dget (g_edges t) u = Some e \<longleftrightarrow> dget (g_edges s) u = Some e \<and> \<not> incident uid e"
    using eq by (simp add: dget_filter_value [OF ok])
  moreover have "k = card {u. \<exists>e. dget (g_edges s) u = Some e \<and> incident uid e} + 1"
    using eq by simp
  ultimately show ?thesis unfolding uid_def by blast
qed

subsection \<open>Every store the API can build\<close>

text \<open>
  The states reachable from the empty store by the three mutating operations, called with
  nodes and edges that the checked constructors of the schema produced.
\<close>

inductive store_reachable :: "graph_store \<Rightarrow> bool" where
  start: "store_reachable (empty_store\<lparr>g_heap := h\<rparr>)"
| nodes: "store_reachable s \<Longrightarrow> \<forall>n \<in> set ns. \<exists>l k r. GraphNode l k r = Inr n \<Longrightarrow>
     store_reachable (fst (upsert_nodes ns s))"
| rels: "store_reachable s \<Longrightarrow>
     \<forall>e \<in> set es. \<exists>t a b r. node_ok a \<and> node_ok b \<and> GraphRelationship t a b r = Inr e \<Longrightarrow>
     store_reachable (fst (upsert_relationships es s))"
| delete: "store_reachable s \<Longrightarrow> store_reachable (fst (delete_paper pid s))"

lemma reachable_wf: "store_reachable s \<Longrightarrow> store_wf s"
proof (induction rule: store_reachable.induct)
  case (start h)
  show ?case by (simp add: store_wf_empty)
next
  case (nodes s ns)
  then show ?case using GraphNode_ok by (blast intro: store_wf_upsert_nodes)
next
  case (rels s es)
  then show ?case using GraphRelationship_ok by (blast intro: store_wf_upsert_relationships)
next
  case (delete s pid)
  then show ?case by (simp add: store_wf_delete)
qed

text \<open>C9: Whatever sequence of upserts and deletions is run, the in-memory graph stays
  consistent: every node and edge is filed under its own uid, no edge dangles, and the
  adjacency indexes agree with the edge table.\<close>

theorem store_reachable_wf: "store_reachable s \<Longrightarrow> store_wf s"
  by (rule reachable_wf)

lemma store_reachable_wf_witness:
  "store_wf (fst (delete_paper ''p1'' (empty_store\<lparr>g_heap := (\<lambda>_. [])\<rparr>)))"
  by (rule store_reachable_wf [OF store_reachable.delete [OF store_reachable.start]])

subsection \<open>Breadth-first search\<close>

text \<open>
  \<open>adjacent s wanted u v\<close>: some stored edge of a wanted type joins \<open>u\<close> and \<open>v\<close>, in
  either direction.  \<open>up_to_dist\<close> and \<open>frontier\<close> are the nodes at distance at most, and
  exactly, \<open>k\<close> from the start.
\<close>

definition type_ok :: "string list \<Rightarrow> graph_rel \<Rightarrow> bool" where
  "type_ok wanted e \<longleftrightarrow> wanted = [] \<or> r_type e \<in> set wanted"

definition adjacent :: "graph_store \<Rightarrow> string list \<Rightarrow> string \<Rightarrow> string \<Rightarrow> bool" where
  "adjacent s wanted u v \<longleftrightarrow>
     (\<exists>x e. dget (g_edges s) x = Some e \<and> type_ok wanted e
        \<and> (node_uid (r_start e) = u \<and> node_uid (r_end e) = v
         \<or> node_uid (r_end e) = u \<and> node_uid (r_start e) = v))"

definition edge_rel :: "graph_store \<Rightarrow> string list \<Rightarrow> (string \<times> string) set" where
  "edge_rel s wanted = {(u, v). adjacent s wanted u v}"

definition at_dist :: "('a \<times> 'a) set \<Rightarrow> 'a \<Rightarrow> nat \<Rightarrow> 'a set" where
  "at_dist R a k = {v. (a, v) \<in> R ^^ k \<and> (\<forall>j<k. (a, v) \<notin> R ^^ j)}"

definition up_to_dist :: "('a \<times> 'a) set \<Rightarrow> 'a \<Rightarrow> nat \<Rightarrow> 'a set" where
  "up_to_dist R a k = {v. \<exists>j\<le>k. (a, v) \<in> R ^^ j}"

lemma at_dist_0: "at_dist R a 0 = {a}"
  by (auto simp: at_dist_def)

lemma up_to_0: "up_to_dist R a 0 = {a}"
  by (auto simp: up_to_dist_def)

lemma up_to_Suc: "up_to_dist R a (Suc k) = up_to_dist R a k \<union> at_dist R a (Suc k)"
  unfolding up_to_dist_def at_dist_def
  by (auto simp: le_Suc_eq less_Suc_eq_le simp del: relpow.simps)

lemma at_dist_Suc: "at_dist R a (Suc k) = R `` at_dist R a k - up_to_dist R a k"
proof (rule set_eqI, rule iffI)
  fix v assume v: "v \<in> at_dist R a (Suc k)"
  then obtain w where w: "(a, w) \<in> R ^^ k" "(w, v) \<in> R" by (auto simp: at_dist_def)
  have "(a, w) \<notin> R ^^ j" if "j < k" for j
  proof
    assume "(a, w) \<in> R ^^ j"
    with w(2) have "(a, v) \<in> R ^^ Suc j" by auto
    moreover from v have "\<forall>i<Suc k. (a, v) \<notin> R ^^ i" by (simp add: at_dist_def)
    ultimately show False using that by (metis Suc_mono)
  qed
  with w v show "v \<in> R `` at_dist R a k - up_to_dist R a k"
    by (auto simp: at_dist_def up_to_dist_def)
next
  fix v assume v: "v \<in> R `` at_dist R a k - up_to_dist R a k"
  then have "(a, v) \<in> R ^^ Suc k" by (auto simp: at_dist_def)
  with v show "v \<in> at_dist R a (Suc k)" by (auto simp: at_dist_def up_to_dist_def)
qed

lemma at_dist_empty_mono: "at_dist R a k = {} \<Longrightarrow> k \<le> j \<Longrightarrow> at_dist R a j = {}"
proof (induction j)
  case (Suc j)
  then show ?case by (cases "k = Suc j") (auto simp: at_dist_Suc)
qed simp

text \<open>One scan appends the unseen targets, each once, and marks them seen.\<close>

definition scan_targets :: "graph_store \<Rightarrow> string list \<Rightarrow> bool \<Rightarrow> string list \<Rightarrow> string set" where
  "scan_targets s wanted fwd eus =
     {node_uid (if fwd then r_end e else r_start e) | u e.
        u \<in> set eus \<and> dget (g_edges s) u = Some e \<and> type_ok wanted e}"

definition grows :: "nat \<Rightarrow> string set \<Rightarrow> bfs_state \<Rightarrow> bfs_state \<Rightarrow> bool" where
  "grows d T st st' \<longleftrightarrow> (case st of (seen, nxt, hits) \<Rightarrow> case st' of (seen', nxt', hits') \<Rightarrow>
     \<exists>xs. hits' = hits @ xs \<and> nxt' = nxt @ map (node_uid \<circ> h_node) xs
        \<and> distinct (map (node_uid \<circ> h_node) xs)
        \<and> (\<forall>x \<in> set xs. h_dist x = d)
        \<and> (node_uid \<circ> h_node) ` set xs = T - set seen
        \<and> set seen' = set seen \<union> T)"

lemma grows_refl: "grows d {} st st"
  by (cases st) (auto simp: grows_def)

lemma grows_trans:
  assumes "grows d T st st'" "grows d U st' st''"
  shows "grows d (T \<union> U) st st''"
proof -
  obtain seen nxt hits seen' nxt' hits' seen'' nxt'' hits''
    where st: "st = (seen, nxt, hits)" "st' = (seen', nxt', hits')" "st'' = (seen'', nxt'', hits'')"
    by (cases st; cases st'; cases st'')
  obtain xs where xs: "hits' = hits @ xs" "nxt' = nxt @ map (node_uid \<circ> h_node) xs"
      "distinct (map (node_uid \<circ> h_node) xs)" "\<forall>x \<in> set xs. h_dist x = d"
      "(node_uid \<circ> h_node) ` set xs = T - set seen" "set seen' = set seen \<union> T"
    using assms(1) st by (auto simp: grows_def)
  obtain ys where ys: "hits'' = hits' @ ys" "nxt'' = nxt' @ map (node_uid \<circ> h_node) ys"
      "distinct (map (node_uid \<circ> h_node) ys)" "\<forall>x \<in> set ys. h_dist x = d"
      "(node_uid \<circ> h_node) ` set ys = U - set seen'" "set seen'' = set seen' \<union> U"
    using assms(2) st by (auto simp: grows_def)
  have "distinct (map (node_uid \<circ> h_node) (xs @ ys))"
    unfolding map_append distinct_append using xs ys by (auto simp del: o_apply)
  moreover have "(node_uid \<circ> h_node) ` set (xs @ ys) = T \<union> U - set seen"
    unfolding set_append image_Un xs(5) ys(5) xs(6) by blast
  ultimately show ?thesis
    unfolding grows_def st using xs ys by (auto intro!: exI [of _ "xs @ ys"] simp del: o_apply)
qed

lemma scan_targets_Cons:
  "dget (g_edges s) eu = Some e \<Longrightarrow> scan_targets s wanted fwd (eu # eus) =
     (if type_ok wanted e then {node_uid (if fwd then r_end e else r_start e)} else {})
     \<union> scan_targets s wanted fwd eus"
  by (auto simp: scan_targets_def)

lemma grows_new:
  "node_uid t \<notin> set seen \<Longrightarrow> grows d {node_uid t} (seen, nxt, hits)
     (node_uid t # seen, nxt @ [node_uid t],
      hits @ [\<lparr>h_node = t, h_rel = r, h_dir = dr, h_dist = d\<rparr>])"
  by (auto simp: grows_def intro!: exI [of _ "[\<lparr>h_node = t, h_rel = r, h_dir = dr, h_dist = d\<rparr>]"])

lemma grows_old: "u \<in> set seen \<Longrightarrow> grows d {u} (seen, nxt, hits) (seen, nxt, hits)"
  by (auto simp: grows_def)

lemma scan_edges_grows:
  assumes "\<forall>u \<in> set eus. dget (g_edges s) u \<noteq> None"
  shows "\<exists>st'. scan_edges s wanted d fwd eus st = Inr st'
           \<and> grows d (scan_targets s wanted fwd eus) st st'"
  using assms
proof (induction eus arbitrary: st)
  case Nil
  then show ?case by (auto simp: scan_targets_def grows_refl)
next
  case (Cons eu eus)
  obtain seen nxt hits where st: "st = (seen, nxt, hits)" by (cases st)
  obtain e where e: "dget (g_edges s) eu = Some e" using Cons.prems by auto
  let ?t = "if fwd then r_end e else r_start e"
  let ?T = "if type_ok wanted e then {node_uid ?t} else {}"
  define st1 where "st1 = (if type_ok wanted e \<and> node_uid ?t \<notin> set seen
    then (node_uid ?t # seen, nxt @ [node_uid ?t], hits @ [\<lparr>h_node = ?t, h_rel = r_type e,
      h_dir = (if fwd then ''out'' else ''in''), h_dist = d\<rparr>]) else st)"
  have "grows d ?T st st1"
    unfolding st1_def st using grows_new grows_old grows_refl by (auto simp del: if_split_asm)
  moreover have "scan_edges s wanted d fwd (eu # eus) st = scan_edges s wanted d fwd eus st1"
    unfolding st1_def st by (simp add: e type_ok_def Let_def)
  moreover obtain st' where "scan_edges s wanted d fwd eus st1 = Inr st'"
    and "grows d (scan_targets s wanted fwd eus) st1 st'"
    using Cons.IH [of st1] Cons.prems by auto
  ultimately show ?case
    unfolding scan_targets_Cons [OF e] using grows_trans by metis
qed

lemma scan_targets_adjacent:
  assumes "adj_wf s" and it: "\<And>xs. set (it xs) = set xs"
  shows "scan_targets s wanted True (it (g_out s u)) \<union> scan_targets s wanted False (it (g_in s u))
       = {v. adjacent s wanted u v}"
  using assms(1) unfolding scan_targets_def adjacent_def adj_wf_def it by (auto, blast+)

lemma scan_frontier_grows:
  assumes "adj_wf s" and it: "\<And>xs. set (it xs) = set xs"
  shows "\<exists>st'. scan_frontier it s wanted d uids st = Inr st'
           \<and> grows d (\<Union>u \<in> set uids. {v. adjacent s wanted u v}) st st'"
proof (induction uids arbitrary: st)
  case Nil
  then show ?case by (auto simp: grows_refl)
next
  case (Cons u uids)
  have found: "\<forall>x \<in> set (it (g_out s u)). dget (g_edges s) x \<noteq> None"
    "\<forall>x \<in> set (it (g_in s u)). dget (g_edges s) x \<noteq> None"
    using assms by (auto simp: adj_wf_def)
  obtain st1 where 1: "scan_edges s wanted d True (it (g_out s u)) st = Inr st1"
    "grows d (scan_targets s wanted True (it (g_out s u))) st st1"
    using scan_edges_grows [OF found(1)] by blast
  obtain st2 where 2: "scan_edges s wanted d False (it (g_in s u)) st1 = Inr st2"
    "grows d (scan_targets s wanted False (it (g_in s u))) st1 st2"
    using scan_edges_grows [OF found(2)] by blast
  obtain st3 where 3: "scan_frontier it s wanted d uids st2 = Inr st3"
    "grows d (\<Union>u \<in> set uids. {v. adjacent s wanted u v}) st2 st3"
    using Cons.IH by blast
  have "grows d ({v. adjacent s wanted u v} \<union> (\<Union>u \<in> set uids. {v. adjacent s wanted u v})) st st3"
    using grows_trans [OF grows_trans [OF 1(2) 2(2)] 3(2)]
    by (simp only: scan_targets_adjacent [OF assms])
  then show ?case using 1 2 3 by simp
qed

text \<open>The hits of the levels \<open>d, ..., d + n - 1\<close>, in that order, each node once.\<close>

lemma walk_levels:
  assumes "adj_wf s" and it: "\<And>xs. set (it xs) = set xs"
    and "set seen = up_to_dist (edge_rel s wanted) a k"
    and "set fr = at_dist (edge_rel s wanted) a k"
  shows "\<exists>xs. walk it s wanted n (Suc k) fr seen hits = Inr (hits @ xs)
     \<and> distinct (map (node_uid \<circ> h_node) xs)
     \<and> sorted (map h_dist xs)
     \<and> (\<lambda>x. (node_uid (h_node x), h_dist x)) ` set xs
       = {(v, j). k < j \<and> j \<le> k + n \<and> v \<in> at_dist (edge_rel s wanted) a j}"
  using assms(3,4)
proof (induction n arbitrary: k fr seen hits)
  case 0
  then show ?case by auto
next
  case (Suc n)
  let ?R = "edge_rel s wanted"
  obtain seen1 nxt hits1 where
    sf: "scan_frontier it s wanted (Suc k) fr (seen, [], hits) = Inr (seen1, nxt, hits1)"
    and g: "grows (Suc k) (\<Union>u \<in> set fr. {v. adjacent s wanted u v}) (seen, [], hits) (seen1, nxt, hits1)"
    using scan_frontier_grows [OF assms(1) it, of wanted "Suc k" fr "(seen, [], hits)"] by auto
  have img: "(\<Union>u \<in> set fr. {v. adjacent s wanted u v}) = ?R `` at_dist ?R a k"
    using Suc.prems(2) by (auto simp: edge_rel_def)
  obtain xs where xs: "hits1 = hits @ xs" "nxt = map (node_uid \<circ> h_node) xs"
    "distinct (map (node_uid \<circ> h_node) xs)" "\<forall>x \<in> set xs. h_dist x = Suc k"
    "(node_uid \<circ> h_node) ` set xs = at_dist ?R a (Suc k)"
    "set seen1 = up_to_dist ?R a (Suc k)"
    using g unfolding img grows_def
    by (auto simp: at_dist_Suc up_to_Suc Suc.prems(1) simp del: o_apply)
  have nxt: "set nxt = at_dist ?R a (Suc k)" using xs(2,5) by simp
  have lv: "(\<lambda>x. (node_uid (h_node x), h_dist x)) ` set xs
      = {(v, j). j = Suc k \<and> v \<in> at_dist ?R a j}"
  proof -
    have "(\<lambda>x. (node_uid (h_node x), h_dist x)) ` set xs
        = (\<lambda>x. ((node_uid \<circ> h_node) x, Suc k)) ` set xs"
      using xs(4) by (intro image_cong) auto
    also have "\<dots> = (\<lambda>v. (v, Suc k)) ` ((node_uid \<circ> h_node) ` set xs)"
      by (simp only: image_image)
    finally show ?thesis unfolding xs(5) by auto
  qed
  show ?case
  proof (cases "nxt = []")
    case True
    with nxt have "at_dist ?R a (Suc k) = {}" by simp
    then have e: "at_dist ?R a j = {}" if "Suc k \<le> j" for j
      by (rule at_dist_empty_mono [OF _ that])
    then have "{(v, j). k < j \<and> j \<le> k + Suc n \<and> v \<in> at_dist ?R a j} = {}"
      by (auto simp: Suc_le_eq)
    then show ?thesis using sf True xs lv e by auto
  next
    case False
    obtain ys where ys: "walk it s wanted n (Suc (Suc k)) nxt seen1 hits1 = Inr (hits1 @ ys)"
      "distinct (map (node_uid \<circ> h_node) ys)" "sorted (map h_dist ys)"
      "(\<lambda>x. (node_uid (h_node x), h_dist x)) ` set ys
        = {(v, j). Suc k < j \<and> j \<le> Suc k + n \<and> v \<in> at_dist ?R a j}"
      using Suc.IH [OF xs(6) nxt, of hits1] by blast
    have disj: "at_dist ?R a (Suc k) \<inter> at_dist ?R a j = {}" if "Suc k < j" for j
      using that by (auto simp: at_dist_def simp del: relpow.simps)
    have far: "Suc k < h_dist y \<and> node_uid (h_node y) \<in> at_dist ?R a (h_dist y)"
      if "y \<in> set ys" for y
    proof -
      have "(node_uid (h_node y), h_dist y) \<in> (\<lambda>x. (node_uid (h_node x), h_dist x)) ` set ys"
        using that by blast
      then show ?thesis unfolding ys(4) by simp
    qed
    have near: "node_uid (h_node x) \<in> at_dist ?R a (Suc k)" if "x \<in> set xs" for x
      using that xs(5) by auto
    have "distinct (map (node_uid \<circ> h_node) (xs @ ys))"
      unfolding map_append distinct_append using xs(3) ys(2) far near disj by fastforce
    moreover have "sorted (map h_dist (xs @ ys))"
    proof -
      have "map h_dist xs = replicate (length xs) (Suc k)"
        using xs(4) by (induction xs) auto
      then show ?thesis using ys(3) far by (auto simp: sorted_append intro: less_imp_le)
    qed
    moreover have "(\<lambda>x. (node_uid (h_node x), h_dist x)) ` set (xs @ ys)
        = {(v, j). k < j \<and> j \<le> k + Suc n \<and> v \<in> at_dist ?R a j}"
      unfolding set_append image_Un lv ys(4) by auto
    moreover have "walk it s wanted (Suc n) (Suc k) fr seen hits = Inr (hits @ (xs @ ys))"
      using sf False xs(1) ys(1) by simp
    ultimately show ?thesis by blast
  qed
qed

text \<open>C8: On a consistent graph, and whatever order Python iterates its sets in,
  \<open>neighbors\<close> raises nothing and returns a prefix of a list that holds each node within
  the requested depth (at least 1) exactly once, with its shortest-path distance over edges
  of the wanted types in either direction, nearest nodes first.\<close>

theorem neighbors_shortest_paths:
  assumes "store_wf s" and it: "\<And>xs. set (it xs) = set xs"
    and "dget (g_nodes s) (label @ '':'' @ normalize_key key) \<noteq> None"
  shows "\<exists>hs. neighbors it s label key depth types limit = Inr (py_take limit hs)
     \<and> distinct (map (\<lambda>h. node_uid (h_node h)) hs)
     \<and> sorted (map h_dist hs)
     \<and> (\<lambda>h. (node_uid (h_node h), h_dist h)) ` set hs
       = {(v, j). 1 \<le> j \<and> j \<le> nat (max depth 1)
            \<and> v \<in> at_dist (edge_rel s types) (label @ '':'' @ normalize_key key) j}"
proof -
  define a where "a = label @ '':'' @ normalize_key key"
  have adj: "adj_wf s" using assms(1) by (simp add: store_wf_def)
  obtain hs where "walk it s types (nat (max depth 1)) (Suc 0) [a] [a] [] = Inr ([] @ hs)"
    "distinct (map (node_uid \<circ> h_node) hs)" "sorted (map h_dist hs)"
    "(\<lambda>x. (node_uid (h_node x), h_dist x)) ` set hs
       = {(v, j). 0 < j \<and> j \<le> 0 + nat (max depth 1) \<and> v \<in> at_dist (edge_rel s types) a j}"
    using walk_levels [OF adj it, of "[a]" types a 0 "[a]" "nat (max depth 1)" "[]"]
    by (auto simp: at_dist_0 up_to_0)
  then show ?thesis
    using assms(3) unfolding a_def [symmetric] neighbors_def
    by (auto simp: Let_def a_def [symmetric] Suc_le_eq comp_def intro!: exI [of _ hs])
qed

text \<open>A three-node graph: one paper proposing a model that is compared with another.\<close>

definition demo_node :: "string \<Rightarrow> string \<Rightarrow> graph_node" where
  "demo_node l k = \<lparr>n_label = l, n_key = k, n_props = 0\<rparr>"

definition demo_edges :: "graph_rel list" where
  "demo_edges =
    [\<lparr>r_type = ''PROPOSES'', r_start = demo_node ''Paper'' ''p1'',
      r_end = demo_node ''Model'' ''bert'', r_props = 0\<rparr>,
     \<lparr>r_type = ''COMPARES_TO'', r_start = demo_node ''Model'' ''bert'',
      r_end = demo_node ''Model'' ''gpt'', r_props = 0\<rparr>]"

definition demo_store :: graph_store where
  "demo_store = fst (upsert_relationships demo_edges empty_store)"

lemma demo_edges_ok: "\<forall>e \<in> set demo_edges. rel_ok e"
  by code_simp

lemma demo_store_wf: "store_wf demo_store"
  unfolding demo_store_def
  using store_wf_upsert_relationships [OF store_wf_empty demo_edges_ok] .

lemma demo_paper: "dget (g_nodes demo_store) (''Paper'' @ '':'' @ normalize_key ''P1'') \<noteq> None"
  by code_simp

lemma neighbors_shortest_paths_witness:
  "\<exists>hs. neighbors rev demo_store ''Paper'' ''P1'' 2 [] 50 = Inr (py_take 50 hs)
     \<and> distinct (map (\<lambda>h. node_uid (h_node h)) hs)
     \<and> neighbors rev demo_store ''Paper'' ''P1'' 2 [] 50
       = Inr [\<lparr>h_node = demo_node ''Model'' ''bert'', h_rel = ''PROPOSES'', h_dir = ''out'', h_dist = 1\<rparr>,
              \<lparr>h_node = demo_node ''Model'' ''gpt'', h_rel = ''COMPARES_TO'', h_dir = ''out'', h_dist = 2\<rparr>]"
proof -
  have "neighbors rev demo_store ''Paper'' ''P1'' 2 [] 50
       = Inr [\<lparr>h_node = demo_node ''Model'' ''bert'', h_rel = ''PROPOSES'', h_dir = ''out'', h_dist = 1\<rparr>,
              \<lparr>h_node = demo_node ''Model'' ''gpt'', h_rel = ''COMPARES_TO'', h_dir = ''out'', h_dist = 2\<rparr>]"
    by code_simp
  then show ?thesis
    using neighbors_shortest_paths [OF demo_store_wf set_rev demo_paper, of 2 "[]" 50] by blast
qed

lemma demo_paper_node: "dget (g_nodes demo_store) (''Paper:'' @ lower ''P1'') \<noteq> None"
  by code_simp

lemma delete_paper_correct_witness:
  "dget (g_nodes (fst (delete_paper ''P1'' demo_store))) ''Model:bert''
     = dget (g_nodes demo_store) ''Model:bert''
   \<and> snd (delete_paper ''P1'' demo_store) = 2"
proof -
  have "\<And>t k. delete_paper ''P1'' demo_store = (t, k) \<Longrightarrow>
      dget (g_nodes t) ''Model:bert'' = dget (g_nodes demo_store) ''Model:bert''"
    using delete_paper_correct [OF demo_store_wf demo_paper_node] by (simp add: lower_def)
  moreover have "snd (delete_paper ''P1'' demo_store) = 2" by code_simp
  ultimately show ?thesis by (cases "delete_paper ''P1'' demo_store") simp
qed

end
