(* ===== verification/GraphPersist.thy ===== *)
theory GraphPersist
  imports GraphStore
begin

section \<open>The file of the in-memory graph (_flush and _load of graph/store.py)\<close>

text \<open>
  The payload is what \<open>json.dumps\<close> is given and \<open>json.loads\<close> gives back (for properties that JSON can
  hold); \<open>None\<close> is a file that is missing or cannot be read.  Loading creates new objects, at the
  addresses from zero.
\<close>

record graph_payload =
  py_nodes :: "(string \<times> string \<times> props) list"
  py_edges :: "(string \<times> string \<times> string \<times> props) list"

definition node_entry :: "(nat \<Rightarrow> props) \<Rightarrow> graph_node \<Rightarrow> string \<times> string \<times> props" where
  "node_entry h n = (n_label n, n_key n, h (n_props n))"

definition edge_entry :: "(nat \<Rightarrow> props) \<Rightarrow> graph_rel \<Rightarrow> string \<times> string \<times> string \<times> props" where
  "edge_entry h e = (r_type e, node_uid (r_start e), node_uid (r_end e), h (r_props e))"

definition flush :: "graph_store \<Rightarrow> graph_payload" where
  "flush s = \<lparr>py_nodes = map (node_entry (g_heap s)) (dvalues (g_nodes s)), py_edges = map (edge_entry (g_heap s)) (dvalues (g_edges s))\<rparr>"

fun load_nodes :: "nat \<Rightarrow> (string \<times> string \<times> props) list \<Rightarrow> graph_store \<Rightarrow> (nat \<times> graph_store) res" where
  "load_nodes a [] s = Inr (a, s)"
| "load_nodes a ((label, key, p) # ns) s =
     bind_res (GraphNode label key a) (\<lambda>n.
       load_nodes (Suc a) ns (s\<lparr>g_nodes := dset (node_uid n) n (g_nodes s), g_heap := (g_heap s)(a := p)\<rparr>))"

text \<open>An edge with a missing end is skipped, one of the wrong shape raises.\<close>

fun load_edges :: "nat \<Rightarrow> (string \<times> string \<times> string \<times> props) list \<Rightarrow> graph_store \<Rightarrow> graph_store res" where
  "load_edges a [] s = Inr s"
| "load_edges a ((ty, u, v, p) # es) s =
     (case (dget (g_nodes s) u, dget (g_nodes s) v) of
        (Some x, Some y) \<Rightarrow>
          bind_res (GraphRelationship ty x y a) (\<lambda>e. load_edges (Suc a) es (register_edge e (s\<lparr>g_heap := (g_heap s)(a := p)\<rparr>)))
      | _ \<Rightarrow> load_edges a es s)"

definition load_store :: "graph_payload option \<Rightarrow> graph_store res" where
  "load_store file =
     (case file of
        None \<Rightarrow> Inr empty_store
      | Some p \<Rightarrow> bind_res (load_nodes 0 (py_nodes p) empty_store) (\<lambda>(a, s). load_edges a (py_edges p) s))"

subsection \<open>Loading what was flushed\<close>

definition stored_nodes :: "graph_store \<Rightarrow> (string \<times> string \<times> string \<times> props) list" where
  "stored_nodes s = map (\<lambda>(u, n). (u, node_entry (g_heap s) n)) (g_nodes s)"

definition stored_edges :: "graph_store \<Rightarrow> (string \<times> string \<times> string \<times> string \<times> props) list" where
  "stored_edges s = map (\<lambda>(u, e). (u, edge_entry (g_heap s) e)) (g_edges s)"

text \<open>Every object of the store lies below an address.\<close>

definition allocated :: "nat \<Rightarrow> graph_store \<Rightarrow> bool" where
  "allocated a s \<longleftrightarrow> list_all (\<lambda>(u, n). n_props n < a) (g_nodes s) \<and> list_all (\<lambda>(u, e). r_props e < a) (g_edges s)"

lemma stored_nodes_alloc: "allocated a s \<Longrightarrow> map (\<lambda>(u, n). (u, node_entry ((g_heap s)(a := p)) n)) (g_nodes s) = stored_nodes s"
  by (auto simp: stored_nodes_def allocated_def node_entry_def list_all_iff)

lemma stored_edges_alloc: "allocated a s \<Longrightarrow> map (\<lambda>(u, e). (u, edge_entry ((g_heap s)(a := p)) e)) (g_edges s) = stored_edges s"
  by (auto simp: stored_edges_def allocated_def edge_entry_def list_all_iff)

lemma load_nodes_view:
  assumes "list_all (\<lambda>(u, n). node_ok n \<and> node_uid n = u) d" "distinct (map fst d)" "fst ` set d \<inter> fst ` set (g_nodes s) = {}"
    and "allocated a s" "store_wf s" "g_edges s = []"
  shows "\<exists>b t. load_nodes a (map (\<lambda>(u, n). node_entry h n) d) s = Inr (b, t) \<and> allocated b t \<and> store_wf t \<and> g_edges t = []
    \<and> stored_nodes t = stored_nodes s @ map (\<lambda>(u, n). (u, node_entry h n)) d"
  using assms
proof (induction d arbitrary: a s)
  case Nil
  then show ?case by simp
next
  case (Cons un d)
  obtain u n where un: "un = (u, n)" by (cases un)
  let ?n = "\<lparr>n_label = n_label n, n_key = n_key n, n_props = a\<rparr>"
  let ?s = "s\<lparr>g_nodes := dset (node_uid ?n) ?n (g_nodes s), g_heap := (g_heap s)(a := h (n_props n))\<rparr>"
  have ok: "node_ok n" "node_uid n = u" using Cons.prems(1) by (simp_all add: un)
  have node: "GraphNode (n_label n) (n_key n) a = Inr ?n" using ok(1) by (simp add: GraphNode_Inr_conv node_ok_def)
  have uid: "node_uid ?n = u" using ok(2) by (simp add: node_uid_def)
  have fresh: "u \<notin> set (map fst (g_nodes s))" using Cons.prems(3) by (auto simp: un)
  have nodes: "dset (node_uid ?n) ?n (g_nodes s) = g_nodes s @ [(u, ?n)]" unfolding uid using fresh by (rule dset_new)
  have "node_ok ?n" using ok(1) by (simp add: node_ok_def)
  then have wf: "store_wf ?s" using Cons.prems(5) store_wf_add_node [of s ?n] by simp
  have allocated: "allocated (Suc a) ?s" using Cons.prems(4) unfolding allocated_def nodes by (auto simp: list_all_iff)
  have view: "stored_nodes ?s = stored_nodes s @ [(u, node_entry h n)]"
    using stored_nodes_alloc [OF Cons.prems(4), of "h (n_props n)"] by (simp add: stored_nodes_def nodes node_entry_def)
  have "fst ` set d \<inter> fst ` set (g_nodes ?s) = {}" using Cons.prems(2,3) by (auto simp: un nodes)
  then obtain b t where t: "load_nodes (Suc a) (map (\<lambda>(u, n). node_entry h n) d) ?s = Inr (b, t)" "allocated b t" "store_wf t" "g_edges t = []"
      "stored_nodes t = stored_nodes ?s @ map (\<lambda>(u, n). (u, node_entry h n)) d"
    using Cons.IH [of ?s "Suc a"] Cons.prems(1,2,6) allocated wf by (auto simp: un)
  then show ?case unfolding view using node by (simp add: un node_entry_def)
qed

text \<open>Nodes with the same views carry the same labels under the same uid.\<close>

lemma view_node:
  assumes "store_wf s" "dget (g_nodes s) u = Some x"
  shows "node_ok x \<and> node_uid x = u"
  using assms by (auto simp: store_wf_def nodes_wf_def)

lemma load_edges_view:
  assumes "list_all (\<lambda>(u, e). rel_ok e \<and> rel_uid e = u \<and> dget (g_nodes s) (node_uid (r_start e)) \<noteq> None \<and> dget (g_nodes s) (node_uid (r_end e)) \<noteq> None) d"
    and "distinct (map fst d)" "fst ` set d \<inter> fst ` set (g_edges s) = {}" "allocated a s" "store_wf s"
  shows "\<exists>t. load_edges a (map (\<lambda>(u, e). edge_entry h e) d) s = Inr t \<and> store_wf t
    \<and> stored_nodes t = stored_nodes s \<and> stored_edges t = stored_edges s @ map (\<lambda>(u, e). (u, edge_entry h e)) d"
  using assms
proof (induction d arbitrary: a s)
  case Nil
  then show ?case by simp
next
  case (Cons ue d)
  obtain u e where ue: "ue = (u, e)" by (cases ue)
  from Cons.prems(1) have e: "rel_ok e" "rel_uid e = u" and ends: "dget (g_nodes s) (node_uid (r_start e)) \<noteq> None" "dget (g_nodes s) (node_uid (r_end e)) \<noteq> None"
    by (simp_all add: ue)
  then obtain x y where xy: "dget (g_nodes s) (node_uid (r_start e)) = Some x" "dget (g_nodes s) (node_uid (r_end e)) = Some y" by auto
  have ok: "node_ok x" "node_uid x = node_uid (r_start e)" "node_ok y" "node_uid y = node_uid (r_end e)"
    using view_node [OF Cons.prems(5)] xy by blast+
  have labels: "n_label x = n_label (r_start e)" "n_label y = n_label (r_end e)"
    using node_uid_inj [of x "r_start e"] node_uid_inj [of y "r_end e"] ok e(1) by (simp_all add: rel_ok_def)
  let ?e = "\<lparr>r_type = r_type e, r_start = x, r_end = y, r_props = a\<rparr>"
  let ?h = "s\<lparr>g_heap := (g_heap s)(a := h (r_props e))\<rparr>"
  have rel: "GraphRelationship (r_type e) x y a = Inr ?e" using e(1) labels by (simp add: GraphRelationship_Inr_conv rel_ok_def)
  then have rok: "rel_ok ?e" using ok GraphRelationship_ok by blast
  have uid: "rel_uid ?e = u" using e(2) ok by (simp add: rel_uid_def)
  have wf: "store_wf (register_edge ?e ?h)" using Cons.prems(5) rok ok xy by (intro store_wf_register) simp_all
  have fresh: "u \<notin> set (map fst (g_edges s))" using Cons.prems(3) by (auto simp: ue)
  have edges: "g_edges (register_edge ?e ?h) = g_edges s @ [(u, ?e)]"
    unfolding register_edge_def Let_def uid using dset_new [OF fresh, of ?e] by simp
  have nodes: "g_nodes (register_edge ?e ?h) = g_nodes s" "g_heap (register_edge ?e ?h) = (g_heap s)(a := h (r_props e))"
    by (simp_all add: register_edge_def Let_def)
  have allocated: "allocated (Suc a) (register_edge ?e ?h)" using Cons.prems(4) unfolding allocated_def edges nodes by (auto simp: list_all_iff)
  have views: "stored_nodes (register_edge ?e ?h) = stored_nodes s" "stored_edges (register_edge ?e ?h) = stored_edges s @ [(u, edge_entry h e)]"
    using stored_nodes_alloc [OF Cons.prems(4), of "h (r_props e)"] stored_edges_alloc [OF Cons.prems(4), of "h (r_props e)"] ok
    by (simp_all add: stored_nodes_def stored_edges_def nodes edges edge_entry_def)
  have "\<exists>t. load_edges (Suc a) (map (\<lambda>(u, e). edge_entry h e) d) (register_edge ?e ?h) = Inr t \<and> store_wf t
    \<and> stored_nodes t = stored_nodes (register_edge ?e ?h) \<and> stored_edges t = stored_edges (register_edge ?e ?h) @ map (\<lambda>(u, e). (u, edge_entry h e)) d"
    using Cons.prems(1-3) by (intro Cons.IH allocated wf) (auto simp: ue nodes edges)
  then show ?case unfolding views using xy rel by (simp add: ue edge_entry_def)
qed

lemma adjacency_from_view:
  assumes "store_wf s"
  shows "set (g_out s v) = {u. \<exists>ty b p. (u, ty, v, b, p) \<in> set (stored_edges s)}" "set (g_in s v) = {u. \<exists>ty a p. (u, ty, a, v, p) \<in> set (stored_edges s)}"
proof -
  have ok: "dict_ok (g_edges s)" using assms by (simp add: store_wf_def edges_wf_def)
  show "set (g_out s v) = {u. \<exists>ty b p. (u, ty, v, b, p) \<in> set (stored_edges s)}"
    using assms by (force simp: store_wf_def adj_wf_def stored_edges_def edge_entry_def dict_ok_mem [OF ok, symmetric])
  show "set (g_in s v) = {u. \<exists>ty a p. (u, ty, a, v, p) \<in> set (stored_edges s)}"
    using assms by (force simp: store_wf_def adj_wf_def stored_edges_def edge_entry_def dict_ok_mem [OF ok, symmetric])
qed

text \<open>The graph survives a restart: loading what any reachable store flushed raises nothing and gives a
  store with the same nodes and edges in the same order, with the same properties, whose adjacency
  indexes list the same edges.\<close>

theorem flush_load_round_trip:
  assumes "store_reachable s"
  shows "case load_store (Some (flush s)) of
      Inl _ \<Rightarrow> False
    | Inr t \<Rightarrow> stored_nodes t = stored_nodes s \<and> stored_edges t = stored_edges s
        \<and> (\<forall>v. set (g_out t v) = set (g_out s v) \<and> set (g_in t v) = set (g_in s v))"
proof -
  have wf: "store_wf s" using assms by (rule reachable_wf)
  have nodes: "py_nodes (flush s) = map (\<lambda>(u, n). node_entry (g_heap s) n) (g_nodes s)"
    and edges: "py_edges (flush s) = map (\<lambda>(u, e). edge_entry (g_heap s) e) (g_edges s)"
    by (simp_all add: flush_def case_prod_unfold)
  have dn: "dict_ok (g_nodes s)" and de: "dict_ok (g_edges s)" using wf by (simp_all add: store_wf_def nodes_wf_def edges_wf_def)
  have "list_all (\<lambda>(u, n). node_ok n \<and> node_uid n = u) (g_nodes s)"
    using wf by (auto simp: list_all_iff store_wf_def nodes_wf_def dict_ok_mem)
  then obtain b t where t: "load_nodes 0 (py_nodes (flush s)) empty_store = Inr (b, t)" "allocated b t" "store_wf t" "g_edges t = []"
      "stored_nodes t = stored_nodes s"
    using load_nodes_view [of "g_nodes s" empty_store 0 "g_heap s"] dn store_wf_empty unfolding nodes
    by (auto simp: dict_ok_def empty_store_def allocated_def stored_nodes_def)
  have keys: "fst ` set (g_nodes t) = fst ` set (g_nodes s)"
    using arg_cong [OF t(5), of "\<lambda>v. fst ` set v"] by (simp add: stored_nodes_def image_image case_prod_unfold)
  have "list_all (\<lambda>(u, e). rel_ok e \<and> rel_uid e = u \<and> dget (g_nodes t) (node_uid (r_start e)) \<noteq> None \<and> dget (g_nodes t) (node_uid (r_end e)) \<noteq> None) (g_edges s)"
    using wf keys by (auto simp: list_all_iff store_wf_def edges_wf_def dict_ok_mem map_of_eq_None_iff)
  then obtain t' where t': "load_edges b (py_edges (flush s)) t = Inr t'" "store_wf t'" "stored_nodes t' = stored_nodes t"
      "stored_edges t' = stored_edges t @ map (\<lambda>(u, e). (u, edge_entry (g_heap s) e)) (g_edges s)"
    using load_edges_view [of t "g_edges s" b "g_heap s"] de t(2-4) unfolding edges by (auto simp: dict_ok_def)
  have ev: "stored_edges t' = stored_edges s" using t'(4) t(4) by (simp add: stored_edges_def)
  show ?thesis
    using t(1,5) t' adjacency_from_view [OF t'(2)] adjacency_from_view [OF wf] by (simp add: load_store_def ev)
qed


definition saved_node :: graph_node where
  "saved_node = \<lparr>n_label = ''Paper'', n_key = ''p1'', n_props = 0\<rparr>"

definition saved_store :: graph_store where
  "saved_store = fst (upsert_nodes [saved_node] (empty_store\<lparr>g_heap := (\<lambda>_. [(''name'', PyStr ''A'')])\<rparr>))"

theorem flush_load_round_trip_witness:
  "case load_store (Some (flush saved_store)) of
     Inl _ \<Rightarrow> False | Inr t \<Rightarrow> stored_nodes t = [(''Paper:p1'', ''Paper'', ''p1'', [(''name'', PyStr ''A'')])]"
proof -
  have "GraphNode ''Paper'' ''p1'' 0 = Inr saved_node"
    by (simp add: GraphNode_Inr_conv saved_node_def all_labels_def normalize_key_def lower_def lower_char_def code_pt_def
        is_space_def strip_by_def key_strip_char_def)
  then have r: "store_reachable saved_store"
    unfolding saved_store_def by (intro store_reachable.nodes store_reachable.start) auto
  have "stored_nodes saved_store = [(''Paper:p1'', ''Paper'', ''p1'', [(''name'', PyStr ''A'')])]"
    by (simp add: saved_store_def upsert_nodes_def upsert_node_def empty_store_def stored_nodes_def node_entry_def saved_node_def node_uid_def)
  then show ?thesis using flush_load_round_trip [OF r] by (auto split: sum.splits)
qed

end
