(* ===== verification/PyVal.thy ===== *)
theory PyVal
  imports Prelude "HOL-Library.Word"
begin

section \<open>Python values: equality, truth, and identifiers\<close>

text \<open>
  What the components do with values whose type the code leaves open (metadata entries,
  parsed JSON): \<open>==\<close>, truthiness, \<open>in\<close> on a list.  And \<open>uuid.UUID\<close>, which Python keeps as a
  128-bit integer: the model is a 128-bit word, \<open>str(u)\<close> its 8-4-4-4-12 hexadecimal form.
  That form is injective, so comparing the strings compares the identifiers.
\<close>

subsection \<open>Equality and truth\<close>

text \<open>Booleans, integers and floats compare as numbers; \<open>nan\<close> is equal to nothing.\<close>

fun num_of :: "pyval \<Rightarrow> pyfloat option" where
  "num_of (PyBool b) = Some (Fin (if b then 1 else 0))"
| "num_of (PyInt i) = Some (Fin (of_int i))"
| "num_of (PyFloat f) = Some f"
| "num_of _ = None"

definition num_eq :: "pyval \<Rightarrow> pyval \<Rightarrow> bool" where
  "num_eq v w = (case (num_of v, num_of w) of
     (Some a, Some b) \<Rightarrow> a \<noteq> NaN \<and> a = b
   | _ \<Rightarrow> False)"

lemma size_snd_less: "kv \<in> set d \<Longrightarrow> size (snd kv) < Suc (size_list (size_prod (\<lambda>x. 0) size) d)"
  by (induction d) auto

function (sequential) py_eq :: "pyval \<Rightarrow> pyval \<Rightarrow> bool" where
  "py_eq PyNone PyNone = True"
| "py_eq (PyStr s) (PyStr t) = (s = t)"
| "py_eq (PyList []) (PyList ws) = (ws = [])"
| "py_eq (PyList (v # vs)) (PyList ws) =
     (case ws of [] \<Rightarrow> False | w # ws' \<Rightarrow> py_eq v w \<and> py_eq (PyList vs) (PyList ws'))"
| "py_eq (PyDict d) (PyDict e) =
     (length d = length e \<and>
      (\<forall>kv \<in> set d. case dget e (fst kv) of None \<Rightarrow> False | Some w \<Rightarrow> py_eq (snd kv) w))"
| "py_eq v w = num_eq v w"
  by pat_completeness auto
termination
  by (relation "measure (\<lambda>(v, w). size v)") (auto simp: less_Suc_eq_le dest: size_snd_less)

fun truthy :: "pyval \<Rightarrow> bool" where
  "truthy PyNone = False"
| "truthy (PyBool b) = b"
| "truthy (PyInt i) = (i \<noteq> 0)"
| "truthy (PyFloat f) = (f \<noteq> Fin 0)"
| "truthy (PyStr s) = (s \<noteq> [])"
| "truthy (PyList vs) = (vs \<noteq> [])"
| "truthy (PyDict d) = (d \<noteq> [])"

text \<open>\<open>v in ws\<close>\<close>

definition py_in :: "pyval \<Rightarrow> pyval list \<Rightarrow> bool" where
  "py_in v ws = (\<exists>w \<in> set ws. py_eq v w)"

lemma py_eq_str [simp]: "py_eq v (PyStr t) \<longleftrightarrow> v = PyStr t"
  by (cases v) (auto simp: num_eq_def)

lemma py_in_strs: "py_in v (map PyStr ts) \<longleftrightarrow> (\<exists>t \<in> set ts. v = PyStr t)"
  by (auto simp: py_in_def)

text \<open>
  Access to parsed JSON: \<open>v[k]\<close>, \<open>v[0]\<close> and \<open>v.get(k, dflt)\<close>.  Where the code puts a value into
  a field declared \<open>str\<close>, \<open>str | None\<close> or \<open>int\<close>, the model insists on that type: a value of
  another type is a \<open>TypeError\<close> at once, where Python would fail at its first use.
\<close>

definition jkey :: "string \<Rightarrow> pyval \<Rightarrow> pyval res" where
  "jkey k v = (case v of
     PyDict d \<Rightarrow> (case dget d k of None \<Rightarrow> Inl KeyError | Some w \<Rightarrow> Inr w)
   | _ \<Rightarrow> Inl (TypeErr ''not subscriptable by a string''))"

definition jfirst :: "pyval \<Rightarrow> pyval res" where
  "jfirst v = (case v of
     PyList vs \<Rightarrow> (case vs of [] \<Rightarrow> Inl IndexError | w # _ \<Rightarrow> Inr w)
   | PyStr s \<Rightarrow> (case s of [] \<Rightarrow> Inl IndexError | c # _ \<Rightarrow> Inr (PyStr [c]))
   | PyDict _ \<Rightarrow> Inl KeyError
   | _ \<Rightarrow> Inl (TypeErr ''not subscriptable''))"

definition jget :: "string \<Rightarrow> pyval \<Rightarrow> pyval \<Rightarrow> pyval res" where
  "jget k dflt v = (case v of
     PyDict d \<Rightarrow> Inr (case dget d k of None \<Rightarrow> dflt | Some w \<Rightarrow> w)
   | _ \<Rightarrow> Inl (TypeErr ''no attribute get''))"

definition as_list :: "pyval \<Rightarrow> pyval list res" where
  "as_list v = (case v of PyList vs \<Rightarrow> Inr vs | _ \<Rightarrow> Inl (TypeErr ''list expected''))"

definition as_str :: "pyval \<Rightarrow> string res" where
  "as_str v = (case v of PyStr s \<Rightarrow> Inr s | _ \<Rightarrow> Inl (TypeErr ''str expected''))"

definition as_opt_str :: "pyval \<Rightarrow> string option res" where
  "as_opt_str v = (case v of PyNone \<Rightarrow> Inr None | PyStr s \<Rightarrow> Inr (Some s) | _ \<Rightarrow> Inl (TypeErr ''str expected''))"

definition as_int :: "pyval \<Rightarrow> int res" where
  "as_int v = (case v of PyInt i \<Rightarrow> Inr i | PyBool b \<Rightarrow> Inr (if b then 1 else 0) | _ \<Rightarrow> Inl (TypeErr ''int expected''))"

lemma as_list_Inr [simp]: "as_list v = Inr vs \<longleftrightarrow> v = PyList vs"
  by (auto simp: as_list_def split: pyval.splits)

lemma as_str_Inr [simp]: "as_str v = Inr s \<longleftrightarrow> v = PyStr s"
  by (auto simp: as_str_def split: pyval.splits)

text \<open>\<open>v or w\<close>\<close>

definition py_or :: "pyval \<Rightarrow> pyval \<Rightarrow> pyval" where
  "py_or v w = (if truthy v then v else w)"

subsection \<open>Identifiers\<close>

type_synonym uuid = "128 word"

definition hex_char :: "nat \<Rightarrow> char" where
  "hex_char d = (if d < 10 then char_of (48 + d) else char_of (87 + d))"

definition nibble :: "uuid \<Rightarrow> nat \<Rightarrow> nat" where
  "nibble u i = (unat u div 16 ^ i) mod 16"

definition hex_digits :: "uuid \<Rightarrow> nat list \<Rightarrow> string" where
  "hex_digits u is = map (\<lambda>i. hex_char (nibble u i)) is"

text \<open>\<open>str(u)\<close>: the most significant digit first, in groups of 8, 4, 4, 4 and 12.\<close>

definition str_uuid :: "uuid \<Rightarrow> string" where
  "str_uuid u = join ''-'' [hex_digits u (rev [24..<32]), hex_digits u (rev [20..<24]),
     hex_digits u (rev [16..<20]), hex_digits u (rev [12..<16]), hex_digits u (rev [0..<12])]"

lemma hex_char_inj: "d < 16 \<Longrightarrow> e < 16 \<Longrightarrow> hex_char d = hex_char e \<Longrightarrow> d = e"
proof -
  assume d: "d < 16" and e: "e < 16" and eq: "hex_char d = hex_char e"
  from eq have "code_pt (hex_char d) = code_pt (hex_char e)" by simp
  then show "d = e" using d e
    by (auto simp: hex_char_def code_pt_char_of split: if_splits)
qed

lemma hex_digits_eq:
  "hex_digits u is = hex_digits v is \<Longrightarrow> i \<in> set is \<Longrightarrow> nibble u i = nibble v i"
  using hex_char_inj by (auto simp: hex_digits_def nibble_def)

lemma length_hex_digits [simp]: "length (hex_digits u is) = length is"
  by (simp add: hex_digits_def)

lemma digits_eq_imp_eq:
  fixes m n :: nat
  shows "\<forall>i < k. m div 16 ^ i mod 16 = n div 16 ^ i mod 16 \<Longrightarrow> m < 16 ^ k \<Longrightarrow> n < 16 ^ k \<Longrightarrow> m = n"
proof (induction k arbitrary: m n)
  case 0
  then show ?case by simp
next
  case (Suc k)
  have "m mod 16 = n mod 16" using Suc.prems(1) [rule_format, of 0] by simp
  moreover have "m div 16 = n div 16"
  proof (rule Suc.IH)
    show "\<forall>i<k. m div 16 div 16 ^ i mod 16 = n div 16 div 16 ^ i mod 16"
    proof (intro allI impI)
      fix i assume "i < k"
      then show "m div 16 div 16 ^ i mod 16 = n div 16 div 16 ^ i mod 16"
        using Suc.prems(1) [rule_format, of "Suc i"] by (simp add: div_mult2_eq)
    qed
    show "m div 16 < 16 ^ k" "n div 16 < 16 ^ k"
      using Suc.prems(2,3) by (simp_all add: div_less_iff_less_mult mult.commute)
  qed
  ultimately show "m = n" by (metis div_mult_mod_eq)
qed

lemma str_uuid_inj: "str_uuid u = str_uuid v \<Longrightarrow> u = v"
proof -
  assume eq: "str_uuid u = str_uuid v"
  let ?h = "\<lambda>is. hex_digits u is = hex_digits v is"
  have h: "?h (rev [24..<32])" "?h (rev [20..<24])" "?h (rev [16..<20])" "?h (rev [12..<16])"
      "?h (rev [0..<12])"
    using eq by (simp_all add: str_uuid_def append_eq_append_conv)
  have "nibble u i = nibble v i" if i: "i < 32" for i
  proof -
    consider "i \<in> set (rev [24..<32])" | "i \<in> set (rev [20..<24])" | "i \<in> set (rev [16..<20])"
      | "i \<in> set (rev [12..<16])" | "i \<in> set (rev [0..<12])"
      using i by (simp del: upt_conv_Cons_Cons upt_rec_numeral) linarith
    then show ?thesis
      by cases (erule hex_digits_eq [OF h(1)] hex_digits_eq [OF h(2)] hex_digits_eq [OF h(3)]
          hex_digits_eq [OF h(4)] hex_digits_eq [OF h(5)])+
  qed
  moreover have "unat u < 16 ^ 32" "unat v < 16 ^ 32"
    using unsigned_less [of u, where ?'a = nat] unsigned_less [of v, where ?'a = nat] by simp_all
  ultimately have "unat u = unat v"
    by (intro digits_eq_imp_eq [of 32]) (auto simp: nibble_def)
  then show "u = v" by (simp add: word_unat_eq_iff)
qed

lemma str_uuid_eq_iff [simp]: "str_uuid u = str_uuid v \<longleftrightarrow> u = v"
  using str_uuid_inj by blast


lemma hex_chars: "c \<in> set (str_uuid u) \<Longrightarrow> c = CHR ''-'' \<or> (\<exists>d < 16. c = hex_char d)"
proof -
  have d: "x \<in> set (hex_digits u is) \<Longrightarrow> \<exists>d < 16. x = hex_char d" for x "is" 
    unfolding hex_digits_def nibble_def by auto (metis mod_less_divisor zero_less_numeral)
  assume "c \<in> set (str_uuid u)"
  then consider "c \<in> set ''-''" | "is" where "c \<in> set (hex_digits u is)"
    unfolding str_uuid_def by (auto simp del: upt_Suc upt_rec_numeral rev.simps dest!: set_join)
  then show ?thesis using d by cases auto
qed

lemma str_uuid_nonempty: "str_uuid u \<noteq> []"
  by (simp add: str_uuid_def)

subsection \<open>Reading an identifier\<close>

text \<open>\<open>s.replace(t, '')\<close> for a non-empty \<open>t\<close>.\<close>

function remove_all :: "string \<Rightarrow> string \<Rightarrow> string" where
  "remove_all t [] = []"
| "remove_all t (c # s) =
     (if t \<noteq> [] \<and> prefix t (c # s) then remove_all t (drop (length t) (c # s)) else c # remove_all t s)"
  by pat_completeness auto
termination by (relation "measure (\<lambda>(t, s). length s)") (auto simp: neq_Nil_conv)

definition hex_value :: "char \<Rightarrow> nat option" where
  "hex_value c =
     (let n = code_pt c in
      if 48 \<le> n \<and> n \<le> 57 then Some (n - 48)
      else if 65 \<le> n \<and> n \<le> 70 then Some (n - 55)
      else if 97 \<le> n \<and> n \<le> 102 then Some (n - 87)
      else None)"

text \<open>Digits with single underscores between them; \<open>ok\<close> says whether an underscore may come.\<close>

fun hex_digits_value :: "bool \<Rightarrow> nat \<Rightarrow> string \<Rightarrow> nat option" where
  "hex_digits_value ok n [] = (if ok then Some n else None)"
| "hex_digits_value ok n (c # s) =
     (if c = CHR ''_'' then (if ok then hex_digits_value False n s else None)
      else case hex_value c of None \<Rightarrow> None | Some d \<Rightarrow> hex_digits_value True (16 * n + d) s)"

text \<open>\<open>int(s, 16)\<close>: blanks around, a sign, a base prefix that an underscore may follow.\<close>

definition int_base16 :: "string \<Rightarrow> int option" where
  "int_base16 text =
     (let s = strip text;
          (sign, s) = (case s of c # t \<Rightarrow> if c = CHR ''-'' then (- 1, t) else if c = CHR ''+'' then (1, t) else (1, s) | [] \<Rightarrow> (1, s));
          prefixed = (take 2 s = ''0x'' \<or> take 2 s = ''0X'');
          s = (if prefixed then drop 2 s else s);
          s = (if prefixed \<and> take 1 s = ''_'' then drop 1 s else s) in
      map_option (\<lambda>n. sign * int n) (hex_digits_value False 0 s))"

text \<open>\<open>uuid.UUID(s)\<close>\<close>

definition py_uuid :: "string \<Rightarrow> uuid res" where
  "py_uuid s =
     (let hex = remove_all ''-'' (strip_by (\<lambda>c. c = CHR ''{'' \<or> c = CHR ''}'') (remove_all ''uuid:'' (remove_all ''urn:'' s))) in
      if length hex \<noteq> 32 then Inl (ValueError ''badly formed hexadecimal UUID string'')
      else case int_base16 hex of
        None \<Rightarrow> Inl (ValueError ''invalid literal for int() with base 16'')
      | Some n \<Rightarrow> if 0 \<le> n \<and> n < 2 ^ 128 then Inr (word_of_int n) else Inl (ValueError ''int is out of range (need a 128-bit value)''))"

lemma remove_all_absent: "t \<noteq> [] \<Longrightarrow> hd t \<notin> set s \<Longrightarrow> remove_all t s = s"
  by (induction t s rule: remove_all.induct) (auto simp: neq_Nil_conv)

lemma remove_all_char: "remove_all [c] s = filter (\<lambda>d. d \<noteq> c) s"
  by (induction "[c]" s rule: remove_all.induct) auto

lemma hex_value_char: "d < 16 \<Longrightarrow> hex_value (hex_char d) = Some d"
  by (auto simp: hex_value_def hex_char_def code_pt_char_of Let_def)

lemma hex_char_plain: "d < 16 \<Longrightarrow> hex_char d \<notin> set ''_-+xXu{}'' \<and> \<not> is_space (hex_char d)"
proof -
  have "list_all (\<lambda>c. c \<notin> set ''_-+xXu{}'' \<and> \<not> is_space c) (map hex_char [0..<16])" by code_simp
  then show "d < 16 \<Longrightarrow> ?thesis" by (auto simp: list_all_iff simp del: upt_Suc)
qed

lemma hex_digits_value_map:
  "list_all (\<lambda>d. d < 16) ds \<Longrightarrow> ds \<noteq> [] \<or> ok \<Longrightarrow> hex_digits_value ok n (map hex_char ds) = Some (foldl (\<lambda>a d. 16 * a + d) n ds)"
proof (induction ds arbitrary: ok n)
  case (Cons d ds)
  then have "hex_char d \<noteq> CHR ''_''" using hex_char_plain [of d] by auto
  with Cons show ?case by (simp add: hex_value_char)
qed simp

lemma foldl_nibbles: "foldl (\<lambda>a i. 16 * a + m div 16 ^ i mod 16) n (rev [0..<k]) = n * 16 ^ k + m mod 16 ^ k" for m n :: nat
proof (induction k arbitrary: n)
  case (Suc k)
  have "m mod (16 ^ k * 16) = 16 ^ k * (m div 16 ^ k mod 16) + m mod 16 ^ k" by (rule mod_mult2_eq)
  then show ?case using Suc.IH [of "16 * n + m div 16 ^ k mod 16"] by (simp add: algebra_simps)
qed simp

text \<open>\<open>uuid.UUID(str(u)) == u\<close>\<close>

lemma py_uuid_str_uuid [simp]: "py_uuid (str_uuid u) = Inr u"
proof -
  have plain: "c \<noteq> CHR ''u'' \<and> c \<noteq> CHR ''{'' \<and> c \<noteq> CHR ''}''" if "c \<in> set (str_uuid u)" for c
    using hex_chars [OF that] hex_char_plain by auto
  have r: "remove_all ''uuid:'' (remove_all ''urn:'' (str_uuid u)) = str_uuid u"
    using plain by (subst remove_all_absent; force simp: remove_all_absent)+
  have s: "strip_by (\<lambda>c. c = CHR ''{'' \<or> c = CHR ''}'') (str_uuid u) = str_uuid u"
    using plain [OF hd_in_set [OF str_uuid_nonempty]] plain [OF last_in_set [OF str_uuid_nonempty]] by (intro strip_by_id) blast
  have nib: "nibble u i < 16" for i by (simp add: nibble_def)
  have keep: "filter (\<lambda>d. d \<noteq> CHR ''-'') (hex_digits u is) = hex_digits u is" for "is"
    using hex_char_plain [OF nib] by (auto simp: hex_digits_def filter_id_conv)
  have split: "rev [0..<32] = rev [24..<32] @ rev [20..<24] @ rev [16..<20] @ rev [12..<16] @ rev [0..<12::nat]"
    using upt_add_eq_append [of 0 12 20] by simp
  have hex: "remove_all ''-'' (str_uuid u) = hex_digits u (rev [0..<32])"
    unfolding remove_all_char str_uuid_def split by (simp add: keep del: upt_Suc upt_rec_numeral) (simp add: hex_digits_def del: upt_Suc upt_rec_numeral)
  define h where "h = hex_digits u (rev [0..<32])"
  have mapped: "h = map hex_char (map (nibble u) (rev [0..<32]))" by (simp add: h_def hex_digits_def comp_def del: upt_Suc upt_rec_numeral)
  have "set h \<subseteq> hex_char ` {..<16}" unfolding mapped using nib by auto
  then have c: "c \<notin> set ''_-+xX'' \<and> \<not> is_space c" if "c \<in> set h" for c
  proof -
    obtain d where "d < 16" "c = hex_char d" using \<open>set h \<subseteq> _\<close> \<open>c \<in> set h\<close> by auto
    then show ?thesis using hex_char_plain [of d] by auto
  qed
  have len: "length h = 32" by (simp add: h_def)
  then obtain a b t where h: "h = a # b # t" by (cases h; cases "tl h") auto
  have strip: "strip h = h" using c [of a] c [OF last_in_set, of] h by (intro strip_by_id) auto
  have "hex_digits_value False 0 h = Some (foldl (\<lambda>a d. 16 * a + d) 0 (map (nibble u) (rev [0..<32])))"
    unfolding mapped by (rule hex_digits_value_map) (auto simp: list_all_iff nib)
  also have "foldl (\<lambda>a d. 16 * a + d) 0 (map (nibble u) (rev [0..<32])) = unat u mod 16 ^ 32"
    using foldl_nibbles [of "unat u" 0 32] by (simp add: foldl_map nibble_def del: upt_Suc upt_rec_numeral)
  also have "\<dots> = unat u" using unsigned_less [of u, where ?'a = nat] by simp
  finally have v: "hex_digits_value False 0 h = Some (unat u)" .
  have "int_base16 h = Some (int (unat u))"
    using c [of a] c [of b] v strip unfolding h by (simp add: int_base16_def Let_def numeral_2_eq_2)
  moreover have "uint u < 2 ^ 128" using unsigned_less [of u, where ?'a = int] by simp
  ultimately show ?thesis
    by (simp add: py_uuid_def r s hex len flip: h_def)
qed

end
