(* ===== verification/VectorStore.thy ===== *)
theory VectorStore
  imports PyVal
begin

section \<open>The vector stores (retrieval/vector_store.py)\<close>

text \<open>
  The metadata filter \<open>_matches\<close>, the exact in-memory store with its optional pickle file,
  the FAISS-backed store over an arbitrary FAISS library, and \<open>cosine_similarity\<close>.

  State.  \<open>InMemoryVectorStore._records\<close> is the dictionary \<open>m_records\<close>, the pickle file is
  \<open>m_disk\<close>; every operation runs under one lock, so operations are functions of the whole
  state.  The FAISS store adds the identifier list and the index object; the index and
  the three library calls on it are parameters (\<open>faiss_lib\<close>).

  The locale \<open>vector_store\<close> is the contract the retrieval code depends on; both stores are
  interpretations of it.
\<close>

subsection \<open>Records, hits and filters\<close>

type_synonym metadata = "(string, pyval) dict"
type_synonym filters = "(string, pyval) dict option"

record vector_record =
  vr_chunk :: uuid
  vr_paper :: uuid
  vr_workspace :: uuid
  vr_vector :: "real list"
  vr_meta :: metadata

record search_hit =
  h_chunk :: uuid
  h_paper :: uuid
  h_score :: real
  h_meta :: metadata

text \<open>A \<open>list\<close>, \<open>tuple\<close> or \<open>set\<close> filter value is a \<open>PyList\<close>: any of its elements will do.\<close>

definition matches_one :: "metadata \<Rightarrow> string \<times> pyval \<Rightarrow> bool" where
  "matches_one meta kv =
     (let actual = (case dget meta (fst kv) of None \<Rightarrow> PyNone | Some v \<Rightarrow> v) in
      case snd kv of
        PyList ws \<Rightarrow> py_in actual ws
      | expected \<Rightarrow> py_eq actual expected)"

definition matches :: "metadata \<Rightarrow> filters \<Rightarrow> bool" where
  "matches meta filters = (case filters of None \<Rightarrow> True | Some kvs \<Rightarrow> list_all (matches_one meta) kvs)"

lemma matches_none [simp]: "matches meta None" "matches meta (Some [])"
  by (simp_all add: matches_def)

lemma matches_Cons [simp]:
  "matches meta (Some (kv # kvs)) \<longleftrightarrow> matches_one meta kv \<and> matches meta (Some kvs)"
  by (simp add: matches_def)

text \<open>A membership filter on string values pins the entry to one of them.\<close>

lemma matches_member:
  "matches meta (Some kvs) \<Longrightarrow> (k, PyList (map PyStr ts)) \<in> set kvs \<Longrightarrow>
   \<exists>t \<in> set ts. dget meta k = Some (PyStr t)"
  by (force simp: matches_def list_all_iff matches_one_def py_in_strs Let_def split: option.splits)

lemma matches_equal:
  "matches meta (Some kvs) \<Longrightarrow> (k, PyStr t) \<in> set kvs \<Longrightarrow> dget meta k = Some (PyStr t)"
  by (force simp: matches_def list_all_iff matches_one_def Let_def split: option.splits)

text \<open>\<open>sum(a * b for a, b in zip(u, v, strict=True))\<close>\<close>

definition zip_error :: py_error where
  "zip_error = ValueError ''zip() argument 2 is not as long as argument 1''"

definition dot_strict :: "real list \<Rightarrow> real list \<Rightarrow> real res" where
  "dot_strict u v =
     (if length u = length v then Inr (sum_list (map2 (*) u v))
      else Inl zip_error)"

subsection \<open>The in-memory store\<close>

text \<open>The pickle file: absent, unreadable, or a dump of the records.\<close>

datatype disk_file = Absent | Unreadable | Pickled "(uuid, vector_record) dict"

record mem_store =
  m_records :: "(uuid, vector_record) dict"
  m_path :: bool
  m_disk :: disk_file

definition open_mem_store :: "bool \<Rightarrow> disk_file \<Rightarrow> mem_store" where
  "open_mem_store path disk =
     \<lparr>m_records = (if path then (case disk of Pickled rs \<Rightarrow> rs | _ \<Rightarrow> []) else []),
      m_path = path, m_disk = disk\<rparr>"

definition persist :: "mem_store \<Rightarrow> mem_store" where
  "persist s = (if m_path s then s\<lparr>m_disk := Pickled (m_records s)\<rparr> else s)"

definition put_records :: "vector_record list \<Rightarrow> (uuid, vector_record) dict \<Rightarrow> (uuid, vector_record) dict" where
  "put_records rs d = fold (\<lambda>r. dset (vr_chunk r) r) rs d"

definition mem_upsert :: "vector_record list \<Rightarrow> mem_store \<Rightarrow> mem_store" where
  "mem_upsert rs s = persist (s\<lparr>m_records := put_records rs (m_records s)\<rparr>)"

definition to_hit :: "real \<Rightarrow> vector_record \<Rightarrow> search_hit" where
  "to_hit score r = \<lparr>h_chunk = vr_chunk r, h_paper = vr_paper r, h_score = score, h_meta = vr_meta r\<rparr>"

definition mem_search :: "real list \<Rightarrow> int \<Rightarrow> filters \<Rightarrow> mem_store \<Rightarrow> search_hit list res" where
  "mem_search vector limit filters s =
     bind_res (mapM (\<lambda>r. bind_res (dot_strict vector (vr_vector r)) (\<lambda>score. Inr (to_hit score r)))
                 (filter (\<lambda>r. matches (vr_meta r) filters) (dvalues (m_records s))))
       (\<lambda>hits. Inr (py_take limit (sort_desc h_score hits)))"

definition doomed :: "uuid \<Rightarrow> (uuid, vector_record) dict \<Rightarrow> uuid list" where
  "doomed paper d = dkeys (filter (\<lambda>kr. vr_paper (snd kr) = paper) d)"

definition mem_delete_by_paper :: "uuid \<Rightarrow> mem_store \<Rightarrow> nat \<times> mem_store" where
  "mem_delete_by_paper paper s =
     (let ks = doomed paper (m_records s) in
      (length ks, persist (s\<lparr>m_records := fold ddel ks (m_records s)\<rparr>)))"

definition mem_count :: "mem_store \<Rightarrow> nat" where
  "mem_count s = length (m_records s)"

subsection \<open>The FAISS store\<close>

text \<open>
  The library: whether the import succeeds, \<open>IndexFlatIP(d)\<close>, \<open>index.add\<close> on the array
  built from the vectors, and \<open>index.search\<close> for one query vector, which answers the scores
  and positions of its one row.
\<close>

record 'ix faiss_lib =
  lib_available :: bool
  lib_new :: "nat \<Rightarrow> 'ix"
  lib_add :: "'ix \<Rightarrow> real list list \<Rightarrow> 'ix res"
  lib_search :: "'ix \<Rightarrow> real list \<Rightarrow> int \<Rightarrow> (real \<times> int) list res"

record 'ix faiss_store =
  f_mem :: mem_store
  f_dims :: nat
  f_index :: "'ix option"
  f_ids :: "uuid list"

definition open_faiss_store :: "nat \<Rightarrow> bool \<Rightarrow> disk_file \<Rightarrow> 'ix faiss_store" where
  "open_faiss_store dims path disk =
     \<lparr>f_mem = open_mem_store path disk, f_dims = dims, f_index = None, f_ids = []\<rparr>"

definition vectors_of :: "uuid list \<Rightarrow> (uuid, vector_record) dict \<Rightarrow> real list list" where
  "vectors_of ids d = map (\<lambda>k. vr_vector (the (dget d k))) ids"

text \<open>
  The statements of \<open>_rebuild\<close> in their order: when \<open>add\<close> raises, the new identifier list
  and the empty index are already in place.
\<close>

definition faiss_rebuild :: "'ix faiss_lib \<Rightarrow> 'ix faiss_store \<Rightarrow> unit res \<times> 'ix faiss_store" where
  "faiss_rebuild lib s =
     (if \<not> lib_available lib then (Inl (RuntimeErr ''FAISS backend requires faiss-cpu''), s)
      else
        let ids = dkeys (m_records (f_mem s)); ix = lib_new lib (f_dims s);
            s1 = s\<lparr>f_ids := ids, f_index := Some ix\<rparr> in
        if ids = [] then (Inr (), s1)
        else (case lib_add lib ix (vectors_of ids (m_records (f_mem s))) of
                Inl e \<Rightarrow> (Inl e, s1)
              | Inr ix' \<Rightarrow> (Inr (), s1\<lparr>f_index := Some ix'\<rparr>)))"

definition faiss_upsert ::
    "'ix faiss_lib \<Rightarrow> vector_record list \<Rightarrow> 'ix faiss_store \<Rightarrow> unit res \<times> 'ix faiss_store" where
  "faiss_upsert lib rs s = faiss_rebuild lib (s\<lparr>f_mem := mem_upsert rs (f_mem s)\<rparr>)"

text \<open>The record at a position answered by the index; \<open>_ids[pos]\<close> and \<open>_records[...]\<close> may raise.\<close>

definition resolve :: "'ix faiss_store \<Rightarrow> real \<times> int \<Rightarrow> (vector_record \<times> real) res" where
  "resolve s sp =
     (if int (length (f_ids s)) \<le> snd sp then Inl IndexError
      else case dget (m_records (f_mem s)) (f_ids s ! nat (snd sp)) of
             None \<Rightarrow> Inl KeyError
           | Some r \<Rightarrow> Inr (r, fst sp))"

definition fetch_size :: "int \<Rightarrow> filters \<Rightarrow> nat \<Rightarrow> int" where
  "fetch_size limit filters n =
     min (int n) (case filters of None \<Rightarrow> limit | Some kvs \<Rightarrow> if kvs = [] then limit else limit * 10)"

definition faiss_scan ::
    "'ix faiss_lib \<Rightarrow> real list \<Rightarrow> int \<Rightarrow> filters \<Rightarrow> 'ix faiss_store \<Rightarrow> search_hit list res" where
  "faiss_scan lib vector limit filters s =
     (case f_index s of
        None \<Rightarrow> Inl (TypeErr ''no index'')
      | Some ix \<Rightarrow>
          bind_res (lib_search lib ix vector (fetch_size limit filters (length (f_ids s)))) (\<lambda>row.
          bind_res (mapM (resolve s) (filter (\<lambda>sp. 0 \<le> snd sp) row)) (\<lambda>records.
          Inr (py_take limit
                (map (\<lambda>(r, score). to_hit score r)
                  (filter (\<lambda>(r, score). matches (vr_meta r) filters) records))))))"

definition faiss_search ::
    "'ix faiss_lib \<Rightarrow> real list \<Rightarrow> int \<Rightarrow> filters \<Rightarrow> 'ix faiss_store
       \<Rightarrow> search_hit list res \<times> 'ix faiss_store" where
  "faiss_search lib vector limit filters s =
     (let (r, s1) = (if f_index s = None then faiss_rebuild lib s else (Inr (), s)) in
      case r of
        Inl e \<Rightarrow> (Inl e, s1)
      | Inr _ \<Rightarrow>
          if f_ids s1 = [] then (Inr [], s1)
          else (faiss_scan lib vector limit filters s1, s1))"

definition faiss_delete_by_paper ::
    "'ix faiss_lib \<Rightarrow> uuid \<Rightarrow> 'ix faiss_store \<Rightarrow> nat res \<times> 'ix faiss_store" where
  "faiss_delete_by_paper lib paper s =
     (let (n, m) = mem_delete_by_paper paper (f_mem s);
          (r, s1) = faiss_rebuild lib (s\<lparr>f_mem := m\<rparr>) in
      (bind_res r (\<lambda>_. Inr n), s1))"

subsection \<open>The records every operation leaves\<close>

definition records_ok :: "(uuid, vector_record) dict \<Rightarrow> bool" where
  "records_ok d \<longleftrightarrow> dict_ok d \<and> (\<forall>(k, r) \<in> set d. vr_chunk r = k)"

lemma records_ok_Nil [simp, inv_intros]: "records_ok []"
  by (simp add: records_ok_def)

lemma records_ok_iff: "records_ok d \<longleftrightarrow> dict_ok d \<and> (\<forall>k r. dget d k = Some r \<longrightarrow> vr_chunk r = k)"
proof (cases "dict_ok d")
  case True
  have "(\<forall>(k, r) \<in> set d. vr_chunk r = k) \<longleftrightarrow> (\<forall>k r. (k, r) \<in> set d \<longrightarrow> vr_chunk r = k)" by auto
  then show ?thesis unfolding records_ok_def using True by (simp add: dict_ok_mem)
qed (simp add: records_ok_def)

lemma records_okD: "records_ok d \<Longrightarrow> (k, r) \<in> set d \<Longrightarrow> dget d (vr_chunk r) = Some r"
  unfolding records_ok_def using dict_ok_mem [of d k r] by auto

lemma dget_filter_records:
  "records_ok d \<Longrightarrow> dget (filter (\<lambda>kr. P (snd kr)) d) k = Some r \<longleftrightarrow> dget d k = Some r \<and> P r"
  using dget_filter_value [of d P k r] by (simp add: records_ok_def case_prod_unfold)

lemma records_ok_put_one: "records_ok d \<Longrightarrow> records_ok (dset (vr_chunk r) r d)"
  by (simp add: records_ok_iff)

lemma records_ok_put [inv_intros]: "records_ok d \<Longrightarrow> records_ok (put_records rs d)"
  unfolding put_records_def by (induction rs arbitrary: d) (auto simp: records_ok_put_one)

lemma fold_ddel: "fold ddel ks d = filter (\<lambda>kr. fst kr \<notin> set ks) d"
  by (induction ks arbitrary: d) (auto simp: AList.delete_eq filter_filter intro!: filter_cong)

lemma fold_ddel_doomed:
  assumes "records_ok d"
  shows "fold ddel (doomed paper d) d = filter (\<lambda>kr. vr_paper (snd kr) \<noteq> paper) d"
  unfolding fold_ddel
proof (rule filter_cong [OF refl])
  fix kr assume kr: "kr \<in> set d"
  have "fst kr \<in> set (doomed paper d) \<longleftrightarrow> vr_paper (snd kr) = paper"
  proof
    assume "fst kr \<in> set (doomed paper d)"
    then obtain r where r: "(fst kr, r) \<in> set d" "vr_paper r = paper" by (auto simp: doomed_def)
    have "r = snd kr" using assms kr r(1)
      by (metis dict_ok_mem option.inject prod.collapse records_ok_def)
    then show "vr_paper (snd kr) = paper" using r(2) by simp
  qed (use kr in \<open>auto simp: doomed_def\<close>)
  then show "(fst kr \<notin> set (doomed paper d)) = (vr_paper (snd kr) \<noteq> paper)" by simp
qed

lemma records_ok_filter [inv_intros]: "records_ok d \<Longrightarrow> records_ok (filter P d)"
  by (auto simp: records_ok_def)

lemma m_records_persist [simp]: "m_records (persist s) = m_records s"
  by (simp add: persist_def)

lemma records_mem_upsert [simp]: "m_records (mem_upsert rs s) = put_records rs (m_records s)"
  by (simp add: mem_upsert_def)

lemma records_mem_delete:
  "records_ok (m_records s) \<Longrightarrow>
   m_records (snd (mem_delete_by_paper paper s)) = filter (\<lambda>kr. vr_paper (snd kr) \<noteq> paper) (m_records s)"
  by (simp add: mem_delete_by_paper_def fold_ddel_doomed)

lemma f_mem_rebuild [simp]: "f_mem (snd (faiss_rebuild lib s)) = f_mem s"
  by (simp add: faiss_rebuild_def Let_def split: sum.splits)

lemma f_mem_search [simp]: "f_mem (snd (faiss_search lib v l f s)) = f_mem s"
  using f_mem_rebuild [of lib s]
  by (auto simp: faiss_search_def simp del: f_mem_rebuild split: prod.splits sum.splits)

lemma f_mem_delete [simp]:
  "f_mem (snd (faiss_delete_by_paper lib p s)) = snd (mem_delete_by_paper p (f_mem s))"
  using f_mem_rebuild [of lib "s\<lparr>f_mem := snd (mem_delete_by_paper p (f_mem s))\<rparr>"]
  by (auto simp: faiss_delete_by_paper_def simp del: f_mem_rebuild split: prod.splits)

lemma length_doomed: "length (doomed p d) = length (filter (\<lambda>kr. vr_paper (snd kr) = p) d)"
  by (simp add: doomed_def)

lemma fst_mem_delete: "fst (mem_delete_by_paper p s) = length (doomed p (m_records s))"
  by (simp add: mem_delete_by_paper_def Let_def)

lemma mem_search_sound:
  assumes "records_ok (m_records s)" "mem_search v l f s = Inr hits" "h \<in> set hits"
  shows "\<exists>r. dget (m_records s) (h_chunk h) = Some r \<and> h = to_hit (h_score h) r \<and> matches (vr_meta r) f"
proof -
  let ?rs = "filter (\<lambda>r. matches (vr_meta r) f) (dvalues (m_records s))"
  obtain hs where hs: "list_all2 (\<lambda>r h. bind_res (dot_strict v (vr_vector r)) (\<lambda>sc. Inr (to_hit sc r)) = Inr h) ?rs hs"
    and h: "h \<in> set hs"
    using assms(2,3)
    by (auto simp: mem_search_def bind_res_Inr_conv mapM_Inr_conv dest: in_set_py_takeD)
  obtain r sc where r: "r \<in> set ?rs" and eq: "h = to_hit sc r"
    using list_all2_ex1 [OF hs h] by (auto simp: bind_res_Inr_conv)
  obtain k where "(k, r) \<in> set (m_records s)" using r by auto
  then have "dget (m_records s) (vr_chunk r) = Some r"
    by (rule records_okD [OF assms(1)])
  then show ?thesis using eq r by (auto simp: to_hit_def)
qed

lemma resolve_sound:
  "resolve s sp = Inr (r, sc) \<Longrightarrow> \<exists>k. dget (m_records (f_mem s)) k = Some r"
  by (auto simp: resolve_def split: if_splits option.splits)

lemma faiss_scan_sound:
  assumes "records_ok (m_records (f_mem s))" "faiss_scan lib v l f s = Inr hits" "h \<in> set hits"
  shows "\<exists>r. dget (m_records (f_mem s)) (h_chunk h) = Some r \<and> h = to_hit (h_score h) r \<and> matches (vr_meta r) f"
proof -
  obtain row recs where recs: "list_all2 (\<lambda>sp rs. resolve s sp = Inr rs) row recs"
    and h: "h \<in> set (map (\<lambda>(r, sc). to_hit sc r) (filter (\<lambda>(r, sc). matches (vr_meta r) f) recs))"
    using assms(2,3)
    by (auto simp: faiss_scan_def bind_res_Inr_conv mapM_Inr_conv split: option.splits dest: in_set_py_takeD)
  obtain r sc where r: "(r, sc) \<in> set recs" "matches (vr_meta r) f" "h = to_hit sc r"
    using h by auto
  obtain k where "dget (m_records (f_mem s)) k = Some r"
    using list_all2_ex1 [OF recs r(1)] resolve_sound by blast
  then have "dget (m_records (f_mem s)) (vr_chunk r) = Some r"
    using assms(1) by (auto simp: records_ok_iff)
  then show ?thesis using r by (auto simp: to_hit_def)
qed

lemma faiss_search_sound:
  assumes "records_ok (m_records (f_mem s))" "fst (faiss_search lib v l f s) = Inr hits" "h \<in> set hits"
  shows "\<exists>r. dget (m_records (f_mem s)) (h_chunk h) = Some r \<and> h = to_hit (h_score h) r \<and> matches (vr_meta r) f"
proof -
  obtain r s1 where rs: "(if f_index s = None then faiss_rebuild lib s else (Inr (), s)) = (r, s1)"
    by fastforce
  have mem: "f_mem s1 = f_mem s"
    using rs f_mem_rebuild [of lib s] by (auto simp del: f_mem_rebuild split: if_splits)
  have "faiss_scan lib v l f s1 = Inr hits"
    using assms(2,3) unfolding faiss_search_def rs Let_def by (auto split: sum.splits if_splits)
  then show ?thesis using faiss_scan_sound [of s1] assms mem by simp
qed

subsection \<open>The contract of a vector store\<close>

text \<open>
  What the retrieval code relies on: an upsert writes its records by chunk identifier, a
  deletion removes exactly the records of a paper and counts them, a search changes nothing
  and answers only stored records that pass the filter.  A store may fail (the FAISS
  library may be missing), and even then its records are the ones described here.
\<close>

datatype store_op =
    Upsert "vector_record list"
  | Delete uuid
  | Search "real list" int filters

fun store_run ::
    "(vector_record list \<Rightarrow> 's \<Rightarrow> unit res \<times> 's) \<Rightarrow>
     (real list \<Rightarrow> int \<Rightarrow> filters \<Rightarrow> 's \<Rightarrow> search_hit list res \<times> 's) \<Rightarrow>
     (uuid \<Rightarrow> 's \<Rightarrow> nat res \<times> 's) \<Rightarrow> store_op list \<Rightarrow> 's \<Rightarrow> 's" where
  "store_run up se de [] s = s"
| "store_run up se de (Upsert rs # ops) s = store_run up se de ops (snd (up rs s))"
| "store_run up se de (Delete p # ops) s = store_run up se de ops (snd (de p s))"
| "store_run up se de (Search v l f # ops) s = store_run up se de ops (snd (se v l f s))"

definition writes_paper :: "uuid \<Rightarrow> store_op list \<Rightarrow> bool" where
  "writes_paper p ops \<longleftrightarrow> list_ex (\<lambda>op. case op of Upsert rs \<Rightarrow> p \<in> vr_paper ` set rs | _ \<Rightarrow> False) ops"

locale vector_store =
  fixes records :: "'s \<Rightarrow> (uuid, vector_record) dict"
    and upsert :: "vector_record list \<Rightarrow> 's \<Rightarrow> unit res \<times> 's"
    and search :: "real list \<Rightarrow> int \<Rightarrow> filters \<Rightarrow> 's \<Rightarrow> search_hit list res \<times> 's"
    and delete_by_paper :: "uuid \<Rightarrow> 's \<Rightarrow> nat res \<times> 's"
  assumes upsert_records: "records (snd (upsert rs s)) = put_records rs (records s)"
    and search_records: "records (snd (search v l f s)) = records s"
    and search_sound: "records_ok (records s) \<Longrightarrow> fst (search v l f s) = Inr hits \<Longrightarrow> h \<in> set hits \<Longrightarrow>
      \<exists>r. dget (records s) (h_chunk h) = Some r \<and> h = to_hit (h_score h) r \<and> matches (vr_meta r) f"
    and delete_records: "records_ok (records s) \<Longrightarrow>
      records (snd (delete_by_paper p s)) = filter (\<lambda>kr. vr_paper (snd kr) \<noteq> p) (records s)"
    and delete_count: "records_ok (records s) \<Longrightarrow> fst (delete_by_paper p s) = Inr n \<Longrightarrow>
      n = length (filter (\<lambda>kr. vr_paper (snd kr) = p) (records s))"
begin

abbreviation run :: "store_op list \<Rightarrow> 's \<Rightarrow> 's" where
  "run \<equiv> store_run upsert search delete_by_paper"

lemma run_ok: "records_ok (records s) \<Longrightarrow> records_ok (records (run ops s))"
proof (induction ops arbitrary: s)
  case (Cons op ops)
  then show ?case
    by (cases op) (simp_all add: upsert_records search_records delete_records inv_intros)
qed simp

text \<open>A run that writes nothing of a paper brings back none of its records.\<close>

lemma put_records_paper:
  "\<forall>r \<in> set rs. vr_paper r \<noteq> p \<Longrightarrow> \<forall>k r. dget d k = Some r \<longrightarrow> vr_paper r \<noteq> p \<Longrightarrow>
   dget (put_records rs d) k = Some r \<Longrightarrow> vr_paper r \<noteq> p"
proof (induction rs arbitrary: d)
  case (Cons a rs)
  have "put_records (a # rs) d = put_records rs (dset (vr_chunk a) a d)" by (simp add: put_records_def)
  moreover have "\<forall>k r. dget (dset (vr_chunk a) a d) k = Some r \<longrightarrow> vr_paper r \<noteq> p"
    using Cons.prems(1,2) by simp
  ultimately show ?case using Cons.IH [of "dset (vr_chunk a) a d"] Cons.prems by simp
qed (simp add: put_records_def)

lemma run_paper:
  "records_ok (records s) \<Longrightarrow> \<not> writes_paper p ops \<Longrightarrow>
   \<forall>k r. dget (records s) k = Some r \<longrightarrow> vr_paper r \<noteq> p \<Longrightarrow>
   dget (records (run ops s)) k = Some r \<Longrightarrow> vr_paper r \<noteq> p"
proof (induction ops arbitrary: s)
  case Nil
  then show ?case by simp
next
  case (Cons op ops)
  have rest: "\<not> writes_paper p ops" using Cons.prems(2) by (simp add: writes_paper_def)
  show ?case
  proof (cases op)
    case (Upsert rs)
    let ?s = "snd (upsert rs s)"
    have "\<forall>r \<in> set rs. vr_paper r \<noteq> p" using Cons.prems(2) Upsert by (auto simp: writes_paper_def)
    then have "\<forall>k r. dget (records ?s) k = Some r \<longrightarrow> vr_paper r \<noteq> p"
      unfolding upsert_records using put_records_paper Cons.prems(3) by blast
    moreover have "records_ok (records ?s)"
      unfolding upsert_records using Cons.prems(1) by (rule records_ok_put)
    ultimately show ?thesis using Cons.IH [OF _ rest] Cons.prems(4) Upsert by simp
  next
    case (Delete q)
    let ?s = "snd (delete_by_paper q s)"
    have "\<forall>k r. dget (records ?s) k = Some r \<longrightarrow> vr_paper r \<noteq> p"
      using Cons.prems(1,3) dget_filter_records [of "records s" "\<lambda>r. vr_paper r \<noteq> q"]
      by (auto simp: delete_records)
    moreover have "records_ok (records ?s)"
      using Cons.prems(1) by (simp add: delete_records records_ok_filter)
    ultimately show ?thesis using Cons.IH [OF _ rest] Cons.prems(4) Delete by simp
  next
    case (Search v l f)
    then show ?thesis
      using Cons.IH [of "snd (search v l f s)"] Cons.prems rest by (simp add: search_records)
  qed
qed

lemma deleted_gone:
  assumes "records_ok (records s)" "\<not> writes_paper p ops"
    and "fst (search v l f (run ops (snd (delete_by_paper p s)))) = Inr hits" "h \<in> set hits"
  shows "h_paper h \<noteq> p"
proof -
  let ?s = "snd (delete_by_paper p s)"
  have ok: "records_ok (records ?s)" using assms(1) by (simp add: delete_records records_ok_filter)
  have "\<forall>k r. dget (records ?s) k = Some r \<longrightarrow> vr_paper r \<noteq> p"
    using assms(1) dget_filter_records [of "records s" "\<lambda>r. vr_paper r \<noteq> p"]
    by (simp add: delete_records)
  then have none: "dget (records (run ops ?s)) k = Some r \<Longrightarrow> vr_paper r \<noteq> p" for k r
    using run_paper [OF ok assms(2)] by blast
  obtain r where "dget (records (run ops ?s)) (h_chunk h) = Some r" "h = to_hit (h_score h) r"
    using search_sound [OF run_ok [OF ok] assms(3,4)] by blast
  then show ?thesis using none by (metis search_hit.simps(2) to_hit_def)
qed

end

interpretation mem: vector_store m_records "\<lambda>rs s. (Inr (), mem_upsert rs s)"
    "\<lambda>v l f s. (mem_search v l f s, s)" "\<lambda>p s. (Inr (fst (mem_delete_by_paper p s)), snd (mem_delete_by_paper p s))"
  by unfold_locales
    (auto simp: records_mem_delete fst_mem_delete length_doomed dest: mem_search_sound)

lemma fst_faiss_delete:
  "fst (faiss_delete_by_paper lib p s) = Inr n \<Longrightarrow> n = length (doomed p (m_records (f_mem s)))"
  by (auto simp: faiss_delete_by_paper_def fst_mem_delete [symmetric] bind_res_Inr_conv split: prod.splits)

interpretation faiss: vector_store "\<lambda>s. m_records (f_mem s)" "faiss_upsert lib"
    "faiss_search lib" "faiss_delete_by_paper lib" for lib :: "'ix faiss_lib"
  by unfold_locales
    (auto simp: faiss_upsert_def records_mem_delete length_doomed dest: faiss_search_sound fst_faiss_delete)

subsection \<open>Properties of the stores\<close>

text \<open>Once a paper has been deleted from a FAISS-backed store, no later search answers a
  chunk of it, whatever the FAISS library does, whatever operations come in between, as
  long as none of them writes that paper again.\<close>

theorem deleted_paper_gone:
  assumes "records_ok (m_records (f_mem s))" "\<not> writes_paper p ops"
    and "fst (faiss_search lib v l f
           (store_run (faiss_upsert lib) (faiss_search lib) (faiss_delete_by_paper lib) ops
             (snd (faiss_delete_by_paper lib p s)))) = Inr hits"
  shows "\<forall>h \<in> set hits. h_paper h \<noteq> p"
  using faiss.deleted_gone [OF assms] by blast

definition dot :: "real list \<Rightarrow> vector_record \<Rightarrow> real" where
  "dot v r = sum_list (map2 (*) v (vr_vector r))"

definition candidates :: "filters \<Rightarrow> mem_store \<Rightarrow> vector_record list" where
  "candidates f s = filter (\<lambda>r. matches (vr_meta r) f) (dvalues (m_records s))"

lemma mem_search_Inr:
  "\<forall>r \<in> set (candidates f s). length (vr_vector r) = length v \<Longrightarrow>
   mem_search v limit f s =
     Inr (py_take limit (sort_desc h_score (map (\<lambda>r. to_hit (dot v r) r) (candidates f s))))"
  unfolding mem_search_def candidates_def [symmetric]
  using mapM_Inr [of "candidates f s" "\<lambda>r. bind_res (dot_strict v (vr_vector r)) (\<lambda>score. Inr (to_hit score r))"
      "\<lambda>r. to_hit (dot v r) r"]
  by (simp add: dot_strict_def dot_def)

lemma mem_search_Inl:
  assumes "\<exists>r \<in> set (candidates f s). length (vr_vector r) \<noteq> length v"
  shows "mem_search v limit f s = Inl zip_error"
proof -
  let ?g = "\<lambda>r. bind_res (dot_strict v (vr_vector r)) (\<lambda>score. Inr (to_hit score r))"
  have e: "?g r = Inl e \<Longrightarrow> e = zip_error" for r e
    by (auto simp: dot_strict_def split: if_splits)
  have "mapM ?g (candidates f s) \<noteq> Inr hs" for hs
  proof
    assume a: "mapM ?g (candidates f s) = Inr hs"
    obtain r where r: "r \<in> set (candidates f s)" "length (vr_vector r) \<noteq> length v" using assms by blast
    then obtain h where "?g r = Inr h"
      using list_all2_ex2 [OF a [unfolded mapM_Inr_conv]] by blast
    then show False using r(2) by (simp add: dot_strict_def)
  qed
  then obtain er where er: "mapM ?g (candidates f s) = Inl er" by (cases "mapM ?g (candidates f s)") auto
  obtain r where "?g r = Inl er" using mapM_Inl [OF er] by blast
  then have "er = zip_error" by (rule e)
  then show ?thesis using er unfolding mem_search_def candidates_def [symmetric] by simp
qed

text \<open>Exact search: when every candidate that passes the filter has the query's dimension,
  the answer is the \<open>limit\<close> best of them, best first, and no candidate left out scores higher
  than one answered; when one has another dimension the search raises the \<open>ValueError\<close> of
  the strict \<open>zip\<close>.\<close>

theorem mem_search_top:
  assumes "0 \<le> limit"
  shows "(\<exists>r \<in> set (candidates f s). length (vr_vector r) \<noteq> length v)
      \<and> mem_search v limit f s = Inl zip_error
    \<or> (\<exists>hits. mem_search v limit f s = Inr hits
         \<and> sorted_wrt (\<lambda>g h. h_score h \<le> h_score g) hits
         \<and> length hits = min (nat limit) (length (candidates f s))
         \<and> mset hits \<subseteq># mset (map (\<lambda>r. to_hit (dot v r) r) (candidates f s))
         \<and> (\<forall>r \<in> set (candidates f s). to_hit (dot v r) r \<in> set hits
              \<or> (\<forall>h \<in> set hits. dot v r \<le> h_score h)))"
proof (cases "\<exists>r \<in> set (candidates f s). length (vr_vector r) \<noteq> length v")
  case True
  then show ?thesis using mem_search_Inl by blast
next
  case False
  let ?hs = "map (\<lambda>r. to_hit (dot v r) r) (candidates f s)"
  let ?hits = "py_take limit (sort_desc h_score ?hs)"
  have "mem_search v limit f s = Inr ?hits" using False mem_search_Inr by blast
  moreover have "sorted_wrt (\<lambda>g h. h_score h \<le> h_score g) ?hits"
    by (rule sorted_wrt_py_take [OF sorted_sort_desc])
  moreover have "length ?hits = min (nat limit) (length (candidates f s))"
    using assms by (simp add: length_py_take)
  moreover have "mset ?hits \<subseteq># mset ?hs"
    using mset_py_take_subset [of limit "sort_desc h_score ?hs"] by simp
  moreover have "to_hit (dot v r) r \<in> set ?hits \<or> (\<forall>h \<in> set ?hits. dot v r \<le> h_score h)"
    if r: "r \<in> set (candidates f s)" for r
  proof (cases "to_hit (dot v r) r \<in> set ?hits")
    case False
    have "to_hit (dot v r) r \<in> set ?hs" using r by simp
    then have "h_score (to_hit (dot v r) r) \<le> h_score h" if "h \<in> set ?hits" for h
      using py_take_sort_desc_top [OF that _ False] by blast
    then show ?thesis by (simp add: to_hit_def)
  qed blast
  ultimately show ?thesis by blast
qed

text \<open>Closing a persistent store and opening it again on its file gives the records back,
  after any sequence of upserts and deletions that writes at least once.\<close>

theorem reopen_keeps_records:
  assumes "m_path s" "m_disk s = Pickled (m_records s) \<or> (\<exists>op \<in> set ops. case op of Search _ _ _ \<Rightarrow> False | _ \<Rightarrow> True)"
  shows "let s' = store_run (\<lambda>rs s. (Inr (), mem_upsert rs s)) (\<lambda>v l f s. (mem_search v l f s, s))
             (\<lambda>p s. (Inr (fst (mem_delete_by_paper p s)), snd (mem_delete_by_paper p s))) ops s in
         m_records (open_mem_store True (m_disk s')) = m_records s'"
proof -
  let ?run = "store_run (\<lambda>rs s. (Inr (), mem_upsert rs s)) (\<lambda>v l f s. (mem_search v l f s, s))
             (\<lambda>p s. (Inr (fst (mem_delete_by_paper p s)), snd (mem_delete_by_paper p s)))"
  have up: "m_disk (mem_upsert rs s) = Pickled (m_records (mem_upsert rs s)) \<and> m_path (mem_upsert rs s)"
    if "m_path s" for rs s using that by (simp add: mem_upsert_def persist_def)
  have de: "m_disk (snd (mem_delete_by_paper p s)) = Pickled (m_records (snd (mem_delete_by_paper p s)))
      \<and> m_path (snd (mem_delete_by_paper p s))"
    if "m_path s" for p s using that by (simp add: mem_delete_by_paper_def persist_def Let_def)
  have "m_disk (?run ops s) = Pickled (m_records (?run ops s))"
    using assms
  proof (induction ops arbitrary: s)
    case (Cons op ops)
    show ?case
    proof (cases op)
      case (Upsert rs)
      then show ?thesis using Cons.IH [of "mem_upsert rs s"] up Cons.prems(1) by simp
    next
      case (Delete p)
      then show ?thesis using Cons.IH [of "snd (mem_delete_by_paper p s)"] de Cons.prems(1) by simp
    next
      case (Search v l f)
      then show ?thesis using Cons by auto
    qed
  qed simp
  then show ?thesis by (simp add: open_mem_store_def Let_def)
qed

subsection \<open>FAISS against exact search\<close>

text \<open>
  The documented behaviour of \<open>IndexFlatIP\<close>: adding vectors of the index's dimension
  succeeds, and a search for the \<open>k\<close> best answers the first \<open>k\<close> of the vectors' inner products
  with their positions, in some descending order.
\<close>

definition scored :: "real list \<Rightarrow> real list list \<Rightarrow> (real \<times> int) list" where
  "scored v us = map (\<lambda>i. (sum_list (map2 (*) v (us ! i)), int i)) [0..<length us]"

definition faiss_exact :: "'ix faiss_lib \<Rightarrow> nat \<Rightarrow> bool" where
  "faiss_exact lib d \<longleftrightarrow> lib_available lib \<and>
     (\<forall>us. us \<noteq> [] \<longrightarrow> (\<forall>u \<in> set us. length u = d) \<longrightarrow>
        (\<exists>ix. lib_add lib (lib_new lib d) us = Inr ix \<and>
           (\<forall>v k. length v = d \<longrightarrow> 0 < k \<longrightarrow> k \<le> int (length us) \<longrightarrow>
              (\<exists>zs. mset zs = mset (scored v us) \<and> sorted_wrt (\<lambda>x y. fst y \<le> fst x) zs
                 \<and> lib_search lib ix v k = Inr (take (nat k) zs)))))"

lemma desc_unique:
  fixes xs ys :: "real list"
  assumes "mset xs = mset ys" "sorted_wrt (\<ge>) xs" "sorted_wrt (\<ge>) ys"
  shows "xs = ys"
proof -
  have "sorted (rev xs)" "sorted (rev ys)" using assms(2,3) by (simp_all add: sorted_wrt_rev)
  moreover have "mset (rev xs) = mset (rev ys)" using assms(1) by simp
  ultimately have "rev xs = rev ys" by (metis properties_for_sort)
  then show ?thesis by simp
qed

lemma mapM_resolve:
  assumes "f_ids s = dkeys (m_records (f_mem s))" "dict_ok (m_records (f_mem s))"
    and "\<forall>sp \<in> set row. 0 \<le> snd sp \<and> nat (snd sp) < length (m_records (f_mem s))"
  shows "mapM (resolve s) row =
    Inr (map (\<lambda>sp. (dvalues (m_records (f_mem s)) ! nat (snd sp), fst sp)) row)"
proof (rule mapM_Inr)
  fix sp assume sp: "sp \<in> set row"
  let ?d = "m_records (f_mem s)" and ?i = "nat (snd sp)"
  have i: "0 \<le> snd sp" "?i < length ?d" using assms(3) sp by auto
  have "dget ?d (dkeys ?d ! ?i) = Some (dvalues ?d ! ?i)"
    using i assms(2) by (simp flip: dict_ok_mem add: in_set_conv_nth) (auto intro: exI [of _ ?i])
  then show "resolve s sp = Inr (dvalues ?d ! ?i, fst sp)"
    using i assms(1) by (simp add: resolve_def)
qed

text \<open>After a rebuild over vectors of the right dimension the index is the exact one.\<close>

definition faiss_synced :: "'ix faiss_lib \<Rightarrow> 'ix faiss_store \<Rightarrow> bool" where
  "faiss_synced lib s \<longleftrightarrow> f_ids s = dkeys (m_records (f_mem s)) \<and>
     (f_ids s \<noteq> [] \<longrightarrow> (\<exists>ix. f_index s = Some ix \<and>
        lib_add lib (lib_new lib (f_dims s)) (map vr_vector (dvalues (m_records (f_mem s)))) = Inr ix))"

lemma vectors_of_dkeys: "dict_ok d \<Longrightarrow> vectors_of (dkeys d) d = map vr_vector (dvalues d)"
  unfolding vectors_of_def using dict_ok_mem [of d] by (auto simp: dict_ok_def)

lemma rebuild_synced:
  assumes "faiss_exact lib (f_dims s)" "dict_ok (m_records (f_mem s))"
    and "\<forall>r \<in> set (dvalues (m_records (f_mem s))). length (vr_vector r) = f_dims s"
  shows "fst (faiss_rebuild lib s) = Inr () \<and> faiss_synced lib (snd (faiss_rebuild lib s))"
proof -
  let ?d = "m_records (f_mem s)"
  have av: "lib_available lib" using assms(1) by (simp add: faiss_exact_def)
  show ?thesis
  proof (cases "?d = []")
    case True
    then show ?thesis using av by (simp add: faiss_rebuild_def faiss_synced_def)
  next
    case False
    let ?us = "map vr_vector (dvalues ?d)"
    have "?us \<noteq> []" "\<forall>u \<in> set ?us. length u = f_dims s" using False assms(3) by auto
    then obtain ix where "lib_add lib (lib_new lib (f_dims s)) ?us = Inr ix"
      using assms(1) unfolding faiss_exact_def by blast
    then show ?thesis using av False assms(2)
      by (simp add: faiss_rebuild_def faiss_synced_def vectors_of_dkeys Let_def)
  qed
qed

lemma scored_dot: "scored v (map vr_vector rs) = map (\<lambda>i. (dot v (rs ! i), int i)) [0..<length rs]"
  by (simp add: scored_def dot_def)

lemma map_fst_scored: "map fst (scored v (map vr_vector rs)) = map (dot v) rs"
  by (rule nth_equalityI) (simp_all add: scored_dot)

lemma synced_search:
  assumes lib: "faiss_exact lib (f_dims s)" and sync: "faiss_synced lib s"
    and ok: "dict_ok (m_records (f_mem s))" and ne: "m_records (f_mem s) \<noteq> []"
    and dims: "\<forall>r \<in> set (dvalues (m_records (f_mem s))). length (vr_vector r) = f_dims s"
    and v: "length v = f_dims s" and limit: "0 < limit"
  obtains zs where "mset zs = mset (scored v (map vr_vector (dvalues (m_records (f_mem s)))))"
    and "sorted_wrt (\<lambda>x y. fst y \<le> fst x) zs"
    and "fst (faiss_search lib v limit None s) = Inr (map (\<lambda>sp. to_hit (fst sp)
           (dvalues (m_records (f_mem s)) ! nat (snd sp))) (take (nat limit) zs))"
proof -
  let ?d = "m_records (f_mem s)"
  let ?us = "map vr_vector (dvalues ?d)" and ?k = "fetch_size limit None (length (f_ids s))"
  have ids: "f_ids s = dkeys ?d" using sync by (simp add: faiss_synced_def)
  then obtain ix where ix: "f_index s = Some ix" "lib_add lib (lib_new lib (f_dims s)) ?us = Inr ix"
    using sync ne by (auto simp: faiss_synced_def)
  have us: "?us \<noteq> []" "\<forall>u \<in> set ?us. length u = f_dims s" using ne dims by auto
  have k: "?k = min (int (length ?d)) limit" using ids by (simp add: fetch_size_def)
  then have k': "0 < ?k" "?k \<le> int (length ?us)" using limit ne by auto
  obtain zs where zs: "mset zs = mset (scored v ?us)" "sorted_wrt (\<lambda>x y. fst y \<le> fst x) zs"
      "lib_search lib ix v ?k = Inr (take (nat ?k) zs)"
  proof -
    obtain jx where jx: "lib_add lib (lib_new lib (f_dims s)) ?us = Inr jx"
      "\<forall>v k. length v = f_dims s \<longrightarrow> 0 < k \<longrightarrow> k \<le> int (length ?us) \<longrightarrow>
         (\<exists>zs. mset zs = mset (scored v ?us) \<and> sorted_wrt (\<lambda>x y. fst y \<le> fst x) zs
            \<and> lib_search lib jx v k = Inr (take (nat k) zs))"
      using lib us unfolding faiss_exact_def by blast
    have "jx = ix" using jx(1) ix(2) by simp
    then show ?thesis using that jx(2) v k' by blast
  qed
  have range: "0 \<le> snd sp \<and> nat (snd sp) < length ?d" if "sp \<in> set zs" for sp
  proof -
    have "sp \<in> set (scored v ?us)" using that mset_eq_setD [OF zs(1)] by simp
    then show ?thesis by (auto simp: scored_def)
  qed
  have len: "length zs = length ?d" using mset_eq_length [OF zs(1)] by (simp add: scored_def)
  let ?row = "take (nat ?k) zs"
  have row: "\<forall>sp \<in> set ?row. 0 \<le> snd sp \<and> nat (snd sp) < length ?d"
    using range by (auto dest: in_set_takeD)
  then have pos: "filter (\<lambda>sp. 0 \<le> snd sp) ?row = ?row" by (simp add: filter_id_conv)
  have row_eq: "?row = take (nat limit) zs" using k len limit by (simp add: min_def)
  have "faiss_scan lib v limit None s =
      Inr (py_take limit (map (\<lambda>sp. to_hit (fst sp) (dvalues ?d ! nat (snd sp))) ?row))"
    unfolding faiss_scan_def using ix(1) zs(3) pos mapM_resolve [OF ids ok row]
    by (simp add: comp_def case_prod_unfold)
  then have "faiss_scan lib v limit None s =
      Inr (map (\<lambda>sp. to_hit (fst sp) (dvalues ?d ! nat (snd sp))) (take (nat limit) zs))"
    unfolding row_eq using limit by (simp add: py_take_def take_map)
  moreover have "f_ids s \<noteq> []" using ids ne by simp
  ultimately have "fst (faiss_search lib v limit None s) =
      Inr (map (\<lambda>sp. to_hit (fst sp) (dvalues ?d ! nat (snd sp))) (take (nat limit) zs))"
    using ix(1) by (simp add: faiss_search_def)
  with zs(1,2) show thesis using that by blast
qed


text \<open>An exact library, and a store on it where a filtered search misses its only match.\<close>

definition exact_lib :: "(nat \<times> real list list) faiss_lib" where
  "exact_lib =
     \<lparr>lib_available = True, lib_new = (\<lambda>d. (d, [])),
      lib_add = (\<lambda>(d, us) vs. if \<forall>v \<in> set vs. length v = d then Inr (d, us @ vs) else Inl (RuntimeErr ''d'')),
      lib_search = (\<lambda>(d, us) v k. Inr (take (nat k) (sort_desc fst (scored v us))))\<rparr>"

lemma exact_lib_sel:
  "lib_available exact_lib" "lib_new exact_lib d = (d, [])"
  "lib_add exact_lib (d, us) vs = (if \<forall>v \<in> set vs. length v = d then Inr (d, us @ vs) else Inl (RuntimeErr ''d''))"
  "lib_search exact_lib (d, us) v k = Inr (take (nat k) (sort_desc fst (scored v us)))"
  by (simp_all add: exact_lib_def)

lemma exact_lib_exact: "faiss_exact exact_lib d"
  unfolding faiss_exact_def
  by (auto simp: exact_lib_def sorted_sort_desc intro!: exI [of _ "sort_desc fst (scored v us)" for v us])

definition sample :: "uuid \<Rightarrow> string \<Rightarrow> real \<Rightarrow> vector_record" where
  "sample c p x =
     \<lparr>vr_chunk = c, vr_paper = (if p = ''A'' then 1 else 2), vr_workspace = 0, vr_vector = [x],
      vr_meta = [(''paper_id'', PyStr p)]\<rparr>"

definition crowd :: "vector_record list" where
  "crowd = [sample 0 ''A'' 2, sample 1 ''A'' 2, sample 2 ''A'' 2, sample 3 ''A'' 2, sample 4 ''A'' 2,
     sample 5 ''A'' 2, sample 6 ''A'' 2, sample 7 ''A'' 2, sample 8 ''A'' 2, sample 9 ''A'' 2,
     sample 10 ''B'' 1]"

definition only_B :: filters where
  "only_B = Some [(''paper_id'', PyStr ''B'')]"

definition crowd_store :: "(nat \<times> real list list) faiss_store" where
  "crowd_store = snd (faiss_upsert exact_lib crowd (open_faiss_store 1 False Absent))"

lemma crowd_records: "m_records (f_mem crowd_store) = map (\<lambda>r. (vr_chunk r, r)) crowd"
  by (simp add: crowd_store_def faiss_upsert_def open_faiss_store_def open_mem_store_def
      mem_upsert_def put_records_def crowd_def sample_def)

text \<open>The FAISS store's filtered search is not correct, contrary to its docstring: it fetches
  ten times the limit and filters afterwards, so when more than that many records of
  other papers score higher, it answers nothing although a stored record matches, which
  the exact store finds.\<close>

theorem faiss_filtered_search_misses:
  "fst (faiss_search exact_lib [1] 1 only_B crowd_store) = Inr []
   \<and> mem_search [1] 1 only_B (f_mem crowd_store) = Inr [to_hit 1 (sample 10 ''B'' 1)]"
proof
  have idx: "f_ids crowd_store = map vr_chunk crowd"
    by (simp add: crowd_store_def faiss_upsert_def open_faiss_store_def open_mem_store_def
      mem_upsert_def put_records_def crowd_def sample_def faiss_rebuild_def exact_lib_def vectors_of_def)
  have ix: "f_index crowd_store = Some (1, map vr_vector crowd)"
    by (simp add: crowd_store_def faiss_upsert_def open_faiss_store_def open_mem_store_def
      mem_upsert_def put_records_def crowd_def sample_def faiss_rebuild_def exact_lib_def vectors_of_def)
  have up: "[0..<11] = [0, 1, 2, 3, 4, 5, 6, 7, 8, 9, 10 :: nat]" by (simp add: upt_rec)
  have sc: "scored [1] (map vr_vector crowd) =
      [(2, 0), (2, 1), (2, 2), (2, 3), (2, 4), (2, 5), (2, 6), (2, 7), (2, 8), (2, 9), (1, 10)]"
    unfolding scored_def by (simp add: crowd_def up sample_def)
  have row: "lib_search exact_lib (1, map vr_vector crowd) [1] 10 =
      Inr [(2, 0), (2, 1), (2, 2), (2, 3), (2, 4), (2, 5), (2, 6), (2, 7), (2, 8), (2, 9)]"
    by (simp add: exact_lib_def sc sort_desc_id)
  show "fst (faiss_search exact_lib [1] 1 only_B crowd_store) = Inr []"
    using row
    by (simp add: faiss_search_def ix idx faiss_scan_def fetch_size_def crowd_def only_B_def)
       (simp add: resolve_def crowd_records idx crowd_def sample_def matches_def matches_one_def py_take_def)
  show "mem_search [1] 1 only_B (f_mem crowd_store) = Inr [to_hit 1 (sample 10 ''B'' 1)]"
    by (simp add: mem_search_def crowd_records crowd_def sample_def only_B_def matches_def matches_one_def
        dot_strict_def py_take_def sort_desc_def to_hit_def)
qed

subsection \<open>Choosing the backend, and cosine similarity\<close>

datatype backend = QdrantBackend | FaissBackend | MemoryBackend

text \<open>\<open>get_vector_store\<close>: the process-wide store is built once, later calls ignore the setting.\<close>

definition get_vector_store :: "string \<Rightarrow> backend option \<Rightarrow> backend res \<times> backend option" where
  "get_vector_store setting cached =
     (case cached of
        Some b \<Rightarrow> (Inr b, cached)
      | None \<Rightarrow>
          let backend = lower setting in
          if backend = ''qdrant'' then (Inr QdrantBackend, Some QdrantBackend)
          else if backend = ''faiss'' then (Inr FaissBackend, Some FaissBackend)
          else if backend = ''memory'' then (Inr MemoryBackend, Some MemoryBackend)
          else (Inl (ValueError ''Unknown vector store backend''), None))"

definition norm2 :: "real list \<Rightarrow> real" where
  "norm2 a = sqrt (sum_list (map (\<lambda>x. x * x) a))"

definition cosine_similarity :: "real list \<Rightarrow> real list \<Rightarrow> real res" where
  "cosine_similarity a b =
     (if norm2 a = 0 \<or> norm2 b = 0 then Inr 0
      else bind_res (dot_strict a b) (\<lambda>d. Inr (d / (norm2 a * norm2 b))))"

lemma squares_nonneg: "0 \<le> sum_list (map (\<lambda>x. x * x) (a :: real list))"
  by (induction a) auto

lemma norm2_nonneg: "0 \<le> norm2 a"
  by (simp add: norm2_def squares_nonneg)

lemma norm2_Cons: "norm2 (x # a) = sqrt (x\<^sup>2 + (norm2 a)\<^sup>2)"
  by (simp add: norm2_def squares_nonneg power2_eq_square)

lemma cauchy_schwarz: "length a = length b \<Longrightarrow> \<bar>sum_list (map2 (*) a b)\<bar> \<le> norm2 a * norm2 b"
proof (induction a b rule: list_induct2)
  case Nil
  then show ?case by (simp add: norm2_def)
next
  case (Cons x a y b)
  let ?A = "norm2 a" and ?B = "norm2 b" and ?s = "sum_list (map2 (*) a b)"
  have "0 \<le> (\<bar>x\<bar> * ?B - \<bar>y\<bar> * ?A)\<^sup>2" by simp
  then have "2 * (\<bar>x\<bar> * ?B * (\<bar>y\<bar> * ?A)) \<le> x\<^sup>2 * ?B\<^sup>2 + y\<^sup>2 * ?A\<^sup>2"
    by (simp add: power2_diff power_mult_distrib)
  then have "(\<bar>x\<bar> * \<bar>y\<bar> + ?A * ?B)\<^sup>2 \<le> (x\<^sup>2 + ?A\<^sup>2) * (y\<^sup>2 + ?B\<^sup>2)"
    by (simp add: power2_sum power_mult_distrib algebra_simps)
  then have "\<bar>x\<bar> * \<bar>y\<bar> + ?A * ?B \<le> sqrt ((x\<^sup>2 + ?A\<^sup>2) * (y\<^sup>2 + ?B\<^sup>2))"
    by (rule real_le_rsqrt)
  moreover have "\<bar>x * y + ?s\<bar> \<le> \<bar>x\<bar> * \<bar>y\<bar> + ?A * ?B"
    using Cons.IH abs_triangle_ineq [of "x * y" ?s] by (simp add: abs_mult)
  ultimately show ?case by (simp add: norm2_Cons real_sqrt_mult)
qed

text \<open>The cosine similarity of two vectors of one dimension lies in \<open>[-1, 1]\<close>; of vectors of
  different dimensions it is the \<open>ValueError\<close> of the strict \<open>zip\<close>, unless one of them is zero.\<close>

theorem cosine_similarity_bounds:
  "(\<exists>c. cosine_similarity a b = Inr c \<and> - 1 \<le> c \<and> c \<le> 1)
   \<or> length a \<noteq> length b \<and> norm2 a \<noteq> 0 \<and> norm2 b \<noteq> 0 \<and> cosine_similarity a b = Inl zip_error"
proof (cases "norm2 a = 0 \<or> norm2 b = 0")
  case True
  then show ?thesis by (auto simp: cosine_similarity_def)
next
  case False
  then have pos: "0 < norm2 a * norm2 b" using norm2_nonneg by (simp add: order_less_le)
  show ?thesis
  proof (cases "length a = length b")
    case True
    let ?d = "sum_list (map2 (*) a b)"
    have "\<bar>?d / (norm2 a * norm2 b)\<bar> \<le> 1"
      using cauchy_schwarz [OF True] pos norm2_nonneg by (simp add: abs_mult divide_le_eq)
    then have "- 1 \<le> ?d / (norm2 a * norm2 b)" "?d / (norm2 a * norm2 b) \<le> 1" by linarith+
    then show ?thesis using False True by (simp add: cosine_similarity_def dot_strict_def)
  qed (use False in \<open>simp add: cosine_similarity_def dot_strict_def\<close>)
qed

subsection \<open>The properties at concrete inputs\<close>

definition two_store :: "(nat \<times> real list list) faiss_store" where
  "two_store = snd (faiss_upsert exact_lib [sample 0 ''A'' 2, sample 1 ''B'' 3] (open_faiss_store 1 False Absent))"

lemma two_records: "f_mem two_store =
    \<lparr>m_records = [(0, sample 0 ''A'' 2), (1, sample 1 ''B'' 3)], m_path = False, m_disk = Absent\<rparr>"
  by (simp add: two_store_def faiss_upsert_def open_faiss_store_def open_mem_store_def persist_def
      mem_upsert_def put_records_def) (simp add: sample_def)

lemma two_ok: "records_ok (m_records (f_mem two_store))"
  by (simp add: two_records records_ok_def dict_ok_def) (simp add: sample_def)

lemma two_dims: "f_dims two_store = 1"
  by (simp add: two_store_def faiss_upsert_def open_faiss_store_def faiss_rebuild_def Let_def exact_lib_def)

definition gone_store :: "(nat \<times> real list list) faiss_store" where
  "gone_store = \<lparr>f_mem = \<lparr>m_records = [(1, sample 1 ''B'' 3)], m_path = False, m_disk = Absent\<rparr>,
     f_dims = 1, f_index = Some (1, [[3]]), f_ids = [1]\<rparr>"

lemma two_delete: "snd (faiss_delete_by_paper exact_lib 1 two_store) = gone_store"
  by (simp add: faiss_delete_by_paper_def two_records two_dims mem_delete_by_paper_def doomed_def
      persist_def faiss_rebuild_def exact_lib_sel vectors_of_def Let_def sample_def gone_store_def
      two_store_def faiss_upsert_def open_faiss_store_def open_mem_store_def mem_upsert_def put_records_def)

lemma gone_search: "faiss_search exact_lib [1] 5 None gone_store = (Inr [to_hit 3 (sample 1 ''B'' 3)], gone_store)"
  by (simp add: gone_store_def faiss_search_def faiss_scan_def fetch_size_def exact_lib_sel scored_def
      resolve_def py_take_def sort_desc_def)

lemma deleted_paper_gone_witness:
  "h_paper (to_hit 3 (sample 1 ''B'' 3)) \<noteq> 1"
proof -
  have "\<forall>h \<in> set [to_hit 3 (sample 1 ''B'' 3)]. h_paper h \<noteq> 1"
    by (rule deleted_paper_gone [where lib = exact_lib and ops = "[Search [1] 5 None]" and s = two_store
          and v = "[1]" and l = 5 and f = None])
       (simp_all add: two_ok writes_paper_def two_delete gone_search)
  then show ?thesis by simp
qed

lemma mem_search_top_witness:
  "\<exists>hits. mem_search [1] 1 None (f_mem two_store) = Inr hits \<and> length hits = 1
     \<and> list_all (\<lambda>h. 2 \<le> h_score h) hits"
proof -
  have cand: "candidates None (f_mem two_store) = [sample 0 ''A'' 2, sample 1 ''B'' 3]"
    by (simp add: candidates_def two_records)
  have len: "length (vr_vector (sample c p x)) = 1" for c p x by (simp add: sample_def)
  obtain hits where hits: "mem_search [1] 1 None (f_mem two_store) = Inr hits" "length hits = 1"
      "mset hits \<subseteq># {#to_hit (dot [1] (sample 0 ''A'' 2)) (sample 0 ''A'' 2),
         to_hit (dot [1] (sample 1 ''B'' 3)) (sample 1 ''B'' 3)#}"
    using mem_search_top [of 1 None "f_mem two_store" "[1]"] by (auto simp: cand len)
  then have "set hits \<subseteq> {to_hit (dot [1] (sample 0 ''A'' 2)) (sample 0 ''A'' 2),
      to_hit (dot [1] (sample 1 ''B'' 3)) (sample 1 ''B'' 3)}"
    using set_mset_mono [OF hits(3)] by simp
  then show ?thesis using hits(1,2) by (auto simp: list_all_iff to_hit_def dot_def sample_def)
qed

lemma reopen_keeps_records_witness:
  "m_records (open_mem_store True (m_disk
     (store_run (\<lambda>rs s. (Inr (), mem_upsert rs s)) (\<lambda>v l f s. (mem_search v l f s, s))
        (\<lambda>p s. (Inr (fst (mem_delete_by_paper p s)), snd (mem_delete_by_paper p s)))
        [Upsert [sample 0 ''A'' 2], Search [1] 1 None] (open_mem_store True Absent)))) = [(0, sample 0 ''A'' 2)]"
  using reopen_keeps_records [of "open_mem_store True Absent" "[Upsert [sample 0 ''A'' 2], Search [1] 1 None]"]
  by (simp add: open_mem_store_def put_records_def) (simp add: sample_def)


end
