(* ===== verification/Embeddings.thy ===== *)
theory Embeddings
  imports VectorStore
begin

section \<open>Embedding providers (retrieval/embeddings.py)\<close>

text \<open>
  L2 normalisation, the hash provider (SHA-256 is a parameter, as bytes), and the retry
  loop the HTTP providers share.  The outside world is a function from the attempt number
  to what the request of that attempt met.
\<close>

definition l2_normalize :: "real list \<Rightarrow> real list" where
  "l2_normalize v = (if norm2 v = 0 then v else map (\<lambda>x. x / norm2 v) v)"

text \<open>\<open>struct.unpack_from(">I", digest)\<close>: the first four bytes, most significant first.\<close>

definition be32 :: "nat list \<Rightarrow> nat" where
  "be32 bs = foldl (\<lambda>a b. 256 * a + b) 0 (take 4 bs)"

definition hash_step :: "(string \<Rightarrow> nat list) \<Rightarrow> nat \<Rightarrow> real list \<Rightarrow> string \<Rightarrow> real list" where
  "hash_step sha256 dims v token =
     (let digest = sha256 token; bucket = be32 digest mod dims;
          sgn = (if digest ! 4 mod 2 = 0 then 1 else - 1) in
      v[bucket := v ! bucket + sgn])"

definition hash_embed_one :: "(string \<Rightarrow> nat list) \<Rightarrow> nat \<Rightarrow> string \<Rightarrow> real list res" where
  "hash_embed_one sha256 dims s =
     (let tokens = words (lower s) in
      if dims = 0 \<and> tokens \<noteq> [] then Inl ZeroDivisionError
      else Inr (l2_normalize (foldl (hash_step sha256 dims) (replicate dims 0) tokens)))"

definition hash_embed_documents :: "(string \<Rightarrow> nat list) \<Rightarrow> nat \<Rightarrow> string list \<Rightarrow> real list list res" where
  "hash_embed_documents sha256 dims texts = mapM (hash_embed_one sha256 dims) texts"

text \<open>\<open>EmbeddingProvider.embed_query\<close>: the document path on one text.\<close>

definition embed_query :: "(string list \<Rightarrow> real list list res) \<Rightarrow> string \<Rightarrow> real list res" where
  "embed_query embed_documents q =
     bind_res (embed_documents [q]) (\<lambda>vs. case vs of [] \<Rightarrow> Inl IndexError | v # _ \<Rightarrow> Inr v)"

subsection \<open>The retry loop\<close>

datatype embed_outcome =
    EmbedResponse nat "real list list"
  | EmbedTransportError

datatype embed_error = EmbeddingRejected nat | EmbeddingExhausted

definition EMBED_MAX_RETRIES :: nat where "EMBED_MAX_RETRIES = 3"

text \<open>One attempt: done, a failure no retry will fix, or a transient failure.  \<open>raise_for_status\<close> of httpx
  refuses every status that is no success, redirects too.\<close>

datatype 'a attempt = Done 'a | Fatal nat | Transient

definition embed_attempt :: "embed_outcome \<Rightarrow> real list list attempt" where
  "embed_attempt r =
     (case r of
        EmbedTransportError \<Rightarrow> Transient
      | EmbedResponse status vectors \<Rightarrow>
          if status = 429 \<or> 500 \<le> status then Transient
          else if 200 \<le> status \<and> status < 300 then Done (map l2_normalize vectors)
          else Fatal status)"

text \<open>The loop returns its result, the number of requests it made and the delays it slept (in
  half seconds).\<close>

fun embed_loop :: "(nat \<Rightarrow> embed_outcome) \<Rightarrow> nat \<Rightarrow> nat \<Rightarrow> (embed_error + real list list) \<times> nat \<times> nat list" where
  "embed_loop net attempt 0 = (Inl EmbeddingExhausted, attempt, [])"
| "embed_loop net attempt (Suc left) =
     (case embed_attempt (net attempt) of
        Done vs \<Rightarrow> (Inr vs, attempt + 1, [])
      | Fatal status \<Rightarrow> (Inl (EmbeddingRejected status), attempt + 1, [])
      | Transient \<Rightarrow>
          let (r, n, ds) = embed_loop net (attempt + 1) left in
          (r, n, (if attempt < EMBED_MAX_RETRIES - 1 then [2 ^ attempt] else []) @ ds))"

definition http_embed_documents ::
    "(nat \<Rightarrow> embed_outcome) \<Rightarrow> string list \<Rightarrow> (embed_error + real list list) \<times> nat \<times> nat list" where
  "http_embed_documents net texts =
     (if texts = [] then (Inr [], 0, []) else embed_loop net 0 EMBED_MAX_RETRIES)"

subsection \<open>Properties\<close>

lemma norm2_scale: "norm2 (map (\<lambda>x. x / c) v) = norm2 v / \<bar>c\<bar>"
proof -
  have "sum_list (map (\<lambda>x. x * x) (map (\<lambda>x. x / c) v)) = sum_list (map (\<lambda>x. x * x) v) / (c * c)"
    by (induction v) (simp_all add: add_divide_distrib)
  then show ?thesis by (simp add: norm2_def real_sqrt_divide flip: power2_eq_square)
qed

lemma norm2_normalize: "norm2 (l2_normalize v) = (if norm2 v = 0 then 0 else 1)"
  using norm2_nonneg [of v] by (simp add: l2_normalize_def norm2_scale)

lemma length_normalize [simp]: "length (l2_normalize v) = length v"
  by (simp add: l2_normalize_def)

lemma length_foldl_hash: "length (foldl (hash_step h d) v ts) = length v"
  by (induction ts arbitrary: v) (simp_all add: hash_step_def Let_def)

text \<open>Every vector of the hash provider has the configured dimension and norm one, or is the
  zero vector (of a text whose buckets cancel out); only a provider configured with no
  dimensions at all fails, by the modulo.\<close>

theorem hash_embedding_normalized:
  "hash_embed_one sha256 dims s = Inl ZeroDivisionError \<and> dims = 0
   \<or> (\<exists>v. hash_embed_one sha256 dims s = Inr v \<and> length v = dims \<and> norm2 v \<in> {0, 1})"
  by (simp add: hash_embed_one_def Let_def norm2_normalize length_foldl_hash)

definition transient :: "embed_outcome \<Rightarrow> bool" where
  "transient r \<longleftrightarrow> embed_attempt r = Transient"

lemma embed_loop_spec:
  "case embed_loop net a left of (r, n, ds) \<Rightarrow>
     a \<le> n \<and> n \<le> a + left \<and> (\<forall>i. a \<le> i \<longrightarrow> i + 1 < n \<longrightarrow> transient (net i))
     \<and> (case r of
          Inr vs \<Rightarrow> a < n \<and> embed_attempt (net (n - 1)) = Done vs
        | Inl (EmbeddingRejected st) \<Rightarrow> a < n \<and> embed_attempt (net (n - 1)) = Fatal st
        | Inl EmbeddingExhausted \<Rightarrow> n = a + left \<and> (\<forall>i. a \<le> i \<longrightarrow> i < n \<longrightarrow> transient (net i)))"
proof (induction net a left rule: embed_loop.induct)
  case (2 net a left)
  show ?case
  proof (cases "embed_attempt (net a)")
    case Transient
    have step: "P a \<Longrightarrow> \<forall>i. Suc a \<le> i \<longrightarrow> Q i \<longrightarrow> P i \<Longrightarrow> \<forall>i. a \<le> i \<longrightarrow> Q i \<longrightarrow> P i" for P Q
      by (metis Suc_leI le_neq_implies_less)
    have t: "transient (net a)" using Transient by (simp add: transient_def)
    obtain r n ds where rec: "embed_loop net (a + 1) left = (r, n, ds)" by (cases "embed_loop net (a + 1) left")
    have ih: "case (r, n, ds) of (r, n, ds) \<Rightarrow>
       a + 1 \<le> n \<and> n \<le> a + 1 + left \<and> (\<forall>i. a + 1 \<le> i \<longrightarrow> i + 1 < n \<longrightarrow> transient (net i))
       \<and> (case r of
            Inr vs \<Rightarrow> a + 1 < n \<and> embed_attempt (net (n - 1)) = Done vs
          | Inl (EmbeddingRejected st) \<Rightarrow> a + 1 < n \<and> embed_attempt (net (n - 1)) = Fatal st
          | Inl EmbeddingExhausted \<Rightarrow> n = a + 1 + left \<and> (\<forall>i. a + 1 \<le> i \<longrightarrow> i < n \<longrightarrow> transient (net i)))"
      using "2.IH" [OF Transient] rec by simp
    have 1: "\<forall>i. a \<le> i \<longrightarrow> i + 1 < n \<longrightarrow> transient (net i)"
      using step [of "\<lambda>i. transient (net i)" "\<lambda>i. i + 1 < n", OF t] ih by simp
    have 2: "(\<forall>i. Suc a \<le> i \<longrightarrow> i < n \<longrightarrow> transient (net i)) \<Longrightarrow> \<forall>i. a \<le> i \<longrightarrow> i < n \<longrightarrow> transient (net i)"
      by (rule step [of "\<lambda>i. transient (net i)" "\<lambda>i. i < n", OF t])
    show ?thesis using ih 1 2 Transient rec
      by (auto simp: Let_def split: sum.splits embed_error.splits)
  qed (auto simp: Let_def)
qed simp

text \<open>The HTTP retry loop makes at most three requests; all but the last met a transient
  failure (429, 5xx or a transport error); it succeeds exactly with the normalised vectors
  of the last response, gives up at once on any other status, and is exhausted only after
  three transient failures.\<close>

theorem embedding_retry_correct:
  "case http_embed_documents net texts of (r, n, delays) \<Rightarrow>
     n \<le> 3 \<and> (\<forall>i. i + 1 < n \<longrightarrow> transient (net i))
     \<and> (case r of
          Inr vs \<Rightarrow> texts = [] \<and> vs = [] \<and> n = 0 \<or> texts \<noteq> [] \<and> embed_attempt (net (n - 1)) = Done vs
        | Inl (EmbeddingRejected st) \<Rightarrow> embed_attempt (net (n - 1)) = Fatal st \<and> (st < 200 \<or> 300 \<le> st) \<and> st < 500 \<and> st \<noteq> 429
        | Inl EmbeddingExhausted \<Rightarrow> n = 3 \<and> (\<forall>i < 3. transient (net i)))"
proof (cases "texts = []")
  case True
  then show ?thesis by (simp add: http_embed_documents_def)
next
  case False
  obtain r n ds where l: "embed_loop net 0 3 = (r, n, ds)" by (cases "embed_loop net 0 3")
  have fatal: "embed_attempt x = Fatal st \<Longrightarrow> (st < 200 \<or> 300 \<le> st) \<and> st < 500 \<and> st \<noteq> 429" for x st
    by (auto simp: embed_attempt_def split: embed_outcome.splits if_splits)
  show ?thesis
    using embed_loop_spec [of 0 3 net] l False fatal
    by (auto simp: http_embed_documents_def EMBED_MAX_RETRIES_def split: sum.splits embed_error.splits)
qed

lemma embedding_retry_correct_witness:
  "\<exists>r delays. http_embed_documents (\<lambda>i. if i = 0 then EmbedTransportError else EmbedResponse 200 [[3, 4]]) [''a'']
     = (r, 2, delays) \<and> transient EmbedTransportError"
  using embedding_retry_correct [of "\<lambda>i. if i = 0 then EmbedTransportError else EmbedResponse 200 [[3, 4]]" "[''a'']"]
  by (simp add: http_embed_documents_def EMBED_MAX_RETRIES_def numeral_3_eq_3 embed_attempt_def
      split: prod.splits)

end
