(* ===== verification/Regex.thy ===== *)
theory Regex
  imports Prelude
begin

section \<open>The fragment of Python's re module the code uses\<close>

text \<open>
  A backtracking matcher in the order of the \<open>re\<close> module: \<open>rmatch\<close> lists every way a
  pattern can match at a position, the preferred one first, so its head is what Python
  returns.  A position is the text before it (reversed), the text after it, and the groups
  captured so far.  \<open>search\<close>, \<open>finditer\<close>, \<open>findall\<close>, \<open>sub\<close> and \<open>split\<close> are
  built on it.  No pattern of the code matches the empty string; on an empty match
  \<open>scan\<close> stops, so that it terminates.
\<close>

datatype rx =
    Eps
  | Cls "char \<Rightarrow> bool"
  | Cat rx rx
  | Alt rx rx
  | Star bool rx
  | Cap nat rx
  | Behind bool "char \<Rightarrow> bool"
  | Ahead bool "char \<Rightarrow> bool"
  | StartOfText
  | EndOfText
  | LineStart
  | LineEnd
  | WordBoundary

type_synonym rpos = "string \<times> string \<times> (nat \<times> string) list"

fun next_is :: "(char \<Rightarrow> bool) \<Rightarrow> string \<Rightarrow> bool" where
  "next_is P [] = False"
| "next_is P (c # cs) = P c"

fun rmatch :: "rx \<Rightarrow> rpos \<Rightarrow> rpos list" where
  "rmatch Eps st = [st]"
| "rmatch (Cls P) (p, s, k) = (case s of [] \<Rightarrow> [] | c # cs \<Rightarrow> if P c then [(c # p, cs, k)] else [])"
| "rmatch (Cat r q) st = concat (map (rmatch q) (rmatch r st))"
| "rmatch (Alt r q) st = rmatch r st @ rmatch q st"
| "rmatch (Star greedy r) st =
     (let more = concat (map (\<lambda>st'. if length (fst (snd st')) < length (fst (snd st))
                                  then rmatch (Star greedy r) st' else []) (rmatch r st))
      in if greedy then more @ [st] else st # more)"
| "rmatch (Cap n r) (p, s, k) =
     map (\<lambda>(p', s', k'). (p', s', (n, take (length s - length s') s) # k')) (rmatch r (p, s, k))"
| "rmatch (Behind pos P) (p, s, k) = (if next_is P p = pos then [(p, s, k)] else [])"
| "rmatch (Ahead pos P) (p, s, k) = (if next_is P s = pos then [(p, s, k)] else [])"
| "rmatch StartOfText (p, s, k) = (if p = [] then [(p, s, k)] else [])"
| "rmatch EndOfText (p, s, k) = (if s = [] \<or> s = [CHR 0x0A] then [(p, s, k)] else [])"
| "rmatch LineStart (p, s, k) = (if p = [] \<or> hd p = CHR 0x0A then [(p, s, k)] else [])"
| "rmatch LineEnd (p, s, k) = (if s = [] \<or> hd s = CHR 0x0A then [(p, s, k)] else [])"
| "rmatch WordBoundary (p, s, k) = (if next_is is_word p \<noteq> next_is is_word s then [(p, s, k)] else [])"

declare rmatch.simps(5) [simp del]

subsection \<open>Derived pattern forms\<close>

definition chr :: "char \<Rightarrow> rx" where
  "chr c = Cls (\<lambda>d. d = c)"

definition one_of :: "string \<Rightarrow> rx" where
  "one_of cs = Cls (\<lambda>d. d \<in> set cs)"

definition none_of :: "string \<Rightarrow> rx" where
  "none_of cs = Cls (\<lambda>d. d \<notin> set cs)"

fun lit :: "string \<Rightarrow> rx" where
  "lit [] = Eps"
| "lit (c # cs) = Cat (chr c) (lit cs)"

text \<open>A literal under \<open>re.IGNORECASE\<close>; the literals of the code are in lower case.\<close>

fun ilit :: "string \<Rightarrow> rx" where
  "ilit [] = Eps"
| "ilit (c # cs) = Cat (Cls (\<lambda>d. lower_char d = c)) (ilit cs)"

definition star :: "rx \<Rightarrow> rx" where
  "star r = Star True r"

definition plus :: "rx \<Rightarrow> rx" where
  "plus r = Cat r (Star True r)"

definition opt :: "rx \<Rightarrow> rx" where
  "opt r = Alt r Eps"

fun upto_n :: "nat \<Rightarrow> rx \<Rightarrow> rx" where
  "upto_n 0 r = Eps"
| "upto_n (Suc n) r = opt (Cat r (upto_n n r))"

fun alts :: "rx list \<Rightarrow> rx" where
  "alts [] = Cls (\<lambda>_. False)"
| "alts [r] = r"
| "alts (r # q # rs) = Alt r (alts (q # rs))"

fun cats :: "rx list \<Rightarrow> rx" where
  "cats [] = Eps"
| "cats [r] = r"
| "cats (r # q # rs) = Cat r (cats (q # rs))"

subsection \<open>Searching\<close>

text \<open>The first match at or after a position: \<open>(skipped, matched, groups, before, after)\<close>.\<close>

fun search_from :: "rx \<Rightarrow> string \<Rightarrow> string
    \<Rightarrow> (string \<times> string \<times> (nat \<times> string) list \<times> string \<times> string) option" where
  "search_from r p s =
     (case rmatch r (p, s, []) of
        (p', s', k) # _ \<Rightarrow> Some ([], take (length s - length s') s, k, p', s')
      | [] \<Rightarrow>
          (case s of
             [] \<Rightarrow> None
           | c # cs \<Rightarrow> map_option (\<lambda>(sk, rest). (c # sk, rest)) (search_from r (c # p) cs)))"

declare search_from.simps [simp del]

definition re_search :: "rx \<Rightarrow> string \<Rightarrow> (string \<times> (nat \<times> string) list) option" where
  "re_search r s = map_option (\<lambda>(sk, m, k, p, t). (m, k)) (search_from r [] s)"

definition re_found :: "rx \<Rightarrow> string \<Rightarrow> bool" where
  "re_found r s \<longleftrightarrow> search_from r [] s \<noteq> None"

definition re_match_at_start :: "rx \<Rightarrow> string \<Rightarrow> bool" where
  "re_match_at_start r s \<longleftrightarrow> rmatch r ([], s, []) \<noteq> []"

subsection \<open>What a match consumes\<close>

text \<open>
  \<open>in_lang r w\<close>: the word \<open>w\<close> has the shape of \<open>r\<close>, with assertions ignored.  Every
  match consumes such a word.
\<close>

inductive in_lang :: "rx \<Rightarrow> string \<Rightarrow> bool" where
  "in_lang Eps []"
| "P c \<Longrightarrow> in_lang (Cls P) [c]"
| "in_lang r v \<Longrightarrow> in_lang q w \<Longrightarrow> in_lang (Cat r q) (v @ w)"
| "in_lang r w \<Longrightarrow> in_lang (Alt r q) w"
| "in_lang q w \<Longrightarrow> in_lang (Alt r q) w"
| "in_lang (Star g r) []"
| "in_lang r v \<Longrightarrow> in_lang (Star g r) w \<Longrightarrow> in_lang (Star g r) (v @ w)"
| "in_lang r w \<Longrightarrow> in_lang (Cap n r) w"
| "in_lang (Behind pos P) []"
| "in_lang (Ahead pos P) []"
| "in_lang StartOfText []"
| "in_lang EndOfText []"
| "in_lang LineStart []"
| "in_lang LineEnd []"
| "in_lang WordBoundary []"

inductive_cases in_lang_ClsE: "in_lang (Cls P) w"
inductive_cases in_lang_CatE: "in_lang (Cat r q) w"
inductive_cases in_lang_AltE: "in_lang (Alt r q) w"
inductive_cases in_lang_CapE: "in_lang (Cap n r) w"
inductive_cases in_lang_EpsE: "in_lang Eps w"

lemma rmatch_consumes:
  "(p', s', k') \<in> set (rmatch r st) \<Longrightarrow>
   \<exists>w. fst (snd st) = w @ s' \<and> p' = rev w @ fst st \<and> in_lang r w"
proof (induction r st arbitrary: p' s' k' rule: rmatch.induct)
  case (1 st)
  then show ?case using in_lang.intros(1) by auto
next
  case (2 P p s k)
  then show ?case by (auto split: list.splits if_splits intro!: in_lang.intros)
next
  case (3 r q st)
  from "3.prems" obtain p1 s1 k1 where 1: "(p1, s1, k1) \<in> set (rmatch r st)"
    and 2: "(p', s', k') \<in> set (rmatch q (p1, s1, k1))" by auto
  obtain v where v: "fst (snd st) = v @ s1" "p1 = rev v @ fst st" "in_lang r v"
    using "3.IH"(1) [OF 1] by blast
  obtain w where w: "s1 = w @ s'" "p' = rev w @ p1" "in_lang q w"
    using "3.IH"(2) [OF 1 2] by auto
  show ?case
    by (rule exI [of _ "v @ w"]) (use v w in \<open>auto intro: in_lang.intros\<close>)
next
  case (4 r q st)
  then show ?case by (fastforce intro: in_lang.intros)
next
  case (5 g r st)
  from "5.prems" consider "(p', s', k') = st"
    | st1 where "st1 \<in> set (rmatch r st)" "length (fst (snd st1)) < length (fst (snd st))"
        "(p', s', k') \<in> set (rmatch (Star g r) st1)"
    by (auto simp: rmatch.simps(5) [of g r st] Let_def split: if_splits)
  then show ?case
  proof cases
    case 1
    then show ?thesis using in_lang.intros(6) by auto
  next
    case (2 st1)
    obtain p1 s1 k1 where st1: "st1 = (p1, s1, k1)" by (cases st1)
    obtain v where v: "fst (snd st) = v @ s1" "p1 = rev v @ fst st" "in_lang r v"
      using "5.IH"(1) 2(1) st1 by blast
    obtain w where w: "s1 = w @ s'" "p' = rev w @ p1" "in_lang (Star g r) w"
      using "5.IH"(2) [OF 2(1,2,3)] st1 by auto
    show ?thesis
      by (rule exI [of _ "v @ w"]) (use v w in \<open>auto intro: in_lang.intros\<close>)
  qed
next
  case (6 n r p s k)
  then show ?case by (fastforce intro: in_lang.intros)
qed (auto split: if_splits intro: in_lang.intros)

lemma search_from_consumes:
  "search_from r p s = Some (sk, m, k, p', s') \<Longrightarrow>
   s = sk @ m @ s' \<and> p' = rev m @ rev sk @ p \<and> in_lang r m
   \<and> (p', s', k) \<in> set (rmatch r (rev sk @ p, m @ s', []))"
proof (induction s arbitrary: p sk)
  case Nil
  then show ?case
    using rmatch_consumes [of p' s' k r "(p, [], [])"]
    by (auto simp: search_from.simps [of r p "[]"] split: list.splits)
next
  case (Cons c s)
  show ?case
  proof (cases "rmatch r (p, c # s, [])")
    case Nil
    with Cons.prems obtain sk1 where "search_from r (c # p) s = Some (sk1, m, k, p', s')"
      "sk = c # sk1"
      by (auto simp: search_from.simps [of r p "c # s"])
    with Cons.IH show ?thesis by fastforce
  next
    case (Cons st sts)
    with Cons.prems have "sk = []" "m = take (length (c # s) - length s') (c # s)" "st = (p', s', k)"
      by (auto simp: search_from.simps [of r p "c # s"] split: prod.splits)
    moreover obtain w where "c # s = w @ s'" "p' = rev w @ p" "in_lang r w"
      using rmatch_consumes [of p' s' k r "(p, c # s, [])"] Cons calculation(3) by auto
    ultimately show ?thesis using Cons by simp
  qed
qed

text \<open>
  All non-overlapping matches, each with the text skipped before it, and the text after the
  last one.  A pattern that matched the empty string would end the scan.
\<close>

function scan :: "rx \<Rightarrow> string \<Rightarrow> string \<Rightarrow> (string \<times> string \<times> (nat \<times> string) list) list \<times> string" where
  "scan r p s =
     (case search_from r p s of
        None \<Rightarrow> ([], s)
      | Some (sk, m, k, p', s') \<Rightarrow>
          if m = [] then ([], s)
          else (let (ms, rest) = scan r p' s' in ((sk, m, k) # ms, rest)))"
  by pat_completeness auto
termination
  by (relation "measure (\<lambda>(r, p, s). length s)") (auto dest!: search_from_consumes)

declare scan.simps [simp del]

definition re_finditer :: "rx \<Rightarrow> string \<Rightarrow> (string \<times> (nat \<times> string) list) list" where
  "re_finditer r s = map snd (fst (scan r [] s))"

definition re_findall :: "rx \<Rightarrow> string \<Rightarrow> string list" where
  "re_findall r s = map fst (re_finditer r s)"

definition group :: "nat \<Rightarrow> (nat \<times> string) list \<Rightarrow> string" where
  "group n k = (case map_of k n of None \<Rightarrow> [] | Some w \<Rightarrow> w)"

definition re_findall_group :: "nat \<Rightarrow> rx \<Rightarrow> string \<Rightarrow> string list" where
  "re_findall_group n r s = map (\<lambda>(m, k). group n k) (re_finditer r s)"

definition re_sub :: "rx \<Rightarrow> string \<Rightarrow> string \<Rightarrow> string" where
  "re_sub r repl s =
     (let (ms, rest) = scan r [] s in concat (map (\<lambda>(sk, m, k). sk @ repl) ms) @ rest)"

definition re_split :: "rx \<Rightarrow> string \<Rightarrow> string list" where
  "re_split r s = (let (ms, rest) = scan r [] s in map fst ms @ [rest])"

lemma scan_cases:
  obtains (stop) "scan r p s = ([], s)"
  | (step) sk m k p' s' ms rest where "search_from r p s = Some (sk, m, k, p', s')" "m \<noteq> []"
      "scan r p' s' = (ms, rest)" "scan r p s = ((sk, m, k) # ms, rest)"
proof (cases "search_from r p s")
  case None
  then show ?thesis using stop by (simp add: scan.simps [of r p s])
next
  case (Some x)
  obtain sk m k p' s' where x: "x = (sk, m, k, p', s')" by (cases x)
  obtain ms rest where r: "scan r p' s' = (ms, rest)" by fastforce
  show ?thesis
  proof (cases "m = []")
    case True
    then show ?thesis using stop Some x by (simp add: scan.simps [of r p s])
  next
    case False
    then show ?thesis using step [OF _ _ r] Some x r by (simp add: scan.simps [of r p s])
  qed
qed

lemma scan_text: "scan r p s = (ms, rest) \<Longrightarrow> concat (map (\<lambda>(sk, m, k). sk @ m) ms) @ rest = s"
proof (induction "length s" arbitrary: p s ms rest rule: less_induct)
  case less
  show ?case
  proof (cases r p s rule: scan_cases)
    case stop
    with less.prems show ?thesis by simp
  next
    case (step sk m k p' s' ms1 rest1)
    note c = search_from_consumes [OF step(1)]
    then have "length s' < length s" using step(2) by auto
    from less.hyps [OF this step(3)] show ?thesis using less.prems step c by auto
  qed
qed

lemma scan_in_lang: "scan r p s = (ms, rest) \<Longrightarrow> (sk, m, k) \<in> set ms \<Longrightarrow> in_lang r m"
proof (induction "length s" arbitrary: p s ms rest rule: less_induct)
  case less
  show ?case
  proof (cases r p s rule: scan_cases)
    case stop
    with less.prems show ?thesis by simp
  next
    case (step sk1 m1 k1 p' s' ms1 rest1)
    note c = search_from_consumes [OF step(1)]
    then have "length s' < length s" using step(2) by auto
    from less.hyps [OF this step(3)] show ?thesis using less.prems step c by auto
  qed
qed

lemma re_findall_in_lang: "w \<in> set (re_findall r s) \<Longrightarrow> in_lang r w"
  unfolding re_findall_def re_finditer_def
  by (cases "scan r [] s") (auto dest: scan_in_lang)

lemma in_lang_Star: "in_lang (Star g (Cls P)) w \<Longrightarrow> \<forall>c \<in> set w. P c"
  by (induction "Star g (Cls P)" w rule: in_lang.induct) (auto elim: in_lang_ClsE)

subsection \<open>Substitution, one match at a time\<close>

definition sub_from :: "rx \<Rightarrow> string \<Rightarrow> string \<Rightarrow> string \<Rightarrow> string" where
  "sub_from r repl p s = (let (ms, rest) = scan r p s in concat (map (\<lambda>(sk, m, k). sk @ repl) ms) @ rest)"

lemma re_sub_from: "re_sub r repl s = sub_from r repl [] s"
  by (simp add: re_sub_def sub_from_def)

lemma sub_from_hit:
  assumes "rmatch r (p, s, []) = (p', s', k) # sts" "length s' < length s"
  shows "sub_from r repl p s = repl @ sub_from r repl p' s'"
proof -
  have f: "search_from r p s = Some ([], take (length s - length s') s, k, p', s')"
    using assms(1) by (simp add: search_from.simps [of r p s])
  have ne: "take (length s - length s') s \<noteq> []" using assms(2) by auto
  from f have "scan r p s = (let (ms, rest) = scan r p' s' in (([], take (length s - length s') s, k) # ms, rest))"
    using ne by (simp add: scan.simps [of r p s] del: take_eq_Nil take_eq_Nil2)
  then show ?thesis by (simp add: sub_from_def case_prod_unfold Let_def)
qed

lemma sub_from_skip:
  assumes "rmatch r (p, c # s, []) = []"
  shows "sub_from r repl p (c # s) = c # sub_from r repl (c # p) s"
proof -
  have f: "search_from r p (c # s) = map_option (\<lambda>(sk, rest). (c # sk, rest)) (search_from r (c # p) s)"
    using assms by (simp add: search_from.simps [of r p "c # s"])
  show ?thesis
  proof (cases r "c # p" s rule: scan_cases)
    case stop
    then have "search_from r (c # p) s = None \<or> (\<exists>sk k p' s'. search_from r (c # p) s = Some (sk, [], k, p', s'))"
      by (auto simp: scan.simps [of r "c # p" s] Let_def split: option.splits if_splits prod.splits)
    then have "scan r p (c # s) = ([], c # s)" using f by (auto simp: scan.simps [of r p "c # s"])
    then show ?thesis using stop by (simp add: sub_from_def)
  next
    case (step sk m k p' s' ms rest)
    then have "scan r p (c # s) = ((c # sk, m, k) # ms, rest)" using f by (simp add: scan.simps [of r p "c # s"])
    then show ?thesis using step by (simp add: sub_from_def)
  qed
qed

lemma sub_from_Nil [simp]: "sub_from r repl p [] = []"
proof (cases r p "[] :: string" rule: scan_cases)
  case (step sk m k p' s' ms rest)
  then show ?thesis using search_from_consumes [OF step(1)] by simp
qed (simp add: sub_from_def)

text \<open>A greedy run of a character class takes all of it.\<close>

lemma rmatch_run:
  "\<exists>sts. rmatch (Star True (Cls P)) (p, s, k) = (rev (takeWhile P s) @ p, dropWhile P s, k) # sts"
proof (induction s arbitrary: p)
  case Nil
  then show ?case by (simp add: rmatch.simps(5))
next
  case (Cons c s)
  obtain sts where "rmatch (Star True (Cls P)) (c # p, s, k) = (rev (takeWhile P s) @ c # p, dropWhile P s, k) # sts"
    using Cons.IH by blast
  then show ?case by (simp add: rmatch.simps(5) [of _ _ "(p, c # s, k)"])
qed

lemma rmatch_plus_run:
  "P c \<Longrightarrow> \<exists>sts. rmatch (plus (Cls P)) (p, c # s, k) = (rev (takeWhile P s) @ c # p, dropWhile P s, k) # sts"
  using rmatch_run [of P "c # p" s k] by (auto simp: plus_def)

function collapse :: "(char \<Rightarrow> bool) \<Rightarrow> string \<Rightarrow> string \<Rightarrow> string" where
  "collapse P repl [] = []"
| "collapse P repl (c # s) = (if P c then repl @ collapse P repl (dropWhile P s) else c # collapse P repl s)"
  by pat_completeness auto
termination
  by (relation "measure (\<lambda>(P, repl, s). length s)") (auto simp: less_Suc_eq_le length_dropWhile_le)

lemma sub_from_plus: "sub_from (plus (Cls P)) repl p s = collapse P repl s"
proof (induction P repl s arbitrary: p rule: collapse.induct)
  case (2 P repl c s)
  show ?case
  proof (cases "P c")
    case True
    obtain sts where "rmatch (plus (Cls P)) (p, c # s, []) = (rev (takeWhile P s) @ c # p, dropWhile P s, []) # sts"
      using rmatch_plus_run [of P c p s "[]"] True by blast
    from sub_from_hit [OF this] show ?thesis using 2 True length_dropWhile_le [of P s] by simp
  next
    case False
    then have "rmatch (plus (Cls P)) (p, c # s, []) = []" by (simp add: plus_def)
    from sub_from_skip [OF this] show ?thesis using 2 False by simp
  qed
qed simp

text \<open>Collapsing white space to single blanks keeps the words.\<close>

abbreviation "squeeze \<equiv> collapse is_space '' ''"

lemma squeeze_hd: "s \<noteq> [] \<Longrightarrow> squeeze s \<noteq> [] \<and> is_space (hd (squeeze s)) = is_space (hd s)"
  by (cases s) auto

lemma words_dropWhile [simp]: "words (dropWhile is_space s) = words s"
  by (induction s) auto

lemma words_squeeze [simp]: "words (squeeze s) = words s"
proof (induction "is_space" "'' ''" s rule: collapse.induct)
  case (2 c s)
  show ?case
  proof (cases "is_space c")
    case True
    then show ?thesis using 2 by simp
  next
    case False
    then have "words (squeeze s) = words s" using 2 by simp
    then show ?thesis using False squeeze_hd [of s] by (cases "s = []") auto
  qed
qed simp

lemma tidy_squeeze: "tidy (squeeze s)"
proof (induction "is_space" "'' ''" s rule: collapse.induct)
  case (2 c s)
  show ?case
  proof (cases "is_space c")
    case True
    let ?t = "dropWhile is_space s"
    have "tidy (squeeze ?t)" using 2 True by simp
    moreover have "squeeze ?t = [] \<or> \<not> is_space (hd (squeeze ?t))"
      using squeeze_hd [of ?t] hd_dropWhile [of is_space s] by fastforce
    ultimately show ?thesis using True by (cases "squeeze ?t") (simp_all del: dropWhile_eq_Nil_conv)
  next
    case False
    then show ?thesis using 2 by (cases "squeeze s") auto
  qed
qed simp

lemma words_append_blank: "is_space c \<Longrightarrow> words (s @ [c]) = words s"
proof (induction s)
  case (Cons d s)
  then show ?case by (cases s) (auto simp del: words.simps(2) simp: words.simps(2) [of d])
qed simp

lemma words_rstrip: "words (rev (dropWhile is_space (rev s))) = words s"
  by (induction s rule: rev_induct) (simp_all add: words_append_blank)

lemma words_strip [simp]: "words (strip s) = words s"
  unfolding strip_by_def words_rstrip by simp

text \<open>\<open>re.sub(r"\s+", " ", s).strip()\<close> is \<open>" ".join(s.split())\<close>.\<close>

lemma strip_collapse_spaces: "strip (re_sub (plus (Cls is_space)) '' '' s) = join '' '' (words s)"
proof -
  let ?c = "strip (squeeze s)"
  have "tidy ?c" using tidy_squeeze strip_by_sublist tidy_sublist by blast
  moreover have "?c = [] \<or> \<not> is_space (last ?c)" using strip_by_last by blast
  ultimately have "join '' '' (words ?c) = dropWhile is_space ?c" by (rule join_words_tidy)
  also have "dropWhile is_space ?c = ?c"
    using strip_by_hd [of is_space "squeeze s"] by (auto simp: dropWhile_eq_self_iff)
  finally have "join '' '' (words s) = ?c" by simp
  then show ?thesis by (simp add: re_sub_from sub_from_plus)
qed

text \<open>Splitting at white space keeps the words.\<close>

lemma words_append_space: "is_space c \<Longrightarrow> words (a @ c # b) = words a @ words b"
proof (induction a)
  case (Cons d a)
  then have IH: "words (a @ c # b) = words a @ words b" by simp
  show ?case
  proof (cases d a rule: words_Cons_cases)
    case space
    then show ?thesis using IH by simp
  next
    case single
    then show ?thesis using IH Cons.prems by (cases a) simp_all
  next
    case (grow w ws)
    then show ?thesis using IH by simp
  next
    case lone
    then show ?thesis using words_eq_Nil [of a] by (cases a) auto
  qed
qed simp

lemma words_append_spaces:
  assumes "m \<noteq> []" "\<forall>c \<in> set m. is_space c"
  shows "words (a @ m @ b) = words a @ words b"
proof -
  obtain c n where m: "m = c # n" using assms(1) by (cases m) auto
  have "words (n @ b) = words b" using assms(2) unfolding m by (induction n) auto
  then show ?thesis using words_append_space [of c a "n @ b"] assms(2) m by simp
qed

lemma words_scan:
  assumes "\<And>m. in_lang r m \<Longrightarrow> \<forall>c \<in> set m. is_space c"
  shows "scan r p s = (ms, rest) \<Longrightarrow> concat (map (\<lambda>x. words (fst x)) ms) @ words rest = words s"
proof (induction "length s" arbitrary: p s ms rest rule: less_induct)
  case less
  show ?case
  proof (cases r p s rule: scan_cases)
    case stop
    with less.prems show ?thesis by simp
  next
    case (step sk m k p' s' ms1 rest1)
    note c = search_from_consumes [OF step(1)]
    then have l: "length s' < length s" using step(2) by auto
    have "words s = words sk @ words s'"
      using words_append_spaces [OF step(2), of sk s'] assms c by auto
    then show ?thesis using less.hyps [OF l step(3)] less.prems step by auto
  qed
qed

lemma words_re_split:
  assumes "\<And>m. in_lang r m \<Longrightarrow> \<forall>c \<in> set m. is_space c"
  shows "concat (map words (re_split r s)) = words s"
proof (cases "scan r [] s")
  case (Pair ms rest)
  then show ?thesis using words_scan [OF assms Pair] by (simp add: re_split_def o_def)
qed

lemma concat_map_filter: "(\<And>x. \<not> P x \<Longrightarrow> f x = []) \<Longrightarrow> concat (map f (filter P xs)) = concat (map f xs)"
  by (induction xs) auto

end
