(* ===== verification/SparseIndex.thy ===== *)
theory SparseIndex
  imports VectorStore Regex
begin

section \<open>The BM25 index (retrieval/sparse.py)\<close>

text \<open>
  \<open>tokenize\<close> and \<open>BM25Index\<close>: the dictionary of documents, the document frequencies and the
  total length, maintained incrementally.  Every operation runs under the index's lock, so
  operations are functions of the whole state.  The invariant \<open>bm_ok\<close> says that the
  statistics are those of a recount; the search is proved to answer exactly the documents
  that pass the filter and contain a query term, and never to divide by zero.
\<close>

subsection \<open>Tokens\<close>

definition STOPWORDS :: "string list" where
  "STOPWORDS = words ''a an and are as at be by for from has have in is it its of on or that the to was were will with this these those we our us you your they their''"

definition token_first :: "char \<Rightarrow> bool" where
  "token_first c \<longleftrightarrow> is_digit c \<or> (97 \<le> code_pt c \<and> code_pt c \<le> 122)"

definition token_rest :: "char \<Rightarrow> bool" where
  "token_rest c \<longleftrightarrow> token_first c \<or> c \<in> set ''-_.''"

definition TOKEN_PATTERN :: rx where
  "TOKEN_PATTERN = Cat (Cls token_first) (star (Cls token_rest))"

definition tokenize :: "string \<Rightarrow> string list" where
  "tokenize txt = filter (\<lambda>t. t \<notin> set STOPWORDS \<and> 1 < length t) (re_findall TOKEN_PATTERN (lower txt))"

subsection \<open>The index\<close>

record document =
  d_chunk :: uuid
  d_paper :: uuid
  d_length :: nat
  d_freqs :: "(string, int) dict"
  d_meta :: metadata

record bm25 =
  b_docs :: "(uuid, document) dict"
  b_df :: "(string, int) dict"
  b_total :: int

definition empty_bm25 :: bm25 where
  "empty_bm25 = \<lparr>b_docs = [], b_df = [], b_total = 0\<rparr>"

definition bm_size :: "bm25 \<Rightarrow> nat" where
  "bm_size ix = length (b_docs ix)"

definition average_length :: "bm25 \<Rightarrow> real res" where
  "average_length ix = (if b_docs ix = [] then Inr 0 else py_div (real_of_int (b_total ix)) (real (bm_size ix)))"

definition drop_term :: "string \<Rightarrow> (string, int) dict \<Rightarrow> (string, int) dict" where
  "drop_term t df =
     (let df1 = dset t (count_of df t - 1) df in if count_of df1 t \<le> 0 then ddel t df1 else df1)"

definition remove_unlocked :: "uuid \<Rightarrow> bm25 \<Rightarrow> bool \<times> bm25" where
  "remove_unlocked c ix =
     (case dget (b_docs ix) c of
        None \<Rightarrow> (False, ix)
      | Some doc \<Rightarrow>
          (True, ix\<lparr>b_docs := ddel c (b_docs ix), b_total := b_total ix - int (d_length doc),
                    b_df := fold drop_term (dkeys (d_freqs doc)) (b_df ix)\<rparr>))"

definition bm_add :: "uuid \<Rightarrow> uuid \<Rightarrow> string \<Rightarrow> metadata option \<Rightarrow> bm25 \<Rightarrow> bm25" where
  "bm_add c p txt meta ix =
     (let tokens = tokenize txt; freqs = counter tokens; ix1 = snd (remove_unlocked c ix);
          doc = \<lparr>d_chunk = c, d_paper = p, d_length = length tokens, d_freqs = freqs,
                 d_meta = (case meta of None \<Rightarrow> [] | Some m \<Rightarrow> m)\<rparr>
      in ix1\<lparr>b_docs := dset c doc (b_docs ix1), b_total := b_total ix1 + int (length tokens),
             b_df := fold counter_add (dkeys freqs) (b_df ix1)\<rparr>)"

definition bm_remove_paper :: "uuid \<Rightarrow> bm25 \<Rightarrow> nat \<times> bm25" where
  "bm_remove_paper p ix =
     (let ks = dkeys (filter (\<lambda>kd. d_paper (snd kd) = p) (b_docs ix)) in
      (length ks, fold (\<lambda>c ix. snd (remove_unlocked c ix)) ks ix))"

definition bm_clear :: "bm25 \<Rightarrow> bm25" where
  "bm_clear ix = \<lparr>b_docs = [], b_df = [], b_total = 0\<rparr>"

definition idf :: "bm25 \<Rightarrow> string \<Rightarrow> real" where
  "idf ix t =
     (let n = count_of (b_df ix) t in
      if n = 0 then 0
      else ln (1 + (real (bm_size ix) - real_of_int n + 1 / 2) / (real_of_int n + 1 / 2)))"

text \<open>The addend of one query term, and the sum over the terms of the query.\<close>

definition term_score :: "real \<Rightarrow> real \<Rightarrow> real \<Rightarrow> (string \<Rightarrow> real) \<Rightarrow> document \<Rightarrow> string \<Rightarrow> real res" where
  "term_score k1 b avg w doc t =
     (let tf = count_of (d_freqs doc) t in
      if tf = 0 then Inr 0
      else bind_res (py_div (real (d_length doc)) avg) (\<lambda>rel.
           py_div (w t * (real_of_int tf * (k1 + 1))) (real_of_int tf + k1 * (1 - b + b * rel))))"

fun doc_score :: "real \<Rightarrow> real \<Rightarrow> real \<Rightarrow> (string \<Rightarrow> real) \<Rightarrow> document \<Rightarrow> string list \<Rightarrow> real \<Rightarrow> real res" where
  "doc_score k1 b avg w doc [] acc = Inr acc"
| "doc_score k1 b avg w doc (t # ts) acc =
     bind_res (term_score k1 b avg w doc t) (\<lambda>x. doc_score k1 b avg w doc ts (acc + x))"

definition doc_hit :: "document \<Rightarrow> real \<Rightarrow> search_hit" where
  "doc_hit doc score = \<lparr>h_chunk = d_chunk doc, h_paper = d_paper doc, h_score = score, h_meta = d_meta doc\<rparr>"

definition bm_search :: "real \<Rightarrow> real \<Rightarrow> string \<Rightarrow> int \<Rightarrow> filters \<Rightarrow> bm25 \<Rightarrow> search_hit list res" where
  "bm_search k1 b query limit filters ix =
     (let ts = tokenize query in
      if ts = [] \<or> b_docs ix = [] then Inr []
      else
        bind_res (py_div (real_of_int (b_total ix)) (real (bm_size ix))) (\<lambda>avg.
        bind_res (mapM (\<lambda>doc. bind_res (doc_score k1 b avg (idf ix) doc ts 0) (\<lambda>sc. Inr (doc_hit doc sc)))
                   (filter (\<lambda>doc. matches (d_meta doc) filters) (dvalues (b_docs ix)))) (\<lambda>hits.
        Inr (py_take limit (sort_desc h_score (filter (\<lambda>h. 0 < h_score h) hits))))))"

definition BM25_K1 :: real where "BM25_K1 = 3 / 2"
definition BM25_B :: real where "BM25_B = 3 / 4"

subsection \<open>The statistics are a recount\<close>

definition has_term :: "string \<Rightarrow> document \<Rightarrow> bool" where
  "has_term t doc \<longleftrightarrow> t \<in> set (dkeys (d_freqs doc))"

definition recount :: "string \<Rightarrow> document multiset \<Rightarrow> int" where
  "recount t ds = int (size (filter_mset (has_term t) ds))"

definition docs_of :: "bm25 \<Rightarrow> document multiset" where
  "docs_of ix = mset (dvalues (b_docs ix))"

text \<open>A stored document is the count of some token list.\<close>

definition doc_ok :: "document \<Rightarrow> bool" where
  "doc_ok doc \<longleftrightarrow> (\<exists>ts. d_length doc = length ts \<and> d_freqs doc = counter ts)"

definition df_ok :: "(string, int) dict \<Rightarrow> document multiset \<Rightarrow> bool" where
  "df_ok df ds \<longleftrightarrow> dict_ok df \<and> (\<forall>t. count_of df t = recount t ds \<and> dget df t \<noteq> Some 0)"

definition bm_ok :: "bm25 \<Rightarrow> bool" where
  "bm_ok ix \<longleftrightarrow> dict_ok (b_docs ix)
     \<and> (\<forall>c doc. dget (b_docs ix) c = Some doc \<longrightarrow> d_chunk doc = c \<and> doc_ok doc)
     \<and> df_ok (b_df ix) (docs_of ix)
     \<and> b_total ix = int (\<Sum>doc \<in># docs_of ix. d_length doc)"

lemma recount_add [simp]:
  "recount t (add_mset doc ds) = recount t ds + (if has_term t doc then 1 else 0)"
  by (simp add: recount_def)

lemma recount_nonneg [simp]: "0 \<le> recount t ds"
  by (simp add: recount_def)

lemma drop_term_props:
  "dict_ok df \<Longrightarrow> dict_ok (drop_term t df)"
  "0 < count_of df t \<Longrightarrow> count_of (drop_term t df) x = count_of df x - (if x = t then 1 else 0)"
  "0 < count_of df t \<Longrightarrow> dget df x \<noteq> Some 0 \<Longrightarrow> dget (drop_term t df) x \<noteq> Some 0"
  by (auto simp: drop_term_def Let_def)

lemma fold_drop_term:
  "distinct ts \<Longrightarrow> dict_ok df \<Longrightarrow> \<forall>t \<in> set ts. 0 < count_of df t \<Longrightarrow> \<forall>t. dget df t \<noteq> Some 0 \<Longrightarrow>
   dict_ok (fold drop_term ts df)
   \<and> (\<forall>x. count_of (fold drop_term ts df) x = count_of df x - (if x \<in> set ts then 1 else 0))
   \<and> (\<forall>x. dget (fold drop_term ts df) x \<noteq> Some 0)"
proof (induction ts arbitrary: df)
  case (Cons t ts)
  have "dict_ok (drop_term t df)" using Cons.prems by (simp add: drop_term_props)
  moreover have "\<forall>x \<in> set ts. 0 < count_of (drop_term t df) x"
    using Cons.prems by (auto simp: drop_term_props)
  moreover have "\<forall>x. dget (drop_term t df) x \<noteq> Some 0"
    using Cons.prems by (simp add: drop_term_props)
  ultimately have "dict_ok (fold drop_term ts (drop_term t df))
     \<and> (\<forall>x. count_of (fold drop_term ts (drop_term t df)) x = count_of (drop_term t df) x - (if x \<in> set ts then 1 else 0))
     \<and> (\<forall>x. dget (fold drop_term ts (drop_term t df)) x \<noteq> Some 0)"
    using Cons.IH Cons.prems(1) by simp
  then show ?case using Cons.prems by (auto simp: drop_term_props)
qed simp

lemma fold_count_terms:
  "distinct ts \<Longrightarrow> dict_ok df \<Longrightarrow> \<forall>t. 0 \<le> count_of df t \<and> dget df t \<noteq> Some 0 \<Longrightarrow>
   dict_ok (fold counter_add ts df)
   \<and> (\<forall>x. count_of (fold counter_add ts df) x = count_of df x + (if x \<in> set ts then 1 else 0))
   \<and> (\<forall>x. dget (fold counter_add ts df) x \<noteq> Some 0)"
proof (induction ts arbitrary: df)
  case (Cons t ts)
  have "dict_ok (counter_add t df)" using Cons.prems by (simp add: counter_add_props)
  moreover have "\<forall>x. 0 \<le> count_of (counter_add t df) x \<and> dget (counter_add t df) x \<noteq> Some 0"
    using Cons.prems(3) by (auto simp: counter_add_def)
      (metis add.commute add_nonneg_pos less_irrefl zero_less_one)+
  ultimately have "dict_ok (fold counter_add ts (counter_add t df))
     \<and> (\<forall>x. count_of (fold counter_add ts (counter_add t df)) x = count_of (counter_add t df) x + (if x \<in> set ts then 1 else 0))
     \<and> (\<forall>x. dget (fold counter_add ts (counter_add t df)) x \<noteq> Some 0)"
    using Cons.IH Cons.prems(1) by simp
  then show ?case using Cons.prems by (auto simp: counter_add_props)
qed simp

lemma doc_ok_distinct: "doc_ok doc \<Longrightarrow> distinct (dkeys (d_freqs doc))"
  using dict_ok_counter by (auto simp: doc_ok_def dict_ok_def)

lemma bm_ok_empty [inv_intros]: "bm_ok empty_bm25"
  by (simp add: bm_ok_def empty_bm25_def docs_of_def df_ok_def recount_def)

lemma bm_ok_remove [inv_intros]:
  assumes "bm_ok ix" shows "bm_ok (snd (remove_unlocked c ix))"
proof (cases "dget (b_docs ix) c")
  case None
  then show ?thesis using assms by (simp add: remove_unlocked_def)
next
  case (Some doc)
  let ?ix = "snd (remove_unlocked c ix)"
  have ok: "dict_ok (b_docs ix)" and doc: "doc_ok doc" and df: "df_ok (b_df ix) (docs_of ix)"
    and tot: "b_total ix = int (\<Sum>doc \<in># docs_of ix. d_length doc)"
    using assms Some by (auto simp: bm_ok_def)
  have ds: "docs_of ix = add_mset doc (docs_of ?ix)"
    using mset_dvalues_ddel [OF ok Some] Some by (simp add: docs_of_def remove_unlocked_def)
  let ?ts = "dkeys (d_freqs doc)"
  have "0 < count_of (b_df ix) t" if "t \<in> set ?ts" for t
    using df that recount_nonneg [of t "docs_of ?ix"]
    by (simp add: df_ok_def ds has_term_def)
  then have f: "dict_ok (fold drop_term ?ts (b_df ix))
     \<and> (\<forall>x. count_of (fold drop_term ?ts (b_df ix)) x = count_of (b_df ix) x - (if x \<in> set ?ts then 1 else 0))
     \<and> (\<forall>x. dget (fold drop_term ?ts (b_df ix)) x \<noteq> Some 0)"
    using df by (intro fold_drop_term doc_ok_distinct [OF doc]) (auto simp: df_ok_def)
  then have "df_ok (b_df ?ix) (docs_of ?ix)"
    using df Some by (simp add: df_ok_def remove_unlocked_def ds has_term_def)
  moreover have "b_total ?ix = int (\<Sum>doc \<in># docs_of ?ix. d_length doc)"
    using tot Some by (simp add: ds) (simp add: remove_unlocked_def)
  moreover have "dict_ok (b_docs ?ix)" using ok Some by (simp add: remove_unlocked_def)
  moreover have "\<forall>c' d. dget (b_docs ?ix) c' = Some d \<longrightarrow> d_chunk d = c' \<and> doc_ok d"
    using assms Some by (auto simp: bm_ok_def remove_unlocked_def)
  ultimately show ?thesis by (simp add: bm_ok_def)
qed

lemma remove_docs: "b_docs (snd (remove_unlocked c ix)) = ddel c (b_docs ix)"
  by (auto simp: remove_unlocked_def map_of_eq_None_iff delete_id split: option.splits)

lemma bm_ok_add [inv_intros]:
  assumes "bm_ok ix" shows "bm_ok (bm_add c p txt meta ix)"
proof -
  let ?ix = "snd (remove_unlocked c ix)" and ?ix' = "bm_add c p txt meta ix"
  let ?ts = "dkeys (counter (tokenize txt))"
  define doc where "doc = \<lparr>d_chunk = c, d_paper = p, d_length = length (tokenize txt),
    d_freqs = counter (tokenize txt), d_meta = (case meta of None \<Rightarrow> [] | Some m \<Rightarrow> m)\<rparr>"
  have ok: "bm_ok ?ix" using assms by (rule bm_ok_remove)
  have doc: "doc_ok doc" by (auto simp: doc_ok_def doc_def)
  have new: "c \<notin> fst ` set (b_docs ?ix)"
    using dkeys_ddel [of c "b_docs ix"] by (simp add: remove_docs)
  have docs: "b_docs ?ix' = dset c doc (b_docs ?ix)" by (simp add: bm_add_def doc_def Let_def)
  have ds: "docs_of ?ix' = add_mset doc (docs_of ?ix)"
    using mset_dvalues_dset [of c "b_docs ?ix" doc] new by (simp add: docs_of_def docs)
  have df: "df_ok (b_df ?ix) (docs_of ?ix)" using ok by (simp add: bm_ok_def)
  have f: "dict_ok (fold counter_add ?ts (b_df ?ix))
     \<and> (\<forall>x. count_of (fold counter_add ?ts (b_df ?ix)) x = count_of (b_df ?ix) x + (if x \<in> set ?ts then 1 else 0))
     \<and> (\<forall>x. dget (fold counter_add ?ts (b_df ?ix)) x \<noteq> Some 0)"
    using df dict_ok_counter [of "tokenize txt"]
    by (intro fold_count_terms) (auto simp: df_ok_def dict_ok_def)
  then have "df_ok (b_df ?ix') (docs_of ?ix')"
    using df unfolding df_ok_def ds by (simp add: bm_add_def Let_def has_term_def doc_def)
  moreover have "b_total ?ix' = int (\<Sum>doc \<in># docs_of ?ix'. d_length doc)"
    using ok unfolding ds by (simp add: bm_ok_def bm_add_def Let_def doc_def)
  moreover have "dict_ok (b_docs ?ix')" using ok by (simp add: docs bm_ok_def)
  moreover have "\<forall>c' d. dget (b_docs ?ix') c' = Some d \<longrightarrow> d_chunk d = c' \<and> doc_ok d"
    using ok doc by (auto simp: docs bm_ok_def) (simp_all add: doc_def)
  ultimately show ?thesis by (simp add: bm_ok_def)
qed

lemma fold_remove: "bm_ok ix \<Longrightarrow> bm_ok (fold (\<lambda>c ix. snd (remove_unlocked c ix)) ks ix)
   \<and> b_docs (fold (\<lambda>c ix. snd (remove_unlocked c ix)) ks ix) = fold ddel ks (b_docs ix)"
  by (induction ks arbitrary: ix) (simp_all add: bm_ok_remove remove_docs)

lemma bm_ok_remove_paper [inv_intros]: "bm_ok ix \<Longrightarrow> bm_ok (snd (bm_remove_paper p ix))"
  using fold_remove by (simp add: bm_remove_paper_def Let_def)

lemma bm_ok_clear [inv_intros]: "bm_ok (bm_clear ix)"
  using bm_ok_empty by (simp add: bm_clear_def empty_bm25_def)

lemma remove_paper_docs:
  assumes "bm_ok ix"
  shows "b_docs (snd (bm_remove_paper p ix)) = filter (\<lambda>kd. d_paper (snd kd) \<noteq> p) (b_docs ix)"
proof -
  let ?d = "b_docs ix" and ?ks = "dkeys (filter (\<lambda>kd. d_paper (snd kd) = p) (b_docs ix))"
  have ok: "dict_ok ?d" using assms by (simp add: bm_ok_def)
  have "fst kd \<in> set ?ks \<longleftrightarrow> d_paper (snd kd) = p" if kd: "kd \<in> set ?d" for kd
  proof
    assume "fst kd \<in> set ?ks"
    then obtain d where d: "(fst kd, d) \<in> set ?d" "d_paper d = p" by auto
    then have "d = snd kd" using kd ok by (metis dict_ok_mem option.inject prod.collapse)
    then show "d_paper (snd kd) = p" using d by simp
  qed (use kd in auto)
  then have "filter (\<lambda>kd. fst kd \<notin> set ?ks) ?d = filter (\<lambda>kd. d_paper (snd kd) \<noteq> p) ?d"
    by (intro filter_cong) auto
  moreover have "b_docs (snd (bm_remove_paper p ix)) = fold ddel ?ks ?d"
    using fold_remove [OF assms] by (simp add: bm_remove_paper_def Let_def)
  ultimately show ?thesis by (simp only: fold_ddel)
qed

text \<open>The states the index's public operations can reach.\<close>

inductive bm_reachable :: "bm25 \<Rightarrow> bool" where
  start: "bm_reachable empty_bm25"
| add: "bm_reachable ix \<Longrightarrow> bm_reachable (bm_add c p txt meta ix)"
| remove_paper: "bm_reachable ix \<Longrightarrow> bm_reachable (snd (bm_remove_paper p ix))"
| clear: "bm_reachable ix \<Longrightarrow> bm_reachable (bm_clear ix)"

lemma bm_reachable_bm_ok: "bm_reachable ix \<Longrightarrow> bm_ok ix"
  by (induction rule: bm_reachable.induct) (simp_all add: inv_intros)

text \<open>C11: However papers are added, re-added and removed, the incremental statistics are those
  of a recount: every document frequency is the number of stored documents with the term,
  terms no document has are absent, and the total length is the sum of the lengths.\<close>

theorem bm_statistics_exact:
  assumes "bm_reachable ix"
  shows "(\<forall>t. dget (b_df ix) t =
            (let n = length (filter (has_term t) (dvalues (b_docs ix))) in if n = 0 then None else Some (int n)))
     \<and> b_total ix = int (sum_list (map d_length (dvalues (b_docs ix))))"
proof -
  have ok: "bm_ok ix" using assms by (rule bm_reachable_bm_ok)
  have "dget (b_df ix) t =
      (let n = length (filter (has_term t) (dvalues (b_docs ix))) in if n = 0 then None else Some (int n))" for t
  proof -
    have "count_of (b_df ix) t = int (length (filter (has_term t) (dvalues (b_docs ix))))"
      using ok by (simp add: bm_ok_def df_ok_def recount_def docs_of_def flip: mset_filter del: mset_map)
    moreover have "dget (b_df ix) t \<noteq> Some 0" using ok by (simp add: bm_ok_def df_ok_def)
    ultimately show ?thesis by (cases "dget (b_df ix) t") (auto simp: count_of_def Let_def)
  qed
  moreover have "(\<Sum>doc \<in># docs_of ix. d_length doc) = sum_list (map d_length (dvalues (b_docs ix)))"
    unfolding docs_of_def by (simp add: sum_mset_sum_list flip: mset_map)
  ultimately show ?thesis using ok by (simp add: bm_ok_def)
qed

subsection \<open>Search\<close>

lemma doc_ok_count: "doc_ok doc \<Longrightarrow> 0 \<le> count_of (d_freqs doc) t \<and> (count_of (d_freqs doc) t = 0 \<longleftrightarrow> \<not> has_term t doc)"
proof -
  assume "doc_ok doc"
  then obtain ts where ts: "d_freqs doc = counter ts" by (auto simp: doc_ok_def)
  then have "has_term t doc \<longleftrightarrow> t \<in> set ts" by (simp add: has_term_def)
  then show ?thesis using ts by (simp add: count_list_0_iff)
qed

lemma doc_ok_length: "doc_ok doc \<Longrightarrow> has_term t doc \<Longrightarrow> 0 < d_length doc"
proof -
  assume "doc_ok doc" and t: "has_term t doc"
  then obtain ts where ts: "d_length doc = length ts" "d_freqs doc = counter ts" by (auto simp: doc_ok_def)
  then have "t \<in> set ts" using t by (simp add: has_term_def)
  then show ?thesis using ts by (cases ts) auto
qed

lemma stored_docs_of: "(c, doc) \<in> set (b_docs ix) \<Longrightarrow> doc \<in># docs_of ix"
  by (force simp: docs_of_def)

lemma bm_okD:
  "bm_ok ix \<Longrightarrow> (c, doc) \<in> set (b_docs ix) \<Longrightarrow> doc_ok doc \<and> d_chunk doc = c"
  by (auto simp: bm_ok_def dict_ok_mem)

lemma idf_pos:
  assumes ok: "bm_ok ix" and doc: "(c, doc) \<in> set (b_docs ix)" and t: "has_term t doc"
  shows "0 < idf ix t"
proof -
  let ?n = "count_of (b_df ix) t"
  have n: "?n = recount t (docs_of ix)" using ok by (simp add: bm_ok_def df_ok_def)
  have "doc \<in># filter_mset (has_term t) (docs_of ix)" using stored_docs_of [OF doc] t by simp
  then have "0 < size (filter_mset (has_term t) (docs_of ix))"
    by (metis empty_iff nonempty_has_size set_mset_empty)
  then have pos: "0 < ?n" using n by (simp only: recount_def of_nat_0_less_iff)
  have "size (filter_mset (has_term t) (docs_of ix)) \<le> size (docs_of ix)" by (rule size_filter_mset_lesseq)
  then have "?n \<le> int (bm_size ix)" using n by (simp add: recount_def docs_of_def bm_size_def)
  then have "real_of_int ?n \<le> real (bm_size ix)" by linarith
  then have "0 < (real (bm_size ix) - real_of_int ?n + 1 / 2) / (real_of_int ?n + 1 / 2)"
    using pos by (intro divide_pos_pos) simp_all
  then show ?thesis using pos by (simp add: idf_def Let_def ln_gt_zero)
qed

lemma total_pos:
  assumes "bm_ok ix" "(c, doc) \<in> set (b_docs ix)" "0 < d_length doc"
  shows "0 < b_total ix"
proof -
  have "d_length doc \<le> (\<Sum>d \<in># docs_of ix. d_length d)"
    using stored_docs_of [OF assms(2)] by (metis image_mset_add_mset insert_DiffM le_add1 sum_mset.insert)
  moreover have "b_total ix = int (\<Sum>d \<in># docs_of ix. d_length d)" using assms(1) unfolding bm_ok_def by blast
  ultimately show ?thesis using assms(3) by linarith
qed

lemma term_score_ok:
  assumes ok: "bm_ok ix" and doc: "(c, doc) \<in> set (b_docs ix)" and k1: "0 \<le> k1" and b: "0 \<le> b" "b \<le> 1"
  shows "\<exists>x. term_score k1 b (real_of_int (b_total ix) / real (bm_size ix)) (idf ix) doc t = Inr x
     \<and> (if has_term t doc then 0 < x else x = 0)"
proof (cases "has_term t doc")
  case False
  then show ?thesis using doc_ok_count bm_okD [OF ok doc] by (simp add: term_score_def)
next
  case True
  let ?tf = "real_of_int (count_of (d_freqs doc) t)" and ?avg = "real_of_int (b_total ix) / real (bm_size ix)"
  have dok: "doc_ok doc" using bm_okD [OF ok doc] by simp
  have tf: "0 < ?tf" using doc_ok_count [OF dok, of t] True by simp
  have "0 < b_total ix" using total_pos [OF ok doc doc_ok_length [OF dok True]] .
  moreover have "0 < bm_size ix" using doc by (cases "b_docs ix") (auto simp: bm_size_def)
  ultimately have avg: "0 < ?avg" by simp
  let ?den = "?tf + k1 * (1 - b + b * (real (d_length doc) / ?avg))"
  have "0 \<le> real (d_length doc) / ?avg" using avg by (intro divide_nonneg_pos) simp_all
  then have "0 \<le> b * (real (d_length doc) / ?avg)" using b by (intro mult_nonneg_nonneg)
  then have "0 \<le> k1 * (1 - b + b * (real (d_length doc) / ?avg))" using k1 b by (intro mult_nonneg_nonneg) simp_all
  then have den: "0 < ?den" using tf by linarith
  have "0 < idf ix t * (?tf * (k1 + 1))"
    using idf_pos [OF ok doc True] tf k1 by (intro mult_pos_pos) simp_all
  then have pos: "0 < idf ix t * (?tf * (k1 + 1)) / ?den" using den by (rule divide_pos_pos)
  have "py_div (real (d_length doc)) ?avg = Inr (real (d_length doc) / ?avg)"
    by (rule py_div_nonzero) (use avg in \<open>metis less_irrefl\<close>)
  moreover have "py_div (idf ix t * (?tf * (k1 + 1))) ?den = Inr (idf ix t * (?tf * (k1 + 1)) / ?den)"
    using den by (intro py_div_nonzero) simp
  ultimately have "term_score k1 b ?avg (idf ix) doc t = Inr (idf ix t * (?tf * (k1 + 1)) / ?den)"
    using tf by (simp only: term_score_def Let_def bind_res_simps if_False) simp
  then show ?thesis using pos True by simp
qed

lemma doc_score_ok:
  assumes ok: "bm_ok ix" and doc: "(c, doc) \<in> set (b_docs ix)" and k1: "0 \<le> k1" and b: "0 \<le> b" "b \<le> 1"
  shows "0 \<le> acc \<Longrightarrow> \<exists>x. doc_score k1 b (real_of_int (b_total ix) / real (bm_size ix)) (idf ix) doc ts acc = Inr x
     \<and> acc \<le> x \<and> (0 < x \<longleftrightarrow> 0 < acc \<or> (\<exists>t \<in> set ts. has_term t doc))"
proof (induction ts arbitrary: acc)
  case (Cons t ts)
  obtain x where x: "term_score k1 b (real_of_int (b_total ix) / real (bm_size ix)) (idf ix) doc t = Inr x"
      "if has_term t doc then 0 < x else x = 0"
    using term_score_ok [OF ok doc k1 b] by blast
  have "0 \<le> acc + x" using Cons.prems x(2) by (auto split: if_splits)
  from Cons.IH [OF this] x Cons.prems show ?case by (auto split: if_splits)
qed simp

definition relevant :: "string \<Rightarrow> filters \<Rightarrow> document \<Rightarrow> bool" where
  "relevant query f doc \<longleftrightarrow> matches (d_meta doc) f \<and> (\<exists>t \<in> set (tokenize query). has_term t doc)"

lemma doc_hit_sel [simp]:
  "h_chunk (doc_hit doc x) = d_chunk doc" "h_paper (doc_hit doc x) = d_paper doc"
  "h_score (doc_hit doc x) = x" "h_meta (doc_hit doc x) = d_meta doc"
  by (simp_all add: doc_hit_def)

lemma bm_search_full:
  assumes ok: "bm_ok ix" and k1: "0 \<le> k1" and b: "0 \<le> b" "b \<le> 1"
  shows "\<exists>score. bm_search k1 b query limit f ix =
      Inr (py_take limit (sort_desc h_score
             (map (\<lambda>doc. doc_hit doc (score doc)) (filter (relevant query f) (dvalues (b_docs ix))))))
    \<and> (\<forall>doc \<in> set (filter (relevant query f) (dvalues (b_docs ix))). 0 < score doc)"
proof (cases "tokenize query = [] \<or> b_docs ix = []")
  case True
  then have "filter (relevant query f) (dvalues (b_docs ix)) = []" by (auto simp: relevant_def filter_empty_conv)
  then show ?thesis using True by (simp add: bm_search_def py_take_def)
next
  case False
  let ?ts = "tokenize query" and ?N = "real (bm_size ix)" and ?T = "real_of_int (b_total ix)"
  let ?ms = "filter (\<lambda>doc. matches (d_meta doc) f) (dvalues (b_docs ix))"
  define score where "score doc = (case doc_score k1 b (?T / ?N) (idf ix) doc ?ts 0 of Inr x \<Rightarrow> x | Inl _ \<Rightarrow> 0)" for doc
  have score: "doc_score k1 b (?T / ?N) (idf ix) doc ?ts 0 = Inr (score doc)
      \<and> (0 < score doc \<longleftrightarrow> (\<exists>t \<in> set ?ts. has_term t doc))" if doc: "doc \<in> set (dvalues (b_docs ix))" for doc
  proof -
    obtain c where "(c, doc) \<in> set (b_docs ix)" using doc by auto
    from doc_score_ok [OF ok this k1 b, of 0 ?ts] show ?thesis by (auto simp: score_def)
  qed
  have "mapM (\<lambda>doc. bind_res (doc_score k1 b (?T / ?N) (idf ix) doc ?ts 0) (\<lambda>sc. Inr (doc_hit doc sc))) ?ms
      = Inr (map (\<lambda>doc. doc_hit doc (score doc)) ?ms)"
    by (rule mapM_Inr) (use score in auto)
  moreover have "filter (\<lambda>h. 0 < h_score h) (map (\<lambda>doc. doc_hit doc (score doc)) ?ms) =
      map (\<lambda>doc. doc_hit doc (score doc)) (filter (relevant query f) (dvalues (b_docs ix)))"
    using score by (auto simp: filter_map filter_filter relevant_def comp_def intro!: arg_cong [of _ _ "map _"] filter_cong)
  moreover have "py_div ?T ?N = Inr (?T / ?N)" using False by (intro py_div_nonzero) (simp add: bm_size_def)
  ultimately have "bm_search k1 b query limit f ix =
      Inr (py_take limit (sort_desc h_score
             (map (\<lambda>doc. doc_hit doc (score doc)) (filter (relevant query f) (dvalues (b_docs ix))))))"
    using False by (simp only: bm_search_def Let_def if_False bind_res_simps)
  moreover have "\<forall>doc \<in> set (filter (relevant query f) (dvalues (b_docs ix))). 0 < score doc"
    using score by (auto simp: relevant_def)
  ultimately show ?thesis by blast
qed

text \<open>C12: On every reachable index, with the usual parameters, a search returns normally (it
  never divides by zero), its hits have positive scores, best first and no chunk twice,
  and they are exactly the documents that pass the filter and contain a query term, up
  to the limit.\<close>

theorem bm_search_exact:
  assumes "bm_reachable ix" and "0 \<le> k1" "0 \<le> b" "b \<le> 1" and "0 \<le> limit"
  shows "\<exists>hits. bm_search k1 b query limit f ix = Inr hits
     \<and> sorted_wrt (\<lambda>g h. h_score h \<le> h_score g) hits
     \<and> distinct (map h_chunk hits)
     \<and> length hits = min (nat limit) (length (filter (relevant query f) (dvalues (b_docs ix))))
     \<and> (\<forall>h \<in> set hits. 0 < h_score h \<and> (\<exists>doc. dget (b_docs ix) (h_chunk h) = Some doc
            \<and> relevant query f doc \<and> h_paper h = d_paper doc \<and> h_meta h = d_meta doc))"
proof -
  have ok: "bm_ok ix" using assms(1) by (rule bm_reachable_bm_ok)
  let ?ds = "filter (relevant query f) (dvalues (b_docs ix))"
  obtain score where sc: "bm_search k1 b query limit f ix =
      Inr (py_take limit (sort_desc h_score (map (\<lambda>doc. doc_hit doc (score doc)) ?ds)))"
    and pos: "\<forall>doc \<in> set ?ds. 0 < score doc"
    using bm_search_full [OF ok assms(2-4)] by blast
  let ?full = "sort_desc h_score (map (\<lambda>doc. doc_hit doc (score doc)) ?ds)"
  have "map d_chunk (dvalues (b_docs ix)) = dkeys (b_docs ix)"
    using bm_okD [OF ok] by auto
  then have "distinct (map d_chunk (dvalues (b_docs ix)))"
    using ok by (simp only: bm_ok_def dict_ok_def)
  then have "distinct (map d_chunk ?ds)" by (rule distinct_map_filter)
  then have "distinct (map h_chunk (map (\<lambda>doc. doc_hit doc (score doc)) ?ds))" by (simp add: comp_def)
  then have dist: "distinct (map h_chunk (py_take limit ?full))"
    by (simp add: map_py_take distinct_py_take)
  have mem: "0 < h_score h \<and> (\<exists>doc. dget (b_docs ix) (h_chunk h) = Some doc
      \<and> relevant query f doc \<and> h_paper h = d_paper doc \<and> h_meta h = d_meta doc)"
    if h: "h \<in> set (py_take limit ?full)" for h
  proof -
    obtain c doc where doc: "(c, doc) \<in> set (b_docs ix)" "relevant query f doc" "h = doc_hit doc (score doc)"
      using in_set_py_takeD [OF h] by auto
    then have "dget (b_docs ix) (d_chunk doc) = Some doc"
      using ok bm_okD [OF ok doc(1)] by (simp add: bm_ok_def dict_ok_mem)
    then show ?thesis using doc pos by force
  qed
  have "length (py_take limit ?full) = min (nat limit) (length ?ds)"
    using assms(5) by (simp add: length_py_take)
  then show ?thesis using sc dist mem sorted_wrt_py_take [OF sorted_sort_desc] by blast
qed

subsection \<open>The properties at a concrete index\<close>

lemma tokenize_sample: "tokenize ''Deep nets'' = [''deep'', ''nets'']"
  by code_simp

definition one_doc :: bm25 where
  "one_doc = snd (bm_remove_paper 9 (bm_add 1 7 ''Deep nets'' None empty_bm25))"

lemma one_doc_reachable: "bm_reachable one_doc"
  unfolding one_doc_def by (intro bm_reachable.intros)

lemma one_doc_docs: "b_docs one_doc =
    [(1, \<lparr>d_chunk = 1, d_paper = 7, d_length = 2, d_freqs = [(''deep'', 1), (''nets'', 1)], d_meta = []\<rparr>)]"
  by (simp add: one_doc_def bm_remove_paper_def bm_add_def tokenize_sample empty_bm25_def remove_unlocked_def
      counter_def counter_add_def count_of_def Let_def)

lemma bm_statistics_exact_witness: "dget (b_df one_doc) ''nets'' = Some 1 \<and> b_total one_doc = 2"
  using bm_statistics_exact [OF one_doc_reachable] by (simp add: one_doc_docs has_term_def Let_def)

lemma bm_search_exact_witness:
  "\<exists>hits. bm_search BM25_K1 BM25_B ''Deep nets'' 10 None one_doc = Inr hits \<and> length hits = 1"
  using bm_search_exact [OF one_doc_reachable, of BM25_K1 BM25_B 10 "''Deep nets''" None]
  by (auto simp: BM25_K1_def BM25_B_def one_doc_docs relevant_def tokenize_sample has_term_def)

end
