(* ===== verification/Database.thy ===== *)
theory Database
  imports PyVal
begin

section \<open>The tables (models/)\<close>

text \<open>
  The rows the services read and write, with the columns they use, and a database as one
  list of rows per table.  A \<open>SELECT\<close> with a \<open>WHERE\<close> is a filter of the table, in the order of
  the rows; identifiers are primary keys (\<open>db_ok\<close>).
\<close>

datatype paper_status = PENDING | PROCESSING | READY | FAILED

record workspace_row =
  w_id :: uuid
  w_owner :: uuid

record paper_row =
  p_id :: uuid
  p_workspace :: uuid
  p_uploader :: uuid
  p_title :: "string option"
  p_status :: paper_status
  p_filename :: string
  p_checksum :: string
  p_size :: nat
  p_storage_key :: string
  p_page_count :: "nat option"
  p_abstract :: "string option"
  p_authors :: "string option"
  p_error :: "string option"
  p_ocr_pages :: nat
  p_year :: "int option"
  p_venue :: "string option"

record chunk_row =
  k_id :: uuid
  k_paper :: uuid
  k_index :: nat
  k_content :: string
  k_section :: "string option"
  k_page :: "int option"
  k_kind :: string
  k_tokens :: nat
  k_embedded :: bool

record database =
  db_workspaces :: "workspace_row list"
  db_papers :: "paper_row list"
  db_chunks :: "chunk_row list"

definition db_ok :: "database \<Rightarrow> bool" where
  "db_ok db \<longleftrightarrow> distinct (map w_id (db_workspaces db)) \<and> distinct (map p_id (db_papers db))
     \<and> distinct (map k_id (db_chunks db))"

text \<open>\<open>db.get(Paper, id)\<close>\<close>

definition get_paper_row :: "database \<Rightarrow> uuid \<Rightarrow> paper_row option" where
  "get_paper_row db pid = find (\<lambda>p. p_id p = pid) (db_papers db)"

text \<open>\<open>ORDER BY chunk_index\<close>\<close>

definition order_by :: "('a \<Rightarrow> nat) \<Rightarrow> 'a list \<Rightarrow> 'a list" where
  "order_by f xs = sort_key f xs"

lemma get_paper_row_Some:
  "get_paper_row db pid = Some p \<Longrightarrow> p \<in> set (db_papers db) \<and> p_id p = pid"
  by (auto simp: get_paper_row_def find_Some_iff)

lemma set_order_by [simp]: "set (order_by f xs) = set xs"
  by (simp add: order_by_def)

lemma distinct_order_by [simp]: "distinct (order_by f xs) = distinct xs"
  by (simp add: order_by_def)

end
