(* ===== verification/Indexer.thy ===== *)
theory Indexer
  imports SparseIndex Embeddings Database
begin

section \<open>Indexing a paper (retrieval/indexer.py, rebuild in retrieval/service.py)\<close>

text \<open>
  \<open>index_paper\<close>, \<open>remove_paper_from_index\<close> and \<open>rebuild_sparse_index\<close> over the in-memory vector
  store, the BM25 index and the chunk table.  The embedding provider is a parameter that
  may fail.  Effects that happened before a failure stay: every operation returns its
  result together with the state it leaves.
\<close>

record index_state =
  i_store :: mem_store
  i_bm :: bm25
  i_db :: database

text \<open>\<open>range(0, len(items), size)\<close> raises on a zero step and is empty for a negative one.\<close>

function (sequential) slices :: "nat \<Rightarrow> 'a list \<Rightarrow> 'a list list" where
  "slices n [] = []"
| "slices n (x # xs) = take (max 1 n) (x # xs) # slices n (drop (max 1 n) (x # xs))"
  by pat_completeness auto
termination by (relation "measure (\<lambda>(n, xs). length xs)") auto

definition batched :: "'a list \<Rightarrow> int \<Rightarrow> 'a list list res" where
  "batched items step =
     (if step = 0 then Inl (ValueError ''range() arg 3 must not be zero'')
      else if step < 0 then Inr [] else Inr (slices (nat step) items))"

definition opt_str :: "string option \<Rightarrow> string" where
  "opt_str v = (case v of None \<Rightarrow> [] | Some s \<Rightarrow> s)"

definition opt_int :: "int option \<Rightarrow> int" where
  "opt_int v = (case v of None \<Rightarrow> 0 | Some n \<Rightarrow> n)"

definition sparse_meta :: "paper_row \<Rightarrow> chunk_row \<Rightarrow> metadata" where
  "sparse_meta p c =
     [(''chunk_id'', PyStr (str_uuid (k_id c))), (''paper_id'', PyStr (str_uuid (p_id p))),
      (''workspace_id'', PyStr (str_uuid (p_workspace p))), (''kind'', PyStr (k_kind c)),
      (''section_path'', PyStr (opt_str (k_section c)))]"

definition dense_meta :: "paper_row \<Rightarrow> chunk_row \<Rightarrow> metadata" where
  "dense_meta p c = sparse_meta p c @ [(''page_number'', PyInt (opt_int (k_page c)))]"

definition chunk_record :: "paper_row \<Rightarrow> chunk_row \<times> real list \<Rightarrow> vector_record" where
  "chunk_record p cv =
     \<lparr>vr_chunk = k_id (fst cv), vr_paper = p_id p, vr_workspace = p_workspace p, vr_vector = snd cv,
      vr_meta = dense_meta p (fst cv)\<rparr>"

definition add_chunk :: "paper_row \<Rightarrow> chunk_row \<Rightarrow> bm25 \<Rightarrow> bm25" where
  "add_chunk p c = bm_add (k_id c) (p_id p) (k_content c) (Some (sparse_meta p c))"

definition mark_embedded :: "uuid list \<Rightarrow> database \<Rightarrow> database" where
  "mark_embedded ids db =
     db\<lparr>db_chunks := map (\<lambda>c. if k_id c \<in> set ids then c\<lparr>k_embedded := True\<rparr> else c) (db_chunks db)\<rparr>"

definition index_batch ::
    "(string list \<Rightarrow> real list list res) \<Rightarrow> paper_row \<Rightarrow> chunk_row list \<Rightarrow> index_state \<Rightarrow> unit res \<times> index_state" where
  "index_batch embedder p batch s =
     (case embedder (map k_content batch) of
        Inl e \<Rightarrow> (Inl e, s)
      | Inr vectors \<Rightarrow>
          if length vectors \<noteq> length batch then (Inl zip_error, s)
          else (Inr (), s\<lparr>i_store := mem_upsert (map (chunk_record p) (zip batch vectors)) (i_store s),
                          i_bm := fold (add_chunk p) batch (i_bm s),
                          i_db := mark_embedded (map k_id batch) (i_db s)\<rparr>))"

fun index_batches ::
    "(string list \<Rightarrow> real list list res) \<Rightarrow> paper_row \<Rightarrow> chunk_row list list \<Rightarrow> nat \<Rightarrow> index_state
       \<Rightarrow> nat res \<times> index_state" where
  "index_batches embedder p [] n s = (Inr n, s)"
| "index_batches embedder p (b # bs) n s =
     (case index_batch embedder p b s of
        (Inl e, s') \<Rightarrow> (Inl e, s')
      | (Inr _, s') \<Rightarrow> index_batches embedder p bs (n + length b) s')"

definition index_paper ::
    "(string list \<Rightarrow> real list list res) \<Rightarrow> uuid \<Rightarrow> int \<Rightarrow> bool \<Rightarrow> index_state \<Rightarrow> nat res \<times> index_state" where
  "index_paper embedder pid batch_size reindex s =
     (case get_paper_row (i_db s) pid of
        None \<Rightarrow> (Inr 0, s)
      | Some p \<Rightarrow>
          let chunks = order_by k_index (filter (\<lambda>c. k_paper c = pid \<and> (reindex \<or> \<not> k_embedded c)) (db_chunks (i_db s))) in
          if chunks = [] then (Inr 0, s)
          else
            let s = (if reindex
                     then s\<lparr>i_store := snd (mem_delete_by_paper pid (i_store s)),
                            i_bm := snd (bm_remove_paper pid (i_bm s))\<rparr>
                     else s) in
            case batched chunks batch_size of
              Inl e \<Rightarrow> (Inl e, s)
            | Inr bs \<Rightarrow> index_batches embedder p bs 0 s)"

definition remove_paper_from_index :: "uuid \<Rightarrow> index_state \<Rightarrow> nat \<times> index_state" where
  "remove_paper_from_index pid s =
     (let bm = snd (bm_remove_paper pid (i_bm s)); (n, st) = mem_delete_by_paper pid (i_store s) in
      (n, s\<lparr>i_bm := bm, i_store := st\<rparr>))"

text \<open>Every chunk row whose paper exists goes into a cleared index.\<close>

definition rebuild_rows :: "database \<Rightarrow> (chunk_row \<times> paper_row) list" where
  "rebuild_rows db =
     concat (map (\<lambda>c. map (Pair c) (filter (\<lambda>p. p_id p = k_paper c) (db_papers db))) (db_chunks db))"

definition rebuild_sparse_index :: "index_state \<Rightarrow> nat \<times> index_state" where
  "rebuild_sparse_index s =
     (let rows = rebuild_rows (i_db s) in
      (length rows, s\<lparr>i_bm := fold (\<lambda>(c, p). add_chunk p c) rows (bm_clear (i_bm s))\<rparr>))"

subsection \<open>Every index entry carries its paper\<close>

text \<open>
  The retrieval service filters on the metadata entry \<open>paper_id\<close>; it must name the paper the
  entry belongs to.
\<close>

definition tag_ok :: "metadata \<Rightarrow> uuid \<Rightarrow> bool" where
  "tag_ok m p \<longleftrightarrow> dget m ''paper_id'' = Some (PyStr (str_uuid p))"

definition index_ok :: "index_state \<Rightarrow> bool" where
  "index_ok s \<longleftrightarrow> records_ok (m_records (i_store s)) \<and> bm_ok (i_bm s)
     \<and> (\<forall>k r. dget (m_records (i_store s)) k = Some r \<longrightarrow> tag_ok (vr_meta r) (vr_paper r))
     \<and> (\<forall>k d. dget (b_docs (i_bm s)) k = Some d \<longrightarrow> tag_ok (d_meta d) (d_paper d))"

lemma tag_ok_meta [simp]: "tag_ok (sparse_meta p c) (p_id p)" "tag_ok (dense_meta p c) (p_id p)"
  by (simp_all add: tag_ok_def sparse_meta_def dense_meta_def)

lemma dget_put_records:
  "if k \<in> vr_chunk ` set rs then \<exists>r \<in> set rs. vr_chunk r = k \<and> dget (put_records rs d) k = Some r
   else dget (put_records rs d) k = dget d k"
proof (induction rs arbitrary: d)
  case (Cons r rs)
  have eq: "put_records (r # rs) d = put_records rs (dset (vr_chunk r) r d)" by (simp add: put_records_def)
  show ?case
  proof (cases "k \<in> vr_chunk ` set rs")
    case True
    then show ?thesis using Cons.IH [of "dset (vr_chunk r) r d"] unfolding eq by auto
  next
    case False
    then show ?thesis using Cons.IH [of "dset (vr_chunk r) r d"] unfolding eq by auto
  qed
qed (simp add: put_records_def)

lemma dget_put_recordsD:
  "dget (put_records rs d) k = Some r \<Longrightarrow> r \<in> set rs \<and> vr_chunk r = k \<or> k \<notin> vr_chunk ` set rs \<and> dget d k = Some r"
  using dget_put_records [of k rs d] by (auto split: if_splits)

lemma dget_bm_add:
  "dget (b_docs (bm_add c p s m ix)) k =
     (if k = c then Some \<lparr>d_chunk = c, d_paper = p, d_length = length (tokenize s), d_freqs = counter (tokenize s),
         d_meta = (case m of None \<Rightarrow> [] | Some m \<Rightarrow> m)\<rparr> else dget (b_docs ix) k)"
  by (simp add: bm_add_def Let_def remove_docs)

lemma fold_add_chunk_ok:
  "bm_ok ix \<Longrightarrow> \<forall>k d. dget (b_docs ix) k = Some d \<longrightarrow> tag_ok (d_meta d) (d_paper d) \<Longrightarrow>
   bm_ok (fold (\<lambda>(c, p). add_chunk p c) rows ix)
   \<and> (\<forall>k d. dget (b_docs (fold (\<lambda>(c, p). add_chunk p c) rows ix)) k = Some d \<longrightarrow> tag_ok (d_meta d) (d_paper d))"
proof (induction rows arbitrary: ix)
  case (Cons r rows)
  obtain c p where r: "r = (c, p)" by (cases r)
  have "bm_ok (add_chunk p c ix)" unfolding add_chunk_def by (rule bm_ok_add [OF Cons.prems(1)])
  moreover have "\<forall>k d. dget (b_docs (add_chunk p c ix)) k = Some d \<longrightarrow> tag_ok (d_meta d) (d_paper d)"
    using Cons.prems(2) by (simp add: add_chunk_def dget_bm_add)
  ultimately show ?case using Cons.IH r by simp
qed simp

lemma fold_add_chunk: "fold (add_chunk p) cs ix = fold (\<lambda>(c, p). add_chunk p c) (map (\<lambda>c. (c, p)) cs) ix"
  by (induction cs arbitrary: ix) simp_all

lemma index_batch_ok [inv_intros]:
  assumes "index_ok s" shows "index_ok (snd (index_batch embedder p batch s))"
proof (cases "embedder (map k_content batch)")
  case (Inl e)
  then show ?thesis using assms by (simp add: index_batch_def)
next
  case (Inr vectors)
  have tag: "tag_ok (vr_meta r) (vr_paper r)"
    if "dget (put_records (map (chunk_record p) (zip batch vectors)) (m_records (i_store s))) k = Some r" for k r
    using dget_put_recordsD [OF that] assms by (auto simp: index_ok_def chunk_record_def)
  have "bm_ok (fold (add_chunk p) batch (i_bm s))
      \<and> (\<forall>k d. dget (b_docs (fold (add_chunk p) batch (i_bm s))) k = Some d \<longrightarrow> tag_ok (d_meta d) (d_paper d))"
    unfolding fold_add_chunk using assms by (intro fold_add_chunk_ok) (simp_all add: index_ok_def)
  then show ?thesis
    using assms tag Inr by (simp add: index_batch_def index_ok_def records_ok_put)
qed

lemma index_batches_ok [inv_intros]: "index_ok s \<Longrightarrow> index_ok (snd (index_batches embedder p bs n s))"
proof (induction bs arbitrary: n s)
  case (Cons b bs)
  have "index_ok (snd (index_batch embedder p b s))" using Cons.prems by (rule index_batch_ok)
  then show ?case using Cons.IH by (cases "index_batch embedder p b s") (auto split: sum.splits)
qed simp

lemma index_ok_drop:
  assumes "index_ok s"
  shows "index_ok (s\<lparr>i_store := snd (mem_delete_by_paper q (i_store s)), i_bm := snd (bm_remove_paper q (i_bm s))\<rparr>)"
proof -
  have r: "records_ok (m_records (i_store s))" and b: "bm_ok (i_bm s)" using assms by (simp_all add: index_ok_def)
  have "dget (filter (\<lambda>kr. d_paper (snd kr) \<noteq> q) (b_docs (i_bm s))) k = Some d \<Longrightarrow> dget (b_docs (i_bm s)) k = Some d" for k d
    using dget_filter_value [of "b_docs (i_bm s)" "\<lambda>d. d_paper d \<noteq> q" k d] b
    by (simp add: bm_ok_def case_prod_unfold)
  moreover have "dget (filter (\<lambda>kr. vr_paper (snd kr) \<noteq> q) (m_records (i_store s))) k = Some v
      \<Longrightarrow> dget (m_records (i_store s)) k = Some v" for k v
    using dget_filter_records [OF r, of "\<lambda>v. vr_paper v \<noteq> q" k v] by simp
  ultimately show ?thesis
    using assms r b unfolding index_ok_def
    by (simp add: records_mem_delete remove_paper_docs records_ok_filter bm_ok_remove_paper) blast
qed

lemma index_paper_ok [inv_intros]: "index_ok s \<Longrightarrow> index_ok (snd (index_paper embedder q n reindex s))"
  using index_ok_drop [of s q] index_batches_ok
  by (auto simp: index_paper_def Let_def split: option.splits sum.splits)

lemma remove_paper_ok [inv_intros]: "index_ok s \<Longrightarrow> index_ok (snd (remove_paper_from_index q s))"
  using index_ok_drop [of s q] by (auto simp: remove_paper_from_index_def Let_def index_ok_def split: prod.splits)

lemma rebuild_ok [inv_intros]: "index_ok s \<Longrightarrow> index_ok (snd (rebuild_sparse_index s))"
  using fold_add_chunk_ok [of "bm_clear (i_bm s)" "rebuild_rows (i_db s)"] bm_ok_clear
  by (simp add: rebuild_sparse_index_def index_ok_def Let_def bm_clear_def)

inductive index_reachable :: "index_state \<Rightarrow> bool" where
  start: "index_reachable \<lparr>i_store = open_mem_store False Absent, i_bm = empty_bm25, i_db = db\<rparr>"
| database: "index_reachable s \<Longrightarrow> index_reachable (s\<lparr>i_db := db\<rparr>)"
| index: "index_reachable s \<Longrightarrow> index_reachable (snd (index_paper embedder pid n reindex s))"
| remove: "index_reachable s \<Longrightarrow> index_reachable (snd (remove_paper_from_index pid s))"
| rebuild: "index_reachable s \<Longrightarrow> index_reachable (snd (rebuild_sparse_index s))"

lemma index_reachable_ok: "index_reachable s \<Longrightarrow> index_ok s"
proof (induction rule: index_reachable.induct)
  case (start db)
  then show ?case using bm_ok_empty by (simp add: index_ok_def open_mem_store_def empty_bm25_def)
next
  case (database s db)
  then show ?case by (simp add: index_ok_def)
qed (simp_all add: inv_intros)

subsection \<open>The chunk table and both indexes stay in sync\<close>

definition present :: "index_state \<Rightarrow> uuid \<Rightarrow> uuid \<Rightarrow> bool" where
  "present s c q \<longleftrightarrow> (\<exists>r. dget (m_records (i_store s)) c = Some r \<and> vr_paper r = q)
     \<and> (\<exists>d. dget (b_docs (i_bm s)) c = Some d \<and> d_paper d = q)"

definition in_sync :: "index_state \<Rightarrow> bool" where
  "in_sync s \<longleftrightarrow> (\<forall>c \<in> set (db_chunks (i_db s)). k_embedded c \<longrightarrow> present s (k_id c) (k_paper c))"

definition chunk_keys :: "database \<Rightarrow> (uuid \<times> uuid) list" where
  "chunk_keys db = map (\<lambda>c. (k_id c, k_paper c)) (db_chunks db)"

lemma chunk_keys_mark [simp]: "chunk_keys (mark_embedded ids db) = chunk_keys db"
  by (simp add: chunk_keys_def mark_embedded_def comp_def)

lemma dget_add_chunk:
  "dget (b_docs (add_chunk p c ix)) k =
     (if k = k_id c then Some \<lparr>d_chunk = k_id c, d_paper = p_id p, d_length = length (tokenize (k_content c)),
         d_freqs = counter (tokenize (k_content c)), d_meta = sparse_meta p c\<rparr> else dget (b_docs ix) k)"
  by (simp add: add_chunk_def dget_bm_add)

lemma docs_fold_add:
  "if k \<in> k_id ` set cs then \<exists>d. dget (b_docs (fold (add_chunk p) cs ix)) k = Some d \<and> d_paper d = p_id p
   else dget (b_docs (fold (add_chunk p) cs ix)) k = dget (b_docs ix) k"
proof (induction cs arbitrary: ix)
  case (Cons c cs)
  show ?case
  proof (cases "k \<in> k_id ` set cs")
    case True
    then show ?thesis using Cons.IH [of "add_chunk p c ix"] by auto
  next
    case False
    then show ?thesis using Cons.IH [of "add_chunk p c ix"] by (auto simp: dget_add_chunk)
  qed
qed simp

lemma index_batch_present:
  assumes "index_batch embedder p batch s = (Inr (), s')"
  shows "chunk_keys (i_db s') = chunk_keys (i_db s)"
    and "i_db s' = mark_embedded (map k_id batch) (i_db s)"
    and "k \<in> k_id ` set batch \<Longrightarrow> present s' k (p_id p)"
    and "k \<notin> k_id ` set batch \<Longrightarrow> present s' k q = present s k q"
proof -
  obtain vectors where v: "length vectors = length batch"
    and s': "s' = s\<lparr>i_store := mem_upsert (map (chunk_record p) (zip batch vectors)) (i_store s),
        i_bm := fold (add_chunk p) batch (i_bm s), i_db := mark_embedded (map k_id batch) (i_db s)\<rparr>"
    using assms by (auto simp: index_batch_def split: sum.splits if_splits)
  have ids: "vr_chunk ` set (map (chunk_record p) (zip batch vectors)) = k_id ` set batch"
  proof -
    have "vr_chunk ` set (map (chunk_record p) (zip batch vectors)) = k_id ` (fst ` set (zip batch vectors))"
      by (simp add: image_image chunk_record_def)
    also have "fst ` set (zip batch vectors) = set batch" using v by (metis list.set_map map_fst_zip)
    finally show ?thesis .
  qed
  show "i_db s' = mark_embedded (map k_id batch) (i_db s)" using s' by simp
  then show "chunk_keys (i_db s') = chunk_keys (i_db s)" by simp
  note put = dget_put_records [of k "map (chunk_record p) (zip batch vectors)" "m_records (i_store s)", unfolded ids]
  note add = docs_fold_add [of k batch p "i_bm s"]
  show "present s' k (p_id p)" if "k \<in> k_id ` set batch"
    using put add that by (auto simp: present_def s' chunk_record_def)
  show "present s' k q = present s k q" if "k \<notin> k_id ` set batch"
    using put add that by (simp add: present_def s')
qed

lemma in_sync_step:
  assumes batch: "index_batch embedder p b s = (Inr (), s')" and sync: "in_sync s"
    and keys: "distinct (map fst (chunk_keys (i_db s)))"
    and mem: "\<forall>c \<in> set b. (k_id c, p_id p) \<in> set (chunk_keys (i_db s))"
  shows "in_sync s'"
  unfolding in_sync_def
proof (intro ballI impI)
  fix c' assume c': "c' \<in> set (db_chunks (i_db s'))" "k_embedded c'"
  note st = index_batch_present [OF batch]
  obtain c where c: "c \<in> set (db_chunks (i_db s))" "k_id c' = k_id c" "k_paper c' = k_paper c"
      "k_id c \<notin> k_id ` set b \<longrightarrow> k_embedded c"
    using c' by (auto simp: st(2) mark_embedded_def split: if_splits)
  show "present s' (k_id c') (k_paper c')"
  proof (cases "k_id c \<in> k_id ` set b")
    case True
    then have "(k_id c, p_id p) \<in> set (chunk_keys (i_db s))" using mem by auto
    moreover have "(k_id c, k_paper c) \<in> set (chunk_keys (i_db s))" using c(1) by (simp add: chunk_keys_def)
    ultimately have "k_paper c = p_id p" using keys by (meson eq_key_imp_eq_value)
    then show ?thesis using st(3) [OF True] c by simp
  next
    case False
    then show ?thesis using st(4) [OF False, of "k_paper c"] c sync by (simp add: in_sync_def)
  qed
qed

definition emb_ids :: "database \<Rightarrow> uuid set" where
  "emb_ids db = k_id ` set (filter k_embedded (db_chunks db))"

lemma emb_ids_mark:
  "emb_ids (mark_embedded ids db) = emb_ids db \<union> (set ids \<inter> fst ` set (chunk_keys db))"
proof -
  have "k_id ` set (filter k_embedded (map (\<lambda>c. if k_id c \<in> set ids then c\<lparr>k_embedded := True\<rparr> else c) cs))
      = k_id ` set (filter k_embedded cs) \<union> (set ids \<inter> k_id ` set cs)" for cs
    by (induction cs) auto
  then show ?thesis by (simp add: emb_ids_def mark_embedded_def chunk_keys_def image_image)
qed

lemma index_batches_sync:
  "index_batches embedder p bs n s = (r, s') \<Longrightarrow> in_sync s \<Longrightarrow> distinct (map fst (chunk_keys (i_db s))) \<Longrightarrow>
   \<forall>b \<in> set bs. \<forall>c \<in> set b. (k_id c, p_id p) \<in> set (chunk_keys (i_db s)) \<Longrightarrow>
   in_sync s' \<and> chunk_keys (i_db s') = chunk_keys (i_db s) \<and> emb_ids (i_db s) \<subseteq> emb_ids (i_db s')
   \<and> (\<forall>m. r = Inr m \<longrightarrow> m = n + length (concat bs) \<and> k_id ` set (concat bs) \<subseteq> emb_ids (i_db s'))"
proof (induction bs arbitrary: n s)
  case (Cons b bs)
  show ?case
  proof (cases "fst (index_batch embedder p b s)")
    case (Inl e)
    then have "snd (index_batch embedder p b s) = s" by (auto simp: index_batch_def split: sum.splits if_splits)
    then have "index_batch embedder p b s = (Inl e, s)" using Inl by (metis prod.collapse)
    then show ?thesis using Cons.prems by auto
  next
    case (Inr u)
    then obtain s1 where s1: "index_batch embedder p b s = (Inr (), s1)"
      by (cases "index_batch embedder p b s") auto
    note st = index_batch_present [OF s1]
    have sync: "in_sync s1" by (rule in_sync_step [OF s1]) (use Cons.prems in auto)
    have rec: "index_batches embedder p bs (n + length b) s1 = (r, s')" using Cons.prems(1) s1 by simp
    have "fst ` set (map (\<lambda>c. (k_id c, p_id p)) b) \<subseteq> fst ` set (chunk_keys (i_db s))"
      using Cons.prems(4) by (intro image_mono) auto
    then have "k_id ` set b \<subseteq> fst ` set (chunk_keys (i_db s))" by (simp add: image_image)
    then have emb: "emb_ids (i_db s) \<subseteq> emb_ids (i_db s1)" "k_id ` set b \<subseteq> emb_ids (i_db s1)"
      unfolding st(2) emb_ids_mark by auto
    have "in_sync s' \<and> chunk_keys (i_db s') = chunk_keys (i_db s1) \<and> emb_ids (i_db s1) \<subseteq> emb_ids (i_db s')
      \<and> (\<forall>m. r = Inr m \<longrightarrow> m = n + length b + length (concat bs) \<and> k_id ` set (concat bs) \<subseteq> emb_ids (i_db s'))"
      by (rule Cons.IH [OF rec sync]) (use Cons.prems st(1) in simp_all)
    moreover have "k_id ` set (concat (b # bs)) = k_id ` set b \<union> k_id ` set (concat bs)"
      by (simp add: image_Un)
    moreover have "length (concat (b # bs)) = length b + length (concat bs)" by simp
    ultimately show ?thesis using emb st(1) by (auto simp del: set_concat concat.simps)
  qed
qed auto

lemma set_slices: "concat (slices n xs) = xs"
  by (induction n xs rule: slices.induct) (simp_all del: take_Suc_Cons drop_Suc_Cons)

lemma in_slices: "b \<in> set (slices n xs) \<Longrightarrow> c \<in> set b \<Longrightarrow> c \<in> set xs"
proof -
  assume "b \<in> set (slices n xs)" "c \<in> set b"
  then have "c \<in> set (concat (slices n xs))" by auto
  then show ?thesis by (simp only: set_slices)
qed

lemma index_paper_synced:
  assumes "db_ok (i_db s)" "in_sync s" "0 < n" "get_paper_row (i_db s) pid = Some p"
  shows "in_sync (snd (index_paper embedder pid n False s))
     \<and> (\<forall>m. fst (index_paper embedder pid n False s) = Inr m \<longrightarrow>
          m = length (filter (\<lambda>c. k_paper c = pid \<and> \<not> k_embedded c) (db_chunks (i_db s)))
          \<and> (\<forall>c \<in> set (db_chunks (i_db (snd (index_paper embedder pid n False s)))).
                k_paper c = pid \<longrightarrow> k_embedded c \<and> present (snd (index_paper embedder pid n False s)) (k_id c) pid))"
proof -
  let ?todo = "order_by k_index (filter (\<lambda>c. k_paper c = pid \<and> \<not> k_embedded c) (db_chunks (i_db s)))"
  obtain r s' where run: "index_paper embedder pid n False s = (r, s')" by (cases "index_paper embedder pid n False s")
  have pid: "p_id p = pid" using get_paper_row_Some [OF assms(4)] by simp
  have keys: "distinct (map fst (chunk_keys (i_db s)))"
    using assms(1) by (simp add: db_ok_def chunk_keys_def comp_def)
  have mem: "\<forall>c \<in> set ?todo. (k_id c, p_id p) \<in> set (chunk_keys (i_db s))"
    using pid by (auto simp: chunk_keys_def)
  have len: "length ?todo = length (filter (\<lambda>c. k_paper c = pid \<and> \<not> k_embedded c) (db_chunks (i_db s)))"
    by (simp add: order_by_def)
  have main: "in_sync s' \<and> chunk_keys (i_db s') = chunk_keys (i_db s) \<and> emb_ids (i_db s) \<subseteq> emb_ids (i_db s')
      \<and> (\<forall>m. r = Inr m \<longrightarrow> m = length ?todo \<and> k_id ` set ?todo \<subseteq> emb_ids (i_db s'))"
  proof (cases "?todo = []")
    case True
    then have "(r, s') = (Inr 0, s)" using run assms(4) by (simp add: index_paper_def Let_def)
    then show ?thesis using True assms(2) by auto
  next
    case False
    let ?bs = "slices (nat n) ?todo"
    have ib: "index_batches embedder p ?bs 0 s = (r, s')"
      using run assms(3,4) False by (simp add: index_paper_def Let_def batched_def)
    have mb: "\<forall>b \<in> set ?bs. \<forall>c \<in> set b. (k_id c, p_id p) \<in> set (chunk_keys (i_db s))"
    proof (intro ballI)
      fix b c assume "b \<in> set ?bs" "c \<in> set b"
      then have "c \<in> set ?todo" by (rule in_slices)
      with mem show "(k_id c, p_id p) \<in> set (chunk_keys (i_db s))" by (rule bspec)
    qed
    show ?thesis
      by (rule index_batches_sync [OF ib assms(2) keys mb, unfolded set_slices add_0])
  qed
  have complete: "k_embedded c \<and> present s' (k_id c) pid"
    if r: "r = Inr m" and c: "c \<in> set (db_chunks (i_db s'))" "k_paper c = pid" for m c
  proof -
    have "(k_id c, pid) \<in> set (chunk_keys (i_db s'))" using c by (auto simp: chunk_keys_def)
    then have "(k_id c, pid) \<in> set (chunk_keys (i_db s))" using main by simp
    then obtain c0 where c0: "c0 \<in> set (db_chunks (i_db s))" "k_id c0 = k_id c" "k_paper c0 = pid"
      by (auto simp: chunk_keys_def)
    have "k_id c0 \<in> emb_ids (i_db s')"
    proof (cases "k_embedded c0")
      case True
      then show ?thesis using main c0(1) by (auto simp: emb_ids_def)
    next
      case False
      then have "c0 \<in> set ?todo" using c0 by simp
      then show ?thesis using main r by blast
    qed
    then obtain c1 where c1: "c1 \<in> set (db_chunks (i_db s'))" "k_id c1 = k_id c" "k_embedded c1"
      using c0(2) by (auto simp: emb_ids_def)
    have "distinct (map fst (chunk_keys (i_db s')))" using keys main by simp
    then have "distinct (map k_id (db_chunks (i_db s')))" by (simp add: chunk_keys_def comp_def)
    then have "c1 = c" using c1(1,2) c(1) by (meson inj_onD distinct_map)
    then show ?thesis using c1(3) main c by (auto simp: in_sync_def)
  qed
  show ?thesis unfolding run fst_conv snd_conv using main complete len by blast
qed

lemma index_batches_tables:
  "db_papers (i_db (snd (index_batches e p bs n s))) = db_papers (i_db s) \<and> db_workspaces (i_db (snd (index_batches e p bs n s))) = db_workspaces (i_db s)"
proof (induction e p bs n s rule: index_batches.induct)
  case (2 embedder p b bs n s)
  obtain r t where b: "index_batch embedder p b s = (r, t)" by fastforce
  then have "db_papers (i_db t) = db_papers (i_db s) \<and> db_workspaces (i_db t) = db_workspaces (i_db s)"
    by (auto simp: index_batch_def mark_embedded_def split: sum.splits if_splits)
  then show ?case using "2.IH" [OF b [symmetric]] b by (cases r) auto
qed simp

lemma index_paper_tables:
  "db_papers (i_db (snd (index_paper e pid n reindex s))) = db_papers (i_db s)
   \<and> db_workspaces (i_db (snd (index_paper e pid n reindex s))) = db_workspaces (i_db s)"
  using index_batches_tables by (auto simp: index_paper_def Let_def split: option.split sum.split)

text \<open>Whatever the batch size, and also for a paper that is gone.\<close>

lemma index_paper_keeps_sync:
  assumes "db_ok (i_db s)" "in_sync s"
  shows "in_sync (snd (index_paper embedder pid n False s)) \<and> chunk_keys (i_db (snd (index_paper embedder pid n False s))) = chunk_keys (i_db s)"
proof -
  let ?todo = "order_by k_index (filter (\<lambda>c. k_paper c = pid \<and> \<not> k_embedded c) (db_chunks (i_db s)))"
  show ?thesis
  proof (cases "get_paper_row (i_db s) pid = None \<or> ?todo = [] \<or> (\<exists>e. batched ?todo n = Inl e)")
    case True
    then have "snd (index_paper embedder pid n False s) = s" by (auto simp: index_paper_def Let_def split: option.splits)
    then show ?thesis using assms by simp
  next
    case False
    then obtain p bs where p: "get_paper_row (i_db s) pid = Some p" "?todo \<noteq> []" "batched ?todo n = Inr bs" by (cases "batched ?todo n") auto
    obtain r s' where ib: "index_batches embedder p bs 0 s = (r, s')" by fastforce
    have keys: "distinct (map fst (chunk_keys (i_db s)))" using assms(1) by (simp add: db_ok_def chunk_keys_def comp_def)
    have "\<forall>b \<in> set bs. \<forall>c \<in> set b. (k_id c, p_id p) \<in> set (chunk_keys (i_db s))"
    proof (intro ballI)
      fix b c assume "b \<in> set bs" "c \<in> set b"
      then have "c \<in> set ?todo" using p(3) in_slices by (fastforce simp: batched_def split: if_splits)
      then show "(k_id c, p_id p) \<in> set (chunk_keys (i_db s))" using get_paper_row_Some [OF p(1)] by (auto simp: chunk_keys_def)
    qed
    from index_batches_sync [OF ib assms(2) keys this] show ?thesis using p ib by (simp add: index_paper_def Let_def)
  qed
qed

text \<open>Indexing without \<open>reindex\<close> keeps the chunk table and both indexes in sync, also when the
  embedding provider fails half-way: every chunk marked as embedded is in the vector store
  and in the BM25 index.  When it succeeds it counts the chunks that were not embedded yet,
  and all the paper's chunks are embedded.\<close>

theorem index_paper_in_sync:
  assumes "db_ok (i_db s)" "in_sync s" "0 < n" "get_paper_row (i_db s) pid = Some p"
  shows "in_sync (snd (index_paper embedder pid n False s))
     \<and> (\<forall>m. fst (index_paper embedder pid n False s) = Inr m \<longrightarrow>
          m = length (filter (\<lambda>c. k_paper c = pid \<and> \<not> k_embedded c) (db_chunks (i_db s)))
          \<and> (\<forall>c \<in> set (db_chunks (i_db (snd (index_paper embedder pid n False s)))).
                k_paper c = pid \<longrightarrow> k_embedded c \<and> present (snd (index_paper embedder pid n False s)) (k_id c) pid))"
  by (rule index_paper_synced [OF assms])

subsection \<open>A failed reindex\<close>

definition one_paper :: paper_row where
  "one_paper = \<lparr>p_id = 7, p_workspace = 3, p_uploader = 0, p_title = None, p_status = READY, p_filename = [],
     p_checksum = [], p_size = 1, p_storage_key = [], p_page_count = None, p_abstract = None, p_authors = None,
     p_error = None, p_ocr_pages = 0, p_year = None, p_venue = None\<rparr>"

definition one_chunk :: "bool \<Rightarrow> chunk_row" where
  "one_chunk e = \<lparr>k_id = 1, k_paper = 7, k_index = 0, k_content = ''Deep nets'', k_section = None, k_page = None,
     k_kind = ''text'', k_tokens = 2, k_embedded = e\<rparr>"

definition one_db :: "bool \<Rightarrow> database" where
  "one_db e = \<lparr>db_workspaces = [], db_papers = [one_paper], db_chunks = [one_chunk e]\<rparr>"

definition fresh_index :: index_state where
  "fresh_index = \<lparr>i_store = open_mem_store False Absent, i_bm = empty_bm25, i_db = one_db False\<rparr>"

definition indexed :: index_state where
  "indexed = snd (index_paper (\<lambda>texts. Inr (map (\<lambda>_. [1]) texts)) 7 64 False fresh_index)"

definition failed_reindex :: "nat res \<times> index_state" where
  "failed_reindex = index_paper (\<lambda>texts. Inl (RuntimeErr ''embedding outage'')) 7 64 True indexed"

lemma indexed_eq:
  "i_db indexed = one_db True \<and> dkeys (m_records (i_store indexed)) = [1] \<and> dkeys (b_docs (i_bm indexed)) = [1]
   \<and> records_ok (m_records (i_store indexed)) \<and> bm_ok (i_bm indexed)
   \<and> map vr_paper (dvalues (m_records (i_store indexed))) = [7] \<and> map d_paper (dvalues (b_docs (i_bm indexed))) = [7]"
proof -
  have reach: "index_reachable indexed"
    unfolding indexed_def fresh_index_def by (intro index_reachable.intros)
  show ?thesis using index_reachable_ok [OF reach]
    by (simp add: index_ok_def)
      (simp add: indexed_def index_paper_def fresh_index_def one_db_def get_paper_row_def one_paper_def one_chunk_def
        order_by_def batched_def index_batch_def open_mem_store_def mark_embedded_def put_records_def
        chunk_record_def add_chunk_def bm_add_def tokenize_sample empty_bm25_def remove_unlocked_def Let_def)
qed

text \<open>A reindex that the embedding provider interrupts loses chunks: the paper's old entries
  are deleted first and the chunks stay marked as embedded, so they are in neither index,
  and the retry of the task without \<open>reindex\<close> finds nothing to do.\<close>

theorem failed_reindex_loses_chunks:
  "fst failed_reindex = Inl (RuntimeErr ''embedding outage'')
   \<and> list_all k_embedded (db_chunks (i_db (snd failed_reindex)))
   \<and> m_records (i_store (snd failed_reindex)) = [] \<and> b_docs (i_bm (snd failed_reindex)) = []
   \<and> index_paper embedder 7 64 False (snd failed_reindex) = (Inr 0, snd failed_reindex)"
proof -
  have db: "i_db indexed = one_db True" and r: "records_ok (m_records (i_store indexed))" and b: "bm_ok (i_bm indexed)"
    using indexed_eq by simp_all
  obtain rec where rec: "m_records (i_store indexed) = [(1, rec)]" "vr_paper rec = 7" using indexed_eq by auto
  obtain doc where doc: "b_docs (i_bm indexed) = [(1, doc)]" "d_paper doc = 7" using indexed_eq by auto
  have e: "failed_reindex = (Inl (RuntimeErr ''embedding outage''),
      indexed\<lparr>i_store := snd (mem_delete_by_paper 7 (i_store indexed)), i_bm := snd (bm_remove_paper 7 (i_bm indexed))\<rparr>)"
    by (simp add: failed_reindex_def index_paper_def db one_db_def get_paper_row_def one_paper_def one_chunk_def
        order_by_def batched_def index_batch_def Let_def)
  have "m_records (snd (mem_delete_by_paper 7 (i_store indexed))) = []"
    using records_mem_delete [OF r, of 7] rec by simp
  moreover have "b_docs (snd (bm_remove_paper 7 (i_bm indexed))) = []"
    using remove_paper_docs [OF b, of 7] doc by simp
  moreover have "index_paper embedder 7 64 False (snd failed_reindex) = (Inr 0, snd failed_reindex)"
    unfolding e by (simp add: index_paper_def db one_db_def get_paper_row_def one_paper_def one_chunk_def order_by_def)
  ultimately show ?thesis unfolding e by (simp add: db one_db_def one_chunk_def)
qed

lemma index_paper_in_sync_witness:
  "in_sync (snd (index_paper (\<lambda>texts. Inr (map (\<lambda>_. [1]) texts)) 7 64 False fresh_index))"
  using index_paper_in_sync [of fresh_index 64 7 one_paper "\<lambda>texts. Inr (map (\<lambda>_. [1]) texts)"]
  by (simp add: fresh_index_def one_db_def db_ok_def one_chunk_def in_sync_def get_paper_row_def one_paper_def)

end
