(* ===== verification/Fusion.thy ===== *)
theory Fusion
  imports SparseIndex "HOL-Library.Product_Lexorder"
begin

section \<open>Reciprocal rank fusion (retrieval/fusion.py)\<close>

text \<open>
  \<open>reciprocal_rank_fusion\<close> merges a dense and a sparse ranking into a dictionary of
  \<open>FusedHit\<close> objects and sorts its values.  The dictionary \<open>fused\<close> is threaded through the
  two calls of the local function \<open>merge\<close>, the division \<open>weight / (k + rank)\<close> may raise.
\<close>

record fused_hit =
  fh_chunk :: uuid
  fh_paper :: uuid
  fh_score :: real
  fh_dense_rank :: "int option"
  fh_sparse_rank :: "int option"
  fh_dense_score :: "real option"
  fh_sparse_score :: "real option"
  fh_meta :: metadata

definition RRF_K :: int where "RRF_K = 60"

definition found_by_both :: "fused_hit \<Rightarrow> bool" where
  "found_by_both h \<longleftrightarrow> fh_dense_rank h \<noteq> None \<and> fh_sparse_rank h \<noteq> None"

definition new_fused :: "search_hit \<Rightarrow> fused_hit" where
  "new_fused h = \<lparr>fh_chunk = h_chunk h, fh_paper = h_paper h, fh_score = 0, fh_dense_rank = None,
     fh_sparse_rank = None, fh_dense_score = None, fh_sparse_score = None, fh_meta = h_meta h\<rparr>"

text \<open>The body of the loop of \<open>merge\<close> for one hit at a rank.\<close>

definition merge_hit ::
    "int \<Rightarrow> real \<Rightarrow> bool \<Rightarrow> int \<Rightarrow> search_hit \<Rightarrow> (uuid, fused_hit) dict \<Rightarrow> (uuid, fused_hit) dict res" where
  "merge_hit k weight is_dense rank h fused =
     bind_res (py_div weight (real_of_int (k + rank))) (\<lambda>contribution.
       let entry = (case dget fused (h_chunk h) of
             None \<Rightarrow> new_fused h
           | Some e \<Rightarrow> e\<lparr>fh_meta := dict_update (h_meta h) (fh_meta e)\<rparr>);
           entry = entry\<lparr>fh_score := fh_score entry + contribution\<rparr>;
           entry = (if is_dense then entry\<lparr>fh_dense_rank := Some rank, fh_dense_score := Some (h_score h)\<rparr>
                    else entry\<lparr>fh_sparse_rank := Some rank, fh_sparse_score := Some (h_score h)\<rparr>)
       in Inr (dset (h_chunk h) entry fused))"

fun merge_hits ::
    "int \<Rightarrow> real \<Rightarrow> bool \<Rightarrow> int \<Rightarrow> search_hit list \<Rightarrow> (uuid, fused_hit) dict \<Rightarrow> (uuid, fused_hit) dict res" where
  "merge_hits k weight is_dense rank [] fused = Inr fused"
| "merge_hits k weight is_dense rank (h # hs) fused =
     bind_res (merge_hit k weight is_dense rank h fused) (merge_hits k weight is_dense (rank + 1) hs)"

definition reciprocal_rank_fusion ::
    "search_hit list \<Rightarrow> search_hit list \<Rightarrow> int \<Rightarrow> int \<Rightarrow> real \<Rightarrow> real \<Rightarrow> fused_hit list res" where
  "reciprocal_rank_fusion dense sparse limit k dense_weight sparse_weight =
     bind_res (merge_hits k dense_weight True 1 dense []) (\<lambda>fused.
     bind_res (merge_hits k sparse_weight False 1 sparse fused) (\<lambda>fused.
     Inr (py_take limit (sort_desc (\<lambda>h. (fh_score h, found_by_both h)) (dvalues fused)))))"

subsection \<open>What the fused dictionary holds\<close>

text \<open>
  The specification of a merge: each occurrence of a chunk in a ranking contributes
  \<open>weight / (k + rank)\<close>, ranks counting from one.
\<close>

fun contributions :: "int \<Rightarrow> real \<Rightarrow> int \<Rightarrow> search_hit list \<Rightarrow> uuid \<Rightarrow> real" where
  "contributions k w rank [] c = 0"
| "contributions k w rank (h # hs) c =
     (if h_chunk h = c then w / real_of_int (k + rank) else 0) + contributions k w (rank + 1) hs c"

definition fscore :: "(uuid, fused_hit) dict \<Rightarrow> uuid \<Rightarrow> real" where
  "fscore d c = (case dget d c of None \<Rightarrow> 0 | Some e \<Rightarrow> fh_score e)"

definition fused_ok :: "(uuid, fused_hit) dict \<Rightarrow> bool" where
  "fused_ok d \<longleftrightarrow> dict_ok d \<and> (\<forall>c e. dget d c = Some e \<longrightarrow> fh_chunk e = c)"

definition in_dense :: "(uuid, fused_hit) dict \<Rightarrow> uuid \<Rightarrow> bool" where
  "in_dense d c \<longleftrightarrow> (\<exists>e. dget d c = Some e \<and> fh_dense_rank e \<noteq> None)"

definition in_sparse :: "(uuid, fused_hit) dict \<Rightarrow> uuid \<Rightarrow> bool" where
  "in_sparse d c \<longleftrightarrow> (\<exists>e. dget d c = Some e \<and> fh_sparse_rank e \<noteq> None)"

lemma merge_hit_ok:
  assumes "fused_ok d" "k + rank \<noteq> 0"
  shows "\<exists>d'. merge_hit k w dn rank h d = Inr d' \<and> fused_ok d'
     \<and> fst ` set d' = insert (h_chunk h) (fst ` set d)
     \<and> (\<forall>c. fscore d' c = fscore d c + (if h_chunk h = c then w / real_of_int (k + rank) else 0))
     \<and> (\<forall>c. in_dense d' c \<longleftrightarrow> in_dense d c \<or> dn \<and> c = h_chunk h)
     \<and> (\<forall>c. in_sparse d' c \<longleftrightarrow> in_sparse d c \<or> \<not> dn \<and> c = h_chunk h)"
proof -
  define e where "e = (case dget d (h_chunk h) of None \<Rightarrow> new_fused h
     | Some e \<Rightarrow> e\<lparr>fh_meta := dict_update (h_meta h) (fh_meta e)\<rparr>)"
  define e2 where "e2 = e\<lparr>fh_score := fh_score e + w / real_of_int (k + rank)\<rparr>"
  define e3 where "e3 = (if dn then e2\<lparr>fh_dense_rank := Some rank, fh_dense_score := Some (h_score h)\<rparr>
     else e2\<lparr>fh_sparse_rank := Some rank, fh_sparse_score := Some (h_score h)\<rparr>)"
  have "real_of_int (k + rank) \<noteq> 0" using assms(2) by linarith
  then have m: "merge_hit k w dn rank h d = Inr (dset (h_chunk h) e3 d)"
    by (simp add: merge_hit_def Let_def e_def e2_def e3_def del: of_int_add)
  have c: "fh_chunk e3 = h_chunk h"
    using assms(1) by (auto simp: e3_def e2_def e_def new_fused_def fused_ok_def split: option.splits)
  have s: "fh_score e3 = fscore d (h_chunk h) + w / real_of_int (k + rank)"
    by (auto simp: e3_def e2_def e_def new_fused_def fscore_def split: option.splits)
  have dr: "fh_dense_rank e3 \<noteq> None \<longleftrightarrow> in_dense d (h_chunk h) \<or> dn"
    by (auto simp: e3_def e2_def e_def new_fused_def in_dense_def split: option.splits)
  have sr: "fh_sparse_rank e3 \<noteq> None \<longleftrightarrow> in_sparse d (h_chunk h) \<or> \<not> dn"
    by (auto simp: e3_def e2_def e_def new_fused_def in_sparse_def split: option.splits)
  let ?d = "dset (h_chunk h) e3 d"
  have "fused_ok ?d" using assms(1) c by (simp add: fused_ok_def)
  moreover have "fst ` set ?d = insert (h_chunk h) (fst ` set d)"
    using dkeys_dset [of "h_chunk h" e3 d] by simp
  moreover have "fscore ?d c = fscore d c + (if h_chunk h = c then w / real_of_int (k + rank) else 0)" for c
    using s by (simp add: fscore_def)
  moreover have "in_dense ?d c \<longleftrightarrow> in_dense d c \<or> dn \<and> c = h_chunk h" for c
    using dr by (auto simp: in_dense_def)
  moreover have "in_sparse ?d c \<longleftrightarrow> in_sparse d c \<or> \<not> dn \<and> c = h_chunk h" for c
    using sr by (auto simp: in_sparse_def)
  ultimately show ?thesis using m by blast
qed

lemma merge_hits_ok:
  "fused_ok d \<Longrightarrow> 0 < k + rank \<Longrightarrow>
   \<exists>d'. merge_hits k w dn rank hs d = Inr d' \<and> fused_ok d'
     \<and> fst ` set d' = h_chunk ` set hs \<union> fst ` set d
     \<and> (\<forall>c. fscore d' c = fscore d c + contributions k w rank hs c)
     \<and> (\<forall>c. in_dense d' c \<longleftrightarrow> in_dense d c \<or> dn \<and> c \<in> h_chunk ` set hs)
     \<and> (\<forall>c. in_sparse d' c \<longleftrightarrow> in_sparse d c \<or> \<not> dn \<and> c \<in> h_chunk ` set hs)"
proof (induction hs arbitrary: d rank)
  case (Cons h hs)
  obtain d1 where d1: "merge_hit k w dn rank h d = Inr d1" "fused_ok d1"
     "fst ` set d1 = insert (h_chunk h) (fst ` set d)"
     "\<forall>c. fscore d1 c = fscore d c + (if h_chunk h = c then w / real_of_int (k + rank) else 0)"
     "\<forall>c. in_dense d1 c \<longleftrightarrow> in_dense d c \<or> dn \<and> c = h_chunk h"
     "\<forall>c. in_sparse d1 c \<longleftrightarrow> in_sparse d c \<or> \<not> dn \<and> c = h_chunk h"
    using merge_hit_ok [OF Cons.prems(1), of k rank w dn h] Cons.prems(2) by auto
  have "0 < k + (rank + 1)" using Cons.prems(2) by simp
  from Cons.IH [OF d1(2) this] obtain d2 where d2: "merge_hits k w dn (rank + 1) hs d1 = Inr d2" "fused_ok d2"
     "fst ` set d2 = h_chunk ` set hs \<union> fst ` set d1"
     "\<forall>c. fscore d2 c = fscore d1 c + contributions k w (rank + 1) hs c"
     "\<forall>c. in_dense d2 c \<longleftrightarrow> in_dense d1 c \<or> dn \<and> c \<in> h_chunk ` set hs"
     "\<forall>c. in_sparse d2 c \<longleftrightarrow> in_sparse d1 c \<or> \<not> dn \<and> c \<in> h_chunk ` set hs"
    by (elim exE conjE) (rule that)
  have "merge_hits k w dn rank (h # hs) d = Inr d2" using d1(1) d2(1) by simp
  moreover have "fst ` set d2 = h_chunk ` set (h # hs) \<union> fst ` set d"
    unfolding d2(3) d1(3) by (simp add: Un_commute insert_commute)
  moreover have "fscore d2 c = fscore d c + contributions k w rank (h # hs) c" for c
    using d2(4) d1(4) by simp
  moreover have "in_dense d2 c \<longleftrightarrow> in_dense d c \<or> dn \<and> c \<in> h_chunk ` set (h # hs)" for c
    using d2(5) d1(5) by auto
  moreover have "in_sparse d2 c \<longleftrightarrow> in_sparse d c \<or> \<not> dn \<and> c \<in> h_chunk ` set (h # hs)" for c
    using d2(6) d1(6) by auto
  ultimately show ?case using d2(2) by blast
qed simp

text \<open>A fused entry's paper is the paper of one of the hits of its chunk.\<close>

definition from_hits :: "search_hit set \<Rightarrow> (uuid, fused_hit) dict \<Rightarrow> bool" where
  "from_hits G d \<longleftrightarrow> (\<forall>c e. dget d c = Some e \<longrightarrow> (\<exists>g \<in> G. h_chunk g = c \<and> h_paper g = fh_paper e))"

lemma merge_hit_shape:
  assumes "merge_hit k w dn rank h d = Inr d'"
  obtains e where "d' = dset (h_chunk h) e d"
    "fh_paper e = (case dget d (h_chunk h) of None \<Rightarrow> h_paper h | Some e0 \<Rightarrow> fh_paper e0)"
proof -
  obtain x where "py_div w (real_of_int (k + rank)) = Inr x"
    using assms by (auto simp: merge_hit_def bind_res_Inr_conv)
  define e0 where "e0 = (case dget d (h_chunk h) of None \<Rightarrow> new_fused h
     | Some e \<Rightarrow> e\<lparr>fh_meta := dict_update (h_meta h) (fh_meta e)\<rparr>)"
  define e1 where "e1 = e0\<lparr>fh_score := fh_score e0 + x\<rparr>"
  define e where "e = (if dn then e1\<lparr>fh_dense_rank := Some rank, fh_dense_score := Some (h_score h)\<rparr>
     else e1\<lparr>fh_sparse_rank := Some rank, fh_sparse_score := Some (h_score h)\<rparr>)"
  have "merge_hit k w dn rank h d = Inr (dset (h_chunk h) e d)"
    using \<open>py_div w (real_of_int (k + rank)) = Inr x\<close>
    by (simp add: merge_hit_def Let_def e_def e1_def e0_def del: of_int_add)
  then have "d' = dset (h_chunk h) e d" using assms by simp
  moreover have "fh_paper e = fh_paper e0" by (simp add: e_def e1_def)
  moreover have "fh_paper e0 = (case dget d (h_chunk h) of None \<Rightarrow> h_paper h | Some e0 \<Rightarrow> fh_paper e0)"
    by (simp add: e0_def new_fused_def split: option.splits)
  ultimately show thesis using that by simp
qed

lemma merge_hit_from:
  assumes "merge_hit k w dn rank h d = Inr d'" "from_hits G d" "h \<in> G"
  shows "from_hits G d'"
proof -
  obtain e where e: "d' = dset (h_chunk h) e d"
    "fh_paper e = (case dget d (h_chunk h) of None \<Rightarrow> h_paper h | Some e0 \<Rightarrow> fh_paper e0)"
    by (rule merge_hit_shape [OF assms(1)])
  show ?thesis
    using assms(2,3) unfolding from_hits_def e(1) by (auto simp: e(2) split: option.splits if_splits)
qed

lemma merge_hits_from:
  "merge_hits k w dn rank hs d = Inr d' \<Longrightarrow> from_hits G d \<Longrightarrow> set hs \<subseteq> G \<Longrightarrow> from_hits G d'"
proof (induction hs arbitrary: d rank)
  case (Cons h hs)
  then obtain d1 where d1: "merge_hit k w dn rank h d = Inr d1" "merge_hits k w dn (rank + 1) hs d1 = Inr d'"
    by (auto simp: bind_res_Inr_conv)
  have "from_hits G d1" by (rule merge_hit_from [OF d1(1)]) (use Cons.prems in simp_all)
  then show ?case using Cons.IH [OF d1(2)] Cons.prems(3) by simp
qed simp

lemma fusion_from_hits:
  assumes "reciprocal_rank_fusion dense sparse limit k wd ws = Inr hits" "0 \<le> k" "h \<in> set hits"
  shows "\<exists>g \<in> set dense \<union> set sparse. h_chunk g = fh_chunk h \<and> h_paper g = fh_paper h"
proof -
  let ?G = "set dense \<union> set sparse"
  obtain d1 d2 where d: "merge_hits k wd True 1 dense [] = Inr d1" "merge_hits k ws False 1 sparse d1 = Inr d2"
    and hits: "hits = py_take limit (sort_desc (\<lambda>h. (fh_score h, found_by_both h)) (dvalues d2))"
    using assms(1) by (auto simp: reciprocal_rank_fusion_def bind_res_Inr_conv)
  have "from_hits ?G d1" by (rule merge_hits_from [OF d(1)]) (simp_all add: from_hits_def)
  then have from2: "from_hits ?G d2" using merge_hits_from [OF d(2)] by blast
  have nil: "fused_ok []" by (simp add: fused_ok_def)
  obtain d1' where "merge_hits k wd True 1 dense [] = Inr d1'" "fused_ok d1'"
    using merge_hits_ok [OF nil, of k 1 wd True dense] assms(2) by auto
  then have "fused_ok d1" using d(1) by simp
  then obtain d2' where "merge_hits k ws False 1 sparse d1 = Inr d2'" "fused_ok d2'"
    using merge_hits_ok [of d1 k 1 ws False sparse] assms(2) by auto
  then have ok: "fused_ok d2" using d(2) by simp
  have "h \<in> set (dvalues d2)" using in_set_py_takeD assms(3) hits by fastforce
  then obtain c where "(c, h) \<in> set d2" by auto
  then have "dget d2 c = Some h" "fh_chunk h = c" using ok dict_ok_mem [of d2 c h] by (simp_all add: fused_ok_def)
  then show ?thesis using from2 unfolding from_hits_def by blast
qed

subsection \<open>Properties of the fused ranking\<close>

lemma fusion_dict:
  assumes "0 \<le> k"
  shows "\<exists>d. reciprocal_rank_fusion dense sparse limit k wd ws =
      Inr (py_take limit (sort_desc (\<lambda>h. (fh_score h, found_by_both h)) (dvalues d)))
     \<and> fused_ok d \<and> fst ` set d = h_chunk ` set dense \<union> h_chunk ` set sparse
     \<and> (\<forall>c. fscore d c = contributions k wd 1 dense c + contributions k ws 1 sparse c)
     \<and> (\<forall>c. in_dense d c \<longleftrightarrow> c \<in> h_chunk ` set dense)
     \<and> (\<forall>c. in_sparse d c \<longleftrightarrow> c \<in> h_chunk ` set sparse)"
proof -
  have nil: "fused_ok []" "fscore [] c = 0" "\<not> in_dense [] c" "\<not> in_sparse [] c" for c
    by (simp_all add: fused_ok_def fscore_def in_dense_def in_sparse_def)
  obtain d1 where d1: "merge_hits k wd True 1 dense [] = Inr d1" "fused_ok d1"
     "fst ` set d1 = h_chunk ` set dense"
     "\<forall>c. fscore d1 c = contributions k wd 1 dense c"
     "\<forall>c. in_dense d1 c \<longleftrightarrow> c \<in> h_chunk ` set dense" "\<forall>c. \<not> in_sparse d1 c"
    using merge_hits_ok [OF nil(1), of k 1 wd True dense] assms nil(2-4) by auto
  obtain d2 where d2: "merge_hits k ws False 1 sparse d1 = Inr d2" "fused_ok d2"
     "fst ` set d2 = h_chunk ` set sparse \<union> fst ` set d1"
     "\<forall>c. fscore d2 c = fscore d1 c + contributions k ws 1 sparse c"
     "\<forall>c. in_dense d2 c \<longleftrightarrow> in_dense d1 c" "\<forall>c. in_sparse d2 c \<longleftrightarrow> in_sparse d1 c \<or> c \<in> h_chunk ` set sparse"
    using merge_hits_ok [OF d1(2), of k 1 ws False sparse] assms by auto
  have "fst ` set d2 = h_chunk ` set dense \<union> h_chunk ` set sparse" using d1(3) d2(3) by auto
  then show ?thesis using d1 d2 by (intro exI [of _ d2]) (simp add: reciprocal_rank_fusion_def)
qed

text \<open>Fusion for a non-negative constant \<open>k\<close> never raises, and answers the chunks of the
  two rankings, none twice, best score first; each one's score is the sum of
  \<open>weight / (k + rank)\<close> over its ranks in the two lists, it counts as found by both exactly
  when both lists hold it, and a chunk is left out only for the limit and never below a
  worse one.\<close>

theorem fusion_correct:
  assumes "0 \<le> k" "0 \<le> limit"
  shows "\<exists>hits. reciprocal_rank_fusion dense sparse limit k wd ws = Inr hits
     \<and> distinct (map fh_chunk hits)
     \<and> length hits = min (nat limit) (card (h_chunk ` set dense \<union> h_chunk ` set sparse))
     \<and> sorted_wrt (\<lambda>g h. fh_score h \<le> fh_score g) hits
     \<and> (\<forall>h \<in> set hits. fh_chunk h \<in> h_chunk ` set dense \<union> h_chunk ` set sparse
          \<and> fh_score h = contributions k wd 1 dense (fh_chunk h) + contributions k ws 1 sparse (fh_chunk h)
          \<and> (found_by_both h \<longleftrightarrow> fh_chunk h \<in> h_chunk ` set dense \<inter> h_chunk ` set sparse))
     \<and> (\<forall>c \<in> h_chunk ` set dense \<union> h_chunk ` set sparse. c \<in> fh_chunk ` set hits \<or>
          (\<forall>h \<in> set hits. contributions k wd 1 dense c + contributions k ws 1 sparse c \<le> fh_score h))"
proof -
  let ?key = "\<lambda>h. (fh_score h, found_by_both h)"
  obtain d where d: "reciprocal_rank_fusion dense sparse limit k wd ws = Inr (py_take limit (sort_desc ?key (dvalues d)))"
     and ok: "fused_ok d" and keys: "fst ` set d = h_chunk ` set dense \<union> h_chunk ` set sparse"
     and sc: "\<forall>c. fscore d c = contributions k wd 1 dense c + contributions k ws 1 sparse c"
     and dn: "\<forall>c. in_dense d c \<longleftrightarrow> c \<in> h_chunk ` set dense"
     and sp: "\<forall>c. in_sparse d c \<longleftrightarrow> c \<in> h_chunk ` set sparse"
    using fusion_dict [OF assms(1), of dense sparse limit wd ws] by (elim exE conjE) (rule that)
  let ?hits = "py_take limit (sort_desc ?key (dvalues d))"
  have chunk: "fh_chunk e = c \<and> dget d c = Some e" if "(c, e) \<in> set d" for c e
    using ok that dict_ok_mem [of d c e] by (simp add: fused_ok_def)
  have map: "map fh_chunk (dvalues d) = dkeys d" using chunk by auto
  have dist: "distinct (dkeys d)" using ok by (simp add: fused_ok_def dict_ok_def)
  have 1: "distinct (map fh_chunk ?hits)"
    using dist unfolding map_py_take by (intro distinct_py_take) (simp only: distinct_map_sort_desc map)
  have "length d = card (set (dkeys d))" using distinct_card [OF dist] by simp
  then have 2: "length ?hits = min (nat limit) (card (h_chunk ` set dense \<union> h_chunk ` set sparse))"
    using assms(2) keys by (simp add: length_py_take)
  have "sorted_wrt (\<lambda>g h. ?key h \<le> ?key g) ?hits"
    by (rule sorted_wrt_py_take [OF sorted_sort_desc])
  then have 3: "sorted_wrt (\<lambda>g h. fh_score h \<le> fh_score g) ?hits"
    by (rule sorted_wrt_mono_rel [rotated]) auto
  have val: "fh_chunk h \<in> fst ` set d \<and> dget d (fh_chunk h) = Some h" if "h \<in> set (dvalues d)" for h
    using that chunk by force
  have 4: "fh_chunk h \<in> h_chunk ` set dense \<union> h_chunk ` set sparse
      \<and> fh_score h = contributions k wd 1 dense (fh_chunk h) + contributions k ws 1 sparse (fh_chunk h)
      \<and> (found_by_both h \<longleftrightarrow> fh_chunk h \<in> h_chunk ` set dense \<inter> h_chunk ` set sparse)"
    if h: "h \<in> set ?hits" for h
  proof -
    have v: "fh_chunk h \<in> fst ` set d" "dget d (fh_chunk h) = Some h"
      using val in_set_py_takeD [OF h] by simp_all
    have "fh_score h = fscore d (fh_chunk h)" using v(2) by (simp add: fscore_def)
    moreover have "found_by_both h \<longleftrightarrow> in_dense d (fh_chunk h) \<and> in_sparse d (fh_chunk h)"
      using v(2) by (simp add: found_by_both_def in_dense_def in_sparse_def)
    ultimately show ?thesis using v(1) sc dn sp keys by simp
  qed
  have 5: "c \<in> fh_chunk ` set ?hits \<or>
      (\<forall>h \<in> set ?hits. contributions k wd 1 dense c + contributions k ws 1 sparse c \<le> fh_score h)"
    if c: "c \<in> h_chunk ` set dense \<union> h_chunk ` set sparse" for c
  proof -
    have "c \<in> fst ` set d" using c keys by blast
    then obtain e where e: "(c, e) \<in> set d" by auto
    have s: "fh_score e = contributions k wd 1 dense c + contributions k ws 1 sparse c"
      using chunk [OF e] sc by (metis fscore_def option.simps(5))
    show ?thesis
    proof (cases "e \<in> set ?hits")
      case True
      then show ?thesis using chunk [OF e] by blast
    next
      case False
      have "e \<in> set (dvalues d)" using e by force
      have "fh_score e \<le> fh_score h" if h: "h \<in> set ?hits" for h
      proof -
        have "?key e \<le> ?key h"
          by (rule py_take_sort_desc_top [OF h \<open>e \<in> set (dvalues d)\<close> False])
        then show ?thesis by (simp add: less_eq_prod_def) linarith
      qed
      then show ?thesis using s by simp
    qed
  qed
  show ?thesis
  proof (intro exI [of _ ?hits] conjI)
    show "\<forall>h \<in> set ?hits. fh_chunk h \<in> h_chunk ` set dense \<union> h_chunk ` set sparse
          \<and> fh_score h = contributions k wd 1 dense (fh_chunk h) + contributions k ws 1 sparse (fh_chunk h)
          \<and> (found_by_both h \<longleftrightarrow> fh_chunk h \<in> h_chunk ` set dense \<inter> h_chunk ` set sparse)"
      by (rule ballI) (rule 4)
    show "\<forall>c \<in> h_chunk ` set dense \<union> h_chunk ` set sparse. c \<in> fh_chunk ` set ?hits \<or>
          (\<forall>h \<in> set ?hits. contributions k wd 1 dense c + contributions k ws 1 sparse c \<le> fh_score h)"
      by (rule ballI) (rule 5)
  qed (rule d 1 2 3)+
qed

text \<open>A constant \<open>k\<close> that is the negative of a rank that occurs makes the fusion raise
  \<open>ZeroDivisionError\<close>: with \<open>k = - 1\<close> every non-empty dense ranking does.\<close>

theorem fusion_zero_division:
  "dense \<noteq> [] \<longrightarrow> reciprocal_rank_fusion dense sparse limit (- 1) wd ws = Inl ZeroDivisionError"
  by (cases dense) (simp_all add: reciprocal_rank_fusion_def merge_hit_def py_div_def)

definition sample_hit :: "uuid \<Rightarrow> real \<Rightarrow> search_hit" where
  "sample_hit c x = \<lparr>h_chunk = c, h_paper = 0, h_score = x, h_meta = []\<rparr>"

lemma fusion_correct_witness:
  "\<exists>hits. reciprocal_rank_fusion [sample_hit 1 5] [sample_hit 2 9, sample_hit 1 3] 10 RRF_K 1 1 = Inr hits
     \<and> length hits = 2 \<and> list_all (\<lambda>h. fh_chunk h \<in> {1, 2}) hits"
proof -
  have chunks: "h_chunk ` set [sample_hit 1 5] \<union> h_chunk ` set [sample_hit 2 9, sample_hit 1 3] = {1, 2}"
    by (simp add: sample_hit_def insert_commute)
  have "0 \<le> RRF_K" by (simp add: RRF_K_def)
  have ten: "(0 :: int) \<le> 10" by simp
  from fusion_correct [OF \<open>0 \<le> RRF_K\<close> ten, of "[sample_hit 1 5]" "[sample_hit 2 9, sample_hit 1 3]" 1 1]
  obtain hits where hits: "reciprocal_rank_fusion [sample_hit 1 5] [sample_hit 2 9, sample_hit 1 3] 10 RRF_K 1 1 = Inr hits"
    and len: "length hits = min (nat 10) (card {1, 2 :: uuid})"
    and mem: "\<forall>h \<in> set hits. fh_chunk h \<in> {1, 2}"
    unfolding chunks by (elim exE conjE) (erule that, assumption, blast)
  show ?thesis using hits len mem by (intro exI [of _ hits]) (simp add: list_all_iff)
qed

lemma fusion_zero_division_witness:
  "reciprocal_rank_fusion [sample_hit 1 5] [] 10 (- 1) 1 1 = Inl ZeroDivisionError"
  using fusion_zero_division [of "[sample_hit 1 5]"] by simp

end
