(* ===== verification/Reranker.thy ===== *)
theory Reranker
  imports SparseIndex
begin

section \<open>Reranking (retrieval/reranker.py)\<close>

text \<open>
  The template \<open>Reranker.rerank\<close>, parameterised by the scoring method a subclass supplies;
  the lexical, no-op and cross-encoder subclasses (the cross-encoder model is a parameter);
  and \<open>extract_supporting_sentences\<close>.  The locale \<open>reranker\<close> is the contract between the
  template and a subclass: one score per candidate.  The lexical and no-op scorers
  interpret it.
\<close>

record candidate =
  rk_chunk :: uuid
  rk_text :: string
  rk_score :: real

record rerank_result =
  rr_chunk :: uuid
  rr_score :: real
  rr_original_rank :: int
  rr_new_rank :: int

type_synonym scorer = "string \<Rightarrow> candidate list \<Rightarrow> real list res"

definition ranked_results :: "candidate list \<Rightarrow> real list \<Rightarrow> rerank_result list" where
  "ranked_results cs scores =
     map (\<lambda>(new, (old, c, s)). \<lparr>rr_chunk = rk_chunk c, rr_score = s,
            rr_original_rank = int old + 1, rr_new_rank = int new + 1\<rparr>)
       (List.enumerate 0 (sort_desc (\<lambda>(i, c, s). s) (List.enumerate 0 (zip cs scores))))"

text \<open>\<open>results[:limit] if limit else results\<close>: a limit of zero limits nothing.\<close>

definition rerank :: "scorer \<Rightarrow> string \<Rightarrow> candidate list \<Rightarrow> int option \<Rightarrow> rerank_result list res" where
  "rerank score query cs limit =
     (if cs = [] then Inr []
      else bind_res (score query cs) (\<lambda>scores.
        if length scores \<noteq> length cs then Inl zip_error
        else let results = ranked_results cs scores in
          case limit of
            None \<Rightarrow> Inr results
          | Some n \<Rightarrow> Inr (if n = 0 then results else py_take n results)))"

subsection \<open>The scorers\<close>

definition cross_encoder_score :: "((string \<times> string) list \<Rightarrow> real list res) \<Rightarrow> scorer" where
  "cross_encoder_score predict query cs = predict (map (\<lambda>c. (query, rk_text c)) cs)"

definition noop_score :: scorer where
  "noop_score query cs = Inr (map (\<lambda>i. real (length cs) - real i) [0..<length cs])"

definition term_df :: "candidate list \<Rightarrow> string \<Rightarrow> nat" where
  "term_df cs t = (let n = length (filter (\<lambda>c. t \<in> set (tokenize (rk_text c))) cs) in if n = 0 then 1 else n)"

definition lexical_one :: "real \<Rightarrow> string list \<Rightarrow> candidate list \<Rightarrow> candidate \<Rightarrow> real res" where
  "lexical_one phrase_bonus query_terms cs c =
     (let tokens = tokenize (rk_text c); terms = remdups query_terms;
          weight = (\<lambda>t. 1 / real (term_df cs t));
          coverage = sum_list (map weight (filter (\<lambda>t. t \<in> set tokens) terms));
          query_phrase = join '' '' query_terms in
      bind_res (py_div coverage (sum_list (map weight terms))) (\<lambda>normalized.
      Inr (if query_phrase \<noteq> [] \<and> sublist query_phrase (join '' '' tokens)
           then normalized + phrase_bonus else normalized)))"

definition lexical_score :: "real \<Rightarrow> scorer" where
  "lexical_score phrase_bonus query cs =
     (let ts = tokenize query in
      if ts = [] then Inr (map rk_score cs) else mapM (lexical_one phrase_bonus ts cs) cs)"

subsection \<open>Supporting sentences\<close>

definition SENTENCE_SPLIT :: rx where
  "SENTENCE_SPLIT = Cat (Behind True (\<lambda>c. c \<in> set ''.!?'')) (plus (Cls is_space))"

definition overlap :: "string list \<Rightarrow> string \<Rightarrow> nat" where
  "overlap query_terms sentence = length (filter (\<lambda>t. t \<in> set (tokenize sentence)) (remdups query_terms))"

definition extract_supporting_sentences :: "string \<Rightarrow> string \<Rightarrow> int \<Rightarrow> string list" where
  "extract_supporting_sentences query txt limit =
     (let ts = tokenize query in
      if ts = [] then []
      else
        let cleaned = filter (\<lambda>s. 20 \<le> length s) (map strip (re_split SENTENCE_SPLIT txt));
            scored = filter (\<lambda>(n, s). 0 < n) (map (\<lambda>s. (overlap ts s, s)) cleaned)
        in map snd (py_take limit (sort_desc fst scored)))"

datatype reranker_backend = CrossEncoder | LexicalOverlap | NoOp

definition get_reranker :: "string \<Rightarrow> reranker_backend res" where
  "get_reranker setting =
     (let backend = lower setting in
      if backend = ''cross-encoder'' then Inr CrossEncoder
      else if backend = ''lexical'' then Inr LexicalOverlap
      else if backend = ''none'' then Inr NoOp
      else Inl (ValueError ''Unknown reranker backend''))"

subsection \<open>The contract of a scorer\<close>

lemma length_ranked [simp]: "length (ranked_results cs ss) = min (length cs) (length ss)"
  by (simp add: ranked_results_def)

lemma rr_new_ranks: "map rr_new_rank (ranked_results cs ss) = map (\<lambda>i. int i + 1) [0..<min (length cs) (length ss)]"
  by (rule nth_equalityI) (simp_all add: ranked_results_def nth_enumerate_eq case_prod_unfold)

lemma rr_chunks_scores:
  "mset (map (\<lambda>r. (rr_chunk r, rr_score r)) (ranked_results cs ss)) = mset (zip (map rk_chunk cs) ss)"
proof -
  let ?e = "List.enumerate 0 (zip cs ss)"
  have "map (\<lambda>r. (rr_chunk r, rr_score r)) (ranked_results cs ss)
      = map (\<lambda>x. (\<lambda>(i, c, s). (rk_chunk c, s)) (snd x))
          (List.enumerate 0 (sort_desc (\<lambda>(i, c, s). s) ?e))"
    by (simp add: ranked_results_def comp_def case_prod_unfold)
  also have "\<dots> = map (\<lambda>(i, c, s). (rk_chunk c, s)) (sort_desc (\<lambda>(i, c, s). s) ?e)"
    by (rule map_snd_enum)
  finally have "mset (map (\<lambda>r. (rr_chunk r, rr_score r)) (ranked_results cs ss))
      = mset (map (\<lambda>(i, c, s). (rk_chunk c, s)) ?e)" by simp
  also have "map (\<lambda>(i, c, s). (rk_chunk c, s)) ?e = map (\<lambda>x. (\<lambda>(c, s). (rk_chunk c, s)) (snd x)) ?e"
    by (simp add: case_prod_unfold)
  also have "\<dots> = map (\<lambda>(c, s). (rk_chunk c, s)) (zip cs ss)" by (rule map_snd_enum)
  also have "\<dots> = zip (map rk_chunk cs) ss" by (simp add: zip_map1)
  finally show ?thesis .
qed

lemma rr_sorted: "sorted_wrt (\<lambda>x y. rr_score y \<le> rr_score x) (ranked_results cs ss)"
proof -
  let ?key = "\<lambda>(i :: nat, c :: candidate, s :: real). s"
  let ?o = "sort_desc ?key (List.enumerate 0 (zip cs ss))"
  have "sorted_wrt (\<lambda>x y. ?key (snd y) \<le> ?key (snd x)) (List.enumerate 0 ?o)"
    unfolding sorted_wrt_enum [of "\<lambda>x y. ?key y \<le> ?key x"] by (rule sorted_sort_desc)
  then show ?thesis
    by (simp add: ranked_results_def sorted_wrt_map case_prod_unfold)
qed

locale reranker =
  fixes score :: scorer
  assumes one_score_each: "score query cs = Inr ss \<Longrightarrow> length ss = length cs"
begin

text \<open>Without a limit, a rerank is a permutation of the candidates with their scores.\<close>

lemma rerank_permutes:
  assumes "cs \<noteq> []" "score query cs = Inr ss"
  shows "\<exists>rs. rerank score query cs None = Inr rs
     \<and> mset (map (\<lambda>r. (rr_chunk r, rr_score r)) rs) = mset (zip (map rk_chunk cs) ss)
     \<and> sorted_wrt (\<lambda>x y. rr_score y \<le> rr_score x) rs
     \<and> map rr_new_rank rs = map (\<lambda>i. int i + 1) [0..<length cs]"
  using assms one_score_each [OF assms(2)]
  by (intro exI [of _ "ranked_results cs ss"])
     (simp add: rerank_def rr_chunks_scores rr_sorted rr_new_ranks del: mset_map)

lemma rerank_limited:
  assumes "score query cs = Inr ss" "rerank score query cs limit = Inr rs"
  shows "set (map rr_chunk rs) \<subseteq> set (map rk_chunk cs)
     \<and> (\<forall>n. limit = Some n \<longrightarrow> 0 < n \<longrightarrow> length rs = min (nat n) (length cs))"
proof (cases "cs = []")
  case True
  then show ?thesis using assms(2) by (simp add: rerank_def)
next
  case False
  have len: "length ss = length cs" using one_score_each [OF assms(1)] .
  have "set (map (\<lambda>r. (rr_chunk r, rr_score r)) (ranked_results cs ss)) = set (zip (map rk_chunk cs) ss)"
    by (rule mset_eq_setD [OF rr_chunks_scores])
  then have "fst ` set (map (\<lambda>r. (rr_chunk r, rr_score r)) (ranked_results cs ss)) = fst ` set (zip (map rk_chunk cs) ss)"
    by simp
  then have all: "rr_chunk ` set (ranked_results cs ss) = rk_chunk ` set cs"
    using len by (simp add: image_image flip: set_map) (simp add: map_fst_zip)
  have rs: "rs = ranked_results cs ss \<or> (\<exists>n. limit = Some n \<and> n \<noteq> 0 \<and> rs = py_take n (ranked_results cs ss))"
    and lim: "limit = Some n \<Longrightarrow> 0 < n \<Longrightarrow> rs = py_take n (ranked_results cs ss)" for n
    using assms False len by (auto simp: rerank_def Let_def split: option.splits if_splits)
  from rs have "set rs \<subseteq> set (ranked_results cs ss)" using set_py_take_subset by fastforce
  then have "rr_chunk ` set rs \<subseteq> rk_chunk ` set cs" using all by blast
  then show ?thesis using lim len by (auto simp: length_py_take)
qed

end

subsection \<open>The scorers keep the contract\<close>

lemma term_df_pos: "0 < term_df cs t"
  by (simp add: term_df_def Let_def)

lemma sum_list_filter_le:
  "\<forall>x \<in> set xs. 0 \<le> (f x :: real) \<Longrightarrow> sum_list (map f (filter P xs)) \<le> sum_list (map f xs)"
  by (induction xs) auto

lemma lexical_one_ok:
  assumes "ts \<noteq> []" "0 \<le> bonus"
  shows "\<exists>x. lexical_one bonus ts cs c = Inr x \<and> 0 \<le> x \<and> x \<le> 1 + bonus"
proof -
  let ?w = "\<lambda>t. 1 / real (term_df cs t)" and ?P = "\<lambda>t. t \<in> set (tokenize (rk_text c))"
  let ?cov = "sum_list (map ?w (filter ?P (remdups ts)))" and ?tot = "sum_list (map ?w (remdups ts))"
  have w: "\<forall>t \<in> set xs. 0 \<le> ?w t" for xs by simp
  have "0 < ?tot"
  proof (cases "remdups ts")
    case Nil
    then show ?thesis using assms(1) by simp
  next
    case (Cons t us)
    have "0 \<le> sum_list (map ?w us)" by (rule sum_list_nonneg) auto
    moreover have "0 < ?w t" using term_df_pos [of cs t] by simp
    ultimately have "0 < ?w t + sum_list (map ?w us)" by (intro add_pos_nonneg)
    then show ?thesis using Cons by simp
  qed
  moreover have "0 \<le> ?cov" by (rule sum_list_nonneg) auto
  moreover have "?cov \<le> ?tot" by (rule sum_list_filter_le) simp
  ultimately have "0 \<le> ?cov / ?tot" "?cov / ?tot \<le> 1" "py_div ?cov ?tot = Inr (?cov / ?tot)"
    by (simp_all add: divide_le_eq)
  then show ?thesis using assms(2) unfolding lexical_one_def Let_def by simp
qed

lemma lexical_score_ok:
  assumes "0 \<le> bonus"
  shows "\<exists>ss. lexical_score bonus query cs = Inr ss \<and> length ss = length cs
     \<and> (tokenize query \<noteq> [] \<longrightarrow> (\<forall>s \<in> set ss. 0 \<le> s \<and> s \<le> 1 + bonus))"
proof (cases "tokenize query = []")
  case True
  then show ?thesis by (simp add: lexical_score_def)
next
  case False
  define g where "g c = (case lexical_one bonus (tokenize query) cs c of Inr x \<Rightarrow> x | Inl _ \<Rightarrow> 0)" for c
  have g: "lexical_one bonus (tokenize query) cs c = Inr (g c) \<and> 0 \<le> g c \<and> g c \<le> 1 + bonus" for c
    using lexical_one_ok [OF False assms, of cs c] by (auto simp: g_def)
  have "mapM (lexical_one bonus (tokenize query) cs) cs = Inr (map g cs)"
    by (rule mapM_Inr) (use g in simp)
  then show ?thesis using False g by (simp add: lexical_score_def Let_def)
qed

lemma length_mapM: "mapM f xs = Inr ys \<Longrightarrow> length ys = length xs"
  by (auto simp: mapM_Inr_conv dest: list_all2_lengthD)

interpretation lexical: reranker "lexical_score bonus" for bonus :: real
  by unfold_locales (auto simp: lexical_score_def Let_def dest: length_mapM split: if_splits)

interpretation noop: reranker noop_score
  by unfold_locales (auto simp: noop_score_def)

text \<open>Reranking with the lexical scorer never fails, returns every candidate exactly once,
  best score first with new ranks \<open>1, 2, ...\<close>, and scores lie between zero and one plus the
  phrase bonus when the query has a token.\<close>

theorem lexical_rerank_correct:
  assumes "0 \<le> bonus" "cs \<noteq> []"
  shows "\<exists>rs. rerank (lexical_score bonus) query cs None = Inr rs
     \<and> mset (map rr_chunk rs) = mset (map rk_chunk cs)
     \<and> sorted_wrt (\<lambda>x y. rr_score y \<le> rr_score x) rs
     \<and> map rr_new_rank rs = map (\<lambda>i. int i + 1) [0..<length cs]
     \<and> (tokenize query \<noteq> [] \<longrightarrow> (\<forall>r \<in> set rs. 0 \<le> rr_score r \<and> rr_score r \<le> 1 + bonus))"
proof -
  obtain ss where ss: "lexical_score bonus query cs = Inr ss" "length ss = length cs"
      "tokenize query \<noteq> [] \<longrightarrow> (\<forall>s \<in> set ss. 0 \<le> s \<and> s \<le> 1 + bonus)"
    using lexical_score_ok [OF assms(1)] by blast
  obtain rs where rs: "rerank (lexical_score bonus) query cs None = Inr rs"
     "mset (map (\<lambda>r. (rr_chunk r, rr_score r)) rs) = mset (zip (map rk_chunk cs) ss)"
     "sorted_wrt (\<lambda>x y. rr_score y \<le> rr_score x) rs"
     "map rr_new_rank rs = map (\<lambda>i. int i + 1) [0..<length cs]"
    using lexical.rerank_permutes [OF assms(2) ss(1)] by (elim exE conjE) (rule that)
  have "mset (map fst (map (\<lambda>r. (rr_chunk r, rr_score r)) rs)) = mset (map fst (zip (map rk_chunk cs) ss))"
    using arg_cong [OF rs(2), of "image_mset fst"] by (simp only: mset_map)
  then have chunks: "mset (map rr_chunk rs) = mset (map rk_chunk cs)"
    using ss(2) by (simp add: comp_def map_fst_zip del: mset_map)
  have "rr_score r \<in> set ss" if r: "r \<in> set rs" for r
  proof -
    have "(rr_chunk r, rr_score r) \<in> set (map (\<lambda>r. (rr_chunk r, rr_score r)) rs)" using r by simp
    then have "(rr_chunk r, rr_score r) \<in> set (zip (map rk_chunk cs) ss)"
      unfolding mset_eq_setD [OF rs(2)] .
    then show ?thesis by (rule set_zip_rightD)
  qed
  then have "tokenize query \<noteq> [] \<longrightarrow> (\<forall>r \<in> set rs. 0 \<le> rr_score r \<and> rr_score r \<le> 1 + bonus)"
    using ss(3) by simp
  with rs(1) chunks rs(3,4) show ?thesis by (intro exI [of _ rs] conjI)
qed

lemma ranked_results_sorted_id:
  assumes "length ss = length cs" "sorted_wrt (\<lambda>x y. y \<le> x) ss"
  shows "map rr_chunk (ranked_results cs ss) = map rk_chunk cs"
proof -
  have "sorted_wrt (\<lambda>x y. (\<lambda>(i, c, s). s) y \<le> (\<lambda>(i, c, s). s) x) (List.enumerate 0 (zip cs ss))"
    using assms by (simp add: sorted_wrt_iff_nth_less nth_enumerate_eq)
  then have "sort_desc (\<lambda>(i, c, s). s) (List.enumerate 0 (zip cs ss)) = List.enumerate 0 (zip cs ss)"
    by (rule sort_desc_id)
  then show ?thesis
    using assms(1) by (intro nth_equalityI) (simp_all add: ranked_results_def nth_enumerate_eq case_prod_unfold)
qed

text \<open>The no-op reranker keeps the fused order: its answer lists the candidates as they came,
  cut to a positive limit; a limit of zero returns them all.\<close>

theorem noop_rerank_keeps_order:
  "\<exists>rs. rerank noop_score query cs limit = Inr rs
     \<and> map rr_chunk rs = (case limit of None \<Rightarrow> map rk_chunk cs
           | Some n \<Rightarrow> if n = 0 then map rk_chunk cs else py_take n (map rk_chunk cs))"
proof -
  let ?ss = "map (\<lambda>i. real (length cs) - real i) [0..<length cs]"
  have "sorted_wrt (\<lambda>x y. y \<le> x) ?ss" by (simp add: sorted_wrt_iff_nth_less)
  then have "map rr_chunk (ranked_results cs ?ss) = map rk_chunk cs" by (intro ranked_results_sorted_id) simp_all
  then show ?thesis
    by (cases "cs = []") (auto simp: rerank_def noop_score_def Let_def map_py_take split: option.splits)
qed

lemma re_split_sublist: "w \<in> set (re_split r s) \<Longrightarrow> sublist w s"
proof -
  assume w: "w \<in> set (re_split r s)"
  obtain ms rest where sc: "scan r [] s = (ms, rest)" by (cases "scan r [] s")
  have whole: "concat (map (\<lambda>(sk, m, k). sk @ m) ms) @ rest = s" by (rule scan_text [OF sc])
  consider "w = rest" | m k where "(w, m, k) \<in> set ms" using w sc by (auto simp: re_split_def)
  then show ?thesis
  proof cases
    case 1
    have "s = concat (map (\<lambda>(sk, m, k). sk @ m) ms) @ w @ []" using whole 1 by simp
    then show ?thesis unfolding sublist_def by blast
  next
    case 2
    then obtain xs ys where "ms = xs @ (w, m, k) # ys" by (meson split_list)
    then have str: "s = concat (map (\<lambda>(sk, m, k). sk @ m) xs) @ w @ (m @ concat (map (\<lambda>(sk, m, k). sk @ m) ys) @ rest)"
      using whole by simp
    show ?thesis unfolding sublist_def by (intro exI) (rule str)
  qed
qed

lemma extract_supporting_eq:
  "tokenize query \<noteq> [] \<Longrightarrow> extract_supporting_sentences query txt limit =
     map snd (py_take limit (sort_desc fst (filter (\<lambda>(n, s). 0 < n) (map (\<lambda>s. (overlap (tokenize query) s, s))
       (filter (\<lambda>s. 20 \<le> length s) (map strip (re_split SENTENCE_SPLIT txt)))))))"
  by (simp add: extract_supporting_sentences_def Let_def)

lemma length_supporting_le: "0 \<le> limit \<Longrightarrow> length (extract_supporting_sentences query txt limit) \<le> nat limit"
  by (cases "tokenize query = []") (simp_all add: extract_supporting_eq length_py_take, simp add: extract_supporting_sentences_def)

lemma supporting_sentence_quotes:
  assumes s: "s \<in> set (extract_supporting_sentences query txt limit)"
  shows "sublist s txt \<and> 20 \<le> length s \<and> strip s = s \<and> (\<exists>t \<in> set (tokenize query). t \<in> set (tokenize s))"
proof -
  have ne: "tokenize query \<noteq> []" using s by (auto simp: extract_supporting_sentences_def)
  obtain p where "p \<in> set (py_take limit (sort_desc fst (filter (\<lambda>(n, s). 0 < n) (map (\<lambda>s. (overlap (tokenize query) s, s))
       (filter (\<lambda>s. 20 \<le> length s) (map strip (re_split SENTENCE_SPLIT txt)))))))" "s = snd p"
    using s unfolding extract_supporting_eq [OF ne] by auto
  from in_set_py_takeD [OF this(1)] this(2) obtain w where w: "w \<in> set (re_split SENTENCE_SPLIT txt)" "s = strip w" "20 \<le> length s"
    and ov: "0 < overlap (tokenize query) s" by auto
  have "sublist s txt"
    using strip_by_sublist re_split_sublist [OF w(1)] w(2) sublist_order.order.trans by blast
  moreover have "\<exists>t \<in> set (tokenize query). t \<in> set (tokenize s)"
    using ov by (auto simp: overlap_def filter_empty_conv)
  ultimately show ?thesis using w by simp
qed

text \<open>Supporting sentences are quotations: each is a verbatim, trimmed piece of the passage of
  at least twenty characters that shares a token with the query, and there are no more
  than the limit.\<close>

theorem supporting_sentences_quote:
  assumes "0 \<le> limit"
  shows "length (extract_supporting_sentences query txt limit) \<le> nat limit
     \<and> (\<forall>s \<in> set (extract_supporting_sentences query txt limit).
          sublist s txt \<and> 20 \<le> length s \<and> strip s = s
          \<and> (\<exists>t \<in> set (tokenize query). t \<in> set (tokenize s)))"
  using supporting_sentence_quotes length_supporting_le [OF assms] by blast

definition two_candidates :: "candidate list" where
  "two_candidates = [\<lparr>rk_chunk = 1, rk_text = ''graphs'', rk_score = 1\<rparr>, \<lparr>rk_chunk = 2, rk_text = ''deep nets'', rk_score = 0\<rparr>]"

lemma lexical_rerank_correct_witness:
  "\<exists>rs. rerank (lexical_score (1 / 2)) ''Deep nets'' two_candidates None = Inr rs \<and> length rs = 2"
proof -
  have b: "(0 :: real) \<le> 1 / 2" "two_candidates \<noteq> []" by (simp_all add: two_candidates_def)
  obtain rs where rs: "rerank (lexical_score (1 / 2)) ''Deep nets'' two_candidates None = Inr rs"
      "mset (map rr_chunk rs) = mset (map rk_chunk two_candidates)"
    using lexical_rerank_correct [OF b, of "''Deep nets''"] by (elim exE conjE) (rule that)
  have "length rs = length two_candidates" using mset_eq_length [OF rs(2)] by simp
  with rs(1) show ?thesis by (simp add: two_candidates_def)
qed

definition sample_text :: string where
  "sample_text = ''Yes. Deep nets learn useful features. Short one.''"

lemma sample_sentences: "extract_supporting_sentences ''nets'' sample_text 3 = [''Deep nets learn useful features.'']"
  by code_simp

lemma supporting_sentences_quote_witness: "sublist ''Deep nets learn useful features.'' sample_text"
  using supporting_sentences_quote [of 3 "''nets''" sample_text] by (simp add: sample_sentences)

end
