(* ===== verification/Retrieval.thy ===== *)
theory Retrieval
  imports Indexer Fusion Reranker
begin

section \<open>The retrieval service (retrieval/service.py)\<close>

text \<open>
  \<open>retrieve\<close>: authorisation, filters pushed into both retrievers, fusion, loading of the
  chunk rows, reranking and citation snippets.  Parameters of the model: the embedding of
  the query, the vector store's search on its current state, the reranker's scoring method
  (\<open>None\<close> when reranking is off), and the database's \<open>ILIKE\<close> test of a section path.
  \<open>asyncio.gather\<close> of the two searches is modelled in order, dense first.
\<close>

record retrieval_filters =
  rf_paper_ids :: "uuid list"
  rf_kinds :: "string list"
  rf_year_from :: "int option"
  rf_year_to :: "int option"
  rf_sections :: "string list"

record retrieved_chunk =
  rc_chunk :: uuid
  rc_paper :: uuid
  rc_title :: "string option"
  rc_content :: string
  rc_section :: "string option"
  rc_page :: "int option"
  rc_kind :: string
  rc_score :: real
  rc_dense_rank :: "int option"
  rc_sparse_rank :: "int option"
  rc_rerank_score :: "real option"
  rc_sentences :: "string list"

definition CANDIDATE_MULTIPLIER :: int where "CANDIDATE_MULTIPLIER = 4"
definition MAX_CANDIDATES :: int where "MAX_CANDIDATES = 200"

definition no_filters :: retrieval_filters where
  "no_filters = \<lparr>rf_paper_ids = [], rf_kinds = [], rf_year_from = None, rf_year_to = None, rf_sections = []\<rparr>"

definition str_ids :: "uuid list \<Rightarrow> pyval" where
  "str_ids ps = PyList (map PyStr (map str_uuid ps))"

definition to_metadata_filters :: "retrieval_filters \<Rightarrow> metadata" where
  "to_metadata_filters f =
     (let d = (if rf_paper_ids f \<noteq> [] then [(''paper_id'', str_ids (rf_paper_ids f))] else []) in
      if rf_kinds f \<noteq> [] then dset ''kind'' (PyList (map PyStr (rf_kinds f))) d else d)"

definition needs_database_filtering :: "retrieval_filters \<Rightarrow> bool" where
  "needs_database_filtering f \<longleftrightarrow>
     (rf_year_from f \<noteq> None \<and> rf_year_from f \<noteq> Some 0) \<or> (rf_year_to f \<noteq> None \<and> rf_year_to f \<noteq> Some 0)
     \<or> rf_sections f \<noteq> []"

definition resolve_workspace_ids :: "database \<Rightarrow> uuid \<Rightarrow> uuid list" where
  "resolve_workspace_ids db user = map w_id (filter (\<lambda>w. w_owner w = user) (db_workspaces db))"

definition allowed_paper_ids :: "database \<Rightarrow> uuid \<Rightarrow> retrieval_filters \<Rightarrow> uuid list" where
  "allowed_paper_ids db user f =
     (let ws = resolve_workspace_ids db user in
      if ws = [] then []
      else map p_id (filter (\<lambda>p. p_workspace p \<in> set ws \<and> (rf_paper_ids f = [] \<or> p_id p \<in> set (rf_paper_ids f)))
             (db_papers db)))"

text \<open>The join of the chunk rows with their papers, as a dictionary; the last row of an id wins.\<close>

definition load_chunks ::
    "(string \<Rightarrow> string \<Rightarrow> bool) \<Rightarrow> database \<Rightarrow> uuid list \<Rightarrow> retrieval_filters \<Rightarrow> (uuid, chunk_row \<times> string option) dict" where
  "load_chunks ilike db ids f =
     (if ids = [] then []
      else dict_update [] (map (\<lambda>(c, p). (k_id c, (c, p_title p)))
        (filter (\<lambda>(c, p). k_id c \<in> set ids
             \<and> (rf_sections f = [] \<or> (case k_section c of None \<Rightarrow> False
                   | Some path \<Rightarrow> list_ex (\<lambda>s. ilike path (''%'' @ s @ ''%'')) (rf_sections f))))
          (rebuild_rows db))))"

definition to_result :: "chunk_row \<times> string option \<Rightarrow> fused_hit \<Rightarrow> retrieved_chunk" where
  "to_result row h =
     \<lparr>rc_chunk = fh_chunk h, rc_paper = fh_paper h, rc_title = snd row, rc_content = k_content (fst row),
      rc_section = k_section (fst row), rc_page = k_page (fst row), rc_kind = k_kind (fst row),
      rc_score = fh_score h, rc_dense_rank = fh_dense_rank h, rc_sparse_rank = fh_sparse_rank h,
      rc_rerank_score = None, rc_sentences = []\<rparr>"

definition to_results :: "(uuid, chunk_row \<times> string option) dict \<Rightarrow> fused_hit list \<Rightarrow> retrieved_chunk list" where
  "to_results chunks fused =
     concat (map (\<lambda>h. case dget chunks (fh_chunk h) of None \<Rightarrow> [] | Some row \<Rightarrow> [to_result row h]) fused)"

definition apply_reranker ::
    "scorer \<Rightarrow> string \<Rightarrow> retrieved_chunk list \<Rightarrow> int \<Rightarrow> retrieved_chunk list res" where
  "apply_reranker score query results limit =
     bind_res (rerank score query
        (map (\<lambda>r. \<lparr>rk_chunk = rc_chunk r, rk_text = rc_content r, rk_score = rc_score r\<rparr>) results) (Some limit))
       (\<lambda>ranked. mapM (\<lambda>e. case dget (dict_update [] (map (\<lambda>r. (rc_chunk r, r)) results)) (rr_chunk e) of
           None \<Rightarrow> Inl KeyError
         | Some r \<Rightarrow> Inr (r\<lparr>rc_rerank_score := Some (rr_score e)\<rparr>)) ranked)"

definition retrieve ::
    "(string \<Rightarrow> string \<Rightarrow> bool) \<Rightarrow> (string \<Rightarrow> real list res) \<Rightarrow>
     (real list \<Rightarrow> int \<Rightarrow> filters \<Rightarrow> search_hit list res) \<Rightarrow> bm25 \<Rightarrow> scorer option \<Rightarrow>
     database \<Rightarrow> uuid \<Rightarrow> string \<Rightarrow> int \<Rightarrow> retrieval_filters \<Rightarrow> retrieved_chunk list res" where
  "retrieve ilike embedder search bm scoring db user query limit f =
     (if strip query = [] then Inr []
      else
        let allowed = allowed_paper_ids db user f in
        if allowed = [] then Inr []
        else
          let mf = Some (dset ''paper_id'' (str_ids allowed) (to_metadata_filters f));
              n = min MAX_CANDIDATES (max (limit * CANDIDATE_MULTIPLIER) limit) in
          bind_res (embedder query) (\<lambda>v.
          bind_res (search v n mf) (\<lambda>dense.
          bind_res (bm_search BM25_K1 BM25_B query n mf bm) (\<lambda>sparse.
          bind_res (reciprocal_rank_fusion dense sparse n RRF_K 1 1) (\<lambda>fused.
          if fused = [] then Inr []
          else
            let chunks = load_chunks ilike db (map fh_chunk fused) f in
            if chunks = [] then Inr []
            else
              let results = to_results chunks fused in
              bind_res (case scoring of
                          Some score \<Rightarrow> (if results = [] then Inr (py_take limit results)
                                          else apply_reranker score query results limit)
                        | None \<Rightarrow> Inr (py_take limit results)) (\<lambda>results.
              Inr (map (\<lambda>r. r\<lparr>rc_sentences := extract_supporting_sentences query (rc_content r) 3\<rparr>) results)))))))"

subsection \<open>What a retrieval answers\<close>

lemma dget_load_chunks:
  "dget (load_chunks ilike db ids f) k = Some (c, t) \<Longrightarrow> c \<in> set (db_chunks db) \<and> k_id c = k
     \<and> (rf_sections f = [] \<or> (\<exists>path s. k_section c = Some path \<and> s \<in> set (rf_sections f) \<and> ilike path (''%'' @ s @ ''%'')))"
  by (auto simp: load_chunks_def rebuild_rows_def list_ex_iff dest!: dget_updateD split: if_splits option.splits)

lemma in_to_results:
  "r \<in> set (to_results chunks fused) \<Longrightarrow>
   \<exists>h \<in> set fused. \<exists>row. dget chunks (fh_chunk h) = Some row \<and> r = to_result row h"
proof -
  assume "r \<in> set (to_results chunks fused)"
  then obtain h where h: "h \<in> set fused" "r \<in> set (case dget chunks (fh_chunk h) of None \<Rightarrow> [] | Some row \<Rightarrow> [to_result row h])"
    by (auto simp: to_results_def)
  then show ?thesis by (cases "dget chunks (fh_chunk h)") auto
qed

lemma in_apply_reranker:
  assumes "apply_reranker score query results limit = Inr out" "r \<in> set out"
  shows "\<exists>r0 \<in> set results. \<exists>x. r = r0\<lparr>rc_rerank_score := x\<rparr>"
proof -
  obtain ranked :: "rerank_result list" where "list_all2 (\<lambda>e r. (case dget (dict_update [] (map (\<lambda>r. (rc_chunk r, r)) results)) (rr_chunk e) of
      None \<Rightarrow> Inl KeyError | Some r0 \<Rightarrow> Inr (r0\<lparr>rc_rerank_score := Some (rr_score e)\<rparr>)) = Inr r) ranked out"
    using assms(1) unfolding apply_reranker_def bind_res_Inr_conv mapM_Inr_conv by blast
  from list_all2_ex1 [OF this assms(2)] obtain e :: rerank_result where
    e: "(case dget (dict_update [] (map (\<lambda>r. (rc_chunk r, r)) results)) (rr_chunk e) of
      None \<Rightarrow> Inl KeyError | Some r0 \<Rightarrow> Inr (r0\<lparr>rc_rerank_score := Some (rr_score e)\<rparr>)) = Inr r" by blast
  then obtain r0 where r0: "dget (dict_update [] (map (\<lambda>r. (rc_chunk r, r)) results)) (rr_chunk e) = Some r0"
      "r = r0\<lparr>rc_rerank_score := Some (rr_score e)\<rparr>" by (auto split: option.splits)
  have "r0 \<in> set results" using dget_updateD [OF r0(1)] by auto
  then show ?thesis using r0(2) by blast
qed

text \<open>Every answered chunk is a fused hit of an allowed search with its chunk row.\<close>

lemma retrieve_result:
  assumes "retrieve ilike embedder search bm scoring db user query limit f = Inr rs" "r \<in> set rs"
  obtains dense sparse fused n h c t v where
    "search v n (Some (dset ''paper_id'' (str_ids (allowed_paper_ids db user f)) (to_metadata_filters f))) = Inr dense"
    "bm_search BM25_K1 BM25_B query n (Some (dset ''paper_id'' (str_ids (allowed_paper_ids db user f)) (to_metadata_filters f))) bm = Inr sparse"
    "reciprocal_rank_fusion dense sparse n RRF_K 1 1 = Inr fused" "h \<in> set fused"
    "dget (load_chunks ilike db (map fh_chunk fused) f) (fh_chunk h) = Some (c, t)"
    "rc_chunk r = fh_chunk h" "rc_paper r = fh_paper h" "rc_content r = k_content c"
    "rc_sentences r = extract_supporting_sentences query (rc_content r) 3"
proof -
  define mf where "mf = Some (dset ''paper_id'' (str_ids (allowed_paper_ids db user f)) (to_metadata_filters f))"
  define n where "n = min MAX_CANDIDATES (max (limit * CANDIDATE_MULTIPLIER) limit)"
  have ne: "strip query \<noteq> []" "allowed_paper_ids db user f \<noteq> []"
    using assms by (auto simp: retrieve_def Let_def split: if_splits)
  obtain v dense sparse fused where st: "embedder query = Inr v" "search v n mf = Inr dense"
      "bm_search BM25_K1 BM25_B query n mf bm = Inr sparse"
      "reciprocal_rank_fusion dense sparse n RRF_K 1 1 = Inr fused"
    using assms(1) ne by (auto simp: retrieve_def Let_def bind_res_Inr_conv mf_def n_def)
  define chunks where "chunks = load_chunks ilike db (map fh_chunk fused) f"
  have ne2: "fused \<noteq> []" "chunks \<noteq> []"
    using assms ne st by (auto simp: retrieve_def Let_def mf_def n_def chunks_def split: if_splits)
  let ?rs = "to_results chunks fused"
  have eq: "retrieve ilike embedder search bm scoring db user query limit f =
      bind_res (case scoring of
          Some score \<Rightarrow> (if ?rs = [] then Inr (py_take limit ?rs) else apply_reranker score query ?rs limit)
        | None \<Rightarrow> Inr (py_take limit ?rs))
      (\<lambda>results. Inr (map (\<lambda>r. r\<lparr>rc_sentences := extract_supporting_sentences query (rc_content r) 3\<rparr>) results))"
    using ne ne2 st by (simp add: retrieve_def Let_def flip: mf_def n_def chunks_def)
  from trans [OF eq [symmetric] assms(1), unfolded bind_res_Inr_conv sum.inject]
  obtain out where out: "(case scoring of
        Some score \<Rightarrow> (if ?rs = [] then Inr (py_take limit ?rs) else apply_reranker score query ?rs limit)
      | None \<Rightarrow> Inr (py_take limit ?rs)) = Inr out"
    and rs: "rs = map (\<lambda>r. r\<lparr>rc_sentences := extract_supporting_sentences query (rc_content r) 3\<rparr>) out"
    by (elim exE conjE) (rule that, assumption, erule sym)
  obtain o1 where o1: "o1 \<in> set out" "r = o1\<lparr>rc_sentences := extract_supporting_sentences query (rc_content o1) 3\<rparr>"
    using assms(2) rs by auto
  have "\<exists>r0 \<in> set ?rs. \<exists>x. o1 = r0 \<or> o1 = r0\<lparr>rc_rerank_score := x\<rparr>"
  proof (cases "scoring = None \<or> ?rs = []")
    case True
    then have "out = py_take limit ?rs" using out by (auto split: option.splits)
    then have "o1 \<in> set ?rs" using o1(1) by (auto intro: in_set_py_takeD)
    then show ?thesis by (intro bexI [of _ o1]) simp_all
  next
    case False
    then obtain score where sc: "apply_reranker score query ?rs limit = Inr out" using out by (auto split: option.splits)
    show ?thesis using in_apply_reranker [OF sc o1(1)] by (elim bexE exE) (intro bexI exI disjI2)
  qed
  then obtain r0 x where r0: "r0 \<in> set ?rs" "o1 = r0 \<or> o1 = r0\<lparr>rc_rerank_score := x\<rparr>" by blast
  obtain h row where h: "h \<in> set fused" "dget chunks (fh_chunk h) = Some row" "r0 = to_result row h"
    using in_to_results [OF r0(1)] by blast
  have sel: "rc_chunk r = fh_chunk h" "rc_paper r = fh_paper h" "rc_content r = k_content (fst row)"
      "rc_sentences r = extract_supporting_sentences query (rc_content r) 3"
    using o1(2) r0(2) h(3) by (auto simp: to_result_def)
  obtain c t where row: "row = (c, t)" by (cases row)
  show thesis
    by (rule that [OF st(2-4) [unfolded mf_def] h(1), of c t])
       (use h(2) sel row in \<open>simp_all add: chunks_def\<close>)
qed

lemma dget_in_set: "(k, v) \<in> set (dset k v d)"
  by (rule map_of_SomeD) simp

text \<open>A hit whose metadata names its paper and passes the filter is of an allowed paper.\<close>

lemma matches_allowed:
  assumes "matches m (Some (dset ''paper_id'' (str_ids ps) d))" "tag_ok m p"
  shows "p \<in> set ps"
proof -
  have "(''paper_id'', PyList (map PyStr (map str_uuid ps))) \<in> set (dset ''paper_id'' (str_ids ps) d)"
    unfolding str_ids_def by (rule dget_in_set)
  from matches_member [OF assms(1) this] obtain t where "t \<in> set (map str_uuid ps)" "dget m ''paper_id'' = Some (PyStr t)"
    by blast
  then show ?thesis using assms(2) by (auto simp: tag_ok_def)
qed

text \<open>
  The index and the database agree on the paper of every chunk they both hold.
\<close>

definition index_matches :: "index_state \<Rightarrow> database \<Rightarrow> bool" where
  "index_matches s db \<longleftrightarrow>
     (\<forall>c \<in> set (db_chunks db).
        (case dget (m_records (i_store s)) (k_id c) of None \<Rightarrow> True | Some r \<Rightarrow> vr_paper r = k_paper c)
        \<and> (case dget (b_docs (i_bm s)) (k_id c) of None \<Rightarrow> True | Some d \<Rightarrow> d_paper d = k_paper c))"

definition hit_ok :: "index_state \<Rightarrow> database \<Rightarrow> uuid list \<Rightarrow> search_hit \<Rightarrow> bool" where
  "hit_ok s db ps h \<longleftrightarrow> h_paper h \<in> set ps \<and> (\<forall>c \<in> set (db_chunks db). k_id c = h_chunk h \<longrightarrow> k_paper c = h_paper h)"

lemma dense_hit_ok:
  assumes "index_ok s" "index_matches s db" "h \<in> set hits"
    and "mem_search v n (Some (dset ''paper_id'' (str_ids ps) m)) (i_store s) = Inr hits"
  shows "hit_ok s db ps h"
proof -
  obtain r where r: "dget (m_records (i_store s)) (h_chunk h) = Some r" "h = to_hit (h_score h) r"
      "matches (vr_meta r) (Some (dset ''paper_id'' (str_ids ps) m))"
    using mem_search_sound [OF _ assms(4,3)] assms(1) by (auto simp: index_ok_def)
  have "h_paper h = vr_paper r" using r(2) by (metis search_hit.simps(2) to_hit_def)
  moreover have "vr_paper r \<in> set ps"
    using matches_allowed [OF r(3)] assms(1) r(1) by (simp add: index_ok_def)
  ultimately show ?thesis using assms(2) r(1) by (auto simp: hit_ok_def index_matches_def)
qed

lemma sparse_hit_ok:
  assumes "index_ok s" "index_matches s db" "h \<in> set hits"
    and "bm_search BM25_K1 BM25_B q n (Some (dset ''paper_id'' (str_ids ps) m)) (i_bm s) = Inr hits"
  shows "hit_ok s db ps h"
proof -
  let ?f = "Some (dset ''paper_id'' (str_ids ps) m)"
  have ok: "bm_ok (i_bm s)" using assms(1) by (simp add: index_ok_def)
  obtain score where "bm_search BM25_K1 BM25_B q n ?f (i_bm s) = Inr (py_take n (sort_desc h_score
             (map (\<lambda>doc. doc_hit doc (score doc)) (filter (relevant q ?f) (dvalues (b_docs (i_bm s)))))))"
    using bm_search_full [OF ok, of BM25_K1 BM25_B q n ?f] by (auto simp: BM25_K1_def BM25_B_def)
  then have "h \<in> set (py_take n (sort_desc h_score
             (map (\<lambda>doc. doc_hit doc (score doc)) (filter (relevant q ?f) (dvalues (b_docs (i_bm s)))))))"
    using assms(3,4) by simp
  from in_set_py_takeD [OF this] obtain c doc where doc: "(c, doc) \<in> set (b_docs (i_bm s))" "relevant q ?f doc"
      "h = doc_hit doc (score doc)" by auto
  have d: "dget (b_docs (i_bm s)) (d_chunk doc) = Some doc"
    using ok bm_okD [OF ok doc(1)] doc(1) by (simp add: bm_ok_def dict_ok_mem)
  have "d_paper doc \<in> set ps"
    using matches_allowed [of "d_meta doc" ps m] doc(2) assms(1) d by (simp add: index_ok_def relevant_def)
  then show ?thesis using assms(2) d doc(3) by (auto simp: hit_ok_def index_matches_def)
qed

lemma retrieve_allowed:
  assumes "index_reachable s" "index_matches s db"
    and "retrieve ilike embedder (\<lambda>v n f. mem_search v n f (i_store s)) (i_bm s) scoring db user query limit f = Inr rs"
    and "r \<in> set rs"
  shows "\<exists>p \<in> set (db_papers db). \<exists>w \<in> set (db_workspaces db). \<exists>c \<in> set (db_chunks db).
     p_id p = rc_paper r \<and> p_workspace p = w_id w \<and> w_owner w = user
     \<and> (rf_paper_ids f \<noteq> [] \<longrightarrow> rc_paper r \<in> set (rf_paper_ids f))
     \<and> k_id c = rc_chunk r \<and> k_paper c = rc_paper r \<and> k_content c = rc_content r"
proof -
  have ok: "index_ok s" using assms(1) by (rule index_reachable_ok)
  let ?ps = "allowed_paper_ids db user f"
  let ?m = "Some (dset ''paper_id'' (str_ids ?ps) (to_metadata_filters f))"
  obtain dense sparse fused n h c t v where st:
    "mem_search v n ?m (i_store s) = Inr dense" "bm_search BM25_K1 BM25_B query n ?m (i_bm s) = Inr sparse"
    "reciprocal_rank_fusion dense sparse n RRF_K 1 1 = Inr fused" "h \<in> set fused"
    "dget (load_chunks ilike db (map fh_chunk fused) f) (fh_chunk h) = Some (c, t)"
    "rc_chunk r = fh_chunk h" "rc_paper r = fh_paper h" "rc_content r = k_content c"
    by (rule retrieve_result [OF assms(3,4)])
  have "0 \<le> RRF_K" by (simp add: RRF_K_def)
  then obtain g where g: "g \<in> set dense \<union> set sparse" "h_chunk g = fh_chunk h" "h_paper g = fh_paper h"
    using fusion_from_hits [OF st(3) _ st(4)] by blast
  then have "hit_ok s db ?ps g"
    using dense_hit_ok [OF ok assms(2) _ st(1)] sparse_hit_ok [OF ok assms(2) _ st(2)] by blast
  moreover have c: "c \<in> set (db_chunks db)" "k_id c = fh_chunk h" using dget_load_chunks [OF st(5)] by simp_all
  ultimately have pc: "rc_paper r \<in> set ?ps" "k_paper c = rc_paper r"
    using g st(7) by (simp_all add: hit_ok_def)
  obtain p w where "p \<in> set (db_papers db)" "p_id p = rc_paper r" "w \<in> set (db_workspaces db)" "p_workspace p = w_id w"
      "w_owner w = user" "rf_paper_ids f \<noteq> [] \<longrightarrow> rc_paper r \<in> set (rf_paper_ids f)"
    using pc(1) by (auto simp: allowed_paper_ids_def resolve_workspace_ids_def Let_def split: if_splits)
  then show ?thesis using c pc(2) st(6,8)
    by (intro bexI [of _ p] bexI [of _ w] bexI [of _ c] conjI) simp_all
qed


text \<open>The year filters are never applied: two filters that differ only in \<open>year_from\<close> and
  \<open>year_to\<close> give the same answer, on every index and every database.\<close>

theorem year_filters_ignored:
  "retrieve ilike embedder search bm scoring db user query limit (f\<lparr>rf_year_from := a, rf_year_to := b\<rparr>) =
   retrieve ilike embedder search bm scoring db user query limit f"
proof -
  let ?g = "f\<lparr>rf_year_from := a, rf_year_to := b\<rparr>"
  have sel: "rf_paper_ids ?g = rf_paper_ids f" "rf_kinds ?g = rf_kinds f" "rf_sections ?g = rf_sections f"
    by simp_all
  have 1: "allowed_paper_ids db user ?g = allowed_paper_ids db user f" unfolding allowed_paper_ids_def sel ..
  have 2: "to_metadata_filters ?g = to_metadata_filters f" unfolding to_metadata_filters_def sel ..
  have 3: "load_chunks ilike db ids ?g = load_chunks ilike db ids f" for ids unfolding load_chunks_def sel ..
  show ?thesis unfolding retrieve_def 1 2 3 ..
qed

subsection \<open>The authorisation property at a concrete input\<close>

definition owned_db :: database where
  "owned_db = (one_db True)\<lparr>db_workspaces := [\<lparr>w_id = 3, w_owner = 5\<rparr>]\<rparr>"

lemma indexed_store: "m_records (i_store indexed) = [(1, chunk_record one_paper (one_chunk False, [1]))]"
  by (simp add: indexed_def index_paper_def fresh_index_def one_db_def get_paper_row_def one_paper_def one_chunk_def
      order_by_def batched_def index_batch_def open_mem_store_def put_records_def chunk_record_def Let_def)

lemma indexed_docs:
  "b_docs (i_bm indexed) = [(1, \<lparr>d_chunk = 1, d_paper = 7, d_length = 2, d_freqs = [(''deep'', 1), (''nets'', 1)],
     d_meta = sparse_meta one_paper (one_chunk False)\<rparr>)]"
  by (simp add: indexed_def index_paper_def fresh_index_def one_db_def get_paper_row_def one_paper_def one_chunk_def
      order_by_def batched_def index_batch_def add_chunk_def bm_add_def tokenize_sample empty_bm25_def
      remove_unlocked_def counter_def counter_add_def count_of_def Let_def)

lemma tokenize_zz: "tokenize ''zz'' = [''zz'']"
  by code_simp

lemma sentences_zz: "extract_supporting_sentences ''zz'' ''Deep nets'' 3 = []"
  by code_simp

lemma strip_zz: "strip ''zz'' = ''zz''"
  by code_simp

lemma owned_allowed: "allowed_paper_ids owned_db 5 no_filters = [7]"
  by (simp add: allowed_paper_ids_def resolve_workspace_ids_def owned_db_def one_db_def one_paper_def no_filters_def)

abbreviation "only_7 \<equiv> Some [(''paper_id'', str_ids [7])]"

lemma sample_dense: "mem_search [1] 20 only_7 (i_store indexed) = Inr [to_hit 1 (chunk_record one_paper (one_chunk False, [1]))]"
  by (simp add: mem_search_def indexed_store chunk_record_def matches_def matches_one_def str_ids_def py_in_def
      dense_meta_def sparse_meta_def one_paper_def dot_strict_def py_take_def sort_desc_def)

lemma sample_sparse: "bm_search BM25_K1 BM25_B ''zz'' 20 only_7 (i_bm indexed) = Inr []"
proof -
  have ok: "bm_ok (i_bm indexed)" using indexed_eq by simp
  obtain score where "bm_search BM25_K1 BM25_B ''zz'' 20 only_7 (i_bm indexed) = Inr (py_take 20 (sort_desc h_score
             (map (\<lambda>doc. doc_hit doc (score doc)) (filter (relevant ''zz'' only_7) (dvalues (b_docs (i_bm indexed)))))))"
    using bm_search_full [OF ok, of BM25_K1 BM25_B "''zz''" 20 only_7] by (auto simp: BM25_K1_def BM25_B_def)
  then show ?thesis by (simp add: indexed_docs relevant_def tokenize_zz has_term_def)
qed

definition sample_result :: retrieved_chunk where
  "sample_result = \<lparr>rc_chunk = 1, rc_paper = 7, rc_title = None, rc_content = ''Deep nets'', rc_section = None,
     rc_page = None, rc_kind = ''text'', rc_score = 1 / 61, rc_dense_rank = Some 1, rc_sparse_rank = None,
     rc_rerank_score = None, rc_sentences = []\<rparr>"

lemma sample_retrieve:
  "retrieve (\<lambda>_ _. True) (\<lambda>_. Inr [1]) (\<lambda>v n f. mem_search v n f (i_store indexed)) (i_bm indexed) None owned_db 5
     ''zz'' 5 no_filters = Inr [sample_result]"
proof -
  have mf: "dset ''paper_id'' (str_ids [7]) (to_metadata_filters no_filters) = [(''paper_id'', str_ids [7])]"
    by (simp add: to_metadata_filters_def no_filters_def)
  have n: "min MAX_CANDIDATES (max (5 * CANDIDATE_MULTIPLIER) 5) = 20"
    by (simp add: MAX_CANDIDATES_def CANDIDATE_MULTIPLIER_def)
  let ?h = "to_hit 1 (chunk_record one_paper (one_chunk False, [1]))"
  let ?f = "(new_fused ?h)\<lparr>fh_score := 1 / 61, fh_dense_rank := Some 1, fh_dense_score := Some 1\<rparr>"
  have fuse: "reciprocal_rank_fusion [?h] [] 20 RRF_K 1 1 = Inr [?f]"
    by (simp add: reciprocal_rank_fusion_def merge_hit_def RRF_K_def new_fused_def to_hit_def py_take_def sort_desc_def)
  have load: "load_chunks (\<lambda>_ _. True) owned_db [1] no_filters = [(1, (one_chunk True, None))]"
    by (simp add: load_chunks_def rebuild_rows_def owned_db_def one_db_def one_chunk_def one_paper_def no_filters_def dict_update_def)
  have c: "fh_chunk ?f = 1" by (simp add: new_fused_def to_hit_def chunk_record_def one_chunk_def)
  have res: "to_results [(1, (one_chunk True, None))] [?f] = [sample_result]"
    by (simp add: to_results_def c) (simp add: to_result_def new_fused_def to_hit_def chunk_record_def one_chunk_def
        one_paper_def sample_result_def)
  have "rc_content sample_result = ''Deep nets''" "sample_result\<lparr>rc_sentences := []\<rparr> = sample_result"
    by (simp_all add: sample_result_def)
  then show ?thesis
    unfolding retrieve_def Let_def owned_allowed mf n strip_zz
    by (simp add: sample_dense sample_sparse fuse c load res sentences_zz py_take_def)
qed


end
