(* ===== verification/Gateway.thy ===== *)
theory Gateway
  imports PyVal
begin

section \<open>The LLM gateway (llm/gateway.py)\<close>

text \<open>
  Messages, usage, completions; the retry loop of the HTTP providers over an arbitrary
  network; the request bodies, response parsers and stream parsers of the three vendors;
  the echo provider; and \<open>LLMGateway\<close> with its fallback and its usage account.

  A provider is a function of the state of the outside world, \<open>'w\<close>, which it may change: the
  network for the HTTP providers, the list of recorded calls for the echo provider.  A call
  answers a completion or an exception.  The locale \<open>llm_provider\<close> is the contract the gateway
  relies on; the HTTP and the echo providers interpret it.
\<close>

datatype role = SYSTEM | USER | ASSISTANT

definition role_value :: "role \<Rightarrow> string" where
  "role_value r = (case r of SYSTEM \<Rightarrow> ''system'' | USER \<Rightarrow> ''user'' | ASSISTANT \<Rightarrow> ''assistant'')"

record message =
  msg_role :: role
  msg_content :: string

definition as_dict :: "message \<Rightarrow> pyval" where
  "as_dict m = PyDict [(''role'', PyStr (role_value (msg_role m))), (''content'', PyStr (msg_content m))]"

record usage =
  prompt_tokens :: int
  completion_tokens :: int

definition total_tokens :: "usage \<Rightarrow> int" where
  "total_tokens u = prompt_tokens u + completion_tokens u"

definition no_usage :: usage where
  "no_usage = \<lparr>prompt_tokens = 0, completion_tokens = 0\<rparr>"

definition add_usage :: "usage \<Rightarrow> usage \<Rightarrow> usage" where
  "add_usage u v = \<lparr>prompt_tokens = prompt_tokens u + prompt_tokens v,
     completion_tokens = completion_tokens u + completion_tokens v\<rparr>"

record completion =
  c_text :: string
  c_model :: string
  c_provider :: string
  c_usage :: usage
  c_finish :: "string option"

definition was_truncated :: "completion \<Rightarrow> bool" where
  "was_truncated c \<longleftrightarrow> c_finish c \<in> {Some ''length'', Some ''max_tokens''}"

text \<open>\<open>LLMError\<close>, its subclass \<open>RateLimitError\<close>, and every other exception.\<close>

datatype llm_exn = LLMError string | RateLimitError string | OtherExn py_error

definition is_llm_error :: "llm_exn \<Rightarrow> bool" where
  "is_llm_error e \<longleftrightarrow> (case e of OtherExn _ \<Rightarrow> False | _ \<Rightarrow> True)"

record request =
  rq_messages :: "message list"
  rq_model :: "string option"
  rq_temperature :: real
  rq_max_tokens :: int

type_synonym 'w complete = "request \<Rightarrow> 'w \<Rightarrow> (llm_exn + completion) \<times> 'w"

record 'w provider =
  pr_name :: string
  pr_complete :: "'w complete"

subsection \<open>The retry loop of the HTTP providers\<close>

text \<open>What one POST meets: a transport failure, or a status, the body's text, and the JSON value
  of the body (or the exception of \<open>response.json()\<close>).\<close>

datatype http_outcome =
    TransportError string
  | Response nat string "pyval res"

text \<open>What distinguishes the vendors: their name, default model and parsers.\<close>

record vendor =
  vn_name :: string
  vn_default_model :: string
  vn_body :: "request \<Rightarrow> string \<Rightarrow> bool \<Rightarrow> pyval"
  vn_parse :: "string \<Rightarrow> pyval \<Rightarrow> completion res"
  vn_stream_chunk :: "pyval \<Rightarrow> pyval res"

datatype http_step = Finished completion | Raise llm_exn | Retry string

definition MAX_RETRIES :: nat where "MAX_RETRIES = 3"

text \<open>One pass of the \<open>try\<close> block with its handlers; the last case of the \<open>LLMError\<close> handler is a
  test on the text of the exception.\<close>

definition http_step_of :: "vendor \<Rightarrow> string \<Rightarrow> http_outcome \<Rightarrow> http_step" where
  "http_step_of vn model r =
     (let name = vn_name vn in
      case r of
        TransportError e \<Rightarrow> Retry e
      | Response status body payload \<Rightarrow>
          if status = 429 then Retry (name @ '' rate limited'')
          else if 400 \<le> status then
            let e = (if 500 \<le> status then name @ '' server error '' @ str_nat status
                     else name @ '' rejected the request ('' @ str_nat status @ ''): '' @ take 300 body) in
            if sublist ''server error'' e then Retry e else Raise (LLMError e)
          else (case bind_res payload (vn_parse vn model) of Inl e \<Rightarrow> Raise (OtherExn e) | Inr c \<Rightarrow> Finished c))"

fun http_loop ::
    "vendor \<Rightarrow> string \<Rightarrow> ('w \<Rightarrow> http_outcome \<times> 'w) \<Rightarrow> nat \<Rightarrow> string \<Rightarrow> 'w \<Rightarrow> (llm_exn + completion) \<times> 'w" where
  "http_loop vn model post 0 last_error w =
     (Inl (LLMError (vn_name vn @ '' failed after '' @ str_nat MAX_RETRIES @ '' attempts: '' @ last_error)), w)"
| "http_loop vn model post (Suc left) last_error w =
     (let (r, w1) = post w in
      case http_step_of vn model r of
        Finished c \<Rightarrow> (Inr c, w1)
      | Raise e \<Rightarrow> (Inl e, w1)
      | Retry e \<Rightarrow> http_loop vn model post left e w1)"

text \<open>\<open>_HttpProvider.complete\<close>: the request's model or the provider's, the vendor's body, the loop.\<close>

definition http_provider :: "vendor \<Rightarrow> string option \<Rightarrow> (pyval \<Rightarrow> 'w \<Rightarrow> http_outcome \<times> 'w) \<Rightarrow> 'w provider" where
  "http_provider vn configured post =
     (let own = (case configured of Some m \<Rightarrow> if m = [] then vn_default_model vn else m | None \<Rightarrow> vn_default_model vn) in
      \<lparr>pr_name = vn_name vn,
       pr_complete = (\<lambda>rq.
         let model = (case rq_model rq of Some m \<Rightarrow> if m = [] then own else m | None \<Rightarrow> own) in
         http_loop vn own (post (vn_body vn rq model False)) MAX_RETRIES [])\<rparr>)"

subsection \<open>The vendors\<close>

definition body_messages :: "message list \<Rightarrow> pyval" where
  "body_messages ms = PyList (map as_dict ms)"

definition system_text :: "message list \<Rightarrow> string" where
  "system_text ms = join [CHR 0x0A, CHR 0x0A] (map msg_content (filter (\<lambda>m. msg_role m = SYSTEM) ms))"

definition mk_usage :: "string \<Rightarrow> string \<Rightarrow> pyval \<Rightarrow> usage res" where
  "mk_usage p c u =
     bind_res (bind_res (jget p (PyInt 0) u) as_int) (\<lambda>pt.
     bind_res (bind_res (jget c (PyInt 0) u) as_int) (\<lambda>ct.
     Inr \<lparr>prompt_tokens = pt, completion_tokens = ct\<rparr>))"

definition openai_body :: "request \<Rightarrow> string \<Rightarrow> bool \<Rightarrow> pyval" where
  "openai_body rq model stream =
     PyDict [(''model'', PyStr model), (''messages'', body_messages (rq_messages rq)),
       (''temperature'', PyFloat (Fin (rq_temperature rq))), (''max_tokens'', PyInt (rq_max_tokens rq)),
       (''stream'', PyBool stream)]"

definition openai_parse :: "string \<Rightarrow> pyval \<Rightarrow> completion res" where
  "openai_parse own payload =
     bind_res (bind_res (jkey ''choices'' payload) jfirst) (\<lambda>choice.
     bind_res (jget ''usage'' (PyDict []) payload) (\<lambda>u.
     bind_res (bind_res (bind_res (jkey ''message'' choice) (jkey ''content'')) (\<lambda>c. as_str (py_or c (PyStr [])))) (\<lambda>s.
     bind_res (bind_res (jget ''model'' (PyStr own) payload) as_str) (\<lambda>model.
     bind_res (bind_res (jget ''finish_reason'' PyNone choice) as_opt_str) (\<lambda>fin.
     bind_res (mk_usage ''prompt_tokens'' ''completion_tokens'' u) (\<lambda>us.
     Inr \<lparr>c_text = s, c_model = model, c_provider = ''openai'', c_usage = us, c_finish = fin\<rparr>))))))"

definition openai_stream_chunk :: "pyval \<Rightarrow> pyval res" where
  "openai_stream_chunk data =
     bind_res (jget ''choices'' PyNone data) (\<lambda>cs.
       let choices = py_or cs (PyList []) in
       if \<not> truthy choices then Inr PyNone
       else bind_res (jfirst choices) (\<lambda>c. bind_res (jget ''delta'' (PyDict []) c) (jget ''content'' PyNone)))"

definition anthropic_body :: "request \<Rightarrow> string \<Rightarrow> bool \<Rightarrow> pyval" where
  "anthropic_body rq model stream =
     (let sys = system_text (rq_messages rq) in
      PyDict ([(''model'', PyStr model),
        (''messages'', body_messages (filter (\<lambda>m. msg_role m \<noteq> SYSTEM) (rq_messages rq))),
        (''temperature'', PyFloat (Fin (rq_temperature rq))), (''max_tokens'', PyInt (rq_max_tokens rq)),
        (''stream'', PyBool stream)] @ (if sys = [] then [] else [(''system'', PyStr sys)])))"

text \<open>The text of the blocks of type \<open>text\<close>, joined.\<close>

definition block_text :: "pyval \<Rightarrow> string res" where
  "block_text b =
     bind_res (jget ''type'' PyNone b) (\<lambda>t.
       if py_eq t (PyStr ''text'') then bind_res (jget ''text'' (PyStr []) b) as_str else Inr [])"

definition anthropic_parse :: "string \<Rightarrow> pyval \<Rightarrow> completion res" where
  "anthropic_parse own payload =
     bind_res (bind_res (jget ''content'' PyNone payload) (\<lambda>b. as_list (py_or b (PyList [])))) (\<lambda>blocks.
     bind_res (mapM block_text blocks) (\<lambda>ss.
     bind_res (jget ''usage'' (PyDict []) payload) (\<lambda>u.
     bind_res (bind_res (jget ''model'' (PyStr own) payload) as_str) (\<lambda>model.
     bind_res (bind_res (jget ''stop_reason'' PyNone payload) as_opt_str) (\<lambda>fin.
     bind_res (mk_usage ''input_tokens'' ''output_tokens'' u) (\<lambda>us.
     Inr \<lparr>c_text = concat ss, c_model = model, c_provider = ''anthropic'', c_usage = us, c_finish = fin\<rparr>))))))"

definition anthropic_stream_chunk :: "pyval \<Rightarrow> pyval res" where
  "anthropic_stream_chunk data =
     bind_res (jget ''type'' PyNone data) (\<lambda>t.
       if py_eq t (PyStr ''content_block_delta'')
       then bind_res (jget ''delta'' (PyDict []) data) (jget ''text'' PyNone)
       else Inr PyNone)"

definition gemini_content :: "message \<Rightarrow> pyval" where
  "gemini_content m =
     PyDict [(''role'', PyStr (if msg_role m = USER then ''user'' else ''model'')),
       (''parts'', PyList [PyDict [(''text'', PyStr (msg_content m))]])]"

definition gemini_body :: "request \<Rightarrow> string \<Rightarrow> bool \<Rightarrow> pyval" where
  "gemini_body rq model stream =
     (let sys = system_text (rq_messages rq) in
      PyDict ([(''contents'', PyList (map gemini_content (filter (\<lambda>m. msg_role m \<noteq> SYSTEM) (rq_messages rq)))),
        (''generationConfig'', PyDict [(''temperature'', PyFloat (Fin (rq_temperature rq))),
           (''maxOutputTokens'', PyInt (rq_max_tokens rq))])]
        @ (if sys = [] then []
           else [(''systemInstruction'', PyDict [(''parts'', PyList [PyDict [(''text'', PyStr sys)]])])])))"

definition gemini_text :: "pyval \<Rightarrow> string res" where
  "gemini_text candidate =
     bind_res (bind_res (bind_res (jget ''content'' (PyDict []) candidate) (jget ''parts'' (PyList []))) as_list) (\<lambda>parts.
     bind_res (mapM (\<lambda>p. bind_res (jget ''text'' (PyStr []) p) as_str) parts) (\<lambda>ss. Inr (concat ss)))"

definition gemini_parse :: "string \<Rightarrow> pyval \<Rightarrow> completion res" where
  "gemini_parse own payload =
     bind_res (jget ''candidates'' PyNone payload) (\<lambda>cs.
     bind_res (if truthy cs then bind_res (jfirst cs) (\<lambda>c. bind_res (gemini_text c) (\<lambda>s.
                 bind_res (bind_res (jget ''finishReason'' PyNone c) as_opt_str) (\<lambda>fin. Inr (s, fin))))
               else Inr ([], None)) (\<lambda>(s, fin).
     bind_res (jget ''usageMetadata'' (PyDict []) payload) (\<lambda>u.
     bind_res (mk_usage ''promptTokenCount'' ''candidatesTokenCount'' u) (\<lambda>us.
     Inr \<lparr>c_text = s, c_model = own, c_provider = ''gemini'', c_usage = us, c_finish = fin\<rparr>))))"

definition gemini_stream_chunk :: "pyval \<Rightarrow> pyval res" where
  "gemini_stream_chunk data =
     bind_res (jget ''candidates'' PyNone data) (\<lambda>cs.
       if \<not> truthy cs then Inr PyNone
       else bind_res (bind_res (jfirst cs) gemini_text) (\<lambda>s. Inr (py_or (PyStr s) PyNone)))"

definition openai :: vendor where
  "openai = \<lparr>vn_name = ''openai'', vn_default_model = ''gpt-4o-mini'', vn_body = openai_body,
     vn_parse = openai_parse, vn_stream_chunk = openai_stream_chunk\<rparr>"

definition anthropic :: vendor where
  "anthropic = \<lparr>vn_name = ''anthropic'', vn_default_model = ''claude-sonnet-4-5'', vn_body = anthropic_body,
     vn_parse = anthropic_parse, vn_stream_chunk = anthropic_stream_chunk\<rparr>"

definition gemini :: vendor where
  "gemini = \<lparr>vn_name = ''gemini'', vn_default_model = ''gemini-2.0-flash'', vn_body = gemini_body,
     vn_parse = gemini_parse, vn_stream_chunk = gemini_stream_chunk\<rparr>"

text \<open>
  \<open>_HttpProvider.stream\<close> on an open response: the text pieces of the \<open>data:\<close> lines, with
  \<open>json.loads\<close> as a parameter; lines that do not parse are skipped.
\<close>

fun stream_lines :: "vendor \<Rightarrow> (string \<Rightarrow> pyval option) \<Rightarrow> string list \<Rightarrow> string list res" where
  "stream_lines vn loads [] = Inr []"
| "stream_lines vn loads (line # ls) =
     (let payload = strip (drop 5 line) in
      if take 5 line \<noteq> ''data:'' \<or> payload = [] \<or> payload = ''[DONE]'' then stream_lines vn loads ls
      else (case loads payload of
              None \<Rightarrow> stream_lines vn loads ls
            | Some chunk \<Rightarrow>
                bind_res (vn_stream_chunk vn chunk) (\<lambda>t.
                  if \<not> truthy t then stream_lines vn loads ls
                  else bind_res (as_str t) (\<lambda>s. bind_res (stream_lines vn loads ls) (\<lambda>ss. Inr (s # ss))))))"

definition http_stream :: "vendor \<Rightarrow> (string \<Rightarrow> pyval option) \<Rightarrow> nat \<Rightarrow> string \<Rightarrow> string list \<Rightarrow> llm_exn + string list" where
  "http_stream vn loads status body ls =
     (if 400 \<le> status
      then Inl (LLMError (vn_name vn @ '' streaming failed ('' @ str_nat status @ ''): '' @ take 300 body))
      else (case stream_lines vn loads ls of Inl e \<Rightarrow> Inl (OtherExn e) | Inr ss \<Rightarrow> Inr ss))"

subsection \<open>The echo provider\<close>

definition echo_respond :: "string option \<Rightarrow> message list \<Rightarrow> string" where
  "echo_respond canned ms =
     (case canned of
        Some s \<Rightarrow> s
      | None \<Rightarrow> ''[echo] '' @ take 500 (case find (\<lambda>m. msg_role m = USER) (rev ms) of
                                         None \<Rightarrow> [] | Some m \<Rightarrow> msg_content m))"

definition echo_completion :: "string option \<Rightarrow> request \<Rightarrow> completion" where
  "echo_completion canned rq =
     (let s = echo_respond canned (rq_messages rq) in
      \<lparr>c_text = s,
       c_model = (case rq_model rq of Some m \<Rightarrow> if m = [] then ''echo-1'' else m | None \<Rightarrow> ''echo-1''),
       c_provider = ''echo'',
       c_usage = \<lparr>prompt_tokens = sum_list (map (\<lambda>m. int (length (msg_content m))) (rq_messages rq)) div 4,
                  completion_tokens = int (length s) div 4\<rparr>,
       c_finish = Some ''stop''\<rparr>)"

definition echo_provider :: "string option \<Rightarrow> (message list list) provider" where
  "echo_provider canned =
     \<lparr>pr_name = ''echo'', pr_complete = (\<lambda>rq calls. (Inr (echo_completion canned rq), calls @ [rq_messages rq]))\<rparr>"

subsection \<open>The gateway\<close>

record 'w gateway =
  gw_primary :: "'w provider"
  gw_fallback :: "'w provider option"
  gw_total :: usage

text \<open>The fallback gets the same messages and limits, but never the requested model.\<close>

definition gateway_call :: "'w gateway \<Rightarrow> 'w complete" where
  "gateway_call g rq w =
     (case pr_complete (gw_primary g) rq w of
        (Inr c, w1) \<Rightarrow> (Inr c, w1)
      | (Inl e, w1) \<Rightarrow>
          if is_llm_error e
          then (case gw_fallback g of
                  None \<Rightarrow> (Inl e, w1)
                | Some f \<Rightarrow> pr_complete f (rq\<lparr>rq_model := None\<rparr>) w1)
          else (Inl e, w1))"

definition gateway_complete :: "request \<Rightarrow> 'w gateway \<times> 'w \<Rightarrow> (llm_exn + completion) \<times> 'w gateway \<times> 'w" where
  "gateway_complete rq gw =
     (case gateway_call (fst gw) rq (snd gw) of
        (Inl e, w1) \<Rightarrow> (Inl e, fst gw, w1)
      | (Inr c, w1) \<Rightarrow> (Inr c, (fst gw)\<lparr>gw_total := add_usage (gw_total (fst gw)) (c_usage c)\<rparr>, w1))"

text \<open>A run of requests, each from the gateway the last one left.\<close>

fun gateway_run :: "request list \<Rightarrow> 'w gateway \<times> 'w \<Rightarrow> (llm_exn + completion) list \<times> 'w gateway \<times> 'w" where
  "gateway_run [] gw = ([], gw)"
| "gateway_run (rq # rqs) gw =
     (let (r, gw1) = gateway_complete rq gw; (rs, gw2) = gateway_run rqs gw1 in (r # rs, gw2))"

subsection \<open>Building providers\<close>

datatype provider_kind = OpenAI | Anthropic | Gemini | Echo

definition build_provider :: "string \<Rightarrow> (provider_kind \<Rightarrow> string) \<Rightarrow> llm_exn + provider_kind" where
  "build_provider name api_key =
     (let n = lower name;
          http = (\<lambda>k. if api_key k = [] then Inl (LLMError ''requires an API key'') else Inr k) in
      if n = ''openai'' then http OpenAI
      else if n = ''anthropic'' then http Anthropic
      else if n = ''gemini'' then http Gemini
      else if n = ''echo'' then Inr Echo
      else Inl (LLMError ''Unknown LLM provider''))"

text \<open>\<open>get_gateway\<close>: built once; an unusable fallback is left out, an unusable primary raises.\<close>

definition get_gateway ::
    "string \<Rightarrow> string \<Rightarrow> (provider_kind \<Rightarrow> string) \<Rightarrow> (provider_kind \<times> provider_kind option) option
       \<Rightarrow> (llm_exn + provider_kind \<times> provider_kind option) \<times> (provider_kind \<times> provider_kind option) option" where
  "get_gateway primary fallback api_key cached =
     (case cached of
        Some g \<Rightarrow> (Inr g, cached)
      | None \<Rightarrow>
          (case build_provider primary api_key of
             Inl e \<Rightarrow> (Inl e, None)
           | Inr p \<Rightarrow>
               let f = (if fallback = [] then None
                        else (case build_provider fallback api_key of Inl _ \<Rightarrow> None | Inr f \<Rightarrow> Some f)) in
               (Inr (p, f), Some (p, f))))"

subsection \<open>What a call of an HTTP provider does\<close>

text \<open>The world after a number of requests, and what a request at that point meets.\<close>

definition after :: "('w \<Rightarrow> http_outcome \<times> 'w) \<Rightarrow> nat \<Rightarrow> 'w \<Rightarrow> 'w" where
  "after post n w = ((\<lambda>w. snd (post w)) ^^ n) w"

definition step_at :: "vendor \<Rightarrow> string \<Rightarrow> ('w \<Rightarrow> http_outcome \<times> 'w) \<Rightarrow> 'w \<Rightarrow> nat \<Rightarrow> http_step" where
  "step_at vn model post w i = http_step_of vn model (fst (post (after post i w)))"

definition retried :: "http_step \<Rightarrow> bool" where
  "retried st \<longleftrightarrow> (case st of Retry _ \<Rightarrow> True | _ \<Rightarrow> False)"

lemma after_simps: "after post 0 w = w" "after post (Suc n) w = after post n (snd (post w))"
  using funpow_swap1 [of "\<lambda>w. snd (post w)" n w] by (simp_all add: after_def)

lemma step_at_Suc: "step_at vn model post w (Suc i) = step_at vn model post (snd (post w)) i"
  by (simp add: step_at_def after_simps)

definition exhausted :: "vendor \<Rightarrow> llm_exn \<Rightarrow> bool" where
  "exhausted vn e \<longleftrightarrow> (\<exists>m. e = LLMError (vn_name vn @ '' failed after '' @ str_nat MAX_RETRIES @ '' attempts: '' @ m))"

lemma http_loop_spec:
  "\<exists>n \<le> left. snd (http_loop vn model post left m w) = after post n w
     \<and> (\<forall>i. i + 1 < n \<longrightarrow> retried (step_at vn model post w i))
     \<and> (case fst (http_loop vn model post left m w) of
          Inr c \<Rightarrow> 0 < n \<and> step_at vn model post w (n - 1) = Finished c
        | Inl e \<Rightarrow> 0 < n \<and> step_at vn model post w (n - 1) = Raise e
            \<or> n = left \<and> exhausted vn e \<and> (\<forall>i < n. retried (step_at vn model post w i)))"
proof (induction left arbitrary: m w)
  case 0
  then show ?case by (auto simp: after_simps exhausted_def)
next
  case (Suc left)
  obtain r w1 where p: "post w = (r, w1)" by (cases "post w")
  have st0: "step_at vn model post w 0 = http_step_of vn model r" by (simp add: step_at_def after_simps p)
  show ?case
  proof (cases "http_step_of vn model r")
    case (Finished c)
    then show ?thesis using p st0 by (intro exI [of _ 1]) (simp add: after_simps)
  next
    case (Raise e)
    then show ?thesis using p st0 by (intro exI [of _ 1]) (simp add: after_simps)
  next
    case (Retry e)
    obtain n where n: "n \<le> left" "snd (http_loop vn model post left e w1) = after post n w1"
        "\<forall>i. i + 1 < n \<longrightarrow> retried (step_at vn model post w1 i)"
        "case fst (http_loop vn model post left e w1) of
          Inr c \<Rightarrow> 0 < n \<and> step_at vn model post w1 (n - 1) = Finished c
        | Inl e \<Rightarrow> 0 < n \<and> step_at vn model post w1 (n - 1) = Raise e
            \<or> n = left \<and> exhausted vn e \<and> (\<forall>i < n. retried (step_at vn model post w1 i))"
      using Suc.IH [of e w1] by blast
    have r0: "retried (step_at vn model post w 0)" using Retry st0 by (simp add: retried_def)
    have sh: "step_at vn model post w (Suc i) = step_at vn model post w1 i" for i
      using step_at_Suc [of vn model post w i] p by simp
    have all: "\<forall>i < Suc k. retried (step_at vn model post w i)" if "\<forall>i < k. retried (step_at vn model post w1 i)" for k
      using that r0 sh by (auto simp: less_Suc_eq_0_disj)
    have loop: "http_loop vn model post (Suc left) m w = http_loop vn model post left e w1" using Retry p by simp
    show ?thesis
    proof (intro exI [of _ "Suc n"] conjI)
      show "Suc n \<le> Suc left" using n(1) by simp
      show "snd (http_loop vn model post (Suc left) m w) = after post (Suc n) w"
        using n(2) p by (simp only: loop after_simps snd_conv)
      show "\<forall>i. i + 1 < Suc n \<longrightarrow> retried (step_at vn model post w i)"
      proof (intro allI impI)
        fix i assume "i + 1 < Suc n"
        then show "retried (step_at vn model post w i)" using n(3) r0 sh by (cases i) simp_all
      qed
      show "case fst (http_loop vn model post (Suc left) m w) of
          Inr c \<Rightarrow> 0 < Suc n \<and> step_at vn model post w (Suc n - 1) = Finished c
        | Inl e \<Rightarrow> 0 < Suc n \<and> step_at vn model post w (Suc n - 1) = Raise e
            \<or> Suc n = Suc left \<and> exhausted vn e \<and> (\<forall>i < Suc n. retried (step_at vn model post w i))"
        unfolding loop using n(4) sh [of "n - 1"] all [of n] by (cases n) (auto split: sum.splits)
    qed
  qed
qed

lemma parse_provider:
  "openai_parse own v = Inr c \<Longrightarrow> c_provider c = ''openai''"
  "anthropic_parse own v = Inr c \<Longrightarrow> c_provider c = ''anthropic''"
  "gemini_parse own v = Inr c \<Longrightarrow> c_provider c = ''gemini''"
  by (auto simp: openai_parse_def anthropic_parse_def gemini_parse_def bind_res_Inr_conv split: prod.splits)

text \<open>The contract of a provider: completions carry its name, and a throttled request is never
  reported as such (it is retried and in the end an \<open>LLMError\<close>).\<close>

definition provider_law :: "'w provider \<Rightarrow> bool" where
  "provider_law p \<longleftrightarrow> (\<forall>rq w. case fst (pr_complete p rq w) of
     Inr c \<Rightarrow> c_provider c = pr_name p
   | Inl e \<Rightarrow> (case e of RateLimitError _ \<Rightarrow> False | _ \<Rightarrow> True))"

locale llm_provider =
  fixes provider :: "'w provider"
  assumes named: "fst (pr_complete provider rq w) = Inr c \<Longrightarrow> c_provider c = pr_name provider"
    and no_rate_limit: "fst (pr_complete provider rq w) \<noteq> Inl (RateLimitError m)"
begin

lemma law: "provider_law provider"
  using named no_rate_limit unfolding provider_law_def by (auto split: sum.splits llm_exn.splits)

text \<open>A gateway with this primary and no fallback passes its completions and its errors on.\<close>

lemma alone_named:
  assumes "gw_primary g = provider" "gw_fallback g = None" "fst (gateway_complete rq (g, w)) = Inr c"
  shows "c_provider c = pr_name provider"
  using assms named [of rq w c]
  by (auto simp: gateway_complete_def gateway_call_def split: prod.splits sum.splits if_splits)

end

definition vendors :: "vendor list" where
  "vendors = [openai, anthropic, gemini]"

lemma http_step_finished:
  "vn \<in> set vendors \<Longrightarrow> http_step_of vn own r = Finished c \<Longrightarrow> c_provider c = vn_name vn"
  by (auto simp: http_step_of_def Let_def vendors_def openai_def anthropic_def gemini_def
      dest!: parse_provider split: http_outcome.splits if_splits sum.splits simp: bind_res_Inr_conv)

lemma http_step_raise: "http_step_of vn own r \<noteq> Raise (RateLimitError m)"
  by (auto simp: http_step_of_def Let_def split: http_outcome.splits if_splits sum.splits)

lemma http_provider_laws:
  assumes "vn \<in> set vendors"
  shows "fst (pr_complete (http_provider vn configured post) rq w) = Inr c \<Longrightarrow> c_provider c = pr_name (http_provider vn configured post)"
    and "fst (pr_complete (http_provider vn configured post) rq w) \<noteq> Inl (RateLimitError m)"
proof -
  define own where "own = (case configured of Some m \<Rightarrow> if m = [] then vn_default_model vn else m | None \<Rightarrow> vn_default_model vn)"
  define model where "model = (case rq_model rq of Some m \<Rightarrow> if m = [] then own else m | None \<Rightarrow> own)"
  have call: "pr_complete (http_provider vn configured post) rq w =
      http_loop vn own (post (vn_body vn rq model False)) MAX_RETRIES [] w"
    unfolding model_def own_def by (simp add: http_provider_def Let_def)
  note spec = http_loop_spec [of MAX_RETRIES vn own "post (vn_body vn rq model False)" "[]" w]
  show "c_provider c = pr_name (http_provider vn configured post)"
    if "fst (pr_complete (http_provider vn configured post) rq w) = Inr c"
    using spec that http_step_finished [OF assms]
    by (auto simp: call step_at_def) (simp add: http_provider_def Let_def)
  show "fst (pr_complete (http_provider vn configured post) rq w) \<noteq> Inl (RateLimitError m)"
    using spec http_step_raise by (auto simp: call step_at_def exhausted_def split: sum.splits)
qed

interpretation openai: llm_provider "http_provider openai configured post" for configured post
  by unfold_locales (rule http_provider_laws; simp add: vendors_def)+

interpretation anthropic: llm_provider "http_provider anthropic configured post" for configured post
  by unfold_locales (rule http_provider_laws; simp add: vendors_def)+

interpretation gemini: llm_provider "http_provider gemini configured post" for configured post
  by unfold_locales (rule http_provider_laws; simp add: vendors_def)+

interpretation echo: llm_provider "echo_provider canned" for canned
  by unfold_locales (simp_all add: echo_provider_def echo_completion_def Let_def)

subsection \<open>Properties of the gateway\<close>

text \<open>A call of an HTTP provider makes at most three requests.  Every request but the last
  met a condition the loop retries; the answer is the parsed completion of the last
  request, or the exception its response raises, or, after three retried requests, the
  \<open>LLMError\<close> of an exhausted loop.\<close>

theorem http_retry_bounded:
  "\<exists>n \<le> 3. snd (http_loop vn model post MAX_RETRIES m w) = after post n w
     \<and> (\<forall>i. i + 1 < n \<longrightarrow> retried (step_at vn model post w i))
     \<and> (case fst (http_loop vn model post MAX_RETRIES m w) of
          Inr c \<Rightarrow> 0 < n \<and> step_at vn model post w (n - 1) = Finished c
        | Inl e \<Rightarrow> 0 < n \<and> step_at vn model post w (n - 1) = Raise e
            \<or> n = 3 \<and> exhausted vn e \<and> (\<forall>i < n. retried (step_at vn model post w i)))"
  unfolding MAX_RETRIES_def by (rule http_loop_spec)

lemma total_add [simp]: "total_tokens (add_usage u v) = total_tokens u + total_tokens v"
  by (simp add: total_tokens_def add_usage_def)

lemma total_foldl: "total_tokens (foldl add_usage u us) = total_tokens u + sum_list (map total_tokens us)"
  by (induction us arbitrary: u) simp_all

definition successes :: "(llm_exn + completion) list \<Rightarrow> completion list" where
  "successes rs = concat (map (\<lambda>r. case r of Inr c \<Rightarrow> [c] | Inl _ \<Rightarrow> []) rs)"

lemma successes_simps [simp]:
  "successes [] = []" "successes (Inr c # rs) = c # successes rs" "successes (Inl e # rs) = successes rs"
  by (simp_all add: successes_def)

lemma gateway_complete_total:
  "gateway_complete rq (g, w) = (r, g1, w1) \<Longrightarrow>
   gw_primary g1 = gw_primary g \<and> gw_fallback g1 = gw_fallback g
   \<and> gw_total g1 = (case r of Inr c \<Rightarrow> add_usage (gw_total g) (c_usage c) | Inl _ \<Rightarrow> gw_total g)"
  by (auto simp: gateway_complete_def split: prod.splits sum.splits)

lemma gateway_run_total:
  "gw_total (fst (snd (gateway_run rqs (g, w)))) =
     foldl add_usage (gw_total g) (map c_usage (successes (fst (gateway_run rqs (g, w)))))"
proof (induction rqs arbitrary: g w)
  case (Cons rq rqs)
  obtain r g1 w1 where 1: "gateway_complete rq (g, w) = (r, g1, w1)" by (cases "gateway_complete rq (g, w)")
  obtain rs g2 w2 where 2: "gateway_run rqs (g1, w1) = (rs, g2, w2)" by (cases "gateway_run rqs (g1, w1)")
  have run: "gateway_run (rq # rqs) (g, w) = (r # rs, g2, w2)" using 1 2 by simp
  show ?case
    using Cons.IH [of g1 w1] gateway_complete_total [OF 1] unfolding run
    by (cases r) (simp_all add: 2)
qed simp

text \<open>Usage accounting: after any run of requests, whatever the providers did, the gateway's
  total is the sum of the usages of the completions it returned, each counted once, and a
  failed request adds nothing.\<close>

theorem gateway_usage_exact:
  "gw_total (fst (snd (gateway_run rqs (g, w)))) =
     foldl add_usage (gw_total g) (map c_usage (successes (fst (gateway_run rqs (g, w)))))
   \<and> total_tokens (gw_total (fst (snd (gateway_run rqs (g, w))))) =
     total_tokens (gw_total g) + sum_list (map (\<lambda>c. total_tokens (c_usage c)) (successes (fst (gateway_run rqs (g, w)))))"
proof -
  have "gw_total (fst (snd (gateway_run rqs (g, w)))) =
      foldl add_usage (gw_total g) (map c_usage (successes (fst (gateway_run rqs (g, w)))))"
    by (rule gateway_run_total)
  then show ?thesis by (simp add: total_foldl comp_def)
qed

definition rejecting :: "message list list provider" where
  "rejecting = http_provider openai None (\<lambda>body calls. (Response 400 ''invalid request'' (Inr PyNone), calls))"

lemma rejecting_complete:
  "pr_complete rejecting rq w =
     (Inl (LLMError (''openai rejected the request (400): '' @ take 300 ''invalid request'')), w)"
proof -
  have s: "str_nat 400 = ''400''" by code_simp
  have n: "\<not> sublist ''server error'' (''openai rejected the request (400): '' @ take 300 ''invalid request'')"
    by code_simp
  have "http_step_of openai own (Response 400 ''invalid request'' (Inr PyNone)) =
      Raise (LLMError (''openai rejected the request (400): '' @ take 300 ''invalid request''))" for own
    using n by (simp add: http_step_of_def openai_def s)
  then show ?thesis by (simp add: rejecting_def http_provider_def MAX_RETRIES_def numeral_3_eq_3)
qed

definition two_tier :: "message list list gateway" where
  "two_tier = \<lparr>gw_primary = rejecting, gw_fallback = Some (echo_provider None), gw_total = no_usage\<rparr>"

text \<open>The gateway does fall back on a 4xx, contrary to its docstring: a primary that rejects
  the request with 400 leads to the fallback's completion.  And a 4xx whose body contains
  the words ``server error'' is retried, contrary to the comment beside the status test.\<close>

theorem gateway_falls_back_on_4xx:
  "fst (gateway_complete rq (two_tier, [])) = Inr (echo_completion None (rq\<lparr>rq_model := None\<rparr>))
   \<and> retried (http_step_of openai ''gpt-4o-mini'' (Response 422 ''upstream server error'' (Inr PyNone)))"
proof
  have s: "str_nat 400 = ''400''" "str_nat 422 = ''422''" by code_simp+
  have y: "sublist ''server error'' (''openai rejected the request (422): '' @ take 300 ''upstream server error'')"
    by code_simp
  show "fst (gateway_complete rq (two_tier, [])) = Inr (echo_completion None (rq\<lparr>rq_model := None\<rparr>))"
    by (simp add: rejecting_complete gateway_complete_def gateway_call_def two_tier_def is_llm_error_def echo_provider_def)
  show "retried (http_step_of openai ''gpt-4o-mini'' (Response 422 ''upstream server error'' (Inr PyNone)))"
    using y by (simp add: http_step_of_def openai_def s retried_def)
qed

lemma after_timeouts: "after (\<lambda>w. (TransportError ''timeout'', Suc w)) n k = k + n"
  by (induction n arbitrary: k) (simp_all add: after_simps)

lemma http_retry_bounded_witness:
  "snd (http_loop openai ''m'' (\<lambda>w. (TransportError ''timeout'', Suc w)) MAX_RETRIES [] 0) \<le> 3"
  using http_retry_bounded [of openai "''m''" "\<lambda>w. (TransportError ''timeout'', Suc w)" "[]" 0]
  by (auto simp: after_timeouts)

end
