(* ===== verification/Prompts.thy ===== *)
theory Prompts
  imports Regex
begin

section \<open>The prompt registry (llm/prompts.py)\<close>

text \<open>
  The prompts as the code has them, \<open>str.format\<close> on keyword fields, and the registry.  A
  template is read once, from left to right: a doubled brace is a brace, \<open>{name}\<close> a field; the
  values are inserted as they are and not read again.  Format specifications and attribute
  access inside a field are not represented, no template has them.
\<close>

subsection \<open>str.format\<close>

datatype piece = Plain char | Field string | Malformed string

definition OPEN :: char where "OPEN = CHR ''{''"
definition CLOSE :: char where "CLOSE = CHR ''}''"

lemma dropWhile_shorter: "dropWhile P xs = y # ys \<Longrightarrow> length ys < length xs"
  by (metis length_Cons length_dropWhile_le Suc_le_lessD)

function pieces :: "string \<Rightarrow> piece list" where
  "pieces [] = []"
| "pieces (c # cs) =
     (if c = OPEN then
        (if next_is (\<lambda>d. d = OPEN) cs then Plain OPEN # pieces (tl cs)
         else (case dropWhile (\<lambda>d. d \<noteq> CLOSE) cs of
                 [] \<Rightarrow> [Malformed ''expected a closing brace before end of string'']
               | _ # after \<Rightarrow> Field (takeWhile (\<lambda>d. d \<noteq> CLOSE) cs) # pieces after))
      else if c = CLOSE then
        (if next_is (\<lambda>d. d = CLOSE) cs then Plain CLOSE # pieces (tl cs)
         else [Malformed ''Single closing brace encountered in format string''])
      else Plain c # pieces cs)"
  by pat_completeness auto
termination
  by (relation "measure length")
     (auto dest!: dropWhile_shorter intro: le_less_trans [OF diff_le_self])

declare pieces.simps(2) [simp del]

definition expand :: "(string, string) dict \<Rightarrow> piece \<Rightarrow> string res" where
  "expand kw p =
     (case p of
        Plain c \<Rightarrow> Inr [c]
      | Field n \<Rightarrow> (case dget kw n of None \<Rightarrow> Inl KeyError | Some v \<Rightarrow> Inr v)
      | Malformed e \<Rightarrow> Inl (ValueError e))"

definition py_format :: "string \<Rightarrow> (string, string) dict \<Rightarrow> string res" where
  "py_format template kw = bind_res (mapM (expand kw) (pieces template)) (\<lambda>ss. Inr (concat ss))"

record prompt =
  pt_name :: string
  pt_system :: string
  pt_template :: string

definition render :: "prompt \<Rightarrow> (string, string) dict \<Rightarrow> string res" where
  "render p kw = py_format (pt_template p) kw"

definition text_lines :: "string list \<Rightarrow> string" where
  "text_lines = join [CHR 0x0A]"

subsection \<open>The prompts\<close>

definition RAG_ANSWER :: prompt where
  "RAG_ANSWER =
     \<lparr>pt_name = ''rag_answer'',
      pt_system = text_lines
        [''You are a research assistant answering questions about scientific papers.'',
         [],
         ''Rules:'',
         ''- Answer ONLY from the provided sources. Do not use outside knowledge.'',
         ''- Cite every claim with the bracketed source number, e.g. [1] or [2][3].'',
         ''- If the sources do not contain the answer, say so plainly and explain what is ''
          @ ''missing. Never guess.'',
         ''- Quote exact numbers, metric names, and dataset names as they appear.'',
         ''- Prefer precision over completeness. A short, fully supported answer is better than ''
          @ ''a long, partly speculative one.''],
      pt_template = text_lines
        [''Sources:'',
         ''{sources}'',
         [],
         ''Question: {question}'',
         [],
         ''Answer the question using only the sources above, citing each claim.'']\<rparr>"

definition GRADE_RETRIEVAL :: prompt where
  "GRADE_RETRIEVAL =
     \<lparr>pt_name = ''grade_retrieval'',
      pt_system = text_lines
        [''You judge whether retrieved sources are sufficient to answer a question.'',
         ''Respond with strict JSON only, no prose, no code fences:'',
         ''{\"sufficient\": true|false, \"reason\": \"<one sentence>\", \"missing\": \"<what else is ''
          @ ''needed, or empty string>\"}''],
      pt_template = text_lines
        [''Question: {question}'',
         [],
         ''Sources:'',
         ''{sources}'',
         [],
         ''Are these sufficient?'']\<rparr>"

definition REWRITE_QUERY :: prompt where
  "REWRITE_QUERY =
     \<lparr>pt_name = ''rewrite_query'',
      pt_system = text_lines
        [''You rewrite search queries to improve retrieval over a corpus of scientific papers.'',
         ''Return ONLY the rewritten query text, with no preamble or quotes.'',
         ''Prefer specific technical terms, method names, dataset names, and metric names over ''
          @ ''general phrasing.''],
      pt_template = text_lines
        [''Original question: {question}'',
         ''What was missing from the first attempt: {missing}'',
         [],
         ''Rewritten search query:'']\<rparr>"

definition VERIFY_ANSWER :: prompt where
  "VERIFY_ANSWER =
     \<lparr>pt_name = ''verify_answer'',
      pt_system = text_lines
        [''You verify whether an answer is fully supported by its sources.'',
         ''Check each claim against the sources. A claim is unsupported if the sources do not ''
          @ ''state it, even if it is plausible or generally true.'',
         ''Respond with strict JSON only, no prose, no code fences:'',
         ''{\"supported\": true|false, \"confidence\": 0.0-1.0, \"unsupported_claims\": [\"...\"], ''
          @ ''\"reason\": \"<one sentence>\"}''],
      pt_template = text_lines
        [''Question: {question}'',
         [],
         ''Sources:'',
         ''{sources}'',
         [],
         ''Answer:'',
         ''{answer}'']\<rparr>"

definition COMPRESS_CONTEXT :: prompt where
  "COMPRESS_CONTEXT =
     \<lparr>pt_name = ''compress_context'',
      pt_system = text_lines
        [''You compress source passages while preserving everything needed to answer a specific ''
          @ ''question.'',
         ''Keep exact numbers, metric names, dataset names, model names, and stated limitations ''
          @ ''verbatim. Drop background and unrelated detail.'',
         ''Return only the compressed passage.''],
      pt_template = text_lines
        [''Question: {question}'',
         [],
         ''Passage:'',
         ''{passage}'',
         [],
         ''Compressed passage:'']\<rparr>"

definition EXTRACT_ENTITIES :: prompt where
  "EXTRACT_ENTITIES =
     \<lparr>pt_name = ''extract_entities'',
      pt_system = text_lines
        [''You extract a knowledge graph from scientific text.'',
         ''Only use the entity types and relation types you are given. Never invent a type. Only ''
          @ ''extract what the text actually states; if a relation is implied but not stated, leave ''
          @ ''it out.'',
         ''Use the entity name exactly as written in the text.'',
         ''Respond with strict JSON only, no prose, no code fences:'',
         ''{\"entities\": [{\"type\": \"...\", \"name\": \"...\", \"confidence\": 0.0-1.0, \"evidence\": ''
          @ ''\"<quote>\"}], \"relations\": [{\"type\": \"...\", \"source\": \"...\", \"target\": \"...\", ''
          @ ''\"confidence\": 0.0-1.0}]}''],
      pt_template = text_lines
        [''Paper: {paper_title}'',
         ''Entity types: {labels}'',
         ''Relation types: {relations}'',
         [],
         ''Text:'',
         ''{text}'',
         [],
         ''Extraction:'']\<rparr>"

definition NL_TO_CYPHER :: prompt where
  "NL_TO_CYPHER =
     \<lparr>pt_name = ''nl_to_cypher'',
      pt_system = text_lines
        [''You translate questions into read-only Cypher for a research knowledge graph.'',
         ''Rules:'',
         ''- Use only the labels, relationship types, and properties in the schema.'',
         ''- Read-only: MATCH, OPTIONAL MATCH, WHERE, WITH, RETURN, ORDER BY, LIMIT.'',
         ''- Never write CREATE, MERGE, SET, DELETE, REMOVE, LOAD, or CALL.'',
         ''- Always end with a LIMIT clause.'',
         ''- Node keys are lowercase; compare against lowercase literals.'',
         ''Return only the Cypher query, nothing else.''],
      pt_template = text_lines
        [''Schema:'',
         ''{schema}'',
         [],
         ''Question: {question}'',
         [],
         ''Cypher:'']\<rparr>"

definition COMPARE_CLAIMS :: prompt where
  "COMPARE_CLAIMS =
     \<lparr>pt_name = ''compare_claims'',
      pt_system = text_lines
        [''You judge whether two statements from different papers agree, contradict, or are ''
          @ ''unrelated.'',
         ''Contradiction requires that both statements are about the same thing and cannot both ''
          @ ''be true. Different results on different datasets or under different settings are not ''
          @ ''a contradiction.'',
         ''Respond with strict JSON only, no prose, no code fences:'',
         ''{\"relation\": \"agreement\"|\"contradiction\"|\"unrelated\", \"confidence\": 0.0-1.0, ''
          @ ''\"reason\": \"<one sentence>\"}''],
      pt_template = text_lines
        [''Statement A ({paper_a}):'',
         ''{claim_a}'',
         [],
         ''Statement B ({paper_b}):'',
         ''{claim_b}'',
         [],
         ''Judgement:'']\<rparr>"

definition EXTRACT_EXPERIMENTS :: prompt where
  "EXTRACT_EXPERIMENTS =
     \<lparr>pt_name = ''extract_experiments'',
      pt_system = text_lines
        [''You extract reported experimental results from scientific text.'',
         ''One record per (model, dataset, metric) triple that has a number attached. Do not ''
          @ ''extract targets, hypotheses, or numbers from related work unless they are attributed ''
          @ ''to a named model.'',
         ''Values are plain numbers, with any unit reported separately.'',
         ''Respond with strict JSON only, no prose, no code fences:'',
         ''{\"results\": [{\"model\": \"...\", \"dataset\": \"...\", \"task\": \"...\", \"metric\": \"...\", ''
          @ ''\"value\": 0.0, \"unit\": \"...\", \"split\": \"...\", \"confidence\": 0.0-1.0}]}''],
      pt_template = text_lines
        [''Paper: {paper_title}'',
         [],
         ''Text:'',
         ''{text}'',
         [],
         ''Results:'']\<rparr>"

definition EXTRACT_METHODOLOGY :: prompt where
  "EXTRACT_METHODOLOGY =
     \<lparr>pt_name = ''extract_methodology'',
      pt_system = text_lines
        [''You summarize the methodology of a paper in a fixed structure.'',
         ''Use only what the text states; write 'not stated' for anything absent.'',
         ''Respond with strict JSON only, no prose, no code fences:'',
         ''{\"approach\": \"...\", \"architecture\": \"...\", \"training\": \"...\", \"hyperparameters\": ''
          @ ''[{\"name\": \"...\", \"value\": \"...\"}], \"limitations\": [\"...\"]}''],
      pt_template = text_lines
        [''Paper: {paper_title}'',
         [],
         ''Text:'',
         ''{text}'',
         [],
         ''Methodology:'']\<rparr>"

definition SYNTHESIZE_TREND :: prompt where
  "SYNTHESIZE_TREND =
     \<lparr>pt_name = ''synthesize_trend'',
      pt_system = text_lines
        [''You describe how a research area changed over time, based only on the supplied ''
          @ ''per-year evidence.'',
         ''Be concrete: name the shift, when it happened, and what drove it. Do not speculate ''
          @ ''beyond the evidence. Three sentences maximum.''],
      pt_template = text_lines
        [''Topic: {topic}'',
         [],
         ''Evidence by year:'',
         ''{evidence}'',
         [],
         ''Trend:'']\<rparr>"

definition REVIEW_OUTLINE :: prompt where
  "REVIEW_OUTLINE =
     \<lparr>pt_name = ''review_outline'',
      pt_system = text_lines
        [''You plan the structure of a literature review.'',
         ''Sections must be thematic, not one-section-per-paper. Every section must be ''
          @ ''answerable from the supplied papers.'',
         ''Respond with strict JSON only, no prose, no code fences:'',
         ''{\"title\": \"...\", \"sections\": [{\"heading\": \"...\", \"focus\": \"...\", \"paper_indices\": [1, ''
          @ ''2]}]}''],
      pt_template = text_lines
        [''Topic: {topic}'',
         [],
         ''Available papers:'',
         ''{papers}'',
         [],
         ''Outline:'']\<rparr>"

definition REVIEW_SECTION :: prompt where
  "REVIEW_SECTION =
     \<lparr>pt_name = ''review_section'',
      pt_system = text_lines
        [''You write one section of a literature review.'',
         ''Rules:'',
         ''- Every factual claim ends with a citation marker like [1] or [2][3].'',
         ''- Synthesize across papers: compare and contrast, do not summarize each paper in turn.'',
         ''- Name disagreements explicitly where the sources disagree.'',
         ''- If the sources do not cover the focus, say so in one sentence.'',
         ''- Prose only. No headings, no bullet lists.''],
      pt_template = text_lines
        [''Review topic: {topic}'',
         ''Section: {heading}'',
         ''Focus: {focus}'',
         [],
         ''Sources:'',
         ''{sources}'',
         [],
         ''Section text:'']\<rparr>"

definition IDENTIFY_GAPS :: prompt where
  "IDENTIFY_GAPS =
     \<lparr>pt_name = ''identify_gaps'',
      pt_system = text_lines
        [''You identify research gaps from a body of work.'',
         ''A gap must be grounded in the evidence: something the papers explicitly call future ''
          @ ''work, a combination none of them tried, or an inconsistency none of them resolve. Do ''
          @ ''not list generic gaps that would apply to any field.'',
         ''Respond with strict JSON only, no prose, no code fences:'',
         ''{\"gaps\": [{\"gap\": \"...\", \"rationale\": \"...\", \"evidence_indices\": [1], ''
          @ ''\"suggested_direction\": \"...\", \"confidence\": 0.0-1.0}]}''],
      pt_template = text_lines
        [''Research area: {topic}'',
         [],
         ''Evidence:'',
         ''{evidence}'',
         [],
         ''Gaps:'']\<rparr>"

definition REGISTRY :: "(string, prompt) dict" where
  "REGISTRY = map (\<lambda>p. (pt_name p, p))
     [RAG_ANSWER, GRADE_RETRIEVAL, REWRITE_QUERY, VERIFY_ANSWER, COMPRESS_CONTEXT, EXTRACT_ENTITIES,
      NL_TO_CYPHER, COMPARE_CLAIMS, EXTRACT_EXPERIMENTS, EXTRACT_METHODOLOGY, SYNTHESIZE_TREND,
      REVIEW_OUTLINE, REVIEW_SECTION, IDENTIFY_GAPS]"

definition get_prompt :: "string \<Rightarrow> prompt res" where
  "get_prompt name = (case dget REGISTRY name of None \<Rightarrow> Inl KeyError | Some p \<Rightarrow> Inr p)"

subsection \<open>Which keywords a template needs\<close>

definition field_of :: "piece \<Rightarrow> string option" where
  "field_of p = (case p of Field n \<Rightarrow> Some n | _ \<Rightarrow> None)"

definition template_fields :: "string \<Rightarrow> string list" where
  "template_fields t = List.map_filter field_of (pieces t)"

definition well_formed :: "string \<Rightarrow> bool" where
  "well_formed t \<longleftrightarrow> list_all (\<lambda>p. case p of Malformed _ \<Rightarrow> False | _ \<Rightarrow> True) (pieces t)"

lemma dget_key: "dget d k = Some v \<Longrightarrow> k \<in> fst ` set d"
  by (auto dest: map_of_SomeD intro: rev_image_eqI)

lemma expand_simps [simp]:
  "expand kw (Plain c) = Inr [c]"
  "expand kw (Field n) = (case dget kw n of None \<Rightarrow> Inl KeyError | Some v \<Rightarrow> Inr v)"
  by (simp_all add: expand_def)

lemma field_of_simps [simp]: "field_of (Plain c) = None" "field_of (Field n) = Some n"
  by (simp_all add: field_of_def)

lemma mapM_expand:
  "list_all (\<lambda>p. case p of Malformed _ \<Rightarrow> False | _ \<Rightarrow> True) ps \<Longrightarrow>
   (case mapM (expand kw) ps of
      Inr _ \<Rightarrow> set (List.map_filter field_of ps) \<subseteq> fst ` set kw
    | Inl e \<Rightarrow> e = KeyError \<and> \<not> set (List.map_filter field_of ps) \<subseteq> fst ` set kw)"
proof (induction ps)
  case (Cons p ps)
  show ?case
  proof (cases p)
    case (Field n)
    show ?thesis
    proof (cases "dget kw n")
      case None
      then have "n \<notin> fst ` set kw" by (simp add: map_of_eq_None_iff)
      then show ?thesis using Field None by simp
    next
      case (Some v)
      then have "n \<in> fst ` set kw" by (rule dget_key)
      then show ?thesis using Cons Field Some by (cases "mapM (expand kw) ps") simp_all
    qed
  qed (use Cons in \<open>cases "mapM (expand kw) ps"; simp\<close>)+
qed simp

text \<open>A well-formed template renders exactly when every field has a value.\<close>

lemma py_format_total:
  "well_formed t \<Longrightarrow>
   (case py_format t kw of
      Inr _ \<Rightarrow> set (template_fields t) \<subseteq> fst ` set kw
    | Inl e \<Rightarrow> e = KeyError \<and> \<not> set (template_fields t) \<subseteq> fst ` set kw)"
  using mapM_expand [of "pieces t" kw]
  by (auto simp: well_formed_def py_format_def template_fields_def bind_res_def split: sum.splits)

lemma render_ok: "well_formed (pt_template p) \<Longrightarrow> set (template_fields (pt_template p)) \<subseteq> fst ` set kw \<Longrightarrow> \<exists>s. render p kw = Inr s"
  using py_format_total [of "pt_template p" kw] by (auto simp: render_def split: sum.splits)

lemma registry_well_formed: "list_all (\<lambda>(n, p). well_formed (pt_template p)) REGISTRY"
  by code_simp

lemma registry_names: "list_all (\<lambda>(n, p). pt_name p = n) REGISTRY \<and> distinct (map fst REGISTRY)"
  by code_simp

text \<open>The fields of the prompts, which the call sites below have to supply.\<close>

lemma prompt_fields:
  "template_fields (pt_template RAG_ANSWER) = [''sources'', ''question'']"
  "template_fields (pt_template GRADE_RETRIEVAL) = [''question'', ''sources'']"
  "template_fields (pt_template REWRITE_QUERY) = [''question'', ''missing'']"
  "template_fields (pt_template VERIFY_ANSWER) = [''question'', ''sources'', ''answer'']"
  "template_fields (pt_template COMPRESS_CONTEXT) = [''question'', ''passage'']"
  "template_fields (pt_template EXTRACT_ENTITIES) = [''paper_title'', ''labels'', ''relations'', ''text'']"
  "template_fields (pt_template NL_TO_CYPHER) = [''schema'', ''question'']"
  "template_fields (pt_template COMPARE_CLAIMS) = [''paper_a'', ''claim_a'', ''paper_b'', ''claim_b'']"
  "template_fields (pt_template EXTRACT_EXPERIMENTS) = [''paper_title'', ''text'']"
  "template_fields (pt_template EXTRACT_METHODOLOGY) = [''paper_title'', ''text'']"
  "template_fields (pt_template SYNTHESIZE_TREND) = [''topic'', ''evidence'']"
  "template_fields (pt_template REVIEW_OUTLINE) = [''topic'', ''papers'']"
  "template_fields (pt_template REVIEW_SECTION) = [''topic'', ''heading'', ''focus'', ''sources'']"
  "template_fields (pt_template IDENTIFY_GAPS) = [''topic'', ''evidence'']"
  by code_simp+


end
