(* ===== verification/Context.thy ===== *)
theory Context
  imports Retrieval Gateway Prompts
begin

section \<open>Context assembly under a token budget (llm/context.py)\<close>

text \<open>
  Calls of the gateway with a prompt; the rendering of chunks as numbered sources; packing of
  chunks into a token budget, with extraction of the sentences that bear on the query where a
  chunk does not fit; and the compression of chunks by the model.  \<open>asyncio.gather\<close> is modelled
  in the order of its arguments.
\<close>

subsection \<open>Asking the model\<close>

type_synonym 'w llm = "'w gateway \<times> 'w"

definition prompt_request :: "prompt \<Rightarrow> string \<Rightarrow> real \<Rightarrow> int \<Rightarrow> request" where
  "prompt_request p body temperature max_tokens =
     \<lparr>rq_messages = [\<lparr>msg_role = SYSTEM, msg_content = pt_system p\<rparr>, \<lparr>msg_role = USER, msg_content = body\<rparr>],
      rq_model = None, rq_temperature = temperature, rq_max_tokens = max_tokens\<rparr>"

definition ask ::
    "prompt \<Rightarrow> (string, string) dict \<Rightarrow> real \<Rightarrow> int \<Rightarrow> 'w llm \<Rightarrow> (llm_exn + completion) \<times> 'w llm" where
  "ask p kw temperature max_tokens gw =
     (case render p kw of
        Inl e \<Rightarrow> (Inl (OtherExn e), gw)
      | Inr body \<Rightarrow> gateway_complete (prompt_request p body temperature max_tokens) gw)"

text \<open>The defaults of \<open>complete\<close>.\<close>

definition TEMPERATURE :: real where "TEMPERATURE = 1 / 5"
definition MAX_TOKENS :: int where "MAX_TOKENS = 2048"

text \<open>Composition of calls: the first exception ends the computation, the gateway's state goes on.\<close>

type_synonym ('a, 'w) act = "'w llm \<Rightarrow> (llm_exn + 'a) \<times> 'w llm"

definition bind_llm :: "('a, 'w) act \<Rightarrow> ('a \<Rightarrow> ('b, 'w) act) \<Rightarrow> ('b, 'w) act" where
  "bind_llm m f gw = (case m gw of (Inl e, gw1) \<Rightarrow> (Inl e, gw1) | (Inr x, gw1) \<Rightarrow> f x gw1)"

definition return_llm :: "'a \<Rightarrow> ('a, 'w) act" where
  "return_llm x gw = (Inr x, gw)"

definition lift_llm :: "'a res \<Rightarrow> ('a, 'w) act" where
  "lift_llm r gw = (case r of Inl e \<Rightarrow> (Inl (OtherExn e), gw) | Inr x \<Rightarrow> (Inr x, gw))"

text \<open>\<open>accounted m f\<close>: a call of \<open>m\<close> that answers \<open>x\<close> has charged the gateway exactly \<open>f x\<close>.\<close>

definition accounted :: "('a, 'w) act \<Rightarrow> ('a \<Rightarrow> usage) \<Rightarrow> bool" where
  "accounted m f \<longleftrightarrow> (\<forall>g w x g1 w1. m (g, w) = (Inr x, g1, w1) \<longrightarrow> gw_total g1 = add_usage (gw_total g) (f x))"

lemma accountedD: "accounted m f \<Longrightarrow> m (g, w) = (Inr x, g1, w1) \<Longrightarrow> gw_total g1 = add_usage (gw_total g) (f x)"
  unfolding accounted_def by blast

lemma add_usage_assoc: "add_usage (add_usage u v) w = add_usage u (add_usage v w)"
  by (simp add: add_usage_def)

lemma add_no_usage [simp]: "add_usage u no_usage = u" "add_usage no_usage u = u"
  by (simp_all add: add_usage_def no_usage_def)

lemma bind_llm_Inr:
  "bind_llm m f gw = (Inr y, gw2) \<longleftrightarrow> (\<exists>x gw1. m gw = (Inr x, gw1) \<and> f x gw1 = (Inr y, gw2))"
  by (auto simp: bind_llm_def split: prod.splits sum.splits)

lemma return_llm_Inr [simp]: "return_llm x gw = (Inr y, gw2) \<longleftrightarrow> y = x \<and> gw2 = gw"
  by (auto simp: return_llm_def)

lemma lift_llm_Inr [simp]: "lift_llm r gw = (Inr y, gw2) \<longleftrightarrow> r = Inr y \<and> gw2 = gw"
  by (auto simp: lift_llm_def split: sum.splits)

named_theorems accounting \<open>calls whose usage is accounted for\<close>

lemma accounted_return [accounting]: "accounted (return_llm x) (\<lambda>_. no_usage)"
  by (simp add: accounted_def)

lemma accounted_lift [accounting]: "accounted (lift_llm r) (\<lambda>_. no_usage)"
  by (simp add: accounted_def)

subsection \<open>Sources\<close>

text \<open>\<open>RetrievedChunk.citation\<close>; its separator contains a dash outside Latin-1 and is a parameter.\<close>

definition citation :: "string \<Rightarrow> retrieved_chunk \<Rightarrow> string" where
  "citation dash c =
     (let title = (case rc_title c of None \<Rightarrow> ''Untitled paper'' | Some t \<Rightarrow> if t = [] then ''Untitled paper'' else t);
          section_part = (case rc_section c of None \<Rightarrow> [] | Some s \<Rightarrow> if s = [] then [] else [s]);
          page_part = (case rc_page c of None \<Rightarrow> [] | Some n \<Rightarrow> if n = 0 then [] else [''p. '' @ str_int n]) in
      join dash (title # section_part @ page_part))"

definition source_block :: "string \<Rightarrow> nat \<times> retrieved_chunk \<Rightarrow> string" where
  "source_block dash ic = (case ic of (i, c) \<Rightarrow>
     ''['' @ str_nat i @ ''] '' @ citation dash c @ [CHR 0x0A] @ strip (rc_content c))"

definition format_sources :: "string \<Rightarrow> retrieved_chunk list \<Rightarrow> string" where
  "format_sources dash cs = join [CHR 0x0A, CHR 0x0A] (map (source_block dash) (List.enumerate 1 cs))"

subsection \<open>Packing\<close>

definition CHARS_PER_TOKEN :: nat where "CHARS_PER_TOKEN = 4"
definition DEFAULT_RESERVED_TOKENS :: int where "DEFAULT_RESERVED_TOKENS = 1200"

definition estimate_tokens :: "string \<Rightarrow> int" where
  "estimate_tokens s = max 1 (int (length s) div int CHARS_PER_TOKEN)"

record packed_context =
  pk_chunks :: "retrieved_chunk list"
  pk_used :: int
  pk_dropped :: int
  pk_compressed :: int

definition was_reduced :: "packed_context \<Rightarrow> bool" where
  "was_reduced p \<longleftrightarrow> pk_dropped p > 0 \<or> pk_compressed p > 0"

text \<open>The sentences kept: in order, until the first that no longer fits.\<close>

fun keep_sentences :: "int \<Rightarrow> int \<Rightarrow> string list \<Rightarrow> string list" where
  "keep_sentences target used [] = []"
| "keep_sentences target used (s # ss) =
     (if target < used + estimate_tokens s then []
      else s # keep_sentences target (used + estimate_tokens s) ss)"

definition shrink_by_extraction :: "retrieved_chunk \<Rightarrow> string \<Rightarrow> int \<Rightarrow> retrieved_chunk option" where
  "shrink_by_extraction c query target =
     (let sentences = extract_supporting_sentences query (rc_content c) 6 in
      if sentences = [] then None
      else
        let kept = keep_sentences target 0 sentences in
        if kept = [] then None else Some (c\<lparr>rc_content := join '' '' kept\<rparr>))"

definition pack_one :: "string \<Rightarrow> int \<Rightarrow> packed_context \<Rightarrow> retrieved_chunk \<Rightarrow> packed_context" where
  "pack_one query budget p c =
     (let cost = estimate_tokens (rc_content c) in
      if pk_used p + cost \<le> budget
      then p\<lparr>pk_chunks := pk_chunks p @ [c], pk_used := pk_used p + cost\<rparr>
      else
        let remaining = budget - pk_used p in
        if remaining < 40 then p\<lparr>pk_dropped := pk_dropped p + 1\<rparr>
        else (case shrink_by_extraction c query remaining of
                None \<Rightarrow> p\<lparr>pk_dropped := pk_dropped p + 1\<rparr>
              | Some r \<Rightarrow> p\<lparr>pk_chunks := pk_chunks p @ [r], pk_used := pk_used p + estimate_tokens (rc_content r),
                            pk_compressed := pk_compressed p + 1\<rparr>))"

definition pack_context :: "retrieved_chunk list \<Rightarrow> string \<Rightarrow> int \<Rightarrow> int \<Rightarrow> packed_context" where
  "pack_context cs query max_tokens reserved =
     foldl (pack_one query (max 0 (max_tokens - reserved)))
       \<lparr>pk_chunks = [], pk_used = 0, pk_dropped = 0, pk_compressed = 0\<rparr> cs"

subsection \<open>Compression by the model\<close>

definition compress_chunk ::
    "string \<Rightarrow> int \<Rightarrow> retrieved_chunk \<Rightarrow> 'w llm \<Rightarrow> (llm_exn + retrieved_chunk) \<times> 'w llm" where
  "compress_chunk query max_tokens c gw =
     (case ask COMPRESS_CONTEXT [(''question'', query), (''passage'', rc_content c)] 0 max_tokens gw of
        (Inl e, gw1) \<Rightarrow> (Inl e, gw1)
      | (Inr a, gw1) \<Rightarrow>
          (Inr (c\<lparr>rc_content := (if strip (c_text a) = [] then rc_content c else strip (c_text a))\<rparr>), gw1))"

fun compress_all ::
    "string \<Rightarrow> retrieved_chunk list \<Rightarrow> 'w llm \<Rightarrow> (llm_exn + retrieved_chunk) list \<times> 'w llm" where
  "compress_all query [] gw = ([], gw)"
| "compress_all query (c # cs) gw =
     (let (r, gw1) = compress_chunk query 256 c gw; (rs, gw2) = compress_all query cs gw1 in (r # rs, gw2))"

definition usable_results :: "(llm_exn + 'a) list \<Rightarrow> 'a list" where
  "usable_results rs = concat (map (\<lambda>r. case r of Inr c \<Rightarrow> [c] | Inl _ \<Rightarrow> []) rs)"

definition compress_context ::
    "retrieved_chunk list \<Rightarrow> string \<Rightarrow> int \<Rightarrow> int \<Rightarrow> 'w llm \<Rightarrow> packed_context \<times> 'w llm" where
  "compress_context cs query max_tokens reserved gw =
     (let packed = pack_context cs query max_tokens reserved in
      if pk_dropped packed = 0 then (packed, gw)
      else
        let budget = max 0 (max_tokens - reserved); (rs, gw1) = compress_all query cs gw in
        (pack_context (usable_results rs) query (budget + reserved) reserved, gw1))"

subsection \<open>What packing keeps\<close>

lemma estimate_pos: "0 < estimate_tokens s"
  by (simp add: estimate_tokens_def)

lemma keep_sentences_cost:
  "used + sum_list (map estimate_tokens (keep_sentences target used ss)) \<le> max target used"
proof (induction ss arbitrary: used)
  case (Cons s ss)
  show ?case using Cons.IH [of "used + estimate_tokens s"] by (auto simp: algebra_simps)
qed simp

lemma keep_sentences_prefix: "prefix (keep_sentences target used ss) ss"
  by (induction ss arbitrary: used) auto

lemma length_join_blank: "xs \<noteq> [] \<Longrightarrow> length (join '' '' xs) + 1 = sum_list (map length xs) + length xs"
  by (induction xs rule: induct_list012) auto

text \<open>Joining \<open>k\<close> sentences costs at most \<open>k - 1\<close> tokens more than their sum.\<close>

lemma sum_tokens: "int (sum_list (map length xs)) \<le> 4 * sum_list (map estimate_tokens xs) + 3 * int (length xs)"
proof (induction xs)
  case (Cons x xs)
  have "int (length x) \<le> 4 * (int (length x) div 4) + 3" by linarith
  then have "int (length x) \<le> 4 * estimate_tokens x + 3"
    by (simp add: estimate_tokens_def CHARS_PER_TOKEN_def)
  then show ?case using Cons.IH by simp
qed simp

lemma estimate_join:
  assumes "xs \<noteq> []"
  shows "estimate_tokens (join '' '' xs) \<le> sum_list (map estimate_tokens xs) + int (length xs) - 1"
proof -
  have k: "1 \<le> length xs" using assms by (cases xs) auto
  have s: "int (length xs) \<le> sum_list (map estimate_tokens xs)"
    using estimate_pos by (induction xs) (auto simp: add_mono zless_iff_Suc_zadd int_one_le_iff_zero_less
        intro: add_mono)
  have "int (length (join '' '' xs)) \<le> 4 * sum_list (map estimate_tokens xs) + 4 * int (length xs) - 1"
    using length_join_blank [OF assms] sum_tokens [of xs] k by linarith
  then have "int (length (join '' '' xs)) div 4 \<le> sum_list (map estimate_tokens xs) + int (length xs) - 1"
    by linarith
  then show ?thesis using s k by (simp add: estimate_tokens_def CHARS_PER_TOKEN_def)
qed

lemma shrink_by_extraction_Some:
  assumes "shrink_by_extraction c q target = Some r" "0 \<le> target"
  shows "estimate_tokens (rc_content r) \<le> target + 5"
    and "\<exists>kept. kept \<noteq> [] \<and> prefix kept (extract_supporting_sentences q (rc_content c) 6)
           \<and> r = c\<lparr>rc_content := join '' '' kept\<rparr>"
proof -
  let ?ss = "extract_supporting_sentences q (rc_content c) 6"
  let ?kept = "keep_sentences target 0 ?ss"
  have k: "?kept \<noteq> []" "r = c\<lparr>rc_content := join '' '' ?kept\<rparr>"
    using assms(1) by (auto simp: shrink_by_extraction_def Let_def split: if_splits)
  have pre: "prefix ?kept ?ss" by (rule keep_sentences_prefix)
  then have "int (length ?kept) \<le> 6"
    using prefix_length_le [OF pre] length_supporting_le [of 6 q "rc_content c"] by simp
  moreover have "sum_list (map estimate_tokens ?kept) \<le> target"
    using keep_sentences_cost [of 0 target ?ss] assms(2) by simp
  ultimately show "estimate_tokens (rc_content r) \<le> target + 5"
    using estimate_join [OF k(1)] k(2) by simp
  show "\<exists>kept. kept \<noteq> [] \<and> prefix kept ?ss \<and> r = c\<lparr>rc_content := join '' '' kept\<rparr>"
    using k pre by blast
qed

text \<open>A chunk shortened to some of its supporting sentences, joined.\<close>

definition extracted :: "string \<Rightarrow> retrieved_chunk \<Rightarrow> retrieved_chunk \<Rightarrow> bool" where
  "extracted q c r \<longleftrightarrow> (\<exists>kept. kept \<noteq> [] \<and> prefix kept (extract_supporting_sentences q (rc_content c) 6)
     \<and> r = c\<lparr>rc_content := join '' '' kept\<rparr>)"

definition packed_from :: "string \<Rightarrow> int \<Rightarrow> retrieved_chunk list \<Rightarrow> packed_context \<Rightarrow> bool" where
  "packed_from q budget cs p \<longleftrightarrow>
     pk_used p = sum_list (map (\<lambda>c. estimate_tokens (rc_content c)) (pk_chunks p))
     \<and> pk_used p \<le> budget + (if 0 < pk_compressed p then 5 else 0)
     \<and> 0 \<le> pk_dropped p \<and> 0 \<le> pk_compressed p
     \<and> int (length (pk_chunks p)) + pk_dropped p = int (length cs)
     \<and> (\<exists>cs'. subseq cs' cs \<and> list_all2 (\<lambda>r c. r = c \<or> extracted q c r) (pk_chunks p) cs')
     \<and> (was_reduced p \<or> pk_chunks p = cs)"

lemma packed_from_sel:
  assumes "packed_from q budget cs p"
  shows "pk_used p = sum_list (map (\<lambda>c. estimate_tokens (rc_content c)) (pk_chunks p))"
    "pk_used p \<le> budget + (if 0 < pk_compressed p then 5 else 0)"
    "0 \<le> pk_dropped p" "0 \<le> pk_compressed p"
    "int (length (pk_chunks p)) + pk_dropped p = int (length cs)"
    "was_reduced p \<or> pk_chunks p = cs"
  using assms unfolding packed_from_def by blast+

lemma subseq_snoc: "subseq xs ys \<Longrightarrow> subseq xs (ys @ [y])" "subseq xs ys \<Longrightarrow> subseq (xs @ [y]) (ys @ [y])"
  by (auto intro: list_emb_append_mono subseq_order.order_trans)

lemma pack_one_packed:
  assumes "packed_from q budget cs p"
  shows "packed_from q budget (cs @ [c]) (pack_one q budget p c)"
proof -
  note sel = packed_from_sel [OF assms]
  obtain cs' where cs': "subseq cs' cs" "list_all2 (\<lambda>r c. r = c \<or> extracted q c r) (pk_chunks p) cs'"
    using assms unfolding packed_from_def by blast
  have drop: "packed_from q budget (cs @ [c]) (p\<lparr>pk_dropped := pk_dropped p + 1\<rparr>)"
    unfolding packed_from_def using sel cs' subseq_snoc(1) by (auto simp: was_reduced_def)
  have add: "list_all2 (\<lambda>r c. r = c \<or> extracted q c r) (pk_chunks p @ [r]) (cs' @ [c])" if "r = c \<or> extracted q c r" for r
    using cs'(2) that by (simp add: list_all2_appendI)
  show ?thesis
  proof (cases "pk_used p + estimate_tokens (rc_content c) \<le> budget")
    case True
    have "\<exists>ds. subseq ds (cs @ [c]) \<and> list_all2 (\<lambda>r c. r = c \<or> extracted q c r) (pk_chunks p @ [c]) ds"
      using add [of c] subseq_snoc(2) [OF cs'(1)] by blast
    then show ?thesis using True sel unfolding pack_one_def packed_from_def by (auto simp: was_reduced_def)
  next
    case big: False
    show ?thesis
    proof (cases "budget - pk_used p < 40 \<or> shrink_by_extraction c q (budget - pk_used p) = None")
      case True
      then have "pack_one q budget p c = p\<lparr>pk_dropped := pk_dropped p + 1\<rparr>"
        using big by (auto simp: pack_one_def Let_def)
      then show ?thesis using drop by simp
    next
      case False
      then obtain r where r: "shrink_by_extraction c q (budget - pk_used p) = Some r" "0 \<le> budget - pk_used p"
        by auto
      have eq: "pack_one q budget p c = p\<lparr>pk_chunks := pk_chunks p @ [r],
          pk_used := pk_used p + estimate_tokens (rc_content r), pk_compressed := pk_compressed p + 1\<rparr>"
        using big False r by (simp add: pack_one_def Let_def)
      have "extracted q c r" using shrink_by_extraction_Some(2) [OF r] unfolding extracted_def .
      then have "\<exists>ds. subseq ds (cs @ [c]) \<and> list_all2 (\<lambda>r c. r = c \<or> extracted q c r) (pk_chunks p @ [r]) ds"
        using add [of r] subseq_snoc(2) [OF cs'(1)] by blast
      then show ?thesis using sel shrink_by_extraction_Some(1) [OF r] unfolding eq packed_from_def
        by (auto simp: was_reduced_def)
    qed
  qed
qed

lemma pack_context_packed: "packed_from q (max 0 (m - r)) cs (pack_context cs q m r)"
proof (induction cs rule: rev_induct)
  case Nil
  then show ?case by (simp add: packed_from_def pack_context_def was_reduced_def)
next
  case (snoc c cs)
  then show ?case using pack_one_packed [of q "max 0 (m - r)" cs "pack_context cs q m r" c]
    by (simp add: pack_context_def)
qed

text \<open>A packed chunk is a chunk of the input, whole or quoted.\<close>

lemma packed_chunk:
  assumes "r \<in> set (pk_chunks (pack_context cs q m d))"
  shows "\<exists>c \<in> set cs. rc_chunk r = rc_chunk c \<and> rc_paper r = rc_paper c
    \<and> (rc_content r = rc_content c
       \<or> (\<exists>kept. rc_content r = join '' '' kept \<and> list_all (\<lambda>s. sublist s (rc_content c)) kept))"
proof -
  obtain cs' where cs': "subseq cs' cs" "list_all2 (\<lambda>r c. r = c \<or> extracted q c r) (pk_chunks (pack_context cs q m d)) cs'"
    using pack_context_packed [of q m d cs] unfolding packed_from_def by blast
  obtain c where c: "c \<in> set cs'" "r = c \<or> extracted q c r" using list_all2_ex2 [OF cs'(2) assms] by blast
  have cs: "c \<in> set cs" using list_emb_set [OF cs'(1) c(1)] by auto
  show ?thesis
  proof (cases "r = c")
    case False
    then obtain kept where k: "prefix kept (extract_supporting_sentences q (rc_content c) 6)"
        "r = c\<lparr>rc_content := join '' '' kept\<rparr>" using c(2) unfolding extracted_def by blast
    have "list_all (\<lambda>s. sublist s (rc_content c)) kept"
      using set_mono_prefix [OF k(1)] supporting_sentence_quotes unfolding list_all_iff by blast
    then show ?thesis using cs k(2) by (intro bexI [of _ c]) auto
  qed (use cs in blast)
qed

text \<open>Packing loses nothing silently: the used tokens are those of the packed chunks and exceed
  the budget by at most five; every chunk is packed or counted as dropped; the packed chunks are
  chunks of the input in the same order, each whole or reduced to some of its supporting
  sentences; and when nothing is reported as reduced, all chunks are there unchanged.\<close>

theorem pack_context_correct:
  "(let p = pack_context cs q m r in
     pk_used p = sum_list (map (\<lambda>c. estimate_tokens (rc_content c)) (pk_chunks p))
     \<and> pk_used p \<le> max 0 (m - r) + 5
     \<and> 0 \<le> pk_dropped p \<and> int (length (pk_chunks p)) + pk_dropped p = int (length cs)
     \<and> (\<exists>cs'. subseq cs' cs \<and> list_all2 (\<lambda>r c. r = c \<or> extracted q c r) (pk_chunks p) cs')
     \<and> (was_reduced p \<or> pk_chunks p = cs))"
  using pack_context_packed [of q m r cs] unfolding packed_from_def Let_def by (auto split: if_splits)

definition plain_chunk :: "string \<Rightarrow> retrieved_chunk" where
  "plain_chunk s = \<lparr>rc_chunk = 0, rc_paper = 0, rc_title = None, rc_content = s, rc_section = None, rc_page = None,
     rc_kind = ''text'', rc_score = 0, rc_dense_rank = None, rc_sparse_rank = None, rc_rerank_score = None, rc_sentences = []\<rparr>"

definition long_sentence :: string where
  "long_sentence = ''alpha '' @ concat (replicate 25 ''xy '') @ ''z.''"

text \<open>The budget can be exceeded: a chunk of two sentences that costs 41 tokens does not fit a
  budget of 40, is ``reduced'' to both sentences, hence to itself, and is packed with its 41 tokens;
  the blanks between the kept sentences are not counted.\<close>

theorem packing_exceeds_budget:
  "(let c = plain_chunk (long_sentence @ '' '' @ long_sentence); p = pack_context [c] ''alpha'' 1240 1200 in
     pk_chunks p = [c] \<and> pk_used p = 41 \<and> pk_compressed p = 1)"
proof -
  have e: "extract_supporting_sentences ''alpha'' (long_sentence @ '' '' @ long_sentence) 6 = [long_sentence, long_sentence]"
  proof -
    have "re_split SENTENCE_SPLIT (long_sentence @ '' '' @ long_sentence) = [long_sentence, long_sentence]"
      by code_simp
    moreover have "strip long_sentence = long_sentence" by code_simp
    moreover have "tokenize ''alpha'' = [''alpha'']" "overlap [''alpha''] long_sentence = 1" by code_simp+
    moreover have "length long_sentence = 83" by code_simp
    ultimately show ?thesis by (simp add: extract_supporting_sentences_def py_take_def sort_desc_def)
  qed
  have l: "length long_sentence = 83" by code_simp
  show ?thesis using e
    by (simp add: Let_def pack_context_def pack_one_def plain_chunk_def shrink_by_extraction_def l
        estimate_tokens_def CHARS_PER_TOKEN_def)
qed

text \<open>Compression: one result per chunk, and the gateway's providers stay as they are.\<close>

lemma length_compress_all: "length (fst (compress_all q cs gw)) = length cs"
proof (induction cs arbitrary: gw)
  case (Cons c cs)
  then show ?case using Cons.IH [of "snd (compress_chunk q 256 c gw)"] by (simp add: case_prod_unfold Let_def)
qed simp

text \<open>Asking the model costs what the completion reports, and changes nothing else.\<close>

lemma ask_cases:
  assumes "ask p kw t mx (g, w) = (r, g1, w1)"
  shows "gw_primary g1 = gw_primary g \<and> gw_fallback g1 = gw_fallback g
    \<and> gw_total g1 = (case r of Inr c \<Rightarrow> add_usage (gw_total g) (c_usage c) | Inl _ \<Rightarrow> gw_total g)"
proof (cases "render p kw")
  case (Inl e)
  then show ?thesis using assms by (auto simp: ask_def)
next
  case (Inr body)
  then show ?thesis using assms gateway_complete_total by (simp add: ask_def)
qed

lemma accounted_ask [accounting]: "accounted (ask p kw t mx) c_usage"
  using ask_cases by (fastforce simp: accounted_def)

definition rejecting_gateway :: "message list list gateway" where
  "rejecting_gateway = \<lparr>gw_primary = rejecting, gw_fallback = None, gw_total = no_usage\<rparr>"

lemma rejecting_fails: "\<exists>e. is_llm_error e \<and> pr_complete rejecting rq w = (Inl e, w)"
  by (rule exI [of _ "LLMError (''openai rejected the request (400): '' @ take 300 ''invalid request'')"])
     (simp add: rejecting_complete is_llm_error_def)

lemma ask_rejecting: "\<exists>e. ask p kw t mx (rejecting_gateway, w) = (Inl e, rejecting_gateway, w)"
proof (cases "render p kw")
  case (Inr body)
  obtain e where "pr_complete rejecting (prompt_request p body t mx) w = (Inl e, w)"
    using rejecting_fails by blast
  then show ?thesis using Inr by (simp add: ask_def gateway_complete_def gateway_call_def rejecting_gateway_def)
qed (simp add: ask_def)

text \<open>When the compression of the chunks fails, they are gone without a trace: the answered
  context is empty and reports that nothing was dropped or compressed.\<close>

theorem failed_compression_hides_loss:
  "(let p = fst (compress_context [plain_chunk (replicate 400 CHR ''x'')] q 1210 1200 (rejecting_gateway, w)) in
     pk_chunks p = [] \<and> \<not> was_reduced p)"
proof -
  let ?c = "plain_chunk (replicate 400 CHR ''x'')"
  have d: "pk_dropped (pack_context [?c] q 1210 1200) = 1"
    by (simp add: pack_context_def pack_one_def plain_chunk_def estimate_tokens_def CHARS_PER_TOKEN_def Let_def)
  obtain e where e: "compress_chunk q 256 ?c (rejecting_gateway, w) = (Inl e, rejecting_gateway, w)"
    using ask_rejecting [of COMPRESS_CONTEXT "[(''question'', q), (''passage'', rc_content ?c)]" 0 256 w]
    by (auto simp: compress_chunk_def)
  have "fst (compress_context [?c] q 1210 1200 (rejecting_gateway, w)) = pack_context [] q 1210 1200"
    using d e by (simp add: compress_context_def usable_results_def)
  then show ?thesis by (simp add: pack_context_def was_reduced_def)
qed

end
