(* ===== verification/Json.thy ===== *)
theory Json
  imports PyVal Regex
begin

section \<open>Reading JSON out of a model's response (llm/json_output.py)\<close>

text \<open>
  \<open>load_json_object\<close> and \<open>clamp_confidence\<close>.  \<open>json.loads\<close> and \<open>float\<close> of a string are
  parameters: the first answers \<open>None\<close> where the library raises \<open>JSONDecodeError\<close>, the second
  where it raises \<open>ValueError\<close>.
\<close>

definition FENCE_PATTERN :: rx where
  "FENCE_PATTERN = Cat (lit ''```'') (opt (ilit ''json''))"

fun find_char :: "char \<Rightarrow> string \<Rightarrow> nat option" where
  "find_char c [] = None"
| "find_char c (d # s) = (if d = c then Some 0 else map_option Suc (find_char c s))"

definition rfind_char :: "char \<Rightarrow> string \<Rightarrow> nat option" where
  "rfind_char c s = map_option (\<lambda>i. length s - 1 - i) (find_char c (rev s))"

text \<open>\<open>_try_parse\<close>: a parse error and a JSON \<open>null\<close> are both \<open>None\<close>.\<close>

definition try_parse :: "(string \<Rightarrow> pyval option) \<Rightarrow> string \<Rightarrow> pyval" where
  "try_parse loads s = (case loads s of None \<Rightarrow> PyNone | Some v \<Rightarrow> v)"

definition as_object :: "pyval \<Rightarrow> (string, pyval) dict option" where
  "as_object v = (case v of PyDict d \<Rightarrow> Some d | _ \<Rightarrow> None)"

definition json_text :: "string \<Rightarrow> string" where
  "json_text raw = strip (strip_by (\<lambda>c. c = CHR ''`'') (strip (re_sub FENCE_PATTERN [] raw)))"

definition load_json_object :: "(string \<Rightarrow> pyval option) \<Rightarrow> string option \<Rightarrow> (string, pyval) dict option" where
  "load_json_object loads raw =
     (let s = json_text (case raw of None \<Rightarrow> [] | Some r \<Rightarrow> r) in
      if s = [] then None
      else
        let parsed = try_parse loads s in
        if parsed \<noteq> PyNone then as_object parsed
        else (case (find_char CHR ''{'' s, rfind_char CHR ''}'' s) of
                (Some a, Some b) \<Rightarrow>
                  if b \<le> a then None else as_object (try_parse loads (take (b + 1 - a) (drop a s)))
              | _ \<Rightarrow> None))"

text \<open>
  \<open>float(value)\<close>: an integer that rounds to \<open>2 ^ 1024\<close> or more in magnitude raises
  \<open>OverflowError\<close>, which is neither a \<open>TypeError\<close> nor a \<open>ValueError\<close>.
\<close>

definition py_float :: "(string \<Rightarrow> pyfloat option) \<Rightarrow> pyval \<Rightarrow> pyfloat res" where
  "py_float parse v =
     (case v of
        PyBool b \<Rightarrow> Inr (Fin (if b then 1 else 0))
      | PyInt i \<Rightarrow> if 2 ^ 1024 - 2 ^ 970 \<le> \<bar>i\<bar> then Inl OverflowErr else Inr (Fin (of_int i))
      | PyFloat f \<Rightarrow> Inr f
      | PyStr s \<Rightarrow> (case parse s of None \<Rightarrow> Inl (ValueError s) | Some f \<Rightarrow> Inr f)
      | _ \<Rightarrow> Inl (TypeErr ''float() argument must be a string or a real number''))"

text \<open>\<open>min(1.0, x)\<close> keeps \<open>1.0\<close> when \<open>x\<close> is not a number, \<open>max(0.0, .)\<close> likewise keeps its first
  argument unless the second is greater.\<close>

definition py_min1 :: "pyfloat \<Rightarrow> pyfloat" where
  "py_min1 x = (case x of Fin r \<Rightarrow> if r < 1 then x else Fin 1 | NegInf \<Rightarrow> NegInf | _ \<Rightarrow> Fin 1)"

definition py_max0 :: "pyfloat \<Rightarrow> pyfloat" where
  "py_max0 x = (case x of Fin r \<Rightarrow> if 0 < r then x else Fin 0 | PosInf \<Rightarrow> PosInf | _ \<Rightarrow> Fin 0)"

definition clamp_confidence :: "(string \<Rightarrow> pyfloat option) \<Rightarrow> pyval \<Rightarrow> pyfloat \<Rightarrow> pyfloat res" where
  "clamp_confidence parse v dflt =
     (case py_float parse v of
        Inr x \<Rightarrow> Inr (py_max0 (py_min1 x))
      | Inl e \<Rightarrow> (case e of TypeErr _ \<Rightarrow> Inr dflt | ValueError _ \<Rightarrow> Inr dflt | _ \<Rightarrow> Inl e))"

text \<open>A confidence: a real between zero and one.\<close>

definition unit_float :: "pyfloat \<Rightarrow> bool" where
  "unit_float x \<longleftrightarrow> (\<exists>r. x = Fin r \<and> 0 \<le> r \<and> r \<le> 1)"

lemma unit_float_Fin [simp]: "unit_float (Fin r) \<longleftrightarrow> 0 \<le> r \<and> r \<le> 1"
  by (auto simp: unit_float_def)

lemma unit_float_clamp [simp]: "unit_float (py_max0 (py_min1 x))"
  by (auto simp: py_max0_def py_min1_def split: pyfloat.splits)

lemma clamp_default:
  "unit_float dflt \<Longrightarrow> clamp_confidence parse v dflt = Inr x \<Longrightarrow> unit_float x"
  by (auto simp: clamp_confidence_def split: sum.splits py_error.splits)

text \<open>Whatever value a model reports, a clamped confidence is a real number between zero and
  one (a missing, textual, infinite or not-a-number value included); the only values that
  raise instead are integers too large for a float.\<close>

theorem clamp_confidence_bounds:
  assumes "unit_float dflt"
  shows "(\<exists>x. clamp_confidence parse v dflt = Inr x \<and> unit_float x)
     \<or> clamp_confidence parse v dflt = Inl OverflowErr \<and> (\<exists>i. v = PyInt i \<and> 2 ^ 1024 - 2 ^ 970 \<le> \<bar>i\<bar>)"
proof (cases "py_float parse v")
  case (Inr x)
  then show ?thesis by (simp add: clamp_confidence_def)
next
  case (Inl e)
  then show ?thesis using assms
    by (auto simp: py_float_def clamp_confidence_def split: pyval.splits if_splits option.splits)
qed

text \<open>A model that reports an absurdly large integer confidence makes \<open>clamp_confidence\<close> raise
  \<open>OverflowError\<close>: the function catches only \<open>TypeError\<close> and \<open>ValueError\<close>.  And a \<open>NaN\<close>
  confidence, which Python's JSON reader accepts, is taken as full confidence.\<close>

theorem clamp_confidence_quirks:
  "clamp_confidence parse (PyInt (10 ^ 400)) (Fin (1 / 2)) = Inl OverflowErr
   \<and> clamp_confidence parse (PyFloat NaN) (Fin (1 / 2)) = Inr (Fin 1)"
  by (simp add: clamp_confidence_def py_float_def py_max0_def py_min1_def)

lemma clamp_confidence_bounds_witness:
  "\<exists>x. clamp_confidence parse (PyStr ''high'') (Fin (1 / 2)) = Inr x \<and> unit_float x"
  using clamp_confidence_bounds [of "Fin (1 / 2)" parse "PyStr ''high''"] by simp

text \<open>What \<open>load_json_object\<close> answers is always a parse of the cleaned text or of the part
  between its first and last brace.\<close>

lemma load_json_object_Some:
  "load_json_object loads raw = Some d \<Longrightarrow>
   \<exists>w. sublist w (json_text (case raw of None \<Rightarrow> [] | Some r \<Rightarrow> r)) \<and> loads w = Some (PyDict d)"
proof -
  let ?s = "json_text (case raw of None \<Rightarrow> [] | Some r \<Rightarrow> r)"
  have obj: "as_object (try_parse loads w) = Some d \<Longrightarrow> loads w = Some (PyDict d)" for w
    by (auto simp: as_object_def try_parse_def split: option.splits pyval.splits)
  have sub: "sublist (take n (drop a ?s)) ?s" for n a
    by (metis append_take_drop_id sublist_def append.assoc)
  assume "load_json_object loads raw = Some d"
  then consider "as_object (try_parse loads ?s) = Some d"
    | a n where "as_object (try_parse loads (take n (drop a ?s))) = Some d"
    by (auto simp: load_json_object_def Let_def split: if_splits option.splits)
  then show ?thesis
  proof cases
    case 1
    then show ?thesis using obj by (intro exI [of _ ?s]) simp
  next
    case 2
    then show ?thesis using obj sub by blast
  qed
qed

end
