(* ===== verification/Rag.thy ===== *)
theory Rag
  imports Context Json
begin

section \<open>Grounded question answering (llm/rag.py)\<close>

text \<open>
  Retrieval, grading, query rewriting, answering, verification and the confidence of an answer,
  each call of the model through the gateway, whose account every step charges.  Parameters:
  the retriever of the query (\<open>Retrieval.retrieve\<close> on the current index and database), and the
  library functions \<open>json.loads\<close>, \<open>float\<close> of a string and \<open>str\<close> of a float or a container.
  A call whose result has a field of another type than declared fails with a \<open>TypeError\<close>.
\<close>

subsection \<open>Library\<close>

record library =
  json_loads :: "string \<Rightarrow> pyval option"
  float_of :: "string \<Rightarrow> pyfloat option"
  repr_of :: "pyval \<Rightarrow> string"
  dash :: string

text \<open>\<open>str(v)\<close> and \<open>list(v)\<close>\<close>

definition py_str :: "library \<Rightarrow> pyval \<Rightarrow> string" where
  "py_str lib v =
     (case v of
        PyStr s \<Rightarrow> s
      | PyNone \<Rightarrow> ''None''
      | PyBool b \<Rightarrow> if b then ''True'' else ''False''
      | PyInt i \<Rightarrow> str_int i
      | _ \<Rightarrow> repr_of lib v)"

definition py_list :: "pyval \<Rightarrow> pyval list res" where
  "py_list v =
     (case v of
        PyList vs \<Rightarrow> Inr vs
      | PyStr s \<Rightarrow> Inr (map (\<lambda>c. PyStr [c]) s)
      | PyDict d \<Rightarrow> Inr (map (\<lambda>(k, _). PyStr k) d)
      | _ \<Rightarrow> Inl (TypeErr ''object is not iterable''))"

text \<open>\<open>round(x, 2)\<close> on the reals: to the nearest hundredth, ties to the even one.\<close>

definition round_half_even :: "real \<Rightarrow> int" where
  "round_half_even x =
     (let f = \<lfloor>x\<rfloor>; d = x - of_int f in
      if d < 1 / 2 then f else if 1 / 2 < d then f + 1 else if even f then f else f + 1)"

definition round2 :: "real \<Rightarrow> real" where
  "round2 x = of_int (round_half_even (100 * x)) / 100"

lemma round_half_even_bounds: "x - 1 / 2 \<le> of_int (round_half_even x)" "of_int (round_half_even x) \<le> x + 1 / 2"
  unfolding round_half_even_def Let_def by (auto; linarith)+

lemma round_half_even_mono_int:
  "of_int a \<le> x \<Longrightarrow> a \<le> round_half_even x" "x \<le> of_int b \<Longrightarrow> round_half_even x \<le> b"
proof -
  assume "of_int a \<le> x"
  then have "a \<le> \<lfloor>x\<rfloor>" by (simp add: le_floor_iff)
  then show "a \<le> round_half_even x" unfolding round_half_even_def Let_def by auto
next
  assume b: "x \<le> of_int b"
  show "round_half_even x \<le> b"
  proof (cases "\<lfloor>x\<rfloor> < b")
    case True
    then show ?thesis unfolding round_half_even_def Let_def by auto
  next
    case False
    then have "x = of_int b" using b by linarith
    then show ?thesis unfolding round_half_even_def Let_def by simp
  qed
qed

lemma round2_bounds: "of_int a \<le> 100 * x \<Longrightarrow> 100 * x \<le> of_int b \<Longrightarrow> of_int a / 100 \<le> round2 x \<and> round2 x \<le> of_int b / 100"
  using round_half_even_mono_int(1) [of a "100 * x"] round_half_even_mono_int(2) [of "100 * x" b]
  by (simp add: round2_def divide_right_mono)

subsection \<open>Results\<close>

record grade =
  g_sufficient :: bool
  g_reason :: string
  g_missing :: string

record verification =
  v_supported :: bool
  v_confidence :: pyfloat
  v_unsupported :: "pyval list"
  v_reason :: string

record rag_answer =
  ra_question :: string
  ra_answer :: string
  ra_sources :: "retrieved_chunk list"
  ra_cited :: "nat list"
  ra_grade :: "grade option"
  ra_verification :: "verification option"
  ra_rewritten :: "string option"
  ra_usage :: usage

text \<open>\<open>max(score, c)\<close> and \<open>min(s, 1.0)\<close> of Python: the first argument unless the second is
  greater, respectively less.\<close>

definition max_confidence :: "real \<Rightarrow> pyfloat \<Rightarrow> pyfloat" where
  "max_confidence score c =
     (case c of Fin r \<Rightarrow> Fin (if score < r then r else score) | PosInf \<Rightarrow> PosInf | _ \<Rightarrow> Fin score)"

definition min_one :: "pyfloat \<Rightarrow> real" where
  "min_one c = (case c of Fin r \<Rightarrow> if 1 < r then 1 else r | _ \<Rightarrow> 1)"

definition confidence :: "rag_answer \<Rightarrow> real" where
  "confidence a =
     (if ra_sources a = [] then 0
      else
        let s1 = 1 / 2 + (case ra_grade a of Some g \<Rightarrow> if g_sufficient g then 1 / 5 else 0 | None \<Rightarrow> 0);
            s2 = s1 + (if ra_cited a \<noteq> [] then 1 / 10 else 0);
            s3 = (case ra_verification a of
                    None \<Rightarrow> Fin s2
                  | Some v \<Rightarrow> if v_supported v then max_confidence s2 (v_confidence v)
                              else Fin (if 35 / 100 < s2 then 35 / 100 else s2)) in
        round2 (min_one s3))"

subsection \<open>Reading the model's answers\<close>

definition JSON_BLOCK :: rx where
  "JSON_BLOCK = cats [lit ''{'', star (Cls (\<lambda>_. True)), lit ''}'']"

definition CITATION_PATTERN :: rx where
  "CITATION_PATTERN = cats [lit ''['', Cap 1 (Cat (Cls is_digit) (opt (Cls is_digit))), lit '']'']"

text \<open>\<open>_parse_json_response\<close>; no object and an unreadable one are the empty dictionary.\<close>

definition parse_json_response :: "library \<Rightarrow> string \<Rightarrow> pyval" where
  "parse_json_response lib s =
     (case re_search JSON_BLOCK s of
        None \<Rightarrow> PyDict []
      | Some (m, _) \<Rightarrow> (case json_loads lib m of None \<Rightarrow> PyDict [] | Some v \<Rightarrow> v))"

definition cite_step :: "nat \<Rightarrow> nat list \<Rightarrow> string \<times> (nat \<times> string) list \<Rightarrow> nat list" where
  "cite_step n cited mk =
     (let i = nat_of_digits (group 1 (snd mk)) in
      if 1 \<le> i \<and> i \<le> n \<and> i \<notin> set cited then cited @ [i] else cited)"

definition extract_citations :: "string \<Rightarrow> nat \<Rightarrow> nat list" where
  "extract_citations answer n = sort (foldl (cite_step n) [] (re_finditer CITATION_PATTERN answer))"

subsection \<open>The calls\<close>

definition grade_retrieval :: "library \<Rightarrow> string \<Rightarrow> retrieved_chunk list \<Rightarrow> (grade \<times> usage, 'w) act" where
  "grade_retrieval lib question cs =
     (if cs = []
      then return_llm (\<lparr>g_sufficient = False, g_reason = ''No sources were retrieved.'', g_missing = question\<rparr>, no_usage)
      else
        bind_llm (ask GRADE_RETRIEVAL [(''question'', question), (''sources'', format_sources (dash lib) cs)] 0 300) (\<lambda>c.
        let data = parse_json_response lib (c_text c) in
        if \<not> truthy data
        then return_llm (\<lparr>g_sufficient = True, g_reason = ''Grader response could not be parsed.'', g_missing = []\<rparr>, c_usage c)
        else lift_llm (
          bind_res (jget ''sufficient'' (PyBool True) data) (\<lambda>sufficient.
          bind_res (jget ''reason'' (PyStr []) data) (\<lambda>reason.
          bind_res (jget ''missing'' (PyStr []) data) (\<lambda>missing.
          Inr (\<lparr>g_sufficient = truthy sufficient, g_reason = py_str lib reason, g_missing = py_str lib missing\<rparr>,
               c_usage c)))))))"

definition rewrite_query :: "string \<Rightarrow> string \<Rightarrow> (string \<times> usage, 'w) act" where
  "rewrite_query question missing =
     bind_llm (ask REWRITE_QUERY [(''question'', question), (''missing'', missing)] (3 / 10) 200) (\<lambda>c.
       let rewritten = strip_by (\<lambda>d. d = CHR 0x22) (strip (c_text c)) in
       return_llm (if rewritten = [] then question else rewritten, c_usage c))"

definition verify_answer :: "library \<Rightarrow> string \<Rightarrow> string \<Rightarrow> retrieved_chunk list \<Rightarrow> (verification \<times> usage, 'w) act" where
  "verify_answer lib question answer cs =
     bind_llm (ask VERIFY_ANSWER [(''question'', question), (''answer'', answer),
        (''sources'', format_sources (dash lib) cs)] 0 500) (\<lambda>c.
     let data = parse_json_response lib (c_text c) in
     if \<not> truthy data
     then return_llm (\<lparr>v_supported = True, v_confidence = Fin (1 / 2), v_unsupported = [],
                       v_reason = ''Verifier response could not be parsed.''\<rparr>, c_usage c)
     else lift_llm (
       bind_res (jget ''supported'' (PyBool True) data) (\<lambda>supported.
       bind_res (bind_res (jget ''confidence'' (PyFloat (Fin (1 / 2))) data) (py_float (float_of lib))) (\<lambda>conf.
       bind_res (bind_res (jget ''unsupported_claims'' PyNone data) (\<lambda>x. py_list (py_or x (PyList [])))) (\<lambda>claims.
       bind_res (jget ''reason'' (PyStr []) data) (\<lambda>reason.
       Inr (\<lparr>v_supported = truthy supported, v_confidence = conf, v_unsupported = claims, v_reason = py_str lib reason\<rparr>,
            c_usage c)))))))"

subsection \<open>Answering a question\<close>

type_synonym retriever = "string \<Rightarrow> retrieved_chunk list res"

definition NO_SOURCES :: string where
  "NO_SOURCES = ''I could not find anything in your library that addresses this question. ''
     @ ''Try uploading relevant papers, or rephrasing with more specific terms.''"

text \<open>The chunks of a second retrieval are added unless they are there already.\<close>

definition merge_chunks :: "retrieved_chunk list \<Rightarrow> retrieved_chunk list \<Rightarrow> retrieved_chunk list" where
  "merge_chunks cs retry = cs @ filter (\<lambda>c. rc_chunk c \<notin> rc_chunk ` set cs) retry"

definition corrective_step ::
    "library \<Rightarrow> retriever \<Rightarrow> string \<Rightarrow> retrieved_chunk list
       \<Rightarrow> (grade option \<times> string option \<times> retrieved_chunk list \<times> usage, 'w) act" where
  "corrective_step lib retr question cs =
     bind_llm (grade_retrieval lib question cs) (\<lambda>(g, u1).
       if g_sufficient g then return_llm (Some g, None, cs, u1)
       else
         bind_llm (rewrite_query question (g_missing g)) (\<lambda>(rewritten, u2).
           if rewritten \<noteq> [] \<and> rewritten \<noteq> question
           then bind_llm (lift_llm (retr rewritten)) (\<lambda>retry.
                  return_llm (Some g, Some rewritten, merge_chunks cs retry, add_usage u1 u2))
           else return_llm (Some g, Some rewritten, cs, add_usage u1 u2)))"

definition answer_from ::
    "library \<Rightarrow> string \<Rightarrow> bool \<Rightarrow> int \<Rightarrow> grade option \<Rightarrow> string option \<Rightarrow> retrieved_chunk list \<Rightarrow> usage
       \<Rightarrow> (rag_answer, 'w) act" where
  "answer_from lib question verify max_context g rewritten cs u =
     (let sources = pk_chunks (pack_context cs question max_context DEFAULT_RESERVED_TOKENS) in
      bind_llm (ask RAG_ANSWER [(''question'', question), (''sources'', format_sources (dash lib) sources)]
                  TEMPERATURE MAX_TOKENS) (\<lambda>c.
      bind_llm (if verify
                then bind_llm (verify_answer lib question (c_text c) sources) (\<lambda>(v, vu).
                       return_llm (Some v, add_usage (add_usage u (c_usage c)) vu))
                else return_llm (None, add_usage u (c_usage c))) (\<lambda>(v, usage).
      return_llm \<lparr>ra_question = question, ra_answer = c_text c, ra_sources = sources,
        ra_cited = extract_citations (c_text c) (length sources), ra_grade = g, ra_verification = v,
        ra_rewritten = rewritten, ra_usage = usage\<rparr>)))"

definition answer_question ::
    "library \<Rightarrow> retriever \<Rightarrow> string \<Rightarrow> bool \<Rightarrow> bool \<Rightarrow> int \<Rightarrow> (rag_answer, 'w) act" where
  "answer_question lib retr question corrective verify max_context =
     bind_llm (lift_llm (retr question)) (\<lambda>cs0.
     bind_llm (if corrective then corrective_step lib retr question cs0 else return_llm (None, None, cs0, no_usage))
       (\<lambda>(g, rewritten, cs, u).
     if cs = []
     then return_llm \<lparr>ra_question = question, ra_answer = NO_SOURCES, ra_sources = [], ra_cited = [],
            ra_grade = g, ra_verification = None, ra_rewritten = None, ra_usage = u\<rparr>
     else answer_from lib question verify max_context g rewritten cs u))"

subsection \<open>Citations\<close>

lemma foldl_cite:
  "distinct acc \<Longrightarrow> distinct (foldl (cite_step n) acc ms)
   \<and> set (foldl (cite_step n) acc ms) = set acc \<union> ((\<lambda>mk. nat_of_digits (group 1 (snd mk))) ` set ms \<inter> {1..n})"
proof (induction ms arbitrary: acc)
  case (Cons mk ms)
  have "distinct (cite_step n acc mk)" using Cons.prems by (simp add: cite_step_def Let_def)
  moreover have "set (cite_step n acc mk) = set acc \<union> ({nat_of_digits (group 1 (snd mk))} \<inter> {1..n})"
    by (auto simp: cite_step_def Let_def)
  ultimately show ?case using Cons.IH [of "cite_step n acc mk"] by auto
qed simp

lemma match_citation:
  "(p', s', k) \<in> set (rmatch CITATION_PATTERN (p, s, [])) \<Longrightarrow>
   \<exists>d. s = ''['' @ d @ '']'' @ s' \<and> group 1 k = d \<and> d \<noteq> [] \<and> length d \<le> 2 \<and> list_all is_digit d"
  by (cases s rule: remdups_adj.cases)
     (auto simp: CITATION_PATTERN_def chr_def opt_def group_def split: list.splits if_splits)

lemma scan_matches:
  "scan r p s = (ms, rest) \<Longrightarrow> (sk, m, k) \<in> set ms \<Longrightarrow>
   \<exists>p0 u p' t. s = u @ m @ t \<and> (p', t, k) \<in> set (rmatch r (p0, m @ t, []))"
proof (induction "length s" arbitrary: p s ms rest rule: less_induct)
  case less
  show ?case
  proof (cases r p s rule: scan_cases)
    case stop
    with less.prems show ?thesis by simp
  next
    case (step sk1 m1 k1 p' s' ms1 rest1)
    note c = search_from_consumes [OF step(1)]
    then have shorter: "length s' < length s" using step(2) by auto
    consider "(sk, m, k) = (sk1, m1, k1)" | "(sk, m, k) \<in> set ms1" using less.prems step by auto
    then show ?thesis
    proof cases
      case 1
      then show ?thesis using c by blast
    next
      case 2
      obtain p0 u q t where "s' = u @ m @ t" "(q, t, k) \<in> set (rmatch r (p0, m @ t, []))"
        using less.hyps [OF shorter step(3) 2] by blast
      moreover have "s = (sk1 @ m1) @ s'" using c by simp
      ultimately show ?thesis by (metis append.assoc)
    qed
  qed
qed

lemma finditer_matches:
  "(m, k) \<in> set (re_finditer r s) \<Longrightarrow> \<exists>p0 p' t. sublist (m @ t) s \<and> (p', t, k) \<in> set (rmatch r (p0, m @ t, []))"
proof -
  assume a: "(m, k) \<in> set (re_finditer r s)"
  obtain ms rest where sc: "scan r [] s = (ms, rest)" by (cases "scan r [] s")
  obtain sk where "(sk, m, k) \<in> set ms" using a sc by (auto simp: re_finditer_def)
  from scan_matches [OF sc this] show ?thesis unfolding sublist_def by (metis append_Nil2)
qed

text \<open>The citations of an answer are increasing, without repetition, between one and the number of
  sources; each is written in the answer as a bracketed number, and every bracketed number of one
  or two digits that names a source is among them.\<close>

theorem extract_citations_correct:
  "sorted_wrt (<) (extract_citations answer n)
   \<and> set (extract_citations answer n) = (\<lambda>mk. nat_of_digits (group 1 (snd mk))) ` set (re_finditer CITATION_PATTERN answer) \<inter> {1..n}
   \<and> set (extract_citations answer n) \<subseteq> {i. \<exists>d. nat_of_digits d = i \<and> list_all is_digit d \<and> sublist (''['' @ d @ '']'') answer}"
proof (intro conjI)
  note f = foldl_cite [of "[]" n "re_finditer CITATION_PATTERN answer", simplified]
  show "sorted_wrt (<) (extract_citations answer n)"
    using f by (simp add: extract_citations_def strict_sorted_iff)
  show set: "set (extract_citations answer n) =
      (\<lambda>mk. nat_of_digits (group 1 (snd mk))) ` set (re_finditer CITATION_PATTERN answer) \<inter> {1..n}"
    using f by (simp add: extract_citations_def)
  show "set (extract_citations answer n) \<subseteq> {i. \<exists>d. nat_of_digits d = i \<and> list_all is_digit d \<and> sublist (''['' @ d @ '']'') answer}"
  proof
    fix i assume "i \<in> set (extract_citations answer n)"
    then obtain m k where mk: "(m, k) \<in> set (re_finditer CITATION_PATTERN answer)" "nat_of_digits (group 1 k) = i"
      unfolding set by force
    obtain p0 p' t where t: "sublist (m @ t) answer" "(p', t, k) \<in> set (rmatch CITATION_PATTERN (p0, m @ t, []))"
      using finditer_matches [OF mk(1)] by blast
    obtain d where d: "m @ t = ''['' @ d @ '']'' @ t" "group 1 k = d" "list_all is_digit d"
      using match_citation [OF t(2)] by blast
    have "sublist (''['' @ d @ '']'') (m @ t)" unfolding d(1) sublist_def
      by (rule exI [of _ "[]"], rule exI [of _ t]) simp
    then have "sublist (''['' @ d @ '']'') answer" using t(1) by (rule sublist_order.order.trans)
    then show "i \<in> {i. \<exists>d. nat_of_digits d = i \<and> list_all is_digit d \<and> sublist (''['' @ d @ '']'') answer}"
      using mk(2) d by blast
  qed
qed

subsection \<open>Confidence\<close>

text \<open>The confidence of an answer is between zero and one whatever the verifier reported (a number
  out of range, an infinity or a not-a-number included); it is zero without sources and at most
  0.35 for an answer the verifier flagged.\<close>

theorem confidence_bounds:
  "0 \<le> confidence a \<and> confidence a \<le> 1
   \<and> (case ra_verification a of Some v \<Rightarrow> v_supported v \<or> confidence a \<le> 35 / 100 | None \<Rightarrow> True)
   \<and> (ra_sources a \<noteq> [] \<or> confidence a = 0)"
proof -
  have unit: "0 \<le> round2 x \<and> round2 x \<le> 1" if "0 \<le> x" "x \<le> 1" for x
    using round2_bounds [of 0 x 100] that by simp
  have low: "0 \<le> round2 x \<and> round2 x \<le> 35 / 100" if "0 \<le> x" "x \<le> 35 / 100" for x
    using round2_bounds [of 0 x 35] that by simp
  define s2 :: real where "s2 = 1 / 2 + (case ra_grade a of Some g \<Rightarrow> if g_sufficient g then 1 / 5 else 0 | None \<Rightarrow> 0)
    + (if ra_cited a \<noteq> [] then 1 / 10 else 0)"
  have s2: "1 / 2 \<le> s2" "s2 \<le> 1" by (auto simp: s2_def split: option.splits)
  have one: "0 \<le> min_one (max_confidence s2 c) \<and> min_one (max_confidence s2 c) \<le> 1" for c
    using s2 by (auto simp: min_one_def max_confidence_def split: pyfloat.splits)
  have "confidence a = (if ra_sources a = [] then 0
      else round2 (min_one (case ra_verification a of None \<Rightarrow> Fin s2
        | Some v \<Rightarrow> if v_supported v then max_confidence s2 (v_confidence v)
                    else Fin (if 35 / 100 < s2 then 35 / 100 else s2))))"
    unfolding confidence_def Let_def s2_def ..
  then have eq: "confidence a = (if ra_sources a = [] then 0
      else round2 (min_one (case ra_verification a of None \<Rightarrow> Fin s2
        | Some v \<Rightarrow> if v_supported v then max_confidence s2 (v_confidence v) else Fin (35 / 100))))"
    using s2 by simp
  have flagged: "0 \<le> round2 (min_one (Fin (35 / 100))) \<and> round2 (min_one (Fin (35 / 100))) \<le> 35 / 100"
    using low [of "35 / 100"] by (simp add: min_one_def)
  have "0 \<le> round2 (min_one (Fin s2)) \<and> round2 (min_one (Fin s2)) \<le> 1"
    using unit [of s2] s2 by (simp add: min_one_def)
  then show ?thesis unfolding eq using unit [OF conjunct1 [OF one] conjunct2 [OF one]] flagged
    by (auto split: option.splits)
qed

subsection \<open>Usage\<close>

lemma accounted_grade: "accounted (grade_retrieval lib q cs) snd"
  using accountedD [OF accounted_ask]
  by (fastforce simp: accounted_def grade_retrieval_def bind_llm_Inr bind_res_Inr_conv Let_def split: if_splits)

lemma accounted_rewrite: "accounted (rewrite_query q miss) snd"
  using accountedD [OF accounted_ask] by (fastforce simp: accounted_def rewrite_query_def bind_llm_Inr Let_def)

lemma accounted_verify: "accounted (verify_answer lib q a cs) snd"
  using accountedD [OF accounted_ask]
  by (fastforce simp: accounted_def verify_answer_def bind_llm_Inr bind_res_Inr_conv Let_def split: if_splits)

lemma corrective_step_cases:
  assumes "corrective_step lib retr q cs (g, w) = (Inr (gr, rw, cs', u), g1, w1)"
  shows "gw_total g1 = add_usage (gw_total g) u"
    and "cs' = cs \<or> (\<exists>q' retry. retr q' = Inr retry \<and> cs' = merge_chunks cs retry)"
  using assms accountedD [OF accounted_grade] accountedD [OF accounted_rewrite]
  by (fastforce simp: corrective_step_def bind_llm_Inr case_prod_unfold add_usage_assoc split: if_splits)+

lemma answer_from_cases:
  assumes "answer_from lib q verify mx gr rw cs u (g, w) = (Inr a, g1, w1)"
  shows "\<exists>v. gw_total g1 = add_usage (gw_total g) v \<and> ra_usage a = add_usage u v"
    and "ra_sources a = pk_chunks (pack_context cs q mx DEFAULT_RESERVED_TOKENS)"
    and "ra_cited a = extract_citations (ra_answer a) (length (ra_sources a))"
  using assms accountedD [OF accounted_ask] accountedD [OF accounted_verify]
  by (fastforce simp: answer_from_def bind_llm_Inr case_prod_unfold add_usage_assoc Let_def split: if_splits)+

text \<open>The two ways an answer is made: from nothing, or by the model from the packed chunks.\<close>

lemma answer_question_cases:
  assumes "answer_question lib retr q corrective verify mx (g, w) = (Inr a, g1, w1)"
  obtains u v where "gw_total g1 = add_usage (add_usage (gw_total g) u) v" "ra_usage a = add_usage u v"
      "ra_cited a = [] \<or> ra_cited a = extract_citations (ra_answer a) (length (ra_sources a))"
      "ra_sources a = [] \<or> (\<exists>cs0 cs. retr q = Inr cs0
          \<and> (cs = cs0 \<or> (\<exists>q' retry. retr q' = Inr retry \<and> cs = merge_chunks cs0 retry))
          \<and> ra_sources a = pk_chunks (pack_context cs q mx DEFAULT_RESERVED_TOKENS))"
proof -
  obtain cs0 gr rw cs u g2 w2 where cs0: "retr q = Inr cs0"
    and step: "(if corrective then corrective_step lib retr q cs0 else return_llm (None, None, cs0, no_usage)) (g, w)
        = (Inr (gr, rw, cs, u), g2, w2)"
    and fin: "(if cs = []
        then return_llm \<lparr>ra_question = q, ra_answer = NO_SOURCES, ra_sources = [], ra_cited = [],
               ra_grade = gr, ra_verification = None, ra_rewritten = None, ra_usage = u\<rparr>
        else answer_from lib q verify mx gr rw cs u) (g2, w2) = (Inr a, g1, w1)"
    using assms unfolding answer_question_def bind_llm_Inr lift_llm_Inr split_paired_Ex split_conv by auto
  have u: "gw_total g2 = add_usage (gw_total g) u"
    and cs: "cs = cs0 \<or> (\<exists>q' retry. retr q' = Inr retry \<and> cs = merge_chunks cs0 retry)"
    using step corrective_step_cases [of lib retr q cs0 g w gr rw cs u g2 w2] by (auto split: if_splits)
  show thesis
  proof (cases "cs = []")
    case True
    then show thesis using fin u by (intro that [of u no_usage]) auto
  next
    case False
    then have ans: "answer_from lib q verify mx gr rw cs u (g2, w2) = (Inr a, g1, w1)" using fin by simp
    obtain v where "gw_total g1 = add_usage (gw_total g2) v" "ra_usage a = add_usage u v"
      using answer_from_cases(1) [OF ans] by blast
    then show thesis using answer_from_cases(2,3) [OF ans] u cs cs0 by (intro that [of u v]) auto
  qed
qed

lemma citations_in_range: "i \<in> set (extract_citations a n) \<Longrightarrow> i \<in> {1..n}"
  using foldl_cite [of "[]" n "re_finditer CITATION_PATTERN a"] by (auto simp: extract_citations_def)

text \<open>Usage accounting of an answer: whenever \<open>answer_question\<close> answers, the usage it reports is
  exactly what its calls of the model, the corrective and the verifying ones included, added to the
  gateway's account; and its citations point into its sources.\<close>

theorem answer_usage_exact:
  "(case answer_question lib retr q corrective verify mx (g, w) of
      (Inr a, g1, w1) \<Rightarrow> gw_total g1 = add_usage (gw_total g) (ra_usage a)
        \<and> set (ra_cited a) \<subseteq> {1..length (ra_sources a)}
    | (Inl _, _) \<Rightarrow> True)"
proof -
  have "gw_total g1 = add_usage (gw_total g) (ra_usage a) \<and> set (ra_cited a) \<subseteq> {1..length (ra_sources a)}"
    if ans: "answer_question lib retr q corrective verify mx (g, w) = (Inr a, g1, w1)" for a g1 w1
  proof (rule answer_question_cases [OF ans])
    fix u v assume "gw_total g1 = add_usage (add_usage (gw_total g) u) v" "ra_usage a = add_usage u v"
      and "ra_cited a = [] \<or> ra_cited a = extract_citations (ra_answer a) (length (ra_sources a))"
    then show ?thesis using citations_in_range by (auto simp: add_usage_assoc)
  qed
  then show ?thesis by (auto split: prod.splits sum.splits)
qed


subsection \<open>What the verifier's answer can do\<close>

definition echo_gateway :: "string \<Rightarrow> message list list gateway" where
  "echo_gateway canned = \<lparr>gw_primary = echo_provider (Some canned), gw_fallback = None, gw_total = no_usage\<rparr>"

lemma ask_echo:
  assumes "well_formed (pt_template p)" "set (template_fields (pt_template p)) \<subseteq> fst ` set kw"
  shows "\<exists>c g w1. ask p kw t mx (echo_gateway canned, w) = (Inr c, g, w1) \<and> c_text c = canned"
proof -
  obtain body where "render p kw = Inr body" using render_ok [OF assms] by blast
  then show ?thesis
    by (simp add: ask_def gateway_complete_def gateway_call_def echo_gateway_def echo_provider_def
        echo_completion_def echo_respond_def Let_def)
qed

lemma verify_fields: "set (template_fields (pt_template VERIFY_ANSWER)) = {''question'', ''sources'', ''answer''}"
  by (simp add: prompt_fields)

lemma verify_well_formed: "well_formed (pt_template VERIFY_ANSWER)"
  by code_simp

text \<open>A verdict that cannot be read counts as support: when the verifier answers without any JSON,
  the answer is marked as supported with a confidence of one half, contrary to the comment that it
  is reported as unverified.  And a readable verdict whose confidence is \<open>null\<close> makes the whole
  verification, and with it the answer, fail with a \<open>TypeError\<close>.\<close>

theorem unreadable_verdict_is_support:
  "(\<exists>v u gw. verify_answer lib q a cs (echo_gateway ''I am not sure.'', w) = (Inr (v, u), gw)
      \<and> v_supported v \<and> v_confidence v = Fin (1 / 2))
   \<and> (\<exists>m gw. verify_answer (lib\<lparr>json_loads := (\<lambda>_. Some (PyDict [(''confidence'', PyNone)]))\<rparr>) q a cs
          (echo_gateway ''{}'', w) = (Inl (OtherExn (TypeErr m)), gw))"
proof
  let ?kw = "\<lambda>lib. [(''question'', q), (''answer'', a), (''sources'', format_sources (dash lib) cs)]"
  have ok: "set (template_fields (pt_template VERIFY_ANSWER)) \<subseteq> fst ` set (?kw lib)" for lib :: library
    by (simp add: verify_fields)
  obtain c g w1 where c: "ask VERIFY_ANSWER (?kw lib) 0 500 (echo_gateway ''I am not sure.'', w) = (Inr c, g, w1)"
      "c_text c = ''I am not sure.''"
    using ask_echo [OF verify_well_formed ok] by blast
  have "re_search JSON_BLOCK ''I am not sure.'' = None" by code_simp
  then have "parse_json_response lib ''I am not sure.'' = PyDict []" by (simp add: parse_json_response_def)
  then show "\<exists>v u gw. verify_answer lib q a cs (echo_gateway ''I am not sure.'', w) = (Inr (v, u), gw)
      \<and> v_supported v \<and> v_confidence v = Fin (1 / 2)"
    using c by (simp add: verify_answer_def bind_llm_def return_llm_def)
  let ?lib = "lib\<lparr>json_loads := (\<lambda>_. Some (PyDict [(''confidence'', PyNone)]))\<rparr>"
  obtain c g w1 where c: "ask VERIFY_ANSWER (?kw ?lib) 0 500 (echo_gateway ''{}'', w) = (Inr c, g, w1)"
      "c_text c = ''{}''"
    using ask_echo [OF verify_well_formed ok] by blast
  have "re_search JSON_BLOCK ''{}'' = Some (''{}'', [])" by code_simp
  then have "parse_json_response ?lib ''{}'' = PyDict [(''confidence'', PyNone)]"
    by (simp add: parse_json_response_def)
  then show "\<exists>m gw. verify_answer ?lib q a cs (echo_gateway ''{}'', w) = (Inl (OtherExn (TypeErr m)), gw)"
    using c by (simp add: verify_answer_def bind_llm_def lift_llm_def jget_def py_float_def)
qed

subsection \<open>The authorisation of an answer at a concrete input\<close>


end
