(* ===== verification/EmbedVendors.thy ===== *)
theory EmbedVendors
  imports Embeddings Rag "HOL-Library.List_Lexorder"
begin

section \<open>Embedding vendors (OpenAI, Jina, BGE and get_embedding_provider of retrieval/embeddings.py)\<close>

text \<open>
  What is sent and how replies are read; \<open>Embeddings\<close> has the loop over statuses alone.  The network
  is a function of its own state.  \<open>RuntimeErr\<close> stands for \<open>EmbeddingError\<close>.  Numbers in a reply that
  are not finite, and lists as indexes, are outside the model (a \<open>TypeError\<close> of it).
\<close>

datatype http_reply = HttpReply nat string "pyval option" | TransportFailed string

record http_request =
  hq_endpoint :: string
  hq_headers :: "(string \<times> string) list"
  hq_json :: pyval

type_synonym 'w send = "http_request \<Rightarrow> 'w \<Rightarrow> http_reply \<times> 'w"

record http_embedder =
  he_class :: string
  he_endpoint :: string
  he_key :: string
  he_payload :: "string list \<Rightarrow> pyval"
  he_parse :: "pyval \<Rightarrow> real list list res"

subsection \<open>Reading a reply\<close>

definition finite_number :: "pyval \<Rightarrow> real res" where
  "finite_number v = (case num_of v of Some (Fin x) \<Rightarrow> Inr x | _ \<Rightarrow> Inl (TypeErr ''unsupported operand type(s)''))"

definition as_vector :: "pyval \<Rightarrow> real list res" where
  "as_vector v = bind_res (as_list v) (mapM finite_number)"

text \<open>\<open>sorted\<close> compares the keys pairwise: numbers with numbers or texts with texts.  One item is not compared.\<close>

definition sorted_items :: "(pyval \<times> pyval) list \<Rightarrow> pyval list res" where
  "sorted_items kvs =
     (if length kvs \<le> 1 then Inr (map snd kvs)
      else case mapM (\<lambda>(k, v). bind_res (finite_number k) (\<lambda>x. Inr (x, v))) kvs of
        Inr ps \<Rightarrow> Inr (map snd (sort_key fst ps))
      | Inl _ \<Rightarrow>
          bind_res (mapM (\<lambda>(k, v). bind_res (as_str k) (\<lambda>s. Inr (map code_pt s, v))) kvs) (\<lambda>ps. Inr (map snd (sort_key fst ps))))"

definition parse_data :: "pyval \<Rightarrow> real list list res" where
  "parse_data payload =
     bind_res (bind_res (jkey ''data'' payload) as_list) (\<lambda>data.
     bind_res (mapM (\<lambda>item. bind_res (jkey ''index'' item) (\<lambda>k. Inr (k, item))) data) (\<lambda>kvs.
     bind_res (sorted_items kvs) (\<lambda>items.
     mapM (\<lambda>item. bind_res (jkey ''embedding'' item) as_vector) items)))"

subsection \<open>The vendors\<close>

definition quoted :: "string \<Rightarrow> string" where
  "quoted s = [CHR 0x27] @ s @ [CHR 0x27]"

definition new_http_embedder ::
    "string \<Rightarrow> string \<Rightarrow> string \<Rightarrow> (string list \<Rightarrow> pyval) \<Rightarrow> (pyval \<Rightarrow> real list list res) \<Rightarrow> http_embedder res" where
  "new_http_embedder cls endpoint key payload parse =
     (if key = []
      then Inl (RuntimeErr (cls @ '' requires an API key; set it in .env or switch EMBEDDING_PROVIDER to '' @ quoted ''hash'' @ '' for local development.''))
      else Inr \<lparr>he_class = cls, he_endpoint = endpoint, he_key = key, he_payload = payload, he_parse = parse\<rparr>)"

definition embed_headers :: "string \<Rightarrow> (string \<times> string) list" where
  "embed_headers key = [(''Authorization'', ''Bearer '' @ key), (''Content-Type'', ''application/json'')]"

definition openai_payload :: "string \<Rightarrow> int \<Rightarrow> string list \<Rightarrow> pyval" where
  "openai_payload model dims texts =
     PyDict [(''model'', PyStr model), (''input'', PyList (map PyStr texts)), (''dimensions'', PyInt dims)]"

definition jina_payload :: "string \<Rightarrow> string \<Rightarrow> string list \<Rightarrow> pyval" where
  "jina_payload model task texts =
     PyDict [(''model'', PyStr model), (''input'', PyList (map PyStr texts)), (''task'', PyStr task)]"

definition openai_embedder :: "string \<Rightarrow> string \<Rightarrow> int \<Rightarrow> http_embedder res" where
  "openai_embedder key model dims =
     new_http_embedder ''OpenAIEmbeddingProvider'' ''https://api.openai.com/v1/embeddings'' key (openai_payload model dims) parse_data"

definition jina_embedder :: "string \<Rightarrow> string \<Rightarrow> http_embedder res" where
  "jina_embedder key model =
     new_http_embedder ''JinaEmbeddingProvider'' ''https://api.jina.ai/v1/embeddings'' key (jina_payload model ''retrieval.passage'') parse_data"

subsection \<open>The loop\<close>

definition reply_failed :: "nat \<Rightarrow> bool" where
  "reply_failed status \<longleftrightarrow> status = 429 \<or> 500 \<le> status"

fun vendor_loop :: "http_embedder \<Rightarrow> 'w send \<Rightarrow> string list \<Rightarrow> string \<Rightarrow> nat \<Rightarrow> 'w \<Rightarrow> real list list res \<times> 'w" where
  "vendor_loop e send texts err 0 w =
     (Inl (RuntimeErr (''Embedding request failed after '' @ str_nat EMBED_MAX_RETRIES @ '' attempts: '' @ err)), w)"
| "vendor_loop e send texts err (Suc left) w =
     (case send \<lparr>hq_endpoint = he_endpoint e, hq_headers = embed_headers (he_key e), hq_json = he_payload e texts\<rparr> w of
        (TransportFailed msg, w) \<Rightarrow> vendor_loop e send texts msg left w
      | (HttpReply status body json, w) \<Rightarrow>
          if reply_failed status then vendor_loop e send texts (''Retryable status '' @ str_nat status) left w
          else if \<not> (200 \<le> status \<and> status < 300)
          then (Inl (RuntimeErr (''Embedding request failed ('' @ str_nat status @ ''): '' @ take 300 body)), w)
          else
            (case json of
               None \<Rightarrow> (Inl (ValueError ''Expecting value''), w)
             | Some payload \<Rightarrow> (bind_res (he_parse e payload) (\<lambda>vs. Inr (map l2_normalize vs)), w)))"

definition vendor_embed_documents :: "http_embedder \<Rightarrow> 'w send \<Rightarrow> string list \<Rightarrow> 'w \<Rightarrow> real list list res \<times> 'w" where
  "vendor_embed_documents e send texts w = (if texts = [] then (Inr [], w) else vendor_loop e send texts ''None'' EMBED_MAX_RETRIES w)"

definition first_vector :: "real list list res \<times> 'w \<Rightarrow> real list res \<times> 'w" where
  "first_vector r = (bind_res (fst r) (\<lambda>vs. case vs of [] \<Rightarrow> Inl IndexError | v # _ \<Rightarrow> Inr v), snd r)"

definition vendor_embed_query :: "http_embedder \<Rightarrow> 'w send \<Rightarrow> string \<Rightarrow> 'w \<Rightarrow> real list res \<times> 'w" where
  "vendor_embed_query e send q w = first_vector (vendor_embed_documents e send [q] w)"

text \<open>The query task of Jina: the payload is replaced for the call.\<close>

definition jina_embed_query :: "string \<Rightarrow> http_embedder \<Rightarrow> 'w send \<Rightarrow> string \<Rightarrow> 'w \<Rightarrow> real list res \<times> 'w" where
  "jina_embed_query model e send q w =
     first_vector (vendor_embed_documents (e\<lparr>he_payload := jina_payload model ''retrieval.query''\<rparr>) send [q] w)"

subsection \<open>BGE and the choice of a provider\<close>

text \<open>The local model, where its package is installed: the normalised vectors of the texts.\<close>

type_synonym encoder = "(string \<Rightarrow> string list \<Rightarrow> real list list res) option"

definition bge_embed_documents :: "encoder \<Rightarrow> string \<Rightarrow> string list \<Rightarrow> real list list res" where
  "bge_embed_documents enc model texts =
     (case enc of
        None \<Rightarrow> Inl (RuntimeErr (''BGE embeddings require sentence-transformers. Install it, or set EMBEDDING_PROVIDER to '' @ quoted ''openai''
          @ '', '' @ quoted ''jina'' @ '', or '' @ quoted ''hash'' @ ''.''))
      | Some encode \<Rightarrow> encode model texts)"

definition bge_embed_query :: "encoder \<Rightarrow> string \<Rightarrow> string \<Rightarrow> real list res" where
  "bge_embed_query enc model q =
     bind_res (bge_embed_documents enc model [''Represent this sentence for searching relevant passages: '' @ q])
       (\<lambda>vs. case vs of [] \<Rightarrow> Inl IndexError | v # _ \<Rightarrow> Inr v)"

record embedding_settings =
  es_provider :: string
  es_model :: string
  es_dimensions :: nat
  es_openai_key :: string
  es_jina_key :: string

datatype embedding_provider = OpenAIEmbeddings http_embedder | JinaEmbeddings string http_embedder | BGEEmbeddings string | HashEmbeddings nat

definition get_embedding_provider :: "library \<Rightarrow> embedding_settings \<Rightarrow> embedding_provider res" where
  "get_embedding_provider lib s =
     (let provider = lower (es_provider s) in
      if provider = ''openai''
      then bind_res (openai_embedder (es_openai_key s) (es_model s) (int (es_dimensions s))) (\<lambda>e. Inr (OpenAIEmbeddings e))
      else if provider = ''jina'' then bind_res (jina_embedder (es_jina_key s) (es_model s)) (\<lambda>e. Inr (JinaEmbeddings (es_model s) e))
      else if provider = ''bge'' then Inr (BGEEmbeddings (es_model s))
      else if provider = ''hash'' then Inr (HashEmbeddings (es_dimensions s))
      else Inl (RuntimeErr (''Unknown embedding provider '' @ repr_of lib (PyStr (es_provider s)) @ ''; expected one of: openai, jina, bge, hash'')))"

definition provider_documents ::
    "embedding_provider \<Rightarrow> (string \<Rightarrow> nat list) \<Rightarrow> encoder \<Rightarrow> 'w send \<Rightarrow> string list \<Rightarrow> 'w \<Rightarrow> real list list res \<times> 'w" where
  "provider_documents p sha256 enc send texts w =
     (case p of
        OpenAIEmbeddings e \<Rightarrow> vendor_embed_documents e send texts w
      | JinaEmbeddings model e \<Rightarrow> vendor_embed_documents e send texts w
      | BGEEmbeddings model \<Rightarrow> (bge_embed_documents enc model texts, w)
      | HashEmbeddings dims \<Rightarrow> (hash_embed_documents sha256 dims texts, w))"

definition provider_query ::
    "embedding_provider \<Rightarrow> (string \<Rightarrow> nat list) \<Rightarrow> encoder \<Rightarrow> 'w send \<Rightarrow> string \<Rightarrow> 'w \<Rightarrow> real list res \<times> 'w" where
  "provider_query p sha256 enc send q w =
     (case p of
        OpenAIEmbeddings e \<Rightarrow> vendor_embed_query e send q w
      | JinaEmbeddings model e \<Rightarrow> jina_embed_query model e send q w
      | BGEEmbeddings model \<Rightarrow> (bge_embed_query enc model q, w)
      | HashEmbeddings dims \<Rightarrow> (embed_query (hash_embed_documents sha256 dims) q, w))"

subsection \<open>Vectors in the order of the texts\<close>

text \<open>The items of a reply for the vectors \<open>vs\<close>, in order.\<close>

definition json_vector :: "real list \<Rightarrow> pyval" where
  "json_vector v = PyList (map (\<lambda>x. PyFloat (Fin x)) v)"

definition json_items :: "real list list \<Rightarrow> pyval list" where
  "json_items vs = map (\<lambda>(i, v). PyDict [(''object'', PyStr ''embedding''), (''index'', PyInt (int i)), (''embedding'', json_vector v)]) (enumerate 0 vs)"

definition embedding_reply :: "pyval list \<Rightarrow> pyval" where
  "embedding_reply items = PyDict [(''data'', PyList items)]"

lemma as_json_vector: "as_vector (json_vector v) = Inr v"
  unfolding as_vector_def json_vector_def as_list_def by (simp, induction v) (simp_all add: finite_number_def)

lemma parse_permuted:
  assumes "mset items = mset (json_items vs)"
  shows "parse_data (embedding_reply items) = Inr vs"
proof -
  define item where "item = (\<lambda>(i, v). PyDict [(''object'', PyStr ''embedding''), (''index'', PyInt (int i)), (''embedding'', json_vector v)])"
  have json: "json_items vs = map item (enumerate 0 vs)" by (simp add: json_items_def item_def)
  have inj: "inj item" by (rule injI) (auto simp: item_def json_vector_def inj_def dest!: map_injective split: prod.splits)
  have "set items = item ` set (enumerate 0 vs)" using assms mset_eq_setD json by fastforce
  then obtain ps where ps: "items = map item ps" using ex_map_conv [of items item] by blast
  then have "image_mset item (mset ps) = image_mset item (mset (enumerate 0 vs))" using assms by (simp add: json)
  then have same: "mset ps = mset (enumerate 0 vs)" using multiset.inj_map [OF inj] by (meson injD)
  have keys: "mapM (\<lambda>item. bind_res (jkey ''index'' item) (\<lambda>k. Inr (k, item))) items = Inr (map (\<lambda>p. (PyInt (int (fst p)), item p)) ps)"
    unfolding ps mapM_Inr_conv by (auto simp: list_all2_conv_all_nth item_def jkey_def split: prod.splits)
  have nums: "mapM (\<lambda>(k, v). bind_res (finite_number k) (\<lambda>x. Inr (x, v))) (map (\<lambda>p. (PyInt (int (fst p)), item p)) ps)
      = Inr (map (\<lambda>p. (real (fst p), item p)) ps)"
    unfolding mapM_Inr_conv by (auto simp: list_all2_conv_all_nth finite_number_def)
  have sorted: "sort_key fst (map (\<lambda>p. (real (fst p), item p)) ps) = map (\<lambda>p. (real (fst p), item p)) (enumerate 0 vs)"
  proof (rule sort_key_inj_key_eq)
    show "mset (map (\<lambda>p. (real (fst p), item p)) ps) = mset (map (\<lambda>p. (real (fst p), item p)) (enumerate 0 vs))" by (simp add: same)
    have "distinct (map fst (enumerate 0 vs))" by simp
    then have "inj_on fst (set ps)" unfolding distinct_map mset_eq_setD [OF same] by blast
    then show "inj_on fst (set (map (\<lambda>p. (real (fst p), item p)) ps))" by (auto simp: inj_on_def)
    have "map fst (map (\<lambda>p. (real (fst p), item p)) (enumerate 0 vs)) = map real (map fst (enumerate 0 vs))"
      unfolding map_map by (simp add: comp_def)
    then show "sorted (map fst (map (\<lambda>p. (real (fst p), item p)) (enumerate 0 vs)))"
      by (simp add: sorted_map sorted_wrt_upt)
  qed
  have "sorted_items (map (\<lambda>p. (PyInt (int (fst p)), item p)) ps) = Inr (map item (enumerate 0 vs))"
  proof (cases "length ps \<le> 1")
    case True
    then have "ps = enumerate 0 vs" using same by (cases ps; cases "enumerate 0 vs") auto
    then show ?thesis using True by (simp add: sorted_items_def)
  next
    case False
    then show ?thesis by (simp add: sorted_items_def nums sorted comp_def)
  qed
  moreover have "mapM (\<lambda>item. bind_res (jkey ''embedding'' item) as_vector) (map item (enumerate 0 vs)) = Inr (map snd (enumerate 0 vs))"
    unfolding mapM_Inr_conv by (simp add: list_all2_conv_all_nth nth_enumerate_eq item_def jkey_def as_json_vector)
  moreover have "bind_res (jkey ''data'' (embedding_reply items)) as_list = Inr items"
    by (simp add: embedding_reply_def jkey_def as_list_def)
  ultimately show ?thesis by (simp add: parse_data_def keys)
qed

text \<open>A network that answers from a script and keeps what it was sent.\<close>

definition scripted :: "(http_reply list \<times> http_request list) send" where
  "scripted rq w = (hd (fst w), (tl (fst w), snd w @ [rq]))"

definition transient_reply :: "http_reply \<Rightarrow> bool" where
  "transient_reply r \<longleftrightarrow> (case r of TransportFailed m \<Rightarrow> True | HttpReply status body json \<Rightarrow> reply_failed status)"

definition request_of :: "http_embedder \<Rightarrow> string list \<Rightarrow> http_request" where
  "request_of e texts = \<lparr>hq_endpoint = he_endpoint e, hq_headers = embed_headers (he_key e), hq_json = he_payload e texts\<rparr>"

lemma vendor_loop_transient:
  assumes "list_all transient_reply fs" "length fs \<le> left"
  shows "\<exists>err. vendor_loop e scripted texts err0 left (fs @ rs, sent)
    = vendor_loop e scripted texts err (left - length fs) (rs, sent @ replicate (length fs) (request_of e texts))"
  using assms
proof (induction fs arbitrary: err0 left sent)
  case (Cons f fs)
  obtain n where n: "left = Suc n" using Cons.prems(2) by (cases left) auto
  have "\<exists>err. vendor_loop e scripted texts err0 left ((f # fs) @ rs, sent)
      = vendor_loop e scripted texts err n (fs @ rs, sent @ [request_of e texts])"
    using Cons.prems(1) by (auto simp: n scripted_def transient_reply_def request_of_def split: http_reply.splits)
  then obtain err1 where 1: "vendor_loop e scripted texts err0 left ((f # fs) @ rs, sent)
      = vendor_loop e scripted texts err1 n (fs @ rs, sent @ [request_of e texts])" by blast
  have "list_all transient_reply fs" "length fs \<le> n" using Cons.prems n by simp_all
  from Cons.IH [OF this, of err1 "sent @ [request_of e texts]"] show ?case unfolding 1 by (simp add: n)
qed auto

text \<open>C35: A vendor's vectors are those of the texts, in their order.  Whatever transient failures come first, up to
  two of them, and in whatever order the items of the reply are, the answer is the normalised vector
  of each text at its place; every attempt sent the same request, with the texts and the key.  Three
  transient failures are the error that the ingestion task retries, after three requests.\<close>

theorem vendor_vectors_in_text_order:
  assumes "list_all transient_reply fs" "length fs < 3" "mset items = mset (json_items vs)" "he_parse e = parse_data" "texts \<noteq> []"
    and "list_all transient_reply gs" "length gs = 3"
  shows "vendor_embed_documents e scripted texts (fs @ HttpReply 200 body (Some (embedding_reply items)) # rs, [])
      = (Inr (map l2_normalize vs), (rs, replicate (length fs + 1) (request_of e texts)))
    \<and> (\<exists>err. vendor_embed_documents e scripted texts (gs @ rs, [])
        = (Inl (RuntimeErr (''Embedding request failed after 3 attempts: '' @ err)), (rs, replicate 3 (request_of e texts))))"
proof
  obtain err where "vendor_loop e scripted texts ''None'' 3 (fs @ HttpReply 200 body (Some (embedding_reply items)) # rs, [])
      = vendor_loop e scripted texts err (3 - length fs) (HttpReply 200 body (Some (embedding_reply items)) # rs, replicate (length fs) (request_of e texts))"
    using vendor_loop_transient [OF assms(1), of 3 e texts "''None''" _ "[]"] assms(2) by auto
  moreover obtain n where "3 - length fs = Suc n" using assms(2) by (metis zero_less_diff gr0_implies_Suc)
  ultimately show "vendor_embed_documents e scripted texts (fs @ HttpReply 200 body (Some (embedding_reply items)) # rs, [])
      = (Inr (map l2_normalize vs), (rs, replicate (length fs + 1) (request_of e texts)))"
    using parse_permuted [OF assms(3)] assms(4,5)
    by (simp add: vendor_embed_documents_def EMBED_MAX_RETRIES_def scripted_def reply_failed_def request_of_def replicate_append_same flip: replicate_Suc)
  show "\<exists>err. vendor_embed_documents e scripted texts (gs @ rs, [])
      = (Inl (RuntimeErr (''Embedding request failed after 3 attempts: '' @ err)), (rs, replicate 3 (request_of e texts)))"
  proof -
    have "str_nat 3 = ''3''" by code_simp
    then show ?thesis using vendor_loop_transient [OF assms(6), of 3 e texts "''None''" rs "[]"] assms(5,7)
      by (auto simp: vendor_embed_documents_def EMBED_MAX_RETRIES_def)
  qed
qed

definition jina_test :: http_embedder where
  "jina_test = \<lparr>he_class = ''JinaEmbeddingProvider'', he_endpoint = ''https://api.jina.ai/v1/embeddings'', he_key = ''k'',
     he_payload = jina_payload ''m'' ''retrieval.passage'', he_parse = parse_data\<rparr>"

theorem vendor_vectors_in_text_order_witness:
  "vendor_embed_documents jina_test scripted [''a'', ''b'']
      ([TransportFailed ''timeout'', HttpReply 200 [] (Some (embedding_reply (rev (json_items [[3, 4], [0, 1]]))))], [])
    = (Inr [[3 / 5, 4 / 5], [0, 1]], ([], replicate 2 (request_of jina_test [''a'', ''b''])))"
proof -
  have "list_all transient_reply [TransportFailed ''timeout'']" "list_all transient_reply (replicate 3 (HttpReply 503 [] None))"
    by (simp_all add: transient_reply_def reply_failed_def numeral_3_eq_3)
  from vendor_vectors_in_text_order [OF this(1) _ _ _ _ this(2), of "rev (json_items [[3, 4], [0, 1]])" "[[3, 4], [0, 1]]" jina_test "[''a'', ''b'']" "[]" "[]"]
  show ?thesis by (simp add: jina_test_def l2_normalize_def norm2_def numeral_2_eq_2)
qed

subsection \<open>Replies that are not understood\<close>

text \<open>A success whose body is not what the vendor documents is not an \<open>EmbeddingError\<close>: the exception of the
  reading escapes, and the ingestion task, which retries embedding errors only, does not run again.\<close>

theorem malformed_reply_escapes:
  "case fst (vendor_embed_documents jina_test scripted [''a''] ([HttpReply 200 [] (Some (PyDict [(''detail'', PyStr ''overloaded'')]))], [])) of
     Inl e \<Rightarrow> e = KeyError | Inr vs \<Rightarrow> False"
  by (simp add: vendor_embed_documents_def EMBED_MAX_RETRIES_def numeral_3_eq_3 scripted_def reply_failed_def jina_test_def parse_data_def jkey_def)

text \<open>Queries and passages: Jina is told which of the two a text is, BGE gets its instruction before a query
  only, and the others treat them alike.\<close>

theorem asymmetric_queries:
  "case get_embedding_provider lib s of
     Inl e \<Rightarrow> True
   | Inr (JinaEmbeddings m e) \<Rightarrow>
       provider_query (JinaEmbeddings m e) sha enc send q w
         = first_vector (vendor_embed_documents (e\<lparr>he_payload := jina_payload (es_model s) ''retrieval.query''\<rparr>) send [q] w)
       \<and> he_payload e = jina_payload (es_model s) ''retrieval.passage''
   | Inr p \<Rightarrow>
       provider_query p sha enc send q w
         = first_vector (provider_documents p sha enc send
             [case p of BGEEmbeddings m \<Rightarrow> ''Represent this sentence for searching relevant passages: '' @ q | _ \<Rightarrow> q] w)"
  by (auto simp: get_embedding_provider_def Let_def provider_query_def provider_documents_def vendor_embed_query_def jina_embed_query_def
      bge_embed_query_def embed_query_def first_vector_def jina_embedder_def new_http_embedder_def bind_res_def split: sum.splits list.splits embedding_provider.splits)

end
