(* ===== verification/Grouping.thy ===== *)
theory Grouping
  imports Prelude
begin

section \<open>Grouping rows\<close>

text \<open>
  What the analyses do with lists of rows: \<open>defaultdict(list)\<close> filled by \<open>append\<close>, a dictionary that
  keeps the last row of a key, lists without repetition, the pairs of two nested loops.
\<close>

text \<open>\<open>defaultdict(list)\<close> filled by \<open>append\<close>: the groups in the order of their first elements.\<close>

definition group_add :: "'k \<times> 'v \<Rightarrow> ('k, 'v list) dict \<Rightarrow> ('k, 'v list) dict" where
  "group_add kv d = dset (fst kv) ((case dget d (fst kv) of None \<Rightarrow> [] | Some vs \<Rightarrow> vs) @ [snd kv]) d"

definition group_all :: "('k \<times> 'v) list \<Rightarrow> ('k, 'v list) dict" where
  "group_all kvs = fold group_add kvs []"

definition add_once :: "'a \<Rightarrow> 'a list \<Rightarrow> 'a list" where
  "add_once x xs = (if x \<in> set xs then xs else xs @ [x])"

text \<open>The pairs of a list, the earlier element first: two nested loops over \<open>xs\<close> and \<open>xs[i + 1:]\<close>.\<close>

fun ordered_pairs :: "'a list \<Rightarrow> ('a \<times> 'a) list" where
  "ordered_pairs [] = []"
| "ordered_pairs (x # xs) = map (Pair x) xs @ ordered_pairs xs"

definition keep_last :: "('a \<Rightarrow> 'k) \<Rightarrow> 'a list \<Rightarrow> ('k, 'a) dict" where
  "keep_last f xs = fold (\<lambda>x. dset (f x) x) xs []"

subsection \<open>Groups keep everything\<close>

lemma group_all_snoc: "group_all (kvs @ [kv]) = group_add kv (group_all kvs)"
  by (simp add: group_all_def)

lemma dict_ok_group [simp]: "dict_ok (group_all kvs)"
  by (induction kvs rule: rev_induct) (simp_all add: group_all_snoc group_add_def, simp add: group_all_def)

lemma dget_group:
  "dget (group_all kvs) k = (if k \<in> fst ` set kvs then Some (map snd (filter (\<lambda>kv. fst kv = k) kvs)) else None)"
proof (induction kvs rule: rev_induct)
  case Nil
  then show ?case by (simp add: group_all_def)
next
  case (snoc kv kvs)
  have new: "k \<notin> fst ` set kvs \<Longrightarrow> filter (\<lambda>x. fst x = k) kvs = []" by (force simp: filter_empty_conv)
  show ?case
  proof (cases "fst kv = k")
    case True
    then show ?thesis using snoc new by (auto simp: group_all_snoc group_add_def)
  next
    case False
    then show ?thesis using snoc by (auto simp: group_all_snoc group_add_def)
  qed
qed

lemma in_group: "(k, vs) \<in> set (group_all kvs) \<longleftrightarrow> k \<in> fst ` set kvs \<and> vs = map snd (filter (\<lambda>kv. fst kv = k) kvs)"
  by (auto simp: dict_ok_mem dget_group)

lemma dkeys_group: "set (dkeys (group_all kvs)) = fst ` set kvs"
proof (rule set_eqI)
  fix k
  have "k \<in> set (dkeys (group_all kvs)) \<longleftrightarrow> dget (group_all kvs) k \<noteq> None" by (simp add: map_of_eq_None_iff)
  then show "k \<in> set (dkeys (group_all kvs)) \<longleftrightarrow> k \<in> fst ` set kvs" by (simp add: dget_group)
qed

text \<open>The elements of all groups together are those of the list.\<close>

definition size_all :: "('k, 'v list) dict \<Rightarrow> nat" where
  "size_all d = sum_list (map (\<lambda>kv. length (snd kv)) d)"

lemma size_dset:
  "size_all (dset k ws d) + (case dget d k of None \<Rightarrow> 0 | Some vs \<Rightarrow> length vs) = size_all d + length ws"
  by (induction d) (auto simp: size_all_def)

lemma length_groups: "size_all (group_all kvs) = length kvs"
proof (induction kvs rule: rev_induct)
  case Nil
  then show ?case by (simp add: group_all_def size_all_def)
next
  case (snoc kv kvs)
  show ?case
    using snoc size_dset [of "fst kv" "(case dget (group_all kvs) (fst kv) of None \<Rightarrow> [] | Some vs \<Rightarrow> vs) @ [snd kv]" "group_all kvs"]
    by (auto simp: group_all_snoc group_add_def split: option.splits)
qed

subsection \<open>Pairs\<close>

lemma ordered_pairs_set:
  "(x, y) \<in> set (ordered_pairs xs) \<Longrightarrow> x \<in> set xs \<and> y \<in> set xs"
  by (induction xs) auto

lemma ordered_pairs_distinct:
  "distinct (map f xs) \<Longrightarrow> (x, y) \<in> set (ordered_pairs xs) \<Longrightarrow> f x \<noteq> f y"
proof (induction xs)
  case (Cons a xs)
  show ?case
  proof (cases "(x, y) \<in> set (ordered_pairs xs)")
    case True
    then show ?thesis using Cons by simp
  next
    case False
    then have "x = a" "y \<in> set xs" using Cons.prems(2) by auto
    then show ?thesis using Cons.prems(1) by (metis distinct.simps(2) image_eqI image_set list.simps(9))
  qed
qed simp

lemma keep_last_snoc: "keep_last f (xs @ [x]) = dset (f x) x (keep_last f xs)"
  by (simp add: keep_last_def)

lemma dict_ok_keep_last [simp]: "dict_ok (keep_last f xs)"
  by (induction xs rule: rev_induct) (simp_all add: keep_last_snoc, simp add: keep_last_def)

lemma dget_keep_last: "dget (keep_last f xs) k = (if k \<in> f ` set xs then Some (last (filter (\<lambda>x. f x = k) xs)) else None)"
proof (induction xs rule: rev_induct)
  case Nil
  then show ?case by (simp add: keep_last_def)
next
  case (snoc x xs)
  then show ?case by (cases "f x = k") (auto simp: keep_last_snoc)
qed

lemma sum_list_sort_desc: "sum_list (map f (sort_desc g xs)) = (sum_list (map f xs) :: nat)"
  using mset_sort_desc [of g xs] by (metis mset_map sum_mset_sum_list)

end
