(* ===== verification/RemoteGraph.thy ===== *)
theory RemoteGraph
  imports GraphStore Grouping PyVal
begin

section \<open>The Neo4j store (Neo4jGraphStore and get_graph_store of graph/store.py)\<close>

text \<open>
  What the store sends to the database and how it reads the answers.  The database is a function of
  its own state: it is given the text of a query and its parameters and answers rows or the text of
  an exception (\<open>RuntimeErr\<close> stands for those of the driver).  The contents of property dictionaries
  are looked up in a heap, as in \<open>GraphStore\<close>; keys and labels that come back are texts.
\<close>

type_synonym row = "(string, pyval) dict"
type_synonym 'w cypher_run = "string \<Rightarrow> row \<Rightarrow> 'w \<Rightarrow> row list res \<times> 'w"

subsection \<open>The schema\<close>

definition CONSTRAINTS :: "string list" where
  "CONSTRAINTS = map (\<lambda>l. ''CREATE CONSTRAINT '' @ lower (label_value l) @ ''_key IF NOT EXISTS FOR (n:'' @ label_value l
     @ '') REQUIRE n.key IS UNIQUE'') all_labels"

definition INDEXES :: "string list" where
  "INDEXES = [''CREATE INDEX paper_workspace IF NOT EXISTS FOR (n:Paper) ON (n.workspace_id)'',
     ''CREATE INDEX paper_year IF NOT EXISTS FOR (n:Paper) ON (n.year)'']"

text \<open>Statements one after the other; an exception ends the rest.\<close>

fun run_all :: "'w cypher_run \<Rightarrow> (string \<times> row) list \<Rightarrow> 'w \<Rightarrow> unit res \<times> 'w" where
  "run_all run [] w = (Inr (), w)"
| "run_all run ((q, ps) # qs) w = (case run q ps w of (Inl e, w) \<Rightarrow> (Inl e, w) | (Inr _, w) \<Rightarrow> run_all run qs w)"

definition ensure_schema :: "'w cypher_run \<Rightarrow> 'w \<Rightarrow> unit res \<times> 'w" where
  "ensure_schema run w = run_all run (map (\<lambda>q. (q, [])) (CONSTRAINTS @ INDEXES)) w"

subsection \<open>Updates\<close>

definition node_statement :: "string \<Rightarrow> string" where
  "node_statement label = ''UNWIND $rows AS row MERGE (n:'' @ label @ '' {key: row.key}) SET n += row.props''"

definition edge_statement :: "string \<times> string \<times> string \<Rightarrow> string" where
  "edge_statement = (\<lambda>(start, ty, end). ''UNWIND $rows AS row MATCH (a:'' @ start @ '' {key: row.start}) MATCH (b:'' @ end
     @ '' {key: row.end}) MERGE (a)-[r:'' @ ty @ '']->(b) SET r += row.props'')"

definition node_row :: "(nat \<Rightarrow> props) \<Rightarrow> graph_node \<Rightarrow> pyval" where
  "node_row h n = PyDict [(''key'', PyStr (n_key n)), (''props'', PyDict (h (n_props n)))]"

definition edge_row :: "(nat \<Rightarrow> props) \<Rightarrow> graph_rel \<Rightarrow> pyval" where
  "edge_row h e = PyDict [(''start'', PyStr (n_key (r_start e))), (''end'', PyStr (n_key (r_end e))), (''props'', PyDict (h (r_props e)))]"

definition edge_signature :: "graph_rel \<Rightarrow> string \<times> string \<times> string" where
  "edge_signature e = (n_label (r_start e), r_type e, n_label (r_end e))"

definition rows_param :: "pyval list \<Rightarrow> row" where
  "rows_param rs = [(''rows'', PyList rs)]"

definition counted :: "nat \<Rightarrow> unit res \<times> 'w \<Rightarrow> nat res \<times> 'w" where
  "counted n r = (bind_res (fst r) (\<lambda>_. Inr n), snd r)"

definition node_statements :: "(nat \<Rightarrow> props) \<Rightarrow> graph_node list \<Rightarrow> (string \<times> row) list" where
  "node_statements h ns = map (\<lambda>(label, rs). (node_statement label, rows_param rs)) (group_all (map (\<lambda>n. (n_label n, node_row h n)) ns))"

definition edge_statements :: "(nat \<Rightarrow> props) \<Rightarrow> graph_rel list \<Rightarrow> (string \<times> row) list" where
  "edge_statements h es = map (\<lambda>(sig, rs). (edge_statement sig, rows_param rs)) (group_all (map (\<lambda>e. (edge_signature e, edge_row h e)) es))"

definition neo4j_upsert_nodes :: "'w cypher_run \<Rightarrow> (nat \<Rightarrow> props) \<Rightarrow> graph_node list \<Rightarrow> 'w \<Rightarrow> nat res \<times> 'w" where
  "neo4j_upsert_nodes run h ns w =
     (if ns = [] then (Inr 0, w) else counted (length ns) (run_all run (node_statements h ns) w))"

definition neo4j_upsert_relationships :: "'w cypher_run \<Rightarrow> (nat \<Rightarrow> props) \<Rightarrow> graph_rel list \<Rightarrow> 'w \<Rightarrow> nat res \<times> 'w" where
  "neo4j_upsert_relationships run h es w =
     (if es = [] then (Inr 0, w) else counted (length es) (run_all run (edge_statements h es) w))"

definition neo4j_delete_paper :: "'w cypher_run \<Rightarrow> string \<Rightarrow> 'w \<Rightarrow> int res \<times> 'w" where
  "neo4j_delete_paper run paper_id w =
     (case run ''MATCH (p:Paper {key: $key}) DETACH DELETE p RETURN count(p) AS deleted'' [(''key'', PyStr (lower paper_id))] w of
        (r, w) \<Rightarrow> (bind_res r (\<lambda>rows. case rows of [] \<Rightarrow> Inr 0 | row # _ \<Rightarrow> bind_res (jkey ''deleted'' (PyDict row)) as_int), w))"

subsection \<open>Queries\<close>

text \<open>A node read back: its label and key as texts, its properties as they are.\<close>

type_synonym found_node = "string \<times> string \<times> row"

definition read_node :: "string \<Rightarrow> row \<Rightarrow> found_node res" where
  "read_node label ps =
     bind_res (case dget ps ''key'' of None \<Rightarrow> Inr [] | Some v \<Rightarrow> as_str v) (\<lambda>key.
     bind_res (GraphNode label key 0) (\<lambda>n. Inr (n_label n, n_key n, ps)))"

record neo4j_hit =
  nh_node :: found_node
  nh_rel :: "string option"
  nh_dir :: string
  nh_dist :: int

definition as_props :: "pyval \<Rightarrow> row res" where
  "as_props v = (case v of PyDict d \<Rightarrow> Inr d | _ \<Rightarrow> Inl (TypeErr ''cannot convert to dict''))"

definition read_hit :: "string \<Rightarrow> row \<Rightarrow> neo4j_hit res" where
  "read_hit label row =
     bind_res (bind_res (jkey ''other'' (PyDict row)) as_props) (\<lambda>ps.
     bind_res (jkey ''labels'' (PyDict row)) (\<lambda>labels.
     bind_res (if truthy labels then bind_res (jfirst labels) as_str else Inr label) (\<lambda>node_label.
     bind_res (read_node node_label ps) (\<lambda>n.
     bind_res (bind_res (jkey ''rel'' (PyDict row)) as_opt_str) (\<lambda>rel.
     bind_res (bind_res (jkey ''distance'' (PyDict row)) as_int) (\<lambda>d.
     Inr \<lparr>nh_node = n, nh_rel = rel, nh_dir = ''out'', nh_dist = d\<rparr>))))))"

definition neighbors_query :: "string \<Rightarrow> int \<Rightarrow> string list \<Rightarrow> string" where
  "neighbors_query label depth types =
     ''MATCH path = (start:'' @ label @ '' {key: $key})-['' @ (if types = [] then [] else CHR '':'' # join ''|'' types) @ ''*1..''
       @ str_int (max depth 1) @ '']-(other) RETURN other, labels(other) AS labels, length(path) AS distance, ''
       @ ''type(last(relationships(path))) AS rel LIMIT $limit''"

definition neo4j_neighbors :: "'w cypher_run \<Rightarrow> string \<Rightarrow> string \<Rightarrow> int \<Rightarrow> string list \<Rightarrow> int \<Rightarrow> 'w \<Rightarrow> neo4j_hit list res \<times> 'w" where
  "neo4j_neighbors run label key depth types limit w =
     (case run (neighbors_query label depth types) [(''key'', PyStr (normalize_key key)), (''limit'', PyInt limit)] w of
        (r, w) \<Rightarrow> (bind_res r (mapM (read_hit label)), w))"

definition find_query :: "string \<Rightarrow> string option \<Rightarrow> string" where
  "find_query label contains =
     ''MATCH (n:'' @ label @ '') '' @ (case contains of Some (c # s) \<Rightarrow> ''WHERE n.key CONTAINS $needle '' | _ \<Rightarrow> [])
       @ ''RETURN n ORDER BY n.key LIMIT $limit''"

definition neo4j_find_nodes :: "'w cypher_run \<Rightarrow> string \<Rightarrow> string option \<Rightarrow> int \<Rightarrow> 'w \<Rightarrow> found_node list res \<times> 'w" where
  "neo4j_find_nodes run label contains limit w =
     (case run (find_query label contains) [(''needle'', PyStr (lower (case contains of None \<Rightarrow> [] | Some c \<Rightarrow> c))), (''limit'', PyInt limit)] w of
        (r, w) \<Rightarrow> (bind_res r (mapM (\<lambda>row. bind_res (bind_res (jkey ''n'' (PyDict row)) as_props) (read_node label))), w))"

definition neo4j_counts :: "'w cypher_run \<Rightarrow> 'w \<Rightarrow> (string, int) dict res \<times> 'w" where
  "neo4j_counts run w =
     (case run ''MATCH (n) RETURN labels(n)[0] AS label, count(n) AS total'' [] w of
        (Inl e, w) \<Rightarrow> (Inl e, w)
      | (Inr rows, w) \<Rightarrow>
          (case bind_res (mapM (\<lambda>row. bind_res (jkey ''label'' (PyDict row)) (\<lambda>l.
                  if \<not> truthy l then Inr None
                  else bind_res (as_str l) (\<lambda>s. bind_res (bind_res (jkey ''total'' (PyDict row)) as_int) (\<lambda>n. Inr (Some (s, n)))))) rows)
                (\<lambda>xs. Inr (fold (\<lambda>(k, v). dset k v) (List.map_filter id xs) [])) of
             Inl e \<Rightarrow> (Inl e, w)
           | Inr by_label \<Rightarrow>
               (case run ''MATCH ()-[r]->() RETURN count(r) AS total'' [] w of
                  (r, w) \<Rightarrow>
                    (bind_res r (\<lambda>rels. bind_res (case rels of [] \<Rightarrow> Inr 0 | row # _ \<Rightarrow> bind_res (jkey ''total'' (PyDict row)) as_int) (\<lambda>n.
                       Inr (dset ''_relationships'' n by_label))), w))))"

text \<open>\<open>get_graph_store\<close>: the store of the process, built by the first call.\<close>

datatype graph_backend = Neo4jBackend | InMemoryBackend

definition get_graph_store :: "string \<Rightarrow> graph_backend option \<Rightarrow> graph_backend res \<times> graph_backend option" where
  "get_graph_store setting cached =
     (case cached of
        Some b \<Rightarrow> (Inr b, cached)
      | None \<Rightarrow>
          if lower setting = ''neo4j'' then (Inr Neo4jBackend, Some Neo4jBackend)
          else if lower setting = ''memory'' then (Inr InMemoryBackend, Some InMemoryBackend)
          else (Inl (ValueError ''Unknown graph store backend''), None))"

subsection \<open>Nothing but the vocabulary reaches the text of an update\<close>

definition record_run :: "(string \<times> row) list cypher_run" where
  "record_run q ps sent = (Inr [], sent @ [(q, ps)])"

definition closed_signatures :: "(string \<times> string \<times> string) list" where
  "closed_signatures = map (\<lambda>(ty, a, b). (a, ty, b)) ALLOWED_EDGES"

text \<open>The rows sent with a text.\<close>

definition rows_for :: "string \<Rightarrow> (string \<times> row) list \<Rightarrow> pyval list" where
  "rows_for q sent = concat (map (\<lambda>(q', ps). if q' = q then (case dget ps ''rows'' of Some (PyList rs) \<Rightarrow> rs | _ \<Rightarrow> []) else []) sent)"

lemma run_all_record: "run_all record_run qs sent = (Inr (), sent @ qs)"
  by (induction qs arbitrary: sent) (auto simp: record_run_def)

lemma rows_for_append: "rows_for q (xs @ ys) = rows_for q xs @ rows_for q ys"
  by (simp add: rows_for_def)

lemma rows_for_other: "q \<notin> fst ` set sent \<Longrightarrow> rows_for q sent = []"
  by (induction sent) (auto simp: rows_for_def)

lemma rows_for_groups:
  assumes "inj_on f (insert k (fst ` set d))" "dict_ok d"
  shows "rows_for (f k) (map (\<lambda>(k, rs). (f k, rows_param rs)) d) = (case dget d k of None \<Rightarrow> [] | Some rs \<Rightarrow> rs)"
  using assms
proof (induction d)
  case Nil
  then show ?case by (simp add: rows_for_def)
next
  case (Cons x d)
  obtain k1 rs where x: "x = (k1, rs)" by (cases x)
  have d: "dict_ok d" "k1 \<notin> fst ` set d" "inj_on f (insert k (fst ` set d))"
    using Cons.prems by (auto simp: x dict_ok_def inj_on_def)
  have same: "f k1 = f k \<longleftrightarrow> k1 = k" using Cons.prems(1) by (auto simp: x inj_on_def)
  have "dget d k = None" if "k1 = k" using d(2) that by (auto simp: map_of_eq_None_iff)
  then show ?case using Cons.IH [OF d(3,1)] same by (auto simp: x rows_for_def rows_param_def)
qed

lemma statement_groups:
  assumes "inj_on f K" "k \<in> K" "\<forall>x \<in> set xs. g x \<in> K"
  shows "rows_for (f k) (map (\<lambda>(k, rs). (f k, rows_param rs)) (group_all (map (\<lambda>x. (g x, r x)) xs))) = map r (filter (\<lambda>x. g x = k) xs)"
proof -
  have "inj_on f (insert k (fst ` set (group_all (map (\<lambda>x. (g x, r x)) xs))))"
    using assms dkeys_group [of "map (\<lambda>x. (g x, r x)) xs"] by (intro inj_on_subset [OF assms(1)]) auto
  from rows_for_groups [OF this dict_ok_group] show ?thesis
    by (auto simp: dget_group filter_map comp_def filter_empty_conv image_image)
qed

lemma statement_texts:
  assumes "inj_on f K" "\<forall>x \<in> set xs. g x \<in> K"
  shows "distinct (map fst (map (\<lambda>(k, rs). (f k, rows_param rs)) (group_all (map (\<lambda>x. (g x, r x)) xs))))
    \<and> fst ` set (map (\<lambda>(k, rs). (f k, rows_param rs)) (group_all (map (\<lambda>x. (g x, r x)) xs))) = f ` g ` set xs"
proof -
  let ?d = "group_all (map (\<lambda>x. (g x, r x)) xs)"
  have keys: "fst ` set ?d = g ` set xs" using dkeys_group [of "map (\<lambda>x. (g x, r x)) xs"] by (simp add: image_image)
  have "map fst (map (\<lambda>(k, rs). (f k, rows_param rs)) ?d) = map f (map fst ?d)" by (simp add: comp_def case_prod_unfold)
  moreover have "distinct (map fst ?d)" using dict_ok_group [of "map (\<lambda>x. (g x, r x)) xs"] by (simp add: dict_ok_def)
  moreover have "inj_on f (set (map fst ?d))" using assms keys by (auto intro: inj_on_subset)
  ultimately have "distinct (map fst (map (\<lambda>(k, rs). (f k, rows_param rs)) ?d))" by (metis distinct_map)
  moreover have "fst ` set (map (\<lambda>(k, rs). (f k, rows_param rs)) ?d) = f ` fst ` set ?d" by (force simp: image_iff)
  ultimately show ?thesis by (simp add: keys)
qed

lemma closed_texts: "distinct (map (node_statement \<circ> label_value) all_labels @ map edge_statement closed_signatures)"
  by code_simp

lemma signature_closed: "rel_ok e \<Longrightarrow> edge_signature e \<in> set closed_signatures"
  unfolding rel_ok_def closed_signatures_def edge_signature_def by (force dest: map_of_SomeD simp: image_iff)

lemma signature_type:
  assumes "rel_ok e" "(ty, a, b) \<in> set ALLOWED_EDGES"
  shows "edge_signature e = (a, ty, b) \<longleftrightarrow> r_type e = ty"
proof -
  have "dict_ok ALLOWED_EDGES" by code_simp
  then have "dget ALLOWED_EDGES ty = Some (a, b)" using assms(2) dict_ok_mem by fastforce
  then show ?thesis using assms(1) by (auto simp: rel_ok_def edge_signature_def)
qed


subsection \<open>Where the two backends differ\<close>

text \<open>Neo4j reports every neighbour as an outgoing one, where the in-memory store says which way the edge goes,
  and counts the relationships it was given although the query creates none whose ends do not exist.\<close>

theorem neo4j_reports:
  "(case neo4j_neighbors run label key depth types limit w of (Inr hits, _) \<Rightarrow> list_all (\<lambda>x. nh_dir x = ''out'') hits | _ \<Rightarrow> True)
   \<and> (case neo4j_upsert_relationships run h es w of (Inr n, _) \<Rightarrow> n = length es | _ \<Rightarrow> True)"
proof -
  have hits: "nh_dir x = ''out''" if "read_hit label row = Inr x" for row x
    using that by (auto simp: read_hit_def bind_res_Inr_conv)
  have "list_all (\<lambda>x. nh_dir x = ''out'') xs" if "mapM (read_hit label) rows = Inr xs" for rows xs
    using list_all2_ex1 [OF that [unfolded mapM_Inr_conv]] hits by (auto simp: list_all_iff)
  then show ?thesis
    by (auto simp: neo4j_neighbors_def neo4j_upsert_relationships_def counted_def bind_res_Inr_conv split: prod.splits sum.splits)
qed

end
