(* ===== verification/RemoteVectors.thy ===== *)
theory RemoteVectors
  imports Retrieval
begin

section \<open>The Qdrant store (QdrantVectorStore of retrieval/vector_store.py)\<close>

text \<open>
  What the store sends to Qdrant and how it reads the answers.  The service is a function of its own
  state, given calls of its client and answering replies; \<open>str_of\<close> is \<open>str\<close> of a value.  Scores are
  reals.
\<close>

datatype qdrant_match = MatchAny "string list" | MatchValue pyval

type_synonym condition = "string \<times> qdrant_match"

record point =
  pt_id :: string
  pt_vector :: "real list"
  pt_payload :: metadata

datatype qdrant_call =
    GetCollections
  | CreateCollection string nat
  | CreatePayloadIndex string string
  | UpsertPoints string "point list"
  | QueryPoints string "real list" int "condition list option"
  | DeletePoints string "condition list option"
  | CountPoints string

datatype qdrant_reply = Names "string list" | Acknowledged | Hits "(real \<times> metadata) list" | Total nat

type_synonym 'w qdrant = "qdrant_call \<Rightarrow> 'w \<Rightarrow> qdrant_reply res \<times> 'w"

record qdrant_store =
  qs_collection :: string
  qs_dims :: nat

subsection \<open>Calls\<close>

fun call_all :: "'w qdrant \<Rightarrow> qdrant_call list \<Rightarrow> 'w \<Rightarrow> unit res \<times> 'w" where
  "call_all q [] w = (Inr (), w)"
| "call_all q (c # cs) w = (case q c w of (Inl e, w) \<Rightarrow> (Inl e, w) | (Inr _, w) \<Rightarrow> call_all q cs w)"

definition ensure_collection :: "'w qdrant \<Rightarrow> qdrant_store \<Rightarrow> 'w \<Rightarrow> unit res \<times> 'w" where
  "ensure_collection q s w =
     (case q GetCollections w of
        (Inl e, w) \<Rightarrow> (Inl e, w)
      | (Inr r, w) \<Rightarrow>
          if (case r of Names ns \<Rightarrow> qs_collection s \<in> set ns | _ \<Rightarrow> False) then (Inr (), w)
          else call_all q (CreateCollection (qs_collection s) (qs_dims s)
                 # map (CreatePayloadIndex (qs_collection s)) [''paper_id'', ''workspace_id'']) w)"

text \<open>A call on the collection once it is there.\<close>

definition on_collection :: "'w qdrant \<Rightarrow> qdrant_store \<Rightarrow> qdrant_call \<Rightarrow> 'w \<Rightarrow> qdrant_reply res \<times> 'w" where
  "on_collection q s c w = (case ensure_collection q s w of (Inl e, w) \<Rightarrow> (Inl e, w) | (Inr _, w) \<Rightarrow> q c w)"

definition payload_of :: "vector_record \<Rightarrow> metadata" where
  "payload_of r = dict_update
     [(''chunk_id'', PyStr (str_uuid (vr_chunk r))), (''paper_id'', PyStr (str_uuid (vr_paper r))),
      (''workspace_id'', PyStr (str_uuid (vr_workspace r)))] (vr_meta r)"

definition point_of :: "vector_record \<Rightarrow> point" where
  "point_of r = \<lparr>pt_id = str_uuid (vr_chunk r), pt_vector = vr_vector r, pt_payload = payload_of r\<rparr>"

definition qdrant_upsert :: "'w qdrant \<Rightarrow> qdrant_store \<Rightarrow> vector_record list \<Rightarrow> 'w \<Rightarrow> unit res \<times> 'w" where
  "qdrant_upsert q s rs w =
     (if rs = [] then (Inr (), w)
      else case on_collection q s (UpsertPoints (qs_collection s) (map point_of rs)) w of (r, w) \<Rightarrow> (bind_res r (\<lambda>_. Inr ()), w))"

definition condition_of :: "(pyval \<Rightarrow> string) \<Rightarrow> string \<times> pyval \<Rightarrow> condition" where
  "condition_of str_of kv =
     (fst kv, case snd kv of PyList vs \<Rightarrow> MatchAny (map str_of vs) | v \<Rightarrow> MatchValue v)"

definition build_filter :: "(pyval \<Rightarrow> string) \<Rightarrow> filters \<Rightarrow> condition list option" where
  "build_filter str_of filters =
     (case filters of None \<Rightarrow> None | Some kvs \<Rightarrow> if kvs = [] then None else Some (map (condition_of str_of) kvs))"

definition hit_of :: "real \<times> metadata \<Rightarrow> search_hit res" where
  "hit_of = (\<lambda>(score, payload).
     bind_res (bind_res (bind_res (jkey ''chunk_id'' (PyDict payload)) as_str) py_uuid) (\<lambda>c.
     bind_res (bind_res (bind_res (jkey ''paper_id'' (PyDict payload)) as_str) py_uuid) (\<lambda>p.
     Inr \<lparr>h_chunk = c, h_paper = p, h_score = score, h_meta = payload\<rparr>)))"

definition qdrant_search ::
    "(pyval \<Rightarrow> string) \<Rightarrow> 'w qdrant \<Rightarrow> qdrant_store \<Rightarrow> real list \<Rightarrow> int \<Rightarrow> filters \<Rightarrow> 'w \<Rightarrow> search_hit list res \<times> 'w" where
  "qdrant_search str_of q s v limit filters w =
     (case on_collection q s (QueryPoints (qs_collection s) v limit (build_filter str_of filters)) w of
        (r, w) \<Rightarrow> (bind_res r (\<lambda>x. case x of Hits hs \<Rightarrow> mapM hit_of hs | _ \<Rightarrow> Inl (TypeErr ''no points'')), w))"

definition qdrant_delete_by_paper :: "(pyval \<Rightarrow> string) \<Rightarrow> 'w qdrant \<Rightarrow> qdrant_store \<Rightarrow> uuid \<Rightarrow> 'w \<Rightarrow> nat res \<times> 'w" where
  "qdrant_delete_by_paper str_of q s paper w =
     (case on_collection q s (DeletePoints (qs_collection s) (build_filter str_of (Some [(''paper_id'', PyStr (str_uuid paper))]))) w of
        (r, w) \<Rightarrow> (bind_res r (\<lambda>_. Inr 0), w))"

definition qdrant_count :: "'w qdrant \<Rightarrow> qdrant_store \<Rightarrow> 'w \<Rightarrow> nat res \<times> 'w" where
  "qdrant_count q s w =
     (case on_collection q s (CountPoints (qs_collection s)) w of
        (r, w) \<Rightarrow> (bind_res r (\<lambda>x. case x of Total n \<Rightarrow> Inr n | _ \<Rightarrow> Inl (TypeErr ''no count'')), w))"

subsection \<open>The documented behaviour of the service\<close>

text \<open>When a payload satisfies a condition: a keyword equal to one of the given ones, or an equal value.\<close>

definition satisfies :: "metadata \<Rightarrow> condition \<Rightarrow> bool" where
  "satisfies payload c \<longleftrightarrow>
     (case dget payload (fst c) of
        None \<Rightarrow> False
      | Some v \<Rightarrow> (case snd c of MatchAny ss \<Rightarrow> v \<in> PyStr ` set ss | MatchValue x \<Rightarrow> py_eq v x))"

definition passes :: "condition list option \<Rightarrow> metadata \<Rightarrow> bool" where
  "passes f payload \<longleftrightarrow> (case f of None \<Rightarrow> True | Some cs \<Rightarrow> list_all (satisfies payload) cs)"

text \<open>Points are stored by identifier.  A query answers points that pass its filter, at most as many as asked for,
  a deletion removes the points that pass, and the calls on collections leave the points alone.\<close>

definition qdrant_law :: "'w qdrant \<Rightarrow> string \<Rightarrow> ('w \<Rightarrow> (string, point) dict) \<Rightarrow> bool" where
  "qdrant_law q name points \<longleftrightarrow>
     (\<forall>c w r w'. q c w = (Inr r, w') \<longrightarrow>
        (case c of
           UpsertPoints n ps \<Rightarrow> n = name \<longrightarrow> points w' = fold (\<lambda>p. dset (pt_id p) p) ps (points w)
         | QueryPoints n v l f \<Rightarrow> points w' = points w \<and> (n = name \<longrightarrow> (\<exists>hs. r = Hits hs \<and> int (length hs) \<le> max l 0
             \<and> (\<forall>h \<in> set hs. \<exists>p \<in> set (dvalues (points w)). snd h = pt_payload p \<and> passes f (pt_payload p))))
         | DeletePoints n f \<Rightarrow> n = name \<longrightarrow> points w' = filter (\<lambda>ip. \<not> passes f (pt_payload (snd ip))) (points w)
         | _ \<Rightarrow> points w' = points w))"

subsection \<open>The store behaves as the local ones\<close>

definition point_table :: "(uuid, vector_record) dict \<Rightarrow> (string, point) dict" where
  "point_table d = map (\<lambda>(k, r). (str_uuid k, point_of r)) d"

definition from_indexer :: "vector_record \<Rightarrow> bool" where
  "from_indexer r \<longleftrightarrow> (\<exists>p c v. r = chunk_record p (c, v))"

text \<open>A filter the retrieval service sends: lists of texts, or a value that is not \<open>None\<close>.\<close>

definition plain :: "string \<times> pyval \<Rightarrow> bool" where
  "plain kv \<longleftrightarrow> (case snd kv of PyList vs \<Rightarrow> list_all (\<lambda>v. case v of PyStr _ \<Rightarrow> True | _ \<Rightarrow> False) vs | PyNone \<Rightarrow> False | _ \<Rightarrow> True)"

lemma from_indexer_payload: "from_indexer r \<Longrightarrow> payload_of r = vr_meta r"
  by (auto simp: from_indexer_def payload_of_def chunk_record_def dense_meta_def sparse_meta_def dict_update_def)

lemma from_indexer_paper: "from_indexer r \<Longrightarrow> dget (vr_meta r) ''paper_id'' = Some (PyStr (str_uuid (vr_paper r)))
    \<and> dget (vr_meta r) ''chunk_id'' = Some (PyStr (str_uuid (vr_chunk r)))"
  by (auto simp: from_indexer_def chunk_record_def dense_meta_def sparse_meta_def)

lemma py_eq_None: "py_eq PyNone v \<longleftrightarrow> v = PyNone"
  by (cases v) (simp_all add: num_eq_def)

lemma all_texts: "list_all (\<lambda>v. case v of PyStr _ \<Rightarrow> True | _ \<Rightarrow> False) vs \<Longrightarrow> \<exists>ts. vs = map PyStr ts"
proof (induction vs)
  case (Cons v vs)
  then obtain ts where "vs = map PyStr ts" by auto
  moreover obtain t where "v = PyStr t" using Cons.prems by (cases v) auto
  ultimately have "v # vs = map PyStr (t # ts)" by simp
  then show ?case by (rule exI)
qed simp

lemma condition_matches:
  assumes "plain kv" "\<forall>t. str_of (PyStr t) = t"
  shows "satisfies meta (condition_of str_of kv) = matches_one meta kv"
proof (cases "\<exists>vs. snd kv = PyList vs")
  case True
  then obtain vs where vs: "snd kv = PyList vs" by blast
  then obtain ts where "vs = map PyStr ts" using assms(1) all_texts [of vs] by (auto simp: plain_def)
  then have "snd kv = PyList (map PyStr ts)" using vs by simp
  then show ?thesis using assms(2)
    by (auto simp: satisfies_def condition_of_def matches_one_def py_in_strs comp_def Let_def split: option.split)
next
  case False
  then have "snd (condition_of str_of kv) = MatchValue (snd kv)" "fst (condition_of str_of kv) = fst kv"
    by (auto simp: condition_of_def split: pyval.split)
  moreover have "matches_one meta kv = py_eq (case dget meta (fst kv) of None \<Rightarrow> PyNone | Some v \<Rightarrow> v) (snd kv)"
    using False by (auto simp: matches_one_def Let_def split: pyval.split)
  moreover have "snd kv \<noteq> PyNone" using assms(1) by (auto simp: plain_def)
  ultimately show ?thesis by (auto simp: satisfies_def py_eq_None split: option.split)
qed

lemma passes_matches:
  assumes "list_all plain kvs" "\<forall>t. str_of (PyStr t) = t"
  shows "passes (build_filter str_of (Some kvs)) meta = matches meta (Some kvs)"
  using condition_matches assms by (auto simp: passes_def build_filter_def matches_def list_all_iff)

lemma map_dset_inj:
  assumes "inj f"
  shows "map (\<lambda>(k, v). (f k, g v)) (dset k v d) = dset (f k) (g v) (map (\<lambda>(k, v). (f k, g v)) d)"
  using assms by (induction d) (auto simp: inj_eq)

lemma point_table_put: "fold (\<lambda>p. dset (pt_id p) p) (map point_of rs) (point_table d) = point_table (put_records rs d)"
proof (induction rs arbitrary: d)
  case (Cons r rs)
  have "inj str_uuid" by (rule injI) simp
  then have "dset (str_uuid (vr_chunk r)) (point_of r) (point_table d) = point_table (dset (vr_chunk r) r d)"
    unfolding point_table_def by (simp add: map_dset_inj)
  then show ?case using Cons.IH [of "dset (vr_chunk r) r d"] by (simp add: put_records_def point_of_def)
qed (simp add: put_records_def)

definition quiet :: "qdrant_call \<Rightarrow> bool" where
  "quiet c \<longleftrightarrow> (case c of UpsertPoints _ _ \<Rightarrow> False | DeletePoints _ _ \<Rightarrow> False | _ \<Rightarrow> True)"

lemma law_quiet: "qdrant_law q n points \<Longrightarrow> q c w = (Inr r, w') \<Longrightarrow> quiet c \<Longrightarrow> points w' = points w"
  unfolding qdrant_law_def quiet_def by (cases c) force+

lemma law_calls:
  assumes "qdrant_law q n points"
  shows "call_all q cs w = (Inr u, w') \<Longrightarrow> list_all quiet cs \<Longrightarrow> points w' = points w"
proof (induction cs arbitrary: w)
  case (Cons c cs)
  then obtain r w3 where c: "q c w = (Inr r, w3)" "call_all q cs w3 = (Inr u, w')" by (auto split: prod.splits sum.splits)
  then show ?case using Cons.IH [OF c(2)] Cons.prems(2) law_quiet [OF assms c(1)] by simp
qed simp

lemma law_ensure:
  assumes "qdrant_law q n points" "ensure_collection q s w = (Inr u, w')"
  shows "points w' = points w"
proof -
  let ?cs = "CreateCollection (qs_collection s) (qs_dims s) # map (CreatePayloadIndex (qs_collection s)) [''paper_id'', ''workspace_id'']"
  obtain r w1 where g: "q GetCollections w = (Inr r, w1)" using assms(2) by (auto simp: ensure_collection_def split: prod.splits sum.splits)
  then have 1: "points w1 = points w" using law_quiet [OF assms(1) g] by (simp add: quiet_def)
  have "w' = w1 \<or> call_all q ?cs w1 = (Inr u, w')" using assms(2) g by (auto simp: ensure_collection_def split: if_splits)
  then show ?thesis using 1 law_calls [OF assms(1), of ?cs w1 u w'] by (auto simp: quiet_def)
qed

lemma law_call:
  assumes "qdrant_law q n points" "on_collection q s c w = (Inr r, w')"
  obtains w1 where "points w1 = points w" "q c w1 = (Inr r, w')"
  using assms law_ensure [OF assms(1)] by (auto simp: on_collection_def split: prod.splits sum.splits)

lemma law_upsert: "qdrant_law q n points \<Longrightarrow> q (UpsertPoints n ps) w = (Inr r, w') \<Longrightarrow> points w' = fold (\<lambda>p. dset (pt_id p) p) ps (points w)"
  unfolding qdrant_law_def by force

lemma law_delete: "qdrant_law q n points \<Longrightarrow> q (DeletePoints n f) w = (Inr r, w')
    \<Longrightarrow> points w' = filter (\<lambda>ip. \<not> passes f (pt_payload (snd ip))) (points w)"
  unfolding qdrant_law_def by force

lemma law_query: "qdrant_law q n points \<Longrightarrow> q (QueryPoints n v l f) w = (Inr r, w') \<Longrightarrow> points w' = points w \<and> (\<exists>hs. r = Hits hs
    \<and> int (length hs) \<le> max l 0 \<and> (\<forall>h \<in> set hs. \<exists>p \<in> set (dvalues (points w)). snd h = pt_payload p \<and> passes f (pt_payload p)))"
  unfolding qdrant_law_def by force

lemma hit_of_indexed: "from_indexer r \<Longrightarrow> hit_of (score, payload_of r) = Inr (to_hit score r)"
  by (simp add: hit_of_def from_indexer_payload from_indexer_paper jkey_def as_str_def to_hit_def)

lemma paper_filter_passes:
  assumes "from_indexer r" "\<forall>t. str_of (PyStr t) = t"
  shows "passes (build_filter str_of (Some [(''paper_id'', PyStr (str_uuid p))])) (payload_of r) \<longleftrightarrow> vr_paper r = p"
  using assms(1) by (subst passes_matches [OF _ assms(2)])
    (auto simp: plain_def from_indexer_payload from_indexer_paper matches_one_def Let_def)

lemma qdrant_upsert_refines:
  assumes law: "qdrant_law q (qs_collection s) points" and at: "points w = point_table d"
  shows "case qdrant_upsert q s rs w of (Inr _, w') \<Rightarrow> points w' = point_table (put_records rs d) | _ \<Rightarrow> True"
proof (cases "rs = []")
  case True
  then show ?thesis by (simp add: qdrant_upsert_def put_records_def at)
next
  case False
  have "points w' = point_table (put_records rs d)"
    if on: "on_collection q s (UpsertPoints (qs_collection s) (map point_of rs)) w = (Inr r, w')" for r w'
  proof -
    obtain w1 where w1: "points w1 = points w" "q (UpsertPoints (qs_collection s) (map point_of rs)) w1 = (Inr r, w')"
      by (rule law_call [OF law on])
    show ?thesis using law_upsert [OF law w1(2)] by (simp only: w1(1) at point_table_put)
  qed
  then show ?thesis using False by (auto simp: qdrant_upsert_def bind_res_Inr_conv split: prod.splits sum.splits)
qed

lemma qdrant_delete_refines:
  assumes law: "qdrant_law q (qs_collection s) points" and at: "points w = point_table d"
    and made: "list_all from_indexer (dvalues d)" and str: "\<forall>t. str_of (PyStr t) = t"
  shows "case qdrant_delete_by_paper str_of q s p w of
      (Inr _, w') \<Rightarrow> points w' = point_table (filter (\<lambda>kr. vr_paper (snd kr) \<noteq> p) d) | _ \<Rightarrow> True"
proof -
  let ?f = "build_filter str_of (Some [(''paper_id'', PyStr (str_uuid p))])"
  have kept: "filter (\<lambda>ip. \<not> passes ?f (pt_payload (snd ip))) (point_table d) = point_table (filter (\<lambda>kr. vr_paper (snd kr) \<noteq> p) d)"
    using made paper_filter_passes [OF _ str] by (induction d) (auto simp: point_table_def point_of_def)
  have "points w' = point_table (filter (\<lambda>kr. vr_paper (snd kr) \<noteq> p) d)"
    if on: "on_collection q s (DeletePoints (qs_collection s) ?f) w = (Inr r, w')" for r w'
  proof -
    obtain w1 where w1: "points w1 = points w" "q (DeletePoints (qs_collection s) ?f) w1 = (Inr r, w')"
      by (rule law_call [OF law on])
    show ?thesis using law_delete [OF law w1(2)] kept by (simp only: w1(1) at)
  qed
  then show ?thesis by (auto simp: qdrant_delete_by_paper_def bind_res_Inr_conv split: prod.splits sum.splits)
qed

lemma qdrant_search_refines:
  assumes law: "qdrant_law q (qs_collection s) points" and at: "points w = point_table d"
    and made: "list_all from_indexer (dvalues d)" and str: "\<forall>t. str_of (PyStr t) = t" and kvs: "list_all plain kvs"
  shows "case qdrant_search str_of q s v limit (Some kvs) w of
      (Inr hits, w') \<Rightarrow> points w' = points w \<and> int (length hits) \<le> max limit 0
        \<and> list_all (\<lambda>h. list_ex (\<lambda>r. h = to_hit (h_score h) r \<and> matches (vr_meta r) (Some kvs)) (dvalues d)) hits
    | (Inl e, _) \<Rightarrow> fst (on_collection q s (QueryPoints (qs_collection s) v limit (build_filter str_of (Some kvs))) w) = Inl e"
proof -
  let ?f = "build_filter str_of (Some kvs)"
  obtain a w' where on: "on_collection q s (QueryPoints (qs_collection s) v limit ?f) w = (a, w')" by fastforce
  show ?thesis
  proof (cases a)
    case (Inl e)
    then show ?thesis using on by (simp add: qdrant_search_def)
  next
    case (Inr r)
    obtain w1 where w1: "points w1 = points w" "q (QueryPoints (qs_collection s) v limit ?f) w1 = (Inr r, w')"
      by (rule law_call [OF law on [unfolded Inr]])
    obtain hs where hs: "points w' = points w" "r = Hits hs" "int (length hs) \<le> max limit 0"
        "\<forall>h \<in> set hs. \<exists>p \<in> set (dvalues (points w)). snd h = pt_payload p \<and> passes ?f (pt_payload p)"
      using law_query [OF law w1(2)] w1(1) by auto
    have "\<exists>r \<in> set (dvalues d). hit_of h = Inr (to_hit (fst h) r) \<and> matches (vr_meta r) (Some kvs)" if h: "h \<in> set hs" for h
    proof -
      have vals: "dvalues (points w) = map point_of (dvalues d)" by (simp add: at point_table_def comp_def case_prod_unfold)
      obtain p where p: "p \<in> set (dvalues (points w))" "snd h = pt_payload p" "passes ?f (pt_payload p)" using hs(4) h by blast
      then obtain r where r: "r \<in> set (dvalues d)" "p = point_of r" using vals by auto
      have i: "from_indexer r" using r(1) made by (auto simp: list_all_iff)
      have "h = (fst h, payload_of r)" using p(2) r(2) by (simp add: point_of_def prod_eq_iff)
      then have "hit_of h = Inr (to_hit (fst h) r)" using hit_of_indexed [OF i] by metis
      moreover have "matches (vr_meta r) (Some kvs)"
        using p(3) r(2) passes_matches [OF kvs str] from_indexer_payload [OF i] by (simp add: point_of_def)
      ultimately show ?thesis using r(1) by blast
    qed
    then obtain g where g: "\<And>h. h \<in> set hs \<Longrightarrow> g h \<in> set (dvalues d) \<and> hit_of h = Inr (to_hit (fst h) (g h)) \<and> matches (vr_meta (g h)) (Some kvs)"
      by metis
    then have hits: "mapM hit_of hs = Inr (map (\<lambda>h. to_hit (fst h) (g h)) hs)" by (intro mapM_Inr) blast
    have "list_ex (\<lambda>r. to_hit (fst h) (g h) = to_hit (h_score (to_hit (fst h) (g h))) r \<and> matches (vr_meta r) (Some kvs)) (dvalues d)"
      if "h \<in> set hs" for h
      unfolding list_ex_iff by (rule bexI [of _ "g h"]) (use g [OF that] in \<open>simp_all add: to_hit_def\<close>)
    then have "list_all (\<lambda>h. list_ex (\<lambda>r. h = to_hit (h_score h) r \<and> matches (vr_meta r) (Some kvs)) (dvalues d))
        (map (\<lambda>h. to_hit (fst h) (g h)) hs)"
      unfolding list_all_iff by simp
    then show ?thesis using on Inr hs(1-3) hits by (simp add: qdrant_search_def)
  qed
qed


subsection \<open>A service in memory\<close>

definition service_step :: "qdrant_call \<Rightarrow> (string, point) dict \<Rightarrow> qdrant_reply res \<times> (string, point) dict" where
  "service_step c ps =
     (case c of
        GetCollections \<Rightarrow> (Inr (Names [''papers'']), ps)
      | UpsertPoints n qs \<Rightarrow> (Inr Acknowledged, fold (\<lambda>p. dset (pt_id p) p) qs ps)
      | QueryPoints n v l f \<Rightarrow>
          (Inr (Hits (map (\<lambda>p. (sum_list (map2 (*) v (pt_vector p)), pt_payload p))
             (take (nat l) (filter (\<lambda>p. passes f (pt_payload p)) (dvalues ps))))), ps)
      | DeletePoints n f \<Rightarrow> (Inr Acknowledged, filter (\<lambda>ip. \<not> passes f (pt_payload (snd ip))) ps)
      | CountPoints n \<Rightarrow> (Inr (Total (length ps)), ps)
      | _ \<Rightarrow> (Inr Acknowledged, ps))"

lemma service_law: "qdrant_law service_step ''papers'' id"
  unfolding qdrant_law_def service_step_def
  by (auto split: qdrant_call.split dest!: in_set_takeD)

definition kept_record :: "real list \<Rightarrow> vector_record" where
  "kept_record v = chunk_record one_paper (one_chunk True, v)"


text \<open>The number of deleted vectors is always reported as none, and a list of numbers in a filter is turned into
  texts, which no number equals: such a filter finds nothing, where the local stores find the record.\<close>

theorem qdrant_differs:
  "(case qdrant_delete_by_paper str_of q s p w of (Inr n, _) \<Rightarrow> n = 0 | _ \<Rightarrow> True)
   \<and> matches [(''page_number'', PyInt 3)] (Some [(''page_number'', PyList [PyInt 3])])
   \<and> \<not> passes (build_filter str_of (Some [(''page_number'', PyList [PyInt 3])])) [(''page_number'', PyInt 3)]"
  by (auto simp: qdrant_delete_by_paper_def bind_res_Inr_conv matches_one_def py_in_def num_eq_def passes_def build_filter_def
      condition_of_def satisfies_def split: prod.splits sum.splits)

end
