(* ===== verification/Validation.thy ===== *)
theory Validation
  imports Regex
begin

section \<open>Input validation (core/validation.py)\<close>

text \<open>
  The magic bytes of an upload, file names and free text.  Bytes are naturals below 256; the
  normalisation NFKC of the \<open>unicodedata\<close> module is a parameter.
\<close>

definition PDF_MAGIC :: "nat list" where "PDF_MAGIC = [37, 80, 68, 70, 45]"
definition MAGIC_READ_BYTES :: nat where "MAGIC_READ_BYTES = 8"
definition MAX_FILENAME_LENGTH :: int where "MAX_FILENAME_LENGTH = 255"

text \<open>A stream is its bytes and the position; reading is undone by the \<open>finally\<close> clause.\<close>

definition assert_pdf :: "nat list \<times> nat \<Rightarrow> unit res \<times> (nat list \<times> nat)" where
  "assert_pdf stream =
     (case stream of (bytes, position) \<Rightarrow>
       let header = take MAGIC_READ_BYTES (drop position bytes) in
       ((if prefix PDF_MAGIC header then Inr () else Inl (ValueError ''That file is not a PDF.'')), (bytes, position)))"

definition unsafe_char :: "char \<Rightarrow> bool" where
  "unsafe_char c \<longleftrightarrow> code_pt c \<le> 31 \<or> code_pt c = 127 \<or> c \<in> set ''<>:'' \<or> c = CHR 0x22 \<or> c \<in> set ''/|?*'' \<or> c = CHR 0x5C"

definition UNSAFE_FILENAME_CHARS :: rx where
  "UNSAFE_FILENAME_CHARS = Cls unsafe_char"

definition COLLAPSE_DOTS :: rx where
  "COLLAPSE_DOTS = Cat (chr CHR ''.'') (plus (chr CHR ''.''))"

definition WINDOWS_RESERVED :: "string list" where
  "WINDOWS_RESERVED = [''con'', ''prn'', ''aux'', ''nul'']
     @ map (\<lambda>i. ''com'' @ str_nat i) [1..<10] @ map (\<lambda>i. ''lpt'' @ str_nat i) [1..<10]"

definition is_reserved :: "string \<Rightarrow> bool" where
  "is_reserved stem \<longleftrightarrow> lower stem \<in> set WINDOWS_RESERVED"

text \<open>\<open>s.rsplit("/", 1)[-1]\<close>, and \<open>s.rpartition(".")\<close> without its separator: without a dot the
  first part is empty and the second is the whole string.\<close>

definition basename :: "string \<Rightarrow> string" where
  "basename s = rev (takeWhile (\<lambda>c. c \<noteq> CHR ''/'') (rev s))"

definition rpartition_dot :: "string \<Rightarrow> string \<times> string" where
  "rpartition_dot s =
     (let ext = rev (takeWhile (\<lambda>c. c \<noteq> CHR ''.'') (rev s)) in
      if length ext = length s then ([], s) else (take (length s - length ext - 1) s, ext))"

definition clean_name :: "string \<Rightarrow> string" where
  "clean_name normalized =
     strip_by (\<lambda>c. c \<in> set '' .'')
       (re_sub COLLAPSE_DOTS ''.''
         (re_sub UNSAFE_FILENAME_CHARS ''_'' (basename (map (\<lambda>c. if c = CHR 0x5C then CHR ''/'' else c) normalized))))"

definition truncate_name :: "string \<Rightarrow> string \<Rightarrow> string" where
  "truncate_name extension cleaned =
     (if MAX_FILENAME_LENGTH < int (length cleaned)
      then (let keep = MAX_FILENAME_LENGTH - int (length extension) - 1 in
            if extension \<noteq> [] then py_take keep cleaned @ ''.'' @ extension
            else py_take MAX_FILENAME_LENGTH cleaned)
      else cleaned)"

definition sanitize_filename :: "(string \<Rightarrow> string) \<Rightarrow> string \<Rightarrow> string \<Rightarrow> string" where
  "sanitize_filename nfkc name fallback =
     (if strip name = [] then fallback
      else
        let cleaned = clean_name (nfkc name) in
        if cleaned = [] then fallback
        else
          let (stem, extension) = rpartition_dot cleaned;
              cleaned = (if stem \<noteq> [] \<and> is_reserved stem then ''file_'' @ cleaned else cleaned) in
          truncate_name extension cleaned)"

definition clamp_text :: "string option \<Rightarrow> int \<Rightarrow> string option" where
  "clamp_text v n = (case v of
     None \<Rightarrow> None
   | Some s \<Rightarrow> if strip s = [] then None else Some (py_take n (strip s)))"

subsection \<open>Safety of a sanitized name\<close>

text \<open>Substituting one character for each of a class leaves none of the class.\<close>

lemma sub_from_Cls:
  "sub_from (Cls P) [d] p s = map (\<lambda>c. if P c then d else c) s"
proof (induction s arbitrary: p)
  case (Cons c s)
  show ?case
  proof (cases "P c")
    case True
    then have "rmatch (Cls P) (p, c # s, []) = [(c # p, s, [])]" by simp
    from sub_from_hit [OF this] show ?thesis using Cons True by simp
  next
    case False
    then have "rmatch (Cls P) (p, c # s, []) = []" by simp
    from sub_from_skip [OF this] show ?thesis using Cons False by simp
  qed
qed simp

text \<open>Every character of a substitution comes from the text or from the replacement.\<close>

lemma set_sub_from: "set (sub_from r repl p s) \<subseteq> set s \<union> set repl"
proof -
  obtain ms rest where sc: "scan r p s = (ms, rest)" by (cases "scan r p s")
  have s: "concat (map (\<lambda>(sk, m, k). sk @ m) ms) @ rest = s" by (rule scan_text [OF sc])
  then have "set rest \<subseteq> set s" "\<And>sk m k. (sk, m, k) \<in> set ms \<Longrightarrow> set sk \<subseteq> set s"
    by fastforce+
  then show ?thesis unfolding sub_from_def sc by fastforce
qed

lemma set_strip_by: "set (strip_by P s) \<subseteq> set s"
  using strip_by_sublist set_mono_sublist by blast

lemma clean_name_safe: "\<forall>c \<in> set (clean_name s). \<not> unsafe_char c"
proof -
  let ?b = "basename (map (\<lambda>c. if c = CHR 0x5C then CHR ''/'' else c) s)"
  have d: "\<not> unsafe_char CHR ''_''" "\<not> unsafe_char CHR ''.''" by (simp_all add: unsafe_char_def code_pt_def)
  have "\<forall>c \<in> set (re_sub UNSAFE_FILENAME_CHARS ''_'' ?b). \<not> unsafe_char c"
    unfolding re_sub_from UNSAFE_FILENAME_CHARS_def sub_from_Cls using d by auto
  then have "\<forall>c \<in> set (re_sub COLLAPSE_DOTS ''.'' (re_sub UNSAFE_FILENAME_CHARS ''_'' ?b)). \<not> unsafe_char c"
    using set_sub_from [of COLLAPSE_DOTS "''.''" "[]" "re_sub UNSAFE_FILENAME_CHARS ''_'' ?b"] d
    unfolding re_sub_from [of COLLAPSE_DOTS] by auto
  then show ?thesis unfolding clean_name_def using set_strip_by by blast
qed

lemma rpartition_subset:
  "rpartition_dot s = (stem, ext) \<Longrightarrow> set stem \<subseteq> set s \<and> set ext \<subseteq> set s"
proof -
  have "set (takeWhile P (rev s)) \<subseteq> set s" for P using set_takeWhileD [of _ P "rev s"] by auto
  then show "rpartition_dot s = (stem, ext) \<Longrightarrow> ?thesis"
    by (fastforce simp: rpartition_dot_def Let_def dest: in_set_takeD split: if_splits)
qed

lemma set_truncate_name: "set (truncate_name ext s) \<subseteq> set s \<union> set ext \<union> {CHR ''.''}"
  by (auto simp: truncate_name_def Let_def dest: in_set_py_takeD)

text \<open>A sanitized file name is a single safe path component: whatever the client sends and however it
  is normalized, the result is the fallback, or contains no separator, control character or other
  character that is unsafe in a path, and is not empty.\<close>

theorem sanitize_filename_safe:
  "sanitize_filename nfkc name fallback = fallback
   \<or> sanitize_filename nfkc name fallback \<noteq> [] \<and> list_all (\<lambda>c. \<not> unsafe_char c) (sanitize_filename nfkc name fallback)"
proof (cases "strip name = [] \<or> clean_name (nfkc name) = []")
  case True
  then show ?thesis by (auto simp: sanitize_filename_def Let_def)
next
  case False
  let ?c = "clean_name (nfkc name)"
  obtain stem ext where p: "rpartition_dot ?c = (stem, ext)" by (cases "rpartition_dot ?c")
  let ?d = "if stem \<noteq> [] \<and> is_reserved stem then ''file_'' @ ?c else ?c"
  have tag: "\<forall>c \<in> set ''file_''. \<not> unsafe_char c" by (simp add: unsafe_char_def code_pt_def)
  have "\<forall>c \<in> set ?d. \<not> unsafe_char c" using clean_name_safe tag by (simp only: split: if_split) auto
  moreover have "\<forall>c \<in> set ext. \<not> unsafe_char c" using rpartition_subset [OF p] clean_name_safe by blast
  moreover have "\<not> unsafe_char CHR ''.''" by (simp add: unsafe_char_def code_pt_def)
  ultimately have "\<forall>c \<in> set (truncate_name ext ?d). \<not> unsafe_char c"
    using set_truncate_name [of ext ?d] by blast
  moreover have "truncate_name ext ?d \<noteq> []"
    using False by (auto simp: truncate_name_def Let_def py_take_def MAX_FILENAME_LENGTH_def)
  ultimately show ?thesis using False p by (simp add: sanitize_filename_def Let_def list_all_iff)
qed

text \<open>The length limit is not enforced: a name of 300 letters without a dot, all of it taken for
  the extension, becomes 555 characters long; and a reserved device name without an
  extension is kept as it is.\<close>

theorem sanitize_filename_gaps:
  "length (sanitize_filename (\<lambda>s. s) (replicate 300 CHR ''a'') ''upload.pdf'') = 555
   \<and> sanitize_filename (\<lambda>s. s) ''con'' ''upload.pdf'' = ''con'' \<and> is_reserved ''con''"
proof -
  let ?n = "replicate 300 CHR ''a''"
  have sub: "sub_from (Cls unsafe_char) ''_'' p ?n = ?n" for p
    unfolding sub_from_Cls by (simp add: unsafe_char_def code_pt_def)
  have nodots: "sub_from COLLAPSE_DOTS ''.'' p (replicate k CHR ''a'') = replicate k CHR ''a''" for p k
    by (induction k arbitrary: p) (simp_all add: sub_from_skip COLLAPSE_DOTS_def chr_def)
  have base: "basename ?n = ?n" by (simp add: basename_def)
  have st: "strip_by P ?n = ?n" if "\<not> P CHR ''a''" for P by (rule strip_by_id) (simp add: that)
  have ns: "\<not> is_space CHR ''a''" by (simp add: is_space_def code_pt_def)
  have clean: "clean_name ?n = ?n"
    by (simp add: clean_name_def re_sub_from UNSAFE_FILENAME_CHARS_def base sub nodots st)
  have "rpartition_dot ?n = ([], ?n)" by (simp add: rpartition_dot_def)
  then have "sanitize_filename (\<lambda>s. s) ?n ''upload.pdf'' = py_take (- 46) ?n @ ''.'' @ ?n"
    by (simp add: sanitize_filename_def clean st ns truncate_name_def MAX_FILENAME_LENGTH_def Let_def)
  then have "length (sanitize_filename (\<lambda>s. s) ?n ''upload.pdf'') = 555" by (simp add: py_take_def)
  moreover have "sanitize_filename (\<lambda>s. s) ''con'' ''upload.pdf'' = ''con''" by code_simp
  moreover have "is_reserved ''con''" by code_simp
  ultimately show ?thesis by blast
qed

end
