(* ===== verification/Storage.thy ===== *)
theory Storage
  imports Validation PyVal
begin

section \<open>Blob storage (core/storage.py)\<close>

text \<open>
  The local backend as a finite map from resolved paths (lists of components) to bytes; symbolic
  links are not represented, so \<open>resolve\<close> is the lexical treatment of \<open>..\<close>.  The SHA-256
  digest is a parameter.
\<close>

type_synonym path = "string list"

record storage =
  so_root :: path
  so_files :: "(path, nat list) dict"

definition split_slash :: "string \<Rightarrow> string list" where
  "split_slash s = split_on CHR ''/'' s"

definition walk_part :: "path \<Rightarrow> string \<Rightarrow> path" where
  "walk_part p w = (if w = [] \<or> w = ''.'' then p else if w = ''..'' then butlast p else p @ [w])"

text \<open>\<open>_resolve\<close>: an absolute key replaces the root before the containment test.\<close>

definition resolve_key :: "path \<Rightarrow> string \<Rightarrow> path res" where
  "resolve_key base key =
     (let target = foldl walk_part (if take 1 key = ''/'' then [] else base) (split_slash key) in
      if prefix base target then Inr target else Inl (ValueError ''Storage key escapes the storage root''))"

definition storage_save :: "string \<Rightarrow> nat list \<Rightarrow> storage \<Rightarrow> nat res \<times> storage" where
  "storage_save key bytes st =
     (case resolve_key (so_root st) key of
        Inl e \<Rightarrow> (Inl e, st)
      | Inr p \<Rightarrow> (Inr (length bytes), st\<lparr>so_files := dset p bytes (so_files st)\<rparr>))"

text \<open>Opening a missing file raises \<open>FileNotFoundError\<close>.\<close>

definition storage_open :: "string \<Rightarrow> storage \<Rightarrow> nat list res" where
  "storage_open key st =
     (case resolve_key (so_root st) key of
        Inl e \<Rightarrow> Inl e
      | Inr p \<Rightarrow> (case dget (so_files st) p of None \<Rightarrow> Inl (RuntimeErr ''FileNotFoundError'') | Some b \<Rightarrow> Inr b))"

definition storage_delete :: "string \<Rightarrow> storage \<Rightarrow> unit res \<times> storage" where
  "storage_delete key st =
     (case resolve_key (so_root st) key of
        Inl e \<Rightarrow> (Inl e, st)
      | Inr p \<Rightarrow> (Inr (), st\<lparr>so_files := ddel p (so_files st)\<rparr>))"

definition storage_exists :: "string \<Rightarrow> storage \<Rightarrow> bool res" where
  "storage_exists key st = bind_res (resolve_key (so_root st) key) (\<lambda>p. Inr (dget (so_files st) p \<noteq> None))"

text \<open>\<open>Path(filename).suffix\<close>: from the last dot, if it is neither the first nor the last character.\<close>

definition path_suffix :: "string \<Rightarrow> string" where
  "path_suffix filename =
     (let name = basename filename; (stem, ext) = rpartition_dot name in
      if stem = [] \<or> ext = [] then [] else ''.'' @ ext)"

definition build_storage_key :: "string \<Rightarrow> string \<Rightarrow> string" where
  "build_storage_key checksum filename =
     (let suffix = (if path_suffix filename = [] then ''.bin'' else lower (path_suffix filename)) in
      ''papers/'' @ take 2 checksum @ ''/'' @ take 2 (drop 2 checksum) @ ''/'' @ checksum @ suffix)"

definition compute_checksum :: "(nat list \<Rightarrow> string) \<Rightarrow> nat list \<times> nat \<Rightarrow> (string \<times> nat) \<times> (nat list \<times> nat)" where
  "compute_checksum sha stream = ((sha (fst stream), length (fst stream)), (fst stream, 0))"

subsection \<open>Containment\<close>

lemma split_slash_no_slash: "w \<in> set (split_slash s) \<Longrightarrow> CHR ''/'' \<notin> set w"
  unfolding split_slash_def by (rule split_on_free)

lemma split_slash_word: "CHR ''/'' \<notin> set w \<Longrightarrow> split_slash w = [w]"
  unfolding split_slash_def by (rule split_on_one)

lemma split_slash_append: "CHR ''/'' \<notin> set w \<Longrightarrow> split_slash (w @ CHR ''/'' # s) = w # split_slash s"
  unfolding split_slash_def by (rule split_on_word)

definition plain_part :: "string \<Rightarrow> bool" where
  "plain_part w \<longleftrightarrow> w \<noteq> [] \<and> w \<noteq> ''.'' \<and> w \<noteq> ''..'' \<and> CHR ''/'' \<notin> set w"

lemma walk_plain: "plain_part w \<Longrightarrow> walk_part p w = p @ [w]"
  by (simp add: walk_part_def plain_part_def)

lemma walk_parts_plain:
  "list_all plain_part p \<Longrightarrow> list_all (\<lambda>w. CHR ''/'' \<notin> set w) ws \<Longrightarrow> list_all plain_part (foldl walk_part p ws)"
proof (induction ws arbitrary: p)
  case (Cons w ws)
  have "list_all plain_part (walk_part p w)"
    using Cons.prems by (auto simp: walk_part_def plain_part_def list_all_iff dest: in_set_butlastD)
  then show ?case using Cons by simp
qed simp

text \<open>C18: No key reaches outside the storage root: a key that resolves names a path below the root whose
  components are plain names, whatever dots and slashes the key contains.\<close>

theorem resolved_inside_root:
  assumes "list_all plain_part base" "resolve_key base key = Inr p"
  shows "prefix base p \<and> list_all plain_part p"
proof -
  have "list_all plain_part (foldl walk_part (if take 1 key = ''/'' then [] else base) (split_slash key))"
    using assms(1) split_slash_no_slash by (intro walk_parts_plain) (auto simp: list_all_iff)
  then show ?thesis using assms(2) by (auto simp: resolve_key_def Let_def split: if_splits)
qed

text \<open>A digest: 64 hexadecimal digits.\<close>

definition hex_digit :: "char \<Rightarrow> bool" where
  "hex_digit d \<longleftrightarrow> d \<in> set ''0123456789abcdef''"

definition hex_digest :: "string \<Rightarrow> bool" where
  "hex_digest c \<longleftrightarrow> length c = 64 \<and> list_all hex_digit c"

lemma hex_not_special: "hex_digit d \<Longrightarrow> d \<noteq> CHR ''/'' \<and> d \<noteq> CHR ''.''"
  by (auto simp: hex_digit_def)

lemma hex_digest_plain:
  assumes "hex_digest c" "set w \<subseteq> set c" "w \<noteq> []"
  shows "plain_part w"
proof -
  have "\<forall>d \<in> set w. d \<noteq> CHR ''/'' \<and> d \<noteq> CHR ''.''"
    using assms(1,2) hex_not_special by (auto simp: hex_digest_def list_all_iff)
  then have "CHR ''/'' \<notin> set w" "CHR ''.'' \<notin> set w" by blast+
  then show ?thesis using assms(3) unfolding plain_part_def by (cases w) auto
qed

text \<open>Where the key of a checksum and a name resolves to.\<close>

definition blob_path :: "path \<Rightarrow> string \<Rightarrow> string \<Rightarrow> path" where
  "blob_path base checksum filename =
     base @ [''papers'', take 2 checksum, take 2 (drop 2 checksum),
       checksum @ (if path_suffix filename = [] then ''.bin'' else lower (path_suffix filename))]"

lemma lower_slash: "CHR ''/'' \<notin> set s \<Longrightarrow> CHR ''/'' \<notin> set (lower s)"
proof -
  have "lower_char c = CHR ''/'' \<Longrightarrow> c = CHR ''/''" for c
    using code_pt_less [of c]
    by (auto simp: lower_char_def Let_def split: if_splits dest: arg_cong [where f = code_pt] simp: code_pt_char_of code_pt_def)
  then show "CHR ''/'' \<notin> set s \<Longrightarrow> ?thesis" by (auto simp: lower_def) metis
qed

lemma path_suffix_no_slash: "CHR ''/'' \<notin> set (path_suffix f)"
proof -
  have b: "CHR ''/'' \<notin> set (basename f)" by (auto simp: basename_def dest: set_takeWhileD)
  obtain stem ext where p: "rpartition_dot (basename f) = (stem, ext)" by (cases "rpartition_dot (basename f)")
  show ?thesis using rpartition_subset [OF p] b p by (auto simp: path_suffix_def Let_def)
qed

lemma resolve_blob:
  assumes "hex_digest c"
  shows "resolve_key base (build_storage_key c f) = Inr (blob_path base c f)"
proof -
  let ?suf = "if path_suffix f = [] then ''.bin'' else lower (path_suffix f)"
  have len: "length c = 64" using assms by (simp add: hex_digest_def)
  have a: "plain_part (take 2 c)" "plain_part (take 2 (drop 2 c))" "plain_part c"
    by (rule hex_digest_plain [OF assms]; use len in \<open>auto dest: in_set_takeD in_set_dropD\<close>)+
  have ns: "CHR ''/'' \<notin> set ?suf" using path_suffix_no_slash [of f] lower_slash by (auto simp: plain_part_def)
  have "CHR ''/'' \<notin> set (c @ ?suf)" using a(3) ns by (simp add: plain_part_def del: set_append, auto)
  then have last: "plain_part (c @ ?suf)" using len unfolding plain_part_def by (auto simp: Cons_eq_append_conv append_eq_Cons_conv)
  have "split_slash (build_storage_key c f) = [''papers'', take 2 c, take 2 (drop 2 c), c @ ?suf]"
  proof -
    have eq: "build_storage_key c f = ''papers'' @ CHR ''/'' # (take 2 c @ CHR ''/'' # (take 2 (drop 2 c) @ CHR ''/'' # (c @ ?suf)))"
      by (simp add: build_storage_key_def Let_def)
    have ns: "CHR ''/'' \<notin> set ''papers''" "CHR ''/'' \<notin> set (take 2 c)" "CHR ''/'' \<notin> set (take 2 (drop 2 c))"
        "CHR ''/'' \<notin> set (c @ ?suf)"
      using a last by (simp_all add: plain_part_def)
    show ?thesis
      unfolding eq split_slash_append [OF ns(1)] split_slash_append [OF ns(2)] split_slash_append [OF ns(3)] split_slash_word [OF ns(4)] ..
  qed
  moreover have "plain_part ''papers''" by (simp add: plain_part_def)
  moreover have "take 1 (build_storage_key c f) \<noteq> ''/''" by (simp add: build_storage_key_def)
  ultimately show ?thesis using a last
    by (simp add: resolve_key_def blob_path_def walk_plain Let_def)
qed

lemma blob_path_inj: "blob_path base c f = blob_path base d g \<Longrightarrow> hex_digest c \<Longrightarrow> hex_digest d \<Longrightarrow> c = d"
  by (auto simp: blob_path_def hex_digest_def)

lemma resolved_inside_root_witness:
  "resolve_key [''data''] ''a/../b/./c'' = Inr [''data'', ''b'', ''c''] \<and> prefix [''data''] [''data'', ''b'', ''c'']
   \<and> resolve_key [''data''] ''../etc/passwd'' = Inl (ValueError ''Storage key escapes the storage root'')"
proof -
  have r: "resolve_key [''data''] ''a/../b/./c'' = Inr [''data'', ''b'', ''c'']" by code_simp
  have "list_all plain_part [''data'']" by code_simp
  from resolved_inside_root [OF this r] have "prefix [''data''] [''data'', ''b'', ''c'']" by simp
  moreover have "resolve_key [''data''] ''../etc/passwd'' = Inl (ValueError ''Storage key escapes the storage root'')"
    by code_simp
  ultimately show ?thesis using r by blast
qed

end
