(* ===== verification/Papers.thy ===== *)
theory Papers
  imports Storage Database
begin

section \<open>The paper service (services/paper_service.py)\<close>

text \<open>
  Upload, listing, access and deletion of papers over the tables and the blob storage.  An
  operation answers its result and the state it leaves: the blob an upload saved stays when its
  insertion then violates the unique index on workspace and checksum.  \<open>created_at\<close> is the order
  of the rows in their table.  Parameters: SHA-256, NFKC, the identifier of the new row.
\<close>

datatype service_error = ValidationError string | NotFound string | Conflict string | StorageError py_error

record service_state =
  sv_db :: database
  sv_blobs :: storage

definition ALLOWED_CONTENT_TYPES :: "string list" where
  "ALLOWED_CONTENT_TYPES = [''application/pdf'']"

definition get_default_workspace :: "database \<Rightarrow> uuid \<Rightarrow> service_error + workspace_row" where
  "get_default_workspace db user =
     (case find (\<lambda>w. w_owner w = user) (db_workspaces db) of
        None \<Rightarrow> Inl (NotFound ''No workspace found for this user'') | Some w \<Rightarrow> Inr w)"

definition new_paper :: "uuid \<Rightarrow> uuid \<Rightarrow> uuid \<Rightarrow> string \<Rightarrow> string \<Rightarrow> nat \<Rightarrow> string \<Rightarrow> paper_row" where
  "new_paper pid wid user filename checksum sz key =
     \<lparr>p_id = pid, p_workspace = wid, p_uploader = user, p_title = None, p_status = PENDING, p_filename = filename,
      p_checksum = checksum, p_size = sz, p_storage_key = key, p_page_count = None, p_abstract = None,
      p_authors = None, p_error = None, p_ocr_pages = 0, p_year = None, p_venue = None\<rparr>"

text \<open>The insertion; the unique index refuses a second paper of a workspace with the same checksum.\<close>

definition insert_paper :: "paper_row \<Rightarrow> database \<Rightarrow> (service_error + paper_row) \<times> database" where
  "insert_paper p db =
     (if list_ex (\<lambda>q. p_workspace q = p_workspace p \<and> p_checksum q = p_checksum p) (db_papers db)
      then (Inl (Conflict ''This paper has already been uploaded to the workspace''), db)
      else (Inr p, db\<lparr>db_papers := db_papers db @ [p]\<rparr>))"

text \<open>\<open>exists\<close>, and \<open>save\<close> of the rewound stream when there is no blob yet.\<close>

definition ensure_blob :: "string \<Rightarrow> nat list \<Rightarrow> storage \<Rightarrow> unit res \<times> storage" where
  "ensure_blob key bytes st =
     (case storage_exists key st of
        Inl e \<Rightarrow> (Inl e, st)
      | Inr True \<Rightarrow> (Inr (), st)
      | Inr False \<Rightarrow> (let (r, st1) = storage_save key bytes st in (bind_res r (\<lambda>_. Inr ()), st1)))"

definition upload_paper ::
    "(nat list \<Rightarrow> string) \<Rightarrow> (string \<Rightarrow> string) \<Rightarrow> nat \<Rightarrow> uuid \<Rightarrow> uuid \<Rightarrow> nat list \<times> nat \<Rightarrow> string \<Rightarrow> string
       \<Rightarrow> workspace_row option \<Rightarrow> service_state \<Rightarrow> (service_error + paper_row) \<times> service_state" where
  "upload_paper sha nfkc max_bytes pid user stream filename content_type workspace s =
     (if content_type \<notin> set ALLOWED_CONTENT_TYPES then (Inl (ValidationError ''Unsupported content type''), s)
      else
        case assert_pdf stream of
          (Inl e, _) \<Rightarrow> (Inl (ValidationError ''That file is not a PDF.''), s)
        | (Inr _, stream) \<Rightarrow>
            let filename = sanitize_filename nfkc filename ''upload.pdf'';
                ((checksum, sz), stream) = compute_checksum sha stream in
            if sz = 0 then (Inl (ValidationError ''Uploaded file is empty''), s)
            else if max_bytes < sz then (Inl (ValidationError ''File exceeds the maximum upload size''), s)
            else
              case (case workspace of Some w \<Rightarrow> Inr w | None \<Rightarrow> get_default_workspace (sv_db s) user) of
                Inl e \<Rightarrow> (Inl e, s)
              | Inr w \<Rightarrow>
                  let key = build_storage_key checksum filename in
                  (case ensure_blob key (drop (snd stream) (fst stream)) (sv_blobs s) of
                     (Inl e, blobs) \<Rightarrow> (Inl (StorageError e), s\<lparr>sv_blobs := blobs\<rparr>)
                   | (Inr _, blobs) \<Rightarrow>
                       let (r, db) = insert_paper (new_paper pid (w_id w) user filename checksum sz key) (sv_db s) in
                       (r, s\<lparr>sv_db := db, sv_blobs := blobs\<rparr>)))"

definition owned_papers :: "database \<Rightarrow> uuid \<Rightarrow> paper_row list" where
  "owned_papers db user =
     filter (\<lambda>p. p_workspace p \<in> set (map w_id (filter (\<lambda>w. w_owner w = user) (db_workspaces db)))) (db_papers db)"

definition list_papers :: "database \<Rightarrow> uuid \<Rightarrow> nat \<Rightarrow> nat \<Rightarrow> paper_row list \<times> nat" where
  "list_papers db user n offset = (take n (drop offset (rev (owned_papers db user))), length (owned_papers db user))"

definition get_paper :: "database \<Rightarrow> uuid \<Rightarrow> uuid \<Rightarrow> service_error + paper_row" where
  "get_paper db user pid =
     (case find (\<lambda>p. p_id p = pid) (owned_papers db user) of None \<Rightarrow> Inl (NotFound ''Paper not found'') | Some p \<Rightarrow> Inr p)"

text \<open>The deletion of the row cascades to its chunks.\<close>

definition delete_row :: "uuid \<Rightarrow> database \<Rightarrow> database" where
  "delete_row pid db =
     db\<lparr>db_papers := filter (\<lambda>p. p_id p \<noteq> pid) (db_papers db), db_chunks := filter (\<lambda>c. k_paper c \<noteq> pid) (db_chunks db)\<rparr>"

definition delete_paper_row :: "uuid \<Rightarrow> uuid \<Rightarrow> service_state \<Rightarrow> (service_error + unit) \<times> service_state" where
  "delete_paper_row user pid s =
     (case get_paper (sv_db s) user pid of
        Inl e \<Rightarrow> (Inl e, s)
      | Inr p \<Rightarrow>
          let db = delete_row pid (sv_db s) in
          if list_ex (\<lambda>q. p_checksum q = p_checksum p) (db_papers db)
          then (Inr (), s\<lparr>sv_db := db\<rparr>)
          else (case storage_delete (p_storage_key p) (sv_blobs s) of
                  (Inl e, blobs) \<Rightarrow> (Inl (StorageError e), s\<lparr>sv_db := db, sv_blobs := blobs\<rparr>)
                | (Inr _, blobs) \<Rightarrow> (Inr (), s\<lparr>sv_db := db, sv_blobs := blobs\<rparr>)))"

subsection \<open>Every paper keeps its blob\<close>

definition blob_ok :: "(nat list \<Rightarrow> string) \<Rightarrow> storage \<Rightarrow> paper_row \<Rightarrow> bool" where
  "blob_ok sha st p \<longleftrightarrow> (\<exists>f bytes. p_storage_key p = build_storage_key (p_checksum p) f
     \<and> dget (so_files st) (blob_path (so_root st) (p_checksum p) f) = Some bytes \<and> sha bytes = p_checksum p)"

definition service_ok :: "(nat list \<Rightarrow> string) \<Rightarrow> service_state \<Rightarrow> bool" where
  "service_ok sha s \<longleftrightarrow>
     (\<forall>p \<in> set (db_papers (sv_db s)). hex_digest (p_checksum p) \<and> blob_ok sha (sv_blobs s) p)
     \<and> (\<forall>c f bytes. hex_digest c \<longrightarrow> dget (so_files (sv_blobs s)) (blob_path (so_root (sv_blobs s)) c f) = Some bytes \<longrightarrow> sha bytes = c)"

inductive service_reachable :: "(nat list \<Rightarrow> string) \<Rightarrow> service_state \<Rightarrow> bool" for sha where
  fresh: "db_papers (sv_db s) = [] \<Longrightarrow> so_files (sv_blobs s) = [] \<Longrightarrow> service_reachable sha s"
| upload: "service_reachable sha s \<Longrightarrow>
    service_reachable sha (snd (upload_paper sha nfkc mx pid user stream filename ct ws s))"
| delete: "service_reachable sha s \<Longrightarrow> service_reachable sha (snd (delete_paper_row user pid s))"

lemma upload_cases:
  obtains (refused) "snd (upload_paper sha nfkc mx pid user stream filename ct ws s) = s"
  | (stored) w f blobs r where
      "ensure_blob (build_storage_key (sha (fst stream)) f) (fst stream) (sv_blobs s) = (r, blobs)"
      "snd (upload_paper sha nfkc mx pid user stream filename ct ws s) = s\<lparr>sv_blobs := blobs\<rparr>
       \<or> r = Inr () \<and> snd (upload_paper sha nfkc mx pid user stream filename ct ws s) =
         s\<lparr>sv_db := snd (insert_paper (new_paper pid w user f (sha (fst stream)) (length (fst stream))
             (build_storage_key (sha (fst stream)) f)) (sv_db s)), sv_blobs := blobs\<rparr>"
proof (cases "ct \<notin> set ALLOWED_CONTENT_TYPES \<or> (\<exists>e. fst (assert_pdf stream) = Inl e) \<or> fst stream = [] \<or> mx < length (fst stream)
    \<or> (\<exists>e. (case ws of Some w \<Rightarrow> Inr w | None \<Rightarrow> get_default_workspace (sv_db s) user) = Inl e)")
  case True
  then have "snd (upload_paper sha nfkc mx pid user stream filename ct ws s) = s"
    by (auto simp: upload_paper_def assert_pdf_def compute_checksum_def Let_def split: prod.splits if_splits)
  then show thesis by (rule refused)
next
  case False
  let ?f = "sanitize_filename nfkc filename ''upload.pdf''" let ?key = "build_storage_key (sha (fst stream)) ?f"
  obtain w where w: "(case ws of Some w \<Rightarrow> Inr w | None \<Rightarrow> get_default_workspace (sv_db s) user) = Inr w"
    using False by (cases "case ws of Some w \<Rightarrow> Inr w | None \<Rightarrow> get_default_workspace (sv_db s) user") auto
  have a: "assert_pdf stream = (Inr (), stream)"
    using False by (auto simp: assert_pdf_def Let_def split: prod.splits if_splits)
  obtain r blobs where e: "ensure_blob ?key (fst stream) (sv_blobs s) = (r, blobs)" by (cases "ensure_blob ?key (fst stream) (sv_blobs s)")
  have "upload_paper sha nfkc mx pid user stream filename ct ws s =
     (case r of Inl e \<Rightarrow> (Inl (StorageError e), s\<lparr>sv_blobs := blobs\<rparr>)
      | Inr _ \<Rightarrow> let (r, db) = insert_paper (new_paper pid (w_id w) user ?f (sha (fst stream)) (length (fst stream)) ?key) (sv_db s) in
          (r, s\<lparr>sv_db := db, sv_blobs := blobs\<rparr>))"
    using False w a e by (simp add: upload_paper_def compute_checksum_def Let_def)
  then show thesis using e by (intro stored [OF e, of "w_id w"]) (cases r, auto simp: case_prod_unfold Let_def)
qed

lemma ensure_blob_files:
  assumes "ensure_blob key bytes st = (r, st1)" "resolve_key (so_root st) key = Inr p"
  shows "r = Inr () \<and> so_root st1 = so_root st
    \<and> (st1 = st \<and> dget (so_files st) p \<noteq> None \<or> dget (so_files st) p = None \<and> so_files st1 = dset p bytes (so_files st))"
  using assms by (auto simp: ensure_blob_def storage_exists_def storage_save_def split: bool.splits option.splits)

lemma upload_ok:
  assumes "service_ok sha s" "\<And>b. hex_digest (sha b)"
  shows "service_ok sha (snd (upload_paper sha nfkc mx pid user stream filename ct ws s))"
proof (cases rule: upload_cases [of sha nfkc mx pid user stream filename ct ws s])
  case refused
  then show ?thesis using assms(1) by simp
next
  case (stored w f blobs r)
  let ?c = "sha (fst stream)" let ?st = "sv_blobs s" let ?p = "blob_path (so_root ?st) ?c f"
  note h = assms(2) [of "fst stream"]
  have e: "r = Inr ()" "so_root blobs = so_root ?st"
      "blobs = ?st \<and> dget (so_files ?st) ?p \<noteq> None \<or> dget (so_files ?st) ?p = None \<and> so_files blobs = dset ?p (fst stream) (so_files ?st)"
    using ensure_blob_files [OF stored(1) resolve_blob [OF h]] by auto
  have grows: "dget (so_files blobs) q = Some b" if "dget (so_files ?st) q = Some b" for q b
    using e(3) that by auto
  have files: "sha b = d" if "hex_digest d" "dget (so_files blobs) (blob_path (so_root ?st) d g) = Some b" for d g b
    using e(3) that assms(1) by (auto simp: service_ok_def split: if_splits dest!: blob_path_inj [OF _ that(1) h])
  have old: "hex_digest (p_checksum q) \<and> blob_ok sha blobs q" if "q \<in> set (db_papers (sv_db s))" for q
    using assms(1) that e(2) grows unfolding service_ok_def blob_ok_def by metis
  have "dget (so_files blobs) ?p \<noteq> None" using e(3) by auto
  then have new: "hex_digest ?c \<and> blob_ok sha blobs (new_paper pid w user f ?c n (build_storage_key ?c f))" for n
    using files [OF h] h e(2) by (auto simp: blob_ok_def new_paper_def)
  show ?thesis
    using stored(2) old new files e(2) by (auto simp: service_ok_def insert_paper_def new_paper_def split: if_splits)
qed

lemma delete_ok:
  assumes "service_ok sha s"
  shows "service_ok sha (snd (delete_paper_row user pid s))"
proof (cases "get_paper (sv_db s) user pid")
  case (Inl e)
  then show ?thesis using assms by (simp add: delete_paper_row_def)
next
  case (Inr p)
  let ?db = "delete_row pid (sv_db s)" let ?st = "sv_blobs s"
  have p: "p \<in> set (db_papers (sv_db s))"
    using Inr by (auto simp: get_paper_def owned_papers_def find_Some_iff split: option.splits dest: nth_mem)
  have h: "hex_digest (p_checksum p)" using assms p by (simp add: service_ok_def)
  obtain f where f: "p_storage_key p = build_storage_key (p_checksum p) f" using assms p by (auto simp: service_ok_def blob_ok_def)
  show ?thesis
  proof (cases "list_ex (\<lambda>q. p_checksum q = p_checksum p) (db_papers ?db)")
    case True
    then have "snd (delete_paper_row user pid s) = s\<lparr>sv_db := ?db\<rparr>" using Inr by (simp add: delete_paper_row_def)
    then show ?thesis using assms by (simp add: service_ok_def delete_row_def)
  next
    case False
    let ?k = "blob_path (so_root ?st) (p_checksum p) f"
    have eq: "snd (delete_paper_row user pid s) = s\<lparr>sv_db := ?db, sv_blobs := ?st\<lparr>so_files := ddel ?k (so_files ?st)\<rparr>\<rparr>"
      using Inr False resolve_blob [OF h, of "so_root ?st" f] by (simp add: delete_paper_row_def storage_delete_def f)
    have keep: "dget (ddel ?k (so_files ?st)) (blob_path (so_root ?st) (p_checksum q) g) = dget (so_files ?st) (blob_path (so_root ?st) (p_checksum q) g)"
      if "q \<in> set (db_papers ?db)" for q g
    proof -
      have "p_checksum q \<noteq> p_checksum p" using False that by (auto simp: list_ex_iff)
      moreover have "hex_digest (p_checksum q)" using assms that by (auto simp: service_ok_def delete_row_def)
      ultimately have "blob_path (so_root ?st) (p_checksum q) g \<noteq> ?k" using blob_path_inj h by blast
      then show ?thesis by simp
    qed
    have "hex_digest (p_checksum q) \<and> blob_ok sha (?st\<lparr>so_files := ddel ?k (so_files ?st)\<rparr>) q" if "q \<in> set (db_papers ?db)" for q
    proof -
      have "q \<in> set (db_papers (sv_db s))" using that by (simp add: delete_row_def)
      then show ?thesis using assms keep [OF that] by (auto simp: service_ok_def blob_ok_def)
    qed
    then show ?thesis using assms unfolding eq service_ok_def by (auto split: if_splits)
  qed
qed

lemma service_reachable_ok: "service_reachable sha s \<Longrightarrow> (\<And>b. hex_digest (sha b)) \<Longrightarrow> service_ok sha s"
proof (induction rule: service_reachable.induct)
  case (fresh s)
  then show ?case by (simp add: service_ok_def)
qed (simp_all add: upload_ok delete_ok)

text \<open>C17: Every paper keeps its blob: after any sequence of uploads and deletions, by any users and with any
  files shared between workspaces, opening the storage key of any paper row succeeds, and the bytes have the
  recorded checksum.\<close>

theorem papers_keep_their_blobs:
  assumes "service_reachable sha s" "\<And>b. hex_digest (sha b)" "p \<in> set (db_papers (sv_db s))"
  shows "\<exists>bytes. storage_open (p_storage_key p) (sv_blobs s) = Inr bytes \<and> sha bytes = p_checksum p"
proof -
  have ok: "service_ok sha s" using service_reachable_ok [OF assms(1,2)] .
  then have h: "hex_digest (p_checksum p)" and "blob_ok sha (sv_blobs s) p" using assms(3) by (simp_all add: service_ok_def)
  then obtain f bytes where "p_storage_key p = build_storage_key (p_checksum p) f"
      "dget (so_files (sv_blobs s)) (blob_path (so_root (sv_blobs s)) (p_checksum p) f) = Some bytes" "sha bytes = p_checksum p"
    unfolding blob_ok_def by blast
  then show ?thesis using resolve_blob [OF h] by (simp add: storage_open_def)
qed

subsection \<open>What a user can see\<close>

definition owns :: "database \<Rightarrow> uuid \<Rightarrow> paper_row \<Rightarrow> bool" where
  "owns db user p \<longleftrightarrow> (\<exists>w \<in> set (db_workspaces db). w_id w = p_workspace p \<and> w_owner w = user)"

lemma owned_papers_iff: "p \<in> set (owned_papers db user) \<longleftrightarrow> p \<in> set (db_papers db) \<and> owns db user p"
  by (force simp: owned_papers_def owns_def)

lemma get_paper_cases:
  "case get_paper db user pid of
     Inr p \<Rightarrow> p \<in> set (db_papers db) \<and> p_id p = pid \<and> owns db user p
   | Inl _ \<Rightarrow> \<not> (\<exists>p \<in> set (db_papers db). p_id p = pid \<and> owns db user p)"
proof (cases "find (\<lambda>p. p_id p = pid) (owned_papers db user)")
  case None
  then have "\<not> (\<exists>p \<in> set (owned_papers db user). p_id p = pid)" by (simp add: find_None_iff)
  then show ?thesis using None by (auto simp: get_paper_def owned_papers_iff)
next
  case (Some p)
  then have "p \<in> set (owned_papers db user)" "p_id p = pid" by (auto simp: find_Some_iff)
  then show ?thesis using Some by (simp add: get_paper_def owned_papers_iff)
qed

text \<open>Ownership: a paper is found exactly when it exists in a workspace the user owns, listed papers are
  owned papers, newest first, and the total counts all of them; a deletion by another user changes nothing.\<close>

theorem papers_only_to_owners:
  "(case get_paper db user pid of
       Inr p \<Rightarrow> p \<in> set (db_papers db) \<and> p_id p = pid \<and> (\<exists>w \<in> set (db_workspaces db). w_id w = p_workspace p \<and> w_owner w = user)
     | Inl _ \<Rightarrow> \<not> (\<exists>p \<in> set (db_papers db). p_id p = pid \<and> (\<exists>w \<in> set (db_workspaces db). w_id w = p_workspace p \<and> w_owner w = user)))
    \<and> set (fst (list_papers db user n off)) \<subseteq> set (owned_papers db user)
    \<and> fst (list_papers db user (snd (list_papers db user n off)) 0) = rev (owned_papers db user)
    \<and> (case get_paper db user pid of Inr _ \<Rightarrow> True
       | Inl _ \<Rightarrow> snd (delete_paper_row user pid \<lparr>sv_db = db, sv_blobs = st\<rparr>) = \<lparr>sv_db = db, sv_blobs = st\<rparr>)"
proof (intro conjI)
  show "case get_paper db user pid of
       Inr p \<Rightarrow> p \<in> set (db_papers db) \<and> p_id p = pid \<and> (\<exists>w \<in> set (db_workspaces db). w_id w = p_workspace p \<and> w_owner w = user)
     | Inl _ \<Rightarrow> \<not> (\<exists>p \<in> set (db_papers db). p_id p = pid \<and> (\<exists>w \<in> set (db_workspaces db). w_id w = p_workspace p \<and> w_owner w = user))"
    unfolding owns_def [symmetric] by (rule get_paper_cases)
  show "set (fst (list_papers db user n off)) \<subseteq> set (owned_papers db user)"
    unfolding list_papers_def by (auto dest!: in_set_takeD in_set_dropD)
  show "fst (list_papers db user (snd (list_papers db user n off)) 0) = rev (owned_papers db user)"
    by (simp add: list_papers_def)
  show "case get_paper db user pid of Inr _ \<Rightarrow> True
       | Inl _ \<Rightarrow> snd (delete_paper_row user pid \<lparr>sv_db = db, sv_blobs = st\<rparr>) = \<lparr>sv_db = db, sv_blobs = st\<rparr>"
    by (simp add: delete_paper_row_def split: sum.split)
qed

subsection \<open>Concrete runs\<close>

definition two_workspaces :: database where
  "two_workspaces = \<lparr>db_workspaces = [\<lparr>w_id = 1, w_owner = 10\<rparr>, \<lparr>w_id = 2, w_owner = 20\<rparr>], db_papers = [], db_chunks = []\<rparr>"

definition no_files :: storage where
  "no_files = \<lparr>so_root = [''data''], so_files = []\<rparr>"

definition tiny_pdf :: "nat list \<times> nat" where
  "tiny_pdf = ([37, 80, 68, 70, 45, 49], 0)"

definition const_sha :: "string \<Rightarrow> nat list \<Rightarrow> string" where
  "const_sha d bytes = d"

definition upload_as :: "string \<Rightarrow> uuid \<Rightarrow> uuid \<Rightarrow> string \<Rightarrow> service_state \<Rightarrow> service_state" where
  "upload_as d pid user name s = snd (upload_paper (const_sha d) (\<lambda>x. x) 100 pid user tiny_pdf name ''application/pdf'' None s)"

lemma tiny_pdf_accepted: "assert_pdf tiny_pdf = (Inr (), tiny_pdf)" "length (fst tiny_pdf) = 6" "snd tiny_pdf = 0"
  by (simp_all add: assert_pdf_def tiny_pdf_def MAGIC_READ_BYTES_def PDF_MAGIC_def)

lemma pdf_names:
  "clean_name ''a.pdf'' = ''a.pdf''" "rpartition_dot ''a.pdf'' = (''a'', ''pdf'')" "truncate_name ''pdf'' ''a.pdf'' = ''a.pdf''"
  "clean_name ''a.bin'' = ''a.bin''" "rpartition_dot ''a.bin'' = (''a'', ''bin'')" "truncate_name ''bin'' ''a.bin'' = ''a.bin''"
  "is_reserved ''a'' = False" "strip ''a.pdf'' = ''a.pdf''" "strip ''a.bin'' = ''a.bin''"
  by code_simp+

lemma pdf_sanitized:
  "sanitize_filename (\<lambda>x. x) ''a.pdf'' ''upload.pdf'' = ''a.pdf''" "sanitize_filename (\<lambda>x. x) ''a.bin'' ''upload.pdf'' = ''a.bin''"
  by (simp_all add: sanitize_filename_def pdf_names)

lemma pdf_keys:
  "build_storage_key ''abcdef'' ''a.pdf'' = ''papers/ab/cd/abcdef.pdf''"
  "build_storage_key ''abcdef'' ''a.bin'' = ''papers/ab/cd/abcdef.bin''"
  "resolve_key [''data''] ''papers/ab/cd/abcdef.pdf'' = Inr [''data'', ''papers'', ''ab'', ''cd'', ''abcdef.pdf'']"
  "resolve_key [''data''] ''papers/ab/cd/abcdef.bin'' = Inr [''data'', ''papers'', ''ab'', ''cd'', ''abcdef.bin'']"
  by code_simp+

lemma upload_as_eq:
  assumes "sanitize_filename (\<lambda>x. x) name ''upload.pdf'' = name" "get_default_workspace (sv_db s) user = Inr w"
      "ensure_blob (build_storage_key d name) (fst tiny_pdf) (sv_blobs s) = (Inr (), blobs)"
  shows "upload_as d pid user name s = s\<lparr>sv_db :=
     snd (insert_paper (new_paper pid (w_id w) user name d 6 (build_storage_key d name)) (sv_db s)), sv_blobs := blobs\<rparr>"
  using assms
  by (simp add: upload_as_def upload_paper_def ALLOWED_CONTENT_TYPES_def tiny_pdf_accepted compute_checksum_def const_sha_def
      Let_def case_prod_unfold)

definition both_uploaded :: service_state where
  "both_uploaded = upload_as ''abcdef'' 8 20 ''a.bin'' (upload_as ''abcdef'' 7 10 ''a.pdf'' \<lparr>sv_db = two_workspaces, sv_blobs = no_files\<rparr>)"

lemma both_uploaded_eq:
  "both_uploaded =
     \<lparr>sv_db = two_workspaces\<lparr>db_papers := [new_paper 7 1 10 ''a.pdf'' ''abcdef'' 6 ''papers/ab/cd/abcdef.pdf'',
                                         new_paper 8 2 20 ''a.bin'' ''abcdef'' 6 ''papers/ab/cd/abcdef.bin'']\<rparr>,
      sv_blobs = \<lparr>so_root = [''data''], so_files = [([''data'', ''papers'', ''ab'', ''cd'', ''abcdef.pdf''], fst tiny_pdf),
        ([''data'', ''papers'', ''ab'', ''cd'', ''abcdef.bin''], fst tiny_pdf)]\<rparr>\<rparr>"
  unfolding both_uploaded_def
  by (simp add: upload_as_eq [OF pdf_sanitized(1)] upload_as_eq [OF pdf_sanitized(2)] pdf_keys get_default_workspace_def
      two_workspaces_def no_files_def ensure_blob_def storage_exists_def storage_save_def insert_paper_def new_paper_def)

text \<open>A blob can be orphaned: two users upload the same bytes under names with different extensions, which
  gives two storage keys for one checksum; after both delete their papers no row is left, but the
  first blob stays in the storage for good.\<close>

theorem deleted_papers_leave_blob:
  "(let t = snd (delete_paper_row 20 8 (snd (delete_paper_row 10 7 both_uploaded))) in
    length (db_papers (sv_db both_uploaded)) = 2 \<and> db_papers (sv_db t) = []
    \<and> map fst (so_files (sv_blobs t)) = [[''data'', ''papers'', ''ab'', ''cd'', ''abcdef.pdf'']])"
  unfolding both_uploaded_eq
  by (simp add: delete_paper_row_def get_paper_def owned_papers_def two_workspaces_def new_paper_def delete_row_def storage_delete_def
      pdf_keys)

text \<open>A digest of the right shape for the first upload.\<close>

theorem papers_keep_their_blobs_witness:
  "\<exists>bytes. storage_open (build_storage_key (replicate 64 CHR ''a'') ''a.pdf'')
     (sv_blobs (upload_as (replicate 64 CHR ''a'') 7 10 ''a.pdf'' \<lparr>sv_db = two_workspaces, sv_blobs = no_files\<rparr>)) = Inr bytes
     \<and> const_sha (replicate 64 CHR ''a'') bytes = replicate 64 CHR ''a''"
proof -
  let ?d = "replicate 64 CHR ''a''" let ?s = "\<lparr>sv_db = two_workspaces, sv_blobs = no_files\<rparr>"
  let ?t = "upload_as ?d 7 10 ''a.pdf'' ?s" let ?p = "new_paper 7 1 10 ''a.pdf'' ?d 6 (build_storage_key ?d ''a.pdf'')"
  have h: "hex_digest ?d" by (simp add: hex_digest_def hex_digit_def list_all_iff)
  obtain blobs where "ensure_blob (build_storage_key ?d ''a.pdf'') (fst tiny_pdf) no_files = (Inr (), blobs)"
    using resolve_blob [OF h] by (simp add: ensure_blob_def storage_exists_def storage_save_def no_files_def)
  then have p: "?p \<in> set (db_papers (sv_db ?t))"
    by (simp add: upload_as_eq [OF pdf_sanitized(1)] get_default_workspace_def two_workspaces_def insert_paper_def new_paper_def)
  have r: "service_reachable (const_sha ?d) ?t"
    unfolding upload_as_def by (intro service_reachable.intros) (simp_all add: two_workspaces_def no_files_def)
  have "\<exists>bytes. storage_open (p_storage_key ?p) (sv_blobs ?t) = Inr bytes \<and> const_sha ?d bytes = p_checksum ?p"
    using papers_keep_their_blobs [OF r _ p] h by (simp add: const_sha_def)
  then show ?thesis by (simp add: new_paper_def)
qed

end
