(* ===== verification/Chunking.thy ===== *)
theory Chunking
  imports Regex
begin

section \<open>Layout-aware chunking (ingestion/chunking.py)\<close>

text \<open>
  Sections by headings, paragraphs packed under a budget, oversized paragraphs split by
  sentences and, when need be, by characters.  Lengths and budgets are naturals (a negative
  budget makes the inner loop of \<open>_hard_split\<close> endless; no caller passes one).
\<close>

subsection \<open>Sections\<close>

definition is_upper :: "char \<Rightarrow> bool" where
  "is_upper c \<longleftrightarrow> 65 \<le> code_pt c \<and> code_pt c \<le> 90"

definition blanks :: rx where
  "blanks = star (one_of [CHR '' '', CHR 0x09])"

definition blanks1 :: rx where
  "blanks1 = plus (one_of [CHR '' '', CHR 0x09])"

definition digits12 :: rx where
  "digits12 = Cat (Cls is_digit) (opt (Cls is_digit))"

definition title_rx :: rx where
  "title_rx = cats [Cls is_upper, none_of [CHR 0x0A], none_of [CHR 0x0A], upto_n 78 (none_of [CHR 0x0A])]"

definition KNOWN_HEADINGS :: "string list" where
  "KNOWN_HEADINGS = [''ABSTRACT'', ''INTRODUCTION'', ''RELATED WORK'', ''BACKGROUND'', ''METHODS'', ''METHOD'',
     ''METHODOLOGY'', ''APPROACH'', ''EXPERIMENTS'', ''EXPERIMENT'', ''EVALUATION'', ''RESULTS'', ''DISCUSSION'',
     ''CONCLUSIONS'', ''CONCLUSION'', ''LIMITATIONS'', ''FUTURE WORK'', ''ACKNOWLEDGMENTS'']"

text \<open>Groups 1 to 5: number, numbered, roman, roman title, known.\<close>

definition HEADING_PATTERN :: rx where
  "HEADING_PATTERN = cats
     [LineStart, blanks,
      alts [cats [Cap 1 (Cat digits12 (upto_n 2 (Cat (chr CHR ''.'') digits12))), opt (chr CHR ''.''), blanks1, Cap 2 title_rx],
            cats [Cap 3 (Cat (one_of ''IVXLC'') (upto_n 4 (one_of ''IVXLC''))), chr CHR ''.'', blanks1, Cap 4 title_rx],
            Cap 5 (alts (map lit KNOWN_HEADINGS))],
      blanks, LineEnd]"

definition CHARS_PER_TOKEN :: nat where "CHARS_PER_TOKEN = 4"
definition DEFAULT_CHUNK_TOKENS :: nat where "DEFAULT_CHUNK_TOKENS = 512"
definition DEFAULT_OVERLAP_TOKENS :: nat where "DEFAULT_OVERLAP_TOKENS = 64"
definition MIN_CHUNK_CHARS :: nat where "MIN_CHUNK_CHARS = 80"

record section_rec =
  sc_title :: string
  sc_level :: nat
  sc_text :: string
  sc_start :: nat

record chunk =
  ch_index :: nat
  ch_content :: string
  ch_section :: "string option"
  ch_tokens :: nat
  ch_page :: "int option"
  ch_kind :: string

definition estimate_tokens :: "string \<Rightarrow> nat" where
  "estimate_tokens s = max 1 (length s div CHARS_PER_TOKEN)"

type_synonym groups = "(nat \<times> string) list"

definition heading_level :: "groups \<Rightarrow> nat" where
  "heading_level k = (if group 1 k \<noteq> [] then count_list (group 1 k) CHR ''.'' + 1 else 1)"

text \<open>\<open>str.title\<close>, applied to the known headings only.\<close>

fun py_title :: "bool \<Rightarrow> string \<Rightarrow> string" where
  "py_title inside [] = []"
| "py_title inside (c # s) =
     (if is_alpha c then (if inside then lower_char c else c) # py_title True s else c # py_title False s)"

definition heading_title :: "groups \<Rightarrow> string" where
  "heading_title k =
     (if group 2 k \<noteq> [] then strip (group 1 k @ '' '' @ group 2 k)
      else if group 4 k \<noteq> [] then strip (group 3 k @ ''. '' @ group 4 k)
      else py_title False (group 5 k))"

text \<open>The sections of the matches \<open>(skipped, heading, groups)\<close>; the body of a heading is the text
  skipped before the next one.\<close>

fun sections_from :: "nat \<Rightarrow> (string \<times> string \<times> groups) list \<Rightarrow> string \<Rightarrow> section_rec list" where
  "sections_from off [] after = []"
| "sections_from off ((sk, m, k) # ms) after =
     (let start = off + length sk; body = strip (case ms of [] \<Rightarrow> after | next # _ \<Rightarrow> fst next) in
      (if body = [] then [] else [\<lparr>sc_title = heading_title k, sc_level = heading_level k, sc_text = body, sc_start = start\<rparr>])
      @ sections_from (start + length m) ms after)"

definition split_sections :: "string \<Rightarrow> section_rec list" where
  "split_sections text =
     (case scan HEADING_PATTERN [] text of
        ([], _) \<Rightarrow>
          (let stripped = strip text in
           if stripped = [] then [] else [\<lparr>sc_title = ''Document'', sc_level = 1, sc_text = stripped, sc_start = 0\<rparr>])
      | (first # ms, after) \<Rightarrow>
          (let preamble = strip (fst first) in
           (if preamble = [] then [] else [\<lparr>sc_title = ''Front Matter'', sc_level = 1, sc_text = preamble, sc_start = 0\<rparr>])
           @ sections_from 0 (first # ms) after))"

subsection \<open>Chunks of a section\<close>

definition PARAGRAPH_BREAK :: rx where
  "PARAGRAPH_BREAK = cats [chr CHR 0x0A, blanks, chr CHR 0x0A]"

definition split_paragraphs :: "string \<Rightarrow> string list" where
  "split_paragraphs text =
     (let paragraphs = map strip (filter (\<lambda>p. strip p \<noteq> []) (re_split PARAGRAPH_BREAK text)) in
      if paragraphs \<noteq> [] then paragraphs
      else if strip text \<noteq> [] then [strip text] else [])"

definition SENTENCE_BREAK :: rx where
  "SENTENCE_BREAK = Cat (Behind True (\<lambda>c. c \<in> set ''.!?'')) (plus (Cls is_space))"

text \<open>The inner loop: \<open>(pieces, current, sentence)\<close>.\<close>

function cut_long :: "nat \<Rightarrow> nat \<Rightarrow> string list \<Rightarrow> string \<Rightarrow> string \<Rightarrow> string list \<times> string \<times> string" where
  "cut_long max_chars overlap pieces current sentence =
     (if max_chars < length sentence
      then cut_long max_chars overlap
             (pieces @ (if current \<noteq> [] then [strip current] else []) @ [strip (take max_chars sentence)])
             [] (drop (max 1 (max_chars - overlap)) sentence)
      else (pieces, current, sentence))"
  by pat_completeness auto
termination
  by (relation "measure (\<lambda>(mx, ov, pieces, current, sentence). length sentence)") auto

declare cut_long.simps [simp del]

definition split_step :: "nat \<Rightarrow> nat \<Rightarrow> string \<Rightarrow> string list \<times> string \<Rightarrow> string list \<times> string" where
  "split_step max_chars overlap sentence st =
     (let (pieces, current, sentence) = cut_long max_chars overlap (fst st) (snd st) sentence;
          (pieces, current) =
            (if current \<noteq> [] \<and> max_chars < length current + length sentence + 1
             then (pieces @ [strip current], if overlap \<noteq> 0 then drop (length current - overlap) current else [])
             else (pieces, current)) in
      (pieces, strip (current @ '' '' @ sentence)))"

definition hard_split :: "string \<Rightarrow> nat \<Rightarrow> nat \<Rightarrow> string list" where
  "hard_split text max_chars overlap =
     (let (pieces, current) = fold (split_step max_chars overlap) (re_split SENTENCE_BREAK text) ([], []) in
      filter (\<lambda>p. p \<noteq> []) (pieces @ (if strip current \<noteq> [] then [strip current] else [])))"

definition PARA_SEP :: string where
  "PARA_SEP = [CHR 0x0A, CHR 0x0A]"

definition pack_step :: "nat \<Rightarrow> nat \<Rightarrow> string \<Rightarrow> string list \<times> string \<Rightarrow> string list \<times> string" where
  "pack_step max_chars overlap paragraph st =
     (case st of (parts, buffer) \<Rightarrow>
       if max_chars < length paragraph
       then (parts @ (if buffer \<noteq> [] then [buffer] else []) @ hard_split paragraph max_chars overlap, [])
       else
         let candidate = (if buffer \<noteq> [] then buffer @ PARA_SEP @ paragraph else paragraph) in
         if max_chars < length candidate then (parts @ [buffer], paragraph) else (parts, candidate))"

definition packed_parts :: "nat \<Rightarrow> nat \<Rightarrow> string \<Rightarrow> string list" where
  "packed_parts max_chars overlap text =
     (let (parts, buffer) = fold (pack_step max_chars overlap) (split_paragraphs text) ([], []) in
      map strip (filter (\<lambda>p. strip p \<noteq> []) (parts @ (if buffer \<noteq> [] then [buffer] else []))))"

definition text_chunk :: "string option \<Rightarrow> nat \<times> string \<Rightarrow> chunk" where
  "text_chunk section_path ip =
     \<lparr>ch_index = fst ip, ch_content = snd ip, ch_section = section_path, ch_tokens = estimate_tokens (snd ip),
      ch_page = None, ch_kind = ''text''\<rparr>"

definition chunk_text :: "string \<Rightarrow> nat \<Rightarrow> nat \<Rightarrow> string option \<Rightarrow> nat \<Rightarrow> chunk list" where
  "chunk_text text max_tokens overlap_tokens section_path start_index =
     (let cleaned = packed_parts (max_tokens * CHARS_PER_TOKEN) (overlap_tokens * CHARS_PER_TOKEN) text;
          keep_all = (length cleaned \<le> 1) in
      map (text_chunk section_path)
        (filter (\<lambda>(i, part). keep_all \<or> MIN_CHUNK_CHARS \<le> length part) (List.enumerate start_index cleaned)))"

subsection \<open>The document\<close>

text \<open>The breadcrumb: levels and titles, outermost first.\<close>

definition push_section :: "section_rec \<Rightarrow> (nat \<times> string) list \<Rightarrow> (nat \<times> string) list" where
  "push_section s stack = rev (dropWhile (\<lambda>e. sc_level s \<le> fst e) (rev stack)) @ [(sc_level s, sc_title s)]"

definition document_step ::
    "nat \<Rightarrow> nat \<Rightarrow> section_rec \<Rightarrow> chunk list \<times> (nat \<times> string) list \<Rightarrow> chunk list \<times> (nat \<times> string) list" where
  "document_step max_tokens overlap_tokens s st =
     (case st of (chunks, stack) \<Rightarrow>
       let stack = push_section s stack; section_path = join '' > '' (map snd stack) in
       (chunks @ chunk_text (sc_text s) max_tokens overlap_tokens (Some section_path) (length chunks), stack))"

definition chunk_document :: "string \<Rightarrow> nat \<Rightarrow> nat \<Rightarrow> chunk list" where
  "chunk_document text max_tokens overlap_tokens =
     map (\<lambda>(position, c). c\<lparr>ch_index := position\<rparr>)
       (List.enumerate 0 (fst (fold (document_step max_tokens overlap_tokens) (split_sections text) ([], []))))"

definition chunk_asset :: "string \<Rightarrow> string \<Rightarrow> string option \<Rightarrow> int \<Rightarrow> nat \<Rightarrow> chunk" where
  "chunk_asset kind content caption page_number index =
     (let given = (case caption of None \<Rightarrow> False | Some c \<Rightarrow> c \<noteq> []);
          cap = (case caption of None \<Rightarrow> [] | Some c \<Rightarrow> c);
          body = (if given then strip (cap @ PARA_SEP @ content) else strip content) in
      \<lparr>ch_index = index, ch_content = body,
       ch_section = (if given \<and> CHR '':'' \<in> set cap then Some (takeWhile (\<lambda>c. c \<noteq> CHR '':'') cap) else None),
       ch_tokens = estimate_tokens body, ch_page = Some page_number, ch_kind = kind\<rparr>)"

subsection \<open>Words survive the packing\<close>

lemma newline_space [simp]: "is_space CHR 0x0A" "is_space CHR 0x09"
  by (simp_all add: is_space_def code_pt_def)

lemma blanks_space: "in_lang blanks m \<Longrightarrow> c \<in> set m \<Longrightarrow> is_space c"
  using in_lang_Star [of True "\<lambda>d. d \<in> set [CHR '' '', CHR 0x09]" m]
  unfolding blanks_def star_def one_of_def list.set insert_iff empty_iff by (metis newline_space space_is_space)

lemma paragraph_break_space: "in_lang PARAGRAPH_BREAK m \<Longrightarrow> \<forall>c \<in> set m. is_space c"
  unfolding PARAGRAPH_BREAK_def cats.simps chr_def
  by (auto elim!: in_lang_CatE in_lang_ClsE dest: blanks_space)

lemma words_strip_Nil: "strip s = [] \<Longrightarrow> words s = []"
  by (metis words_strip words.simps(1))

lemma words_paragraphs: "concat (map words (split_paragraphs text)) = words text"
proof -
  have e: "concat (map words (map strip (filter (\<lambda>p. strip p \<noteq> []) ps))) = concat (map words ps)" for ps
  proof -
    have "words p = []" if "\<not> strip p \<noteq> []" for p using words_strip_Nil that by simp
    then have "concat (map words (filter (\<lambda>p. strip p \<noteq> []) ps)) = concat (map words ps)" by (rule concat_map_filter)
    then show ?thesis by (simp add: o_def)
  qed
  have "concat (map words (map strip (filter (\<lambda>p. strip p \<noteq> []) (re_split PARAGRAPH_BREAK text)))) = words text"
    unfolding e by (rule words_re_split [OF paragraph_break_space])
  moreover have "words text = []" if "strip text = []" using words_strip_Nil that .
  ultimately show ?thesis unfolding split_paragraphs_def Let_def
    by (auto simp del: map_is_Nil_conv filter_empty_conv concat_eq_Nil_conv)
qed

lemma words_join_paragraph: "words (a @ PARA_SEP @ b) = words a @ words b"
  by (rule words_append_spaces) (simp_all add: PARA_SEP_def)

lemma words_pack:
  assumes "\<forall>p \<in> set ps. length p \<le> mx" "fold (pack_step mx ov) ps (parts, buffer) = (parts', buffer')"
  shows "concat (map words parts') @ words buffer' = concat (map words parts) @ words buffer @ concat (map words ps)"
  using assms
proof (induction ps arbitrary: parts buffer)
  case (Cons p ps)
  obtain a b where s: "pack_step mx ov p (parts, buffer) = (a, b)" by fastforce
  have "concat (map words a) @ words b = concat (map words parts) @ words buffer @ words p"
    using s Cons.prems(1) by (auto simp: pack_step_def Let_def words_join_paragraph split: if_splits)
  then show ?case using Cons.IH [of a b] Cons.prems s by simp
qed simp

lemma packed_parts_words:
  assumes "\<forall>p \<in> set (split_paragraphs text). length p \<le> mx"
  shows "concat (map words (packed_parts mx ov text)) = words text"
proof -
  obtain parts buffer where f: "fold (pack_step mx ov) (split_paragraphs text) ([], []) = (parts, buffer)" by fastforce
  let ?l = "parts @ (if buffer \<noteq> [] then [buffer] else [])"
  have "words p = []" if "\<not> strip p \<noteq> []" for p using words_strip_Nil that by simp
  then have "concat (map words (filter (\<lambda>p. strip p \<noteq> []) ?l)) = concat (map words ?l)" by (rule concat_map_filter)
  then have "concat (map words (packed_parts mx ov text)) = concat (map words ?l)"
    unfolding packed_parts_def f by (simp add: o_def)
  also have "\<dots> = concat (map words parts) @ words buffer" by simp
  finally show ?thesis using words_pack [OF assms f] words_paragraphs by simp
qed

lemma map_filter_enum: "map snd (filter (\<lambda>(i, x). P x) (List.enumerate n xs)) = filter P xs"
  by (induction xs arbitrary: n) auto

text \<open>C19: Packing loses only slivers: when every paragraph of a section fits the budget, the packed parts hold exactly
  its words, in order, and the chunks are these parts, less those under 80 characters when
  there are several.\<close>

theorem chunk_text_lossless:
  assumes "\<forall>p \<in> set (split_paragraphs text). length p \<le> max_tokens * CHARS_PER_TOKEN"
  shows "concat (map words (packed_parts (max_tokens * CHARS_PER_TOKEN) (overlap * CHARS_PER_TOKEN) text)) = words text
    \<and> map ch_content (chunk_text text max_tokens overlap path start) =
      filter (\<lambda>p. length (packed_parts (max_tokens * CHARS_PER_TOKEN) (overlap * CHARS_PER_TOKEN) text) \<le> 1 \<or> MIN_CHUNK_CHARS \<le> length p)
        (packed_parts (max_tokens * CHARS_PER_TOKEN) (overlap * CHARS_PER_TOKEN) text)"
proof
  show "concat (map words (packed_parts (max_tokens * CHARS_PER_TOKEN) (overlap * CHARS_PER_TOKEN) text)) = words text"
    by (rule packed_parts_words [OF assms])
  have "map ch_content (map (text_chunk path) l) = map snd l" for l by (simp add: text_chunk_def)
  then show "map ch_content (chunk_text text max_tokens overlap path start) =
      filter (\<lambda>p. length (packed_parts (max_tokens * CHARS_PER_TOKEN) (overlap * CHARS_PER_TOKEN) text) \<le> 1 \<or> MIN_CHUNK_CHARS \<le> length p)
        (packed_parts (max_tokens * CHARS_PER_TOKEN) (overlap * CHARS_PER_TOKEN) text)"
    unfolding chunk_text_def Let_def by (simp only: map_filter_enum)
qed

theorem chunk_text_lossless_witness:
  "concat (map words (packed_parts (3 * CHARS_PER_TOKEN) (1 * CHARS_PER_TOKEN) ''ab cd'')) = words ''ab cd''"
proof -
  have "split_paragraphs ''ab cd'' = [''ab cd'']" by code_simp
  then show ?thesis using chunk_text_lossless [of "''ab cd''" 3 1 None 0] by (simp add: CHARS_PER_TOKEN_def)
qed

subsection \<open>Bounds\<close>

lemma cut_long_bounds:
  assumes "cut_long mx ov pieces cur s = (pieces', cur', s')" "list_all (\<lambda>p. length p \<le> mx + ov + 1) pieces" "length cur \<le> mx + ov + 1"
  shows "list_all (\<lambda>p. length p \<le> mx + ov + 1) pieces' \<and> length cur' \<le> mx + ov + 1 \<and> (cur' = cur \<or> cur' = []) \<and> length s' \<le> mx"
  using assms
proof (induction mx ov pieces cur s rule: cut_long.induct)
  case (1 mx ov pieces cur s)
  show ?case
  proof (cases "mx < length s")
    case True
    have "length (strip cur) \<le> mx + ov + 1" using "1.prems"(3) length_strip_by_le [of is_space cur] by linarith
    moreover have "length (strip (take mx s)) \<le> mx + ov + 1" using length_strip_by_le [of is_space "take mx s"] by simp
    ultimately show ?thesis using "1.IH" [OF True] "1.prems" True by (simp add: cut_long.simps [of mx ov pieces cur s])
  next
    case False
    then show ?thesis using "1.prems" by (simp add: cut_long.simps [of mx ov pieces cur s])
  qed
qed

lemma split_step_bounds:
  assumes "split_step mx ov s (pieces, cur) = (pieces', cur')" "list_all (\<lambda>p. length p \<le> mx + ov + 1) pieces" "length cur \<le> mx + ov + 1"
  shows "list_all (\<lambda>p. length p \<le> mx + ov + 1) pieces' \<and> length cur' \<le> mx + ov + 1"
proof -
  obtain q c t where k: "cut_long mx ov pieces cur s = (q, c, t)" by (cases "cut_long mx ov pieces cur s")
  note b = cut_long_bounds [OF k assms(2,3)]
  have l: "length (strip u) \<le> length u" for u by (rule length_strip_by_le)
  have e: "strip ('' '' @ t) = strip t" by (simp add: strip_by_def)
  have "length (strip (u @ '' '' @ t)) \<le> mx + ov + 1" if "u = [] \<or> length u + length t \<le> mx + ov" for u
  proof (cases "u = []")
    case True
    then show ?thesis using b l [of t] e by simp
  next
    case False
    then show ?thesis using that l [of "u @ '' '' @ t"] by simp
  qed
  note n = this
  show ?thesis
  proof (cases "c \<noteq> [] \<and> mx < length c + length t + 1")
    case True
    let ?u = "if ov \<noteq> 0 then drop (length c - ov) c else []"
    have eq: "pieces' = q @ [strip c]" "cur' = strip (?u @ '' '' @ t)"
      using assms(1) True k by (simp_all add: split_step_def)
    have "length ?u \<le> ov" by (simp, arith)
    then have "length cur' \<le> mx + ov + 1" unfolding eq(2) using n [of ?u] b by linarith
    moreover have "length (strip c) \<le> mx + ov + 1" using l [of c] b by linarith
    ultimately show ?thesis using b unfolding eq(1) by simp
  next
    case False
    then have eq: "pieces' = q" "cur' = strip (c @ '' '' @ t)" using assms(1) k by (auto simp: split_step_def)
    have "c = [] \<or> length c + length t \<le> mx + ov" using False by auto
    then show ?thesis using b n [of c] unfolding eq by simp
  qed
qed

lemma hard_split_bounds: "list_all (\<lambda>p. length p \<le> mx + ov + 1) (hard_split text mx ov)"
proof -
  have f: "list_all (\<lambda>p. length p \<le> mx + ov + 1) (fst (fold (split_step mx ov) ss st)) \<and> length (snd (fold (split_step mx ov) ss st)) \<le> mx + ov + 1"
    if "list_all (\<lambda>p. length p \<le> mx + ov + 1) (fst st)" "length (snd st) \<le> mx + ov + 1" for ss st
    using that
  proof (induction ss arbitrary: st)
    case (Cons s ss)
    have "list_all (\<lambda>p. length p \<le> mx + ov + 1) (fst (split_step mx ov s st)) \<and> length (snd (split_step mx ov s st)) \<le> mx + ov + 1"
      using Cons.prems by (intro split_step_bounds [of mx ov s "fst st" "snd st"]) simp_all
    then show ?case using Cons.IH [of "split_step mx ov s st"] by simp
  qed simp
  obtain pieces cur where c: "fold (split_step mx ov) (re_split SENTENCE_BREAK text) ([], []) = (pieces, cur)" by fastforce
  have "length (strip cur) \<le> length cur" by (rule length_strip_by_le)
  then show ?thesis using f [of "([], [])" "re_split SENTENCE_BREAK text"] c by (auto simp: hard_split_def list_all_iff)
qed

lemma pack_bounds:
  "list_all (\<lambda>p. length p \<le> mx + ov + 1) parts \<Longrightarrow> length buffer \<le> mx \<Longrightarrow>
   fold (pack_step mx ov) ps (parts, buffer) = (parts', buffer') \<Longrightarrow>
   list_all (\<lambda>p. length p \<le> mx + ov + 1) parts' \<and> length buffer' \<le> mx"
proof (induction ps arbitrary: parts buffer)
  case (Cons p ps)
  obtain a b where s: "pack_step mx ov p (parts, buffer) = (a, b)" by fastforce
  have "list_all (\<lambda>p. length p \<le> mx + ov + 1) a \<and> length b \<le> mx"
    using s Cons.prems(1,2) hard_split_bounds [of mx ov p] by (auto simp: pack_step_def Let_def split: if_splits)
  then show ?case using Cons.IH [of a b] Cons.prems(3) s by simp
qed simp

lemma packed_parts_ok:
  "p \<in> set (packed_parts mx ov text) \<Longrightarrow> p \<noteq> [] \<and> strip p = p \<and> length p \<le> mx + ov + 1"
proof -
  obtain parts buffer where f: "fold (pack_step mx ov) (split_paragraphs text) ([], []) = (parts, buffer)" by fastforce
  assume "p \<in> set (packed_parts mx ov text)"
  then obtain q where q: "p = strip q" "strip q \<noteq> []" "q \<in> set parts \<or> q = buffer"
    unfolding packed_parts_def f by (auto split: if_splits)
  then have "length q \<le> mx + ov + 1" using pack_bounds [OF _ _ f] by (auto simp: list_all_iff)
  then show ?thesis using q length_strip_by_le [of is_space q] by simp
qed

definition chunk_ok :: "nat \<Rightarrow> chunk \<Rightarrow> bool" where
  "chunk_ok bound c \<longleftrightarrow> ch_content c \<noteq> [] \<and> strip (ch_content c) = ch_content c \<and> length (ch_content c) \<le> bound
     \<and> ch_tokens c = estimate_tokens (ch_content c) \<and> ch_kind c = ''text'' \<and> ch_section c \<noteq> None"

lemma chunk_text_ok:
  "c \<in> set (chunk_text text mt ot (Some path) n) \<Longrightarrow> chunk_ok (4 * (mt + ot) + 1) c"
proof -
  let ?ps = "packed_parts (mt * CHARS_PER_TOKEN) (ot * CHARS_PER_TOKEN) text"
  assume "c \<in> set (chunk_text text mt ot (Some path) n)"
  then obtain i p where c: "c = text_chunk (Some path) (i, p)" "(i, p) \<in> set (List.enumerate n ?ps)"
    unfolding chunk_text_def Let_def by auto
  then have "p \<in> set ?ps" by (metis enumerate_eq_zip set_zip_rightD)
  from packed_parts_ok [OF this] show ?thesis using c(1) by (simp add: text_chunk_def chunk_ok_def CHARS_PER_TOKEN_def)
qed

lemma fold_document_ok:
  "list_all (chunk_ok (4 * (mt + ot) + 1)) (fst st) \<Longrightarrow>
   list_all (chunk_ok (4 * (mt + ot) + 1)) (fst (fold (document_step mt ot) ss st))"
proof (induction ss arbitrary: st)
  case (Cons s ss)
  have "list_all (chunk_ok (4 * (mt + ot) + 1)) (fst (document_step mt ot s st))"
    using Cons.prems chunk_text_ok by (auto simp: document_step_def Let_def list_all_iff split: prod.splits)
  then show ?case using Cons.IH by simp
qed simp

lemma chunk_document_indices: "map ch_index (chunk_document text mt ot) = [0..<length (chunk_document text mt ot)]"
proof -
  have "map ch_index (map (\<lambda>(i, c). c\<lparr>ch_index := i\<rparr>) (List.enumerate n cs)) = [n..<n + length cs]" for n and cs :: "chunk list"
    by (induction cs arbitrary: n) (simp_all add: upt_rec)
  from this [of 0] show ?thesis by (simp add: chunk_document_def)
qed

lemma chunk_document_ok: "list_all (chunk_ok (4 * (mt + ot) + 1)) (chunk_document text mt ot)"
proof -
  have "list_all (chunk_ok (4 * (mt + ot) + 1)) (fst (fold (document_step mt ot) (split_sections text) ([], [])))"
    by (rule fold_document_ok) simp
  then show ?thesis by (fastforce simp: chunk_document_def list_all_iff chunk_ok_def in_set_enumerate_eq)
qed

text \<open>The chunks of a document are numbered without gaps from 0, hold stripped, non-empty text with its
  token estimate and a section path, and are at most the budget, the overlap and one character
  long.\<close>

theorem chunk_document_wellformed:
  "map ch_index (chunk_document text mt ot) = [0..<length (chunk_document text mt ot)]
   \<and> list_all (chunk_ok (4 * (mt + ot) + 1)) (chunk_document text mt ot)"
  by (rule conjI [OF chunk_document_indices chunk_document_ok])

text \<open>The budget is exceeded by the overlap: when a sentence does not fit, the tail carried over is
  put in front of the next sentence without a check, so a piece of ten characters comes out of
  a budget of eight.\<close>

theorem hard_split_overshoots:
  "hard_split ''Aa bb. Cc dd! Ee'' 8 3 = [''Aa bb.'', ''bb. Cc dd!'', ''dd! Ee'']"
  by code_simp

subsection \<open>The breadcrumb\<close>

text \<open>The sections still open: those followed by deeper ones only.\<close>

fun open_sections :: "section_rec list \<Rightarrow> (nat \<times> string) list" where
  "open_sections [] = []"
| "open_sections (s # ss) =
     (if list_all (\<lambda>t. sc_level s < sc_level t) ss then [(sc_level s, sc_title s)] else []) @ open_sections ss"

lemma open_sections_levels: "e \<in> set (open_sections ss) \<Longrightarrow> \<exists>t \<in> set ss. fst e = sc_level t"
  by (induction ss) (auto split: if_splits)

lemma open_sections_sorted: "sorted_wrt (<) (map fst (open_sections ss))"
  by (induction ss) (fastforce dest: open_sections_levels simp: list_all_iff)+

lemma open_sections_snoc:
  "open_sections (ss @ [t]) = filter (\<lambda>e. fst e < sc_level t) (open_sections ss) @ [(sc_level t, sc_title t)]"
  by (induction ss) auto

lemma rev_dropWhile_filter:
  "sorted_wrt (<) (map fst st) \<Longrightarrow> rev (dropWhile (\<lambda>e. n \<le> fst e) (rev st)) = filter (\<lambda>e. fst e < n) (st :: (nat \<times> 'a) list)"
proof (induction st rule: rev_induct)
  case (snoc e st)
  show ?case
  proof (cases "n \<le> fst e")
    case True
    then show ?thesis using snoc by (simp add: sorted_wrt_append)
  next
    case False
    then have "filter (\<lambda>e. fst e < n) st = st" using snoc.prems by (force simp: sorted_wrt_append filter_id_conv)
    then show ?thesis using False by simp
  qed
qed simp

lemma push_section_eq:
  "sorted_wrt (<) (map fst st) \<Longrightarrow> push_section s st = filter (\<lambda>e. fst e < sc_level s) st @ [(sc_level s, sc_title s)]"
  by (simp add: push_section_def rev_dropWhile_filter)

text \<open>The breadcrumb is the outline: after any sections, the stack holds exactly the sections that are still open
  (followed by deeper ones only), outermost first, with strictly growing levels.\<close>

theorem breadcrumb_is_outline:
  "fold push_section ss [] = open_sections ss \<and> sorted_wrt (<) (map fst (fold push_section ss []))"
proof -
  have "fold push_section ss [] = open_sections ss"
  proof (induction ss rule: rev_induct)
    case (snoc t ss)
    then show ?case by (simp add: push_section_eq open_sections_sorted open_sections_snoc)
  qed simp
  then show ?thesis by (simp add: open_sections_sorted)
qed

end
