(* ===== verification/Ingest.thy ===== *)
theory Ingest
  imports Papers Chunking Indexer
begin

section \<open>The ingestion tasks (worker/tasks.py, list_paper_assets in services/paper_service.py)\<close>

text \<open>
  Parsing a stored paper into rows, and embedding its chunks.  The state is that of the paper
  service with the tables of assets and references, the queue of the broker, the vector store and
  the sparse index.  \<open>parse_pdf\<close>, the embedding provider and the identifiers of new chunk rows are
  parameters; \<open>RuntimeErr\<close> stands for \<open>EmbeddingError\<close>.  A task that raises loses what it did not
  commit.  The graph and the result extraction are queued, not run.
\<close>

datatype asset_kind = TABLE | FIGURE | EQUATION

record asset_row =
  as_paper :: uuid
  as_kind :: asset_kind
  as_page :: int
  as_caption :: "string option"
  as_content :: "string option"
  as_key :: "string option"

record parsed_reference =
  rf_order :: nat
  rf_raw :: string
  rf_doi :: "string option"
  rf_arxiv :: "string option"
  rf_year :: "int option"
  rf_title :: "string option"

record extracted_table =
  tb_page :: int
  tb_caption :: "string option"
  tb_markdown :: string

record extracted_figure =
  fg_page :: int
  fg_caption :: "string option"
  fg_image :: "nat list option"

record parsed_document =
  pd_page_count :: nat
  pd_pages :: "string list"
  pd_title :: "string option"
  pd_authors :: "string option"
  pd_abstract :: "string option"
  pd_scanned :: bool
  pd_ocr_pages :: nat
  pd_tables :: "extracted_table list"
  pd_figures :: "extracted_figure list"
  pd_references :: "parsed_reference list"

datatype parse_failure = PdfParseError string | OtherFailure py_error

datatype task = ProcessPaper uuid | EmbedPaper uuid | BuildGraph uuid | ExtractResults uuid

record pipeline =
  pl_service :: service_state
  pl_assets :: "asset_row list"
  pl_refs :: "(uuid \<times> parsed_reference) list"
  pl_queue :: "task list"
  pl_store :: mem_store
  pl_bm :: bm25

definition full_text :: "parsed_document \<Rightarrow> string" where
  "full_text d = join PARA_SEP (pd_pages d)"

definition set_paper :: "uuid \<Rightarrow> (paper_row \<Rightarrow> paper_row) \<Rightarrow> pipeline \<Rightarrow> pipeline" where
  "set_paper pid f s =
     s\<lparr>pl_service := (pl_service s)\<lparr>sv_db := (sv_db (pl_service s))
        \<lparr>db_papers := map (\<lambda>p. if p_id p = pid then f p else p) (db_papers (sv_db (pl_service s)))\<rparr>\<rparr>\<rparr>"

subsection \<open>Rows from a parsed document\<close>

definition given :: "string option \<Rightarrow> bool" where
  "given v \<longleftrightarrow> v \<noteq> None \<and> v \<noteq> Some []"

definition parsed_chunks :: "parsed_document \<Rightarrow> chunk list" where
  "parsed_chunks d =
     (let chunks = chunk_document (full_text d) DEFAULT_CHUNK_TOKENS DEFAULT_OVERLAP_TOKENS;
          chunks = chunks @ map (\<lambda>(i, t). chunk_asset ''table'' (tb_markdown t) (tb_caption t) (tb_page t) i)
            (List.enumerate (length chunks) (pd_tables d)) in
      chunks @ map (\<lambda>(i, f). chunk_asset ''figure'' [] (fg_caption f) (fg_page f) i)
        (List.enumerate (length chunks) (filter (\<lambda>f. given (fg_caption f)) (pd_figures d))))"

definition chunk_row_of :: "(nat \<Rightarrow> uuid) \<Rightarrow> uuid \<Rightarrow> chunk \<Rightarrow> chunk_row" where
  "chunk_row_of ids pid c =
     \<lparr>k_id = ids (ch_index c), k_paper = pid, k_index = ch_index c, k_content = ch_content c, k_section = ch_section c,
      k_page = ch_page c, k_kind = ch_kind c, k_tokens = ch_tokens c, k_embedded = False\<rparr>"

definition replace_chunks :: "(nat \<Rightarrow> uuid) \<Rightarrow> uuid \<Rightarrow> parsed_document \<Rightarrow> pipeline \<Rightarrow> nat \<times> pipeline" where
  "replace_chunks ids pid d s =
     (let db = sv_db (pl_service s); chunks = parsed_chunks d in
      (length chunks, s\<lparr>pl_service := (pl_service s)\<lparr>sv_db := db
         \<lparr>db_chunks := filter (\<lambda>c. k_paper c \<noteq> pid) (db_chunks db) @ map (chunk_row_of ids pid) chunks\<rparr>\<rparr>\<rparr>))"

definition figure_key :: "uuid \<Rightarrow> int \<Rightarrow> nat \<Rightarrow> string" where
  "figure_key pid pg i = ''figures/'' @ str_uuid pid @ ''/p'' @ str_int pg @ ''-'' @ str_nat i @ ''.png''"

definition save_figure :: "uuid \<Rightarrow> nat \<times> extracted_figure \<Rightarrow> storage \<Rightarrow> string option res \<times> storage" where
  "save_figure pid g st =
     (case fg_image (snd g) of
        Some (b # bytes) \<Rightarrow>
          (let key = figure_key pid (fg_page (snd g)) (fst g); (r, st) = storage_save key (b # bytes) st in
           (bind_res r (\<lambda>_. Inr (Some key)), st))
      | _ \<Rightarrow> (Inr None, st))"

fun save_figures :: "uuid \<Rightarrow> (nat \<times> extracted_figure) list \<Rightarrow> storage \<Rightarrow> asset_row list res \<times> storage" where
  "save_figures pid [] st = (Inr [], st)"
| "save_figures pid (g # gs) st =
     (case save_figure pid g st of
        (Inl e, st) \<Rightarrow> (Inl e, st)
      | (Inr key, st) \<Rightarrow>
          (case save_figures pid gs st of
             (Inl e, st) \<Rightarrow> (Inl e, st)
           | (Inr rows, st) \<Rightarrow>
               (Inr (\<lparr>as_paper = pid, as_kind = FIGURE, as_page = fg_page (snd g), as_caption = fg_caption (snd g),
                      as_content = None, as_key = key\<rparr> # rows), st)))"

definition table_row :: "uuid \<Rightarrow> extracted_table \<Rightarrow> asset_row" where
  "table_row pid t = \<lparr>as_paper = pid, as_kind = TABLE, as_page = tb_page t, as_caption = tb_caption t,
     as_content = Some (tb_markdown t), as_key = None\<rparr>"

definition replace_assets :: "uuid \<Rightarrow> parsed_document \<Rightarrow> pipeline \<Rightarrow> unit res \<times> pipeline" where
  "replace_assets pid d s =
     (case save_figures pid (List.enumerate 0 (pd_figures d)) (sv_blobs (pl_service s)) of
        (r, blobs) \<Rightarrow>
          let s = s\<lparr>pl_service := (pl_service s)\<lparr>sv_blobs := blobs\<rparr>\<rparr> in
          (case r of
             Inl e \<Rightarrow> (Inl e, s)
           | Inr rows \<Rightarrow>
               (Inr (), s\<lparr>pl_assets := filter (\<lambda>a. as_paper a \<noteq> pid) (pl_assets s) @ map (table_row pid) (pd_tables d) @ rows,
                          pl_refs := filter (\<lambda>r. fst r \<noteq> pid) (pl_refs s) @ map (Pair pid) (pd_references d)\<rparr>)))"

subsection \<open>Processing a paper\<close>

datatype outcome = Missing | Failed | Ready parsed_document nat

definition mark_failed :: "string \<Rightarrow> paper_row \<Rightarrow> paper_row" where
  "mark_failed msg p = p\<lparr>p_status := FAILED, p_error := Some (take 2000 msg)\<rparr>"

definition mark_ready :: "parsed_document \<Rightarrow> paper_row \<Rightarrow> paper_row" where
  "mark_ready d p =
     p\<lparr>p_page_count := Some (pd_page_count d), p_title := (if given (pd_title d) then pd_title d else Some (p_filename p)),
       p_authors := pd_authors d, p_abstract := pd_abstract d, p_ocr_pages := pd_ocr_pages d, p_status := READY\<rparr>"

text \<open>Opening the blob and parsing it; a missing file is caught, other exceptions are not.\<close>

definition open_and_parse :: "(nat list \<Rightarrow> parse_failure + parsed_document) \<Rightarrow> string \<Rightarrow> storage \<Rightarrow> parse_failure + parsed_document" where
  "open_and_parse parse_pdf key st =
     (case storage_open key st of
        Inl (RuntimeErr e) \<Rightarrow> Inl (PdfParseError e)
      | Inl e \<Rightarrow> Inl (OtherFailure e)
      | Inr bytes \<Rightarrow> parse_pdf bytes)"

text \<open>The second result is the committed state; the blobs of a failed attempt stay.\<close>

definition process_rows ::
    "(nat list \<Rightarrow> parse_failure + parsed_document) \<Rightarrow> (nat \<Rightarrow> uuid) \<Rightarrow> uuid \<Rightarrow> pipeline \<Rightarrow> outcome res \<times> pipeline" where
  "process_rows parse_pdf ids pid s =
     (case get_paper_row (sv_db (pl_service s)) pid of
        None \<Rightarrow> (Inr Missing, s)
      | Some p \<Rightarrow>
          let s = set_paper pid (\<lambda>p. p\<lparr>p_status := PROCESSING, p_error := None\<rparr>) s in
          (case open_and_parse parse_pdf (p_storage_key p) (sv_blobs (pl_service s)) of
             Inl (PdfParseError msg) \<Rightarrow> (Inr Failed, set_paper pid (mark_failed msg) s)
           | Inl (OtherFailure e) \<Rightarrow> (Inl e, s)
           | Inr d \<Rightarrow>
               (case replace_assets pid d (set_paper pid (mark_ready d) s) of
                  (Inl e, t) \<Rightarrow> (Inl e, s\<lparr>pl_service := (pl_service s)\<lparr>sv_blobs := sv_blobs (pl_service t)\<rparr>\<rparr>)
                | (Inr _, t) \<Rightarrow> (case replace_chunks ids pid d t of (n, t) \<Rightarrow> (Inr (Ready d n), t)))))"

definition process_paper ::
    "(nat list \<Rightarrow> parse_failure + parsed_document) \<Rightarrow> (nat \<Rightarrow> uuid) \<Rightarrow> uuid \<Rightarrow> pipeline \<Rightarrow> outcome res \<times> pipeline" where
  "process_paper parse_pdf ids pid s =
     (case process_rows parse_pdf ids pid s of
        (Inr (Ready d n), s) \<Rightarrow> (Inr (Ready d n), s\<lparr>pl_queue := pl_queue s @ [EmbedPaper pid, BuildGraph pid, ExtractResults pid]\<rparr>)
      | (r, s) \<Rightarrow> (r, s))"

subsection \<open>Embedding a paper\<close>

datatype embed_end = Embedded nat | RetryEmbed nat | EmbedRaised py_error

definition MAX_EMBED_RETRIES :: nat where "MAX_EMBED_RETRIES = 3"

definition embed_paper ::
    "(string list \<Rightarrow> real list list res) \<Rightarrow> int \<Rightarrow> uuid \<Rightarrow> bool \<Rightarrow> nat \<Rightarrow> pipeline \<Rightarrow> embed_end \<times> pipeline" where
  "embed_paper embedder batch_size pid reindex retries s =
     (case index_paper embedder pid batch_size reindex \<lparr>i_store = pl_store s, i_bm = pl_bm s, i_db = sv_db (pl_service s)\<rparr> of
        (r, ix) \<Rightarrow>
          ((case r of
              Inr n \<Rightarrow> Embedded n
            | Inl (RuntimeErr e) \<Rightarrow> if retries < MAX_EMBED_RETRIES then RetryEmbed (retries + 1) else EmbedRaised (RuntimeErr e)
            | Inl e \<Rightarrow> EmbedRaised e),
           s\<lparr>pl_store := i_store ix, pl_bm := i_bm ix, pl_service := (pl_service s)\<lparr>sv_db := i_db ix\<rparr>\<rparr>))"

definition list_paper_assets :: "uuid \<Rightarrow> uuid \<Rightarrow> asset_kind option \<Rightarrow> pipeline \<Rightarrow> service_error + asset_row list" where
  "list_paper_assets user pid kind s =
     (case get_paper (sv_db (pl_service s)) user pid of
        Inl e \<Rightarrow> Inl e
      | Inr p \<Rightarrow> Inr (sort_key as_page
          (filter (\<lambda>a. as_paper a = p_id p \<and> (case kind of None \<Rightarrow> True | Some k \<Rightarrow> as_kind a = k)) (pl_assets s))))"

subsection \<open>What processing leaves\<close>

abbreviation db_of :: "pipeline \<Rightarrow> database" where
  "db_of s \<equiv> sv_db (pl_service s)"

definition status_of :: "pipeline \<Rightarrow> uuid \<Rightarrow> paper_status option" where
  "status_of s pid = map_option p_status (get_paper_row (db_of s) pid)"

text \<open>The tables and the queue, apart from the papers and the blobs.\<close>

definition rest_of :: "pipeline \<Rightarrow> chunk_row list \<times> asset_row list \<times> (uuid \<times> parsed_reference) list \<times> task list" where
  "rest_of s = (db_chunks (db_of s), pl_assets s, pl_refs s, pl_queue s)"

lemma rest_of_set_paper [simp]: "rest_of (set_paper pid f s) = rest_of s"
  by (simp add: rest_of_def set_paper_def)

lemma find_map_same: "(\<And>x. P (f x) = P x) \<Longrightarrow> find P (map f xs) = map_option f (find P xs)"
  by (induction xs) auto

lemma get_set_paper [simp]:
  assumes "\<And>p. p_id (f p) = p_id p"
  shows "get_paper_row (db_of (set_paper pid f s)) pid = map_option f (get_paper_row (db_of s) pid)"
proof -
  have "get_paper_row (db_of (set_paper pid f s)) pid = map_option (\<lambda>p. if p_id p = pid then f p else p) (get_paper_row (db_of s) pid)"
    unfolding get_paper_row_def set_paper_def by (simp add: find_map_same assms)
  then show ?thesis by (cases "get_paper_row (db_of s) pid") (auto dest: get_paper_row_Some)
qed

lemma map_index_enumerate: "(\<And>i x. ch_index (f (i, x)) = i) \<Longrightarrow> map ch_index (map f (List.enumerate n xs)) = [n..<n + length xs]"
  by (induction xs arbitrary: n) (simp_all add: upt_rec)

lemma parsed_chunks_index: "map ch_index (parsed_chunks d) = [0..<length (parsed_chunks d)]"
proof -
  let ?a = "chunk_document (full_text d) DEFAULT_CHUNK_TOKENS DEFAULT_OVERLAP_TOKENS"
  let ?f = "\<lambda>(i, t). chunk_asset ''table'' (tb_markdown t) (tb_caption t) (tb_page t) i"
  let ?g = "\<lambda>(i, f). chunk_asset ''figure'' [] (fg_caption f) (fg_page f) i"
  let ?fs = "filter (\<lambda>f. given (fg_caption f)) (pd_figures d)"
  have "map ch_index (parsed_chunks d) =
      [0..<length ?a] @ [length ?a..<length ?a + length (pd_tables d)]
      @ [length ?a + length (pd_tables d)..<length ?a + length (pd_tables d) + length ?fs]"
    unfolding parsed_chunks_def Let_def map_append chunk_document_indices
    using map_index_enumerate [of ?f "length ?a" "pd_tables d"] map_index_enumerate [of ?g "length ?a + length (pd_tables d)" ?fs]
    by (simp add: chunk_asset_def Let_def)
  also have "\<dots> = [0..<length ?a + length (pd_tables d) + length ?fs]"
    by (metis append_assoc le_add1 add_0 upt_add_eq_append)
  also have "length ?a + length (pd_tables d) + length ?fs = length (parsed_chunks d)"
    by (simp add: parsed_chunks_def Let_def)
  finally show ?thesis .
qed

lemma chunk_rows_of:
  "filter (\<lambda>c. k_paper c = pid) (map (chunk_row_of ids pid) cs) = map (chunk_row_of ids pid) cs"
  "filter (\<lambda>c. k_paper c \<noteq> pid) (map (chunk_row_of ids pid) cs) = []"
  "map (k_index \<circ> chunk_row_of ids pid) cs = map ch_index cs"
  by (induction cs) (simp_all add: chunk_row_of_def)

text \<open>The four ways processing can end.\<close>

definition ended_well :: "(nat \<Rightarrow> uuid) \<Rightarrow> uuid \<Rightarrow> pipeline \<Rightarrow> outcome res \<times> pipeline \<Rightarrow> bool" where
  "ended_well ids pid s rt = (case rt of
     (Inr Missing, t) \<Rightarrow> t = s \<and> status_of s pid = None
   | (Inr Failed, t) \<Rightarrow> status_of t pid = Some FAILED \<and> rest_of t = rest_of s \<and> pl_service t = (pl_service s)\<lparr>sv_db := db_of t\<rparr>
   | (Inl e, t) \<Rightarrow> status_of t pid = Some PROCESSING \<and> rest_of t = rest_of s
   | (Inr (Ready d n), t) \<Rightarrow>
       status_of t pid = Some READY
       \<and> filter (\<lambda>c. k_paper c = pid) (db_chunks (db_of t)) = map (chunk_row_of ids pid) (parsed_chunks d)
       \<and> map k_index (filter (\<lambda>c. k_paper c = pid) (db_chunks (db_of t))) = [0..<n]
       \<and> filter (\<lambda>c. k_paper c \<noteq> pid) (db_chunks (db_of t)) = filter (\<lambda>c. k_paper c \<noteq> pid) (db_chunks (db_of s))
       \<and> filter (\<lambda>a. as_paper a \<noteq> pid) (pl_assets t) = filter (\<lambda>a. as_paper a \<noteq> pid) (pl_assets s)
       \<and> length (filter (\<lambda>a. as_paper a = pid) (pl_assets t)) = length (pd_tables d) + length (pd_figures d)
       \<and> pl_queue t = pl_queue s @ [EmbedPaper pid, BuildGraph pid, ExtractResults pid])"

lemma save_figures_rows:
  "save_figures pid gs st = (Inr rows, st') \<Longrightarrow> length rows = length gs \<and> list_all (\<lambda>a. as_paper a = pid) rows"
  by (induction gs arbitrary: st rows) (fastforce split: prod.splits sum.splits)+

lemma replace_assets_Inr:
  assumes "replace_assets pid d s = (Inr u, t)"
  shows "db_of t = db_of s \<and> pl_queue t = pl_queue s
    \<and> filter (\<lambda>a. as_paper a \<noteq> pid) (pl_assets t) = filter (\<lambda>a. as_paper a \<noteq> pid) (pl_assets s)
    \<and> length (filter (\<lambda>a. as_paper a = pid) (pl_assets t)) = length (pd_tables d) + length (pd_figures d)"
proof -
  obtain rows blobs where f: "save_figures pid (List.enumerate 0 (pd_figures d)) (sv_blobs (pl_service s)) = (Inr rows, blobs)"
    and t: "t = s\<lparr>pl_service := (pl_service s)\<lparr>sv_blobs := blobs\<rparr>,
      pl_assets := filter (\<lambda>a. as_paper a \<noteq> pid) (pl_assets s) @ map (table_row pid) (pd_tables d) @ rows,
      pl_refs := filter (\<lambda>r. fst r \<noteq> pid) (pl_refs s) @ map (Pair pid) (pd_references d)\<rparr>"
    using assms by (auto simp: replace_assets_def Let_def split: prod.splits sum.splits)
  have rows: "filter (\<lambda>a. as_paper a = pid) rows = rows" "filter (\<lambda>a. as_paper a \<noteq> pid) rows = []" "length rows = length (pd_figures d)"
    using save_figures_rows [OF f] by (auto simp: list_all_iff filter_id_conv filter_empty_conv)
  have tabs: "filter (\<lambda>a. as_paper a = pid) (map (table_row pid) ts) = map (table_row pid) ts"
      "filter (\<lambda>a. as_paper a \<noteq> pid) (map (table_row pid) ts) = []" for ts
    by (induction ts) (simp_all add: table_row_def)
  show ?thesis unfolding t by (simp add: rows tabs)
qed

lemma process_outcomes:
  "ended_well ids pid s (process_paper parse_pdf ids pid s)"
proof (cases "get_paper_row (db_of s) pid")
  case None
  then show ?thesis by (simp add: process_paper_def process_rows_def ended_well_def status_of_def)
next
  case (Some p)
  let ?s = "set_paper pid (\<lambda>p. p\<lparr>p_status := PROCESSING, p_error := None\<rparr>) s"
  have g: "get_paper_row (db_of ?s) pid = Some (p\<lparr>p_status := PROCESSING, p_error := None\<rparr>)" using Some by simp
  note defs = process_paper_def process_rows_def ended_well_def status_of_def Some
  show ?thesis
  proof (cases "open_and_parse parse_pdf (p_storage_key p) (sv_blobs (pl_service ?s))")
    case (Inl f)
    then show ?thesis
    proof (cases f)
      case (PdfParseError m)
      have "pl_service (set_paper pid (mark_failed m) ?s) = (pl_service s)\<lparr>sv_db := db_of (set_paper pid (mark_failed m) ?s)\<rparr>"
        by (simp add: set_paper_def)
      then show ?thesis using Inl PdfParseError g by (simp add: defs) (simp add: mark_failed_def Some)
    qed (use Inl g in \<open>simp add: defs\<close>)
  next
    case (Inr d)
    obtain r t where a: "replace_assets pid d (set_paper pid (mark_ready d) ?s) = (r, t)" by fastforce
    show ?thesis
    proof (cases r)
      case (Inl e)
      let ?t = "?s\<lparr>pl_service := (pl_service ?s)\<lparr>sv_blobs := sv_blobs (pl_service t)\<rparr>\<rparr>"
      have eq: "process_paper parse_pdf ids pid s = (Inl e, ?t)"
        using \<open>open_and_parse _ _ _ = Inr d\<close> a Inl by (simp add: process_paper_def process_rows_def Some Let_def)
      have "db_of ?t = db_of ?s" "rest_of ?t = rest_of ?s" by (simp_all add: rest_of_def)
      then show ?thesis unfolding eq using g Some by (simp add: ended_well_def status_of_def)
    next
      case (Inr u)
      note t = replace_assets_Inr [OF a [unfolded Inr]]
      have same: "db_chunks (db_of (set_paper pid (mark_ready d) ?s)) = db_chunks (db_of s)" "pl_queue (set_paper pid (mark_ready d) ?s) = pl_queue s"
          "pl_assets (set_paper pid (mark_ready d) ?s) = pl_assets s" by (simp_all add: set_paper_def)
      have st: "get_paper_row (db_of (set_paper pid (mark_ready d) ?s)) pid = Some (mark_ready d (p\<lparr>p_status := PROCESSING, p_error := None\<rparr>))"
        using Some by (simp add: mark_ready_def)
      have eq: "process_paper parse_pdf ids pid s = (case replace_chunks ids pid d t of (n, t) \<Rightarrow>
          (Inr (Ready d n), t\<lparr>pl_queue := pl_queue t @ [EmbedPaper pid, BuildGraph pid, ExtractResults pid]\<rparr>))"
        using \<open>open_and_parse _ _ _ = Inr d\<close> a Inr by (simp add: process_paper_def process_rows_def Some split: prod.split)
      show ?thesis unfolding eq
        using t st
        by (simp add: ended_well_def status_of_def replace_chunks_def Let_def same chunk_rows_of parsed_chunks_index
            get_paper_row_def mark_ready_def)
    qed
  qed
qed

text \<open>Processing a paper ends in one of four ways: the paper is missing and nothing happens; parsing fails and the
  paper is marked so, its old chunks and assets kept; it succeeds, the paper is ready, its chunk
  rows are exactly those of the parsed document, numbered without gaps, its assets the
  extracted ones, the rows of other papers are untouched and the three follow-up tasks are queued;
  or another exception escapes and the paper stays in PROCESSING for good.\<close>

theorem process_paper_outcomes:
  "ended_well ids pid s (process_paper parse_pdf ids pid s)"
  by (rule process_outcomes)

lemma set_paper_store [simp]: "pl_store (set_paper pid f s) = pl_store s"
  by (simp add: set_paper_def)

lemma replace_assets_store: "replace_assets pid d s = (r, t) \<Longrightarrow> pl_store t = pl_store s"
  by (auto simp: replace_assets_def Let_def split: prod.splits sum.splits)

lemma process_paper_store: "pl_store (snd (process_paper parse_pdf ids pid s)) = pl_store s"
proof (cases "get_paper_row (db_of s) pid")
  case None
  then show ?thesis by (simp add: process_paper_def process_rows_def)
next
  case (Some p)
  let ?s = "set_paper pid (\<lambda>p. p\<lparr>p_status := PROCESSING, p_error := None\<rparr>) s"
  show ?thesis
  proof (cases "open_and_parse parse_pdf (p_storage_key p) (sv_blobs (pl_service ?s))")
    case (Inl f)
    then show ?thesis by (cases f) (simp_all add: process_paper_def process_rows_def Some Let_def)
  next
    case (Inr d)
    obtain r t where a: "replace_assets pid d (set_paper pid (mark_ready d) ?s) = (r, t)" by fastforce
    then have "pl_store t = pl_store s" using replace_assets_store by fastforce
    then show ?thesis using Inr a
      by (cases r) (simp_all add: process_paper_def process_rows_def Some Let_def replace_chunks_def)
  qed
qed

subsection \<open>Reprocessing leaves stale index entries\<close>

lemma index_batches_keep:
  assumes "\<And>b k. b \<in> set bs \<Longrightarrow> k \<in> set b \<Longrightarrow> k_id k \<noteq> c"
  shows "dget (m_records (i_store (snd (index_batches e p bs n s)))) c = dget (m_records (i_store s)) c
    \<and> chunk_keys (i_db (snd (index_batches e p bs n s))) = chunk_keys (i_db s)"
  using assms
proof (induction e p bs n s rule: index_batches.induct)
  case (2 embedder p b bs n s)
  obtain r t where b: "index_batch embedder p b s = (r, t)" by fastforce
  have keep: "dget (m_records (i_store t)) c = dget (m_records (i_store s)) c \<and> chunk_keys (i_db t) = chunk_keys (i_db s)"
  proof (cases "embedder (map k_content b)")
    case (Inl e)
    then show ?thesis using b by (simp add: index_batch_def)
  next
    case (Inr vs)
    have "vr_chunk ` set (map (chunk_record p) (zip b vs)) \<subseteq> k_id ` set b"
      by (auto simp: chunk_record_def dest: set_zip_leftD)
    moreover have "c \<notin> k_id ` set b" using "2.prems" [of b] by auto
    ultimately have "c \<notin> vr_chunk ` set (map (chunk_record p) (zip b vs))" by blast
    then have "dget (put_records (map (chunk_record p) (zip b vs)) d) c = dget d c" for d
      using dget_put_records [of c "map (chunk_record p) (zip b vs)" d] by simp
    then show ?thesis using b Inr by (auto simp: index_batch_def split: if_splits)
  qed
  show ?case
  proof (cases r)
    case (Inl e)
    then show ?thesis using b keep by simp
  next
    case (Inr u)
    have "\<And>b k. b \<in> set bs \<Longrightarrow> k \<in> set b \<Longrightarrow> k_id k \<noteq> c" using "2.prems" by auto
    from "2.IH" [OF b [symmetric] Inr this] show ?thesis using b Inr keep by simp
  qed
qed simp

lemma index_paper_keeps:
  assumes "c \<notin> k_id ` set (db_chunks (i_db s))"
  shows "dget (m_records (i_store (snd (index_paper e pid n False s)))) c = dget (m_records (i_store s)) c
    \<and> chunk_keys (i_db (snd (index_paper e pid n False s))) = chunk_keys (i_db s)"
proof -
  let ?cs = "order_by k_index (filter (\<lambda>k. k_paper k = pid \<and> \<not> k_embedded k) (db_chunks (i_db s)))"
  show ?thesis
  proof (cases "get_paper_row (i_db s) pid = None \<or> ?cs = [] \<or> (\<exists>err. batched ?cs n = Inl err)")
    case True
    then show ?thesis by (auto simp: index_paper_def Let_def split: option.splits)
  next
    case False
    then obtain p bs where p: "get_paper_row (i_db s) pid = Some p" "?cs \<noteq> []" "batched ?cs n = Inr bs"
      by (cases "batched ?cs n") auto
    have "k_id k \<noteq> c" if "b \<in> set bs" "k \<in> set b" for b k
      using that assms p(3) in_slices by (fastforce simp: batched_def split: if_splits)
    from index_batches_keep [of bs c e p 0 s, OF this] show ?thesis using p by (simp add: index_paper_def)
  qed
qed

text \<open>Reprocessing leaves stale entries in the index: after a paper is processed again and embedded the way the
  task is queued (without \<open>reindex\<close>), the entries of its former chunks are still in the vector store,
  for chunk rows that no longer exist, whatever the embedding provider answers.\<close>

theorem reprocessing_leaves_stale_entries:
  assumes "process_paper parse_pdf ids pid s = (Inr (Ready d m), t)"
    and "dget (m_records (pl_store s)) c = Some r" and "k \<in> set (db_chunks (db_of s))" "k_id k = c" "k_paper k = pid"
    and "distinct (map k_id (db_chunks (db_of s)))" and "c \<notin> range ids"
  shows "dget (m_records (pl_store (snd (embed_paper embedder bs pid False 0 t)))) c = Some r
    \<and> c \<notin> set (map k_id (db_chunks (db_of (snd (embed_paper embedder bs pid False 0 t)))))"
proof -
  have "ended_well ids pid s (Inr (Ready d m), t)" using process_outcomes [of ids pid s parse_pdf] assms(1) by simp
  then have ch: "filter (\<lambda>c. k_paper c = pid) (db_chunks (db_of t)) = map (chunk_row_of ids pid) (parsed_chunks d)"
      "filter (\<lambda>c. k_paper c \<noteq> pid) (db_chunks (db_of t)) = filter (\<lambda>c. k_paper c \<noteq> pid) (db_chunks (db_of s))"
    by (simp_all add: ended_well_def)
  have store: "pl_store t = pl_store s" using process_paper_store [of parse_pdf ids pid s] assms(1) by simp
  have gone: "c \<notin> k_id ` set (db_chunks (db_of t))"
  proof
    assume "c \<in> k_id ` set (db_chunks (db_of t))"
    then obtain q where q: "q \<in> set (db_chunks (db_of t))" "k_id q = c" by blast
    show False
    proof (cases "k_paper q = pid")
      case True
      then have "q \<in> set (map (chunk_row_of ids pid) (parsed_chunks d))" using q(1) unfolding ch(1) [symmetric] by simp
      then show False using q(2) assms(7) by (auto simp: chunk_row_of_def)
    next
      case False
      then have "q \<in> set (filter (\<lambda>c. k_paper c \<noteq> pid) (db_chunks (db_of s)))" using q(1) unfolding ch(2) [symmetric] by simp
      then have "q \<in> set (db_chunks (db_of s))" by simp
      then have "q = k" using assms(3,4,6) q(2) by (metis distinct_map inj_onD)
      then show False using False assms(5) by simp
    qed
  qed
  let ?ix = "\<lparr>i_store = pl_store t, i_bm = pl_bm t, i_db = db_of t\<rparr>"
  note keep = index_paper_keeps [of c ?ix embedder pid bs]
  have ids: "map k_id (db_chunks db) = map fst (chunk_keys db)" for db by (simp add: chunk_keys_def)
  have "c \<notin> set (map k_id (db_chunks (db_of t)))" using gone by simp
  then have "c \<notin> set (map k_id (db_chunks (i_db (snd (index_paper embedder pid bs False ?ix)))))"
    unfolding ids using keep gone by simp
  moreover have "dget (m_records (i_store (snd (index_paper embedder pid bs False ?ix)))) c = Some r"
    using keep gone assms(2) store by simp
  moreover obtain q ix where "index_paper embedder pid bs False ?ix = (q, ix)" by fastforce
  ultimately show ?thesis by (simp add: embed_paper_def)
qed

definition blank_doc :: parsed_document where
  "blank_doc = \<lparr>pd_page_count = 0, pd_pages = [], pd_title = None, pd_authors = None, pd_abstract = None, pd_scanned = False,
     pd_ocr_pages = 0, pd_tables = [], pd_figures = [], pd_references = []\<rparr>"

definition one_embedded :: pipeline where
  "one_embedded = \<lparr>pl_service = \<lparr>sv_db = one_db True, sv_blobs = \<lparr>so_root = [''data''], so_files = [([''data''], [])]\<rparr>\<rparr>,
     pl_assets = [], pl_refs = [], pl_queue = [], pl_store = i_store indexed, pl_bm = i_bm indexed\<rparr>"

definition reprocessed :: pipeline where
  "reprocessed = snd (process_paper (\<lambda>_. Inr blank_doc) (\<lambda>_. 99) 7 one_embedded)"

lemma reprocessed_ready: "\<exists>m. process_paper (\<lambda>_. Inr blank_doc) (\<lambda>_. 99) 7 one_embedded = (Inr (Ready blank_doc m), reprocessed)"
proof -
  have "resolve_key [''data''] [] = Inr [''data'']" by code_simp
  then show ?thesis
    by (simp add: reprocessed_def process_paper_def process_rows_def one_embedded_def one_db_def get_paper_row_def one_paper_def
        open_and_parse_def storage_open_def set_paper_def replace_assets_def blank_doc_def Let_def replace_chunks_def)
qed

theorem reprocessing_leaves_stale_entries_witness:
  "dget (m_records (pl_store (snd (embed_paper (\<lambda>texts. Inr []) 64 7 False 0 reprocessed)))) 1 \<noteq> None
    \<and> 1 \<notin> set (map k_id (db_chunks (db_of (snd (embed_paper (\<lambda>texts. Inr []) 64 7 False 0 reprocessed)))))"
proof -
  obtain m where m: "process_paper (\<lambda>_. Inr blank_doc) (\<lambda>_. 99) 7 one_embedded = (Inr (Ready blank_doc m), reprocessed)"
    using reprocessed_ready by blast
  have "dkeys (m_records (pl_store one_embedded)) = [1]" using indexed_eq by (simp add: one_embedded_def)
  then obtain r where r: "dget (m_records (pl_store one_embedded)) 1 = Some r" by auto
  have "one_chunk True \<in> set (db_chunks (db_of one_embedded))" "distinct (map k_id (db_chunks (db_of one_embedded)))"
    by (simp_all add: one_embedded_def one_db_def)
  from reprocessing_leaves_stale_entries [OF m r this(1) _ _ this(2)] show ?thesis by (simp add: one_chunk_def)
qed

end
