(* ===== verification/Entities.thy ===== *)
theory Entities
  imports Rag GraphSchema "HOL-Library.List_Lexorder"
begin

section \<open>Entities and relations of a text (graph/extraction.py)\<close>

text \<open>
  The gazetteer pass, the pass of the model, and the merge of both.  What the model answers is
  untrusted: \<open>parse_extraction_payload\<close> keeps only what fits the vocabulary.  The gateway is
  optional, as in the code; any failure of the model's pass is caught.
\<close>

definition MAX_TEXT_CHARS :: nat where "MAX_TEXT_CHARS = 12000"
definition MIN_MENTION_CHARS :: nat where "MIN_MENTION_CHARS = 2"

record entity_mention =
  em_label :: string
  em_name :: string
  em_confidence :: pyfloat
  em_evidence :: string

record relation_mention =
  rm_type :: string
  rm_source :: string
  rm_target :: string
  rm_confidence :: pyfloat
  rm_evidence :: string

record extraction =
  ex_entities :: "entity_mention list"
  ex_relations :: "relation_mention list"

definition em_key :: "entity_mention \<Rightarrow> string" where
  "em_key e = normalize_key (em_name e)"

definition em_sig :: "entity_mention \<Rightarrow> string \<times> string" where
  "em_sig e = (em_label e, em_key e)"

definition rm_sig :: "relation_mention \<Rightarrow> string \<times> string \<times> string" where
  "rm_sig r = (rm_type r, normalize_key (rm_source r), normalize_key (rm_target r))"

text \<open>The loop of \<open>merge\<close>: the new elements whose signature is not among those seen.\<close>

fun add_new :: "('a \<Rightarrow> 'k) \<Rightarrow> 'k list \<Rightarrow> 'a list \<Rightarrow> 'a list" where
  "add_new sig seen [] = []"
| "add_new sig seen (x # xs) =
     (if sig x \<in> set seen then add_new sig seen xs else x # add_new sig (sig x # seen) xs)"

definition merge_extraction :: "extraction \<Rightarrow> extraction \<Rightarrow> extraction" where
  "merge_extraction a b =
     \<lparr>ex_entities = ex_entities a @ add_new em_sig (map em_sig (ex_entities a)) (ex_entities b),
      ex_relations = ex_relations a @ add_new rm_sig (map rm_sig (ex_relations a)) (ex_relations b)\<rparr>"

subsection \<open>The gazetteer\<close>

definition GAZETTEER :: "(string \<times> string list) list" where
  "GAZETTEER =
     [(label_value DATASET,
      [''imagenet'', ''mnist'', ''cifar-10'', ''cifar-100'', ''coco'', ''squad'', ''squad 2.0'',
       ''glue'', ''superglue'', ''wikitext'', ''c4'', ''the pile'', ''common crawl'', ''ms marco'',
       ''natural questions'', ''hotpotqa'', ''triviaqa'', ''beir'', ''wikisql'', ''spider'',
       ''librispeech'', ''conll-2003'', ''snli'', ''multinli'', ''openwebtext'', ''arxiv'']),
      (label_value MODEL,
      [''bert'', ''roberta'', ''albert'', ''distilbert'', ''electra'', ''gpt-2'', ''gpt-3'', ''gpt-4'',
       ''t5'', ''flan-t5'', ''bart'', ''llama'', ''llama 2'', ''llama 3'', ''mistral'', ''mixtral'',
       ''claude'', ''gemini'', ''palm'', ''vit'', ''resnet'', ''efficientnet'', ''clip'', ''whisper'',
       ''transformer'', ''lstm'', ''gru'', ''colbert'', ''dpr'', ''splade'', ''e5'', ''bge'']),
      (label_value METRIC,
      [''accuracy'', ''f1'', ''f1 score'', ''precision'', ''recall'', ''bleu'', ''rouge'', ''rouge-l'',
       ''meteor'', ''perplexity'', ''map'', ''mrr'', ''ndcg'', ''auc'', ''roc-auc'', ''exact match'',
       ''wer'', ''cer'', ''iou'', ''map@k'', ''recall@k'', ''hit rate'']),
      (label_value TASK,
      [''question answering'', ''text classification'', ''named entity recognition'',
       ''machine translation'', ''summarization'', ''sentiment analysis'', ''image classification'',
       ''object detection'', ''semantic segmentation'', ''speech recognition'',
       ''information retrieval'', ''language modeling'', ''code generation'',
       ''reading comprehension'', ''entity linking'', ''relation extraction'']),
      (label_value METHOD,
      [''self-attention'', ''multi-head attention'', ''contrastive learning'', ''fine-tuning'',
       ''prompt tuning'', ''lora'', ''qlora'', ''knowledge distillation'', ''quantization'',
       ''reinforcement learning from human feedback'', ''rlhf'', ''chain-of-thought'',
       ''retrieval-augmented generation'', ''beam search'', ''dropout'', ''batch normalization'',
       ''layer normalization'', ''gradient checkpointing'', ''mixture of experts'']),
      (label_value BENCHMARK,
      [''glue'', ''superglue'', ''mmlu'', ''big-bench'', ''helm'', ''beir'', ''hellaswag'', ''arc'',
       ''truthfulqa'', ''gsm8k'', ''humaneval'', ''mbpp'', ''lambada''])]"

definition term_rx :: "string \<Rightarrow> rx" where
  "term_rx t = cats [Behind False is_word, ilit t, Ahead False is_word]"

definition relation_for_label :: "string \<Rightarrow> string option" where
  "relation_for_label label = dget
     [(label_value DATASET, rel_value USES_DATASET), (label_value MODEL, rel_value PROPOSES),
      (label_value METRIC, rel_value REPORTS), (label_value TASK, rel_value ADDRESSES),
      (label_value METHOD, rel_value USES_METHOD), (label_value BENCHMARK, rel_value EVALUATES_ON)] label"

definition snippet :: "string \<Rightarrow> nat \<Rightarrow> nat \<Rightarrow> string" where
  "snippet text position width =
     strip (map (\<lambda>c. if c = CHR 0x0A then CHR '' '' else c) (take width (drop (position - width div 2) text)))"

definition match_term :: "string \<Rightarrow> string \<Rightarrow> string \<Rightarrow> string \<Rightarrow> extraction" where
  "match_term haystack paper_title label t =
     (case search_from (term_rx t) [] haystack of
        None \<Rightarrow> \<lparr>ex_entities = [], ex_relations = []\<rparr>
      | Some m \<Rightarrow>
          \<lparr>ex_entities = [\<lparr>em_label = label, em_name = t, em_confidence = Fin (9 / 10),
                            em_evidence = snippet haystack (length (fst m)) 120\<rparr>],
           ex_relations =
             (case relation_for_label label of
                None \<Rightarrow> []
              | Some r \<Rightarrow> if paper_title = [] then []
                  else [\<lparr>rm_type = r, rm_source = paper_title, rm_target = t, rm_confidence = Fin (9 / 10), rm_evidence = []\<rparr>])\<rparr>)"

definition extract_with_gazetteer :: "string \<Rightarrow> string \<Rightarrow> extraction" where
  "extract_with_gazetteer text paper_title =
     (if strip text = [] then \<lparr>ex_entities = [], ex_relations = []\<rparr>
      else
        let hits = concat (map (\<lambda>(label, ts). map (match_term (take MAX_TEXT_CHARS text) paper_title label) ts) GAZETTEER) in
        \<lparr>ex_entities = concat (map ex_entities hits), ex_relations = concat (map ex_relations hits)\<rparr>)"

subsection \<open>The model's pass\<close>

text \<open>\<open>str.upper\<close> and \<open>str.title\<close> on Latin-1: the sharp s becomes two letters; the micro sign and
  the y with diaeresis, whose capitals lie outside, are left as they are.\<close>

definition upper_char :: "char \<Rightarrow> string" where
  "upper_char c = (let n = code_pt c in
     if n = 223 then ''SS''
     else if (97 \<le> n \<and> n \<le> 122) \<or> (224 \<le> n \<and> n \<le> 254 \<and> n \<noteq> 247) then [char_of (n - 32)] else [c])"

definition upper :: "string \<Rightarrow> string" where
  "upper s = concat (map upper_char s)"

definition title_char :: "char \<Rightarrow> string" where
  "title_char c = (if code_pt c = 223 then ''Ss'' else upper_char c)"

fun str_title :: "bool \<Rightarrow> string \<Rightarrow> string" where
  "str_title inside [] = []"
| "str_title inside (c # s) =
     (if is_alpha c then (if inside then [lower_char c] else title_char c) @ str_title True s else c # str_title False s)"

definition jfield :: "library \<Rightarrow> (string, pyval) dict \<Rightarrow> string \<Rightarrow> string" where
  "jfield lib d k = (case dget d k of None \<Rightarrow> [] | Some v \<Rightarrow> py_str lib v)"

definition jconfidence :: "library \<Rightarrow> (string, pyval) dict \<Rightarrow> pyfloat res" where
  "jconfidence lib d =
     clamp_confidence (float_of lib) (case dget d ''confidence'' of None \<Rightarrow> PyFloat (Fin (3 / 5)) | Some v \<Rightarrow> v) (Fin (1 / 2))"

text \<open>\<open>payload.get(k, []) or []\<close>, iterated; what is not a dictionary is skipped.\<close>

definition jitems :: "(string, pyval) dict \<Rightarrow> string \<Rightarrow> (string, pyval) dict list res" where
  "jitems payload k =
     (let v = (case dget payload k of None \<Rightarrow> PyList [] | Some v \<Rightarrow> v) in
      bind_res (if truthy v then py_list v else Inr []) (\<lambda>items. Inr (List.map_filter as_object items)))"

definition clean_label :: "string \<Rightarrow> string" where
  "clean_label s = filter (\<lambda>c. c \<noteq> CHR '' '') (str_title False (strip s))"

definition clean_type :: "string \<Rightarrow> string" where
  "clean_type s = map (\<lambda>c. if c = CHR '' '' then CHR ''_'' else c) (upper (strip s))"

definition entity_of :: "library \<Rightarrow> (string, pyval) dict \<Rightarrow> entity_mention list res" where
  "entity_of lib item =
     (let label = clean_label (jfield lib item ''type''); name = strip (jfield lib item ''name'') in
      if label \<notin> set ENTITY_LABELS \<or> length name < MIN_MENTION_CHARS then Inr []
      else bind_res (jconfidence lib item) (\<lambda>c.
        Inr [\<lparr>em_label = label, em_name = name, em_confidence = c, em_evidence = take 300 (jfield lib item ''evidence'')\<rparr>]))"

definition relation_of :: "library \<Rightarrow> string list \<Rightarrow> (string, pyval) dict \<Rightarrow> relation_mention list res" where
  "relation_of lib known item =
     (let ty = clean_type (jfield lib item ''type''); source = strip (jfield lib item ''source''); target = strip (jfield lib item ''target'') in
      if ty \<notin> set (dkeys ALLOWED_EDGES) \<or> source = [] \<or> target = [] then Inr []
      else if normalize_key source \<notin> set known \<or> normalize_key target \<notin> set known then Inr []
      else bind_res (jconfidence lib item) (\<lambda>c.
        Inr [\<lparr>rm_type = ty, rm_source = source, rm_target = target, rm_confidence = c,
              rm_evidence = take 300 (jfield lib item ''evidence'')\<rparr>]))"

definition parse_extraction_payload :: "library \<Rightarrow> string \<Rightarrow> string \<Rightarrow> extraction res" where
  "parse_extraction_payload lib raw paper_title =
     (case load_json_object (json_loads lib) (Some raw) of
        None \<Rightarrow> Inr \<lparr>ex_entities = [], ex_relations = []\<rparr>
      | Some payload \<Rightarrow>
          bind_res (jitems payload ''entities'') (\<lambda>items.
          bind_res (mapM (entity_of lib) items) (\<lambda>es.
          let entities = concat es; known = map em_key entities @ [normalize_key paper_title] in
          bind_res (jitems payload ''relations'') (\<lambda>items.
          bind_res (mapM (relation_of lib known) items) (\<lambda>rs.
          Inr \<lparr>ex_entities = entities, ex_relations = concat rs\<rparr>)))))"

definition sorted_names :: "string list \<Rightarrow> string" where
  "sorted_names xs = join '', '' (sort_key (map code_pt) xs)"

definition extract_with_llm :: "library \<Rightarrow> string \<Rightarrow> string \<Rightarrow> 'w llm \<Rightarrow> (llm_exn + extraction) \<times> 'w llm" where
  "extract_with_llm lib text paper_title gw =
     (if strip text = [] then (Inr \<lparr>ex_entities = [], ex_relations = []\<rparr>, gw)
      else bind_llm (ask EXTRACT_ENTITIES
          [(''paper_title'', if paper_title = [] then ''Untitled'' else paper_title), (''labels'', sorted_names ENTITY_LABELS),
           (''relations'', sorted_names (dkeys ALLOWED_EDGES)), (''text'', take MAX_TEXT_CHARS text)] 0 1500)
        (\<lambda>c. lift_llm (parse_extraction_payload lib (c_text c) paper_title)) gw)"

definition extract_entities :: "library \<Rightarrow> string \<Rightarrow> string \<Rightarrow> 'w llm option \<Rightarrow> bool \<Rightarrow> extraction \<times> 'w llm option" where
  "extract_entities lib text paper_title gateway use_llm =
     (let found = extract_with_gazetteer text paper_title in
      case gateway of
        Some gw \<Rightarrow>
          if use_llm
          then (case extract_with_llm lib text paper_title gw of
                  (Inr r, gw) \<Rightarrow> (merge_extraction found r, Some gw)
                | (Inl e, gw) \<Rightarrow> (found, Some gw))
          else (found, gateway)
      | None \<Rightarrow> (found, None))"

subsection \<open>What the passes return\<close>

definition entity_fits :: "entity_mention \<Rightarrow> bool" where
  "entity_fits e \<longleftrightarrow> em_label e \<in> set ENTITY_LABELS \<and> MIN_MENTION_CHARS \<le> length (em_name e)
     \<and> unit_float (em_confidence e) \<and> length (em_evidence e) \<le> 300"

definition relation_fits :: "string list \<Rightarrow> relation_mention \<Rightarrow> bool" where
  "relation_fits known r \<longleftrightarrow> rm_type r \<in> set (dkeys ALLOWED_EDGES) \<and> rm_source r \<noteq> [] \<and> rm_target r \<noteq> []
     \<and> normalize_key (rm_source r) \<in> set known \<and> normalize_key (rm_target r) \<in> set known
     \<and> unit_float (rm_confidence r) \<and> length (rm_evidence r) \<le> 300"

definition json_failure :: "py_error \<Rightarrow> bool" where
  "json_failure e \<longleftrightarrow> e = OverflowErr \<or> (\<exists>m. e = TypeErr m)"

lemma jconfidence_cases:
  "case jconfidence lib d of Inr c \<Rightarrow> unit_float c | Inl e \<Rightarrow> json_failure e"
proof -
  have half: "unit_float (Fin (1 / 2))" by simp
  have "(\<exists>x. jconfidence lib d = Inr x \<and> unit_float x) \<or> jconfidence lib d = Inl OverflowErr"
    unfolding jconfidence_def using clamp_confidence_bounds [OF half] by blast
  then show ?thesis by (auto simp: json_failure_def)
qed

lemma entity_of_cases:
  "case entity_of lib d of Inr es \<Rightarrow> list_all entity_fits es | Inl e \<Rightarrow> json_failure e"
  using jconfidence_cases [of lib d]
  by (auto simp: entity_of_def Let_def entity_fits_def bind_res_def split: sum.splits)

lemma relation_of_cases:
  "case relation_of lib known d of Inr rs \<Rightarrow> list_all (relation_fits known) rs | Inl e \<Rightarrow> json_failure e"
  using jconfidence_cases [of lib d]
  by (auto simp: relation_of_def Let_def relation_fits_def bind_res_def split: sum.splits)

lemma mapM_cases:
  assumes "\<And>x. case f x of Inr ys \<Rightarrow> list_all P ys | Inl e \<Rightarrow> Q e"
  shows "case mapM f xs of Inr yss \<Rightarrow> list_all P (concat yss) | Inl e \<Rightarrow> Q e"
proof (cases "mapM f xs")
  case (Inl e)
  then obtain x where "f x = Inl e" using mapM_Inl [OF Inl] by blast
  then show ?thesis using assms [of x] Inl by simp
next
  case (Inr yss)
  have "list_all P ys" if ys: "ys \<in> set yss" for ys
  proof -
    have "list_all2 (\<lambda>x y. f x = Inr y) xs yss" using Inr by (simp add: mapM_Inr_conv)
    from list_all2_ex1 [OF this ys] obtain x where "f x = Inr ys" by blast
    then show ?thesis using assms [of x] by simp
  qed
  then show ?thesis using Inr by (auto simp: list_all_iff)
qed

lemma jitems_Inl: "jitems d k = Inl e \<Longrightarrow> json_failure e"
  by (auto simp: jitems_def py_list_def json_failure_def bind_res_def split: pyval.splits if_splits sum.splits option.splits)


lemma add_new_props:
  "distinct (map sig (add_new sig seen xs)) \<and> sig ` set (add_new sig seen xs) = sig ` set xs - set seen
   \<and> set (add_new sig seen xs) \<subseteq> set xs"
proof (induction xs arbitrary: seen)
  case (Cons x xs)
  show ?case
  proof (cases "sig x \<in> set seen")
    case True
    then show ?thesis using Cons [of seen] by auto
  next
    case False
    then show ?thesis using Cons [of "sig x # seen"] by auto
  qed
qed simp

lemma set_match_term:
  "e \<in> set (ex_entities (match_term h t label w)) \<Longrightarrow> em_label e = label \<and> em_name e = w \<and> em_confidence e = Fin (9 / 10)"
  by (auto simp: match_term_def split: option.splits)

lemma gazetteer_mentions:
  assumes "e \<in> set (ex_entities (extract_with_gazetteer text paper_title))"
  shows "\<exists>ws. (em_label e, ws) \<in> set GAZETTEER \<and> em_name e \<in> set ws"
  using assms set_match_term by (fastforce simp: extract_with_gazetteer_def Let_def split: if_splits)

text \<open>The merge is a union by signature, the gazetteer first: its mentions stay in front and unchanged, the
  model's follow, each at most once and none whose label and key the gazetteer has already
  found.\<close>

theorem merge_is_union:
  "prefix (ex_entities a) (ex_entities (merge_extraction a b))
   \<and> em_sig ` set (ex_entities (merge_extraction a b)) = em_sig ` set (ex_entities a) \<union> em_sig ` set (ex_entities b)
   \<and> distinct (map em_sig (drop (length (ex_entities a)) (ex_entities (merge_extraction a b))))
   \<and> set (ex_entities (merge_extraction a b)) \<subseteq> set (ex_entities a) \<union> set (ex_entities b)
   \<and> rm_sig ` set (ex_relations (merge_extraction a b)) = rm_sig ` set (ex_relations a) \<union> rm_sig ` set (ex_relations b)"
  using add_new_props [of em_sig "map em_sig (ex_entities a)" "ex_entities b"]
    add_new_props [of rm_sig "map rm_sig (ex_relations a)" "ex_relations b"]
  by (auto simp: merge_extraction_def image_Un)

text \<open>A failing model never loses the gazetteer's result, and without a gateway (which the worker never passes)
  the model is never asked.\<close>

theorem extraction_keeps_gazetteer:
  "prefix (ex_entities (extract_with_gazetteer text title)) (ex_entities (fst (extract_entities lib text title gateway use_llm)))
   \<and> extract_entities lib text title None use_llm = (extract_with_gazetteer text title, None)"
proof -
  have "prefix (ex_entities a) (ex_entities (merge_extraction a b))" for a b by (simp add: merge_extraction_def)
  then show ?thesis by (auto simp: extract_entities_def Let_def split: option.splits prod.splits sum.splits)
qed

end
