(* ===== verification/Builder.thy ===== *)
theory Builder
  imports Ingest Entities GraphStore
begin

section \<open>Projecting a paper into the graph (graph/builder.py)\<close>

text \<open>
  Nodes and edges of a paper, its authors, venue, extracted entities and citations, written to the
  in-memory graph store, and the entities mirrored into a table.  The property dictionaries the
  builder creates are new objects on the store's heap, at addresses from \<open>ge_next\<close>.  The
  identifier of a reference row is a parameter.
\<close>

record entity_row =
  en_paper :: uuid
  en_label :: string
  en_key :: string
  en_name :: string
  en_confidence :: pyfloat
  en_evidence :: "string option"

record graph_env =
  ge_db :: database
  ge_refs :: "(uuid \<times> parsed_reference) list"
  ge_entities :: "entity_row list"
  ge_store :: graph_store
  ge_next :: nat

definition MAX_EXTRACTION_CHARS :: nat where "MAX_EXTRACTION_CHARS = 24000"

definition AUTHOR_SEPARATORS :: "string list" where
  "AUTHOR_SEPARATORS = ['';'', '','', '' and '', ''&'']"

definition author_ok :: "string \<Rightarrow> bool" where
  "author_ok name \<longleftrightarrow> \<not> (length name < 3 \<or> 80 < length name) \<and> list_ex is_alpha name"

definition split_authors :: "string \<Rightarrow> string list" where
  "split_authors raw =
     (if strip raw = [] then []
      else
        let working = fold (\<lambda>sep w. re_sub (lit sep) ''|'' w) AUTHOR_SEPARATORS raw in
        take 50 (filter author_ok (map (strip_by (\<lambda>c. c \<in> set '' .'')) (re_split (chr CHR ''|'') working))))"

subsection \<open>Objects on the heap\<close>

type_synonym heap = "nat \<times> (nat \<Rightarrow> props)"

definition new_node :: "string \<Rightarrow> string \<Rightarrow> props \<Rightarrow> heap \<Rightarrow> graph_node res \<times> heap" where
  "new_node label key p h = (GraphNode label key (fst h), (Suc (fst h), (snd h)(fst h := p)))"

definition new_edge :: "string \<Rightarrow> graph_node \<Rightarrow> graph_node \<Rightarrow> props \<Rightarrow> heap \<Rightarrow> graph_rel res \<times> heap" where
  "new_edge ty a b p h = (GraphRelationship ty a b (fst h), (Suc (fst h), (snd h)(fst h := p)))"

definition bind_h :: "(heap \<Rightarrow> 'a res \<times> heap) \<Rightarrow> ('a \<Rightarrow> heap \<Rightarrow> 'b res \<times> heap) \<Rightarrow> heap \<Rightarrow> 'b res \<times> heap" where
  "bind_h m f h = (case m h of (Inl e, h) \<Rightarrow> (Inl e, h) | (Inr x, h) \<Rightarrow> f x h)"

definition return_h :: "'a \<Rightarrow> heap \<Rightarrow> 'a res \<times> heap" where
  "return_h x h = (Inr x, h)"

fun mapM_h :: "('a \<Rightarrow> heap \<Rightarrow> 'b res \<times> heap) \<Rightarrow> 'a list \<Rightarrow> heap \<Rightarrow> 'b list res \<times> heap" where
  "mapM_h f [] = return_h []"
| "mapM_h f (x # xs) = bind_h (f x) (\<lambda>y. bind_h (mapM_h f xs) (\<lambda>ys. return_h (y # ys)))"

subsection \<open>The parts of the graph\<close>

definition title_of :: "paper_row \<Rightarrow> string" where
  "title_of p = (case p_title p of Some (c # t) \<Rightarrow> c # t | _ \<Rightarrow> p_filename p)"

definition py_opt_int :: "int option \<Rightarrow> pyval" where
  "py_opt_int v = (case v of None \<Rightarrow> PyNone | Some i \<Rightarrow> PyInt i)"

definition paper_node :: "paper_row \<Rightarrow> heap \<Rightarrow> graph_node res \<times> heap" where
  "paper_node p = new_node (label_value PAPER) (str_uuid (p_id p))
     [(''name'', PyStr (title_of p)), (''paper_id'', PyStr (str_uuid (p_id p))),
      (''workspace_id'', PyStr (str_uuid (p_workspace p))), (''year'', py_opt_int (p_year p)),
      (''page_count'', py_opt_int (map_option int (p_page_count p)))]"

definition linked_node :: "string \<Rightarrow> string \<Rightarrow> graph_node \<Rightarrow> string \<Rightarrow> heap \<Rightarrow> (graph_node \<times> graph_rel) res \<times> heap" where
  "linked_node label ty paper name =
     bind_h (new_node label name [(''name'', PyStr name)]) (\<lambda>n.
     bind_h (new_edge ty paper n []) (\<lambda>e. return_h (n, e)))"

definition mention_node :: "entity_mention \<Rightarrow> heap \<Rightarrow> graph_node res \<times> heap" where
  "mention_node m = new_node (em_label m) (em_name m) [(''name'', PyStr (em_name m)), (''confidence'', PyFloat (em_confidence m))]"

text \<open>\<open>entity_nodes\<close> is keyed by the normalised name alone.\<close>

definition entity_nodes :: "entity_mention list \<Rightarrow> graph_node list \<Rightarrow> (string, graph_node) dict" where
  "entity_nodes ms ns = fold (\<lambda>(m, n). dset (normalize_key (em_name m)) n) (zip ms ns) []"

definition resolve_endpoint :: "string \<Rightarrow> graph_node \<Rightarrow> string \<Rightarrow> (string, graph_node) dict \<Rightarrow> graph_node option" where
  "resolve_endpoint surface paper paper_title_key nodes =
     (let key = normalize_key surface in
      if key = paper_title_key \<or> key = n_key paper then Some paper else dget nodes key)"

text \<open>An edge of the wrong shape is dropped.\<close>

fun relation_edges :: "graph_node \<Rightarrow> string \<Rightarrow> (string, graph_node) dict \<Rightarrow> relation_mention list \<Rightarrow> heap \<Rightarrow> graph_rel list \<times> heap" where
  "relation_edges paper key nodes [] h = ([], h)"
| "relation_edges paper key nodes (r # rs) h =
     (case (resolve_endpoint (rm_source r) paper key nodes, resolve_endpoint (rm_target r) paper key nodes) of
        (Some a, Some b) \<Rightarrow>
          (case new_edge (rm_type r) a b [(''confidence'', PyFloat (rm_confidence r))] h of
             (Inl e, h) \<Rightarrow> relation_edges paper key nodes rs h
           | (Inr e, h) \<Rightarrow> (let (es, h) = relation_edges paper key nodes rs h in (e # es, h)))
      | _ \<Rightarrow> relation_edges paper key nodes rs h)"

text \<open>The papers of the workspace by normalised title; a later paper replaces an earlier one.\<close>

definition papers_by_title :: "database \<Rightarrow> paper_row \<Rightarrow> (string, paper_row) dict" where
  "papers_by_title db p =
     fold (\<lambda>q. case p_title q of Some (c # t) \<Rightarrow> dset (normalize_key (c # t)) q | _ \<Rightarrow> (\<lambda>d. d))
       (filter (\<lambda>q. p_workspace q = p_workspace p \<and> p_id q \<noteq> p_id p) (db_papers db)) []"

fun cited_papers :: "(string, paper_row) dict \<Rightarrow> uuid list \<Rightarrow> parsed_reference list \<Rightarrow> (parsed_reference \<times> paper_row) list" where
  "cited_papers by_title seen [] = []"
| "cited_papers by_title seen (r # rs) =
     (case rf_title r of
        Some (c # t) \<Rightarrow>
          (case dget by_title (normalize_key (c # t)) of
             None \<Rightarrow> cited_papers by_title seen rs
           | Some q \<Rightarrow>
               if p_id q \<in> set seen then cited_papers by_title seen rs
               else (r, q) # cited_papers by_title (p_id q # seen) rs)
      | _ \<Rightarrow> cited_papers by_title seen rs)"

definition citation_part :: "(parsed_reference \<Rightarrow> string) \<Rightarrow> graph_node \<Rightarrow> parsed_reference \<times> paper_row \<Rightarrow> heap \<Rightarrow> (graph_node \<times> graph_rel) res \<times> heap" where
  "citation_part ref_id paper rq =
     bind_h (paper_node (snd rq)) (\<lambda>n.
     bind_h (new_edge (rel_value CITES) paper n [(''reference_id'', PyStr (ref_id (fst rq)))]) (\<lambda>e. return_h (n, e)))"

definition extraction_text :: "database \<Rightarrow> paper_row \<Rightarrow> string" where
  "extraction_text db p =
     take MAX_EXTRACTION_CHARS (join PARA_SEP
       ((case p_abstract p of Some (c # a) \<Rightarrow> [c # a] | _ \<Rightarrow> [])
        @ map k_content (take 30 (order_by k_index (filter (\<lambda>c. k_paper c = p_id p) (db_chunks db))))))"

definition paper_parts ::
    "(parsed_reference \<Rightarrow> string) \<Rightarrow> database \<Rightarrow> (uuid \<times> parsed_reference) list \<Rightarrow> paper_row \<Rightarrow> extraction
       \<Rightarrow> heap \<Rightarrow> (graph_node list \<times> graph_rel list) res \<times> heap" where
  "paper_parts ref_id db refs p result =
     bind_h (paper_node p) (\<lambda>paper.
     bind_h (mapM_h (linked_node (label_value AUTHOR) (rel_value AUTHORED_BY) paper)
               (split_authors (case p_authors p of None \<Rightarrow> [] | Some a \<Rightarrow> a))) (\<lambda>authors.
     bind_h (mapM_h (linked_node (label_value VENUE) (rel_value PUBLISHED_IN) paper)
               (case p_venue p of Some (c # v) \<Rightarrow> [c # v] | _ \<Rightarrow> [])) (\<lambda>venues.
     bind_h (mapM_h mention_node (ex_entities result)) (\<lambda>mentions.
     bind_h (\<lambda>h. let (es, h) = relation_edges paper (normalize_key (title_of p)) (entity_nodes (ex_entities result) mentions)
                                (ex_relations result) h in (Inr es, h)) (\<lambda>edges.
     bind_h (mapM_h (citation_part ref_id paper)
               (cited_papers (papers_by_title db p) [] (map snd (filter (\<lambda>r. fst r = p_id p) refs)))) (\<lambda>cites.
     return_h (paper # map fst authors @ map fst venues @ mentions @ map fst cites,
               map snd authors @ map snd venues @ edges @ map snd cites)))))))"

definition entity_row_of :: "uuid \<Rightarrow> entity_mention \<Rightarrow> entity_row" where
  "entity_row_of pid m = \<lparr>en_paper = pid, en_label = em_label m, en_key = take 255 (em_key m), en_name = take 255 (em_name m),
     en_confidence = em_confidence m, en_evidence = (if em_evidence m = [] then None else Some (em_evidence m))\<rparr>"

text \<open>The commit fails when two keys become equal by the truncation.\<close>

definition mirror_entities :: "uuid \<Rightarrow> extraction \<Rightarrow> entity_row list \<Rightarrow> unit res \<times> entity_row list" where
  "mirror_entities pid result rows =
     (let fresh = map (entity_row_of pid) (add_new em_sig [] (ex_entities result)) in
      if distinct (map (\<lambda>r. (en_label r, en_key r)) fresh)
      then (Inr (), filter (\<lambda>r. en_paper r \<noteq> pid) rows @ fresh)
      else (Inl (RuntimeErr ''IntegrityError''), rows))"

definition build_paper_graph ::
    "library \<Rightarrow> (parsed_reference \<Rightarrow> string) \<Rightarrow> uuid \<Rightarrow> 'w llm option \<Rightarrow> bool \<Rightarrow> graph_env
       \<Rightarrow> extraction res \<times> 'w llm option \<times> graph_env" where
  "build_paper_graph lib ref_id pid gateway use_llm env =
     (case get_paper_row (ge_db env) pid of
        None \<Rightarrow> (Inl (ValueError ''Paper does not exist''), gateway, env)
      | Some p \<Rightarrow>
          let (result, gateway) = extract_entities lib (extraction_text (ge_db env) p) (title_of p) gateway use_llm in
          (case paper_parts ref_id (ge_db env) (ge_refs env) p result (ge_next env, g_heap (ge_store env)) of
             (Inl e, h) \<Rightarrow> (Inl e, gateway, env)
           | (Inr (nodes, edges), h) \<Rightarrow>
               let store = fst (upsert_nodes nodes ((ge_store env)\<lparr>g_heap := snd h\<rparr>));
                   store = fst (upsert_relationships edges store);
                   (r, rows) = mirror_entities pid result (ge_entities env) in
               (bind_res r (\<lambda>_. Inr result), gateway, env\<lparr>ge_store := store, ge_next := fst h, ge_entities := rows\<rparr>)))"

definition remove_paper_from_graph :: "uuid \<Rightarrow> graph_env \<Rightarrow> nat \<times> graph_env" where
  "remove_paper_from_graph pid env =
     (let (store, removed) = delete_paper (str_uuid pid) (ge_store env) in
      (removed, env\<lparr>ge_store := store, ge_entities := filter (\<lambda>r. en_paper r \<noteq> pid) (ge_entities env)\<rparr>))"

subsection \<open>What the builder writes is well formed\<close>

definition returns :: "(heap \<Rightarrow> 'a res \<times> heap) \<Rightarrow> ('a \<Rightarrow> bool) \<Rightarrow> bool" where
  "returns m P \<longleftrightarrow> (\<forall>h x h'. m h = (Inr x, h') \<longrightarrow> P x)"

lemma returnsD: "returns m P \<Longrightarrow> m h = (Inr x, h') \<Longrightarrow> P x"
  unfolding returns_def by blast

lemma returns_return [intro]: "P x \<Longrightarrow> returns (return_h x) P"
  by (simp add: returns_def return_h_def)

lemma returns_bind: "returns m P \<Longrightarrow> (\<And>x. P x \<Longrightarrow> returns (f x) Q) \<Longrightarrow> returns (bind_h m f) Q"
  unfolding returns_def bind_h_def by (fastforce split: prod.splits sum.splits)

lemma returns_mapM: "(\<And>x. returns (f x) P) \<Longrightarrow> returns (mapM_h f xs) (list_all P)"
proof (induction xs)
  case (Cons x xs)
  show ?case unfolding mapM_h.simps
    by (rule returns_bind [OF Cons.prems], rule returns_bind [OF Cons.IH [OF Cons.prems]]) auto
qed (auto simp: return_h_def returns_def)

lemma returns_new_node: "returns (new_node l k p) node_ok"
  by (auto simp: returns_def new_node_def intro: GraphNode_ok)

lemma returns_new_edge: "node_ok a \<Longrightarrow> node_ok b \<Longrightarrow> returns (new_edge ty a b p) rel_ok"
  by (auto simp: returns_def new_edge_def intro: GraphRelationship_ok)

abbreviation pair_ok :: "graph_node \<times> graph_rel \<Rightarrow> bool" where
  "pair_ok ne \<equiv> node_ok (fst ne) \<and> rel_ok (snd ne)"

lemma returns_linked: "node_ok paper \<Longrightarrow> returns (linked_node l ty paper name) pair_ok"
  unfolding linked_node_def
  by (rule returns_bind [OF returns_new_node], rule returns_bind [OF returns_new_edge]) auto

lemma returns_citation: "node_ok paper \<Longrightarrow> returns (citation_part ref_id paper rq) pair_ok"
  unfolding citation_part_def paper_node_def
  by (rule returns_bind [OF returns_new_node], rule returns_bind [OF returns_new_edge]) auto

lemma entity_nodes_ok:
  "list_all node_ok ns \<Longrightarrow> dget (entity_nodes ms ns) k = Some n \<Longrightarrow> node_ok n"
proof -
  have "dget (fold (\<lambda>(m, n). dset (normalize_key (em_name m)) n) mns d) k = Some n \<Longrightarrow>
      (\<exists>m. (m, n) \<in> set mns) \<or> dget d k = Some n" for mns d
  proof (induction mns arbitrary: d)
    case (Cons mn mns)
    obtain m v where mn: "mn = (m, v)" by (cases mn)
    have "(\<exists>m. (m, n) \<in> set mns) \<or> dget (dset (normalize_key (em_name m)) v d) k = Some n"
      using Cons.prems by (intro Cons.IH) (simp add: mn)
    then show ?case by (auto simp: mn split: if_splits)
  qed simp
  from this [of "zip ms ns" "[]"] show "list_all node_ok ns \<Longrightarrow> dget (entity_nodes ms ns) k = Some n \<Longrightarrow> node_ok n"
    by (auto simp: entity_nodes_def list_all_iff dest: set_zip_rightD)
qed

lemma relation_edges_ok:
  assumes "node_ok paper" "\<And>k n. dget nodes k = Some n \<Longrightarrow> node_ok n"
  shows "list_all rel_ok (fst (relation_edges paper key nodes rs h))"
proof (induction rs arbitrary: h)
  case (Cons r rs)
  have res: "node_ok n" if "resolve_endpoint w paper key nodes = Some n" for w n
    using that assms by (auto simp: resolve_endpoint_def Let_def split: if_splits)
  show ?case
  proof (cases "resolve_endpoint (rm_source r) paper key nodes = None \<or> resolve_endpoint (rm_target r) paper key nodes = None")
    case True
    then show ?thesis using Cons.IH by (auto split: option.splits)
  next
    case False
    then obtain a b where ab: "resolve_endpoint (rm_source r) paper key nodes = Some a" "resolve_endpoint (rm_target r) paper key nodes = Some b"
      by auto
    obtain q h1 where e: "new_edge (rm_type r) a b [(''confidence'', PyFloat (rm_confidence r))] h = (q, h1)"
      by (cases "new_edge (rm_type r) a b [(''confidence'', PyFloat (rm_confidence r))] h")
    have "rel_ok x" if "q = Inr x" for x
      using returnsD [OF returns_new_edge [OF res [OF ab(1)] res [OF ab(2)]]] e that by blast
    then show ?thesis using ab e Cons.IH [of h1] by (cases q) (auto simp: Let_def case_prod_unfold)
  qed
qed simp

abbreviation parts_ok :: "graph_node list \<times> graph_rel list \<Rightarrow> bool" where
  "parts_ok x \<equiv> list_all node_ok (fst x) \<and> list_all rel_ok (snd x)"

lemma list_all_pairs: "list_all pair_ok xs \<Longrightarrow> list_all node_ok (map fst xs) \<and> list_all rel_ok (map snd xs)"
  by (induction xs) auto

lemma paper_parts_ok: "returns (paper_parts ref_id db refs p result) parts_ok"
proof -
  have edges: "returns (\<lambda>h. let (es, h) = relation_edges paper key nodes rs h in (Inr es, h)) (list_all rel_ok)"
    if "node_ok paper" "\<And>k n. dget nodes k = Some n \<Longrightarrow> node_ok n" for paper key nodes rs
  proof -
    have "list_all rel_ok (fst (relation_edges paper key nodes rs h))" for h using that by (rule relation_edges_ok)
    then show ?thesis by (auto simp: returns_def case_prod_unfold Let_def)
  qed
  show ?thesis
    unfolding paper_parts_def
    apply (rule returns_bind [where P = node_ok])
     apply (simp add: paper_node_def returns_new_node)
    apply (rule returns_bind [OF returns_mapM [OF returns_linked]], assumption)
    apply (rule returns_bind [OF returns_mapM [OF returns_linked]], assumption)
    apply (rule returns_bind [OF returns_mapM, where P1 = node_ok], simp add: mention_node_def returns_new_node)
    apply (rule returns_bind [OF edges], assumption, erule (1) entity_nodes_ok)
    apply (rule returns_bind [OF returns_mapM [OF returns_citation]], assumption)
    apply (rule returns_return)
    using list_all_pairs by simp
qed

subsection \<open>The node of the paper\<close>

lemma hex_plain:
  assumes "c \<in> set (str_uuid u)"
  shows "\<not> is_space c \<and> \<not> key_strip_char c \<and> lower_char c = c"
proof -
  have "list_all (\<lambda>c. \<not> is_space c \<and> \<not> key_strip_char c \<and> lower_char c = c) (CHR ''-'' # map hex_char [0..<16])" by code_simp
  then show ?thesis using hex_chars [OF assms] by (auto simp: list_all_iff simp del: upt_Suc)
qed

lemma normalize_uuid: "normalize_key (str_uuid u) = str_uuid u" "lower (str_uuid u) = str_uuid u"
proof -
  show l: "lower (str_uuid u) = str_uuid u" using hex_plain by (simp add: lower_def map_idI)
  have "words (str_uuid u) = [str_uuid u]" using words_word [of "str_uuid u"] hex_plain str_uuid_nonempty by blast
  then show "normalize_key (str_uuid u) = str_uuid u"
    using hex_plain [OF hd_in_set [OF str_uuid_nonempty]] hex_plain [OF last_in_set [OF str_uuid_nonempty]]
    by (simp add: normalize_key_def l strip_by_id)
qed

definition paper_uid :: "uuid \<Rightarrow> string" where
  "paper_uid pid = ''Paper:'' @ str_uuid pid"

lemma upsert_nodes_present: "n \<in> set ns \<Longrightarrow> dget (g_nodes (fold upsert_node ns s)) (node_uid n) \<noteq> None"
proof -
  have keep: "dget (g_nodes s) u \<noteq> None \<Longrightarrow> dget (g_nodes (fold upsert_node ns s)) u \<noteq> None" for u s ns
    by (induction ns arbitrary: s) (auto simp: upsert_node_def split: option.splits)
  show "n \<in> set ns \<Longrightarrow> dget (g_nodes (fold upsert_node ns s)) (node_uid n) \<noteq> None"
  proof (induction ns arbitrary: s)
    case (Cons m ns)
    have "dget (g_nodes (upsert_node m s)) (node_uid m) \<noteq> None" by (auto simp: upsert_node_def split: option.splits)
    then show ?case using Cons keep by auto
  qed simp
qed

lemma upsert_relationships_keep: "dget (g_nodes s) u \<noteq> None \<Longrightarrow> dget (g_nodes (fold upsert_relationship es s)) u \<noteq> None"
  by (induction es arbitrary: s) (auto simp: upsert_relationship_def setdefault_node_def register_edge_def Let_def split: if_splits)

lemma paper_parts_head:
  assumes "paper_parts ref_id db refs p result h = (Inr (ns, es), h')"
  shows "\<exists>n rest. ns = n # rest \<and> node_uid n = paper_uid (p_id p)"
proof -
  obtain n h1 where n: "paper_node p h = (Inr n, h1)"
    using assms by (cases "paper_node p h") (auto simp: paper_parts_def bind_h_def split: sum.splits)
  then have "node_uid n = paper_uid (p_id p)"
    by (auto simp: paper_node_def new_node_def GraphNode_Inr_conv node_uid_def paper_uid_def normalize_uuid)
  moreover have "\<exists>rest. ns = n # rest"
    using assms n by (auto simp: paper_parts_def bind_h_def return_h_def split: sum.splits prod.splits)
  ultimately show ?thesis by blast
qed

text \<open>The rows of a paper after the mirror: one for each signature.\<close>

definition mirrored :: "uuid \<Rightarrow> extraction \<Rightarrow> entity_row list \<Rightarrow> entity_row list \<Rightarrow> bool" where
  "mirrored pid result old new \<longleftrightarrow>
     filter (\<lambda>r. en_paper r \<noteq> pid) new = filter (\<lambda>r. en_paper r \<noteq> pid) old
     \<and> distinct (map (\<lambda>r. (en_label r, en_key r)) (filter (\<lambda>r. en_paper r = pid) new))
     \<and> (\<lambda>r. (en_label r, en_key r)) ` set (filter (\<lambda>r. en_paper r = pid) new)
       = (\<lambda>m. (em_label m, take 255 (em_key m))) ` set (ex_entities result)"

lemma mirror_mirrored: "mirror_entities pid result old = (Inr u, new) \<Longrightarrow> mirrored pid result old new"
proof -
  let ?ms = "add_new em_sig [] (ex_entities result)"
  assume "mirror_entities pid result old = (Inr u, new)"
  then have new: "new = filter (\<lambda>r. en_paper r \<noteq> pid) old @ map (entity_row_of pid) ?ms"
    and d: "distinct (map (\<lambda>r. (en_label r, en_key r)) (map (entity_row_of pid) ?ms))"
    by (auto simp: mirror_entities_def Let_def simp del: map_map split: if_splits)
  have own: "filter (\<lambda>r. en_paper r = pid) (map (entity_row_of pid) ms) = map (entity_row_of pid) ms"
      "filter (\<lambda>r. en_paper r \<noteq> pid) (map (entity_row_of pid) ms) = []" for ms
    by (induction ms) (simp_all add: entity_row_of_def)
  have sig: "em_sig ` set ?ms = em_sig ` set (ex_entities result)" using add_new_props [of em_sig "[]" "ex_entities result"] by simp
  have "(\<lambda>r. (en_label r, en_key r)) ` set (map (entity_row_of pid) ms) = (\<lambda>(l, k). (l, take 255 k)) ` em_sig ` set ms" for ms
    by (force simp: entity_row_of_def em_sig_def)
  moreover have "(\<lambda>m. (em_label m, take 255 (em_key m))) ` X = (\<lambda>(l, k). (l, take 255 k)) ` em_sig ` X" for X
    by (force simp: em_sig_def)
  ultimately show ?thesis using d sig by (simp add: mirrored_def new own del: map_map set_map)
qed

text \<open>Building the graph of a paper keeps the store well formed, whatever the extraction found and also when it
  fails half way; when it succeeds, the node of the paper is in the store and the mirror table
  holds exactly one row for every label and key extracted, the rows of other papers
  unchanged.\<close>

theorem build_paper_graph_correct:
  assumes "store_wf (ge_store env)" "build_paper_graph lib ref_id pid gateway use_llm env = (r, gateway', env')"
  shows "store_wf (ge_store env')
    \<and> (case r of Inl _ \<Rightarrow> True
       | Inr result \<Rightarrow> dget (g_nodes (ge_store env')) (paper_uid pid) \<noteq> None
           \<and> mirrored pid result (ge_entities env) (ge_entities env'))"
proof (cases "get_paper_row (ge_db env) pid")
  case None
  then show ?thesis using assms by (auto simp: build_paper_graph_def)
next
  case (Some p)
  then have pid: "p_id p = pid" using get_paper_row_Some by blast
  obtain result gw where x: "extract_entities lib (extraction_text (ge_db env) p) (title_of p) gateway use_llm = (result, gw)"
    by fastforce
  obtain q h where parts: "paper_parts ref_id (ge_db env) (ge_refs env) p result (ge_next env, g_heap (ge_store env)) = (q, h)"
    by (cases "paper_parts ref_id (ge_db env) (ge_refs env) p result (ge_next env, g_heap (ge_store env))")
  show ?thesis
  proof (cases q)
    case (Inl e)
    then show ?thesis using assms Some x parts by (auto simp: build_paper_graph_def)
  next
    case (Inr ne)
    obtain ns es where ne: "ne = (ns, es)" by (cases ne)
    have ok: "list_all node_ok ns" "list_all rel_ok es"
      using returnsD [OF paper_parts_ok] parts Inr ne by fastforce+
    obtain n rest where n: "ns = n # rest" "node_uid n = paper_uid pid"
      using paper_parts_head [of ref_id "ge_db env" "ge_refs env" p result] parts Inr ne pid by metis
    let ?s0 = "(ge_store env)\<lparr>g_heap := snd h\<rparr>" let ?s1 = "fst (upsert_nodes ns ?s0)" let ?s2 = "fst (upsert_relationships es ?s1)"
    have "store_wf ?s1" using assms(1) ok(1) by (intro store_wf_upsert_nodes) (simp_all add: list_all_iff)
    then have wf: "store_wf ?s2" using ok(2) by (intro store_wf_upsert_relationships) (simp_all add: list_all_iff)
    have "dget (g_nodes ?s1) (paper_uid pid) \<noteq> None"
      using upsert_nodes_present [of n ns ?s0] n by (simp add: upsert_nodes_def)
    then have present: "dget (g_nodes ?s2) (paper_uid pid) \<noteq> None"
      using upsert_relationships_keep by (simp add: upsert_relationships_def)
    obtain u rows where m: "mirror_entities pid result (ge_entities env) = (u, rows)" by fastforce
    have eq: "r = bind_res u (\<lambda>_. Inr result)" "env' = env\<lparr>ge_store := ?s2, ge_next := fst h, ge_entities := rows\<rparr>"
      using assms(2) Some x parts Inr ne m by (auto simp: build_paper_graph_def Let_def)
    show ?thesis using wf present m mirror_mirrored unfolding eq by (cases u) auto
  qed
qed

text \<open>Removing a paper from the graph removes its node, with the store still well formed, and all its mirrored
  entities.\<close>

theorem remove_paper_gone:
  assumes "store_wf (ge_store env)"
  shows "store_wf (ge_store (snd (remove_paper_from_graph pid env)))
    \<and> dget (g_nodes (ge_store (snd (remove_paper_from_graph pid env)))) (paper_uid pid) = None
    \<and> ge_entities (snd (remove_paper_from_graph pid env)) = filter (\<lambda>r. en_paper r \<noteq> pid) (ge_entities env)"
proof -
  obtain s k where d: "delete_paper (str_uuid pid) (ge_store env) = (s, k)" by fastforce
  have "dget (g_nodes s) (paper_uid pid) = None"
    using d by (auto simp: delete_paper_def Let_def normalize_uuid paper_uid_def split: if_splits)
  moreover have "store_wf s" using store_wf_delete [OF assms, of "str_uuid pid"] d by simp
  ultimately show ?thesis by (simp add: remove_paper_from_graph_def d)
qed

subsection \<open>Concrete runs\<close>

definition bare_env :: graph_env where
  "bare_env = \<lparr>ge_db = one_db True, ge_refs = [], ge_entities = [], ge_store = empty_store, ge_next = 0\<rparr>"

theorem remove_paper_gone_witness:
  "dget (g_nodes (ge_store (snd (remove_paper_from_graph 7 bare_env)))) (paper_uid 7) = None"
  using remove_paper_gone [of bare_env 7] by (simp add: bare_env_def store_wf_empty)

theorem build_paper_graph_correct_witness:
  "\<forall>(lib :: library) ref_id. store_wf (ge_store (snd (snd (build_paper_graph lib ref_id 7 (None :: unit llm option) True bare_env))))"
proof (intro allI)
  fix lib :: library and ref_id
  obtain r g e where b: "build_paper_graph lib ref_id 7 (None :: unit llm option) True bare_env = (r, g, e)"
    by (cases "build_paper_graph lib ref_id 7 (None :: unit llm option) True bare_env")
  have "store_wf (ge_store bare_env)" by (simp add: bare_env_def store_wf_empty)
  from build_paper_graph_correct [OF this b] show "store_wf (ge_store (snd (snd
      (build_paper_graph lib ref_id 7 (None :: unit llm option) True bare_env))))" by (simp add: b)
qed

definition mention :: "string \<Rightarrow> string \<Rightarrow> entity_mention" where
  "mention label name = \<lparr>em_label = label, em_name = name, em_confidence = Fin (9 / 10), em_evidence = []\<rparr>"

definition relation_to :: "string \<Rightarrow> string \<Rightarrow> relation_mention" where
  "relation_to ty name = \<lparr>rm_type = ty, rm_source = ''T'', rm_target = name, rm_confidence = Fin (9 / 10), rm_evidence = []\<rparr>"

definition glue_nodes :: "(string, graph_node) dict" where
  "glue_nodes = entity_nodes [mention ''Dataset'' ''glue'', mention ''Benchmark'' ''glue'']
     [\<lparr>n_label = ''Dataset'', n_key = ''glue'', n_props = 1\<rparr>, \<lparr>n_label = ''Benchmark'', n_key = ''glue'', n_props = 2\<rparr>]"

text \<open>A name that is both a dataset and a benchmark loses an edge: entity nodes are looked up by name without their
  label, the later mention wins, and the relation that names the dataset has the wrong shape and
  is dropped without a trace.\<close>

theorem same_name_loses_edge:
  "map r_type (fst (relation_edges \<lparr>n_label = ''Paper'', n_key = ''7'', n_props = 0\<rparr> ''t'' glue_nodes
     [relation_to ''USES_DATASET'' ''glue'', relation_to ''EVALUATES_ON'' ''glue''] (3, \<lambda>_. []))) = [''EVALUATES_ON'']"
proof -
  have k: "normalize_key ''glue'' = ''glue''" "normalize_key ''T'' = ''t''" by code_simp+
  have e: "dget ALLOWED_EDGES ''USES_DATASET'' = Some (''Paper'', ''Dataset'')"
      "dget ALLOWED_EDGES ''EVALUATES_ON'' = Some (''Paper'', ''Benchmark'')" by code_simp+
  show ?thesis
    by (simp add: relation_to_def resolve_endpoint_def k glue_nodes_def entity_nodes_def mention_def new_edge_def GraphRelationship_def e)
qed

end
