(* ===== verification/Captures.thy ===== *)
theory Captures
  imports Regex
begin

section \<open>What the groups of a match hold\<close>

text \<open>
  A group holds a word of its own pattern, a part of the text that was matched; a group on every path
  through a pattern is always set.
\<close>

fun caps :: "rx \<Rightarrow> (nat \<times> rx) set" where
  "caps (Cap n r) = insert (n, r) (caps r)"
| "caps (Cat r q) = caps r \<union> caps q"
| "caps (Alt r q) = caps r \<union> caps q"
| "caps (Star g r) = caps r"
| "caps _ = {}"

fun always_set :: "nat \<Rightarrow> rx \<Rightarrow> bool" where
  "always_set n (Cap m r) \<longleftrightarrow> m = n \<or> always_set n r"
| "always_set n (Cat r q) \<longleftrightarrow> always_set n r \<or> always_set n q"
| "always_set n (Alt r q) \<longleftrightarrow> always_set n r \<and> always_set n q"
| "always_set n _ \<longleftrightarrow> False"

definition cap_ok :: "rx \<Rightarrow> string \<Rightarrow> nat \<times> string \<Rightarrow> bool" where
  "cap_ok r s nw \<longleftrightarrow> (\<exists>q. (fst nw, q) \<in> caps r \<and> in_lang q (snd nw)) \<and> sublist (snd nw) s"

lemma cap_ok_mono: "cap_ok r t nw \<Longrightarrow> caps r \<subseteq> caps q \<Longrightarrow> s = v @ t \<Longrightarrow> cap_ok q s nw"
  by (auto simp: cap_ok_def intro: sublist_order.order.trans)

lemma rmatch_caps:
  "(p', s', k') \<in> set (rmatch r st) \<Longrightarrow> nw \<in> set k' \<Longrightarrow> nw \<in> set (snd (snd st)) \<or> cap_ok r (fst (snd st)) nw"
proof (induction r st arbitrary: p' s' k' rule: rmatch.induct)
  case (3 r q st)
  from "3.prems" obtain p1 s1 k1 where 1: "(p1, s1, k1) \<in> set (rmatch r st)" and 2: "(p', s', k') \<in> set (rmatch q (p1, s1, k1))" by auto
  obtain v where v: "fst (snd st) = v @ s1" using rmatch_consumes [OF 1] by blast
  from "3.IH"(2) [OF 1 2 "3.prems"(2)] show ?case
  proof
    assume "nw \<in> set (snd (snd (p1, s1, k1)))"
    then have "nw \<in> set k1" by simp
    from "3.IH"(1) [OF 1 this] show ?thesis using cap_ok_mono [of r _ nw "Cat r q" _ "[]"] by auto
  next
    assume "cap_ok q (fst (snd (p1, s1, k1))) nw"
    then have "cap_ok q s1 nw" by simp
    from cap_ok_mono [OF this _ v, of "Cat r q"] show ?thesis by simp
  qed
next
  case (4 r q st)
  then show ?case using cap_ok_mono [of _ _ nw "Alt r q" _ "[]"] by fastforce
next
  case (5 g r st)
  from "5.prems"(1) consider "(p', s', k') = st"
    | st1 where "st1 \<in> set (rmatch r st)" "length (fst (snd st1)) < length (fst (snd st))" "(p', s', k') \<in> set (rmatch (Star g r) st1)"
    by (auto simp: rmatch.simps(5) [of g r st] Let_def split: if_splits)
  then show ?case
  proof cases
    case 1
    then show ?thesis using "5.prems"(2) by auto
  next
    case (2 st1)
    obtain p1 s1 k1 where st1: "st1 = (p1, s1, k1)" by (cases st1)
    have m: "(p1, s1, k1) \<in> set (rmatch r st)" using 2(1) st1 by simp
    obtain v where v: "fst (snd st) = v @ s1" using rmatch_consumes [OF m] by blast
    from "5.IH"(2) [OF 2 "5.prems"(2)] show ?thesis
    proof
      assume "nw \<in> set (snd (snd st1))"
      then have "nw \<in> set k1" by (simp add: st1)
      from "5.IH"(1) [OF m this] show ?thesis using cap_ok_mono [of r _ nw "Star g r" _ "[]"] by auto
    next
      assume "cap_ok (Star g r) (fst (snd st1)) nw"
      then have "cap_ok (Star g r) s1 nw" by (simp add: st1)
      from cap_ok_mono [OF this _ v] show ?thesis by blast
    qed
  qed
next
  case (6 n r p s k)
  from "6.prems" obtain p1 s1 k1 where 1: "(p1, s1, k1) \<in> set (rmatch r (p, s, k))" "k' = (n, take (length s - length s1) s) # k1" by auto
  obtain w where "s = w @ s1" "in_lang r w" using rmatch_consumes [OF 1(1)] by auto
  then have "cap_ok (Cap n r) s (n, take (length s - length s1) s)" by (auto simp: cap_ok_def)
  then have new: "cap_ok (Cap n r) s (n, take (length s - length s1) s)" .
  from "6.prems"(2) 1(2) consider "nw = (n, take (length s - length s1) s)" | "nw \<in> set k1" by auto
  then show ?case
  proof cases
    case 1
    then show ?thesis using new by simp
  next
    case 2
    from "6.IH" [OF \<open>(p1, s1, k1) \<in> set (rmatch r (p, s, k))\<close> this] show ?thesis
      using cap_ok_mono [of r s nw "Cap n r" s "[]"] by auto
  qed
qed (auto split: list.splits if_splits)

lemma rmatch_keeps: "(p', s', k') \<in> set (rmatch r st) \<Longrightarrow> fst ` set (snd (snd st)) \<subseteq> fst ` set k'"
proof (induction r st arbitrary: p' s' k' rule: rmatch.induct)
  case (3 r q st)
  from "3.prems" obtain p1 s1 k1 where 1: "(p1, s1, k1) \<in> set (rmatch r st)" and 2: "(p', s', k') \<in> set (rmatch q (p1, s1, k1))" by auto
  show ?case using "3.IH"(1) [OF 1] "3.IH"(2) [OF 1 2] by auto
next
  case (4 r q st)
  then show ?case unfolding rmatch.simps(4) set_append by blast
next
  case (5 g r st)
  from "5.prems"(1) consider "(p', s', k') = st"
    | st1 where "st1 \<in> set (rmatch r st)" "length (fst (snd st1)) < length (fst (snd st))" "(p', s', k') \<in> set (rmatch (Star g r) st1)"
    by (auto simp: rmatch.simps(5) [of g r st] Let_def split: if_splits)
  then show ?case
  proof cases
    case (2 st1)
    obtain p1 s1 k1 where st1: "st1 = (p1, s1, k1)" by (cases st1)
    show ?thesis using "5.IH"(1) [of p1 s1 k1] "5.IH"(2) [OF 2] 2(1) st1 by auto
  qed auto
next
  case (6 m r p s k)
  from "6.prems" obtain k1 where r: "(p', s', k1) \<in> set (rmatch r (p, s, k))" and "k' = (m, take (length s - length s') s) # k1" by auto
  then show ?case using "6.IH" [OF r] by auto
qed (auto split: if_splits list.splits)

lemma rmatch_sets: "always_set n r \<Longrightarrow> (p', s', k') \<in> set (rmatch r st) \<Longrightarrow> n \<in> fst ` set k'"
proof (induction r arbitrary: st p' s' k')
  case (Cat r q)
  from Cat.prems(2) obtain p1 s1 k1 where 1: "(p1, s1, k1) \<in> set (rmatch r st)" and 2: "(p', s', k') \<in> set (rmatch q (p1, s1, k1))" by auto
  show ?case using Cat.IH(1) [OF _ 1] Cat.IH(2) [OF _ 2] rmatch_keeps [OF 2] Cat.prems(1) by auto
next
  case (Cap m r)
  then show ?case by (cases st) fastforce
qed auto

inductive_simps in_lang_simps: "in_lang Eps w" "in_lang (Cls P) w" "in_lang (Cat r q) w" "in_lang (Alt r q) w"

lemma in_lang_lit: "in_lang (lit s) w \<longleftrightarrow> w = s"
  by (induction s arbitrary: w) (auto simp: in_lang_simps chr_def)

lemma in_lang_optE: "in_lang (opt r) w \<Longrightarrow> w = [] \<or> in_lang r w"
  by (auto simp: opt_def elim: in_lang_AltE in_lang_EpsE)

lemma caps_lit [simp]: "caps (lit s) = {}" "caps (ilit s) = {}"
  by (induction s) (simp_all add: chr_def)

lemma caps_alts: "caps (alts rs) = \<Union> (caps ` set rs)"
  by (induction rs rule: alts.induct) auto

lemma caps_upto_n: "caps (upto_n n r) \<subseteq> caps r"
  by (induction n) (auto simp: opt_def)

end
