(* ===== verification/Experiments.thy ===== *)
theory Experiments
  imports Builder Captures
begin

section \<open>Reported results of a paper (research/extraction.py)\<close>

text \<open>
  The rule pass over the sentences that report a number, the pass of the model, their merge and the
  rows that are stored; and the summary of the methodology.  \<open>float\<close> of a decimal is the real it
  denotes.  The identifiers and time stamps of the rows are not represented.
\<close>

definition MAX_EXTRACTION_CHARS :: nat where "MAX_EXTRACTION_CHARS = 18000"
definition MAX_RESULTS_PER_PAPER :: nat where "MAX_RESULTS_PER_PAPER = 200"
definition DATASET_WINDOW_CHARS :: nat where "DATASET_WINDOW_CHARS = 240"

definition METRIC_ALIASES :: "(string, string) dict" where
  "METRIC_ALIASES =
     [(''f1'', ''f1''), (''f-1'', ''f1''), (''f1 score'', ''f1''), (''f1-score'', ''f1''), (''em'', ''exact match''),
      (''exact-match'', ''exact match''), (''acc'', ''accuracy''), (''top-1'', ''top-1 accuracy''), (''top-5'', ''top-5 accuracy''),
      (''rouge-l'', ''rouge-l''), (''bleu-4'', ''bleu''), (''ndcg@10'', ''ndcg''), (''auroc'', ''roc-auc'')]"

definition dataset_terms :: "string list" where
  "dataset_terms = the (dget GAZETTEER (label_value DATASET)) @ the (dget GAZETTEER (label_value BENCHMARK))"

subsection \<open>The result sentence\<close>

definition digit :: rx where "digit = Cls is_digit"
definition blanks :: rx where "blanks = star (Cls is_space)"

definition metric_rx :: rx where
  "metric_rx = alts
     [ilit ''accuracy'', Cat (ilit ''f1'') (opt (Cat (one_of '' -'') (ilit ''score''))), ilit ''exact match'', ilit ''em'', ilit ''bleu'',
      Cat (ilit ''rouge'') (opt (ilit ''-l'')), ilit ''meteor'', ilit ''perplexity'',
      Cat (ilit ''ndcg'') (opt (Cat (lit ''@'') (plus digit))), ilit ''mrr'', Cat (ilit ''map'') (opt (Cat (lit ''@'') (plus digit))),
      Cat (ilit ''recall'') (opt (Cat (lit ''@'') (plus digit))), ilit ''precision'', ilit ''wer'', ilit ''cer'', ilit ''auc'',
      ilit ''roc-auc'', Cat (ilit ''top-'') digit]"

definition verb_rx :: rx where
  "verb_rx = alts (map ilit [''of'', ''is'', ''was'', ''reaches'', ''reaching'', ''achieves'', ''achieving'', ''='', '':''])"

definition value_rx :: rx where
  "value_rx = Cat (Cat digit (Cat (opt digit) (opt digit))) (opt (Cat (lit ''.'') (plus digit)))"

definition RESULT_SENTENCE :: rx where
  "RESULT_SENTENCE = cats
     [Cap 1 metric_rx, blanks, opt (Cat (ilit ''score'') blanks), opt verb_rx, blanks, Cap 2 value_rx, blanks, opt (Cap 3 (lit ''%''))]"

text \<open>\<open>float\<close> of digits with at most one point.\<close>

definition decimal :: "string \<Rightarrow> real" where
  "decimal s = (let a = takeWhile is_digit s; b = drop 1 (dropWhile is_digit s) in
     real (nat_of_digits a) + real (nat_of_digits b) / 10 ^ length b)"

record extracted_result =
  er_model :: string
  er_metric :: string
  er_value :: pyfloat
  er_dataset :: "string option"
  er_task :: "string option"
  er_unit :: "string option"
  er_split :: "string option"
  er_confidence :: pyfloat
  er_evidence :: string

definition canonical_metric :: "string \<Rightarrow> string" where
  "canonical_metric name = (let key = normalize_key name in case dget METRIC_ALIASES key of Some m \<Rightarrow> m | None \<Rightarrow> key)"

text \<open>The term whose first occurrence in the window lies closest, the earlier term on a tie.\<close>

definition closer :: "nat \<Rightarrow> nat \<Rightarrow> string \<Rightarrow> string \<Rightarrow> (nat \<times> string) option \<Rightarrow> (nat \<times> string) option" where
  "closer start position window term closest =
     (case search_from (term_rx term) [] window of
        None \<Rightarrow> closest
      | Some m \<Rightarrow>
          (let found = start + length (fst m);
               distance = (if found < position then position - found else found - position) in
           case closest of
             None \<Rightarrow> Some (distance, term)
           | Some (d, t) \<Rightarrow> if distance < d then Some (distance, term) else closest))"

definition nearby_dataset :: "string \<Rightarrow> nat \<Rightarrow> string option" where
  "nearby_dataset text position =
     (let start = position - DATASET_WINDOW_CHARS;
          window = take (position + DATASET_WINDOW_CHARS - start) (drop start text) in
      map_option snd (fold (closer start position window) dataset_terms None))"

text \<open>The matches with the position where each begins.\<close>

fun positions :: "nat \<Rightarrow> (string \<times> string \<times> (nat \<times> string) list) list \<Rightarrow> (nat \<times> string \<times> (nat \<times> string) list) list" where
  "positions n [] = []"
| "positions n ((sk, m, k) # ms) = (n + length sk, m, k) # positions (n + length sk + length m) ms"

definition truthy_str :: "string \<Rightarrow> string option" where
  "truthy_str s = (if s = [] then None else Some s)"

definition result_of :: "string \<Rightarrow> string \<Rightarrow> nat \<times> string \<times> (nat \<times> string) list \<Rightarrow> extracted_result" where
  "result_of haystack default_model hit =
     (case hit of (pos, m, k) \<Rightarrow>
        let dataset = nearby_dataset haystack pos; start = pos - 100 in
        \<lparr>er_model = (if default_model = [] then ''reported system'' else default_model),
         er_metric = canonical_metric (group 1 k), er_value = Fin (decimal (group 2 k)), er_dataset = dataset, er_task = None,
         er_unit = truthy_str (group 3 k), er_split = None,
         er_confidence = Fin (if dataset = None then 45 / 100 else 1 / 2),
         er_evidence = strip (map (\<lambda>c. if c = CHR 0x0A then CHR '' '' else c)
           (take (pos + length m + 40 - start) (drop start haystack)))\<rparr>)"

definition hit_sig :: "nat \<times> string \<times> (nat \<times> string) list \<Rightarrow> string \<times> real" where
  "hit_sig hit = (canonical_metric (group 1 (snd (snd hit))), decimal (group 2 (snd (snd hit))))"

definition extract_results_with_rules :: "string \<Rightarrow> string \<Rightarrow> extracted_result list" where
  "extract_results_with_rules text default_model =
     (let haystack = take MAX_EXTRACTION_CHARS text;
          hits = positions 0 (fst (scan RESULT_SENTENCE [] haystack)) in
      map (result_of haystack default_model) (take MAX_RESULTS_PER_PAPER (add_new hit_sig [] hits)))"

subsection \<open>The model's pass\<close>

definition jstr :: "library \<Rightarrow> (string, pyval) dict \<Rightarrow> string \<Rightarrow> string" where
  "jstr lib item k = strip (jfield lib item k)"

definition jvalue :: "(string, pyval) dict \<Rightarrow> string \<Rightarrow> pyval" where
  "jvalue item k = (case dget item k of None \<Rightarrow> PyNone | Some v \<Rightarrow> v)"

definition result_item :: "library \<Rightarrow> (string, pyval) dict \<Rightarrow> extracted_result list res" where
  "result_item lib item =
     (let model = jstr lib item ''model''; metric = jstr lib item ''metric'' in
      if model = [] \<or> metric = [] then Inr []
      else case py_float (float_of lib) (jvalue item ''value'') of
             Inl (TypeErr _) \<Rightarrow> Inr []
           | Inl (ValueError _) \<Rightarrow> Inr []
           | Inl e \<Rightarrow> Inl e
           | Inr value \<Rightarrow>
               bind_res (clamp_confidence (float_of lib) (jvalue item ''confidence'') (Fin (1 / 2))) (\<lambda>c.
               Inr [\<lparr>er_model = take 255 model, er_metric = take 128 (canonical_metric metric), er_value = value,
                     er_dataset = truthy_str (jstr lib item ''dataset''), er_task = truthy_str (jstr lib item ''task''),
                     er_unit = truthy_str (jstr lib item ''unit''), er_split = truthy_str (jstr lib item ''split''),
                     er_confidence = c, er_evidence = []\<rparr>]))"

definition parse_results_payload :: "library \<Rightarrow> string \<Rightarrow> extracted_result list res" where
  "parse_results_payload lib raw =
     (case load_json_object (json_loads lib) (Some raw) of
        None \<Rightarrow> Inr []
      | Some payload \<Rightarrow>
          bind_res (jitems payload ''results'') (\<lambda>items.
          bind_res (mapM (result_item lib) items) (\<lambda>rs. Inr (take MAX_RESULTS_PER_PAPER (concat rs)))))"

text \<open>Rows of the model win; rows of the rules only fill metrics the model missed.\<close>

definition merge_results :: "extracted_result list \<Rightarrow> extracted_result list \<Rightarrow> extracted_result list" where
  "merge_results primary secondary =
     primary @ filter (\<lambda>r. canonical_metric (er_metric r) \<notin> set (map (\<lambda>r. canonical_metric (er_metric r)) primary)) secondary"

subsection \<open>The rows\<close>

record result_row =
  xr_paper :: uuid
  xr_model_name :: string
  xr_model_key :: string
  xr_dataset_name :: "string option"
  xr_dataset_key :: "string option"
  xr_task :: "string option"
  xr_metric_name :: string
  xr_metric_key :: string
  xr_value :: pyfloat
  xr_unit :: "string option"
  xr_split :: "string option"
  xr_confidence :: pyfloat
  xr_evidence :: "string option"

definition clip_text :: "nat \<Rightarrow> string option \<Rightarrow> string option" where
  "clip_text n v = (case v of Some (c # s) \<Rightarrow> Some (take n (c # s)) | _ \<Rightarrow> None)"

definition result_row_of :: "uuid \<Rightarrow> extracted_result \<Rightarrow> result_row" where
  "result_row_of pid r =
     \<lparr>xr_paper = pid, xr_model_name = take 255 (er_model r), xr_model_key = take 255 (normalize_key (er_model r)),
      xr_dataset_name = clip_text 255 (er_dataset r),
      xr_dataset_key = (case er_dataset r of Some (c # s) \<Rightarrow> Some (take 255 (normalize_key (c # s))) | _ \<Rightarrow> None),
      xr_task = clip_text 255 (er_task r), xr_metric_name = take 128 (er_metric r), xr_metric_key = take 128 (canonical_metric (er_metric r)),
      xr_value = er_value r, xr_unit = clip_text 32 (er_unit r), xr_split = clip_text 64 (er_split r), xr_confidence = er_confidence r,
      xr_evidence = truthy_str (er_evidence r)\<rparr>"

definition persist_results :: "uuid \<Rightarrow> extracted_result list \<Rightarrow> result_row list \<Rightarrow> result_row list" where
  "persist_results pid results rows = filter (\<lambda>r. xr_paper r \<noteq> pid) rows @ map (result_row_of pid) results"

definition paper_text :: "database \<Rightarrow> paper_row \<Rightarrow> nat \<Rightarrow> string" where
  "paper_text db p limit_chunks =
     take MAX_EXTRACTION_CHARS (join PARA_SEP (filter (\<lambda>s. s \<noteq> [])
       ((case p_abstract p of Some (c # a) \<Rightarrow> [c # a] | _ \<Rightarrow> [])
        @ map k_content (take limit_chunks (order_by k_index (filter (\<lambda>c. k_paper c = p_id p) (db_chunks db)))))))"

text \<open>The pass of the model; whatever it raises is caught, and an empty answer changes nothing.\<close>

definition with_llm :: "library \<Rightarrow> string \<Rightarrow> string \<Rightarrow> extracted_result list \<Rightarrow> 'w llm \<Rightarrow> extracted_result list \<times> 'w llm" where
  "with_llm lib title text results gw =
     (case bind_llm (ask EXTRACT_EXPERIMENTS [(''paper_title'', title), (''text'', text)] 0 1500)
             (\<lambda>c. lift_llm (parse_results_payload lib (c_text c))) gw of
        (Inr llm, gw) \<Rightarrow> (if llm = [] then results else merge_results llm results, gw)
      | (Inl e, gw) \<Rightarrow> (results, gw))"

definition extract_experiments ::
    "library \<Rightarrow> database \<Rightarrow> uuid \<Rightarrow> 'w llm option \<Rightarrow> bool \<Rightarrow> result_row list
       \<Rightarrow> extracted_result list res \<times> 'w llm option \<times> result_row list" where
  "extract_experiments lib db pid gateway use_llm rows =
     (case get_paper_row db pid of
        None \<Rightarrow> (Inl (ValueError ''Paper does not exist''), gateway, rows)
      | Some p \<Rightarrow>
          let text = paper_text db p 40 in
          if strip text = [] then (Inr [], gateway, rows)
          else
            let title = title_of p; rules = extract_results_with_rules text (take 80 title);
                (results, gateway) = (case gateway of
                    Some gw \<Rightarrow> if use_llm then map_prod id Some (with_llm lib title text rules gw) else (rules, gateway)
                  | None \<Rightarrow> (rules, None)) in
            (Inr results, gateway, persist_results pid results rows))"

subsection \<open>The methodology\<close>

record methodology =
  me_approach :: string
  me_architecture :: string
  me_training :: string
  me_hyperparameters :: "(string \<times> string) list"
  me_limitations :: "string list"

definition no_methodology :: methodology where
  "no_methodology = \<lparr>me_approach = [], me_architecture = [], me_training = [], me_hyperparameters = [], me_limitations = []\<rparr>"

definition methodology_empty :: "methodology \<Rightarrow> bool" where
  "methodology_empty m \<longleftrightarrow> me_approach m = [] \<and> me_architecture m = [] \<and> me_training m = [] \<and> me_limitations m = []"

definition parse_methodology_payload :: "library \<Rightarrow> string \<Rightarrow> methodology res" where
  "parse_methodology_payload lib raw =
     (case load_json_object (json_loads lib) (Some raw) of
        None \<Rightarrow> Inr no_methodology
      | Some payload \<Rightarrow>
          bind_res (jitems payload ''hyperparameters'') (\<lambda>hs.
          bind_res (if truthy (jvalue payload ''limitations'') then py_list (jvalue payload ''limitations'') else Inr []) (\<lambda>ls.
          Inr \<lparr>me_approach = take 2000 (jfield lib payload ''approach''),
               me_architecture = take 2000 (jfield lib payload ''architecture''),
               me_training = take 2000 (jfield lib payload ''training''),
               me_hyperparameters = take 40 (map (\<lambda>h. (take 120 (jfield lib h ''name''), take 120 (jfield lib h ''value'')))
                 (filter (\<lambda>h. truthy (jvalue h ''name'')) hs)),
               me_limitations = take 20 (map (\<lambda>v. take 400 (py_str lib v)) (filter (\<lambda>v. strip (py_str lib v) \<noteq> []) ls))\<rparr>)))"

text \<open>The call is guarded, the reading of its answer is not.\<close>

definition extract_methodology :: "library \<Rightarrow> database \<Rightarrow> uuid \<Rightarrow> (methodology, 'w) act" where
  "extract_methodology lib db pid gw =
     (case get_paper_row db pid of
        None \<Rightarrow> (Inl (OtherExn (ValueError ''Paper does not exist'')), gw)
      | Some p \<Rightarrow>
          let text = paper_text db p 40 in
          if strip text = [] then (Inr no_methodology, gw)
          else case ask EXTRACT_METHODOLOGY [(''paper_title'', title_of p), (''text'', text)] 0 1200 gw of
                 (Inl e, gw) \<Rightarrow> (Inr no_methodology, gw)
               | (Inr c, gw) \<Rightarrow> lift_llm (parse_methodology_payload lib (c_text c)) gw)"

subsection \<open>The rules\<close>

lemma alias_values: "list_all (\<lambda>(k, m). canonical_metric m = m) METRIC_ALIASES"
  by (simp add: METRIC_ALIASES_def canonical_metric_def normalize_key_def lower_def lower_char_def code_pt_def is_space_def Let_def
      strip_by_def key_strip_char_def)

lemma canonical_metric_idem: "canonical_metric (canonical_metric name) = canonical_metric name"
proof (cases "dget METRIC_ALIASES (normalize_key name)")
  case None
  then show ?thesis by (simp add: canonical_metric_def normalize_key_idem)
next
  case (Some m)
  then have "(normalize_key name, m) \<in> set METRIC_ALIASES" by (rule map_of_SomeD)
  then show ?thesis using alias_values Some by (auto simp: list_all_iff canonical_metric_def)
qed

lemma closer_term: "map_option snd (closer st pos w t c) \<in> {Some t, map_option snd c}"
  by (auto simp: closer_def Let_def split: option.splits)

lemma fold_closer:
  "map_option snd (fold (closer st pos w) ts c) = map_option snd c
   \<or> (\<exists>t \<in> set ts. map_option snd (fold (closer st pos w) ts c) = Some t)"
proof (induction ts arbitrary: c)
  case (Cons t ts)
  show ?case using Cons [of "closer st pos w t c"] closer_term [of st pos w t c] by auto
qed simp

lemma nearby_dataset_known: "nearby_dataset text pos = Some d \<Longrightarrow> d \<in> set dataset_terms"
  using fold_closer [of "pos - DATASET_WINDOW_CHARS" pos
      "take (pos + DATASET_WINDOW_CHARS - (pos - DATASET_WINDOW_CHARS)) (drop (pos - DATASET_WINDOW_CHARS) text)" dataset_terms None]
  unfolding nearby_dataset_def Let_def by (metis option.distinct(1) option.inject option.map_disc_iff option.simps(8))

lemma digits_bound: "nat_of_digits s < 10 ^ length s" if "list_all is_digit s"
  using that
proof (induction s rule: rev_induct)
  case (snoc c s)
  then show ?case by (auto simp: nat_of_digits_def is_digit_def Let_def)
qed (simp add: nat_of_digits_def)

lemma scan_caps:
  assumes "scan r p s = (ms, rest)" "(sk, m, k) \<in> set ms" "group n k \<noteq> []"
  shows "\<exists>q. (n, q) \<in> caps r \<and> in_lang q (group n k)"
proof -
  obtain p0 u p' t where m: "(p', t, k) \<in> set (rmatch r (p0, m @ t, []))" using scan_matches [OF assms(1,2)] by blast
  have "(n, group n k) \<in> set k" using assms(3) by (auto simp: group_def split: option.splits dest: map_of_SomeD)
  then show ?thesis using rmatch_caps [OF m] by (fastforce simp: cap_ok_def)
qed

lemma in_lang_digits: "in_lang (plus digit) w \<Longrightarrow> list_all is_digit w"
  by (auto simp: plus_def digit_def list_all_iff elim!: in_lang_CatE in_lang_ClsE dest!: in_lang_Star)

lemma value_shape:
  assumes "in_lang value_rx w"
  shows "\<exists>a c. (w = a \<or> w = a @ CHR ''.'' # c) \<and> list_all is_digit a \<and> length a \<le> 3 \<and> list_all is_digit c"
proof -
  from assms obtain a v where w: "w = a @ v" "in_lang (Cat digit (Cat (opt digit) (opt digit))) a" "in_lang (opt (Cat (lit ''.'') (plus digit))) v"
    unfolding value_rx_def by (rule in_lang_CatE) auto
  have "list_all is_digit a \<and> length a \<le> 3"
    using w(2) by (fastforce simp: digit_def elim!: in_lang_CatE in_lang_ClsE dest!: in_lang_optE)
  moreover have "v = [] \<or> (\<exists>c. v = CHR ''.'' # c \<and> list_all is_digit c)"
    using in_lang_optE [OF w(3)] by (auto simp: chr_def elim!: in_lang_CatE in_lang_ClsE in_lang_EpsE dest: in_lang_digits)
  ultimately show ?thesis using w(1) by (metis append_Nil2 list.pred_inject(1))
qed

lemma decimal_bounds:
  assumes "in_lang value_rx w"
  shows "0 \<le> decimal w \<and> decimal w < 1000"
proof -
  obtain a c where w: "w = a \<or> w = a @ CHR ''.'' # c" "list_all is_digit a" "length a \<le> 3" "list_all is_digit c"
    using value_shape [OF assms] by blast
  have all: "takeWhile is_digit a = a" "dropWhile is_digit a = []" using w(2) by (simp_all add: list_all_iff)
  have "\<not> is_digit CHR ''.''" by (simp add: is_digit_def code_pt_def)
  then have "decimal w \<in> {real (nat_of_digits a), real (nat_of_digits a) + real (nat_of_digits c) / 10 ^ length c}"
    using w(1,2) by (auto simp: all decimal_def Let_def list_all_iff takeWhile_append dropWhile_append nat_of_digits_def [of "[]"])
  moreover have "nat_of_digits a < 10 ^ length a" "(10::nat) ^ length a \<le> 10 ^ 3"
    using digits_bound [OF w(2)] w(3) by (simp_all only: power_increasing)
  then have "real (nat_of_digits a) \<le> 999" by simp
  moreover have "real (nat_of_digits c) / 10 ^ length c < 1"
    using digits_bound [OF w(4)] by (simp add: divide_less_eq)
  moreover have "0 \<le> real (nat_of_digits c) / 10 ^ length c" by simp
  ultimately show ?thesis by (elim insertE emptyE) linarith+
qed

lemma positions_from: "(pos, m, k) \<in> set (positions n ms) \<Longrightarrow> \<exists>sk. (sk, m, k) \<in> set ms"
  by (induction n ms rule: positions.induct) auto

lemma caps_result: "caps RESULT_SENTENCE = {(1, metric_rx), (2, value_rx), (3, lit ''%'')}"
proof -
  have "caps metric_rx = {}" by (simp add: metric_rx_def opt_def plus_def digit_def one_of_def del: lit.simps ilit.simps)
  moreover have "caps verb_rx = {}" by (simp add: verb_rx_def caps_alts del: ilit.simps)
  moreover have "caps value_rx = {}" by (simp add: value_rx_def opt_def plus_def digit_def del: lit.simps)
  ultimately show ?thesis by (auto simp: RESULT_SENTENCE_def opt_def blanks_def star_def simp del: lit.simps ilit.simps)
qed

definition fits_value :: "pyfloat \<Rightarrow> bool" where
  "fits_value v \<longleftrightarrow> (case v of Fin r \<Rightarrow> 0 \<le> r \<and> r < 1000 | _ \<Rightarrow> False)"

lemma hit_value:
  assumes "(pos, m, k) \<in> set (positions n (fst (scan RESULT_SENTENCE [] text)))"
  shows "fits_value (Fin (decimal (group 2 k)))"
proof (cases "group 2 k = []")
  case True
  then show ?thesis by (simp add: fits_value_def decimal_def nat_of_digits_def)
next
  case False
  obtain sk where "(sk, m, k) \<in> set (fst (scan RESULT_SENTENCE [] text))" using positions_from [OF assms] by blast
  then obtain q where "(2, q) \<in> caps RESULT_SENTENCE" "in_lang q (group 2 k)"
    using scan_caps [OF prod.collapse [symmetric] _ False] by blast
  then have "in_lang value_rx (group 2 k)" by (simp add: caps_result)
  then show ?thesis using decimal_bounds by (simp add: fits_value_def)
qed

definition rule_result_ok :: "extracted_result \<Rightarrow> bool" where
  "rule_result_ok r \<longleftrightarrow> canonical_metric (er_metric r) = er_metric r \<and> fits_value (er_value r)
     \<and> (case er_dataset r of
          None \<Rightarrow> er_confidence r = Fin (45 / 100)
        | Some d \<Rightarrow> d \<in> set dataset_terms \<and> er_confidence r = Fin (1 / 2))"

text \<open>The rule pass is bounded and conservative: at most two hundred results, no metric twice with the
  same value, every metric under its canonical name, every value from zero to below a thousand, and
  a dataset only from the lexicon, which alone raises the confidence from 0.45 to 0.5.\<close>

theorem rule_results_sound:
  "let rs = extract_results_with_rules text dm in
     length rs \<le> 200 \<and> distinct (map (\<lambda>r. (er_metric r, er_value r)) rs) \<and> list_all rule_result_ok rs"
proof -
  define hay where "hay = take MAX_EXTRACTION_CHARS text"
  define hits where "hits = positions 0 (fst (scan RESULT_SENTENCE [] hay))"
  define ks where "ks = take MAX_RESULTS_PER_PAPER (add_new hit_sig [] hits)"
  have rs: "extract_results_with_rules text dm = map (result_of hay dm) ks"
    by (simp add: extract_results_with_rules_def hay_def hits_def ks_def Let_def)
  have ks: "distinct (map hit_sig ks)" "set ks \<subseteq> set hits"
    using add_new_props [of hit_sig "[]" hits] by (auto simp: ks_def distinct_take simp flip: take_map dest: in_set_takeD)
  have sig: "(\<lambda>r. (er_metric r, er_value r)) \<circ> result_of hay dm = (\<lambda>(a, b). (a, Fin b)) \<circ> hit_sig"
    by (auto simp: fun_eq_iff result_of_def hit_sig_def Let_def)
  have "inj (\<lambda>(a :: string, b). (a, Fin b))" by (auto simp: inj_def)
  then have "distinct (map ((\<lambda>(a, b). (a, Fin b)) \<circ> hit_sig) ks)"
    using ks(1) by (simp add: distinct_map comp_inj_on inj_on_subset [OF _ subset_UNIV])
  moreover have "rule_result_ok (result_of hay dm h)" if h: "h \<in> set hits" for h
  proof -
    obtain pos m k where hk: "h = (pos, m, k)" by (cases h)
    show ?thesis using hit_value [of pos m k 0 hay] h nearby_dataset_known [of hay pos]
      by (auto simp: hk hits_def rule_result_ok_def result_of_def Let_def canonical_metric_idem split: option.split)
  qed
  ultimately show ?thesis using ks(2)
    by (auto simp: rs Let_def list_all_iff sig ks_def MAX_RESULTS_PER_PAPER_def)
qed

subsection \<open>What is stored\<close>

definition at_most :: "nat \<Rightarrow> string option \<Rightarrow> bool" where
  "at_most n v \<longleftrightarrow> (case v of None \<Rightarrow> True | Some s \<Rightarrow> length s \<le> n)"

text \<open>A row fits the columns of its table, and its confidence is one.\<close>

definition row_fits :: "result_row \<Rightarrow> bool" where
  "row_fits r \<longleftrightarrow> length (xr_model_name r) \<le> 255 \<and> length (xr_model_key r) \<le> 255 \<and> at_most 255 (xr_dataset_name r)
     \<and> at_most 255 (xr_dataset_key r) \<and> at_most 255 (xr_task r) \<and> length (xr_metric_name r) \<le> 128
     \<and> length (xr_metric_key r) \<le> 128 \<and> at_most 32 (xr_unit r) \<and> at_most 64 (xr_split r) \<and> unit_float (xr_confidence r)"

lemma at_most_cut [simp]: "at_most n (clip_text n v)"
  by (auto simp: at_most_def clip_text_def split: option.splits list.splits)

lemma at_most_key [simp]: "at_most 255 (case d of Some (c # s) \<Rightarrow> Some (take 255 (normalize_key (c # s))) | _ \<Rightarrow> None)"
  by (auto simp: at_most_def split: option.split list.split)

lemma row_fits_row: "unit_float (er_confidence r) \<Longrightarrow> row_fits (result_row_of pid r)"
  by (simp add: row_fits_def result_row_of_def)

lemma result_item_confidence:
  assumes "result_item lib item = Inr rs"
  shows "list_all (\<lambda>r. unit_float (er_confidence r)) rs"
proof -
  have half: "unit_float (Fin (1 / 2))" by simp
  show ?thesis using assms clamp_default [OF half]
    by (auto simp: result_item_def Let_def bind_res_Inr_conv split: if_splits sum.splits py_error.splits)
qed

lemma parse_results_confidence:
  assumes "parse_results_payload lib raw = Inr rs"
  shows "list_all (\<lambda>r. unit_float (er_confidence r)) rs"
proof (cases "load_json_object (json_loads lib) (Some raw)")
  case None
  then show ?thesis using assms by (simp add: parse_results_payload_def)
next
  case (Some payload)
  then obtain items xss where m: "mapM (result_item lib) items = Inr xss" "rs = take MAX_RESULTS_PER_PAPER (concat xss)"
    using assms by (auto simp: parse_results_payload_def bind_res_Inr_conv)
  have "list_all (\<lambda>r. unit_float (er_confidence r)) xs" if "xs \<in> set xss" for xs
    using list_all2_ex1 [OF m(1) [unfolded mapM_Inr_conv] that] result_item_confidence by blast
  then show ?thesis unfolding m(2) by (auto simp: list_all_iff dest!: in_set_takeD)
qed

definition covers :: "extracted_result list \<Rightarrow> extracted_result \<Rightarrow> bool" where
  "covers rs r \<longleftrightarrow> list_ex (\<lambda>q. canonical_metric (er_metric q) = canonical_metric (er_metric r)) rs"

lemma merge_covers: "r \<in> set rules \<Longrightarrow> covers (merge_results llm rules) r"
  by (cases "canonical_metric (er_metric r) \<in> (\<lambda>r. canonical_metric (er_metric r)) ` set llm")
    (auto simp: covers_def merge_results_def list_ex_iff)

lemma with_llm_result:
  assumes "with_llm lib title text rules gw = (rs, gw1)" "list_all (\<lambda>r. unit_float (er_confidence r)) rules"
  shows "list_all (\<lambda>r. unit_float (er_confidence r)) rs \<and> list_all (covers rs) rules"
proof -
  have rules: "list_all (covers rules) rules" by (auto simp: covers_def list_all_iff list_ex_iff)
  obtain r gw2 where a: "ask EXTRACT_EXPERIMENTS [(''paper_title'', title), (''text'', text)] 0 1500 gw = (r, gw2)"
    by (cases "ask EXTRACT_EXPERIMENTS [(''paper_title'', title), (''text'', text)] 0 1500 gw")
  show ?thesis
  proof (cases "\<exists>c llm. r = Inr c \<and> parse_results_payload lib (c_text c) = Inr llm \<and> llm \<noteq> []")
    case True
    then obtain c llm where c: "r = Inr c" "parse_results_payload lib (c_text c) = Inr llm" "llm \<noteq> []" by blast
    then have "rs = merge_results llm rules" using assms(1) by (simp add: with_llm_def bind_llm_def lift_llm_def a)
    then show ?thesis using parse_results_confidence [OF c(2)] assms(2) merge_covers
      by (auto simp: list_all_iff merge_results_def)
  next
    case False
    then have "rs = rules" using assms(1)
      by (auto simp: with_llm_def bind_llm_def lift_llm_def a split: sum.splits if_splits)
    then show ?thesis using assms(2) rules by simp
  qed
qed

lemma rules_confidence: "list_all (\<lambda>r. unit_float (er_confidence r)) (extract_results_with_rules text dm)"
  by (auto simp: extract_results_with_rules_def result_of_def Let_def list_all_iff)

lemma persist_own: "filter (\<lambda>r. xr_paper r = pid) (persist_results pid rs rows) = map (result_row_of pid) rs"
  by (auto simp: persist_results_def result_row_of_def filter_empty_conv filter_map comp_def)

lemma persist_others: "filter (\<lambda>r. xr_paper r \<noteq> pid) (persist_results pid rs rows) = filter (\<lambda>r. xr_paper r \<noteq> pid) rows"
  by (auto simp: persist_results_def result_row_of_def filter_empty_conv)

text \<open>C24: Extracting the results of a paper replaces its rows by those of the new results and touches no other
  paper's; every row fits its columns and carries a confidence between zero and one, whatever the
  model wrote.  No metric the rules found is lost, whether the model answers, fails or is absent;
  without a gateway the results are those of the rules.  A paper without text, or an unknown one,
  changes nothing.\<close>

theorem extract_experiments_correct:
  "case extract_experiments lib db pid gateway use_llm rows of (r, gw, rows') \<Rightarrow>
     filter (\<lambda>x. xr_paper x \<noteq> pid) rows' = filter (\<lambda>x. xr_paper x \<noteq> pid) rows
     \<and> (case get_paper_row db pid of
          None \<Rightarrow> rows' = rows \<and> (\<exists>m. r = Inl (ValueError m))
        | Some p \<Rightarrow>
            \<exists>rs. r = Inr rs
            \<and> (let rules = extract_results_with_rules (paper_text db p 40) (take 80 (title_of p)) in
               if strip (paper_text db p 40) = [] then rs = [] \<and> rows' = rows
               else filter (\<lambda>x. xr_paper x = pid) rows' = map (result_row_of pid) rs
                 \<and> list_all row_fits (map (result_row_of pid) rs) \<and> list_all (covers rs) rules
                 \<and> (case gateway of None \<Rightarrow> rs = rules | Some _ \<Rightarrow> True)))"
proof (cases "get_paper_row db pid")
  case None
  then show ?thesis by (simp add: extract_experiments_def)
next
  case (Some p)
  define rules where "rules = extract_results_with_rules (paper_text db p 40) (take 80 (title_of p))"
  show ?thesis
  proof (cases "strip (paper_text db p 40) = []")
    case True
    then show ?thesis using Some by (simp add: extract_experiments_def Let_def)
  next
    case False
    have conf: "list_all (\<lambda>r. unit_float (er_confidence r)) rules" unfolding rules_def by (rule rules_confidence)
    have cov: "list_all (covers rules) rules" by (auto simp: covers_def list_all_iff list_ex_iff)
    obtain rs gw where rs: "(case gateway of Some gw \<Rightarrow> if use_llm then map_prod id Some (with_llm lib (title_of p) (paper_text db p 40) rules gw)
          else (rules, gateway) | None \<Rightarrow> (rules, None)) = (rs, gw)" by fastforce
    have ex: "extract_experiments lib db pid gateway use_llm rows = (Inr rs, gw, persist_results pid rs rows)"
      using Some False rs [unfolded rules_def] by (simp add: extract_experiments_def Let_def)
    have "list_all (\<lambda>r. unit_float (er_confidence r)) rs \<and> list_all (covers rs) rules"
    proof (cases "\<exists>g. gateway = Some g \<and> use_llm")
      case True
      then obtain g where "gateway = Some g" "use_llm" by blast
      then obtain gw1 where "with_llm lib (title_of p) (paper_text db p 40) rules g = (rs, gw1)"
        using rs by (cases "with_llm lib (title_of p) (paper_text db p 40) rules g") auto
      from with_llm_result [OF this conf] show ?thesis .
    next
      case False
      then have "rs = rules" using rs by (auto split: option.splits if_splits)
      then show ?thesis using conf cov by simp
    qed
    moreover have "case gateway of None \<Rightarrow> rs = rules | Some _ \<Rightarrow> True" using rs by (auto split: option.splits)
    ultimately show ?thesis using Some False unfolding rules_def
      by (auto simp: ex persist_own persist_others rules_def Let_def list_all_iff row_fits_row)
  qed
qed

subsection \<open>Gaps of the rules\<close>

lemma rules_one_hit:
  assumes "scan RESULT_SENTENCE [] text = ([(sk, m, [(2, v), (1, name)])], rest)" "length text \<le> MAX_EXTRACTION_CHARS"
  shows "map (\<lambda>r. (er_metric r, er_value r)) (extract_results_with_rules text dm) = [(canonical_metric name, Fin (decimal v))]"
  using assms by (simp add: extract_results_with_rules_def result_of_def Let_def group_def MAX_RESULTS_PER_PAPER_def)

lemma misread_values:
  "canonical_metric ''em'' = ''exact match''" "canonical_metric ''map'' = ''map''" "decimal ''3'' = 3" "decimal ''201'' = 201"
  "length ''rem 3'' \<le> MAX_EXTRACTION_CHARS" "length ''map 2019'' \<le> MAX_EXTRACTION_CHARS"
  by (code_simp, code_simp, simp_all add: decimal_def is_digit_def code_pt_def nat_of_digits_def MAX_EXTRACTION_CHARS_def)

text \<open>The pattern of the rules is not anchored at word boundaries: the number after a word that ends in \<open>em\<close>
  (\<open>Theorem\<close>, or \<open>rem\<close> here) is stored as an exact-match score, and a year is cut to its first three digits.  And the
  model's null dataset becomes the dataset named \<open>None\<close>.\<close>

theorem rules_misread:
  "map (\<lambda>r. (er_metric r, er_value r)) (extract_results_with_rules ''rem 3'' []) = [(''exact match'', Fin 3)]
   \<and> map (\<lambda>r. (er_metric r, er_value r)) (extract_results_with_rules ''map 2019'' []) = [(''map'', Fin 201)]
   \<and> map (map er_dataset) (case result_item lib [(''model'', PyStr ''m''), (''metric'', PyStr ''f1''), (''value'', PyFloat (Fin 1)), (''dataset'', PyNone)]
        of Inr rs \<Rightarrow> [rs] | Inl _ \<Rightarrow> []) = [[Some ''None'']]"
proof (intro conjI)
  have "scan RESULT_SENTENCE [] ''rem 3'' = ([(''r'', ''em 3'', [(2, ''3''), (1, ''em'')])], [])"
    by (simp add: scan.simps search_from.simps RESULT_SENTENCE_def metric_rx_def verb_rx_def value_rx_def digit_def blanks_def opt_def
        plus_def star_def chr_def one_of_def rmatch.simps(5) lower_char_def code_pt_def is_digit_def is_space_def Let_def)
  from rules_one_hit [OF this misread_values(5), of "[]"] show "map (\<lambda>r. (er_metric r, er_value r)) (extract_results_with_rules ''rem 3'' []) = [(''exact match'', Fin 3)]"
    by (simp add: misread_values)
  have "scan RESULT_SENTENCE [] ''map 2019'' = ([([], ''map 201'', [(2, ''201''), (1, ''map'')])], ''9'')"
    by (simp add: scan.simps search_from.simps RESULT_SENTENCE_def metric_rx_def verb_rx_def value_rx_def digit_def blanks_def opt_def
        plus_def star_def chr_def one_of_def rmatch.simps(5) lower_char_def code_pt_def is_digit_def is_space_def Let_def)
  from rules_one_hit [OF this misread_values(6), of "[]"] show "map (\<lambda>r. (er_metric r, er_value r)) (extract_results_with_rules ''map 2019'' []) = [(''map'', Fin 201)]"
    by (simp add: misread_values)
next
  have "strip ''None'' = ''None''" "strip ''m'' = ''m''" "strip ''f1'' = ''f1''" by code_simp+
  then show "map (map er_dataset) (case result_item lib [(''model'', PyStr ''m''), (''metric'', PyStr ''f1''), (''value'', PyFloat (Fin 1)), (''dataset'', PyNone)]
        of Inr rs \<Rightarrow> [rs] | Inl _ \<Rightarrow> []) = [[Some ''None'']]"
    by (simp add: result_item_def jstr_def jfield_def jvalue_def py_str_def py_float_def clamp_confidence_def truthy_str_def Let_def)
qed

end
