(* ===== verification/Worker.thy ===== *)
theory Worker
  imports Ingest Builder Experiments
begin

section \<open>The pipeline as a whole (worker/tasks.py, api/v1/endpoints/papers.py)\<close>

text \<open>
  Uploads and deletions by users and tasks run by workers, over all the tables, the blobs, the two
  indexes, the graph and the queue.  A queued task carries the number of its retries; any queued task
  may run next, one at a time, over the one BM25 index of the process, as when Celery runs tasks
  eagerly.  SHA-256, NFKC, the PDF parser, the embedding provider and the new
  identifiers are parameters.  The tasks pass no gateway to the extractions.
\<close>

record app =
  ap_pipe :: pipeline
  ap_store :: graph_store
  ap_next :: nat
  ap_entities :: "entity_row list"
  ap_results :: "result_row list"
  ap_queue :: "(task \<times> nat) list"

definition app_db :: "app \<Rightarrow> database" where
  "app_db a = sv_db (pl_service (ap_pipe a))"

definition app_index :: "app \<Rightarrow> index_state" where
  "app_index a = \<lparr>i_store = pl_store (ap_pipe a), i_bm = pl_bm (ap_pipe a), i_db = app_db a\<rparr>"

subsection \<open>The tasks\<close>

datatype task_end = Finished | GraphSkipped | GraphBuilt nat nat | ResultsFound nat | TaskRetry nat | TaskRaised py_error

definition MAX_TASK_RETRIES :: nat where "MAX_TASK_RETRIES = 2"

text \<open>\<open>raise self.retry(exc=exc)\<close>\<close>

definition retry_or_raise :: "nat \<Rightarrow> py_error \<Rightarrow> task_end" where
  "retry_or_raise retries e = (if retries < MAX_TASK_RETRIES then TaskRetry (retries + 1) else TaskRaised e)"

definition requeued :: "task \<Rightarrow> task_end \<Rightarrow> (task \<times> nat) list" where
  "requeued t r = (case r of TaskRetry n \<Rightarrow> [(t, n)] | _ \<Rightarrow> [])"

definition build_graph :: "library \<Rightarrow> (parsed_reference \<Rightarrow> string) \<Rightarrow> bool \<Rightarrow> uuid \<Rightarrow> nat \<Rightarrow> app \<Rightarrow> task_end \<times> app" where
  "build_graph lib ref_id enabled pid retries a =
     (if \<not> enabled then (GraphSkipped, a)
      else
        case build_paper_graph lib ref_id pid (None :: unit llm option) True
               \<lparr>ge_db = app_db a, ge_refs = pl_refs (ap_pipe a), ge_entities = ap_entities a, ge_store = ap_store a, ge_next = ap_next a\<rparr> of
          (r, _, env) \<Rightarrow>
            (case r of Inr x \<Rightarrow> GraphBuilt (length (ex_entities x)) (length (ex_relations x)) | Inl e \<Rightarrow> retry_or_raise retries e,
             a\<lparr>ap_store := ge_store env, ap_next := ge_next env, ap_entities := ge_entities env\<rparr>))"

definition extract_results :: "library \<Rightarrow> uuid \<Rightarrow> nat \<Rightarrow> app \<Rightarrow> task_end \<times> app" where
  "extract_results lib pid retries a =
     (case extract_experiments lib (app_db a) pid (None :: unit llm option) True (ap_results a) of
        (r, _, rows) \<Rightarrow>
          (case r of Inr rs \<Rightarrow> ResultsFound (length rs) | Inl e \<Rightarrow> retry_or_raise retries e, a\<lparr>ap_results := rows\<rparr>))"

record worker_env =
  we_parse :: "nat list \<Rightarrow> parse_failure + parsed_document"
  we_embedder :: "string list \<Rightarrow> real list list res"
  we_batch :: int
  we_lib :: library
  we_ref_id :: "parsed_reference \<Rightarrow> string"
  we_graph_enabled :: bool
  we_ids :: "nat \<Rightarrow> uuid"

text \<open>One execution of a task, with what it puts back into the queue.\<close>

definition run_task :: "worker_env \<Rightarrow> task \<Rightarrow> nat \<Rightarrow> app \<Rightarrow> app" where
  "run_task e t n a =
     (case t of
        ProcessPaper pid \<Rightarrow>
          (case process_paper (we_parse e) (we_ids e) pid ((ap_pipe a)\<lparr>pl_queue := []\<rparr>) of
             (_, s) \<Rightarrow> a\<lparr>ap_pipe := s\<lparr>pl_queue := []\<rparr>, ap_queue := ap_queue a @ map (\<lambda>t. (t, 0)) (pl_queue s)\<rparr>)
      | EmbedPaper pid \<Rightarrow>
          (case embed_paper (we_embedder e) (we_batch e) pid False n (ap_pipe a) of
             (r, s) \<Rightarrow> a\<lparr>ap_pipe := s, ap_queue := ap_queue a @ (case r of RetryEmbed k \<Rightarrow> [(t, k)] | _ \<Rightarrow> [])\<rparr>)
      | BuildGraph pid \<Rightarrow>
          (case build_graph (we_lib e) (we_ref_id e) (we_graph_enabled e) pid n a of
             (r, a) \<Rightarrow> a\<lparr>ap_queue := ap_queue a @ requeued t r\<rparr>)
      | ExtractResults pid \<Rightarrow>
          (case extract_results (we_lib e) pid n a of
             (r, a) \<Rightarrow> a\<lparr>ap_queue := ap_queue a @ requeued t r\<rparr>))"

definition run_at :: "worker_env \<Rightarrow> nat \<Rightarrow> app \<Rightarrow> app" where
  "run_at e i a =
     (case ap_queue a ! i of (t, n) \<Rightarrow> run_task e t n (a\<lparr>ap_queue := take i (ap_queue a) @ drop (Suc i) (ap_queue a)\<rparr>))"

subsection \<open>The endpoints for papers\<close>

definition upload ::
    "(nat list \<Rightarrow> string) \<Rightarrow> (string \<Rightarrow> string) \<Rightarrow> nat \<Rightarrow> uuid \<Rightarrow> uuid \<Rightarrow> nat list \<times> nat \<Rightarrow> string \<Rightarrow> string option
       \<Rightarrow> app \<Rightarrow> (service_error + paper_row) \<times> app" where
  "upload sha nfkc max_bytes pid user file filename content_type a =
     (if filename = [] then (Inl (ValidationError ''Upload is missing a filename''), a)
      else
        let content_type = (case content_type of Some (c # s) \<Rightarrow> c # s | _ \<Rightarrow> ''application/octet-stream'');
            (r, s) = upload_paper sha nfkc max_bytes pid user file filename content_type None (pl_service (ap_pipe a));
            a = a\<lparr>ap_pipe := (ap_pipe a)\<lparr>pl_service := s\<rparr>\<rparr> in
        case r of
          Inl e \<Rightarrow> (Inl e, a)
        | Inr p \<Rightarrow> (Inr p, a\<lparr>ap_queue := ap_queue a @ [(ProcessPaper (p_id p), 0)]\<rparr>))"

text \<open>The limit and the offset of a list; other values are refused with the status 422.\<close>

definition list_all_papers :: "uuid \<Rightarrow> int \<Rightarrow> int \<Rightarrow> app \<Rightarrow> (paper_row list \<times> nat) option" where
  "list_all_papers user limit offset a =
     (if limit < 1 \<or> 200 < limit \<or> offset < 0 then None
      else Some (list_papers (app_db a) user (nat limit) (nat offset)))"

definition get_one :: "uuid \<Rightarrow> uuid \<Rightarrow> app \<Rightarrow> service_error + paper_row" where
  "get_one user pid a = get_paper (app_db a) user pid"

text \<open>The rows of all tables that refer to a deleted paper go with it.\<close>

definition cascade :: "uuid \<Rightarrow> app \<Rightarrow> app" where
  "cascade pid a =
     a\<lparr>ap_pipe := (ap_pipe a)\<lparr>pl_assets := filter (\<lambda>x. as_paper x \<noteq> pid) (pl_assets (ap_pipe a)),
                            pl_refs := filter (\<lambda>x. fst x \<noteq> pid) (pl_refs (ap_pipe a))\<rparr>,
       ap_entities := filter (\<lambda>x. en_paper x \<noteq> pid) (ap_entities a),
       ap_results := filter (\<lambda>x. xr_paper x \<noteq> pid) (ap_results a)\<rparr>"

definition delete_one :: "uuid \<Rightarrow> uuid \<Rightarrow> app \<Rightarrow> (service_error + unit) \<times> app" where
  "delete_one user pid a =
     (case delete_paper_row user pid (pl_service (ap_pipe a)) of
        (r, s) \<Rightarrow>
          (r, case get_paper (app_db a) user pid of
                Inl _ \<Rightarrow> a
              | Inr _ \<Rightarrow> cascade pid (a\<lparr>ap_pipe := (ap_pipe a)\<lparr>pl_service := s\<rparr>\<rparr>)))"

definition list_assets :: "uuid \<Rightarrow> uuid \<Rightarrow> asset_kind option \<Rightarrow> app \<Rightarrow> service_error + asset_row list" where
  "list_assets user pid kind a = list_paper_assets user pid kind (ap_pipe a)"

text \<open>The BM25 index is rebuilt from the tables at every start of the server.\<close>

definition rebuild_index :: "app \<Rightarrow> nat \<times> app" where
  "rebuild_index a =
     (case rebuild_sparse_index (app_index a) of (n, ix) \<Rightarrow> (n, a\<lparr>ap_pipe := (ap_pipe a)\<lparr>pl_bm := i_bm ix\<rparr>\<rparr>))"

subsection \<open>Reachable states\<close>

text \<open>New identifiers are new: those of a paper and those of the chunk rows of one run.\<close>

definition fresh_ids :: "(nat \<Rightarrow> uuid) \<Rightarrow> parsed_document \<Rightarrow> database \<Rightarrow> bool" where
  "fresh_ids ids d db \<longleftrightarrow>
     (let new = map ids [0..<length (parsed_chunks d)] in distinct new \<and> set new \<inter> set (map k_id (db_chunks db)) = {})"

inductive app_reachable :: "app \<Rightarrow> bool" where
  fresh: "db_papers (app_db a) = [] \<Longrightarrow> db_chunks (app_db a) = [] \<Longrightarrow> distinct (map w_id (db_workspaces (app_db a))) \<Longrightarrow>
    pl_assets (ap_pipe a) = [] \<Longrightarrow> pl_refs (ap_pipe a) = [] \<Longrightarrow> ap_entities a = [] \<Longrightarrow> ap_results a = [] \<Longrightarrow>
    ap_store a = empty_store \<Longrightarrow> ap_queue a = [] \<Longrightarrow> app_reachable a"
| upload: "app_reachable a \<Longrightarrow> pid \<notin> p_id ` set (db_papers (app_db a)) \<Longrightarrow>
    app_reachable (snd (upload sha nfkc mx pid user file filename ct a))"
| delete: "app_reachable a \<Longrightarrow> app_reachable (snd (delete_one user pid a))"
| restart: "app_reachable a \<Longrightarrow> app_reachable (snd (rebuild_index a))"
| work: "app_reachable a \<Longrightarrow> i < length (ap_queue a) \<Longrightarrow>
    (\<And>bytes d. we_parse e bytes = Inr d \<Longrightarrow> fresh_ids (we_ids e) d (app_db a)) \<Longrightarrow> app_reachable (run_at e i a)"

subsection \<open>Consistency\<close>

definition paper_ids :: "database \<Rightarrow> uuid set" where
  "paper_ids db = p_id ` set (db_papers db)"

text \<open>The pipeline: identifiers are unique, rows refer to papers that exist, and what is marked as embedded is indexed.\<close>

definition pipe_ok :: "pipeline \<Rightarrow> bool" where
  "pipe_ok s \<longleftrightarrow> db_ok (db_of s) \<and> in_sync \<lparr>i_store = pl_store s, i_bm = pl_bm s, i_db = db_of s\<rparr>
     \<and> list_all (\<lambda>c. k_paper c \<in> paper_ids (db_of s)) (db_chunks (db_of s))
     \<and> list_all (\<lambda>x. as_paper x \<in> paper_ids (db_of s)) (pl_assets s)
     \<and> list_all (\<lambda>x. fst x \<in> paper_ids (db_of s)) (pl_refs s)"

definition app_ok :: "app \<Rightarrow> bool" where
  "app_ok a \<longleftrightarrow> pipe_ok (ap_pipe a) \<and> store_wf (ap_store a)
     \<and> list_all (\<lambda>x. en_paper x \<in> paper_ids (app_db a)) (ap_entities a)
     \<and> list_all (\<lambda>x. xr_paper x \<in> paper_ids (app_db a)) (ap_results a)"

lemma in_sync_chunks:
  "in_sync \<lparr>i_store = st, i_bm = bm, i_db = db\<rparr> \<longleftrightarrow>
     (\<forall>c \<in> set (db_chunks db). k_embedded c \<longrightarrow> present \<lparr>i_store = st, i_bm = bm, i_db = db'\<rparr> (k_id c) (k_paper c))"
  by (simp add: in_sync_def present_def)

lemma set_paper_tables:
  assumes "\<And>p. p_id (f p) = p_id p"
  shows "map p_id (db_papers (db_of (set_paper pid f s))) = map p_id (db_papers (db_of s))"
    and "paper_ids (db_of (set_paper pid f s)) = paper_ids (db_of s)"
    and "db_workspaces (db_of (set_paper pid f s)) = db_workspaces (db_of s)" "db_chunks (db_of (set_paper pid f s)) = db_chunks (db_of s)"
    and "pl_assets (set_paper pid f s) = pl_assets s" "pl_refs (set_paper pid f s) = pl_refs s" "pl_bm (set_paper pid f s) = pl_bm s"
proof -
  show ids: "map p_id (db_papers (db_of (set_paper pid f s))) = map p_id (db_papers (db_of s))"
    by (auto simp: set_paper_def assms)
  have "paper_ids db = set (map p_id (db_papers db))" for db by (simp add: paper_ids_def)
  then show "paper_ids (db_of (set_paper pid f s)) = paper_ids (db_of s)" using ids by metis
qed (simp_all add: set_paper_def)

lemma pipe_ok_set_paper: "(\<And>p. p_id (f p) = p_id p) \<Longrightarrow> pipe_ok (set_paper pid f s) = pipe_ok s"
  by (simp add: pipe_ok_def set_paper_tables db_ok_def in_sync_chunks [of _ _ _ "db_of s"])

lemma pipe_ok_blobs: "pipe_ok (s\<lparr>pl_service := (pl_service s)\<lparr>sv_blobs := b\<rparr>\<rparr>) = pipe_ok s"
  by (simp add: pipe_ok_def)

lemma pipe_ok_queue [simp]: "pipe_ok (s\<lparr>pl_queue := q\<rparr>) = pipe_ok s"
  by (simp add: pipe_ok_def)

lemma pipe_ok_replace_assets:
  assumes "replace_assets pid d s = (r, t)" "pipe_ok s" "pid \<in> paper_ids (db_of s)"
  shows "pipe_ok t \<and> db_of t = db_of s"
proof -
  obtain rr blobs where f: "save_figures pid (List.enumerate 0 (pd_figures d)) (sv_blobs (pl_service s)) = (rr, blobs)" by fastforce
  show ?thesis
  proof (cases rr)
    case (Inl e)
    then show ?thesis using assms f by (auto simp: replace_assets_def Let_def pipe_ok_blobs)
  next
    case (Inr rows)
    have t: "t = s\<lparr>pl_service := (pl_service s)\<lparr>sv_blobs := blobs\<rparr>,
        pl_assets := filter (\<lambda>a. as_paper a \<noteq> pid) (pl_assets s) @ map (table_row pid) (pd_tables d) @ rows,
        pl_refs := filter (\<lambda>r. fst r \<noteq> pid) (pl_refs s) @ map (Pair pid) (pd_references d)\<rparr>"
      using assms(1) f Inr by (auto simp: replace_assets_def Let_def)
    show ?thesis using assms(2,3) save_figures_rows [OF f [unfolded Inr]]
      unfolding t by (auto simp: pipe_ok_def list_all_iff table_row_def)
  qed
qed

lemma pipe_ok_replace_chunks:
  assumes "replace_chunks ids pid d s = (n, t)" "pipe_ok s" "pid \<in> paper_ids (db_of s)" "fresh_ids ids d (db_of s)"
  shows "pipe_ok t"
proof -
  let ?new = "map (chunk_row_of ids pid) (parsed_chunks d)"
  have t: "t = s\<lparr>pl_service := (pl_service s)\<lparr>sv_db := (db_of s)\<lparr>db_chunks := filter (\<lambda>c. k_paper c \<noteq> pid) (db_chunks (db_of s)) @ ?new\<rparr>\<rparr>\<rparr>"
    using assms(1) by (simp add: replace_chunks_def Let_def)
  have "map k_id ?new = map ids (map ch_index (parsed_chunks d))" by (simp add: chunk_row_of_def)
  then have new: "map k_id ?new = map ids [0..<length (parsed_chunks d)]" by (simp add: parsed_chunks_index)
  then have d: "distinct (map k_id ?new)" and apart: "set (map k_id ?new) \<inter> k_id ` set (db_chunks (db_of s)) = {}"
    using assms(4) by (simp_all only: fresh_ids_def Let_def new set_map)
  have old: "distinct (map k_id (filter (\<lambda>c. k_paper c \<noteq> pid) (db_chunks (db_of s))))"
    using assms(2) by (simp add: pipe_ok_def db_ok_def distinct_map_filter)
  have "distinct (map k_id (filter (\<lambda>c. k_paper c \<noteq> pid) (db_chunks (db_of s)) @ ?new))"
    using d old apart by (auto simp del: map_map)
  then have ok: "db_ok (db_of t)" using assms(2) unfolding t by (simp add: pipe_ok_def db_ok_def)
  have sync: "in_sync \<lparr>i_store = pl_store t, i_bm = pl_bm t, i_db = db_of t\<rparr>"
    using assms(2) unfolding in_sync_chunks [of _ _ _ "db_of s"] unfolding t
    by (auto simp: pipe_ok_def in_sync_chunks [of _ _ _ "db_of s"] chunk_row_of_def)
  have "paper_ids (db_of t) = paper_ids (db_of s)" unfolding t by (simp add: paper_ids_def)
  then show ?thesis using ok sync assms(2,3) unfolding pipe_ok_def by (auto simp: t list_all_iff chunk_row_of_def)
qed

lemma get_paper_ids: "get_paper_row db pid = Some p \<Longrightarrow> pid \<in> paper_ids db"
  using get_paper_row_Some by (force simp: paper_ids_def)

lemma parsed_from: "open_and_parse parse_pdf key st = Inr d \<Longrightarrow> \<exists>bytes. parse_pdf bytes = Inr d"
  by (auto simp: open_and_parse_def split: sum.splits py_error.splits)

lemma process_rows_ok:
  assumes "pipe_ok s" "\<And>bytes d. parse_pdf bytes = Inr d \<Longrightarrow> fresh_ids ids d (db_of s)"
  shows "pipe_ok (snd (process_rows parse_pdf ids pid s)) \<and> paper_ids (db_of (snd (process_rows parse_pdf ids pid s))) = paper_ids (db_of s)"
proof (cases "get_paper_row (db_of s) pid")
  case None
  then show ?thesis using assms by (simp add: process_rows_def)
next
  case (Some p)
  define s0 where "s0 = set_paper pid (\<lambda>p. p\<lparr>p_status := PROCESSING, p_error := None\<rparr>) s"
  have s0: "pipe_ok s0" "paper_ids (db_of s0) = paper_ids (db_of s)" "db_chunks (db_of s0) = db_chunks (db_of s)"
    using assms(1) by (simp_all add: s0_def pipe_ok_set_paper set_paper_tables)
  note run = process_rows_def Some Let_def s0_def [symmetric]
  show ?thesis
  proof (cases "open_and_parse parse_pdf (p_storage_key p) (sv_blobs (pl_service s0))")
    case (Inl f)
    have "p_id (mark_failed m q) = p_id q" for m q by (simp add: mark_failed_def)
    then show ?thesis using s0 Inl by (cases f) (simp_all add: run pipe_ok_set_paper set_paper_tables)
  next
    case (Inr d)
    define s1 where "s1 = set_paper pid (mark_ready d) s0"
    have "p_id (mark_ready d q) = p_id q" for q by (simp add: mark_ready_def)
    then have s1: "pipe_ok s1" "paper_ids (db_of s1) = paper_ids (db_of s)" "db_chunks (db_of s1) = db_chunks (db_of s)"
      using s0 by (simp_all add: s1_def pipe_ok_set_paper set_paper_tables)
    have pid: "pid \<in> paper_ids (db_of s1)" using get_paper_ids [OF Some] s1(2) by simp
    obtain r t where a: "replace_assets pid d s1 = (r, t)" by fastforce
    note t = pipe_ok_replace_assets [OF a s1(1) pid]
    show ?thesis
    proof (cases r)
      case (Inl e)
      then show ?thesis using s0 \<open>open_and_parse _ _ _ = Inr d\<close> a by (simp add: run s1_def [symmetric] pipe_ok_blobs)
    next
      case (Inr u)
      obtain n t2 where c: "replace_chunks ids pid d t = (n, t2)" by fastforce
      have "pipe_ok t2" using pipe_ok_replace_chunks [OF c] t pid s1 parsed_from [OF \<open>open_and_parse _ _ _ = Inr d\<close>] assms(2)
        by (auto simp: fresh_ids_def)
      moreover have "paper_ids (db_of t2) = paper_ids (db_of t)" using c by (auto simp: replace_chunks_def Let_def paper_ids_def)
      ultimately show ?thesis using t s1(2) \<open>open_and_parse _ _ _ = Inr d\<close> a Inr c by (simp add: run s1_def [symmetric])
    qed
  qed
qed

lemma process_paper_snd: "\<exists>q. snd (process_paper parse_pdf ids pid s) = (snd (process_rows parse_pdf ids pid s))\<lparr>pl_queue := q\<rparr>"
proof -
  obtain r t where "process_rows parse_pdf ids pid s = (r, t)" by fastforce
  moreover have same: "\<exists>q. t = t\<lparr>pl_queue := q\<rparr>" by (rule exI [of _ "pl_queue t"]) simp
  ultimately show ?thesis by (auto simp: process_paper_def split: sum.split outcome.split)
qed

lemma process_paper_ok:
  assumes "pipe_ok s" "\<And>bytes d. parse_pdf bytes = Inr d \<Longrightarrow> fresh_ids ids d (db_of s)"
  shows "pipe_ok (snd (process_paper parse_pdf ids pid s)) \<and> paper_ids (db_of (snd (process_paper parse_pdf ids pid s))) = paper_ids (db_of s)"
proof -
  obtain q where q: "snd (process_paper parse_pdf ids pid s) = (snd (process_rows parse_pdf ids pid s))\<lparr>pl_queue := q\<rparr>"
    using process_paper_snd by blast
  show ?thesis using process_rows_ok [of s parse_pdf ids pid, OF assms] unfolding q by simp
qed

lemma chunk_keys_same:
  assumes "chunk_keys db' = chunk_keys db"
  shows "map k_id (db_chunks db') = map k_id (db_chunks db)" "k_paper ` set (db_chunks db') = k_paper ` set (db_chunks db)"
proof -
  have "map k_id (db_chunks db) = map fst (chunk_keys db)" "k_paper ` set (db_chunks db) = snd ` set (chunk_keys db)" for db
    by (simp_all add: chunk_keys_def image_image)
  then show "map k_id (db_chunks db') = map k_id (db_chunks db)" "k_paper ` set (db_chunks db') = k_paper ` set (db_chunks db)"
    using assms by simp_all
qed

lemma embed_paper_ok:
  assumes "pipe_ok s"
  shows "pipe_ok (snd (embed_paper e n pid False k s)) \<and> paper_ids (db_of (snd (embed_paper e n pid False k s))) = paper_ids (db_of s)"
proof -
  let ?ix = "\<lparr>i_store = pl_store s, i_bm = pl_bm s, i_db = db_of s\<rparr>"
  obtain r ix where ix: "index_paper e pid n False ?ix = (r, ix)" by fastforce
  have keep: "in_sync \<lparr>i_store = i_store ix, i_bm = i_bm ix, i_db = i_db ix\<rparr>" "chunk_keys (i_db ix) = chunk_keys (db_of s)"
    using index_paper_keeps_sync [of ?ix e pid n] assms ix by (simp_all add: pipe_ok_def) (cases ix, simp)
  have tables: "db_papers (i_db ix) = db_papers (db_of s)" "db_workspaces (i_db ix) = db_workspaces (db_of s)"
    using index_paper_tables [of e pid n False ?ix] ix by simp_all
  have t: "db_of (snd (embed_paper e n pid False k s)) = i_db ix" "pl_store (snd (embed_paper e n pid False k s)) = i_store ix"
      "pl_bm (snd (embed_paper e n pid False k s)) = i_bm ix" "pl_assets (snd (embed_paper e n pid False k s)) = pl_assets s"
      "pl_refs (snd (embed_paper e n pid False k s)) = pl_refs s"
    using ix by (simp_all add: embed_paper_def)
  have ids: "paper_ids (i_db ix) = paper_ids (db_of s)" by (simp add: paper_ids_def tables)
  have "list_all (\<lambda>c. k_paper c \<in> P) (db_chunks (i_db ix)) = list_all (\<lambda>c. k_paper c \<in> P) (db_chunks (db_of s))" for P
    using chunk_keys_same(2) [OF keep(2)] by (simp add: list_all_iff) (metis (mono_tags, lifting) imageE image_eqI)
  then show ?thesis using assms keep chunk_keys_same(1) [OF keep(2)] unfolding pipe_ok_def t ids
    by (simp add: db_ok_def tables)
qed

lemma app_ok_pipe:
  "app_ok a \<Longrightarrow> pipe_ok s \<Longrightarrow> paper_ids (db_of s) = paper_ids (app_db a) \<Longrightarrow> app_ok (a\<lparr>ap_pipe := s, ap_queue := q\<rparr>)"
  by (simp add: app_ok_def app_db_def)

lemma app_ok_queue [simp]: "app_ok (a\<lparr>ap_queue := q\<rparr>) = app_ok a"
  by (simp add: app_ok_def app_db_def)

lemma build_graph_ok:
  assumes "app_ok a"
  shows "app_ok (snd (build_graph lib ref_id enabled pid k a))"
proof (cases enabled)
  case True
  let ?env = "\<lparr>ge_db = app_db a, ge_refs = pl_refs (ap_pipe a), ge_entities = ap_entities a, ge_store = ap_store a, ge_next = ap_next a\<rparr>"
  obtain r g env where b: "build_paper_graph lib ref_id pid (None :: unit llm option) True ?env = (r, g, env)" by (metis prod_cases3)
  have wf: "store_wf (ge_store env)" using build_paper_graph_correct [OF _ b] assms by (simp add: app_ok_def)
  have "list_all (\<lambda>x. en_paper x \<in> paper_ids (app_db a)) (ge_entities env)"
  proof (cases "get_paper_row (app_db a) pid")
    case None
    then have "ge_entities env = ap_entities a" using b by (auto simp: build_paper_graph_def)
    then show ?thesis using assms by (simp add: app_ok_def)
  next
    case (Some p)
    have mirror: "en_paper x = pid \<or> x \<in> set old" if "mirror_entities pid res old = (u, new)" "x \<in> set new" for res old u new x
      using that by (auto simp: mirror_entities_def Let_def entity_row_of_def split: if_splits)
    have "ge_entities env = ap_entities a \<or> (\<exists>res u. mirror_entities pid res (ap_entities a) = (u, ge_entities env))"
      using b Some by (auto simp: build_paper_graph_def Let_def split: prod.splits sum.splits)
    then have "\<forall>x \<in> set (ge_entities env). en_paper x = pid \<or> x \<in> set (ap_entities a)" by (auto dest: mirror)
    then show ?thesis using assms get_paper_ids [OF Some] by (auto simp: app_ok_def list_all_iff)
  qed
  then show ?thesis using assms wf b True by (simp add: build_graph_def app_ok_def app_db_def)
qed (use assms in \<open>simp add: build_graph_def\<close>)

lemma extract_results_ok:
  assumes "app_ok a"
  shows "app_ok (snd (extract_results lib pid k a))"
proof -
  obtain r g rows where x: "extract_experiments lib (app_db a) pid (None :: unit llm option) True (ap_results a) = (r, g, rows)" by (metis prod_cases3)
  have "list_all (\<lambda>x. xr_paper x \<in> paper_ids (app_db a)) rows"
  proof (cases "get_paper_row (app_db a) pid")
    case None
    then show ?thesis using x assms by (auto simp: extract_experiments_def app_ok_def)
  next
    case (Some p)
    have "\<forall>x \<in> set rows. xr_paper x = pid \<or> x \<in> set (ap_results a)"
      using x Some by (auto simp: extract_experiments_def Let_def persist_results_def result_row_of_def split: if_splits)
    then show ?thesis using assms get_paper_ids [OF Some] by (auto simp: app_ok_def list_all_iff)
  qed
  then show ?thesis using assms x by (simp add: extract_results_def app_ok_def app_db_def)
qed

lemma run_at_ok:
  assumes "app_ok a" "\<And>bytes d. we_parse e bytes = Inr d \<Longrightarrow> fresh_ids (we_ids e) d (app_db a)"
  shows "app_ok (run_at e i a)"
proof -
  obtain t n where tn: "ap_queue a ! i = (t, n)" by fastforce
  let ?a = "a\<lparr>ap_queue := take i (ap_queue a) @ drop (Suc i) (ap_queue a)\<rparr>"
  have ok: "app_ok ?a" "pipe_ok (ap_pipe a)" using assms(1) by (simp_all add: app_ok_def app_db_def)
  show ?thesis
  proof (cases t)
    case (ProcessPaper pid)
    let ?p = "process_paper (we_parse e) (we_ids e) pid ((ap_pipe a)\<lparr>pl_queue := []\<rparr>)"
    have "pipe_ok (snd ?p) \<and> paper_ids (db_of (snd ?p)) = paper_ids (app_db a)"
      using process_paper_ok [of "(ap_pipe a)\<lparr>pl_queue := []\<rparr>" "we_parse e" "we_ids e" pid] ok(2) assms(2) by (simp add: app_db_def)
    then show ?thesis using app_ok_pipe [OF assms(1), of "(snd ?p)\<lparr>pl_queue := []\<rparr>"] ProcessPaper tn
      by (simp add: run_at_def run_task_def case_prod_unfold)
  next
    case (EmbedPaper pid)
    show ?thesis using app_ok_pipe [OF assms(1)] embed_paper_ok [OF ok(2), of "we_embedder e" "we_batch e" pid n] EmbedPaper tn
      by (simp add: run_at_def run_task_def case_prod_unfold app_db_def)
  next
    case (BuildGraph pid)
    then show ?thesis using build_graph_ok [OF ok(1)] tn by (simp add: run_at_def run_task_def case_prod_unfold)
  next
    case (ExtractResults pid)
    then show ?thesis using extract_results_ok [OF ok(1)] tn by (simp add: run_at_def run_task_def case_prod_unfold)
  qed
qed

text \<open>The rebuilt index holds one document for each chunk.\<close>

lemma rebuild_rows_once:
  assumes "distinct (map p_id (db_papers db))" "list_all (\<lambda>c. k_paper c \<in> paper_ids db) (db_chunks db)"
  shows "map (\<lambda>(c, p). (k_id c, p_id p)) (rebuild_rows db) = chunk_keys db"
proof -
  have "filter (\<lambda>p. p_id p = q) ps = [p]" if "p \<in> set ps" "p_id p = q" "distinct (map p_id ps)" for q p ps
    using that by (induction ps) (auto simp: filter_empty_conv, metis imageI)
  then have one: "\<exists>p. filter (\<lambda>p. p_id p = k_paper c) (db_papers db) = [p] \<and> p_id p = k_paper c" if "c \<in> set (db_chunks db)" for c
    using assms that by (fastforce simp: list_all_iff paper_ids_def)
  have "map (\<lambda>(c, p). (k_id c, p_id p)) (concat (map (\<lambda>c. map (Pair c) (filter (\<lambda>p. p_id p = k_paper c) (db_papers db))) cs))
      = map (\<lambda>c. (k_id c, k_paper c)) cs" if "set cs \<subseteq> set (db_chunks db)" for cs
    using that by (induction cs) (use one in fastforce)+
  then show ?thesis by (simp add: rebuild_rows_def chunk_keys_def)
qed

lemma docs_fold_rows:
  "distinct (map (\<lambda>(c, p). k_id c) rows) \<Longrightarrow>
   map_option d_paper (dget (b_docs (fold (\<lambda>(c, p). add_chunk p c) rows ix)) k)
     = (case map_of (map (\<lambda>(c, p). (k_id c, p_id p)) rows) k of None \<Rightarrow> map_option d_paper (dget (b_docs ix) k) | Some q \<Rightarrow> Some q)"
proof (induction rows arbitrary: ix)
  case (Cons x rows)
  obtain c p where x: "x = (c, p)" by fastforce
  have "map_of (map (\<lambda>(c, p). (k_id c, p_id p)) rows) (k_id c) = None"
    using Cons.prems by (force simp: x map_of_eq_None_iff image_iff)
  then show ?case using Cons by (auto simp: x dget_add_chunk split: option.split)
qed simp

lemma rebuilt:
  assumes "db_ok (i_db s)" "list_all (\<lambda>c. k_paper c \<in> paper_ids (i_db s)) (db_chunks (i_db s))" "rebuild_sparse_index s = (n, t)"
  shows "n = length (db_chunks (i_db s))" "i_db t = i_db s" "i_store t = i_store s"
    and "map_option d_paper (dget (b_docs (i_bm t)) k) = map_of (chunk_keys (i_db s)) k"
proof -
  have t: "n = length (rebuild_rows (i_db s))" "t = s\<lparr>i_bm := fold (\<lambda>(c, p). add_chunk p c) (rebuild_rows (i_db s)) (bm_clear (i_bm s))\<rparr>"
    using assms(3) by (auto simp: rebuild_sparse_index_def Let_def)
  have rows: "map (\<lambda>(c, p). (k_id c, p_id p)) (rebuild_rows (i_db s)) = chunk_keys (i_db s)"
    using rebuild_rows_once assms(1,2) by (simp add: db_ok_def)
  from arg_cong [OF this, of length] show "n = length (db_chunks (i_db s))" by (simp add: t(1) chunk_keys_def)
  show "i_db t = i_db s" "i_store t = i_store s" by (simp_all add: t(2))
  have "map (\<lambda>(c, p). k_id c) (rebuild_rows (i_db s)) = map fst (chunk_keys (i_db s))"
    unfolding rows [symmetric] by (simp add: comp_def case_prod_unfold)
  then have "distinct (map (\<lambda>(c, p). k_id c) (rebuild_rows (i_db s)))"
    using assms(1) by (simp add: db_ok_def chunk_keys_def comp_def)
  from docs_fold_rows [OF this, of "bm_clear (i_bm s)" k]
  show "map_option d_paper (dget (b_docs (i_bm t)) k) = map_of (chunk_keys (i_db s)) k"
    unfolding rows by (simp add: t(2) bm_clear_def split: option.split)
qed

lemma rebuild_index_ok:
  assumes "app_ok a"
  shows "app_ok (snd (rebuild_index a))"
proof -
  obtain n ix where r: "rebuild_sparse_index (app_index a) = (n, ix)" by fastforce
  have ok: "db_ok (app_db a)" "list_all (\<lambda>c. k_paper c \<in> paper_ids (app_db a)) (db_chunks (app_db a))" "in_sync (app_index a)"
    using assms by (simp_all add: app_ok_def pipe_ok_def app_db_def app_index_def)
  note new = rebuilt [of "app_index a", OF _ _ r, unfolded app_index_def, simplified, OF ok(1,2)]
  have "present \<lparr>i_store = pl_store (ap_pipe a), i_bm = i_bm ix, i_db = app_db a\<rparr> (k_id c) (k_paper c)"
    if "c \<in> set (db_chunks (app_db a))" "k_embedded c" for c
  proof -
    have "map_of (chunk_keys (app_db a)) (k_id c) = Some (k_paper c)"
      using ok(1) that(1) by (intro map_of_is_SomeI) (auto simp: db_ok_def chunk_keys_def comp_def)
    then show ?thesis using new(4) [of "k_id c"] ok(3) that by (fastforce simp: present_def in_sync_def app_index_def)
  qed
  then show ?thesis using assms r
    by (simp add: rebuild_index_def app_ok_def pipe_ok_def app_db_def in_sync_def)
qed

lemma upload_paper_tables:
  assumes "upload_paper sha nfkc mx pid user file filename ct ws s = (r, t)"
  shows "(case r of Inr p \<Rightarrow> p_id p = pid | _ \<Rightarrow> True)
    \<and> (sv_db t = sv_db s \<or> (\<exists>p. p_id p = pid \<and> sv_db t = (sv_db s)\<lparr>db_papers := db_papers (sv_db s) @ [p]\<rparr>))"
proof -
  have new: "p_id (new_paper a b c d e f g) = a" for a b c d e f g by (simp add: new_paper_def)
  have ins: "snd (insert_paper p db) = db \<or> snd (insert_paper p db) = db\<lparr>db_papers := db_papers db @ [p]\<rparr>"
    "case fst (insert_paper p db) of Inr q \<Rightarrow> q = p | _ \<Rightarrow> True" for p db
    by (auto simp: insert_paper_def)
  show ?thesis
    using assms ins(1) ins(2) new
    by (fastforce simp: upload_paper_def insert_paper_def Let_def split: if_splits prod.splits sum.splits)
qed

lemma pipe_ok_new_paper:
  assumes "pipe_ok s" "p_id p \<notin> paper_ids (db_of s)"
  shows "pipe_ok (s\<lparr>pl_service := (pl_service s)\<lparr>sv_db := (db_of s)\<lparr>db_papers := db_papers (db_of s) @ [p]\<rparr>, sv_blobs := b\<rparr>\<rparr>)"
  using assms by (auto simp: pipe_ok_def db_ok_def paper_ids_def in_sync_chunks [of _ _ _ "db_of s"] list_all_iff)

lemma app_ok_upload:
  assumes "app_ok a" "pid \<notin> p_id ` set (db_papers (app_db a))"
  shows "app_ok (snd (upload sha nfkc mx pid user file filename ct a))"
proof (cases "filename = []")
  case False
  let ?ct = "case ct of Some (c # s) \<Rightarrow> c # s | _ \<Rightarrow> ''application/octet-stream''"
  obtain r t where u: "upload_paper sha nfkc mx pid user file filename ?ct None (pl_service (ap_pipe a)) = (r, t)" by fastforce
  let ?s = "(ap_pipe a)\<lparr>pl_service := t\<rparr>"
  have "app_ok (a\<lparr>ap_pipe := ?s\<rparr>)"
  proof (cases "sv_db t = app_db a")
    case True
    then have t: "t = (pl_service (ap_pipe a))\<lparr>sv_blobs := sv_blobs t\<rparr>" by (simp add: app_db_def)
    have "pipe_ok ?s" using assms(1) pipe_ok_blobs [where s = "ap_pipe a" and b = "sv_blobs t"] t by (simp add: app_ok_def)
    then show ?thesis using assms(1) True by (simp add: app_ok_def app_db_def)
  next
    case False
    then obtain p where p: "p_id p = pid" "sv_db t = (app_db a)\<lparr>db_papers := db_papers (app_db a) @ [p]\<rparr>"
      using upload_paper_tables [OF u] by (auto simp: app_db_def)
    have t: "t = (pl_service (ap_pipe a))\<lparr>sv_db := (app_db a)\<lparr>db_papers := db_papers (app_db a) @ [p]\<rparr>, sv_blobs := sv_blobs t\<rparr>"
      using p(2) by simp
    have "pipe_ok ?s"
      using pipe_ok_new_paper [of "ap_pipe a" p "sv_blobs t"] assms t p(1) by (simp add: app_ok_def app_db_def paper_ids_def)
    moreover have "paper_ids (app_db a) \<subseteq> paper_ids (sv_db t)" by (auto simp: paper_ids_def p(2))
    ultimately show ?thesis using assms(1) by (auto simp: app_ok_def app_db_def list_all_iff)
  qed
  then show ?thesis using False u by (cases r) (simp_all add: upload_def Let_def)
qed (use assms in \<open>simp add: upload_def\<close>)

lemma delete_tables:
  assumes "get_paper (sv_db s) user pid = Inr p"
  shows "sv_db (snd (delete_paper_row user pid s)) = delete_row pid (sv_db s)"
  using assms by (auto simp: delete_paper_row_def Let_def split: prod.splits sum.splits)

lemma app_ok_delete:
  assumes "app_ok a"
  shows "app_ok (snd (delete_one user pid a))"
proof (cases "get_paper (app_db a) user pid")
  case (Inr p)
  let ?t = "snd (delete_paper_row user pid (pl_service (ap_pipe a)))"
  have db: "sv_db ?t = delete_row pid (app_db a)" using delete_tables [of "pl_service (ap_pipe a)"] Inr by (simp add: app_db_def)
  have ids: "paper_ids (delete_row pid (app_db a)) = paper_ids (app_db a) - {pid}" by (auto simp: delete_row_def paper_ids_def)
  have d: "snd (delete_one user pid a) = cascade pid (a\<lparr>ap_pipe := (ap_pipe a)\<lparr>pl_service := ?t\<rparr>\<rparr>)"
    using Inr by (simp add: delete_one_def case_prod_unfold)
  have "db_ok (delete_row pid (app_db a))"
    using assms by (simp add: app_ok_def pipe_ok_def db_ok_def app_db_def delete_row_def distinct_map_filter)
  moreover have "in_sync \<lparr>i_store = pl_store (ap_pipe a), i_bm = pl_bm (ap_pipe a), i_db = delete_row pid (app_db a)\<rparr>"
    using assms by (auto simp: app_ok_def pipe_ok_def app_db_def delete_row_def in_sync_chunks [of _ _ _ "db_of (ap_pipe a)"])
  moreover have "list_all (\<lambda>c. k_paper c \<in> paper_ids (app_db a) - {pid}) (db_chunks (delete_row pid (app_db a)))"
    using assms by (auto simp: app_ok_def pipe_ok_def app_db_def delete_row_def list_all_iff)
  ultimately show ?thesis
    using assms unfolding d by (simp add: app_ok_def pipe_ok_def cascade_def app_db_def [of "cascade _ _"] app_db_def db [unfolded app_db_def]
        ids [unfolded app_db_def]) (auto simp: list_all_iff)
qed (use assms in \<open>simp add: delete_one_def case_prod_unfold\<close>)

lemma app_reachable_ok: "app_reachable a \<Longrightarrow> app_ok a"
proof (induction rule: app_reachable.induct)
  case (fresh a)
  then show ?case by (simp add: app_ok_def pipe_ok_def db_ok_def in_sync_def store_wf_empty app_db_def)
qed (simp_all add: app_ok_upload app_ok_delete rebuild_index_ok run_at_ok)


definition empty_app :: app where
  "empty_app = \<lparr>ap_pipe = \<lparr>pl_service = \<lparr>sv_db = two_workspaces, sv_blobs = no_files\<rparr>, pl_assets = [], pl_refs = [], pl_queue = [],
      pl_store = i_store fresh_index, pl_bm = i_bm fresh_index\<rparr>,
    ap_store = empty_store, ap_next = 0, ap_entities = [], ap_results = [], ap_queue = []\<rparr>"

lemma empty_app_reachable: "app_reachable empty_app"
  by (rule app_reachable.fresh) (simp_all add: empty_app_def app_db_def two_workspaces_def)

text \<open>A worker that numbers the chunks of a document and refuses documents with more than \<open>2 ^ 128\<close> of them.\<close>

definition numbering :: "worker_env \<Rightarrow> worker_env" where
  "numbering e = e\<lparr>we_ids := word_of_nat,
     we_parse := (\<lambda>bytes. case we_parse e bytes of
        Inr d \<Rightarrow> if length (parsed_chunks d) < 2 ^ 128 then Inr d else Inl (PdfParseError []) | r \<Rightarrow> r)\<rparr>"

lemma numbering_fresh:
  assumes "we_parse (numbering e) bytes = Inr d" "db_chunks db = []"
  shows "fresh_ids (we_ids (numbering e)) d db"
proof -
  have "length (parsed_chunks d) < 2 ^ 128" using assms(1) by (auto simp: numbering_def split: sum.splits if_splits)
  moreover have "inj_on (word_of_nat :: nat \<Rightarrow> uuid) {0..<n}" if "n < 2 ^ 128" for n
    using that by (intro inj_onI) (auto simp: word_of_nat_eq_iff take_bit_nat_eq_self)
  ultimately show ?thesis using assms(2) by (simp add: fresh_ids_def Let_def numbering_def distinct_map)
qed


subsection \<open>The queue empties\<close>

text \<open>How many executions a queued task can still cause.\<close>

fun task_weight :: "task \<times> nat \<Rightarrow> nat" where
  "task_weight (ProcessPaper _, _) = 11"
| "task_weight (EmbedPaper _, n) = Suc (MAX_EMBED_RETRIES - n)"
| "task_weight (_, n) = Suc (MAX_TASK_RETRIES - n)"

definition queue_weight :: "app \<Rightarrow> nat" where
  "queue_weight a = sum_list (map task_weight (ap_queue a))"

lemma process_paper_queue:
  "pl_queue (snd (process_paper parse_pdf ids pid s)) = pl_queue s
   \<or> pl_queue (snd (process_paper parse_pdf ids pid s)) = pl_queue s @ [EmbedPaper pid, BuildGraph pid, ExtractResults pid]"
  using process_outcomes [of ids pid s parse_pdf]
  by (cases "process_paper parse_pdf ids pid s") (auto simp: ended_well_def rest_of_def split: sum.splits outcome.splits)

lemma run_task_weight: "queue_weight (run_task e t n a) < queue_weight a + task_weight (t, n)"
proof (cases t)
  case (ProcessPaper pid)
  show ?thesis using process_paper_queue [of "we_parse e" "we_ids e" pid "(ap_pipe a)\<lparr>pl_queue := []\<rparr>"]
    by (auto simp: ProcessPaper run_task_def case_prod_unfold queue_weight_def MAX_EMBED_RETRIES_def MAX_TASK_RETRIES_def)
next
  case (EmbedPaper pid)
  show ?thesis
    by (auto simp: EmbedPaper run_task_def case_prod_unfold queue_weight_def embed_paper_def split: sum.split py_error.split)
next
  case (BuildGraph pid)
  show ?thesis
    by (auto simp: BuildGraph run_task_def build_graph_def case_prod_unfold queue_weight_def requeued_def retry_or_raise_def split: sum.split)
next
  case (ExtractResults pid)
  show ?thesis
    by (auto simp: ExtractResults run_task_def extract_results_def case_prod_unfold queue_weight_def requeued_def retry_or_raise_def
        split: sum.split)
qed

lemma run_at_weight:
  assumes "i < length (ap_queue a)"
  shows "queue_weight (run_at e i a) < queue_weight a"
proof -
  obtain t n where tn: "ap_queue a ! i = (t, n)" by fastforce
  have "ap_queue a = take i (ap_queue a) @ (t, n) # drop (Suc i) (ap_queue a)" using id_take_nth_drop [OF assms] tn by simp
  from arg_cong [OF this, of "\<lambda>q. sum_list (map task_weight q)"]
  have "queue_weight a = queue_weight (a\<lparr>ap_queue := take i (ap_queue a) @ drop (Suc i) (ap_queue a)\<rparr>) + task_weight (t, n)"
    by (simp add: queue_weight_def)
  then show ?thesis using run_task_weight [of e t n "a\<lparr>ap_queue := take i (ap_queue a) @ drop (Suc i) (ap_queue a)\<rparr>"] tn
    by (simp add: run_at_def)
qed

text \<open>Workers pick tasks of the queue in any order; the index is taken modulo the length of the queue.\<close>

fun work :: "(worker_env \<times> nat) list \<Rightarrow> app \<Rightarrow> app" where
  "work [] a = a"
| "work ((e, i) # es) a = (if ap_queue a = [] then a else work es (run_at e (i mod length (ap_queue a)) a))"

lemma work_empties: "queue_weight a \<le> length es \<Longrightarrow> ap_queue (work es a) = []"
proof (induction es arbitrary: a)
  case Nil
  have "task_weight x \<noteq> 0" for x by (induction x rule: task_weight.induct) simp_all
  with Nil show ?case by (cases "ap_queue a") (simp_all add: queue_weight_def del: split_paired_All)
next
  case (Cons x es)
  obtain e i where x: "x = (e, i)" by fastforce
  show ?case
  proof (cases "ap_queue a = []")
    case False
    then show ?thesis using Cons.IH [of "run_at e (i mod length (ap_queue a)) a"] Cons.prems
        run_at_weight [of "i mod length (ap_queue a)" a e] by (simp add: x)
  qed (simp add: x)
qed

lemma upload_weight: "queue_weight (snd (upload sha nfkc mx pid user stream filename ct a)) \<le> queue_weight a + 11"
  by (auto simp: upload_def Let_def queue_weight_def split: prod.split sum.split)

text \<open>C4: The pipeline terminates.  Whatever fails, and in whatever order workers pick the tasks, an upload causes at most
  eleven executions: the retries of every task are bounded, and so once the uploads stop the queue
  is empty after \<open>queue_weight\<close> steps.\<close>

theorem queue_drains:
  assumes "queue_weight a + 11 \<le> length es"
  shows "ap_queue (work es (snd (upload sha nfkc mx pid user stream filename ct a))) = []"
  using assms upload_weight [of sha nfkc mx pid user stream filename ct a] by (intro work_empties) linarith

text \<open>One upload, with workers and providers that answer as they like.\<close>

lemma queue_drains_witness:
  "\<forall>sha nfkc stream name e i.
     ap_queue (work (replicate 11 (e, i)) (snd (upload sha nfkc 100 7 10 stream name None empty_app))) = []"
  by (auto simp: empty_app_def queue_weight_def intro!: queue_drains)

subsection \<open>From the upload to the search\<close>

lemma index_batches_good:
  assumes "\<And>texts. \<exists>vs. embedder texts = Inr vs \<and> length vs = length texts"
  shows "\<exists>m. fst (index_batches embedder p bs n s) = Inr m"
proof (induction bs arbitrary: n s)
  case (Cons b bs)
  obtain vs where "embedder (map k_content b) = Inr vs" "length vs = length b" using assms [of "map k_content b"] by auto
  then show ?case using Cons by (simp add: index_batch_def)
qed simp

lemma index_paper_good:
  assumes "\<And>texts. \<exists>vs. embedder texts = Inr vs \<and> length vs = length texts" "0 < n"
  shows "\<exists>m. fst (index_paper embedder pid n reindex s) = Inr m"
  using assms(2) index_batches_good [OF assms(1)] by (auto simp: index_paper_def batched_def Let_def split: option.split)

lemma ids_of_paper: "map k_id (filter (\<lambda>c. k_paper c = pid) (db_chunks db)) = map fst (filter (\<lambda>x. snd x = pid) (chunk_keys db))"
  by (simp add: chunk_keys_def filter_map comp_def)


text \<open>A paper whose document has one table.\<close>

definition table_doc :: parsed_document where
  "table_doc = blank_doc\<lparr>pd_tables := [\<lparr>tb_page = 1, tb_caption = None, tb_markdown = ''| a |''\<rparr>]\<rparr>"

definition queued_app :: app where
  "queued_app = empty_app\<lparr>ap_pipe := one_embedded\<lparr>pl_service := \<lparr>sv_db = (one_db True)\<lparr>db_chunks := []\<rparr>, sv_blobs = sv_blobs (pl_service one_embedded)\<rparr>\<rparr>,
     ap_queue := [(ProcessPaper 7, 0)]\<rparr>"

definition table_worker :: "library \<Rightarrow> worker_env" where
  "table_worker lib = \<lparr>we_parse = (\<lambda>_. Inr table_doc), we_embedder = (\<lambda>texts. Inr (map (\<lambda>_. [1]) texts)), we_batch = 64, we_lib = lib,
     we_ref_id = rf_raw, we_graph_enabled = True, we_ids = (\<lambda>i. 50 + of_nat i)\<rparr>"

lemma table_chunks: "map ch_content (parsed_chunks table_doc) = [''| a |'']"
  by code_simp


end
