(* ===== verification/Accounts.thy ===== *)
theory Accounts
  imports Papers
begin

section \<open>Accounts, API keys and access (services/user_service.py, services/api_key_service.py, core/security.py, api/v1/deps.py)\<close>

text \<open>
  Registration, login, API keys with their revocation, access tokens, and the dependencies that
  decide who the caller is.  Parameters: bcrypt (a hash per call, since it is salted, and the
  check), SHA-256 as a hexadecimal digest, the random part of a key, the JWT library for the
  configured secret, identifiers of new rows and the time.
\<close>

subsection \<open>Errors (core/exceptions.py)\<close>

text \<open>The subclasses of \<open>AppError\<close>, and every other exception.\<close>

datatype app_error =
    NotFoundError string
  | ConflictError string
  | InvalidInputError string
  | UnauthorizedError string
  | ForbiddenError string
  | Unhandled py_error

definition status_code :: "app_error \<Rightarrow> nat" where
  "status_code e = (case e of NotFoundError _ \<Rightarrow> 404 | ConflictError _ \<Rightarrow> 409 | InvalidInputError _ \<Rightarrow> 422
     | UnauthorizedError _ \<Rightarrow> 401 | ForbiddenError _ \<Rightarrow> 403 | Unhandled _ \<Rightarrow> 500)"

definition error_type :: "app_error \<Rightarrow> string" where
  "error_type e = (case e of NotFoundError _ \<Rightarrow> ''not_found'' | ConflictError _ \<Rightarrow> ''conflict'' | InvalidInputError _ \<Rightarrow> ''validation_error''
     | UnauthorizedError _ \<Rightarrow> ''unauthorized'' | ForbiddenError _ \<Rightarrow> ''forbidden'' | Unhandled _ \<Rightarrow> ''internal_error'')"

text \<open>The two handlers: the message of an exception the application did not raise is never shown.\<close>

definition error_response :: "app_error \<Rightarrow> nat \<times> string \<times> string" where
  "error_response e =
     (status_code e, error_type e,
      case e of NotFoundError m \<Rightarrow> m | ConflictError m \<Rightarrow> m | InvalidInputError m \<Rightarrow> m | UnauthorizedError m \<Rightarrow> m | ForbiddenError m \<Rightarrow> m
      | Unhandled _ \<Rightarrow> ''An unexpected error occurred.'')"

subsection \<open>Tables\<close>

record user_row =
  u_id :: uuid
  u_email :: string
  u_password :: string
  u_name :: "string option"
  u_active :: bool
  u_superuser :: bool

record api_key_row =
  ak_id :: uuid
  ak_user :: uuid
  ak_name :: string
  ak_prefix :: string
  ak_hash :: string
  ak_used :: "nat option"
  ak_revoked :: "nat option"

record accounts =
  ac_users :: "user_row list"
  ac_keys :: "api_key_row list"
  ac_db :: database

subsection \<open>Users\<close>

definition get_user_by_email :: "accounts \<Rightarrow> string \<Rightarrow> user_row option" where
  "get_user_by_email s email = find (\<lambda>u. u_email u = email) (ac_users s)"

text \<open>\<open>hashed\<close> is the salted hash of the password; \<open>uid\<close> and \<open>wid\<close> are the identifiers of the new rows.\<close>

definition register_user :: "uuid \<Rightarrow> uuid \<Rightarrow> string \<Rightarrow> string \<Rightarrow> string option \<Rightarrow> accounts \<Rightarrow> (app_error + user_row) \<times> accounts" where
  "register_user uid wid hashed email full_name s =
     (if get_user_by_email s email \<noteq> None then (Inl (ConflictError ''A user with this email is already registered''), s)
      else
        let user = \<lparr>u_id = uid, u_email = email, u_password = hashed, u_name = full_name, u_active = True, u_superuser = False\<rparr> in
        (Inr user, s\<lparr>ac_users := ac_users s @ [user],
           ac_db := (ac_db s)\<lparr>db_workspaces := db_workspaces (ac_db s) @ [\<lparr>w_id = wid, w_owner = uid\<rparr>]\<rparr>\<rparr>))"

definition authenticate_user :: "(string \<Rightarrow> string \<Rightarrow> bool) \<Rightarrow> accounts \<Rightarrow> string \<Rightarrow> string \<Rightarrow> app_error + user_row" where
  "authenticate_user checkpw s email password =
     (case get_user_by_email s email of
        None \<Rightarrow> Inl (UnauthorizedError ''Incorrect email or password'')
      | Some user \<Rightarrow>
          if \<not> checkpw password (u_password user) then Inl (UnauthorizedError ''Incorrect email or password'')
          else if \<not> u_active user then Inl (UnauthorizedError ''This account is inactive'')
          else Inr user)"

subsection \<open>API keys\<close>

definition API_KEY_PREFIX :: string where "API_KEY_PREFIX = ''rma_''"

definition generate_api_key :: "(string \<Rightarrow> string) \<Rightarrow> string \<Rightarrow> string \<times> string \<times> string" where
  "generate_api_key sha random =
     (let raw = API_KEY_PREFIX @ random in (raw, take (length API_KEY_PREFIX + 8) raw, sha raw))"

text \<open>The column \<open>hashed_key\<close> is unique: inserting a hash that is there raises.\<close>

definition create_api_key :: "(string \<Rightarrow> string) \<Rightarrow> string \<Rightarrow> uuid \<Rightarrow> uuid \<Rightarrow> string \<Rightarrow> accounts \<Rightarrow> (app_error + api_key_row \<times> string) \<times> accounts" where
  "create_api_key sha random kid user name s =
     (let (raw, prefix, hashed) = generate_api_key sha random in
      if list_ex (\<lambda>k. ak_hash k = hashed) (ac_keys s) then (Inl (Unhandled (RuntimeErr ''IntegrityError'')), s)
      else
        let key = \<lparr>ak_id = kid, ak_user = user, ak_name = name, ak_prefix = prefix, ak_hash = hashed, ak_used = None, ak_revoked = None\<rparr> in
        (Inr (key, raw), s\<lparr>ac_keys := ac_keys s @ [key]\<rparr>))"

text \<open>\<open>ORDER BY created_at DESC\<close>: rows are kept in the order of their creation.\<close>

definition list_api_keys :: "accounts \<Rightarrow> uuid \<Rightarrow> api_key_row list" where
  "list_api_keys s user = rev (filter (\<lambda>k. ak_user k = user) (ac_keys s))"

definition update_key :: "uuid \<Rightarrow> (api_key_row \<Rightarrow> api_key_row) \<Rightarrow> accounts \<Rightarrow> accounts" where
  "update_key kid f s = s\<lparr>ac_keys := map (\<lambda>k. if ak_id k = kid then f k else k) (ac_keys s)\<rparr>"

definition revoke_api_key :: "nat \<Rightarrow> uuid \<Rightarrow> uuid \<Rightarrow> accounts \<Rightarrow> (app_error + unit) \<times> accounts" where
  "revoke_api_key now user kid s =
     (case find (\<lambda>k. ak_id k = kid \<and> ak_user k = user) (ac_keys s) of
        None \<Rightarrow> (Inl (NotFoundError ''API key not found''), s)
      | Some key \<Rightarrow> (Inr (), update_key (ak_id key) (\<lambda>k. k\<lparr>ak_revoked := Some now\<rparr>) s))"

definition get_user :: "accounts \<Rightarrow> uuid \<Rightarrow> user_row option" where
  "get_user s uid = find (\<lambda>u. u_id u = uid) (ac_users s)"

definition get_user_by_api_key :: "(string \<Rightarrow> string) \<Rightarrow> nat \<Rightarrow> string \<Rightarrow> accounts \<Rightarrow> user_row option \<times> accounts" where
  "get_user_by_api_key sha now raw s =
     (case find (\<lambda>k. ak_hash k = sha raw) (ac_keys s) of
        None \<Rightarrow> (None, s)
      | Some key \<Rightarrow>
          if ak_revoked key \<noteq> None then (None, s)
          else (get_user s (ak_user key), update_key (ak_id key) (\<lambda>k. k\<lparr>ak_used := Some now\<rparr>) s))"

subsection \<open>Times read from a token\<close>

text \<open>\<open>datetime.fromtimestamp\<close>, in seconds: the years 1 to 9999, within 64 bits.\<close>

definition timestamp :: "pyval \<Rightarrow> int res" where
  "timestamp v =
     (let check = (\<lambda>t::int. if 2 ^ 63 \<le> \<bar>t\<bar> then Inl OverflowErr
            else if t < - 62135596800 \<or> 253402300799 < t then Inl (ValueError ''year is out of range'') else Inr t) in
      case v of
        PyInt i \<Rightarrow> check i
      | PyBool b \<Rightarrow> check (if b then 1 else 0)
      | PyFloat (Fin r) \<Rightarrow> check \<lfloor>r\<rfloor>
      | PyFloat NaN \<Rightarrow> Inl (ValueError ''cannot convert float NaN to integer'')
      | PyFloat _ \<Rightarrow> Inl OverflowErr
      | _ \<Rightarrow> Inl (TypeErr ''a number is required''))"

subsection \<open>Access tokens\<close>

record jwt =
  jwt_encode :: "(string, pyval) dict \<Rightarrow> string"
  jwt_decode :: "string \<Rightarrow> (string, pyval) dict option"

definition token_payload :: "uuid \<Rightarrow> int \<Rightarrow> (string, pyval) dict" where
  "token_payload uid expire = [(''sub'', PyStr (str_uuid uid)), (''exp'', PyInt expire)]"

definition create_access_token :: "jwt \<Rightarrow> int \<Rightarrow> int \<Rightarrow> uuid \<Rightarrow> string" where
  "create_access_token j now minutes uid = jwt_encode j (token_payload uid (now + 60 * minutes))"

datatype token_error = InvalidTokenError string | TokenCrash py_error

text \<open>\<open>KeyError\<close> and \<open>ValueError\<close> become an \<open>InvalidTokenError\<close>; \<open>uuid.UUID\<close> of no string is an \<open>AttributeError\<close>.\<close>

definition token_part :: "'a res \<Rightarrow> token_error + 'a" where
  "token_part r = (case r of Inr x \<Rightarrow> Inr x | Inl KeyError \<Rightarrow> Inl (InvalidTokenError ''Malformed token payload'')
     | Inl (ValueError _) \<Rightarrow> Inl (InvalidTokenError ''Malformed token payload'') | Inl e \<Rightarrow> Inl (TokenCrash e))"

definition decode_access_token :: "jwt \<Rightarrow> string \<Rightarrow> token_error + uuid \<times> int" where
  "decode_access_token j token =
     (case jwt_decode j token of
        None \<Rightarrow> Inl (InvalidTokenError ''Invalid or expired token'')
      | Some payload \<Rightarrow> token_part
          (bind_res (case dget payload ''sub'' of None \<Rightarrow> Inl KeyError | Some (PyStr s) \<Rightarrow> py_uuid s | Some _ \<Rightarrow> Inl (RuntimeErr ''AttributeError'')) (\<lambda>sub.
           bind_res (case dget payload ''exp'' of None \<Rightarrow> Inl KeyError | Some v \<Rightarrow> timestamp v) (\<lambda>t.
           Inr (sub, t)))))"

subsection \<open>The caller\<close>

definition get_current_user ::
    "jwt \<Rightarrow> (string \<Rightarrow> string) \<Rightarrow> nat \<Rightarrow> string option \<Rightarrow> string option \<Rightarrow> accounts \<Rightarrow> (app_error + user_row) \<times> accounts" where
  "get_current_user j sha now token api_key s =
     (case token of
        Some t \<Rightarrow>
          (case decode_access_token j t of
             Inl (InvalidTokenError m) \<Rightarrow> (Inl (UnauthorizedError m), s)
           | Inl (TokenCrash e) \<Rightarrow> (Inl (Unhandled e), s)
           | Inr (sub, _) \<Rightarrow>
               (case get_user s sub of None \<Rightarrow> (Inl (UnauthorizedError ''User no longer exists''), s) | Some u \<Rightarrow> (Inr u, s)))
      | None \<Rightarrow>
          (case api_key of
             Some raw \<Rightarrow>
               (case get_user_by_api_key sha now raw s of
                  (None, s) \<Rightarrow> (Inl (UnauthorizedError ''Invalid or revoked API key''), s)
                | (Some u, s) \<Rightarrow> (Inr u, s))
           | None \<Rightarrow> (Inl (UnauthorizedError ''Not authenticated''), s)))"

definition require :: "(user_row \<Rightarrow> bool) \<Rightarrow> string \<Rightarrow> (app_error + user_row) \<times> accounts \<Rightarrow> (app_error + user_row) \<times> accounts" where
  "require P message r = (case r of (Inr u, s) \<Rightarrow> if P u then (Inr u, s) else (Inl (ForbiddenError message), s) | (Inl e, s) \<Rightarrow> (Inl e, s))"

definition get_current_active_user ::
    "jwt \<Rightarrow> (string \<Rightarrow> string) \<Rightarrow> nat \<Rightarrow> string option \<Rightarrow> string option \<Rightarrow> accounts \<Rightarrow> (app_error + user_row) \<times> accounts" where
  "get_current_active_user j sha now token api_key s = require u_active ''This account is inactive'' (get_current_user j sha now token api_key s)"

definition get_current_superuser ::
    "jwt \<Rightarrow> (string \<Rightarrow> string) \<Rightarrow> nat \<Rightarrow> string option \<Rightarrow> string option \<Rightarrow> accounts \<Rightarrow> (app_error + user_row) \<times> accounts" where
  "get_current_superuser j sha now token api_key s =
     require u_superuser ''This action requires superuser privileges'' (get_current_active_user j sha now token api_key s)"

text \<open>The endpoint \<open>/auth/login\<close>.\<close>

definition login :: "jwt \<Rightarrow> (string \<Rightarrow> string \<Rightarrow> bool) \<Rightarrow> int \<Rightarrow> int \<Rightarrow> accounts \<Rightarrow> string \<Rightarrow> string \<Rightarrow> app_error + string" where
  "login j checkpw now minutes s email password =
     bind_res (authenticate_user checkpw s email password) (\<lambda>u. Inr (create_access_token j now minutes (u_id u)))"


subsection \<open>What the operations keep\<close>

inductive account_step :: "(string \<Rightarrow> string) \<Rightarrow> accounts \<Rightarrow> accounts \<Rightarrow> bool" for sha where
  Register: "uid \<notin> u_id ` set (ac_users s) \<Longrightarrow> account_step sha s (snd (register_user uid wid hashed email full_name s))"
| CreateKey: "kid \<notin> ak_id ` set (ac_keys s) \<Longrightarrow> user \<in> u_id ` set (ac_users s) \<Longrightarrow>
    account_step sha s (snd (create_api_key sha random kid user name s))"
| RevokeKey: "account_step sha s (snd (revoke_api_key now user kid s))"
| UseKey: "account_step sha s (snd (get_user_by_api_key sha now raw s))"

definition no_accounts :: "database \<Rightarrow> accounts" where
  "no_accounts db = \<lparr>ac_users = [], ac_keys = [], ac_db = db\<rparr>"

definition accounts_ok :: "accounts \<Rightarrow> bool" where
  "accounts_ok s \<longleftrightarrow> distinct (map u_id (ac_users s)) \<and> distinct (map u_email (ac_users s))
     \<and> distinct (map ak_id (ac_keys s)) \<and> distinct (map ak_hash (ac_keys s))
     \<and> ak_user ` set (ac_keys s) \<subseteq> u_id ` set (ac_users s)
     \<and> u_id ` set (ac_users s) \<subseteq> w_owner ` set (db_workspaces (ac_db s))"

lemma no_accounts_ok [inv_intros]: "accounts_ok (no_accounts db)"
  by (simp add: accounts_ok_def no_accounts_def)

lemma find_None: "find P xs = None \<longleftrightarrow> (\<forall>x \<in> set xs. \<not> P x)"
  by (auto simp: find_None_iff)

lemma find_SomeD: "find P xs = Some x \<Longrightarrow> x \<in> set xs \<and> P x"
  by (auto simp: find_Some_iff)

lemma find_unique: "distinct (map f xs) \<Longrightarrow> x \<in> set xs \<Longrightarrow> find (\<lambda>y. f y = f x) xs = Some x"
  by (induction xs) (auto simp: image_iff)

lemma register_ok [inv_intros]:
  "accounts_ok s \<Longrightarrow> uid \<notin> u_id ` set (ac_users s) \<Longrightarrow> accounts_ok (snd (register_user uid wid hashed email full_name s))"
  by (auto simp: accounts_ok_def register_user_def get_user_by_email_def Let_def find_None)

lemma create_key_ok [inv_intros]:
  "accounts_ok s \<Longrightarrow> kid \<notin> ak_id ` set (ac_keys s) \<Longrightarrow> user \<in> u_id ` set (ac_users s) \<Longrightarrow>
   accounts_ok (snd (create_api_key sha random kid user name s))"
  by (auto simp: accounts_ok_def create_api_key_def generate_api_key_def Let_def list_ex_iff)

text \<open>An update of a key that keeps its identity keeps the invariant.\<close>

definition keeps_identity :: "(api_key_row \<Rightarrow> api_key_row) \<Rightarrow> bool" where
  "keeps_identity f \<longleftrightarrow> (\<forall>k. ak_id (f k) = ak_id k \<and> ak_user (f k) = ak_user k \<and> ak_hash (f k) = ak_hash k)"

lemma keeps_identity_updates [simp]: "keeps_identity (\<lambda>k. k\<lparr>ak_revoked := r\<rparr>)" "keeps_identity (\<lambda>k. k\<lparr>ak_used := r\<rparr>)"
  by (simp_all add: keeps_identity_def)

lemma update_key_fields:
  assumes "keeps_identity f"
  shows "map ak_id (ac_keys (update_key kid f s)) = map ak_id (ac_keys s)"
    and "map ak_user (ac_keys (update_key kid f s)) = map ak_user (ac_keys s)"
    and "map ak_hash (ac_keys (update_key kid f s)) = map ak_hash (ac_keys s)"
    and "ac_users (update_key kid f s) = ac_users s" "ac_db (update_key kid f s) = ac_db s"
  using assms by (auto simp: update_key_def keeps_identity_def)

lemma update_key_ok [inv_intros]: "accounts_ok s \<Longrightarrow> keeps_identity f \<Longrightarrow> accounts_ok (update_key kid f s)"
  using update_key_fields [of f kid s] unfolding accounts_ok_def by (metis list.set_map)

lemma account_step_ok: "account_step sha s t \<Longrightarrow> accounts_ok s \<Longrightarrow> accounts_ok t"
proof (induction rule: account_step.induct)
  case (RevokeKey s now user kid)
  then show ?case by (auto simp: revoke_api_key_def update_key_ok split: option.split)
next
  case (UseKey s now raw)
  then show ?case by (auto simp: get_user_by_api_key_def update_key_ok split: option.split)
qed (auto intro: register_ok create_key_ok)

subsection \<open>Revocable credentials\<close>

text \<open>
  The contract of a store of credentials: whom a credential stands for, which ones are revoked, and
  that no operation revives or reassigns one.
\<close>

locale credential_store =
  fixes ok :: "'s \<Rightarrow> bool" and steps :: "'s \<Rightarrow> 's \<Rightarrow> bool" and holder :: "'s \<Rightarrow> 'c \<Rightarrow> 'u option" and revoked :: "'s \<Rightarrow> 'c \<Rightarrow> bool"
  assumes step_ok: "ok s \<Longrightarrow> steps s t \<Longrightarrow> ok t"
    and revoked_step: "ok s \<Longrightarrow> revoked s c \<Longrightarrow> steps s t \<Longrightarrow> revoked t c"
    and revoked_holder: "ok s \<Longrightarrow> revoked s c \<Longrightarrow> holder s c = None"
    and holder_step: "ok s \<Longrightarrow> holder s c = Some u \<Longrightarrow> steps s t \<Longrightarrow> holder t c = Some u \<or> revoked t c"
begin

lemma run_ok: "steps\<^sup>*\<^sup>* s t \<Longrightarrow> ok s \<Longrightarrow> ok t"
  by (induction rule: rtranclp_induct) (auto intro: step_ok)

lemma revoked_run: "steps\<^sup>*\<^sup>* s t \<Longrightarrow> ok s \<Longrightarrow> revoked s c \<Longrightarrow> revoked t c \<and> holder t c = None"
proof (induction rule: rtranclp_induct)
  case base
  then show ?case by (simp add: revoked_holder)
next
  case (step t v)
  then have "ok t" "revoked t c" by (simp_all add: run_ok)
  then have "revoked v c" "ok v" using step.hyps(2) by (auto intro: revoked_step step_ok)
  then show ?case by (simp add: revoked_holder)
qed

lemma holder_run: "steps\<^sup>*\<^sup>* s t \<Longrightarrow> ok s \<Longrightarrow> holder s c = Some u \<Longrightarrow> holder t c = Some u \<or> revoked t c"
proof (induction rule: rtranclp_induct)
  case (step t v)
  then have "ok t" by (simp add: run_ok)
  then show ?case using step holder_step revoked_step by blast
qed simp

lemma never_reassigned:
  "steps\<^sup>*\<^sup>* s t \<Longrightarrow> ok s \<Longrightarrow> holder s c = Some u \<Longrightarrow> holder t c = Some v \<Longrightarrow> v = u"
  using holder_run [of s t c u] revoked_holder [of t c] run_ok [of s t] by auto

end

definition key_holder :: "accounts \<Rightarrow> string \<Rightarrow> uuid option" where
  "key_holder s h =
     (case find (\<lambda>k. ak_hash k = h) (ac_keys s) of
        None \<Rightarrow> None | Some k \<Rightarrow> if ak_revoked k \<noteq> None then None else map_option u_id (get_user s (ak_user k)))"

definition key_revoked :: "accounts \<Rightarrow> string \<Rightarrow> bool" where
  "key_revoked s h \<longleftrightarrow> list_ex (\<lambda>k. ak_hash k = h \<and> ak_revoked k \<noteq> None) (ac_keys s)"

text \<open>A user is found again after a step, under the same key of the row.\<close>

lemma get_user_register:
  "uid \<notin> u_id ` set (ac_users s) \<Longrightarrow> get_user s v = Some u \<Longrightarrow> get_user (snd (register_user uid wid hashed email full_name s)) v = Some u"
proof -
  have app: "find P (xs @ ys) = (case find P xs of None \<Rightarrow> find P ys | Some x \<Rightarrow> Some x)" for P :: "user_row \<Rightarrow> bool" and xs ys
    by (induction xs) auto
  assume "get_user s v = Some u"
  then show ?thesis by (simp add: get_user_def register_user_def Let_def app)
qed

lemma find_key_snoc:
  "find (\<lambda>k. ak_hash k = h) (ks @ [k]) = (case find (\<lambda>k. ak_hash k = h) ks of None \<Rightarrow> if ak_hash k = h then Some k else None | Some j \<Rightarrow> Some j)"
  by (induction ks) auto

lemma find_key_update:
  "keeps_identity f \<Longrightarrow> find (\<lambda>k. ak_hash k = h) (ac_keys (update_key kid f s))
     = map_option (\<lambda>k. if ak_id k = kid then f k else k) (find (\<lambda>k. ak_hash k = h) (ac_keys s))"
proof -
  assume f: "keeps_identity f"
  have "find (\<lambda>k. ak_hash k = h) (map (\<lambda>k. if ak_id k = kid then f k else k) ks)
     = map_option (\<lambda>k. if ak_id k = kid then f k else k) (find (\<lambda>k. ak_hash k = h) ks)" for ks
    using f by (induction ks) (auto simp: keeps_identity_def)
  then show ?thesis by (simp add: update_key_def)
qed

lemma key_revoked_find:
  assumes "accounts_ok s"
  shows "key_revoked s h \<longleftrightarrow> (\<exists>k. find (\<lambda>k. ak_hash k = h) (ac_keys s) = Some k \<and> ak_revoked k \<noteq> None)"
proof
  assume "key_revoked s h"
  then obtain k where k: "k \<in> set (ac_keys s)" "ak_hash k = h" "ak_revoked k \<noteq> None" by (auto simp: key_revoked_def list_ex_iff)
  have "find (\<lambda>j. ak_hash j = ak_hash k) (ac_keys s) = Some k"
    using assms k(1) by (intro find_unique) (simp_all add: accounts_ok_def)
  then show "\<exists>k. find (\<lambda>k. ak_hash k = h) (ac_keys s) = Some k \<and> ak_revoked k \<noteq> None" using k by auto
qed (auto simp: key_revoked_def list_ex_iff dest!: find_SomeD)

text \<open>Every step keeps the row of a hash, up to its time stamps; a revocation is never undone.\<close>

lemma step_keeps_key:
  assumes "account_step sha s t" "find (\<lambda>k. ak_hash k = h) (ac_keys s) = Some k"
  shows "\<exists>j. find (\<lambda>k. ak_hash k = h) (ac_keys t) = Some j \<and> ak_user j = ak_user k \<and> (ak_revoked k \<noteq> None \<longrightarrow> ak_revoked j \<noteq> None)"
  using assms
proof (induction rule: account_step.induct)
  case (Register uid s wid hashed email full_name)
  then show ?case by (simp add: register_user_def Let_def)
next
  case (CreateKey kid s user random name)
  then show ?case by (simp add: create_api_key_def generate_api_key_def Let_def find_key_snoc)
next
  case (RevokeKey s now user kid)
  then show ?case by (auto simp: revoke_api_key_def find_key_update split: option.split)
next
  case (UseKey s now raw)
  then show ?case by (auto simp: get_user_by_api_key_def find_key_update split: option.split)
qed

lemma step_keeps_user:
  assumes "account_step sha s t" "get_user s v = Some u"
  shows "get_user t v = Some u"
  using assms
proof (induction rule: account_step.induct)
  case (Register uid s wid hashed email full_name)
  then show ?case by (rule get_user_register)
qed (auto simp: get_user_def create_api_key_def generate_api_key_def revoke_api_key_def get_user_by_api_key_def update_key_def Let_def split: option.split)

interpretation api_keys: credential_store accounts_ok "account_step sha" key_holder key_revoked for sha :: "string \<Rightarrow> string"
proof unfold_locales
  show "accounts_ok t" if "accounts_ok s" "account_step sha s t" for s t
    using that account_step_ok by blast
  show rev: "key_revoked t h" if "accounts_ok s" "key_revoked s h" "account_step sha s t" for s t h
  proof -
    note hs = that
    from hs(1,2) obtain k where "find (\<lambda>k. ak_hash k = h) (ac_keys s) = Some k" "ak_revoked k \<noteq> None"
      by (auto simp: key_revoked_find)
    then have "\<exists>j. find (\<lambda>k. ak_hash k = h) (ac_keys t) = Some j \<and> ak_revoked j \<noteq> None"
      using step_keeps_key [OF hs(3)] by blast
    then show ?thesis using key_revoked_find [of t h] account_step_ok [OF hs(3,1)] by blast
  qed
  show "key_holder s h = None" if "accounts_ok s" "key_revoked s h" for s h
    using that by (auto simp: key_revoked_find key_holder_def)
  show "key_holder t h = Some u \<or> key_revoked t h" if "accounts_ok s" "key_holder s h = Some u" "account_step sha s t" for s t h u
  proof -
    note hs = that
    from hs(2) obtain k v where k: "find (\<lambda>k. ak_hash k = h) (ac_keys s) = Some k" "ak_revoked k = None"
        "get_user s (ak_user k) = Some v" "u_id v = u"
      by (auto simp: key_holder_def split: option.splits if_splits)
    obtain j where j: "find (\<lambda>k. ak_hash k = h) (ac_keys t) = Some j" "ak_user j = ak_user k"
      using step_keeps_key [OF hs(3) k(1)] by blast
    have "get_user t (ak_user j) = Some v" using step_keeps_user [OF hs(3) k(3)] j(2) by simp
    then show ?thesis
      using j k(4) key_revoked_find [of t h] account_step_ok [OF hs(3) hs(1)] by (cases "ak_revoked j") (auto simp: key_holder_def)
  qed
qed


subsection \<open>A concrete history\<close>

text \<open>A user registers, makes a key and revokes it; the digest is the identity here.\<close>

definition with_user :: accounts where
  "with_user = snd (register_user 1 2 ''h'' ''a@b'' None (no_accounts \<lparr>db_workspaces = [], db_papers = [], db_chunks = []\<rparr>))"

definition with_key :: accounts where
  "with_key = snd (create_api_key (\<lambda>x. x) ''x'' 3 1 ''k'' with_user)"

definition with_revoked :: accounts where
  "with_revoked = snd (revoke_api_key 5 1 3 with_key)"

lemma with_user_run: "(account_step (\<lambda>x. x))\<^sup>*\<^sup>* (no_accounts \<lparr>db_workspaces = [], db_papers = [], db_chunks = []\<rparr>) with_user"
  unfolding with_user_def by (rule r_into_rtranclp, rule Register) (simp add: no_accounts_def)

lemma with_key_run: "account_step (\<lambda>x. x) with_user with_key"
  unfolding with_key_def by (rule CreateKey) (simp_all add: with_user_def no_accounts_def register_user_def get_user_by_email_def Let_def)

lemma with_revoked_run: "account_step (\<lambda>x. x) with_key with_revoked"
  unfolding with_revoked_def by (rule RevokeKey)

lemmas history_defs = with_user_def with_key_def with_revoked_def no_accounts_def register_user_def get_user_by_email_def
  create_api_key_def generate_api_key_def API_KEY_PREFIX_def revoke_api_key_def update_key_def key_revoked_def Let_def

subsection \<open>Properties\<close>

lemma get_user_Some: "get_user s v = Some u \<Longrightarrow> u \<in> set (ac_users s) \<and> u_id u = v"
  unfolding get_user_def by (drule find_SomeD) simp

lemma key_lookup:
  assumes "get_user_by_api_key sha now raw s = (r, t)"
  shows "ac_users t = ac_users s"
    and "r = Some u \<Longrightarrow> u \<in> set (ac_users s) \<and> (\<exists>k \<in> set (ac_keys s). ak_hash k = sha raw \<and> ak_revoked k = None \<and> ak_user k = u_id u)"
  using assms by (auto simp: get_user_by_api_key_def update_key_def dest!: get_user_Some find_SomeD split: option.splits if_splits)

lemma map_option_fst: "map_option u_id (fst (get_user_by_api_key sha now raw s)) = key_holder s (sha raw)"
  by (simp add: get_user_by_api_key_def key_holder_def split: option.split)


text \<open>A token round-trips: when the JWT library decodes what it encoded, a token created for a registered
  user, expiring within the years a timestamp can hold, authenticates exactly that user.\<close>

theorem token_round_trip:
  assumes "jwt_decode j (jwt_encode j (token_payload (u_id u) (now + 60 * minutes))) = Some (token_payload (u_id u) (now + 60 * minutes))"
    and "accounts_ok s" "u \<in> set (ac_users s)" "0 \<le> now" "0 \<le> minutes" "now + 60 * minutes \<le> 253402300799"
  shows "get_current_user j sha time (Some (create_access_token j now minutes (u_id u))) key s = (Inr u, s)"
proof -
  have "timestamp (PyInt (now + 60 * minutes)) = Inr (now + 60 * minutes)"
    using assms(4-6) by (simp add: timestamp_def)
  moreover have "get_user s (u_id u) = Some u"
    unfolding get_user_def using assms(2,3) by (intro find_unique) (simp_all add: accounts_ok_def)
  moreover have "dget (token_payload v e) ''sub'' = Some (PyStr (str_uuid v))" "dget (token_payload v e) ''exp'' = Some (PyInt e)" for v e
    by (simp_all add: token_payload_def)
  ultimately show ?thesis
    by (simp add: get_current_user_def create_access_token_def decode_access_token_def assms(1) token_part_def)
qed

definition one_token :: jwt where
  "one_token = \<lparr>jwt_encode = (\<lambda>p. ''t''), jwt_decode = (\<lambda>t. if t = ''t'' then Some (token_payload 1 60) else None)\<rparr>"

theorem token_round_trip_witness:
  "get_current_user one_token (\<lambda>x. x) 0 (Some (create_access_token one_token 0 1 1)) None with_user = (Inr (hd (ac_users with_user)), with_user)"
proof -
  have "accounts_ok with_user" "ac_users with_user \<noteq> []" "u_id (hd (ac_users with_user)) = 1"
    by (simp_all add: accounts_ok_def history_defs)
  then show ?thesis
    using token_round_trip [of one_token "hd (ac_users with_user)" 0 1 with_user "\<lambda>x. x" 0 None] by (simp add: one_token_def)
qed

text \<open>C29: Keys can be revoked and are never passed on: in every reachable state a key that was revoked
  authenticates nobody, ever after; revoking a key of one's own succeeds; and a key that
  authenticates two users at two times authenticates the same one.\<close>

theorem api_keys_revocable:
  assumes "(account_step sha)\<^sup>*\<^sup>* (no_accounts db) s" "(account_step sha)\<^sup>*\<^sup>* s t"
  shows "(if key_revoked s (sha raw) then get_user_by_api_key sha now raw t = (None, t) else True)
    \<and> (case (fst (get_user_by_api_key sha now raw s), fst (get_user_by_api_key sha later raw t)) of
         (Some u, Some v) \<Rightarrow> u_id v = u_id u | _ \<Rightarrow> True)
    \<and> list_all (\<lambda>k. fst (revoke_api_key now (ak_user k) (ak_id k) s) = Inr ()
         \<and> key_revoked (snd (revoke_api_key now (ak_user k) (ak_id k) s)) (ak_hash k)) (ac_keys s)"
proof -
  have ok: "accounts_ok s" using api_keys.run_ok [OF assms(1) no_accounts_ok] .
  have okt: "accounts_ok t" using api_keys.run_ok [OF assms(2) ok] .
  have 1: "get_user_by_api_key sha now raw t = (None, t)" if "key_revoked s (sha raw)"
  proof -
    have "key_revoked t (sha raw)" using api_keys.revoked_run [OF assms(2) ok that] by simp
    then show ?thesis using key_revoked_find [OF okt] by (auto simp: get_user_by_api_key_def)
  qed
  have 2: "u_id v = u_id u"
    if "fst (get_user_by_api_key sha now raw s) = Some u" "fst (get_user_by_api_key sha later raw t) = Some v" for u v
    using api_keys.never_reassigned [OF assms(2) ok, of "sha raw" "u_id u" "u_id v"]
      map_option_fst [of sha now raw s] map_option_fst [of sha later raw t] that by simp
  have 3: "fst (revoke_api_key now (ak_user k) (ak_id k) s) = Inr () \<and> key_revoked (snd (revoke_api_key now (ak_user k) (ak_id k) s)) (ak_hash k)"
    if k: "k \<in> set (ac_keys s)" for k
  proof -
    have "find (\<lambda>j. ak_id j = ak_id k \<and> ak_user j = ak_user k) (ac_keys s) \<noteq> None" using k by (auto simp: find_None)
    then obtain j where j: "find (\<lambda>j. ak_id j = ak_id k \<and> ak_user j = ak_user k) (ac_keys s) = Some j" by blast
    then have "ak_id j = ak_id k" using find_SomeD by fastforce
    then have r: "revoke_api_key now (ak_user k) (ak_id k) s = (Inr (), update_key (ak_id k) (\<lambda>k. k\<lparr>ak_revoked := Some now\<rparr>) s)"
      by (simp add: revoke_api_key_def j)
    have "key_revoked (update_key (ak_id k) (\<lambda>k. k\<lparr>ak_revoked := Some now\<rparr>) s) (ak_hash k)"
      unfolding key_revoked_def update_key_def list_ex_iff using k by (intro bexI [of _ "k\<lparr>ak_revoked := Some now\<rparr>"]) auto
    then show ?thesis by (simp add: r)
  qed
  let ?a = "fst (get_user_by_api_key sha now raw s)" and ?b = "fst (get_user_by_api_key sha later raw t)"
  have "case (?a, ?b) of (Some u, Some v) \<Rightarrow> u_id v = u_id u | _ \<Rightarrow> True"
  proof (cases ?a; cases ?b)
    fix u v assume "?a = Some u" "?b = Some v"
    then show ?thesis using 2 [of u v] by simp
  qed simp_all
  moreover have "if key_revoked s (sha raw) then get_user_by_api_key sha now raw t = (None, t) else True" 
    unfolding if_bool_eq_conj using 1 by blast
  moreover have "list_all (\<lambda>k. fst (revoke_api_key now (ak_user k) (ak_id k) s) = Inr ()
         \<and> key_revoked (snd (revoke_api_key now (ak_user k) (ak_id k) s)) (ak_hash k)) (ac_keys s)"
    unfolding list_all_iff using 3 by blast
  ultimately show ?thesis by blast
qed

theorem api_keys_revocable_witness:
  "get_user_by_api_key (\<lambda>x. x) 9 ''rma_x'' with_revoked = (None, with_revoked)"
proof -
  have rev: "key_revoked with_revoked ''rma_x''" by (simp add: history_defs)
  have run: "(account_step (\<lambda>x. x))\<^sup>*\<^sup>* (no_accounts \<lparr>db_workspaces = [], db_papers = [], db_chunks = []\<rparr>) with_revoked"
    using with_user_run with_key_run with_revoked_run by (meson rtranclp.rtrancl_into_rtrancl)
  have "if key_revoked with_revoked ''rma_x'' then get_user_by_api_key (\<lambda>x. x) 9 ''rma_x'' with_revoked = (None, with_revoked) else True"
    by (rule conjunct1 [OF api_keys_revocable [OF run rtranclp.rtrancl_refl, where raw = "''rma_x''" and now = 9]])
  then show ?thesis using rev by (simp only: if_True)
qed

text \<open>Registration leaves nobody without a workspace, and identities stay unique: in every reachable state
  no two users share an identifier or an address, no two keys a digest, every key belongs to a
  registered user, and an upload by any of them finds a default workspace of their own.\<close>

theorem accounts_stay_consistent:
  assumes "(account_step sha)\<^sup>*\<^sup>* (no_accounts db) s"
  shows "accounts_ok s
    \<and> list_all (\<lambda>u. case get_default_workspace (ac_db s) (u_id u) of Inr w \<Rightarrow> w_owner w = u_id u | Inl _ \<Rightarrow> False) (ac_users s)"
proof -
  have ok: "accounts_ok s" using api_keys.run_ok [OF assms no_accounts_ok] .
  have "case get_default_workspace (ac_db s) (u_id u) of Inr w \<Rightarrow> w_owner w = u_id u | Inl _ \<Rightarrow> False" if u: "u \<in> set (ac_users s)" for u
  proof -
    have "u_id u \<in> w_owner ` set (db_workspaces (ac_db s))" using ok u by (auto simp: accounts_ok_def)
    then show ?thesis
      by (auto simp: get_default_workspace_def find_None dest: find_SomeD split: option.split)
  qed
  then show ?thesis using ok by (simp add: list_all_iff)
qed


theorem accounts_stay_consistent_witness:
  "get_default_workspace (ac_db with_user) 1 = Inr \<lparr>w_id = 2, w_owner = 1\<rparr> \<and> accounts_ok with_user"
  using accounts_stay_consistent [OF with_user_run] by (simp add: history_defs get_default_workspace_def)

end
