(* ===== verification/Middleware.thy ===== *)
theory Middleware
  imports PyVal
begin

section \<open>The HTTP middleware (core/middleware.py, labels of core/metrics.py)\<close>

text \<open>
  An ASGI application is a function from the scope of a request to the messages it sends and the
  exception it may end with; a middleware maps applications to applications.  Header names and
  values are Latin-1 strings.  \<open>MutableHeaders\<close> compares names without regard to case and appends
  at the end.  The fresh identifier of a request is a parameter.
\<close>

datatype message = Start nat "(string \<times> string) list" | Body string | OtherMessage

record scope =
  sc_type :: string
  sc_method :: "string option"
  sc_path :: "string option"
  sc_headers :: "(string \<times> string) list"
  sc_route :: "string option"

type_synonym app = "scope \<Rightarrow> message list \<times> py_error option"

definition REQUEST_ID_HEADER :: string where "REQUEST_ID_HEADER = ''x-request-id''"

definition SECURITY_HEADERS :: "(string \<times> string) list" where
  "SECURITY_HEADERS =
     [(''x-content-type-options'', ''nosniff''),
      (''x-frame-options'', ''DENY''),
      (''referrer-policy'', ''no-referrer''),
      (''cross-origin-opener-policy'', ''same-origin''),
      (''content-security-policy'', ''default-src '' @ [CHR 0x27] @ ''none'' @ [CHR 0x27] @ ''; frame-ancestors '' @ [CHR 0x27] @ ''none'' @ [CHR 0x27] @ ''; sandbox''),
      (''permissions-policy'', ''geolocation=(), microphone=(), camera=()'')]"

definition is_http :: "scope \<Rightarrow> bool" where
  "is_http s \<longleftrightarrow> sc_type s = ''http''"

text \<open>Rewriting the headers of the response as it is sent.\<close>

fun with_headers :: "((string \<times> string) list \<Rightarrow> (string \<times> string) list) \<Rightarrow> message \<Rightarrow> message" where
  "with_headers f (Start status hs) = Start status (f hs)"
| "with_headers f m = m"

definition rewrite :: "((string \<times> string) list \<Rightarrow> (string \<times> string) list) \<Rightarrow> message list \<times> py_error option \<Rightarrow> message list \<times> py_error option" where
  "rewrite f r = (map (with_headers f) (fst r), snd r)"

subsection \<open>Request identifiers\<close>

definition is_alnum :: "char \<Rightarrow> bool" where
  "is_alnum c \<longleftrightarrow> is_word c \<and> c \<noteq> CHR ''_''"

definition acceptable_id :: "string \<Rightarrow> bool" where
  "acceptable_id v \<longleftrightarrow> 0 < length v \<and> length v \<le> 128 \<and> filter (\<lambda>c. c \<noteq> CHR ''-'') v \<noteq> []
     \<and> list_all is_alnum (filter (\<lambda>c. c \<noteq> CHR ''-'') v)"

definition inbound_request_id :: "scope \<Rightarrow> string option" where
  "inbound_request_id s =
     find acceptable_id (map (\<lambda>(k, v). strip v) (filter (\<lambda>(k, v). lower k = REQUEST_ID_HEADER) (sc_headers s)))"

definition request_id :: "string \<Rightarrow> scope \<Rightarrow> string" where
  "request_id fresh s = (case inbound_request_id s of Some (c # v) \<Rightarrow> c # v | _ \<Rightarrow> fresh)"

definition request_context :: "string \<Rightarrow> app \<Rightarrow> app" where
  "request_context fresh app s =
     (if \<not> is_http s then app s else rewrite (\<lambda>hs. hs @ [(REQUEST_ID_HEADER, request_id fresh s)]) (app s))"

text \<open>The status of the log line: that of the last start message, 500 when there was none.\<close>

definition completed_status :: "message list \<Rightarrow> nat" where
  "completed_status ms = fold (\<lambda>m st. case m of Start n _ \<Rightarrow> n | _ \<Rightarrow> st) ms 500"

subsection \<open>Security headers\<close>

definition has_header :: "string \<Rightarrow> (string \<times> string) list \<Rightarrow> bool" where
  "has_header name hs \<longleftrightarrow> list_ex (\<lambda>(k, v). lower k = name) hs"

definition add_security_headers :: "(string \<times> string) list \<Rightarrow> (string \<times> string) list" where
  "add_security_headers hs = fold (\<lambda>(n, v) hs. if has_header n hs then hs else hs @ [(n, v)]) SECURITY_HEADERS hs"

definition security_headers :: "app \<Rightarrow> app" where
  "security_headers app s = (if \<not> is_http s then app s else rewrite add_security_headers (app s))"

subsection \<open>The size of the body\<close>

definition is_ascii_space :: "char \<Rightarrow> bool" where
  "is_ascii_space c \<longleftrightarrow> code_pt c = 32 \<or> (9 \<le> code_pt c \<and> code_pt c \<le> 13)"

fun decimal_value :: "bool \<Rightarrow> nat \<Rightarrow> string \<Rightarrow> nat option" where
  "decimal_value ok n [] = (if ok then Some n else None)"
| "decimal_value ok n (c # s) =
     (if c = CHR ''_'' then (if ok then decimal_value False n s else None)
      else if is_digit c then decimal_value True (10 * n + (code_pt c - 48)) s
      else None)"

text \<open>\<open>int(b)\<close> of bytes: blanks, a sign, digits with single underscores, no more than 4300 digits.\<close>

definition int_of_bytes :: "string \<Rightarrow> int option" where
  "int_of_bytes b =
     (let s = strip_by is_ascii_space b;
          (sign, s) = (case s of c # t \<Rightarrow> if c = CHR ''-'' then (- 1, t) else if c = CHR ''+'' then (1, t) else (1, s) | [] \<Rightarrow> (1, s)) in
      if 4300 < length (filter is_digit s) then None else map_option (\<lambda>n. sign * int n) (decimal_value False 0 s))"

definition content_length :: "scope \<Rightarrow> int option" where
  "content_length s =
     (case filter (\<lambda>(k, v). lower k = ''content-length'') (sc_headers s) of [] \<Rightarrow> None | (k, v) # _ \<Rightarrow> int_of_bytes v)"

definition reject :: "nat \<Rightarrow> string \<Rightarrow> message list \<times> py_error option" where
  "reject status message =
     (let q = [CHR 0x22];
          body = ''{'' @ q @ ''error'' @ q @ '':{'' @ q @ ''type'' @ q @ '':'' @ q @ ''payload_too_large'' @ q @ '','' @ q @ ''message'' @ q @ '':'' @ q @ message @ q @ ''}}'' in
      ([Start status [(''content-type'', ''application/json''), (''content-length'', str_nat (length body))], Body body], None))"

definition body_size_limit :: "int \<Rightarrow> app \<Rightarrow> app" where
  "body_size_limit max_bytes app s =
     (if \<not> is_http s then app s
      else case content_length s of
        Some n \<Rightarrow> if max_bytes < n then reject 413 ''Request body too large'' else app s
      | None \<Rightarrow> app s)"

text \<open>\<open>install\<close>: what is added last runs first.\<close>

definition install :: "int \<Rightarrow> bool \<Rightarrow> string \<Rightarrow> app \<Rightarrow> app" where
  "install max_bytes hardened fresh app =
     request_context fresh ((if hardened then security_headers else (\<lambda>a. a)) (body_size_limit max_bytes app))"

subsection \<open>Labels of the metrics (core/metrics.py)\<close>

definition route_template :: "scope \<Rightarrow> string" where
  "route_template s = (case sc_route s of Some (c # t) \<Rightarrow> c # t | _ \<Rightarrow> ''unmatched'')"

definition status_class :: "nat \<Rightarrow> string" where
  "status_class n = str_nat (n div 100) @ ''xx''"

text \<open>The labels of a request: method, route and class of the status.\<close>

definition request_labels :: "scope \<Rightarrow> message list \<Rightarrow> string \<times> string \<times> string" where
  "request_labels s ms =
     ((case sc_method s of None \<Rightarrow> ''GET'' | Some m \<Rightarrow> m), route_template s, status_class (completed_status ms))"

subsection \<open>Headers of every response\<close>

definition values_of :: "string \<Rightarrow> (string \<times> string) list \<Rightarrow> string list" where
  "values_of name hs = map snd (filter (\<lambda>(k, v). lower k = name) hs)"

lemma has_header_values: "has_header n hs \<longleftrightarrow> values_of n hs \<noteq> []"
  by (auto simp: has_header_def values_of_def list_ex_iff filter_empty_conv)

lemma values_of_snoc: "values_of n (hs @ [(m, v)]) = values_of n hs @ (if lower m = n then [v] else [])"
  by (simp add: values_of_def)

lemma add_headers_values:
  assumes "distinct (map fst ks)" "list_all (\<lambda>(n, v). lower n = n) ks"
  shows "values_of m (fold (\<lambda>(n, v) hs. if has_header n hs then hs else hs @ [(n, v)]) ks hs)
    = (case map_of ks m of None \<Rightarrow> values_of m hs | Some v \<Rightarrow> if values_of m hs = [] then [v] else values_of m hs)"
  using assms
proof (induction ks arbitrary: hs)
  case (Cons k ks)
  obtain n v where k: "k = (n, v)" by (cases k)
  have n: "lower n = n" "n \<notin> fst ` set ks" using Cons.prems by (simp_all add: k)
  have none: "map_of ks n = None" using n(2) by (simp add: map_of_eq_None_iff)
  let ?hs = "if has_header n hs then hs else hs @ [(n, v)]"
  have hs: "values_of m ?hs = (if m = n \<and> values_of n hs = [] then [v] else values_of m hs)"
    using n(1) by (simp add: has_header_values values_of_snoc)
  have IH: "values_of m (fold (\<lambda>(n, v) hs. if has_header n hs then hs else hs @ [(n, v)]) ks ?hs)
    = (case map_of ks m of None \<Rightarrow> values_of m ?hs | Some v \<Rightarrow> if values_of m ?hs = [] then [v] else values_of m ?hs)"
    using Cons.prems by (intro Cons.IH) (simp_all add: k)
  have step: "fold (\<lambda>(n, v) hs. if has_header n hs then hs else hs @ [(n, v)]) (k # ks) hs
      = fold (\<lambda>(n, v) hs. if has_header n hs then hs else hs @ [(n, v)]) ks ?hs" by (simp add: k)
  show ?case unfolding step IH hs using none by (auto simp: k)
qed simp

lemma add_headers_prefix: "prefix hs (fold (\<lambda>(n, v) hs. if has_header n hs then hs else hs @ [(n, v)]) ks hs)"
proof (induction ks arbitrary: hs)
  case (Cons k ks)
  obtain n v where k: "k = (n, v)" by (cases k)
  have "prefix hs (if has_header n hs then hs else hs @ [(n, v)])" by simp
  from prefix_order.trans [OF this Cons.IH] show ?case unfolding k fold_Cons comp_apply prod.case .
qed simp

lemma security_names_distinct: "distinct (map fst SECURITY_HEADERS)"
  by (simp add: SECURITY_HEADERS_def)

lemma security_names_lower: "list_all (\<lambda>(n, v). lower n = n) SECURITY_HEADERS"
  by code_simp

lemma security_values:
  assumes "(n, v) \<in> set SECURITY_HEADERS"
  shows "values_of n (add_security_headers hs) = (if values_of n hs = [] then [v] else values_of n hs)"
  using assms add_headers_values [OF security_names_distinct security_names_lower, of n hs] security_names_distinct by (simp add: add_security_headers_def)

text \<open>What the middleware makes of a message of the application.\<close>

definition hardened :: "string \<Rightarrow> message \<Rightarrow> message \<Rightarrow> bool" where
  "hardened rid m m' \<longleftrightarrow>
     (case m of
        Start st hs \<Rightarrow>
          (case m' of
             Start st' hs' \<Rightarrow> st' = st \<and> prefix hs hs' \<and> last hs' = (REQUEST_ID_HEADER, rid)
               \<and> list_all (\<lambda>(n, v). values_of n hs' = (if values_of n hs = [] then [v] else values_of n hs)) SECURITY_HEADERS
           | _ \<Rightarrow> False)
      | _ \<Rightarrow> m' = m)"

lemma request_id_not_security: "(n, v) \<in> set SECURITY_HEADERS \<Longrightarrow> n \<noteq> lower REQUEST_ID_HEADER"
proof -
  have "list_all (\<lambda>(n, v). n \<noteq> lower REQUEST_ID_HEADER) SECURITY_HEADERS"
    by (simp add: SECURITY_HEADERS_def REQUEST_ID_HEADER_def lower_def lower_char_def code_pt_def)
  then show "(n, v) \<in> set SECURITY_HEADERS \<Longrightarrow> ?thesis" by (auto simp: list_all_iff)
qed

lemma hardened_rewrite:
  "hardened rid m (with_headers (\<lambda>hs. hs @ [(REQUEST_ID_HEADER, rid)]) (with_headers add_security_headers m))"
proof (cases m)
  case (Start st hs)
  have "values_of n (add_security_headers hs @ [(REQUEST_ID_HEADER, rid)]) = (if values_of n hs = [] then [v] else values_of n hs)"
    if "(n, v) \<in> set SECURITY_HEADERS" for n v
    using security_values [OF that, of hs] request_id_not_security [OF that] by (simp add: values_of_snoc)
  then show ?thesis
    using add_headers_prefix [of hs SECURITY_HEADERS] by (auto simp: Start hardened_def list_all_iff add_security_headers_def prefix_def)
qed (simp_all add: hardened_def)

lemma alnum_safe: "is_alnum c \<Longrightarrow> \<not> is_space c \<and> c \<noteq> CHR 0x22"
proof -
  assume "is_alnum c"
  then have "is_word c" by (simp add: is_alnum_def)
  then have "\<not> is_space c" "code_pt c \<noteq> 34"
    by (auto simp: is_word_def is_alpha_def is_digit_def is_space_def Let_def)
  moreover have "code_pt (CHR 0x22) = 34" by (simp add: code_pt_def)
  ultimately show ?thesis by metis
qed

lemma accepted_id_safe:
  assumes "inbound_request_id s = Some v"
  shows "length v \<le> 128" "list_all (\<lambda>c. c = CHR ''-'' \<or> \<not> is_space c \<and> c \<noteq> CHR 0x22) v"
proof -
  have v: "acceptable_id v" using assms by (auto simp: inbound_request_id_def find_Some_iff)
  then show "length v \<le> 128" by (simp add: acceptable_id_def)
  have "is_alnum c" if "c \<in> set v" "c \<noteq> CHR ''-''" for c using v that by (simp add: acceptable_id_def list_all_iff)
  then show "list_all (\<lambda>c. c = CHR ''-'' \<or> \<not> is_space c \<and> c \<noteq> CHR 0x22) v"
    using alnum_safe by (auto simp: list_all_iff)
qed

text \<open>The stack of middleware hardens every response, rejections included: a declared body above the limit is
  answered by the 413 without running the application, anything else is passed to it; every response
  keeps its status and its headers in order, gets each security header unless it has one, and ends
  with the request's identifier, which is fresh or a value the client sent of at most 128 characters
  without blanks, line breaks or quotes.\<close>

theorem responses_are_hardened:
  "let r = (if is_http s \<and> (case content_length s of Some n \<Rightarrow> max_bytes < n | None \<Rightarrow> False)
            then reject 413 ''Request body too large'' else app s); out = install max_bytes True fresh app s in
     if is_http s
     then snd out = snd r \<and> list_all2 (hardened (request_id fresh s)) (fst r) (fst out)
       \<and> (request_id fresh s = fresh \<or> length (request_id fresh s) \<le> 128
           \<and> list_all (\<lambda>c. c = CHR ''-'' \<or> \<not> is_space c \<and> c \<noteq> CHR 0x22) (request_id fresh s))
     else out = r"
proof (cases "is_http s")
  case False
  then show ?thesis by (simp add: install_def request_context_def security_headers_def body_size_limit_def)
next
  case True
  define r where "r = (if is_http s \<and> (case content_length s of Some n \<Rightarrow> max_bytes < n | None \<Rightarrow> False)
            then reject 413 ''Request body too large'' else app s)"
  have "body_size_limit max_bytes app s = r" using True by (auto simp: body_size_limit_def r_def split: option.split)
  then have out: "install max_bytes True fresh app s
      = (map (\<lambda>m. with_headers (\<lambda>hs. hs @ [(REQUEST_ID_HEADER, request_id fresh s)]) (with_headers add_security_headers m)) (fst r), snd r)"
    using True by (simp add: install_def request_context_def security_headers_def rewrite_def)
  have "request_id fresh s = fresh \<or> length (request_id fresh s) \<le> 128
      \<and> list_all (\<lambda>c. c = CHR ''-'' \<or> \<not> is_space c \<and> c \<noteq> CHR 0x22) (request_id fresh s)"
    using accepted_id_safe [of s] by (auto simp: request_id_def split: option.split list.split)
  then show ?thesis
    unfolding Let_def r_def [symmetric] out using True by (simp add: list_all2_map2 hardened_rewrite list.rel_refl_strong)
qed

text \<open>Two things the comments promise and the code does not do: a body without a readable declared length
  is never refused, however small the limit; and the method label of a request is whatever the client
  sent.\<close>

theorem limits_and_labels:
  "(if filter (\<lambda>(k, v). lower k = ''content-length'') (sc_headers s) = [] then body_size_limit max_bytes app s = app s else True)
   \<and> request_labels (s\<lparr>sc_method := Some m\<rparr>) ms = (m, route_template s, status_class (completed_status ms))"
  by (simp add: body_size_limit_def content_length_def request_labels_def route_template_def)

end
