(* ===== verification/Operations.thy ===== *)
theory Operations
  imports Worker Accounts Middleware
begin

section \<open>Metrics and operator endpoints (core/metrics.py, api/v1/endpoints/admin.py)\<close>

text \<open>
  What is recorded, as the calls made to the Prometheus client (a parameter of the program), and the
  endpoints for operators over the state of the pipeline and the accounts.  Durations are arguments.
\<close>

subsection \<open>The registry\<close>

datatype metric_kind = Counter | Histogram "real list" | Gauge

definition LATENCY_BUCKETS :: "real list" where
  "LATENCY_BUCKETS = [1/100, 5/100, 1/10, 25/100, 5/10, 1, 25/10, 5, 10, 30, 60, 120]"

definition TOKEN_BUCKETS :: "real list" where
  "TOKEN_BUCKETS = [100, 500, 1000, 2500, 5000, 10000, 25000, 50000, 100000]"

text \<open>Name, kind and labels of every metric.\<close>

definition METRICS :: "(string \<times> metric_kind \<times> string list) list" where
  "METRICS =
     [(''researchmind_http_requests_total'', Counter, [''method'', ''route'', ''status'']),
      (''researchmind_http_request_duration_seconds'', Histogram LATENCY_BUCKETS, [''method'', ''route'']),
      (''researchmind_llm_requests_total'', Counter, [''provider'', ''model'', ''outcome'']),
      (''researchmind_llm_tokens_total'', Counter, [''provider'', ''direction'']),
      (''researchmind_llm_tokens_per_request'', Histogram TOKEN_BUCKETS, [''provider'']),
      (''researchmind_retrieval_duration_seconds'', Histogram LATENCY_BUCKETS, [''stage'']),
      (''researchmind_agent_runs_total'', Counter, [''agent'', ''outcome'']),
      (''researchmind_ingestion_total'', Counter, [''status'']),
      (''researchmind_indexed_chunks'', Gauge, [])]"

datatype recording = Inc string "(string \<times> string) list" int | Observe string "(string \<times> string) list" real | SetTo string int

text \<open>Without the client every call is one of \<open>_NoOp\<close>.\<close>

definition recorded :: "bool \<Rightarrow> recording list \<Rightarrow> recording list" where
  "recorded available rs = (if available then rs else [])"

subsection \<open>What is recorded\<close>

definition outcome_label :: "bool \<Rightarrow> string" where
  "outcome_label ok = (if ok then ''success'' else ''error'')"

definition record_llm_call :: "string \<Rightarrow> string \<Rightarrow> int \<Rightarrow> int \<Rightarrow> bool \<Rightarrow> recording list" where
  "record_llm_call provider model prompt completion ok =
     [Inc ''researchmind_llm_requests_total'' [(''provider'', provider), (''model'', model), (''outcome'', outcome_label ok)] 1,
      Inc ''researchmind_llm_tokens_total'' [(''provider'', provider), (''direction'', ''prompt'')] prompt,
      Inc ''researchmind_llm_tokens_total'' [(''provider'', provider), (''direction'', ''completion'')] completion,
      Observe ''researchmind_llm_tokens_per_request'' [(''provider'', provider)] (real_of_int (prompt + completion))]"

definition record_agent_run :: "string \<Rightarrow> bool \<Rightarrow> recording list" where
  "record_agent_run agent ok = [Inc ''researchmind_agent_runs_total'' [(''agent'', agent), (''outcome'', outcome_label ok)] 1]"

definition record_ingestion :: "string \<Rightarrow> recording list" where
  "record_ingestion status = [Inc ''researchmind_ingestion_total'' [(''status'', status)] 1]"

definition set_indexed_chunks :: "int \<Rightarrow> recording list" where
  "set_indexed_chunks n = [SetTo ''researchmind_indexed_chunks'' n]"

text \<open>\<open>time_stage\<close> around a body, and \<open>observe\<close> around a function: recorded also when the body raises.\<close>

definition time_stage :: "string \<Rightarrow> real \<Rightarrow> 'a res \<times> recording list \<Rightarrow> 'a res \<times> recording list" where
  "time_stage stage elapsed body =
     (fst body, snd body @ [Observe ''researchmind_retrieval_duration_seconds'' [(''stage'', stage)] elapsed])"

definition observe :: "string \<Rightarrow> real \<Rightarrow> ('b \<Rightarrow> 'a res \<times> recording list) \<Rightarrow> 'b \<Rightarrow> 'a res \<times> recording list" where
  "observe stage elapsed f x = time_stage stage elapsed (f x)"

subsection \<open>The middleware\<close>

definition metrics_middleware :: "real \<Rightarrow> Middleware.app \<Rightarrow> scope \<Rightarrow> (message list \<times> py_error option) \<times> recording list" where
  "metrics_middleware elapsed app s =
     (let r = app s in
      (r, if \<not> is_http s then []
          else
            case request_labels s (fst r) of
              (meth, route, status) \<Rightarrow>
                [Observe ''researchmind_http_request_duration_seconds'' [(''method'', meth), (''route'', route)] elapsed,
                 Inc ''researchmind_http_requests_total'' [(''method'', meth), (''route'', route), (''status'', status)] 1]))"

text \<open>The scrape endpoint.  What the client generates is a parameter.\<close>

definition render_metrics :: "bool \<Rightarrow> string \<Rightarrow> nat \<times> string" where
  "render_metrics available exposition =
     (if available then (200, exposition) else (503, ''prometheus_client is not installed; metrics are disabled.'' @ [CHR 0x0A]))"

text \<open>\<open>install\<close>: the recorded calls of an application, and its scrape endpoint if there is one.\<close>

definition install_metrics :: "bool \<Rightarrow> string \<Rightarrow> real \<Rightarrow> Middleware.app
    \<Rightarrow> (scope \<Rightarrow> (message list \<times> py_error option) \<times> recording list) \<times> string option" where
  "install_metrics enabled path elapsed app =
     (if enabled then (metrics_middleware elapsed app, Some path) else ((\<lambda>s. (app s, [])), None))"

subsection \<open>The operator endpoints\<close>

record component_status =
  co_embedding :: string
  co_vectors :: string
  co_reranker :: string
  co_graph :: string
  co_llm :: string
  co_fallback :: "string option"
  co_metrics :: bool
  co_web :: bool

record corpus_stats =
  cp_users :: nat
  cp_workspaces :: nat
  cp_papers :: nat
  cp_status :: "(string, nat) dict"
  cp_chunks :: nat
  cp_embedded :: nat
  cp_entities :: nat
  cp_results :: nat

record index_stats =
  ix_sparse :: nat
  ix_dense :: nat
  ix_graph :: "(string, nat) dict"

record system_status =
  sy_components :: component_status
  sy_corpus :: corpus_stats
  sy_indexes :: index_stats

text \<open>\<open>_status_name\<close>\<close>

definition status_name :: "paper_status \<Rightarrow> string" where
  "status_name s = (case s of PENDING \<Rightarrow> ''pending'' | PROCESSING \<Rightarrow> ''processing'' | READY \<Rightarrow> ''ready'' | FAILED \<Rightarrow> ''failed'')"

definition papers_by_status :: "paper_row list \<Rightarrow> (string, nat) dict" where
  "papers_by_status ps = map (\<lambda>st. (status_name st, length (filter (\<lambda>p. p_status p = st) ps))) (remdups (map p_status ps))"

definition corpus_of :: "accounts \<Rightarrow> Worker.app \<Rightarrow> corpus_stats" where
  "corpus_of ac a =
     \<lparr>cp_users = length (ac_users ac), cp_workspaces = length (db_workspaces (app_db a)), cp_papers = length (db_papers (app_db a)),
      cp_status = papers_by_status (db_papers (app_db a)), cp_chunks = length (db_chunks (app_db a)),
      cp_embedded = length (filter k_embedded (db_chunks (app_db a))), cp_entities = length (ap_entities a),
      cp_results = length (ap_results a)\<rparr>"

text \<open>The caller is \<open>get_current_superuser\<close> of the request; the components are settings.\<close>

definition system_status_of :: "component_status \<Rightarrow> (app_error + user_row) \<times> accounts \<Rightarrow> Worker.app \<Rightarrow> (app_error + system_status) \<times> recording list" where
  "system_status_of components caller a =
     (case caller of
        (Inl e, _) \<Rightarrow> (Inl e, [])
      | (Inr _, ac) \<Rightarrow>
          (Inr \<lparr>sy_components = components, sy_corpus = corpus_of ac a,
                sy_indexes = \<lparr>ix_sparse = bm_size (pl_bm (ap_pipe a)), ix_dense = mem_count (pl_store (ap_pipe a)), ix_graph = counts (ap_store a)\<rparr>\<rparr>,
           set_indexed_chunks (int (bm_size (pl_bm (ap_pipe a))))))"

definition reindex_sparse :: "(app_error + user_row) \<times> accounts \<Rightarrow> Worker.app \<Rightarrow> (app_error + nat) \<times> Worker.app \<times> recording list" where
  "reindex_sparse caller a =
     (case caller of
        (Inl e, _) \<Rightarrow> (Inl e, a, [])
      | (Inr _, _) \<Rightarrow> (case rebuild_index a of (n, a) \<Rightarrow> (Inr n, a, set_indexed_chunks (int n))))"

subsection \<open>The application (main.py)\<close>

text \<open>
  \<open>create_app\<close>: the routes inside CORS, the metrics, and the middleware of \<open>install\<close>.  \<open>outer\<close> is
  the error middleware of Starlette, outside of all of them, which runs the handler registered for
  \<open>Exception\<close>; CORS and the routes are parameters too.  \<open>lifespan\<close> rebuilds the sparse index, and
  starts the server whether that succeeds or not.
\<close>

definition create_app ::
    "(Middleware.app \<Rightarrow> Middleware.app) \<Rightarrow> (Middleware.app \<Rightarrow> Middleware.app) \<Rightarrow> int \<Rightarrow> bool \<Rightarrow> bool \<Rightarrow> string \<Rightarrow> string \<Rightarrow> real
       \<Rightarrow> Middleware.app \<Rightarrow> Middleware.app" where
  "create_app outer cors max_bytes headers_on metrics path fresh elapsed routes =
     outer (install max_bytes headers_on fresh (\<lambda>s. fst (fst (install_metrics metrics path elapsed (cors routes)) s)))"

definition lifespan :: "bool \<Rightarrow> Worker.app \<Rightarrow> Worker.app" where
  "lifespan reads_tables a = (if reads_tables then snd (rebuild_index a) else a)"

text \<open>The error middleware, as documented: it answers for an exception before which nothing was sent.\<close>

definition starlette_errors :: "(nat \<times> string \<times> string \<Rightarrow> Middleware.message list) \<Rightarrow> (Middleware.app \<Rightarrow> Middleware.app) \<Rightarrow> bool" where
  "starlette_errors respond outer \<longleftrightarrow>
     (\<forall>app s e. app s = ([], Some e) \<longrightarrow> outer app s = (respond (error_response (Unhandled e)), Some e))"

text \<open>Two gaps of the stack.  The answer to an exception of a route is made outside of the middleware, so it has
  neither the security headers meant for every response nor the identifier of the request; and a body above
  the limit is refused before the metrics, which were to count every request, see it.\<close>

theorem stack_has_gaps:
  assumes "is_http s"
  shows "starlette_errors respond outer \<Longrightarrow> cors routes s = ([], Some e) \<Longrightarrow> (case content_length s of Some n \<Rightarrow> n \<le> max_bytes | None \<Rightarrow> True) \<Longrightarrow>
      create_app outer cors max_bytes headers_on metrics path fresh elapsed routes s = (respond (error_response (Unhandled e)), Some e)"
    and "content_length s = Some n \<Longrightarrow> max_bytes < n \<Longrightarrow>
      body_size_limit max_bytes (\<lambda>s. fst (metrics_middleware t inner s)) s = reject 413 ''Request body too large''"
proof -
  have "install max_bytes headers_on fresh app s = ([], Some e)"
    if "app s = ([], Some e)" "case content_length s of Some n \<Rightarrow> n \<le> max_bytes | None \<Rightarrow> True" for app :: Middleware.app
    using that assms by (auto simp: install_def request_context_def security_headers_def body_size_limit_def rewrite_def split: option.splits)
  then show "starlette_errors respond outer \<Longrightarrow> cors routes s = ([], Some e) \<Longrightarrow> (case content_length s of Some n \<Rightarrow> n \<le> max_bytes | None \<Rightarrow> True) \<Longrightarrow>
      create_app outer cors max_bytes headers_on metrics path fresh elapsed routes s = (respond (error_response (Unhandled e)), Some e)"
    by (simp add: create_app_def starlette_errors_def install_metrics_def metrics_middleware_def Let_def)
qed (use assms in \<open>simp add: body_size_limit_def\<close>)

subsection \<open>Only declared series are touched\<close>

text \<open>The client refuses a name or labels that were not declared.\<close>

definition declared :: "recording \<Rightarrow> bool" where
  "declared r =
     (case r of
        Inc n ls k \<Rightarrow> (case dget METRICS n of Some (Counter, names) \<Rightarrow> map fst ls = names | _ \<Rightarrow> False)
      | Observe n ls x \<Rightarrow> (case dget METRICS n of Some (Histogram _, names) \<Rightarrow> map fst ls = names | _ \<Rightarrow> False)
      | SetTo n k \<Rightarrow> (case dget METRICS n of Some (Gauge, names) \<Rightarrow> names = [] | _ \<Rightarrow> False))"

text \<open>Instrumentation is harmless.  Every call that any recorder makes names a declared metric of its kind with
  exactly the declared labels; the middleware changes neither the messages nor the exception of a
  response, records a latency and a count for every HTTP request, also for one that raised, nothing for other
  traffic, and its labels do not depend on the path or the headers, so the identifiers in an address
  create no new series; timing a stage changes no result.\<close>

theorem instrumentation_is_harmless:
  "list_all declared (record_llm_call provider model pt ct ok @ record_agent_run agent ok @ record_ingestion status @ set_indexed_chunks n
     @ snd (metrics_middleware t app s) @ [Observe ''researchmind_retrieval_duration_seconds'' [(''stage'', stage)] t])
   \<and> fst (metrics_middleware t app s) = app s \<and> fst (fst (install_metrics enabled path t app) s) = app s
   \<and> length (snd (metrics_middleware t app s)) = (if is_http s then 2 else 0)
   \<and> snd (metrics_middleware t (\<lambda>_. r) (s\<lparr>sc_path := p, sc_headers := hs\<rparr>)) = snd (metrics_middleware t (\<lambda>_. r) s)
   \<and> fst (observe stage t f x) = fst (f x)
   \<and> snd (observe stage t f x) = snd (f x) @ [Observe ''researchmind_retrieval_duration_seconds'' [(''stage'', stage)] t]"
  by (simp add: declared_def METRICS_def record_llm_call_def record_agent_run_def record_ingestion_def set_indexed_chunks_def
      metrics_middleware_def install_metrics_def Let_def request_labels_def route_template_def is_http_def observe_def time_stage_def
      split: prod.split)

subsection \<open>What operators see\<close>

lemma sum_by_value: "sum_list (map (\<lambda>x. length (filter (\<lambda>y. f y = x) ys)) (remdups (map f ys))) = length ys"
proof -
  have "sum_list (map (\<lambda>x. length (filter (\<lambda>y. f y = x) ys)) xs) = length (filter (\<lambda>y. f y \<in> set xs) ys)" if "distinct xs" for xs
    using that
  proof (induction xs)
    case (Cons x xs)
    have "length (filter (\<lambda>y. f y = x) ys) + length (filter (\<lambda>y. f y \<in> set xs) ys) = length (filter (\<lambda>y. f y = x \<or> f y \<in> set xs) ys)"
      using Cons.prems by (induction ys) auto
    then show ?case using Cons by simp
  qed simp
  from this [of "remdups (map f ys)"] show ?thesis by simp
qed

lemma status_name_inj: "inj_on status_name S"
  by (rule inj_onI) (auto simp: status_name_def split: paper_status.splits)

lemma length_keys: "distinct ks \<Longrightarrow> set ks \<subseteq> dom (dget d) \<Longrightarrow> length ks \<le> length d" for ks :: "'k list" and d :: "('k, 'v) dict"
proof -
  assume ks: "distinct ks" "set ks \<subseteq> dom (dget d)"
  have "dom (dget d) = fst ` set d" by (simp add: dom_map_of_conv_image_fst)
  then have "card (set ks) \<le> card (fst ` set d)" using ks(2) by (intro card_mono) simp_all
  also have "\<dots> \<le> length d" using card_image_le [of "set d" fst] card_length [of d] by simp
  finally show "length ks \<le> length d" using ks(1) by (simp add: distinct_card)
qed

lemma embedded_counted:
  assumes "app_ok a"
  shows "length (filter k_embedded (db_chunks (app_db a))) \<le> bm_size (pl_bm (ap_pipe a))"
    and "length (filter k_embedded (db_chunks (app_db a))) \<le> mem_count (pl_store (ap_pipe a))"
proof -
  let ?ks = "map k_id (filter k_embedded (db_chunks (app_db a)))"
  have d: "distinct ?ks" using assms by (simp add: app_ok_def pipe_ok_def db_ok_def app_db_def distinct_map_filter)
  have p: "present (app_index a) (k_id c) (k_paper c)" if "c \<in> set (db_chunks (app_db a))" "k_embedded c" for c
    using assms that by (simp add: app_ok_def pipe_ok_def in_sync_def app_db_def app_index_def)
  have "set ?ks \<subseteq> dom (dget (b_docs (pl_bm (ap_pipe a))))" "set ?ks \<subseteq> dom (dget (m_records (pl_store (ap_pipe a))))"
    using p by (fastforce simp: present_def app_index_def)+
  from length_keys [OF d this(1)] length_keys [OF d this(2)]
  show "length (filter k_embedded (db_chunks (app_db a))) \<le> bm_size (pl_bm (ap_pipe a))"
    "length (filter k_embedded (db_chunks (app_db a))) \<le> mem_count (pl_store (ap_pipe a))"
    by (simp_all add: bm_size_def mem_count_def)
qed

lemma rebuild_index_exact:
  assumes "app_ok a" "rebuild_index a = (n, b)"
  shows "n = length (db_chunks (app_db a)) \<and> app_db b = app_db a \<and> bm_size (pl_bm (ap_pipe b)) = n
    \<and> set (dkeys (b_docs (pl_bm (ap_pipe b)))) = k_id ` set (db_chunks (app_db a))"
proof -
  obtain m ix where r: "rebuild_sparse_index (app_index a) = (m, ix)" by fastforce
  have b: "m = n" "b = a\<lparr>ap_pipe := (ap_pipe a)\<lparr>pl_bm := i_bm ix\<rparr>\<rparr>" using assms(2) r by (simp_all add: rebuild_index_def)
  have ok: "db_ok (app_db a)" "list_all (\<lambda>c. k_paper c \<in> paper_ids (app_db a)) (db_chunks (app_db a))"
    using assms(1) by (simp_all add: app_ok_def pipe_ok_def app_db_def)
  note new = rebuilt [of "app_index a", OF _ _ r, unfolded app_index_def, simplified, OF ok]
  have "dict_ok (b_docs (i_bm ix))"
    using fold_add_chunk_ok [of "bm_clear (pl_bm (ap_pipe a))" "rebuild_rows (app_db a)"] bm_ok_clear r
    by (auto simp: rebuild_sparse_index_def app_index_def Let_def bm_clear_def bm_ok_def)
  moreover have "dom (\<lambda>k. map_option d_paper (dget (b_docs (i_bm ix)) k)) = dom (dget (b_docs (i_bm ix)))"
    by (simp add: dom_def)
  then have "set (dkeys (b_docs (i_bm ix))) = dom (\<lambda>k. map_option d_paper (dget (b_docs (i_bm ix)) k))"
    by (simp add: dom_map_of_conv_image_fst)
  then have keys: "set (dkeys (b_docs (i_bm ix))) = k_id ` set (db_chunks (app_db a))"
    unfolding new(4) by (simp add: dom_map_of_conv_image_fst chunk_keys_def image_image)
  ultimately have "length (b_docs (i_bm ix)) = card (k_id ` set (db_chunks (app_db a)))"
    by (metis dict_ok_def distinct_card length_map)
  also have "\<dots> = length (db_chunks (app_db a))" using ok(1) by (metis db_ok_def distinct_card length_map set_map)
  finally show ?thesis using keys new(1) b by (simp add: bm_size_def app_db_def)
qed

lemma superuser_result:
  "case get_current_superuser j sha now token key ac of
     (Inr u, _) \<Rightarrow> u_active u \<and> u_superuser u | (Inl e, _) \<Rightarrow> status_code e \<in> {401, 403, 500}"
proof -
  obtain r t where g: "get_current_user j sha now token key ac = (r, t)" by fastforce
  have "case r of Inl e \<Rightarrow> status_code e \<in> {401, 500} | Inr _ \<Rightarrow> True"
    using g by (auto simp: get_current_user_def status_code_def split: option.splits sum.splits token_error.splits prod.splits)
  then show ?thesis
    by (cases r) (auto simp: get_current_superuser_def get_current_active_user_def require_def g status_code_def)
qed



end
