(* ===== verification/AgentPrompts.thy ===== *)
theory AgentPrompts
  imports Prompts
begin

section \<open>The prompts of the agents (agents/prompts.py)\<close>

text \<open>The six prompts of the research graph, with the fields the agents have to supply.\<close>

definition PLAN :: prompt where
  "PLAN =
     \<lparr>pt_name = ''agent_plan'',
      pt_system = text_lines
        [''You plan how to answer research questions over a corpus of scientific papers.'',
         [],
         ''Classify the intent as exactly one of: question, compare, literature_review, ''
          @ ''gap_analysis, summarize.'',
         ''Break the request into 1-4 focused sub-questions that can each be answered by ''
          @ ''retrieving passages. Prefer specific technical terms.'',
         [],
         ''Respond with strict JSON only, no prose, no code fences:'',
         ''{\"intent\": \"...\", \"sub_questions\": [\"...\"], \"reasoning\": \"<one sentence>\", ''
          @ ''\"needs_web_search\": false}''],
      pt_template = text_lines
        [''Request: {question}'']\<rparr>"

definition REASON :: prompt where
  "REASON =
     \<lparr>pt_name = ''agent_reason'',
      pt_system = text_lines
        [''You are a research assistant synthesizing an answer from retrieved sources.'',
         [],
         ''Rules:'',
         ''- Use ONLY the provided sources. No outside knowledge.'',
         ''- Cite every claim with its bracketed source number, e.g. [1] or [2][3].'',
         ''- When sources disagree, say so explicitly and cite both sides rather than silently ''
          @ ''picking one.'',
         ''- If the sources cannot answer the question, say so and state what is missing.'',
         ''- Quote numbers, metric names, and dataset names exactly.''],
      pt_template = text_lines
        [''Question: {question}'',
         [],
         ''Sub-questions to address:'',
         ''{sub_questions}'',
         [],
         ''Sources:'',
         ''{sources}'',
         [],
         ''Write the answer.'']\<rparr>"

definition CRITIQUE :: prompt where
  "CRITIQUE =
     \<lparr>pt_name = ''agent_critique'',
      pt_system = text_lines
        [''You critique draft answers for a research assistant. Be specific and terse.'',
         [],
         ''Look for: claims not supported by the sources, missing citations, questions left ''
          @ ''unanswered, and overstated certainty.'',
         ''Do not rewrite the answer. Do not praise it.'',
         [],
         ''Respond with strict JSON only, no prose, no code fences:'',
         ''{\"needs_revision\": true|false, \"issues\": [\"...\"], \"reason\": \"<one sentence>\"}''],
      pt_template = text_lines
        [''Question: {question}'',
         [],
         ''Sources:'',
         ''{sources}'',
         [],
         ''Draft answer:'',
         ''{answer}'']\<rparr>"

definition REVISE :: prompt where
  "REVISE =
     \<lparr>pt_name = ''agent_revise'',
      pt_system = text_lines
        [''You revise a draft answer to address specific critique.'',
         ''Fix only what the critique identifies. Keep everything already correct, including ''
          @ ''existing citations.'',
         ''Return only the revised answer.''],
      pt_template = text_lines
        [''Question: {question}'',
         [],
         ''Sources:'',
         ''{sources}'',
         [],
         ''Draft:'',
         ''{answer}'',
         [],
         ''Critique to address:'',
         ''{critique}'',
         [],
         ''Revised answer:'']\<rparr>"

definition SUMMARIZE :: prompt where
  "SUMMARIZE =
     \<lparr>pt_name = ''agent_summarize'',
      pt_system = text_lines
        [''You write concise executive summaries of research findings.'',
         ''Two to four sentences. Preserve the citation markers from the source text. No ''
          @ ''preamble.''],
      pt_template = text_lines
        [''Question: {question}'',
         [],
         ''Findings:'',
         ''{answer}'',
         [],
         ''Summary:'']\<rparr>"

definition REPORT :: prompt where
  "REPORT =
     \<lparr>pt_name = ''agent_report'',
      pt_system = text_lines
        [''You write structured literature reviews from retrieved paper passages.'',
         [],
         ''Structure the output with markdown headings:'',
         ''## Overview'',
         ''## Key Approaches'',
         ''## Findings and Evidence'',
         ''## Disagreements and Open Questions'',
         ''## Research Gaps'',
         [],
         ''Rules:'',
         ''- Cite every claim with its bracketed source number.'',
         ''- Group related work rather than listing papers one by one.'',
         ''- Note explicitly where the evidence is thin instead of padding.''],
      pt_template = text_lines
        [''Topic: {question}'',
         [],
         ''Sub-questions:'',
         ''{sub_questions}'',
         [],
         ''Sources:'',
         ''{sources}'',
         [],
         ''Write the literature review.'']\<rparr>"

text \<open>The agents supply a value for every field of their prompts.\<close>

lemma agent_prompt_fields:
  "template_fields (pt_template PLAN) = [''question'']"
  "template_fields (pt_template REASON) = [''question'', ''sub_questions'', ''sources'']"
  "template_fields (pt_template CRITIQUE) = [''question'', ''sources'', ''answer'']"
  "template_fields (pt_template REVISE) = [''question'', ''sources'', ''answer'', ''critique'']"
  "template_fields (pt_template SUMMARIZE) = [''question'', ''answer'']"
  "template_fields (pt_template REPORT) = [''question'', ''sub_questions'', ''sources'']"
  by code_simp+

lemma agent_prompts_well_formed:
  "well_formed (pt_template PLAN)" "well_formed (pt_template REASON)" "well_formed (pt_template CRITIQUE)"
  "well_formed (pt_template REVISE)" "well_formed (pt_template SUMMARIZE)" "well_formed (pt_template REPORT)"
  by code_simp+

end
