(* ===== verification/AgentState.thy ===== *)
theory AgentState
  imports Rag Tools AgentPrompts
begin

section \<open>The state of a research run (agents/state.py)\<close>

text \<open>
  The state the agents share, with its merge discipline: steps, errors and usage accumulate,
  everything else is overwritten by the agent that owns it.  Durations and the time of a step are
  not represented.  \<open>agent_context\<close> is what the agents are given: retrieval of the calling user,
  expansion over the knowledge graph, the web search tool.
\<close>

datatype agent_name =
    PLANNER | RETRIEVER | GRAPH_RETRIEVER | WEB_SEARCH | RANKER | REASONER | VERIFIER | CRITIC
  | REFLECTOR | SUMMARIZER | CITATION | REPORTER

definition agent_value :: "agent_name \<Rightarrow> string" where
  "agent_value a = (case a of
     PLANNER \<Rightarrow> ''planner'' | RETRIEVER \<Rightarrow> ''retriever'' | GRAPH_RETRIEVER \<Rightarrow> ''graph_retriever''
   | WEB_SEARCH \<Rightarrow> ''web_search'' | RANKER \<Rightarrow> ''ranker'' | REASONER \<Rightarrow> ''reasoner'' | VERIFIER \<Rightarrow> ''verifier''
   | CRITIC \<Rightarrow> ''critic'' | REFLECTOR \<Rightarrow> ''reflector'' | SUMMARIZER \<Rightarrow> ''summarizer'' | CITATION \<Rightarrow> ''citation''
   | REPORTER \<Rightarrow> ''reporter'')"

datatype intent = QUESTION | COMPARE | LITERATURE_REVIEW | GAP_ANALYSIS | SUMMARIZE_INTENT

definition intent_value :: "intent \<Rightarrow> string" where
  "intent_value i = (case i of
     QUESTION \<Rightarrow> ''question'' | COMPARE \<Rightarrow> ''compare'' | LITERATURE_REVIEW \<Rightarrow> ''literature_review''
   | GAP_ANALYSIS \<Rightarrow> ''gap_analysis'' | SUMMARIZE_INTENT \<Rightarrow> ''summarize'')"

text \<open>\<open>Intent(v)\<close>: a value no member has is a \<open>ValueError\<close>, here \<open>None\<close>.\<close>

definition intent_of :: "pyval \<Rightarrow> intent option" where
  "intent_of v = find (\<lambda>i. v = PyStr (intent_value i)) [QUESTION, COMPARE, LITERATURE_REVIEW, GAP_ANALYSIS, SUMMARIZE_INTENT]"

record step =
  sp_agent :: string
  sp_summary :: string
  sp_detail :: string

record plan =
  pl_intent :: intent
  pl_subs :: "string list"
  pl_reasoning :: string
  pl_web :: bool

record research_state =
  st_question :: string
  st_limit :: int
  st_filters :: retrieval_filters
  st_plan :: "plan option"
  st_chunks :: "retrieved_chunk list"
  st_web :: "tool_result list"
  st_paths :: "string list"
  st_draft :: string
  st_final :: string
  st_citations :: "nat list"
  st_critique :: string
  st_needs_revision :: bool
  st_revisions :: nat
  st_verification :: "verification option"
  st_confidence :: pyfloat
  st_steps :: "step list"
  st_usage :: int
  st_errors :: "string list"

definition initial_state :: "string \<Rightarrow> int \<Rightarrow> retrieval_filters \<Rightarrow> research_state" where
  "initial_state question limit fs =
     \<lparr>st_question = question, st_limit = limit, st_filters = fs, st_plan = None, st_chunks = [], st_web = [],
      st_paths = [], st_draft = [], st_final = [], st_citations = [], st_critique = [],
      st_needs_revision = False, st_revisions = 0, st_verification = None, st_confidence = Fin 0,
      st_steps = [], st_usage = 0, st_errors = []\<rparr>"

text \<open>What an agent adds to the accumulating keys.\<close>

definition record_step :: "agent_name \<Rightarrow> string \<Rightarrow> string \<Rightarrow> research_state \<Rightarrow> research_state" where
  "record_step a summary detail s =
     s\<lparr>st_steps := st_steps s @ [\<lparr>sp_agent = agent_value a, sp_summary = summary, sp_detail = detail\<rparr>]\<rparr>"

definition charge :: "usage \<Rightarrow> research_state \<Rightarrow> research_state" where
  "charge u s = s\<lparr>st_usage := st_usage s + total_tokens u\<rparr>"

text \<open>A view of the knowledge graph: the descriptions of its paths, the papers they reach, a summary.\<close>

record graph_view =
  gv_paths :: "string list"
  gv_papers :: "uuid list"
  gv_summary :: string

record agent_context =
  cx_lib :: library
  cx_retrieve :: "string \<Rightarrow> int \<Rightarrow> retrieval_filters \<Rightarrow> retrieved_chunk list res"
  cx_expand :: "string \<Rightarrow> uuid list \<Rightarrow> graph_view res"
  cx_search :: "string \<Rightarrow> tool_result list res"

end
