(* ===== verification/Agents.thy ===== *)
theory Agents
  imports AgentState
begin

section \<open>The agents (agents/agents.py)\<close>

text \<open>
  Each agent is a function of the shared state that calls the model, the retrievers or the web
  search and answers the state with the keys it changed; \<open>resilient\<close> turns an exception into a
  recorded failure.
\<close>

definition MAX_REVISIONS :: nat where "MAX_REVISIONS = 2"
definition MAX_CONTEXT_TOKENS :: int where "MAX_CONTEXT_TOKENS = 6000"

type_synonym 'w agent = "research_state \<Rightarrow> (research_state, 'w) act"

text \<open>\<open>str(exc)\<close>; the text of an exception raised by the interpreter itself is not represented.\<close>

definition exn_text :: "llm_exn \<Rightarrow> string" where
  "exn_text e = (case e of
     LLMError s \<Rightarrow> s
   | RateLimitError s \<Rightarrow> s
   | OtherExn x \<Rightarrow> (case x of ValueError s \<Rightarrow> s | TypeErr s \<Rightarrow> s | RuntimeErr s \<Rightarrow> s | _ \<Rightarrow> []))"

definition fail_step :: "agent_name \<Rightarrow> llm_exn \<Rightarrow> research_state \<Rightarrow> research_state" where
  "fail_step a e s =
     record_step a (agent_value a @ '' failed'') (take 300 (exn_text e))
       (s\<lparr>st_errors := st_errors s @ [agent_value a @ '': '' @ exn_text e]\<rparr>)"

definition resilient :: "agent_name \<Rightarrow> 'w agent \<Rightarrow> research_state \<Rightarrow> 'w llm \<Rightarrow> research_state \<times> 'w llm" where
  "resilient a body s gw =
     (case body s gw of (Inr s1, gw1) \<Rightarrow> (s1, gw1) | (Inl e, gw1) \<Rightarrow> (fail_step a e s, gw1))"

subsection \<open>Planning and retrieval\<close>

definition plan_of :: "library \<Rightarrow> string \<Rightarrow> pyval \<Rightarrow> plan res" where
  "plan_of lib question data =
     bind_res (jget ''intent'' (PyStr ''question'') data) (\<lambda>iv.
     bind_res (bind_res (jget ''sub_questions'' PyNone data) (\<lambda>v. py_list (py_or v (PyList [])))) (\<lambda>qs.
     bind_res (jget ''reasoning'' (PyStr []) data) (\<lambda>reasoning.
     bind_res (jget ''needs_web_search'' (PyBool False) data) (\<lambda>web.
     let subs = take 4 (filter (\<lambda>q. strip q \<noteq> []) (map (py_str lib) qs)) in
     Inr \<lparr>pl_intent = (case intent_of iv of None \<Rightarrow> QUESTION | Some i \<Rightarrow> i),
          pl_subs = (if subs = [] then [question] else subs),
          pl_reasoning = py_str lib reasoning, pl_web = truthy web\<rparr>))))"

definition planner_agent :: "agent_context \<Rightarrow> 'w agent" where
  "planner_agent cx s =
     bind_llm (ask PLAN [(''question'', st_question s)] 0 600) (\<lambda>c.
     bind_llm (lift_llm (plan_of (cx_lib cx) (st_question s) (parse_json_response (cx_lib cx) (c_text c)))) (\<lambda>p.
     return_llm (record_step PLANNER
       (''Planned '' @ intent_value (pl_intent p) @ '' with '' @ str_nat (length (pl_subs p)) @ '' sub-question(s)'')
       (pl_reasoning p) (charge (c_usage c) (s\<lparr>st_plan := Some p\<rparr>)))))"

definition add_unseen :: "retrieved_chunk list \<Rightarrow> retrieved_chunk \<Rightarrow> retrieved_chunk list" where
  "add_unseen merged c = (if rc_chunk c \<in> rc_chunk ` set merged then merged else merged @ [c])"

fun retrieve_queries ::
    "(string \<Rightarrow> retrieved_chunk list res) \<Rightarrow> string list \<Rightarrow> retrieved_chunk list \<Rightarrow> retrieved_chunk list res" where
  "retrieve_queries retr [] merged = Inr merged"
| "retrieve_queries retr (q # qs) merged =
     bind_res (retr q) (\<lambda>results. retrieve_queries retr qs (foldl add_unseen merged results))"

definition retriever_agent :: "agent_context \<Rightarrow> 'w agent" where
  "retriever_agent cx s =
     (let queries = (case st_plan s of Some p \<Rightarrow> pl_subs p | None \<Rightarrow> [st_question s]) in
      bind_llm (lift_llm (retrieve_queries (\<lambda>q. cx_retrieve cx q (st_limit s) (st_filters s)) queries [])) (\<lambda>merged.
      return_llm (record_step RETRIEVER
        (''Retrieved '' @ str_nat (length merged) @ '' unique passages across '' @ str_nat (length queries) @ '' quer(ies)'') []
        (s\<lparr>st_chunks := merged\<rparr>))))"

definition graph_retriever_agent :: "agent_context \<Rightarrow> 'w agent" where
  "graph_retriever_agent cx s =
     (let existing = st_chunks s in
      bind_llm (lift_llm (cx_expand cx (st_question s) (map rc_paper existing))) (\<lambda>view.
      if gv_paths view = []
      then return_llm (record_step GRAPH_RETRIEVER ''No graph connections found'' [] (s\<lparr>st_paths := []\<rparr>))
      else
        bind_llm (lift_llm (cx_retrieve cx (st_question s) (max 2 (st_limit s div 2))
                    (no_filters\<lparr>rf_paper_ids := gv_papers view\<rparr>))) (\<lambda>related.
        let added = filter (\<lambda>c. rc_chunk c \<notin> rc_chunk ` set existing) related in
        return_llm (record_step GRAPH_RETRIEVER
          (''Added '' @ str_nat (length added) @ '' passage(s) from '' @ str_nat (length (gv_papers view))
             @ '' graph-linked paper(s)'')
          (gv_summary view) (s\<lparr>st_chunks := existing @ added, st_paths := gv_paths view\<rparr>)))))"

definition web_search_agent :: "agent_context \<Rightarrow> 'w agent" where
  "web_search_agent cx s =
     (if (case st_plan s of None \<Rightarrow> True | Some p \<Rightarrow> \<not> pl_web p)
      then return_llm (record_step WEB_SEARCH ''Web search not required'' [] s)
      else
        bind_llm (lift_llm (cx_search cx (st_question s))) (\<lambda>results.
        let safe = filter (\<lambda>r. \<not> tr_flagged r) results; dropped = length results - length safe in
        return_llm (record_step WEB_SEARCH (''Fetched '' @ str_nat (length safe) @ '' external result(s)'')
          (if dropped = 0 then [] else str_nat dropped @ '' dropped as suspected prompt injection'')
          (s\<lparr>st_web := safe\<rparr>))))"

text \<open>\<open>c.rerank_score or c.score\<close>: a rerank score of zero gives way to the retrieval score.\<close>

definition rank_key :: "retrieved_chunk \<Rightarrow> real" where
  "rank_key c = (case rc_rerank_score c of None \<Rightarrow> rc_score c | Some x \<Rightarrow> if x = 0 then rc_score c else x)"

definition ranker_agent :: "agent_context \<Rightarrow> 'w agent" where
  "ranker_agent cx s =
     (if st_chunks s = [] then return_llm (record_step RANKER ''No passages to rank'' [] s)
      else
        let packed = pack_context (sort_desc rank_key (st_chunks s)) (st_question s) MAX_CONTEXT_TOKENS DEFAULT_RESERVED_TOKENS in
        return_llm (record_step RANKER
          (''Ranked and packed '' @ str_nat (length (pk_chunks packed)) @ '' passages (~'' @ str_int (pk_used packed) @ '' tokens)'')
          (if was_reduced packed
           then str_int (pk_compressed packed) @ '' compressed, '' @ str_int (pk_dropped packed) @ '' dropped'' else [])
          (s\<lparr>st_chunks := pk_chunks packed\<rparr>)))"

subsection \<open>Drafting, criticism and revision\<close>

definition bullets :: "string list \<Rightarrow> string" where
  "bullets xs = text_lines (map (\<lambda>x. ''- '' @ x) xs)"

definition reasoner_agent :: "agent_context \<Rightarrow> 'w agent" where
  "reasoner_agent cx s =
     (if st_chunks s = []
      then return_llm (record_step REASONER ''No sources available to answer'' []
             (s\<lparr>st_draft := ''I could not find anything in your library that addresses this question.''\<rparr>))
      else
        let subs = bullets (case st_plan s of Some p \<Rightarrow> pl_subs p | None \<Rightarrow> []);
            prompt = (case st_plan s of Some p \<Rightarrow> if pl_intent p = LITERATURE_REVIEW then REPORT else REASON | None \<Rightarrow> REASON);
            external = wrap_untrusted (st_web s);
            sources = format_sources (dash (cx_lib cx)) (st_chunks s)
              @ (if external = [] then [] else [CHR 0x0A, CHR 0x0A] @ external) in
        bind_llm (ask prompt [(''question'', st_question s), (''sub_questions'', subs), (''sources'', sources)]
                    TEMPERATURE 3000) (\<lambda>c.
        return_llm (record_step REASONER (''Drafted an answer from '' @ str_nat (length (st_chunks s)) @ '' sources'') []
          (charge (c_usage c) (s\<lparr>st_draft := c_text c\<rparr>)))))"

text \<open>The issues a critique lists, whether it asks for a revision, and its reason.\<close>

definition critique_of :: "library \<Rightarrow> pyval \<Rightarrow> (string list \<times> bool \<times> string) res" where
  "critique_of lib data =
     bind_res (bind_res (jget ''issues'' PyNone data) (\<lambda>v. py_list (py_or v (PyList [])))) (\<lambda>vs.
     bind_res (jget ''needs_revision'' (PyBool False) data) (\<lambda>nr.
     bind_res (jget ''reason'' (PyStr []) data) (\<lambda>reason.
     Inr (map (py_str lib) vs, truthy nr \<and> vs \<noteq> [], py_str lib reason))))"

definition critic_agent :: "agent_context \<Rightarrow> 'w agent" where
  "critic_agent cx s =
     (if st_draft s = [] \<or> st_chunks s = []
      then return_llm (record_step CRITIC ''Nothing to critique'' [] (s\<lparr>st_needs_revision := False\<rparr>))
      else
        bind_llm (ask CRITIQUE [(''question'', st_question s), (''answer'', st_draft s),
            (''sources'', format_sources (dash (cx_lib cx)) (st_chunks s))] 0 600) (\<lambda>c.
        bind_llm (lift_llm (critique_of (cx_lib cx) (parse_json_response (cx_lib cx) (c_text c)))) (\<lambda>(issues, flagged, reason).
        return_llm (record_step CRITIC
          (if issues = [] then ''No issues found'' else ''Found '' @ str_nat (length issues) @ '' issue(s)'') reason
          (charge (c_usage c) (s\<lparr>st_critique := bullets issues,
             st_needs_revision := (flagged \<and> st_revisions s < MAX_REVISIONS)\<rparr>))))))"

definition reflector_agent :: "agent_context \<Rightarrow> 'w agent" where
  "reflector_agent cx s =
     bind_llm (ask REVISE [(''question'', st_question s), (''answer'', st_draft s), (''critique'', st_critique s),
         (''sources'', format_sources (dash (cx_lib cx)) (st_chunks s))] TEMPERATURE 3000) (\<lambda>c.
     let revised = strip (c_text c) in
     return_llm (record_step REFLECTOR (''Revised the answer (pass '' @ str_nat (st_revisions s + 1) @ '')'') []
       (charge (c_usage c) (s\<lparr>st_draft := (if revised = [] then st_draft s else revised),
          st_revisions := st_revisions s + 1\<rparr>))))"

subsection \<open>Verification, citation and summary\<close>

text \<open>\<open>min(c, 0.35)\<close> and \<open>round(c, 2)\<close> of a float that may be infinite or not a number.\<close>

definition min_flagged :: "pyfloat \<Rightarrow> pyfloat" where
  "min_flagged c = (case c of Fin r \<Rightarrow> Fin (if 35 / 100 < r then 35 / 100 else r) | PosInf \<Rightarrow> Fin (35 / 100) | _ \<Rightarrow> c)"

definition py_round2 :: "pyfloat \<Rightarrow> pyfloat" where
  "py_round2 c = (case c of Fin r \<Rightarrow> Fin (round2 r) | _ \<Rightarrow> c)"

definition verifier_agent :: "agent_context \<Rightarrow> 'w agent" where
  "verifier_agent cx s =
     (if st_draft s = [] \<or> st_chunks s = []
      then return_llm (record_step VERIFIER ''Nothing to verify'' [] (s\<lparr>st_confidence := Fin 0\<rparr>))
      else
        bind_llm (verify_answer (cx_lib cx) (st_question s) (st_draft s) (st_chunks s)) (\<lambda>(v, u).
        return_llm (record_step VERIFIER
          (if v_supported v then ''Answer is supported by sources''
           else ''Flagged '' @ str_nat (length (v_unsupported v)) @ '' unsupported claim(s)'') (v_reason v)
          (charge u (s\<lparr>st_verification := Some v,
             st_confidence := py_round2 (if v_supported v then v_confidence v else min_flagged (v_confidence v))\<rparr>)))))"

definition citation_agent :: "agent_context \<Rightarrow> 'w agent" where
  "citation_agent cx s =
     (let cited = extract_citations (st_draft s) (length (st_chunks s)) in
      return_llm (record_step CITATION (''Resolved '' @ str_nat (length cited) @ '' citation(s)'')
        (if cited \<noteq> [] \<or> st_chunks s = [] then [] else ''Answer cites no sources'')
        (s\<lparr>st_final := st_draft s, st_citations := cited\<rparr>)))"

definition answer_text :: "research_state \<Rightarrow> string" where
  "answer_text s = (if st_final s = [] then st_draft s else st_final s)"

definition summarizer_agent :: "agent_context \<Rightarrow> 'w agent" where
  "summarizer_agent cx s =
     (let answer = answer_text s in
      if length answer < 1200
      then return_llm (record_step SUMMARIZER ''Answer short enough to skip'' [] s)
      else
        bind_llm (ask SUMMARIZE [(''question'', st_question s), (''answer'', answer)] TEMPERATURE 400) (\<lambda>c.
        let summary = strip (c_text c) in
        if summary = [] then return_llm (record_step SUMMARIZER ''No summary produced'' [] s)
        else return_llm (record_step SUMMARIZER ''Added an executive summary'' []
               (charge (c_usage c) (s\<lparr>st_final := ''**Summary.** '' @ summary @ [CHR 0x0A, CHR 0x0A] @ answer\<rparr>)))))"

subsection \<open>The result\<close>

definition serialize_plan :: "plan option \<Rightarrow> pyval" where
  "serialize_plan p =
     (case p of None \<Rightarrow> PyNone
      | Some p \<Rightarrow> PyDict [(''intent'', PyStr (intent_value (pl_intent p))), (''sub_questions'', PyList (map PyStr (pl_subs p))),
          (''reasoning'', PyStr (pl_reasoning p)), (''needs_web_search'', PyBool (pl_web p))])"

definition opt_val :: "('a \<Rightarrow> pyval) \<Rightarrow> 'a option \<Rightarrow> pyval" where
  "opt_val f v = (case v of None \<Rightarrow> PyNone | Some x \<Rightarrow> f x)"

definition serialize_verification :: "verification \<Rightarrow> pyval" where
  "serialize_verification v =
     PyDict [(''supported'', PyBool (v_supported v)), (''confidence'', PyFloat (v_confidence v)),
       (''unsupported_claims'', PyList (v_unsupported v)), (''reason'', PyStr (v_reason v))]"

definition serialize_source :: "string \<Rightarrow> nat \<times> retrieved_chunk \<Rightarrow> pyval" where
  "serialize_source dsh ic = (case ic of (i, c) \<Rightarrow>
     PyDict [(''index'', PyInt (int i)), (''chunk_id'', PyStr (str_uuid (rc_chunk c))),
       (''paper_id'', PyStr (str_uuid (rc_paper c))), (''paper_title'', opt_val PyStr (rc_title c)),
       (''citation'', PyStr (citation dsh c)), (''page_number'', opt_val PyInt (rc_page c)), (''content'', PyStr (rc_content c))])"

text \<open>\<open>Step.as_dict\<close> without the duration.\<close>

definition step_dict :: "step \<Rightarrow> pyval" where
  "step_dict s = PyDict [(''agent'', PyStr (sp_agent s)), (''summary'', PyStr (sp_summary s)), (''detail'', PyStr (sp_detail s))]"

definition serialize_state :: "string \<Rightarrow> research_state \<Rightarrow> (string, pyval) dict" where
  "serialize_state dsh s =
     [(''question'', PyStr (st_question s)), (''answer'', PyStr (answer_text s)), (''plan'', serialize_plan (st_plan s)),
      (''citations'', PyList (map (\<lambda>i. PyInt (int i)) (st_citations s))), (''confidence'', PyFloat (st_confidence s)),
      (''verification'', opt_val serialize_verification (st_verification s)),
      (''revision_count'', PyInt (int (st_revisions s))), (''usage_tokens'', PyInt (st_usage s)),
      (''errors'', PyList (map PyStr (st_errors s))), (''graph_paths'', PyList (map PyStr (st_paths s))),
      (''steps'', PyList (map step_dict (st_steps s))),
      (''sources'', PyList (map (serialize_source dsh) (List.enumerate 1 (st_chunks s))))]"

end
