(* ===== verification/ResearchGraph.thy ===== *)
theory ResearchGraph
  imports Agents
begin

section \<open>The research graph (agents/graph.py)\<close>

text \<open>
  The topology as a next-node function, one superstep of the graph, runs under a recursion limit
  (the limit of LangGraph is a parameter), and the stream of steps.  A configuration is the node to
  run next (\<open>None\<close> is the end), the state, and the gateway with the outside world.
\<close>

definition agent_body :: "agent_context \<Rightarrow> agent_name \<Rightarrow> 'w agent" where
  "agent_body cx a = (case a of
     PLANNER \<Rightarrow> planner_agent cx | RETRIEVER \<Rightarrow> retriever_agent cx | GRAPH_RETRIEVER \<Rightarrow> graph_retriever_agent cx
   | WEB_SEARCH \<Rightarrow> web_search_agent cx | RANKER \<Rightarrow> ranker_agent cx | REASONER \<Rightarrow> reasoner_agent cx
   | CRITIC \<Rightarrow> critic_agent cx | REFLECTOR \<Rightarrow> reflector_agent cx | VERIFIER \<Rightarrow> verifier_agent cx
   | CITATION \<Rightarrow> citation_agent cx | SUMMARIZER \<Rightarrow> summarizer_agent cx | REPORTER \<Rightarrow> return_llm)"

definition run_agent :: "agent_context \<Rightarrow> agent_name \<Rightarrow> research_state \<Rightarrow> 'w llm \<Rightarrow> research_state \<times> 'w llm" where
  "run_agent cx a s gw = resilient a (agent_body cx a) s gw"

definition route_after_critic :: "research_state \<Rightarrow> agent_name" where
  "route_after_critic s = (if st_needs_revision s then REFLECTOR else VERIFIER)"

definition next_node :: "agent_name \<Rightarrow> research_state \<Rightarrow> agent_name option" where
  "next_node a s = (case a of
     PLANNER \<Rightarrow> Some RETRIEVER
   | RETRIEVER \<Rightarrow> Some GRAPH_RETRIEVER
   | GRAPH_RETRIEVER \<Rightarrow> Some WEB_SEARCH
   | WEB_SEARCH \<Rightarrow> Some RANKER
   | RANKER \<Rightarrow> Some REASONER
   | REASONER \<Rightarrow> Some CRITIC
   | CRITIC \<Rightarrow> Some (route_after_critic s)
   | REFLECTOR \<Rightarrow> Some CRITIC
   | VERIFIER \<Rightarrow> Some CITATION
   | CITATION \<Rightarrow> Some SUMMARIZER
   | SUMMARIZER \<Rightarrow> None
   | REPORTER \<Rightarrow> None)"

type_synonym 'w config = "agent_name option \<times> research_state \<times> 'w llm"

fun superstep :: "agent_context \<Rightarrow> 'w config \<Rightarrow> 'w config" where
  "superstep cx (None, s, gw) = (None, s, gw)"
| "superstep cx (Some a, s, gw) = (let (s1, gw1) = run_agent cx a s gw in (next_node a s1, s1, gw1))"

definition start :: "research_state \<Rightarrow> 'w llm \<Rightarrow> 'w config" where
  "start s gw = (Some PLANNER, s, gw)"

definition supersteps :: "agent_context \<Rightarrow> nat \<Rightarrow> 'w config \<Rightarrow> 'w config" where
  "supersteps cx n c = (superstep cx ^^ n) c"

text \<open>\<open>ainvoke\<close>: the final state, or no answer where LangGraph raises \<open>GraphRecursionError\<close>.\<close>

definition run_research ::
    "nat \<Rightarrow> agent_context \<Rightarrow> string \<Rightarrow> int \<Rightarrow> retrieval_filters \<Rightarrow> 'w llm \<Rightarrow> (string, pyval) dict option \<times> 'w llm" where
  "run_research recursion_limit cx question n fs gw =
     (case supersteps cx recursion_limit (start (initial_state question n fs) gw) of
        (None, s, gw1) \<Rightarrow> (Some (serialize_state (dash (cx_lib cx)) s), gw1)
      | (Some _, _, gw1) \<Rightarrow> (None, gw1))"

text \<open>\<open>stream_research\<close>: after every snapshot of the state, the steps not sent before.\<close>

fun stream_steps :: "nat \<Rightarrow> research_state list \<Rightarrow> step list" where
  "stream_steps emitted [] = []"
| "stream_steps emitted (s # ss) = drop emitted (st_steps s) @ stream_steps (length (st_steps s)) ss"

definition snapshots :: "agent_context \<Rightarrow> nat \<Rightarrow> 'w config \<Rightarrow> research_state list" where
  "snapshots cx n c = map (\<lambda>i. fst (snd (supersteps cx i c))) [0..<Suc n]"

subsection \<open>The step relation\<close>

inductive research_step :: "agent_context \<Rightarrow> 'w config \<Rightarrow> 'w config \<Rightarrow> bool" for cx where
  "run_agent cx a s gw = (s1, gw1) \<Longrightarrow> research_step cx (Some a, s, gw) (next_node a s1, s1, gw1)"

inductive_cases research_stepE: "research_step cx c d"
inductive_simps research_step_end: "research_step cx (None, s, gw) d"

inductive research_reachable :: "agent_context \<Rightarrow> 'w config \<Rightarrow> 'w config \<Rightarrow> bool" for cx c0 where
  start: "research_reachable cx c0 c0"
| step: "research_reachable cx c0 c \<Longrightarrow> research_step cx c d \<Longrightarrow> research_reachable cx c0 d"

lemma superstep_step: "superstep cx c = d \<Longrightarrow> c = d \<or> research_step cx c d"
  by (cases "(cx, c)" rule: superstep.cases) (auto intro: research_step.intros split: prod.splits)

lemma supersteps_reachable: "research_reachable cx c (supersteps cx n c)"
proof (induction n)
  case 0
  then show ?case by (simp add: supersteps_def research_reachable.start)
next
  case (Suc n)
  have "supersteps cx n c = superstep cx (supersteps cx n c)
      \<or> research_step cx (supersteps cx n c) (superstep cx (supersteps cx n c))"
    by (rule superstep_step [OF refl])
  then show ?case using Suc by (auto simp: supersteps_def intro: research_reachable.step)
qed

lemma supersteps_Suc: "supersteps cx (Suc n) c = supersteps cx n (superstep cx c)"
  by (simp add: supersteps_def funpow_swap1)

lemma supersteps_0 [simp]: "supersteps cx 0 c = c"
  by (simp add: supersteps_def)

lemma supersteps_end [simp]: "supersteps cx n (None, s, gw) = (None, s, gw)"
  by (induction n) (simp_all add: supersteps_Suc)

lemma supersteps_add: "supersteps cx (m + n) c = supersteps cx n (supersteps cx m c)"
  by (simp add: supersteps_def funpow_add add.commute [of m n])

subsection \<open>What every agent leaves alone\<close>

lemma record_step_sel [simp]:
  "st_question (record_step a x d s) = st_question s" "st_chunks (record_step a x d s) = st_chunks s"
  "st_web (record_step a x d s) = st_web s" "st_citations (record_step a x d s) = st_citations s"
  "st_needs_revision (record_step a x d s) = st_needs_revision s" "st_revisions (record_step a x d s) = st_revisions s"
  "st_errors (record_step a x d s) = st_errors s" "st_plan (record_step a x d s) = st_plan s"
  "st_usage (record_step a x d s) = st_usage s" "st_draft (record_step a x d s) = st_draft s"
  "st_final (record_step a x d s) = st_final s" "st_filters (record_step a x d s) = st_filters s"
  "st_confidence (record_step a x d s) = st_confidence s" "st_limit (record_step a x d s) = st_limit s"
  "st_steps (record_step a x d s) = st_steps s @ [\<lparr>sp_agent = agent_value a, sp_summary = x, sp_detail = d\<rparr>]"
  by (simp_all add: record_step_def)

lemma charge_sel [simp]:
  "st_question (charge u s) = st_question s" "st_chunks (charge u s) = st_chunks s"
  "st_web (charge u s) = st_web s" "st_citations (charge u s) = st_citations s"
  "st_needs_revision (charge u s) = st_needs_revision s" "st_revisions (charge u s) = st_revisions s"
  "st_errors (charge u s) = st_errors s" "st_plan (charge u s) = st_plan s" "st_steps (charge u s) = st_steps s"
  "st_usage (charge u s) = st_usage s + total_tokens u" "st_draft (charge u s) = st_draft s"
  "st_final (charge u s) = st_final s" "st_filters (charge u s) = st_filters s"
  "st_confidence (charge u s) = st_confidence s" "st_limit (charge u s) = st_limit s"
  by (simp_all add: charge_def)

lemmas agent_defs = planner_agent_def retriever_agent_def graph_retriever_agent_def web_search_agent_def
  ranker_agent_def reasoner_agent_def critic_agent_def reflector_agent_def verifier_agent_def
  citation_agent_def summarizer_agent_def

text \<open>What each agent answers, in terms of the keys it changes.\<close>

lemma planner_answers:
  assumes "planner_agent cx s (g, w) = (Inr s1, g1, w1)"
  obtains p u x d where "s1 = record_step PLANNER x d (charge u (s\<lparr>st_plan := Some p\<rparr>))"
    "gw_total g1 = add_usage (gw_total g) u" "pl_subs p \<noteq> []" "length (pl_subs p) \<le> 4"
proof -
  obtain c g2 w2 p where "ask PLAN [(''question'', st_question s)] 0 600 (g, w) = (Inr c, g2, w2)"
    and p: "plan_of (cx_lib cx) (st_question s) (parse_json_response (cx_lib cx) (c_text c)) = Inr p"
    and s1: "s1 = record_step PLANNER
       (''Planned '' @ intent_value (pl_intent p) @ '' with '' @ str_nat (length (pl_subs p)) @ '' sub-question(s)'')
       (pl_reasoning p) (charge (c_usage c) (s\<lparr>st_plan := Some p\<rparr>))" and g: "g2 = g1"
    using assms unfolding planner_agent_def bind_llm_Inr lift_llm_Inr return_llm_Inr by auto
  moreover have "pl_subs p \<noteq> [] \<and> length (pl_subs p) \<le> 4"
    using p by (auto simp: plan_of_def bind_res_Inr_conv Let_def split: if_splits)
  ultimately show thesis using accountedD [OF accounted_ask] by (intro that [OF s1]) auto
qed

lemma retriever_answers:
  assumes "retriever_agent cx s (g, w) = (Inr s1, g1, w1)"
  obtains m x d qs where "s1 = record_step RETRIEVER x d (s\<lparr>st_chunks := m\<rparr>)" "g1 = g"
    "retrieve_queries (\<lambda>q. cx_retrieve cx q (st_limit s) (st_filters s)) qs [] = Inr m"
proof -
  obtain m where "retrieve_queries (\<lambda>q. cx_retrieve cx q (st_limit s) (st_filters s))
      (case st_plan s of Some p \<Rightarrow> pl_subs p | None \<Rightarrow> [st_question s]) [] = Inr m"
    and "\<exists>x d. s1 = record_step RETRIEVER x d (s\<lparr>st_chunks := m\<rparr>)" and "g1 = g"
    using assms unfolding retriever_agent_def Let_def bind_llm_Inr lift_llm_Inr return_llm_Inr by blast
  then show thesis using that by blast
qed

lemma graph_retriever_answers:
  assumes "graph_retriever_agent cx s (g, w) = (Inr s1, g1, w1)"
  obtains (none) x d where "s1 = record_step GRAPH_RETRIEVER x d (s\<lparr>st_paths := []\<rparr>)" "g1 = g"
  | (more) x d ps n fs related where
      "s1 = record_step GRAPH_RETRIEVER x d (s\<lparr>st_chunks := merge_chunks (st_chunks s) related, st_paths := ps\<rparr>)"
      "g1 = g" "cx_retrieve cx (st_question s) n fs = Inr related"
proof -
  obtain view where v: "cx_expand cx (st_question s) (map rc_paper (st_chunks s)) = Inr view"
    using assms unfolding graph_retriever_agent_def Let_def bind_llm_Inr lift_llm_Inr by blast
  note eq = assms [unfolded graph_retriever_agent_def Let_def bind_llm_def [of "lift_llm (Inr view)"] v lift_llm_def [of "Inr view"]
      sum.case prod.case]
  show thesis
  proof (cases "gv_paths view = []")
    case True
    then show thesis using none eq by simp
  next
    case False
    have "\<exists>related x d. cx_retrieve cx (st_question s) (max 2 (st_limit s div 2)) (no_filters\<lparr>rf_paper_ids := gv_papers view\<rparr>)
        = Inr related \<and> s1 = record_step GRAPH_RETRIEVER x d
            (s\<lparr>st_chunks := merge_chunks (st_chunks s) related, st_paths := gv_paths view\<rparr>) \<and> g1 = g"
      using eq unfolding if_not_P [OF False] bind_llm_Inr lift_llm_Inr return_llm_Inr merge_chunks_def by blast
    then show thesis using more by blast
  qed
qed

lemma web_search_answers:
  assumes "web_search_agent cx s (g, w) = (Inr s1, g1, w1)"
  obtains x d rs where "s1 = record_step WEB_SEARCH x d (s\<lparr>st_web := rs\<rparr>)" "g1 = g"
    "rs = st_web s \<or> list_all (\<lambda>r. \<not> tr_flagged r) rs"
proof (cases "case st_plan s of None \<Rightarrow> True | Some p \<Rightarrow> \<not> pl_web p")
  case True
  then have "s1 = record_step WEB_SEARCH ''Web search not required'' [] s" "g1 = g"
    using assms by (simp_all add: web_search_agent_def)
  then show thesis by (intro that [of _ _ "st_web s"]) simp_all
next
  case False
  then obtain results x d where "s1 = record_step WEB_SEARCH x d (s\<lparr>st_web := filter (\<lambda>r. \<not> tr_flagged r) results\<rparr>)" "g1 = g"
    using assms unfolding web_search_agent_def Let_def by (auto simp: bind_llm_Inr)
  then show thesis using that by (simp add: list_all_iff)
qed

lemma ranker_answers:
  assumes "ranker_agent cx s (g, w) = (Inr s1, g1, w1)"
  obtains x d cs where "s1 = record_step RANKER x d (s\<lparr>st_chunks := cs\<rparr>)" "g1 = g"
    "cs = st_chunks s \<or> cs = pk_chunks (pack_context (sort_desc rank_key (st_chunks s)) (st_question s)
        MAX_CONTEXT_TOKENS DEFAULT_RESERVED_TOKENS)"
proof (cases "st_chunks s = []")
  case True
  then have "s1 = record_step RANKER ''No passages to rank'' [] s" "g1 = g"
    using assms by (simp_all add: ranker_agent_def)
  then show thesis by (intro that [of _ _ "st_chunks s"]) simp_all
next
  case False
  then show thesis using assms that unfolding ranker_agent_def Let_def by auto
qed

lemma reasoner_answers:
  assumes "reasoner_agent cx s (g, w) = (Inr s1, g1, w1)"
  obtains x d u draft where "s1 = record_step REASONER x d (charge u (s\<lparr>st_draft := draft\<rparr>))"
    "gw_total g1 = add_usage (gw_total g) u"
proof (cases "st_chunks s = []")
  case True
  have "charge no_usage t = t" for t by (simp add: charge_def no_usage_def total_tokens_def)
  then have "\<exists>x d draft. s1 = record_step REASONER x d (charge no_usage (s\<lparr>st_draft := draft\<rparr>))" "g1 = g"
    using True assms by (auto simp: reasoner_agent_def)
  then show thesis using that [of _ _ no_usage] by auto
next
  case False
  then obtain p kw c where a: "ask p kw TEMPERATURE 3000 (g, w) = (Inr c, g1, w1)"
    and "\<exists>x. s1 = record_step REASONER x [] (charge (c_usage c) (s\<lparr>st_draft := c_text c\<rparr>))"
    using assms unfolding reasoner_agent_def Let_def if_not_P [OF False] bind_llm_Inr return_llm_Inr by blast
  then show thesis using that accountedD [OF accounted_ask a] by blast
qed

lemma critic_answers:
  assumes "critic_agent cx s (g, w) = (Inr s1, g1, w1)"
  obtains x d u b cr where "s1 = record_step CRITIC x d (charge u (s\<lparr>st_critique := cr, st_needs_revision := b\<rparr>))"
    "gw_total g1 = add_usage (gw_total g) u" "b \<Longrightarrow> st_revisions s < MAX_REVISIONS"
proof (cases "st_draft s = [] \<or> st_chunks s = []")
  case True
  have "charge no_usage t = t" for t by (simp add: charge_def no_usage_def total_tokens_def)
  then have "s1 = record_step CRITIC ''Nothing to critique'' []
      (charge no_usage (s\<lparr>st_critique := st_critique s, st_needs_revision := False\<rparr>))" "g1 = g"
    using True assms by (auto simp: critic_agent_def)
  then show thesis by (intro that [of _ _ no_usage False "st_critique s"]) auto
next
  case False
  then obtain kw c where a: "ask CRITIQUE kw 0 600 (g, w) = (Inr c, g1, w1)"
    and "\<exists>x d cr b. s1 = record_step CRITIC x d (charge (c_usage c) (s\<lparr>st_critique := cr,
        st_needs_revision := (b \<and> st_revisions s < MAX_REVISIONS)\<rparr>))"
    using assms unfolding critic_agent_def if_not_P [OF False] bind_llm_Inr lift_llm_Inr case_prod_unfold return_llm_Inr by blast
  then show thesis using that accountedD [OF accounted_ask a] by blast
qed

lemma reflector_answers:
  assumes "reflector_agent cx s (g, w) = (Inr s1, g1, w1)"
  obtains x d u draft where
    "s1 = record_step REFLECTOR x d (charge u (s\<lparr>st_draft := draft, st_revisions := st_revisions s + 1\<rparr>))"
    "gw_total g1 = add_usage (gw_total g) u"
proof -
  obtain p kw c where a: "ask p kw TEMPERATURE 3000 (g, w) = (Inr c, g1, w1)"
    and "\<exists>x draft. s1 = record_step REFLECTOR x [] (charge (c_usage c) (s\<lparr>st_draft := draft, st_revisions := st_revisions s + 1\<rparr>))"
    using assms unfolding reflector_agent_def Let_def bind_llm_Inr return_llm_Inr by blast
  then show thesis using that accountedD [OF accounted_ask a] by blast
qed

lemma verifier_answers:
  assumes "verifier_agent cx s (g, w) = (Inr s1, g1, w1)"
  obtains x d u v c where "s1 = record_step VERIFIER x d (charge u (s\<lparr>st_verification := v, st_confidence := c\<rparr>))"
    "gw_total g1 = add_usage (gw_total g) u"
proof (cases "st_draft s = [] \<or> st_chunks s = []")
  case True
  have "charge no_usage t = t" for t by (simp add: charge_def no_usage_def total_tokens_def)
  then have "s1 = record_step VERIFIER ''Nothing to verify'' []
      (charge no_usage (s\<lparr>st_verification := st_verification s, st_confidence := Fin 0\<rparr>))" "g1 = g"
    using True assms by (auto simp: verifier_agent_def)
  then show thesis by (intro that [where v = "st_verification s" and c = "Fin 0" and u = no_usage]) auto
next
  case False
  then obtain v u where a: "verify_answer (cx_lib cx) (st_question s) (st_draft s) (st_chunks s) (g, w) = (Inr (v, u), g1, w1)"
    and "\<exists>x c. s1 = record_step VERIFIER x (v_reason v) (charge u (s\<lparr>st_verification := Some v, st_confidence := c\<rparr>))"
    using assms unfolding verifier_agent_def if_not_P [OF False] bind_llm_Inr split_paired_Ex split_conv return_llm_Inr by blast
  then show thesis using that accountedD [OF accounted_verify a] by auto
qed

lemma citation_answers:
  assumes "citation_agent cx s (g, w) = (Inr s1, g1, w1)"
  obtains x d where "s1 = record_step CITATION x d
      (s\<lparr>st_final := st_draft s, st_citations := extract_citations (st_draft s) (length (st_chunks s))\<rparr>)" "g1 = g"
  using assms that unfolding citation_agent_def Let_def by auto

lemma summarizer_answers:
  assumes "summarizer_agent cx s (g, w) = (Inr s1, g1, w1)"
  obtains x d u v f where "s1 = record_step SUMMARIZER x d (charge u (s\<lparr>st_final := f\<rparr>))"
    "gw_total g1 = add_usage (gw_total g) v" "u = v \<or> x = ''No summary produced''"
proof -
  have c: "charge no_usage t = t" for t by (simp add: charge_def no_usage_def total_tokens_def)
  have same: "record_step SUMMARIZER x [] s = record_step SUMMARIZER x [] (charge no_usage (s\<lparr>st_final := st_final s\<rparr>))" for x
    by (simp add: c)
  show thesis
  proof (cases "length (answer_text s) < 1200")
    case True
    then have "s1 = record_step SUMMARIZER ''Answer short enough to skip'' [] s" "g1 = g"
      using assms by (simp_all add: summarizer_agent_def Let_def)
    then show thesis unfolding same by (intro that [where u = no_usage and f = "st_final s" and v = no_usage]) auto
  next
    case False
    then obtain a where a: "ask SUMMARIZE [(''question'', st_question s), (''answer'', answer_text s)] TEMPERATURE 400 (g, w)
        = (Inr a, g1, w1)"
      and s1: "s1 = (if strip (c_text a) = [] then record_step SUMMARIZER ''No summary produced'' [] s
          else record_step SUMMARIZER ''Added an executive summary'' [] (charge (c_usage a)
            (s\<lparr>st_final := ''**Summary.** '' @ strip (c_text a) @ [CHR 0x0A, CHR 0x0A] @ answer_text s\<rparr>)))"
      using assms unfolding summarizer_agent_def Let_def by (auto simp: bind_llm_Inr split: if_splits)
    show thesis
    proof (cases "strip (c_text a) = []")
      case True
      then show thesis using s1 accountedD [OF accounted_ask a] unfolding same
        by (intro that [where u = no_usage and x = "''No summary produced''" and f = "st_final s" and v = "c_usage a"]) auto
    next
      case False
      then show thesis using s1 accountedD [OF accounted_ask a] by (intro that [where u = "c_usage a" and v = "c_usage a"]) auto
    qed
  qed
qed

lemma fail_step_sel [simp]:
  "st_question (fail_step a e s) = st_question s" "st_chunks (fail_step a e s) = st_chunks s"
  "st_web (fail_step a e s) = st_web s" "st_citations (fail_step a e s) = st_citations s"
  "st_needs_revision (fail_step a e s) = st_needs_revision s" "st_revisions (fail_step a e s) = st_revisions s"
  "st_errors (fail_step a e s) = st_errors s @ [agent_value a @ '': '' @ exn_text e]"
  "st_plan (fail_step a e s) = st_plan s" "st_usage (fail_step a e s) = st_usage s"
  "st_draft (fail_step a e s) = st_draft s" "st_limit (fail_step a e s) = st_limit s"
  "st_filters (fail_step a e s) = st_filters s"
  "st_steps (fail_step a e s) = st_steps s @ [\<lparr>sp_agent = agent_value a, sp_summary = agent_value a @ '' failed'',
     sp_detail = take 300 (exn_text e)\<rparr>]"
  by (simp_all add: fail_step_def)

lemma run_agent_cases:
  assumes "run_agent cx a s gw = (s1, gw1)"
  obtains (ok) "agent_body cx a s gw = (Inr s1, gw1)"
  | (failed) e where "agent_body cx a s gw = (Inl e, gw1)" "s1 = fail_step a e s"
  using assms by (auto simp: run_agent_def resilient_def split: prod.splits sum.splits)

text \<open>A run of an agent: it fails, or it is one of the eleven with its changes.\<close>

lemma agent_cases:
  assumes "run_agent cx a s (g, w) = (s1, g1, w1)"
  obtains (failed) e where "s1 = fail_step a e s"
  | (planner) p u x d where "a = PLANNER" "s1 = record_step PLANNER x d (charge u (s\<lparr>st_plan := Some p\<rparr>))"
      "gw_total g1 = add_usage (gw_total g) u" "pl_subs p \<noteq> []" "length (pl_subs p) \<le> 4"
  | (retriever) m x d qs where "a = RETRIEVER" "s1 = record_step RETRIEVER x d (s\<lparr>st_chunks := m\<rparr>)" "g1 = g"
      "retrieve_queries (\<lambda>q. cx_retrieve cx q (st_limit s) (st_filters s)) qs [] = Inr m"
  | (no_graph) x d where "a = GRAPH_RETRIEVER" "s1 = record_step GRAPH_RETRIEVER x d (s\<lparr>st_paths := []\<rparr>)" "g1 = g"
  | (graph) x d ps n fs related where "a = GRAPH_RETRIEVER"
      "s1 = record_step GRAPH_RETRIEVER x d (s\<lparr>st_chunks := merge_chunks (st_chunks s) related, st_paths := ps\<rparr>)"
      "g1 = g" "cx_retrieve cx (st_question s) n fs = Inr related"
  | (web) x d rs where "a = WEB_SEARCH" "s1 = record_step WEB_SEARCH x d (s\<lparr>st_web := rs\<rparr>)" "g1 = g"
      "rs = st_web s \<or> list_all (\<lambda>r. \<not> tr_flagged r) rs"
  | (ranker) x d cs where "a = RANKER" "s1 = record_step RANKER x d (s\<lparr>st_chunks := cs\<rparr>)" "g1 = g"
      "cs = st_chunks s \<or> cs = pk_chunks (pack_context (sort_desc rank_key (st_chunks s)) (st_question s)
        MAX_CONTEXT_TOKENS DEFAULT_RESERVED_TOKENS)"
  | (reasoner) x d u draft where "a = REASONER" "s1 = record_step REASONER x d (charge u (s\<lparr>st_draft := draft\<rparr>))"
      "gw_total g1 = add_usage (gw_total g) u"
  | (critic) x d u b cr where "a = CRITIC"
      "s1 = record_step CRITIC x d (charge u (s\<lparr>st_critique := cr, st_needs_revision := b\<rparr>))"
      "gw_total g1 = add_usage (gw_total g) u" "b \<Longrightarrow> st_revisions s < MAX_REVISIONS"
  | (reflector) x d u draft where "a = REFLECTOR"
      "s1 = record_step REFLECTOR x d (charge u (s\<lparr>st_draft := draft, st_revisions := st_revisions s + 1\<rparr>))"
      "gw_total g1 = add_usage (gw_total g) u"
  | (verifier) x d u v c where "a = VERIFIER"
      "s1 = record_step VERIFIER x d (charge u (s\<lparr>st_verification := v, st_confidence := c\<rparr>))"
      "gw_total g1 = add_usage (gw_total g) u"
  | (citation) x d where "a = CITATION" "s1 = record_step CITATION x d
      (s\<lparr>st_final := st_draft s, st_citations := extract_citations (st_draft s) (length (st_chunks s))\<rparr>)" "g1 = g"
  | (summarizer) x d u v f where "a = SUMMARIZER" "s1 = record_step SUMMARIZER x d (charge u (s\<lparr>st_final := f\<rparr>))"
      "gw_total g1 = add_usage (gw_total g) v" "u = v \<or> x = ''No summary produced''"
  | (reporter) "a = REPORTER" "s1 = s" "g1 = g"
proof (cases rule: run_agent_cases [OF assms])
  case (2 e)
  then show thesis using failed by blast
next
  case body: 1
  show thesis
  proof (cases a)
    case PLANNER
    then show thesis using body planner by (auto simp: agent_body_def elim: planner_answers)
  next
    case RETRIEVER
    then show thesis using body retriever by (auto simp: agent_body_def elim: retriever_answers)
  next
    case GRAPH_RETRIEVER
    then show thesis using body no_graph graph by (auto simp: agent_body_def elim: graph_retriever_answers)
  next
    case WEB_SEARCH
    then show thesis using body web by (auto simp: agent_body_def elim: web_search_answers)
  next
    case RANKER
    then show thesis using body ranker by (auto simp: agent_body_def elim: ranker_answers)
  next
    case REASONER
    then show thesis using body reasoner by (auto simp: agent_body_def elim: reasoner_answers)
  next
    case CRITIC
    then show thesis using body critic by (auto simp: agent_body_def elim: critic_answers)
  next
    case REFLECTOR
    then show thesis using body reflector by (auto simp: agent_body_def elim: reflector_answers)
  next
    case VERIFIER
    then show thesis using body verifier by (auto simp: agent_body_def elim: verifier_answers)
  next
    case CITATION
    then show thesis using body citation by (auto simp: agent_body_def elim: citation_answers)
  next
    case SUMMARIZER
    then show thesis using body summarizer by (auto simp: agent_body_def elim: summarizer_answers)
  next
    case REPORTER
    then show thesis using body reporter by (auto simp: agent_body_def)
  qed
qed

subsection \<open>Invariants of a run\<close>

definition failed_agent :: "agent_name \<Rightarrow> research_state \<Rightarrow> bool" where
  "failed_agent a s \<longleftrightarrow> list_ex (prefix (agent_value a @ '': '')) (st_errors s)"

lemma failed_agent_fail [simp]: "failed_agent a (fail_step a e s)"
  by (simp add: failed_agent_def)

lemma step_errors: "run_agent cx a s gw = (s1, gw1) \<Longrightarrow> \<exists>es. st_errors s1 = st_errors s @ es"
  by (cases gw; cases gw1) (auto elim!: agent_cases)

lemma failed_agent_step: "run_agent cx a s gw = (s1, gw1) \<Longrightarrow> failed_agent b s \<Longrightarrow> failed_agent b s1"
  by (auto dest!: step_errors simp: failed_agent_def)

lemma failed_agent_mono: "failed_agent a s \<Longrightarrow> failed_agent a (fst (snd (supersteps cx n (m, s, gw))))"
proof (induction n arbitrary: m s gw)
  case (Suc n)
  show ?case
  proof (cases m)
    case (Some b)
    obtain s1 gw1 where r: "run_agent cx b s gw = (s1, gw1)" by (cases "run_agent cx b s gw")
    show ?thesis using Suc.IH [OF failed_agent_step [OF r Suc.prems]] r Some by (simp add: supersteps_Suc)
  qed (use Suc in simp)
qed simp

lemma research_induct:
  assumes "research_reachable cx c0 c" "I c0"
    and "\<And>a s g w s1 g1 w1. run_agent cx a s (g, w) = (s1, g1, w1) \<Longrightarrow> I (Some a, s, g, w) \<Longrightarrow> I (next_node a s1, s1, g1, w1)"
  shows "I c"
  using assms(1)
proof induction
  case (step c d)
  from step.hyps(2) show ?case
  proof cases
    case (1 a s gw s1 gw1)
    then show ?thesis using assms(3) [of a s "fst gw" "snd gw" s1 "fst gw1" "snd gw1"] step.IH by simp
  qed
qed (rule assms(2))

text \<open>The revision count, as long as the critic answers.\<close>

definition revisions_ok :: "'w config \<Rightarrow> bool" where
  "revisions_ok c = (case c of (n, s, gw) \<Rightarrow>
     failed_agent CRITIC s \<or> st_revisions s \<le> MAX_REVISIONS \<and> (n = Some REFLECTOR \<longrightarrow> st_revisions s < MAX_REVISIONS))"

lemma revisions_ok_step:
  assumes "run_agent cx a s (g, w) = (s1, g1, w1)" "revisions_ok (Some a, s, g, w)"
  shows "revisions_ok (next_node a s1, s1, g1, w1)"
proof (cases "failed_agent CRITIC s")
  case True
  then show ?thesis using failed_agent_step [OF assms(1)] by (simp add: revisions_ok_def)
next
  case False
  then have le: "st_revisions s \<le> MAX_REVISIONS" "a = REFLECTOR \<Longrightarrow> st_revisions s < MAX_REVISIONS"
    using assms(2) by (auto simp: revisions_ok_def)
  show ?thesis
    using assms(1)
  proof (cases rule: agent_cases)
    case (failed e)
    then show ?thesis using le by (cases a) (auto simp: revisions_ok_def next_node_def)
  qed (use le in \<open>auto simp: revisions_ok_def next_node_def route_after_critic_def\<close>)
qed

text \<open>Citations point into the chunks, and come only after the chunks are final.\<close>

definition citations_ok :: "'w config \<Rightarrow> bool" where
  "citations_ok c = (case c of (n, s, gw) \<Rightarrow>
     set (st_citations s) \<subseteq> {1..length (st_chunks s)} \<and> (st_citations s = [] \<or> n = Some SUMMARIZER \<or> n = None))"

lemma citations_ok_step:
  assumes "run_agent cx a s (g, w) = (s1, g1, w1)" "citations_ok (Some a, s, g, w)"
  shows "citations_ok (next_node a s1, s1, g1, w1)"
  using assms(1)
proof (cases rule: agent_cases)
  case (failed e)
  then show ?thesis using assms(2) by (cases a) (auto simp: citations_ok_def next_node_def)
next
  case (citation x d)
  then show ?thesis using citations_in_range by (auto simp: citations_ok_def next_node_def)
qed (use assms(2) in \<open>auto simp: citations_ok_def next_node_def\<close>)

text \<open>No flagged web result is kept, and a plan has one to four sub-questions.\<close>

definition inputs_ok :: "'w config \<Rightarrow> bool" where
  "inputs_ok c = (case c of (n, s, gw) \<Rightarrow>
     list_all (\<lambda>r. \<not> tr_flagged r) (st_web s)
     \<and> (case st_plan s of None \<Rightarrow> True | Some p \<Rightarrow> pl_subs p \<noteq> [] \<and> length (pl_subs p) \<le> 4))"

lemma inputs_ok_step:
  assumes "run_agent cx a s (g, w) = (s1, g1, w1)" "inputs_ok (Some a, s, g, w)"
  shows "inputs_ok (next_node a s1, s1, g1, w1)"
  using assms(1) by (cases rule: agent_cases) (use assms(2) in \<open>auto simp: inputs_ok_def\<close>)

text \<open>The usage of the run is what the gateway charged, unless an agent failed after its call or the
  summary came back empty.\<close>

definition usage_ok :: "usage \<Rightarrow> 'w config \<Rightarrow> bool" where
  "usage_ok u0 c = (case c of (n, s, g, w) \<Rightarrow>
     st_errors s \<noteq> [] \<or> total_tokens (gw_total g) = total_tokens u0 + st_usage s
     \<or> n = None \<and> (\<exists>y ys. st_steps s = ys @ [y] \<and> sp_summary y = ''No summary produced''))"

lemma usage_ok_step:
  assumes "run_agent cx a s (g, w) = (s1, g1, w1)" "usage_ok u0 (Some a, s, g, w)"
  shows "usage_ok u0 (next_node a s1, s1, g1, w1)"
  using assms(1)
proof (cases rule: agent_cases)
  case (summarizer x d u v f)
  then show ?thesis using assms(2) by (auto simp: usage_ok_def next_node_def)
qed (use assms(2) in \<open>auto simp: usage_ok_def\<close>)

text \<open>C16: In every reachable state of a research run: there were at most two revisions, unless the critic
  itself failed; the citations point into the sources; no flagged web result is in use; a plan has
  between one and four sub-questions; and the reported usage is what the gateway charged, unless
  an agent failed or the summary was empty.\<close>

theorem research_run_invariant:
  assumes "research_reachable cx (start (initial_state q n fs) (g0, w0)) (node, s, g, w)"
  shows "(failed_agent CRITIC s \<or> st_revisions s \<le> MAX_REVISIONS)
    \<and> set (st_citations s) \<subseteq> {1..length (st_chunks s)}
    \<and> list_all (\<lambda>r. \<not> tr_flagged r) (st_web s)
    \<and> (case st_plan s of None \<Rightarrow> True | Some p \<Rightarrow> pl_subs p \<noteq> [] \<and> length (pl_subs p) \<le> 4)
    \<and> (st_errors s \<noteq> [] \<or> total_tokens (gw_total g) = total_tokens (gw_total g0) + st_usage s
       \<or> node = None \<and> (\<exists>y ys. st_steps s = ys @ [y] \<and> sp_summary y = ''No summary produced''))"
proof -
  have "revisions_ok (node, s, g, w)"
    by (rule research_induct [where I = revisions_ok, OF assms])
       (simp add: revisions_ok_def start_def initial_state_def, rule revisions_ok_step)
  moreover have "citations_ok (node, s, g, w)"
    by (rule research_induct [where I = citations_ok, OF assms])
       (simp add: citations_ok_def start_def initial_state_def, rule citations_ok_step)
  moreover have "inputs_ok (node, s, g, w)"
    by (rule research_induct [where I = inputs_ok, OF assms])
       (simp add: inputs_ok_def start_def initial_state_def, rule inputs_ok_step)
  moreover have "usage_ok (gw_total g0) (node, s, g, w)"
    by (rule research_induct [where I = "usage_ok (gw_total g0)", OF assms])
       (simp add: usage_ok_def start_def initial_state_def, rule usage_ok_step)
  ultimately show ?thesis
    by (auto simp: revisions_ok_def citations_ok_def inputs_ok_def usage_ok_def)
qed

subsection \<open>Termination\<close>

lemma superstep_Some:
  "superstep cx (Some a, c) = (next_node a (fst (run_agent cx a (fst c) (snd c))), run_agent cx a (fst c) (snd c))"
  by (cases c) (simp add: case_prod_unfold Let_def)

lemma run_from_verifier: "fst (supersteps cx 3 (Some VERIFIER, s, gw)) = None"
  by (simp add: numeral_3_eq_3 supersteps_Suc next_node_def superstep_Some)

text \<open>From the critic, \<open>k\<close> revisions from the bound: either the end, or one of the two failed.\<close>

definition ended_or_failed :: "'w config \<Rightarrow> bool" where
  "ended_or_failed c = (case c of (n, s, gw) \<Rightarrow> n = None \<or> failed_agent CRITIC s \<or> failed_agent REFLECTOR s)"

lemma failed_supersteps:
  "failed_agent CRITIC s \<or> failed_agent REFLECTOR s \<Longrightarrow> ended_or_failed (supersteps cx n (m, s, gw))"
  using failed_agent_mono [of CRITIC s cx n m gw] failed_agent_mono [of REFLECTOR s cx n m gw]
  by (auto simp: ended_or_failed_def case_prod_unfold)

lemma ended_supersteps:
  "fst (supersteps cx m c) = None \<Longrightarrow> ended_or_failed (supersteps cx (m + n) c)"
  by (cases "supersteps cx m c") (simp add: supersteps_add ended_or_failed_def)

lemma run_from_critic:
  "MAX_REVISIONS - st_revisions s \<le> k \<Longrightarrow> ended_or_failed (supersteps cx (2 * k + 4) (Some CRITIC, s, gw))"
proof (induction k arbitrary: s gw)
  case (0 s gw)
  obtain s1 g1 w1 where r: "run_agent cx CRITIC s (fst gw, snd gw) = (s1, g1, w1)"
    by (cases "run_agent cx CRITIC s (fst gw, snd gw)") auto
  have first: "supersteps cx (2 * 0 + 4) (Some CRITIC, s, gw) = supersteps cx (3 + 0) (Some (route_after_critic s1), s1, g1, w1)"
    using r by (simp add: numeral_eq_Suc supersteps_Suc next_node_def)
  show ?case
    using r
  proof (cases rule: agent_cases)
    case (failed e)
    then show ?thesis unfolding first by (intro failed_supersteps) simp
  next
    case (critic x d u b cr)
    then have "route_after_critic s1 = VERIFIER" using 0 by (auto simp: route_after_critic_def)
    then show ?thesis unfolding first using ended_supersteps [OF run_from_verifier, where n = 0] by simp
  qed simp_all
next
  case (Suc k s gw)
  obtain s1 g1 w1 where r: "run_agent cx CRITIC s (fst gw, snd gw) = (s1, g1, w1)"
    by (cases "run_agent cx CRITIC s (fst gw, snd gw)") auto
  have first: "supersteps cx (2 * Suc k + 4) (Some CRITIC, s, gw) =
      supersteps cx (3 + (2 * k + 2)) (Some (route_after_critic s1), s1, g1, w1)"
    using r by (simp add: numeral_eq_Suc supersteps_Suc next_node_def)
  show ?case
    using r
  proof (cases rule: agent_cases)
    case (failed e)
    then show ?thesis unfolding first by (intro failed_supersteps) simp
  next
    case (critic x d u b cr)
    show ?thesis
    proof (cases b)
      case False
      then have "route_after_critic s1 = VERIFIER" using critic by (simp add: route_after_critic_def)
      then show ?thesis unfolding first by (simp only: ended_supersteps [OF run_from_verifier])
    next
      case True
      then have rt: "route_after_critic s1 = REFLECTOR" using critic by (simp add: route_after_critic_def)
      obtain s2 g2 w2 where r2: "run_agent cx REFLECTOR s1 (g1, w1) = (s2, g2, w2)"
        by (cases "run_agent cx REFLECTOR s1 (g1, w1)") auto
      have second: "supersteps cx (3 + (2 * k + 2)) (Some REFLECTOR, s1, g1, w1) = supersteps cx (2 * k + 4) (Some CRITIC, s2, g2, w2)"
        using r2 by (simp add: numeral_eq_Suc supersteps_Suc next_node_def)
      show ?thesis unfolding first rt second
        using r2
      proof (cases rule: agent_cases)
        case (failed e)
        then show "ended_or_failed (supersteps cx (2 * k + 4) (Some CRITIC, s2, g2, w2))"
          by (intro failed_supersteps) simp
      next
        case (reflector x' d' u' draft)
        then have "MAX_REVISIONS - st_revisions s2 \<le> k" using Suc.prems critic by simp
        then show "ended_or_failed (supersteps cx (2 * k + 4) (Some CRITIC, s2, g2, w2))" by (rule Suc.IH)
      qed simp_all
    qed
  qed simp_all
qed

text \<open>C15: Termination: fourteen supersteps, well under the recursion limit of twenty-five, are enough for
  every run to reach its end, whatever the model answers, unless the critic or the reviser failed.\<close>

theorem research_terminates:
  "(case supersteps cx 14 (start (initial_state q n fs) gw) of
      (None, _) \<Rightarrow> True
    | (Some _, s, _) \<Rightarrow> failed_agent CRITIC s \<or> failed_agent REFLECTOR s)"
proof -
  have "fst (supersteps cx 6 (start (initial_state q n fs) gw)) = Some CRITIC"
    by (simp add: numeral_eq_Suc supersteps_Suc start_def next_node_def superstep_Some)
  then have "\<exists>s1 gw1. supersteps cx 6 (start (initial_state q n fs) gw) = (Some CRITIC, s1, gw1)"
    by (cases "supersteps cx 6 (start (initial_state q n fs) gw)") auto
  then obtain s1 gw1 where six: "supersteps cx 6 (start (initial_state q n fs) gw) = (Some CRITIC, s1, gw1)" by blast
  have "supersteps cx 14 (start (initial_state q n fs) gw) = supersteps cx (2 * 2 + 4) (Some CRITIC, s1, gw1)"
    using supersteps_add [of cx 6 8 "start (initial_state q n fs) gw"] by (simp add: six)
  moreover have "MAX_REVISIONS - st_revisions s1 \<le> 2" by (simp add: MAX_REVISIONS_def)
  ultimately have "ended_or_failed (supersteps cx 14 (start (initial_state q n fs) gw))"
    using run_from_critic [of s1 2 cx gw1] by simp
  then show ?thesis by (auto simp: ended_or_failed_def split: option.split)
qed

subsection \<open>A run that never ends\<close>

text \<open>A model that asks for a revision every time and is down whenever the reviser calls it.\<close>

definition flaky_provider :: "unit provider" where
  "flaky_provider =
     \<lparr>pr_name = ''flaky'',
      pr_complete = (\<lambda>rq w.
        if map msg_content (take 1 (rq_messages rq)) = [pt_system REVISE] then (Inl (LLMError ''down''), w)
        else (Inr \<lparr>c_text = ''{}'', c_model = ''m'', c_provider = ''flaky'', c_usage = no_usage, c_finish = None\<rparr>, w))\<rparr>"

definition flaky_gateway :: "unit gateway" where
  "flaky_gateway = \<lparr>gw_primary = flaky_provider, gw_fallback = None, gw_total = no_usage\<rparr>"

definition flaky_context :: agent_context where
  "flaky_context =
     \<lparr>cx_lib = \<lparr>json_loads = (\<lambda>_. Some (PyDict [(''issues'', PyList [PyStr ''vague'']), (''needs_revision'', PyBool True)])),
                float_of = (\<lambda>_. None), repr_of = (\<lambda>_. []), dash = ''-''\<rparr>,
      cx_retrieve = (\<lambda>_ _ _. Inr [plain_chunk ''text'']),
      cx_expand = (\<lambda>_ _. Inr \<lparr>gv_paths = [], gv_papers = [], gv_summary = []\<rparr>),
      cx_search = (\<lambda>_. Inr [])\<rparr>"

lemma ask_flaky:
  assumes "well_formed (pt_template p)" "set (template_fields (pt_template p)) \<subseteq> fst ` set kw"
  shows "ask p kw t mx (flaky_gateway, ()) =
     (if pt_system p = pt_system REVISE then Inl (LLMError ''down'')
      else Inr \<lparr>c_text = ''{}'', c_model = ''m'', c_provider = ''flaky'', c_usage = no_usage, c_finish = None\<rparr>,
      flaky_gateway, ())"
proof -
  obtain body where "render p kw = Inr body" using render_ok [OF assms] by blast
  then show ?thesis
    by (simp add: ask_def gateway_complete_def gateway_call_def flaky_gateway_def flaky_provider_def prompt_request_def
        is_llm_error_def)
qed

lemma not_revise:
  "pt_system PLAN \<noteq> pt_system REVISE" "pt_system REASON \<noteq> pt_system REVISE" "pt_system REPORT \<noteq> pt_system REVISE"
  "pt_system CRITIQUE \<noteq> pt_system REVISE"
  by code_simp+

lemma flaky_json:
  "parse_json_response (cx_lib flaky_context) ''{}'' =
     PyDict [(''issues'', PyList [PyStr ''vague'']), (''needs_revision'', PyBool True)]"
proof -
  have "re_search JSON_BLOCK ''{}'' = Some (''{}'', [])" by code_simp
  then show ?thesis by (simp add: parse_json_response_def flaky_context_def)
qed

text \<open>Where a run with this model can be.\<close>

definition stuck :: "unit config \<Rightarrow> bool" where
  "stuck c = (case c of (n, s, gw) \<Rightarrow> gw = (flaky_gateway, ()) \<and> st_revisions s = 0
     \<and> (n = Some PLANNER
        \<or> n = Some RETRIEVER \<and> (case st_plan s of None \<Rightarrow> True | Some p \<Rightarrow> pl_subs p \<noteq> [])
        \<or> n \<in> Some ` {GRAPH_RETRIEVER, WEB_SEARCH, RANKER, REASONER} \<and> st_chunks s = [plain_chunk ''text'']
        \<or> n = Some CRITIC \<and> st_chunks s = [plain_chunk ''text''] \<and> st_draft s \<noteq> []
        \<or> n = Some REFLECTOR \<and> st_chunks s = [plain_chunk ''text''] \<and> st_draft s \<noteq> [] \<and> st_needs_revision s))"

lemma retrieve_flaky: "qs \<noteq> [] \<Longrightarrow> retrieve_queries (\<lambda>q. Inr [c]) qs [] = Inr [c]"
proof -
  have "retrieve_queries (\<lambda>q. Inr [c]) qs [c] = Inr [c]" for qs
    by (induction qs) (simp_all add: add_unseen_def)
  then show "qs \<noteq> [] \<Longrightarrow> ?thesis" by (cases qs) (simp_all add: add_unseen_def)
qed

lemma flaky_reasoner:
  assumes "st_chunks s = [c]"
  shows "\<exists>s1. run_agent flaky_context REASONER s (flaky_gateway, ()) = (s1, flaky_gateway, ())
    \<and> st_chunks s1 = [c] \<and> st_draft s1 \<noteq> [] \<and> st_revisions s1 = st_revisions s"
  using assms
  by (auto simp: run_agent_def resilient_def agent_body_def reasoner_agent_def bind_llm_def return_llm_def Let_def
      ask_flaky agent_prompts_well_formed agent_prompt_fields not_revise split: option.split)

lemma flaky_critic:
  assumes "st_chunks s = [c]" "st_draft s \<noteq> []" "st_revisions s = 0"
  shows "\<exists>s1. run_agent flaky_context CRITIC s (flaky_gateway, ()) = (s1, flaky_gateway, ())
    \<and> st_chunks s1 = [c] \<and> st_draft s1 \<noteq> [] \<and> st_revisions s1 = 0 \<and> st_needs_revision s1"
  using assms
  by (simp add: run_agent_def resilient_def agent_body_def critic_agent_def bind_llm_def return_llm_def lift_llm_def
      ask_flaky agent_prompts_well_formed agent_prompt_fields not_revise flaky_json critique_of_def jget_def py_or_def
      py_list_def MAX_REVISIONS_def)

lemma flaky_reflector:
  "\<exists>e. run_agent flaky_context REFLECTOR s (flaky_gateway, ()) = (fail_step REFLECTOR e s, flaky_gateway, ())"
  by (auto simp: run_agent_def resilient_def agent_body_def reflector_agent_def bind_llm_def
      ask_flaky agent_prompts_well_formed agent_prompt_fields)

lemma stuck_step: "stuck c \<Longrightarrow> stuck (superstep flaky_context c)"
proof -
  obtain n s gw where c: "c = (n, s, gw)" by (cases c)
  assume st: "stuck c"
  then have gw: "gw = (flaky_gateway, ())" and z: "st_revisions s = 0" by (auto simp: stuck_def c)
  note run = run_agent_def resilient_def agent_body_def bind_llm_def return_llm_def lift_llm_def
  from st consider "n = Some PLANNER"
    | "n = Some RETRIEVER" "case st_plan s of None \<Rightarrow> True | Some p \<Rightarrow> pl_subs p \<noteq> []"
    | "n = Some GRAPH_RETRIEVER" "st_chunks s = [plain_chunk ''text'']"
    | "n = Some WEB_SEARCH" "st_chunks s = [plain_chunk ''text'']"
    | "n = Some RANKER" "st_chunks s = [plain_chunk ''text'']"
    | "n = Some REASONER" "st_chunks s = [plain_chunk ''text'']"
    | "n = Some CRITIC" "st_chunks s = [plain_chunk ''text'']" "st_draft s \<noteq> []"
    | "n = Some REFLECTOR" "st_chunks s = [plain_chunk ''text'']" "st_draft s \<noteq> []" "st_needs_revision s"
    by (auto simp: stuck_def c)
  then show ?thesis
  proof cases
    case 1
    obtain s1 where "run_agent flaky_context PLANNER s (flaky_gateway, ()) = (s1, flaky_gateway, ())"
      and "st_revisions s1 = 0" "case st_plan s1 of None \<Rightarrow> True | Some p \<Rightarrow> pl_subs p \<noteq> []"
      using z by (auto simp: run planner_agent_def ask_flaky agent_prompts_well_formed agent_prompt_fields not_revise
          flaky_json plan_of_def jget_def py_or_def py_list_def Let_def)
    then show ?thesis using 1 by (simp add: c gw stuck_def superstep_Some next_node_def)
  next
    case 2
    have "\<exists>s1. run_agent flaky_context RETRIEVER s (flaky_gateway, ()) = (s1, flaky_gateway, ())
        \<and> st_revisions s1 = 0 \<and> st_chunks s1 = [plain_chunk ''text'']"
      using z 2 by (simp add: run retriever_agent_def retrieve_flaky add_unseen_def flaky_context_def Let_def split: option.splits)
    then show ?thesis using 2 by (auto simp: c gw stuck_def superstep_Some next_node_def)
  next
    case 3
    have "\<exists>s1. run_agent flaky_context GRAPH_RETRIEVER s (flaky_gateway, ()) = (s1, flaky_gateway, ())
        \<and> st_revisions s1 = 0 \<and> st_chunks s1 = [plain_chunk ''text'']"
      using z 3 by (simp add: run graph_retriever_agent_def flaky_context_def Let_def)
    then show ?thesis using 3 by (auto simp: c gw stuck_def superstep_Some next_node_def)
  next
    case 4
    have "\<exists>s1. run_agent flaky_context WEB_SEARCH s (flaky_gateway, ()) = (s1, flaky_gateway, ())
        \<and> st_revisions s1 = 0 \<and> st_chunks s1 = [plain_chunk ''text'']"
      using z 4 by (simp add: run web_search_agent_def flaky_context_def Let_def)
    then show ?thesis using 4 by (auto simp: c gw stuck_def superstep_Some next_node_def)
  next
    case 5
    have pk: "pk_chunks (pack_context [plain_chunk ''text''] q MAX_CONTEXT_TOKENS DEFAULT_RESERVED_TOKENS) = [plain_chunk ''text'']" for q
      by (simp add: pack_context_def pack_one_def plain_chunk_def estimate_tokens_def CHARS_PER_TOKEN_def
          MAX_CONTEXT_TOKENS_def DEFAULT_RESERVED_TOKENS_def Let_def)
    have "sort_desc rank_key [plain_chunk ''text''] = [plain_chunk ''text'']" by (simp add: sort_desc_def)
    then have "\<exists>s1. run_agent flaky_context RANKER s (flaky_gateway, ()) = (s1, flaky_gateway, ())
        \<and> st_revisions s1 = 0 \<and> st_chunks s1 = [plain_chunk ''text'']"
      using z 5 by (simp add: run ranker_agent_def pk Let_def)
    then show ?thesis using 5 by (auto simp: c gw stuck_def superstep_Some next_node_def)
  next
    case 6
    then show ?thesis using flaky_reasoner [OF 6(2)] z by (auto simp: c gw stuck_def superstep_Some next_node_def)
  next
    case 7
    then show ?thesis using flaky_critic [OF 7(2,3) z] by (auto simp: c gw stuck_def superstep_Some next_node_def route_after_critic_def)
  next
    case 8
    then show ?thesis using flaky_reflector [of s] z by (auto simp: c gw stuck_def superstep_Some next_node_def)
  qed
qed

text \<open>A failing reviser does not degrade the answer, it removes it: with a model that flags every draft
  and is down when the reviser calls it, the failure is recorded without counting a revision, critic and
  reviser alternate forever, and under every recursion limit the run ends without a result.\<close>

theorem failing_reviser_never_ends:
  "fst (run_research recursion_limit flaky_context q n fs (flaky_gateway, ())) = None"
proof -
  have st: "stuck (supersteps flaky_context k (start (initial_state q n fs) (flaky_gateway, ())))" for k
  proof (induction k)
    case 0
    then show ?case by (simp add: stuck_def start_def initial_state_def)
  next
    case (Suc k)
    from stuck_step [OF this] show ?case by (simp add: supersteps_def)
  qed
  show ?thesis using st [of recursion_limit]
    by (auto simp: run_research_def stuck_def split: prod.splits option.splits)
qed

subsection \<open>Streaming\<close>

lemma stream_steps_snoc:
  "stream_steps e (ss @ [s]) = stream_steps e ss @ drop (if ss = [] then e else length (st_steps (last ss))) (st_steps s)"
  by (induction ss arbitrary: e) auto

lemma supersteps_steps:
  "\<exists>xs. st_steps (fst (snd (supersteps cx (Suc n) c))) = st_steps (fst (snd (supersteps cx n c))) @ xs"
proof -
  obtain m s g w where c: "supersteps cx n c = (m, s, g, w)" by (cases "supersteps cx n c")
  show ?thesis
  proof (cases m)
    case (Some a)
    obtain s1 g1 w1 where r: "run_agent cx a s (g, w) = (s1, g1, w1)" by (cases "run_agent cx a s (g, w)") auto
    have "\<exists>xs. st_steps s1 = st_steps s @ xs" using r by (cases rule: agent_cases) auto
    then show ?thesis using c Some r by (simp add: supersteps_def)
  qed (simp add: c [unfolded supersteps_def] supersteps_def)
qed

text \<open>Streaming is equivalent to running: the steps sent after each snapshot, together, are exactly the
  steps of the state at that point, in order, none twice and none missing.\<close>

theorem stream_equals_run:
  "stream_steps 0 (snapshots cx n (start (initial_state q m fs) gw)) =
     st_steps (fst (snd (supersteps cx n (start (initial_state q m fs) gw))))"
proof (induction n)
  case 0
  then show ?case by (simp add: snapshots_def)
next
  case (Suc n)
  let ?c = "start (initial_state q m fs) gw"
  obtain xs where "st_steps (fst (snd (supersteps cx (Suc n) ?c))) = st_steps (fst (snd (supersteps cx n ?c))) @ xs"
    using supersteps_steps by blast
  moreover have "snapshots cx (Suc n) ?c = snapshots cx n ?c @ [fst (snd (supersteps cx (Suc n) ?c))]"
    by (simp add: snapshots_def)
  moreover have "last (snapshots cx n ?c) = fst (snd (supersteps cx n ?c))" "snapshots cx n ?c \<noteq> []"
    by (simp_all add: snapshots_def)
  ultimately show ?case using Suc by (simp add: stream_steps_snoc)
qed

subsection \<open>Whose passages a run uses\<close>

definition retrieved :: "agent_context \<Rightarrow> retrieved_chunk \<Rightarrow> bool" where
  "retrieved cx c \<longleftrightarrow> (\<exists>q n fs rs. cx_retrieve cx q n fs = Inr rs \<and> c \<in> set rs)"

definition quotes :: "retrieved_chunk \<Rightarrow> retrieved_chunk \<Rightarrow> bool" where
  "quotes r c \<longleftrightarrow> rc_chunk r = rc_chunk c \<and> rc_paper r = rc_paper c
     \<and> (rc_content r = rc_content c
        \<or> (\<exists>kept. rc_content r = join '' '' kept \<and> list_all (\<lambda>x. sublist x (rc_content c)) kept))"

definition chunks_ok :: "agent_context \<Rightarrow> 'w config \<Rightarrow> bool" where
  "chunks_ok cx c = (case c of (n, s, gw) \<Rightarrow>
     if n \<in> Some ` {PLANNER, RETRIEVER, GRAPH_RETRIEVER, WEB_SEARCH, RANKER}
     then \<forall>r \<in> set (st_chunks s). retrieved cx r
     else \<forall>r \<in> set (st_chunks s). \<exists>c. retrieved cx c \<and> quotes r c)"

lemma quotes_refl: "quotes c c"
  by (simp add: quotes_def)

lemma retrieve_queries_retrieved:
  assumes "\<And>q rs. retr q = Inr rs \<Longrightarrow> \<forall>c \<in> set rs. P c"
  shows "retrieve_queries retr qs m = Inr m' \<Longrightarrow> \<forall>c \<in> set m. P c \<Longrightarrow> \<forall>c \<in> set m'. P c"
proof (induction qs arbitrary: m)
  case (Cons q qs)
  have one: "set (add_unseen xs x) \<subseteq> insert x (set xs)" for xs x by (auto simp: add_unseen_def)
  have sub: "set (foldl add_unseen xs rs) \<subseteq> set xs \<union> set rs" for rs xs
  proof (induction rs arbitrary: xs)
    case (Cons x rs)
    then show ?case using Cons.IH [of "add_unseen xs x"] one [of xs x] by auto
  qed simp
  from Cons.prems obtain rs where "retr q = Inr rs" "retrieve_queries retr qs (foldl add_unseen m rs) = Inr m'"
    by (auto simp: bind_res_Inr_conv)
  moreover from this have "\<forall>c \<in> set (foldl add_unseen m rs). P c" using assms Cons.prems(2) sub [of m rs] by blast
  ultimately show ?case using Cons.IH by blast
qed simp

lemma chunks_ok_step:
  assumes "run_agent cx a s (g, w) = (s1, g1, w1)" "chunks_ok cx (Some a, s, g, w)"
  shows "chunks_ok cx (next_node a s1, s1, g1, w1)"
  using assms(1)
proof (cases rule: agent_cases)
  case (failed e)
  then show ?thesis using assms(2) quotes_refl by (cases a) (auto simp: chunks_ok_def next_node_def route_after_critic_def)
next
  case (retriever m x d qs)
  have "\<forall>c \<in> set m. retrieved cx c"
    by (rule retrieve_queries_retrieved [OF _ retriever(4)]) (auto simp: retrieved_def)
  then show ?thesis using retriever by (simp add: chunks_ok_def next_node_def)
next
  case (graph x d ps n fs related)
  then have "\<forall>c \<in> set related. retrieved cx c" by (auto simp: retrieved_def)
  then show ?thesis using graph assms(2) by (auto simp: chunks_ok_def next_node_def merge_chunks_def)
next
  case (ranker x d cs)
  have all: "\<forall>r \<in> set (st_chunks s). retrieved cx r" using ranker assms(2) by (simp add: chunks_ok_def)
  have "\<exists>c. retrieved cx c \<and> quotes r c" if "r \<in> set cs" for r
    using ranker(4)
  proof
    assume "cs = st_chunks s"
    then show ?thesis using that all quotes_refl by blast
  next
    assume "cs = pk_chunks (pack_context (sort_desc rank_key (st_chunks s)) (st_question s) MAX_CONTEXT_TOKENS DEFAULT_RESERVED_TOKENS)"
    then show ?thesis using packed_chunk [of r "sort_desc rank_key (st_chunks s)"] that all unfolding quotes_def by fastforce
  qed
  then show ?thesis using ranker by (simp add: chunks_ok_def next_node_def)
qed (use assms(2) in \<open>auto simp: chunks_ok_def next_node_def route_after_critic_def\<close>)

text \<open>The passages a research run uses, in every reachable state, belong to papers in workspaces of the
  asking user, whatever the model plans, whatever the graph expansion and the filters name, and their
  text is that of a chunk row of the paper or sentences quoted from it.\<close>

theorem research_sources_authorized:
  assumes "index_reachable ix" "index_matches ix db"
    and "cx_retrieve cx = (\<lambda>qu n f. retrieve ilike embedder (\<lambda>v n f. mem_search v n f (i_store ix)) (i_bm ix) scoring db user qu n f)"
    and "research_reachable cx (start (initial_state q m fs) gw) (node, s, gw1)" "r \<in> set (st_chunks s)"
  shows "\<exists>p \<in> set (db_papers db). \<exists>ws \<in> set (db_workspaces db). \<exists>c \<in> set (db_chunks db).
     p_id p = rc_paper r \<and> p_workspace p = w_id ws \<and> w_owner ws = user \<and> k_id c = rc_chunk r \<and> k_paper c = rc_paper r
     \<and> (rc_content r = k_content c
        \<or> (\<exists>kept. rc_content r = join '' '' kept \<and> list_all (\<lambda>x. sublist x (k_content c)) kept))"
proof -
  have "chunks_ok cx (node, s, gw1)"
    by (rule research_induct [where I = "chunks_ok cx", OF assms(4)])
       (simp add: chunks_ok_def start_def initial_state_def, rule chunks_ok_step)
  then obtain c0 where c0: "retrieved cx c0" "quotes r c0"
    using assms(5) quotes_refl by (auto simp: chunks_ok_def split: if_splits)
  obtain qu n f rs where rs: "cx_retrieve cx qu n f = Inr rs" "c0 \<in> set rs" using c0(1) by (auto simp: retrieved_def)
  from retrieve_allowed [OF assms(1,2) rs(1) [unfolded assms(3)] rs(2)]
  obtain p ws c where "p \<in> set (db_papers db)" "ws \<in> set (db_workspaces db)" "c \<in> set (db_chunks db)"
      "p_id p = rc_paper c0" "p_workspace p = w_id ws" "w_owner ws = user" "k_id c = rc_chunk c0"
      "k_paper c = rc_paper c0" "k_content c = rc_content c0" by (elim bexE conjE) (rule that)
  then show ?thesis using c0(2) unfolding quotes_def by (intro bexI [of _ p] bexI [of _ ws] bexI [of _ c]) simp_all
qed

subsection \<open>The properties at concrete inputs\<close>

lemma research_run_invariant_witness:
  "(let (node, s, g, w) = supersteps flaky_context 8 (start (initial_state ''why'' 5 no_filters) (flaky_gateway, ())) in
     set (st_citations s) \<subseteq> {1..length (st_chunks s)} \<and> (failed_agent CRITIC s \<or> st_revisions s \<le> MAX_REVISIONS))"
proof -
  let ?c0 = "start (initial_state ''why'' 5 no_filters) (flaky_gateway, ())"
  obtain node s g w where c: "supersteps flaky_context 8 ?c0 = (node, s, g, w)" by (cases "supersteps flaky_context 8 ?c0")
  have "research_reachable flaky_context ?c0 (node, s, g, w)" using supersteps_reachable [of flaky_context ?c0 8] by (simp only: c)
  from research_run_invariant [OF this] show ?thesis by (simp add: c)
qed

definition sample_context :: agent_context where
  "sample_context = flaky_context\<lparr>cx_retrieve := (\<lambda>qu n f. retrieve (\<lambda>_ _. True) (\<lambda>_. Inr [1])
     (\<lambda>v n f. mem_search v n f (i_store indexed)) (i_bm indexed) None owned_db 5 qu n f)\<rparr>"

lemma research_sources_authorized_witness:
  "\<exists>s ws. fst (snd (supersteps sample_context 2 (start (initial_state ''zz'' 5 no_filters) (rejecting_gateway, [])))) = s
     \<and> st_chunks s = [sample_result] \<and> ws \<in> set (db_workspaces owned_db) \<and> w_owner ws = 5"
proof -
  let ?c0 = "start (initial_state ''zz'' 5 no_filters) (rejecting_gateway, [])"
  have reach: "index_reachable indexed"
    unfolding indexed_def fresh_index_def by (intro index_reachable.intros)
  have ch: "db_chunks owned_db = [one_chunk True]" by (simp add: owned_db_def one_db_def)
  have m: "index_matches indexed owned_db"
    unfolding index_matches_def ch
    by (simp add: indexed_store indexed_docs one_chunk_def chunk_record_def one_paper_def)
  have ret: "cx_retrieve sample_context = (\<lambda>qu n f. retrieve (\<lambda>_ _. True) (\<lambda>_. Inr [1])
     (\<lambda>v n f. mem_search v n f (i_store indexed)) (i_bm indexed) None owned_db 5 qu n f)"
    by (simp add: sample_context_def)
  obtain e where e: "ask PLAN [(''question'', ''zz'')] 0 600 (rejecting_gateway, []) = (Inl e, rejecting_gateway, [])"
    using ask_rejecting by blast
  let ?s0 = "initial_state ''zz'' 5 no_filters" let ?s1 = "fail_step PLANNER e ?s0"
  have q: "st_question ?s0 = ''zz''" by (simp add: initial_state_def)
  have p: "run_agent sample_context PLANNER ?s0 (rejecting_gateway, []) = (?s1, rejecting_gateway, [])"
    by (simp add: run_agent_def resilient_def agent_body_def planner_agent_def bind_llm_def q e)
  have s1: "st_plan ?s1 = None" "st_question ?s1 = ''zz''" "st_limit ?s1 = 5" "st_filters ?s1 = no_filters"
    by (simp_all add: initial_state_def)
  have "retrieve_queries (\<lambda>q. cx_retrieve sample_context q 5 no_filters) [''zz''] [] = Inr [sample_result]"
    by (simp add: ret sample_retrieve add_unseen_def)
  then have "\<exists>s2. run_agent sample_context RETRIEVER ?s1 (rejecting_gateway, []) = (s2, rejecting_gateway, [])
      \<and> st_chunks s2 = [sample_result]"
    by (simp add: run_agent_def resilient_def agent_body_def retriever_agent_def bind_llm_def lift_llm_def return_llm_def
        s1 Let_def del: fail_step_sel)
  then obtain s2 where s2: "supersteps sample_context 2 ?c0 = (Some GRAPH_RETRIEVER, s2, rejecting_gateway, [])"
      "st_chunks s2 = [sample_result]"
    by (auto simp: numeral_2_eq_2 supersteps_Suc start_def superstep_Some next_node_def p)
  have "research_reachable sample_context ?c0 (Some GRAPH_RETRIEVER, s2, rejecting_gateway, [])"
    using supersteps_reachable [of sample_context ?c0 2] by (simp only: s2)
  from research_sources_authorized [OF reach m ret this, of sample_result] s2
  have "\<exists>ws \<in> set (db_workspaces owned_db). w_owner ws = 5" by auto
  then show ?thesis using s2 by auto
qed

end
