(* ===== verification/Http.thy ===== *)
theory Http
  imports Prelude
begin

section \<open>Requests and responses with a schema (FastAPI and Pydantic)\<close>

text \<open>
  A request that breaks a bound of its schema is refused before the handler runs, with the status 422
  (\<open>RequestInvalid\<close>); a response that breaks its schema ends in an error of the server
  (\<open>ResponseInvalid\<close>).
\<close>

datatype failure = RequestInvalid | ResponseInvalid

definition answered :: "bool \<Rightarrow> 'r \<Rightarrow> failure + 'r" where
  "answered valid r = (if valid then Inr r else Inl RequestInvalid)"

text \<open>A list of parts of a response is valid when every part is.\<close>

fun all_payloads :: "(failure + 'a) list \<Rightarrow> failure + 'a list" where
  "all_payloads [] = Inr []"
| "all_payloads (Inl e # xs) = Inl e"
| "all_payloads (Inr x # xs) = (case all_payloads xs of Inl e \<Rightarrow> Inl e | Inr ys \<Rightarrow> Inr (x # ys))"

lemma all_payloads_valid: "(\<And>x. x \<in> set xs \<Longrightarrow> x \<noteq> Inl e) \<Longrightarrow> all_payloads xs \<noteq> Inl e"
proof (induction xs rule: all_payloads.induct)
  case (3 x xs)
  then show ?case by (cases "all_payloads xs") auto
qed auto

end
