(* ===== verification/ChatApi.thy ===== *)
theory ChatApi
  imports Rag Http
begin

section \<open>Answers over HTTP (api/v1/endpoints/chat.py, search.py, schemas/retrieval.py, stream_answer of llm/rag.py)\<close>

text \<open>
  The search and chat endpoints, the answer as a stream of events and its framing.  Parameters: the
  retriever of the caller for a limit and filters (\<open>Retrieval.retrieve\<close>), \<open>json.dumps\<close>, and the
  provider of tokens; a generator is the list of what it yields and the exception that ends it, if
  one does.
\<close>

subsection \<open>Requests\<close>

definition valid_filters :: "retrieval_filters \<Rightarrow> bool" where
  "valid_filters f \<longleftrightarrow>
     (case rf_year_from f of None \<Rightarrow> True | Some y \<Rightarrow> 1800 \<le> y \<and> y \<le> 2200)
     \<and> (case rf_year_to f of None \<Rightarrow> True | Some y \<Rightarrow> 1800 \<le> y \<and> y \<le> 2200)"

definition to_filters :: "retrieval_filters \<Rightarrow> retrieval_filters" where
  "to_filters f = \<lparr>rf_paper_ids = rf_paper_ids f, rf_kinds = rf_kinds f, rf_year_from = rf_year_from f, rf_year_to = rf_year_to f,
     rf_sections = rf_sections f\<rparr>"

record search_request =
  sr_query :: string
  sr_limit :: int
  sr_filters :: retrieval_filters
  sr_use_reranker :: bool

definition valid_search :: "search_request \<Rightarrow> bool" where
  "valid_search r \<longleftrightarrow> 1 \<le> length (sr_query r) \<and> length (sr_query r) \<le> 2000 \<and> 1 \<le> sr_limit r \<and> sr_limit r \<le> 50 \<and> valid_filters (sr_filters r)"

record chat_request =
  ch_question :: string
  ch_limit :: int
  ch_filters :: retrieval_filters
  ch_corrective :: bool
  ch_verification :: bool

definition valid_chat :: "chat_request \<Rightarrow> bool" where
  "valid_chat r \<longleftrightarrow> 1 \<le> length (ch_question r) \<and> length (ch_question r) \<le> 4000 \<and> 1 \<le> ch_limit r \<and> ch_limit r \<le> 30 \<and> valid_filters (ch_filters r)"

subsection \<open>Search\<close>

record search_result =
  se_chunk :: uuid
  se_paper :: uuid
  se_title :: "string option"
  se_content :: string
  se_section :: "string option"
  se_page :: "int option"
  se_kind :: string
  se_citation :: string
  se_score :: real
  se_dense :: "int option"
  se_sparse :: "int option"
  se_rerank :: "real option"
  se_sentences :: "string list"

record search_response =
  sp_query :: string
  sp_results :: "search_result list"
  sp_total :: nat

definition search_result_of :: "string \<Rightarrow> retrieved_chunk \<Rightarrow> search_result" where
  "search_result_of dsh c =
     \<lparr>se_chunk = rc_chunk c, se_paper = rc_paper c, se_title = rc_title c, se_content = rc_content c, se_section = rc_section c,
      se_page = rc_page c, se_kind = rc_kind c, se_citation = citation dsh c, se_score = rc_score c, se_dense = rc_dense_rank c,
      se_sparse = rc_sparse_rank c, se_rerank = rc_rerank_score c, se_sentences = rc_sentences c\<rparr>"

definition search :: "string \<Rightarrow> (int \<Rightarrow> retrieval_filters \<Rightarrow> bool \<Rightarrow> retriever) \<Rightarrow> search_request \<Rightarrow> failure + search_response res" where
  "search dsh retr r =
     answered (valid_search r)
       (bind_res (retr (sr_limit r) (to_filters (sr_filters r)) (sr_use_reranker r) (sr_query r)) (\<lambda>cs.
        Inr \<lparr>sp_query = sr_query r, sp_results = map (search_result_of dsh) cs, sp_total = length cs\<rparr>))"

subsection \<open>Chat\<close>

record source_ref =
  so_index :: nat
  so_chunk :: string
  so_paper :: string
  so_title :: "string option"
  so_citation :: string
  so_page :: "int option"
  so_content :: string

record verification_info =
  vi_supported :: bool
  vi_confidence :: pyfloat
  vi_unsupported :: "string list"
  vi_reason :: string

record chat_response =
  cs_question :: string
  cs_answer :: string
  cs_sources :: "source_ref list"
  cs_cited :: "nat list"
  cs_confidence :: real
  cs_grade :: "grade option"
  cs_verification :: "verification_info option"
  cs_rewritten :: "string option"
  cs_prompt_tokens :: int
  cs_completion_tokens :: int

definition source_ref_of :: "string \<Rightarrow> nat \<times> retrieved_chunk \<Rightarrow> source_ref" where
  "source_ref_of dsh = (\<lambda>(i, c).
     \<lparr>so_index = i, so_chunk = str_uuid (rc_chunk c), so_paper = str_uuid (rc_paper c), so_title = rc_title c,
      so_citation = citation dsh c, so_page = rc_page c, so_content = rc_content c\<rparr>)"

text \<open>The schema wants texts; the verifier's list holds whatever the model wrote.\<close>

definition text_payload :: "pyval \<Rightarrow> failure + string" where
  "text_payload v = (case v of PyStr s \<Rightarrow> Inr s | _ \<Rightarrow> Inl ResponseInvalid)"

definition verification_info_of :: "verification \<Rightarrow> failure + verification_info" where
  "verification_info_of v =
     (case all_payloads (map text_payload (v_unsupported v)) of
        Inl e \<Rightarrow> Inl e
      | Inr claims \<Rightarrow> Inr \<lparr>vi_supported = v_supported v, vi_confidence = v_confidence v, vi_unsupported = claims, vi_reason = v_reason v\<rparr>)"

definition chat_response_of :: "string \<Rightarrow> rag_answer \<Rightarrow> failure + chat_response" where
  "chat_response_of dsh a =
     (case (case ra_verification a of None \<Rightarrow> Inr None | Some v \<Rightarrow> map_sum id Some (verification_info_of v)) of
        Inl e \<Rightarrow> Inl e
      | Inr info \<Rightarrow>
          Inr \<lparr>cs_question = ra_question a, cs_answer = ra_answer a, cs_sources = map (source_ref_of dsh) (List.enumerate 1 (ra_sources a)),
               cs_cited = ra_cited a, cs_confidence = confidence a,
               cs_grade = map_option (\<lambda>g. \<lparr>g_sufficient = g_sufficient g, g_reason = g_reason g, g_missing = g_missing g\<rparr>) (ra_grade a),
               cs_verification = info, cs_rewritten = ra_rewritten a, cs_prompt_tokens = prompt_tokens (ra_usage a),
               cs_completion_tokens = completion_tokens (ra_usage a)\<rparr>)"

definition RAG_CONTEXT_TOKENS :: int where "RAG_CONTEXT_TOKENS = 6000"

definition chat ::
    "library \<Rightarrow> (int \<Rightarrow> retrieval_filters \<Rightarrow> retriever) \<Rightarrow> chat_request \<Rightarrow> 'w llm
       \<Rightarrow> failure + (llm_exn + (failure + chat_response)) \<times> 'w llm" where
  "chat lib retr r gw =
     answered (valid_chat r)
       (bind_llm (answer_question lib (retr (ch_limit r) (to_filters (ch_filters r))) (ch_question r) (ch_corrective r) (ch_verification r)
                    RAG_CONTEXT_TOKENS)
          (\<lambda>a. return_llm (chat_response_of (dash lib) a)) gw)"

subsection \<open>Tokens\<close>

text \<open>\<open>_HttpProvider.stream\<close>: the pieces that were yielded before the response ended or broke.\<close>

fun token_lines :: "vendor \<Rightarrow> (string \<Rightarrow> pyval option) \<Rightarrow> string list \<Rightarrow> string list \<times> py_error option" where
  "token_lines vn loads [] = ([], None)"
| "token_lines vn loads (line # ls) =
     (let payload = strip (drop 5 line) in
      if take 5 line \<noteq> ''data:'' \<or> payload = [] \<or> payload = ''[DONE]'' then token_lines vn loads ls
      else (case loads payload of
              None \<Rightarrow> token_lines vn loads ls
            | Some chunk \<Rightarrow>
                (case vn_stream_chunk vn chunk of
                   Inl e \<Rightarrow> ([], Some e)
                 | Inr t \<Rightarrow>
                     if \<not> truthy t then token_lines vn loads ls
                     else (case as_str t of
                             Inl e \<Rightarrow> ([], Some e)
                           | Inr s \<Rightarrow> (let (ts, e) = token_lines vn loads ls in (s # ts, e))))))"

definition http_tokens :: "vendor \<Rightarrow> (string \<Rightarrow> pyval option) \<Rightarrow> nat \<Rightarrow> string \<Rightarrow> string list \<Rightarrow> string list \<times> llm_exn option" where
  "http_tokens vn loads status body ls =
     (if 400 \<le> status
      then ([], Some (LLMError (vn_name vn @ '' streaming failed ('' @ str_nat status @ ''): '' @ take 300 body)))
      else (case token_lines vn loads ls of (ts, e) \<Rightarrow> (ts, map_option OtherExn e)))"

text \<open>\<open>EchoProvider.stream\<close>\<close>

definition echo_tokens :: "string option \<Rightarrow> request \<Rightarrow> string list \<times> llm_exn option" where
  "echo_tokens canned rq = (map (\<lambda>w. w @ '' '') (split_on CHR '' '' (echo_respond canned (rq_messages rq))), None)"

subsection \<open>The stream of events\<close>

record source_event =
  sv_index :: nat
  sv_chunk :: string
  sv_paper :: string
  sv_citation :: string
  sv_page :: "int option"

datatype stream_event = SourcesEvent "source_event list" | TokenEvent string | DoneEvent "nat list"

definition source_event_of :: "string \<Rightarrow> nat \<times> retrieved_chunk \<Rightarrow> source_event" where
  "source_event_of dsh = (\<lambda>(i, c).
     \<lparr>sv_index = i, sv_chunk = str_uuid (rc_chunk c), sv_paper = str_uuid (rc_paper c), sv_citation = citation dsh c, sv_page = rc_page c\<rparr>)"

definition stream_answer ::
    "library \<Rightarrow> retriever \<Rightarrow> string \<Rightarrow> int \<Rightarrow> (request \<Rightarrow> string list \<times> llm_exn option) \<Rightarrow> stream_event list \<times> llm_exn option" where
  "stream_answer lib retr question max_context tokens =
     (case retr question of
        Inl e \<Rightarrow> ([], Some (OtherExn e))
      | Inr cs \<Rightarrow>
          if cs = []
          then ([SourcesEvent [], TokenEvent ''I could not find anything in your library that addresses this question.'', DoneEvent []], None)
          else
            let sources = pk_chunks (pack_context cs question max_context DEFAULT_RESERVED_TOKENS);
                head = SourcesEvent (map (source_event_of (dash lib)) (List.enumerate 1 sources)) in
            (case render RAG_ANSWER [(''question'', question), (''sources'', format_sources (dash lib) sources)] of
               Inl e \<Rightarrow> ([head], Some (OtherExn e))
             | Inr body \<Rightarrow>
                 (case tokens (prompt_request RAG_ANSWER body TEMPERATURE MAX_TOKENS) of
                    (ts, Some e) \<Rightarrow> (head # map TokenEvent ts, Some e)
                  | (ts, None) \<Rightarrow> (head # map TokenEvent ts @ [DoneEvent (extract_citations (concat ts) (length sources))], None))))"

text \<open>Server-sent events; a stream that breaks has no end mark.\<close>

definition event_dict :: "stream_event \<Rightarrow> pyval" where
  "event_dict e =
     (case e of
        SourcesEvent ss \<Rightarrow> PyDict [(''type'', PyStr ''sources''), (''sources'', PyList (map (\<lambda>s.
           PyDict [(''index'', PyInt (int (sv_index s))), (''chunk_id'', PyStr (sv_chunk s)), (''paper_id'', PyStr (sv_paper s)),
                   (''citation'', PyStr (sv_citation s)), (''page_number'', case sv_page s of None \<Rightarrow> PyNone | Some n \<Rightarrow> PyInt n)]) ss))]
      | TokenEvent s \<Rightarrow> PyDict [(''type'', PyStr ''token''), (''text'', PyStr s)]
      | DoneEvent is \<Rightarrow> PyDict [(''type'', PyStr ''done''), (''cited'', PyList (map (\<lambda>i. PyInt (int i)) is))])"

definition frame :: "string \<Rightarrow> string" where
  "frame s = ''data: '' @ s @ [CHR 0x0A, CHR 0x0A]"

definition event_stream :: "(pyval \<Rightarrow> string) \<Rightarrow> stream_event list \<times> llm_exn option \<Rightarrow> string" where
  "event_stream dumps = (\<lambda>(es, e). concat (map (\<lambda>x. frame (dumps (event_dict x))) es) @ (if e = None then frame ''[DONE]'' else []))"

definition chat_stream ::
    "library \<Rightarrow> (pyval \<Rightarrow> string) \<Rightarrow> (int \<Rightarrow> retrieval_filters \<Rightarrow> retriever) \<Rightarrow> (request \<Rightarrow> string list \<times> llm_exn option) \<Rightarrow> chat_request
       \<Rightarrow> failure + string" where
  "chat_stream lib dumps retr tokens r =
     answered (valid_chat r)
       (event_stream dumps (stream_answer lib (retr (ch_limit r) (to_filters (ch_filters r))) (ch_question r) RAG_CONTEXT_TOKENS tokens))"

subsection \<open>Tokens and texts\<close>

lemma token_lines_stream:
  "stream_lines vn loads ls = (case token_lines vn loads ls of (ts, None) \<Rightarrow> Inr ts | (_, Some e) \<Rightarrow> Inl e)"
proof (induction ls)
  case (Cons l ls)
  then show ?case by (auto simp: Let_def bind_res_def as_str_def split: option.splits sum.splits prod.splits)
qed simp

text \<open>A text cut anywhere: the tokens of a provider that answers it.\<close>

fun cut :: "nat list \<Rightarrow> string \<Rightarrow> string list" where
  "cut [] s = [s]"
| "cut (n # ns) s = take n s # cut ns (drop n s)"

lemma concat_cut [simp]: "concat (cut ns s) = s"
  by (induction ns s rule: cut.induct) simp_all

definition cut_completion :: "nat list \<Rightarrow> 'w llm \<Rightarrow> request \<Rightarrow> string list \<times> llm_exn option" where
  "cut_completion ns gw rq = (case fst (gateway_complete rq gw) of Inl e \<Rightarrow> ([], Some e) | Inr c \<Rightarrow> (cut ns (c_text c), None))"


text \<open>The pieces of the streams are those of the gateway's parsers, and an echoed text gains a blank at its end.\<close>

theorem tokens_are_texts:
  "http_stream vn loads status body ls = (case http_tokens vn loads status body ls of (ts, None) \<Rightarrow> Inr ts | (_, Some e) \<Rightarrow> Inl e)
   \<and> concat (fst (echo_tokens canned rq)) = c_text (echo_completion canned rq) @ '' ''"
  by (auto simp: http_stream_def http_tokens_def token_lines_stream echo_tokens_def echo_completion_def Let_def concat_split_on
      split: prod.splits option.splits)

subsection \<open>Verdicts that are no texts\<close>

definition is_text :: "pyval \<Rightarrow> bool" where
  "is_text v \<longleftrightarrow> (case v of PyStr _ \<Rightarrow> True | _ \<Rightarrow> False)"

lemma text_payloads:
  "all_payloads (map text_payload vs)
     = (if list_all is_text vs then Inr (map (\<lambda>v. case v of PyStr s \<Rightarrow> s | _ \<Rightarrow> []) vs) else Inl ResponseInvalid)"
proof (induction vs)
  case (Cons v vs)
  then show ?case by (cases v) (simp_all add: text_payload_def is_text_def)
qed simp

text \<open>A chat response breaks its schema exactly when the verifier's list of unsupported claims holds something
  other than a text, which the parsing of the verdict lets through.\<close>

theorem chat_response_needs_texts:
  "chat_response_of dsh a = Inl ResponseInvalid
     \<longleftrightarrow> (case ra_verification a of None \<Rightarrow> False | Some v \<Rightarrow> \<not> list_all is_text (v_unsupported v))"
proof (cases "ra_verification a")
  case None
  then show ?thesis by (simp add: chat_response_of_def)
next
  case (Some v)
  then show ?thesis by (simp add: chat_response_of_def verification_info_of_def text_payloads)
qed

end
