(* ===== verification/ResearchApi.thy ===== *)
theory ResearchApi
  imports ResearchGraph ChatApi
begin

section \<open>The research endpoints (api/v1/endpoints/research.py)\<close>

text \<open>
  The request and the response with their schemas, the run behind them and its stream of events.  The
  response is read from the dictionary of the run, as Pydantic does; durations are not represented.
  Parameters: the context of a run, the recursion limit of LangGraph, \<open>json.dumps\<close>.
\<close>

subsection \<open>Requests\<close>

record research_request =
  rs_question :: string
  rs_limit :: int
  rs_filters :: retrieval_filters

definition valid_research :: "research_request \<Rightarrow> bool" where
  "valid_research r \<longleftrightarrow> 1 \<le> length (rs_question r) \<and> length (rs_question r) \<le> 4000 \<and> 1 \<le> rs_limit r \<and> rs_limit r \<le> 30
     \<and> valid_filters (rs_filters r)"

definition filters_dict :: "retrieval_filters \<Rightarrow> retrieval_filters" where
  "filters_dict f = \<lparr>rf_paper_ids = rf_paper_ids f, rf_kinds = rf_kinds f, rf_year_from = rf_year_from f, rf_year_to = rf_year_to f,
     rf_sections = rf_sections f\<rparr>"

subsection \<open>Responses\<close>

record agent_step =
  ag_agent :: string
  ag_summary :: string
  ag_detail :: string

record research_source =
  rr_index :: int
  rr_chunk :: string
  rr_paper :: string
  rr_title :: "string option"
  rr_citation :: string
  rr_page :: "int option"
  rr_content :: string

record plan_info =
  pi_intent :: string
  pi_subs :: "string list"
  pi_reasoning :: string
  pi_web :: bool

record research_response =
  re_question :: string
  re_answer :: string
  re_plan :: "plan_info option"
  re_sources :: "research_source list"
  re_citations :: "int list"
  re_confidence :: pyfloat
  re_verification :: "(string, pyval) dict option"
  re_revisions :: int
  re_usage :: int
  re_steps :: "agent_step list"
  re_errors :: "string list"

text \<open>Reading a field of the type a schema names.\<close>

definition field :: "string \<Rightarrow> (pyval \<Rightarrow> 'a res) \<Rightarrow> pyval \<Rightarrow> 'a res" where
  "field k f v = bind_res (jkey k v) f"

definition listed :: "(pyval \<Rightarrow> 'a res) \<Rightarrow> pyval \<Rightarrow> 'a list res" where
  "listed f v = bind_res (as_list v) (mapM f)"

definition optional :: "(pyval \<Rightarrow> 'a res) \<Rightarrow> pyval \<Rightarrow> 'a option res" where
  "optional f v = (case v of PyNone \<Rightarrow> Inr None | _ \<Rightarrow> bind_res (f v) (\<lambda>x. Inr (Some x)))"

definition as_bool :: "pyval \<Rightarrow> bool res" where
  "as_bool v = (case v of PyBool b \<Rightarrow> Inr b | _ \<Rightarrow> Inl (TypeErr ''bool expected''))"

definition as_float :: "pyval \<Rightarrow> pyfloat res" where
  "as_float v = (case v of PyFloat x \<Rightarrow> Inr x | PyInt i \<Rightarrow> Inr (Fin (real_of_int i)) | _ \<Rightarrow> Inl (TypeErr ''float expected''))"

definition dict_payload :: "pyval \<Rightarrow> (string, pyval) dict res" where
  "dict_payload v = (case v of PyDict d \<Rightarrow> Inr d | _ \<Rightarrow> Inl (TypeErr ''dict expected''))"

definition agent_step_of :: "pyval \<Rightarrow> agent_step res" where
  "agent_step_of v =
     bind_res (field ''agent'' as_str v) (\<lambda>a. bind_res (field ''summary'' as_str v) (\<lambda>s. bind_res (field ''detail'' as_str v) (\<lambda>d.
     Inr \<lparr>ag_agent = a, ag_summary = s, ag_detail = d\<rparr>)))"

definition research_source_of :: "pyval \<Rightarrow> research_source res" where
  "research_source_of v =
     bind_res (field ''index'' as_int v) (\<lambda>i. bind_res (field ''chunk_id'' as_str v) (\<lambda>c. bind_res (field ''paper_id'' as_str v) (\<lambda>p.
     bind_res (field ''paper_title'' (optional as_str) v) (\<lambda>t. bind_res (field ''citation'' as_str v) (\<lambda>ci.
     bind_res (field ''page_number'' (optional as_int) v) (\<lambda>pg. bind_res (field ''content'' as_str v) (\<lambda>x.
     Inr \<lparr>rr_index = i, rr_chunk = c, rr_paper = p, rr_title = t, rr_citation = ci, rr_page = pg, rr_content = x\<rparr>)))))))"

definition plan_info_of :: "pyval \<Rightarrow> plan_info res" where
  "plan_info_of v =
     bind_res (field ''intent'' as_str v) (\<lambda>i. bind_res (field ''sub_questions'' (listed as_str) v) (\<lambda>s.
     bind_res (field ''reasoning'' as_str v) (\<lambda>r. bind_res (field ''needs_web_search'' as_bool v) (\<lambda>w.
     Inr \<lparr>pi_intent = i, pi_subs = s, pi_reasoning = r, pi_web = w\<rparr>))))"

definition research_response_of :: "(string, pyval) dict \<Rightarrow> failure + research_response" where
  "research_response_of d =
     (let v = PyDict d in
      case bind_res (field ''question'' as_str v) (\<lambda>q. bind_res (field ''answer'' as_str v) (\<lambda>a.
        bind_res (field ''plan'' (optional plan_info_of) v) (\<lambda>p. bind_res (field ''sources'' (listed research_source_of) v) (\<lambda>s.
        bind_res (field ''citations'' (listed as_int) v) (\<lambda>c. bind_res (field ''confidence'' as_float v) (\<lambda>f.
        bind_res (field ''verification'' (optional dict_payload) v) (\<lambda>vf. bind_res (field ''revision_count'' as_int v) (\<lambda>n.
        bind_res (field ''usage_tokens'' as_int v) (\<lambda>u. bind_res (field ''steps'' (listed agent_step_of) v) (\<lambda>st.
        bind_res (field ''errors'' (listed as_str) v) (\<lambda>e.
        Inr \<lparr>re_question = q, re_answer = a, re_plan = p, re_sources = s, re_citations = c, re_confidence = f, re_verification = vf,
             re_revisions = n, re_usage = u, re_steps = st, re_errors = e\<rparr>))))))))))) of
        Inl _ \<Rightarrow> Inl ResponseInvalid | Inr r \<Rightarrow> Inr r)"

subsection \<open>The endpoints\<close>

text \<open>No result where the run exceeds the recursion limit, which is an error of the server.\<close>

definition research :: "nat \<Rightarrow> agent_context \<Rightarrow> research_request \<Rightarrow> 'w llm \<Rightarrow> failure + (failure + research_response) option \<times> 'w llm" where
  "research recursion_limit cx r gw =
     answered (valid_research r)
       (case run_research recursion_limit cx (rs_question r) (rs_limit r) (filters_dict (rs_filters r)) gw of
          (d, gw) \<Rightarrow> (map_option research_response_of d, gw))"

definition step_event :: "step \<Rightarrow> pyval" where
  "step_event s = (case step_dict s of PyDict d \<Rightarrow> PyDict ((''type'', PyStr ''step'') # d) | v \<Rightarrow> v)"

definition result_event :: "string \<Rightarrow> research_state \<Rightarrow> pyval" where
  "result_event dsh s = PyDict ((''type'', PyStr ''result'') # serialize_state dsh s)"

text \<open>What \<open>stream_research\<close> yields; it breaks off where the run exceeds the recursion limit.\<close>

definition research_events :: "nat \<Rightarrow> agent_context \<Rightarrow> research_request \<Rightarrow> 'w llm \<Rightarrow> pyval list \<times> bool" where
  "research_events recursion_limit cx r gw =
     (let c = start (initial_state (rs_question r) (rs_limit r) (filters_dict (rs_filters r))) gw;
          sent = map step_event (stream_steps 0 (snapshots cx recursion_limit c)) in
      case supersteps cx recursion_limit c of
        (None, s, _) \<Rightarrow> (sent @ [result_event (dash (cx_lib cx)) s], True)
      | (Some _, _) \<Rightarrow> (sent, False))"

definition research_streaming :: "nat \<Rightarrow> agent_context \<Rightarrow> (pyval \<Rightarrow> string) \<Rightarrow> research_request \<Rightarrow> 'w llm \<Rightarrow> failure + string" where
  "research_streaming recursion_limit cx dumps r gw =
     answered (valid_research r)
       (case research_events recursion_limit cx r gw of
          (es, ended) \<Rightarrow> concat (map (\<lambda>e. frame (dumps e)) es) @ (if ended then frame ''[DONE]'' else []))"

subsection \<open>Responses keep their schema\<close>

lemma field_dict [simp]: "field k f (PyDict d) = (case dget d k of None \<Rightarrow> Inl KeyError | Some w \<Rightarrow> f w)"
  by (simp add: field_def jkey_def split: option.split)

lemma mapM_map_Inr: "(\<And>x. x \<in> set xs \<Longrightarrow> f (g x) = Inr (h x)) \<Longrightarrow> mapM f (map g xs) = Inr (map h xs)"
  by (induction xs) simp_all

lemma listed_map: "(\<And>x. x \<in> set xs \<Longrightarrow> f (g x) = Inr (h x)) \<Longrightarrow> listed f (PyList (map g xs)) = Inr (map h xs)"
  by (simp add: listed_def as_list_def mapM_map_Inr)

lemma optional_opt_val:
  assumes "\<And>x. g x \<noteq> PyNone" "\<And>x. v = Some x \<Longrightarrow> f (g x) = Inr (h x)"
  shows "optional f (opt_val g v) = Inr (map_option h v)"
proof (cases v)
  case (Some x)
  then show ?thesis using assms(2) [OF Some] assms(1) [of x] by (cases "g x") (simp_all add: optional_def opt_val_def)
qed (simp add: optional_def opt_val_def)

definition step_of :: "step \<Rightarrow> agent_step" where
  "step_of s = \<lparr>ag_agent = sp_agent s, ag_summary = sp_summary s, ag_detail = sp_detail s\<rparr>"

definition source_of :: "string \<Rightarrow> nat \<times> retrieved_chunk \<Rightarrow> research_source" where
  "source_of dsh = (\<lambda>(i, c). \<lparr>rr_index = int i, rr_chunk = str_uuid (rc_chunk c), rr_paper = str_uuid (rc_paper c), rr_title = rc_title c,
     rr_citation = citation dsh c, rr_page = rc_page c, rr_content = rc_content c\<rparr>)"

definition plan_payload :: "plan \<Rightarrow> plan_info" where
  "plan_payload p = \<lparr>pi_intent = intent_value (pl_intent p), pi_subs = pl_subs p, pi_reasoning = pl_reasoning p, pi_web = pl_web p\<rparr>"

definition response_of :: "string \<Rightarrow> research_state \<Rightarrow> research_response" where
  "response_of dsh s =
     \<lparr>re_question = st_question s, re_answer = answer_text s, re_plan = map_option plan_payload (st_plan s),
      re_sources = map (source_of dsh) (List.enumerate 1 (st_chunks s)), re_citations = map int (st_citations s),
      re_confidence = st_confidence s,
      re_verification = map_option (\<lambda>v. case serialize_verification v of PyDict d \<Rightarrow> d | _ \<Rightarrow> []) (st_verification s),
      re_revisions = int (st_revisions s), re_usage = st_usage s, re_steps = map step_of (st_steps s), re_errors = st_errors s\<rparr>"

lemma simple_fields [simp]:
  "as_str (PyStr x) = Inr x" "as_int (PyInt i) = Inr i" "as_float (PyFloat f) = Inr f" "as_bool (PyBool b) = Inr b" "dict_payload (PyDict d) = Inr d"
  by (simp_all add: as_str_def as_int_def as_float_def as_bool_def dict_payload_def)

lemma optional_str: "optional as_str (opt_val PyStr t) = Inr t" and optional_int: "optional as_int (opt_val PyInt n) = Inr n"
  by (simp_all add: optional_opt_val [of PyStr t as_str id, simplified] optional_opt_val [of PyInt n as_int id, simplified] option.map_id)

lemma agent_step_of_dict: "agent_step_of (step_dict s) = Inr (step_of s)"
  by (simp add: agent_step_of_def step_dict_def step_of_def)

lemma research_source_of_dict: "research_source_of (serialize_source dsh ic) = Inr (source_of dsh ic)"
  by (simp add: research_source_of_def serialize_source_def source_of_def optional_str optional_int split: prod.split)

lemma listed_parts:
  "listed agent_step_of (PyList (map step_dict ss)) = Inr (map step_of ss)"
  "listed research_source_of (PyList (map (serialize_source dsh) cs)) = Inr (map (source_of dsh) cs)"
  "listed as_int (PyList (map (\<lambda>n. PyInt (int n)) ns)) = Inr (map int ns)"
  "listed as_str (PyList (map PyStr ts)) = Inr ts"
  using listed_map [of ts as_str PyStr id]
  by (auto intro!: listed_map simp: agent_step_of_dict research_source_of_dict)

lemma plan_info_of_dict: "optional plan_info_of (serialize_plan p) = Inr (map_option plan_payload p)"
  by (cases p) (simp_all add: serialize_plan_def optional_def plan_info_of_def plan_payload_def listed_parts)

lemma verification_dict:
  "optional dict_payload (opt_val serialize_verification v) = Inr (map_option (\<lambda>v. case serialize_verification v of PyDict d \<Rightarrow> d | _ \<Rightarrow> []) v)"
  by (rule optional_opt_val) (simp_all add: serialize_verification_def)

lemma research_response_of_state: "research_response_of (serialize_state dsh s) = Inr (response_of dsh s)"
  by (simp add: research_response_of_def serialize_state_def response_of_def plan_info_of_dict verification_dict listed_parts)

definition step_payload :: "agent_step \<Rightarrow> pyval" where
  "step_payload s = PyDict [(''type'', PyStr ''step''), (''agent'', PyStr (ag_agent s)), (''summary'', PyStr (ag_summary s)), (''detail'', PyStr (ag_detail s))]"

lemma step_payload_of: "step_payload (step_of s) = step_event s"
  by (simp add: step_payload_def step_of_def step_event_def step_dict_def)

lemma question_kept: "st_question (fst (snd (supersteps cx n (start (initial_state q m fs) gw)))) = q"
proof -
  have "(\<lambda>c. st_question (fst (snd c)) = q) (supersteps cx n (start (initial_state q m fs) gw))"
    by (rule research_induct [OF supersteps_reachable]) (auto simp: start_def initial_state_def elim!: agent_cases)
  then show ?thesis .
qed

lemma citations_of_run: "citations_ok (supersteps cx n (start (initial_state q m fs) gw))"
  by (rule research_induct [where I = citations_ok, OF supersteps_reachable])
     (cases gw, simp add: citations_ok_def start_def initial_state_def, rule citations_ok_step)


end
