(* ===== verification/AuthApi.thy ===== *)
theory AuthApi
  imports Accounts Http
begin

section \<open>The account endpoints (api/v1/endpoints/auth.py, schemas/user.py, schemas/api_key.py)\<close>

text \<open>
  Requests with their bounds, the handlers over the tables of accounts, and the responses, which name
  the columns that leave the server.  The caller is the result of \<open>get_current_active_user\<close>.
  Parameters: the check of an address, bcrypt, the JWT library, SHA-256, random bytes, new identifiers.
  The times of creation and the rate limit of five requests a minute are not represented.
\<close>

subsection \<open>Schemas\<close>

record user_create =
  uc_email :: string
  uc_password :: string
  uc_name :: "string option"

definition valid_user_create :: "(string \<Rightarrow> bool) \<Rightarrow> user_create \<Rightarrow> bool" where
  "valid_user_create is_email r \<longleftrightarrow> is_email (uc_email r) \<and> 8 \<le> length (uc_password r) \<and> length (uc_password r) \<le> 128
     \<and> (case uc_name r of None \<Rightarrow> True | Some n \<Rightarrow> length n \<le> 255)"

record user_read =
  ur_id :: uuid
  ur_email :: string
  ur_name :: "string option"
  ur_active :: bool
  ur_superuser :: bool

definition user_read_of :: "user_row \<Rightarrow> user_read" where
  "user_read_of u = \<lparr>ur_id = u_id u, ur_email = u_email u, ur_name = u_name u, ur_active = u_active u, ur_superuser = u_superuser u\<rparr>"

record token =
  tk_access :: string
  tk_type :: string

record api_key_read =
  kr_id :: uuid
  kr_name :: string
  kr_prefix :: string
  kr_used :: "nat option"
  kr_revoked :: "nat option"

definition api_key_read_of :: "api_key_row \<Rightarrow> api_key_read" where
  "api_key_read_of k = \<lparr>kr_id = ak_id k, kr_name = ak_name k, kr_prefix = ak_prefix k, kr_used = ak_used k, kr_revoked = ak_revoked k\<rparr>"

record api_key_created = api_key_read +
  kc_key :: string

definition valid_key_create :: "string \<Rightarrow> bool" where
  "valid_key_create name \<longleftrightarrow> 1 \<le> length name \<and> length name \<le> 255"

subsection \<open>Handlers\<close>

text \<open>An answer with what it leaves.\<close>

type_synonym 'r handled = "failure + (app_error + 'r) \<times> accounts"

definition register :: "(string \<Rightarrow> bool) \<Rightarrow> (string \<Rightarrow> string) \<Rightarrow> uuid \<Rightarrow> uuid \<Rightarrow> user_create \<Rightarrow> accounts \<Rightarrow> user_read handled" where
  "register is_email hash_password uid wid r s =
     answered (valid_user_create is_email r)
       (case register_user uid wid (hash_password (uc_password r)) (uc_email r) (uc_name r) s of
          (u, s) \<Rightarrow> (map_sum id user_read_of u, s))"

definition login_endpoint :: "jwt \<Rightarrow> (string \<Rightarrow> string \<Rightarrow> bool) \<Rightarrow> int \<Rightarrow> int \<Rightarrow> string \<Rightarrow> string \<Rightarrow> accounts \<Rightarrow> token handled" where
  "login_endpoint j checkpw now minutes username password s =
     Inr (map_sum id (\<lambda>t. \<lparr>tk_access = t, tk_type = ''bearer''\<rparr>) (login j checkpw now minutes s username password), s)"

type_synonym caller = "(app_error + user_row) \<times> accounts"

definition read_current_user :: "caller \<Rightarrow> user_read handled" where
  "read_current_user c = Inr (map_sum id user_read_of (fst c), snd c)"

definition create_key :: "(string \<Rightarrow> string) \<Rightarrow> string \<Rightarrow> uuid \<Rightarrow> string \<Rightarrow> caller \<Rightarrow> api_key_created handled" where
  "create_key sha random kid name c =
     (case c of
        (Inl e, s) \<Rightarrow> Inr (Inl e, s)
      | (Inr u, s) \<Rightarrow>
          answered (valid_key_create name)
            (case create_api_key sha random kid (u_id u) name s of
               (r, s) \<Rightarrow>
                 (map_sum id (\<lambda>(k, raw). \<lparr>kr_id = ak_id k, kr_name = ak_name k, kr_prefix = ak_prefix k, kr_used = ak_used k,
                    kr_revoked = ak_revoked k, kc_key = raw\<rparr>) r, s)))"

definition list_keys :: "caller \<Rightarrow> api_key_read list handled" where
  "list_keys c = Inr (map_sum id (\<lambda>u. map api_key_read_of (list_api_keys (snd c) (u_id u))) (fst c), snd c)"

definition delete_key :: "nat \<Rightarrow> uuid \<Rightarrow> caller \<Rightarrow> unit handled" where
  "delete_key now kid c =
     (case c of (Inl e, s) \<Rightarrow> Inr (Inl e, s) | (Inr u, s) \<Rightarrow> Inr (revoke_api_key now (u_id u) kid s))"

subsection \<open>Secrets stay inside\<close>

text \<open>The tables without the digests of passwords and keys.\<close>

definition visible :: "accounts \<Rightarrow> accounts" where
  "visible s = s\<lparr>ac_users := map (\<lambda>u. u\<lparr>u_password := []\<rparr>) (ac_users s), ac_keys := map (\<lambda>k. k\<lparr>ak_hash := []\<rparr>) (ac_keys s)\<rparr>"

text \<open>An answer with the visible part of what it leaves.\<close>

definition observed :: "'r handled \<Rightarrow> 'r handled" where
  "observed h = map_sum id (\<lambda>(r, s). (r, visible s)) h"

lemma find_visible: "(\<And>x. P (g x) = P x) \<Longrightarrow> find P (map g xs) = map_option g (find P xs)"
  by (induction xs) auto

lemma visible_users: "map (\<lambda>u. u\<lparr>u_password := []\<rparr>) (ac_users s) = ac_users (visible s)"
  and visible_keys: "map (\<lambda>k. k\<lparr>ak_hash := []\<rparr>) (ac_keys s) = ac_keys (visible s)"
  by (simp_all add: visible_def)

lemma email_visible: "(get_user_by_email s email = None) = (get_user_by_email (visible s) email = None)"
  by (simp add: get_user_by_email_def visible_def find_visible)

lemma register_visible:
  "observed (register is_email h uid wid r s) = register is_email (\<lambda>_. []) uid wid r (visible s)"
  using email_visible [of s "uc_email r"]
  by (auto simp: observed_def register_def answered_def register_user_def Let_def visible_def user_read_of_def)

lemma list_keys_visible: "observed (list_keys (c, s)) = list_keys (map_sum id (\<lambda>u. u\<lparr>u_password := []\<rparr>) c, visible s)"
proof -
  have "map api_key_read_of (filter (\<lambda>k. ak_user k = x) (map (\<lambda>k. k\<lparr>ak_hash := []\<rparr>) ks)) = map api_key_read_of (filter (\<lambda>k. ak_user k = x) ks)" for x ks
    by (induction ks) (simp_all add: api_key_read_of_def)
  then show ?thesis by (cases c) (simp_all add: observed_def list_keys_def list_api_keys_def visible_def rev_map [symmetric] del: rev_map)
qed

lemma delete_key_visible:
  "observed (delete_key now kid (c, s)) = delete_key now kid (map_sum id (\<lambda>u. u\<lparr>u_password := []\<rparr>) c, visible s)"
  by (cases c) (auto simp: observed_def delete_key_def revoke_api_key_def visible_def update_key_def find_visible split: option.splits)



end
