(* ===== verification/CypherQuery.thy ===== *)
theory CypherQuery
  imports Regex GraphSchema
begin

section \<open>The validator for generated Cypher (app/graph/query.py)\<close>

text \<open>
  \<open>validate_cypher\<close> with its helpers, the regular expressions transcribed one to one.
  The configured limit \<open>graph_max_query_limit\<close> is an argument.  The lemmas show what an
  accepted query satisfies; the last section shows two inputs on which the validator does
  not do what its comments say.
\<close>

datatype cypher_error =
    EmptyQuery
  | MultipleStatements
  | DisallowedKeyword string
  | BadStart
  | NoReturn
  | UnknownLabels "string list"
  | UnknownRelationships "string list"

definition ALLOWED_LABELS :: "string list" where
  "ALLOWED_LABELS = map label_value all_labels"

definition ALLOWED_RELATIONSHIPS :: "string list" where
  "ALLOWED_RELATIONSHIPS = dkeys ALLOWED_EDGES"

definition FORBIDDEN_KEYWORDS :: "string list" where
  "FORBIDDEN_KEYWORDS =
    [''create'', ''merge'', ''set'', ''delete'', ''detach'', ''remove'', ''drop'',
     ''foreach'', ''call'', ''load'', ''using'', ''periodic'', ''commit'',
     ''apoc'', ''dbms'', ''db.'', ''terminate'', ''grant'', ''revoke'', ''alter'']"

definition ascii_alpha :: "char \<Rightarrow> bool" where
  "ascii_alpha c \<longleftrightarrow> (let n = code_pt c in (65 \<le> n \<and> n \<le> 90) \<or> (97 \<le> n \<and> n \<le> 122))"

definition space_rx :: rx where
  "space_rx = Cls is_space"

definition LABEL_PATTERN :: rx where
  "LABEL_PATTERN = cats [chr CHR '':'', star space_rx,
     Cap 1 (Cat (Cls (\<lambda>c. ascii_alpha c \<or> c = CHR ''_''))
                (star (Cls (\<lambda>c. ascii_alpha c \<or> is_digit c \<or> c = CHR ''_''))))]"

definition REL_PATTERN :: rx where
  "REL_PATTERN = cats [chr CHR ''['', star space_rx, star (Cls is_word), star space_rx, chr CHR '':'',
     star space_rx,
     Cap 1 (let b = Cls (\<lambda>c. ascii_alpha c \<or> c \<in> {CHR ''_'', CHR ''|'', CHR 0x60} \<or> is_space c)
            in Cat b (Star False b)),
     star space_rx,
     opt (Cat (chr CHR ''*'') (star (Cls (\<lambda>c. is_digit c \<or> c = CHR ''.'')))),
     star space_rx, chr CHR '']'']"

definition LIMIT_PATTERN :: rx where
  "LIMIT_PATTERN = cats [WordBoundary, ilit ''limit'', plus space_rx, Cap 1 (plus (Cls is_digit)),
     star space_rx, EndOfText]"

definition fence :: string where
  "fence = [CHR 0x60, CHR 0x60, CHR 0x60]"

definition strip_fences :: "string \<Rightarrow> string" where
  "strip_fences text =
     (if sublist fence text
      then re_sub (Cat (lit fence) (opt (Alt (lit ''cypher'') (lit ''sql'')))) [] text
      else text)"

definition strip_string_literals :: "string \<Rightarrow> string" where
  "strip_string_literals query =
     (let q = CHR 0x27; d = CHR 0x22
      in re_sub (Alt (cats [chr q, star (none_of [q]), chr q]) (cats [chr d, star (none_of [d]), chr d]))
           [q, q] query)"

definition relationship_tokens :: "string \<Rightarrow> string list" where
  "relationship_tokens query =
     filter (\<lambda>t. t \<noteq> []) (map strip (concat (map
       (\<lambda>m. split_on CHR ''|'' (filter (\<lambda>c. c \<noteq> CHR 0x60) m))
       (re_findall_group 1 REL_PATTERN query))))"

definition enforce_limit :: "string \<Rightarrow> nat \<Rightarrow> string" where
  "enforce_limit query max_limit =
     (case re_search LIMIT_PATTERN query of
        None \<Rightarrow> query @ '' LIMIT '' @ str_nat max_limit
      | Some (m, k) \<Rightarrow>
          if nat_of_digits (group 1 k) \<le> max_limit then query
          else re_sub LIMIT_PATTERN (''LIMIT '' @ str_nat max_limit) query)"

definition keyword_rx :: "string \<Rightarrow> rx" where
  "keyword_rx kw = Cat (Behind False (\<lambda>c. is_word c \<or> c = CHR ''.'')) (lit kw)"

definition start_rx :: rx where
  "start_rx = cats [StartOfText, star space_rx,
     alts [lit ''match'', cats [lit ''optional'', plus space_rx, lit ''match''], lit ''with'', lit ''unwind''],
     WordBoundary]"

definition rstrip_by :: "(char \<Rightarrow> bool) \<Rightarrow> string \<Rightarrow> string" where
  "rstrip_by P s = rev (dropWhile P (rev s))"

definition cypher_query_text :: "string \<Rightarrow> string" where
  "cypher_query_text cypher = strip (rstrip_by (\<lambda>c. c = CHR '';'') (strip (strip_fences cypher)))"

definition unknown_labels :: "string \<Rightarrow> string list" where
  "unknown_labels scrubbed =
     filter (\<lambda>l. l \<notin> set ALLOWED_LABELS \<and> l \<notin> set (relationship_tokens scrubbed))
       (re_findall_group 1 LABEL_PATTERN scrubbed)"

definition unknown_rels :: "string \<Rightarrow> string list" where
  "unknown_rels scrubbed =
     filter (\<lambda>r. r \<notin> set ALLOWED_RELATIONSHIPS) (relationship_tokens scrubbed)"

definition validate_cypher :: "nat \<Rightarrow> string \<Rightarrow> nat option \<Rightarrow> cypher_error + string" where
  "validate_cypher graph_max_query_limit cypher max_limit_arg =
     (let max_limit = (case max_limit_arg of
            None \<Rightarrow> graph_max_query_limit
          | Some m \<Rightarrow> if m = 0 then graph_max_query_limit else m);
          query = cypher_query_text cypher
      in if query = [] then Inl EmptyQuery
      else if CHR '';'' \<in> set query then Inl MultipleStatements
      else let scrubbed = strip_string_literals query; lowered = lower scrubbed in
        (case find (\<lambda>kw. re_found (keyword_rx kw) lowered) FORBIDDEN_KEYWORDS of
           Some kw \<Rightarrow> Inl (DisallowedKeyword kw)
         | None \<Rightarrow>
             if \<not> re_match_at_start start_rx lowered then Inl BadStart
             else if \<not> sublist '' return '' ('' '' @ lowered @ '' '') then Inl NoReturn
             else if unknown_labels scrubbed \<noteq> [] then Inl (UnknownLabels (unknown_labels scrubbed))
             else if unknown_rels scrubbed \<noteq> []
               then Inl (UnknownRelationships (unknown_rels scrubbed))
             else Inr (enforce_limit query max_limit)))"

subsection \<open>Literal patterns\<close>

lemma rmatch_lit: "rmatch (lit w) (p, s, k) = (if prefix w s then [(rev w @ p, drop (length w) s, k)] else [])"
proof (induction w arbitrary: p s)
  case Nil
  then show ?case by simp
next
  case (Cons c w)
  then show ?case by (cases s) (auto simp: chr_def)
qed

lemma search_from_None_iff:
  "search_from r p s = None \<longleftrightarrow> (\<forall>u v. s = u @ v \<longrightarrow> rmatch r (rev u @ p, v, []) = [])"
proof (induction s arbitrary: p)
  case Nil
  then show ?case by (auto simp: search_from.simps [of r p "[]"] split: list.split)
next
  case (Cons c s)
  show ?case
  proof (cases "rmatch r (p, c # s, [])")
    case Nil
    then have "search_from r p (c # s) = None \<longleftrightarrow> search_from r (c # p) s = None"
      by (simp add: search_from.simps [of r p "c # s"])
    also have "\<dots> \<longleftrightarrow> (\<forall>u v. c # s = u @ v \<longrightarrow> rmatch r (rev u @ p, v, []) = [])"
    proof (unfold Cons.IH, intro iffI allI impI)
      fix u v assume a: "\<forall>u v. s = u @ v \<longrightarrow> rmatch r (rev u @ c # p, v, []) = []" "c # s = u @ v"
      then show "rmatch r (rev u @ p, v, []) = []" using Nil by (cases u) auto
    next
      fix u v assume "\<forall>u v. c # s = u @ v \<longrightarrow> rmatch r (rev u @ p, v, []) = []" "s = u @ v"
      then show "rmatch r (rev u @ c # p, v, []) = []" by (auto dest: spec [of _ "c # u"])
    qed
    finally show ?thesis .
  next
    case (Cons st sts)
    then have "search_from r p (c # s) \<noteq> None"
      by (cases st) (simp add: search_from.simps [of r p "c # s"])
    moreover have "c # s = [] @ (c # s)" "rmatch r (rev [] @ p, c # s, []) \<noteq> []"
      using Cons by simp_all
    ultimately show ?thesis by blast
  qed
qed

text \<open>A keyword is found exactly where it occurs after no word character and no dot.\<close>

definition starts_word :: "string \<Rightarrow> bool" where
  "starts_word before \<longleftrightarrow> before = [] \<or> \<not> (is_word (last before) \<or> last before = CHR ''.'')"

lemma keyword_found_iff:
  "re_found (keyword_rx kw) s \<longleftrightarrow> (\<exists>u v. s = u @ kw @ v \<and> starts_word u)"
proof -
  have m: "rmatch (keyword_rx kw) (rev u, w, []) \<noteq> [] \<longleftrightarrow> starts_word u \<and> prefix kw w" for u w
    by (cases u rule: rev_cases) (auto simp: keyword_rx_def rmatch_lit starts_word_def)
  have "re_found (keyword_rx kw) s \<longleftrightarrow> (\<exists>u w. s = u @ w \<and> rmatch (keyword_rx kw) (rev u, w, []) \<noteq> [])"
    unfolding re_found_def search_from_None_iff by auto
  then show ?thesis unfolding m by (auto simp: prefix_def)
qed

lemma keyword_found_sublist: "re_found (keyword_rx kw) s \<Longrightarrow> sublist kw s"
  by (auto simp: keyword_found_iff sublist_def)

subsection \<open>The row limit\<close>

text \<open>A trailing \<open>LIMIT n\<close> clause with \<open>n\<close> at most \<open>L\<close>.\<close>

definition limit_clause :: "nat \<Rightarrow> string \<Rightarrow> bool" where
  "limit_clause L tail \<longleftrightarrow> (\<exists>l ws ds tl. tail = l @ ws @ ds @ tl \<and> lower l = ''limit''
     \<and> ws \<noteq> [] \<and> (\<forall>c \<in> set ws. is_space c) \<and> ds \<noteq> [] \<and> (\<forall>c \<in> set ds. is_digit c)
     \<and> (\<forall>c \<in> set tl. is_space c) \<and> nat_of_digits ds \<le> L)"

lemma rmatch_ilit:
  "(p', s', k') \<in> set (rmatch (ilit w) (p, s, k)) \<Longrightarrow>
   \<exists>l. s = l @ s' \<and> lower l = w \<and> k' = k \<and> p' = rev l @ p"
proof (induction w arbitrary: p s)
  case Nil
  then show ?case by (simp add: lower_def)
next
  case (Cons c w)
  then obtain d t where s: "s = d # t" "lower_char d = c" "(p', s', k') \<in> set (rmatch (ilit w) (d # p, t, k))"
    by (auto split: list.splits if_splits)
  from Cons.IH [OF s(3)] obtain l where "t = l @ s'" "lower l = w" "k' = k" "p' = rev l @ d # p" by blast
  then show ?case using s by (auto simp: lower_def intro!: exI [of _ "d # l"])
qed

lemma rmatch_Star_Cls:
  "(p', s', k') \<in> set (rmatch (Star g (Cls P)) st) \<Longrightarrow>
   \<exists>w. fst (snd st) = w @ s' \<and> (\<forall>c \<in> set w. P c) \<and> k' = snd (snd st)"
proof (induction "Star g (Cls P)" st rule: rmatch.induct)
  case (5 st)
  obtain p s k where st: "st = (p, s, k)" by (cases st)
  from "5.prems" consider "(p', s', k') = st"
    | c t where "s = c # t" "P c" "(p', s', k') \<in> set (rmatch (Star g (Cls P)) (c # p, t, k))"
    by (auto simp: st rmatch.simps(5) [of g "Cls P" "(p, s, k)"] Let_def split: if_splits list.splits)
  then show ?case
  proof cases
    case 1
    then show ?thesis using st by auto
  next
    case (2 c t)
    have "\<exists>w. fst (snd (c # p, t, k)) = w @ s' \<and> (\<forall>c \<in> set w. P c) \<and> k' = snd (snd (c # p, t, k))"
      by (rule "5.hyps" [of "(c # p, t, k)"]) (use 2 st in auto)
    then obtain w where "t = w @ s'" "\<forall>c \<in> set w. P c" "k' = k" by auto
    then show ?thesis using 2 st by (auto intro!: exI [of _ "c # w"])
  qed
qed

lemma rmatch_plus_Cls:
  "(p', s', k') \<in> set (rmatch (plus (Cls P)) (p, s, k)) \<Longrightarrow>
   \<exists>w. s = w @ s' \<and> w \<noteq> [] \<and> (\<forall>c \<in> set w. P c) \<and> k' = k"
  unfolding plus_def
  by (auto split: list.splits if_splits dest!: rmatch_Star_Cls)

lemma LIMIT_match:
  assumes "(p', s', k) \<in> set (rmatch LIMIT_PATTERN (p, s, []))"
  shows "\<exists>l ws ds tl. s = l @ ws @ ds @ tl @ s' \<and> lower l = ''limit''
     \<and> ws \<noteq> [] \<and> (\<forall>c \<in> set ws. is_space c) \<and> ds \<noteq> [] \<and> (\<forall>c \<in> set ds. is_digit c)
     \<and> (\<forall>c \<in> set tl. is_space c) \<and> group 1 k = ds \<and> (s' = [] \<or> s' = [CHR 0x0A])"
proof -
  obtain p1 s1 k1 p2 s2 k2 p3 s3 k3 p4 s4 k4 where
    m: "(p1, s1, k1) \<in> set (rmatch (ilit ''limit'') (p, s, []))"
       "(p2, s2, k2) \<in> set (rmatch (plus space_rx) (p1, s1, k1))"
       "(p3, s3, k3) \<in> set (rmatch (plus (Cls is_digit)) (p2, s2, k2))"
       "(p4, s4, k4) \<in> set (rmatch (star space_rx) (p3, s3, (1, take (length s2 - length s3) s2) # k3))"
       "(p', s', k) \<in> set (rmatch EndOfText (p4, s4, k4))"
    using assms unfolding LIMIT_PATTERN_def
    by (fastforce split: if_splits simp del: ilit.simps rmatch.simps(10) simp: numeral_2_eq_2)
  obtain l where l: "s = l @ s1" "lower l = ''limit''" using rmatch_ilit [OF m(1)] by blast
  obtain ws where ws: "s1 = ws @ s2" "ws \<noteq> []" "\<forall>c \<in> set ws. is_space c"
    using rmatch_plus_Cls [OF m(2) [unfolded space_rx_def]] by blast
  obtain ds where ds: "s2 = ds @ s3" "ds \<noteq> []" "\<forall>c \<in> set ds. is_digit c"
    using rmatch_plus_Cls [OF m(3)] by blast
  obtain tl where tl: "s3 = tl @ s4" "\<forall>c \<in> set tl. is_space c" "k4 = (1, ds) # k3"
    using rmatch_Star_Cls [OF m(4) [unfolded space_rx_def star_def]] ds(1) by auto
  have e: "s' = s4" "k = k4" "s4 = [] \<or> s4 = [CHR 0x0A]" using m(5) by (auto split: if_splits)
  show ?thesis using l ws ds tl e by (auto simp: group_def)
qed

lemma lower_LIMIT: "lower ''LIMIT'' = ''limit'' \<and> is_space CHR '' ''"
  by code_simp

lemma enforce_limit_bounded:
  "\<exists>pre tail. enforce_limit query L = pre @ tail \<and> prefix pre (query @ '' '') \<and> limit_clause L tail"
proof -
  have own: "limit_clause L (''LIMIT'' @ '' '' @ str_nat L @ tl)" if "\<forall>c \<in> set tl. is_space c" for tl
    unfolding limit_clause_def using str_nat_digits [of L] that
    by (intro exI [of _ "''LIMIT''"] exI [of _ "'' ''"] exI [of _ "str_nat L"] exI [of _ tl])
       (auto simp: lower_LIMIT)
  show ?thesis
  proof (cases "search_from LIMIT_PATTERN [] query")
    case None
    then show ?thesis using own [of "[]"]
      by (intro exI [of _ "query @ '' ''"] exI [of _ "''LIMIT'' @ '' '' @ str_nat L"])
         (simp add: enforce_limit_def re_search_def)
  next
    case (Some x)
    obtain sk m k p' s' where x: "x = (sk, m, k, p', s')" by (cases x)
    note c = search_from_consumes [OF Some [unfolded x]]
    obtain l ws ds tl where cl: "m @ s' = l @ ws @ ds @ tl @ s'" "lower l = ''limit''" "ws \<noteq> []"
      "\<forall>c \<in> set ws. is_space c" "ds \<noteq> []" "\<forall>c \<in> set ds. is_digit c" "\<forall>c \<in> set tl. is_space c"
      "group 1 k = ds" "s' = [] \<or> s' = [CHR 0x0A]"
      using LIMIT_match [of p' s' k] c by blast
    have sp: "\<forall>c \<in> set s'. is_space c" using cl(9) by (auto simp: is_space_def code_pt_def)
    show ?thesis
    proof (cases "nat_of_digits ds \<le> L")
      case True
      have "m @ s' = l @ ws @ ds @ (tl @ s')" "\<forall>c \<in> set (tl @ s'). is_space c"
        using cl(1,7) sp by auto
      then have "limit_clause L (m @ s')"
        unfolding limit_clause_def using cl(2-6) True by blast
      then show ?thesis using True Some x cl(8) c
        by (intro exI [of _ sk] exI [of _ "m @ s'"]) (simp add: enforce_limit_def re_search_def)
    next
      case False
      have "m = l @ ws @ ds @ tl" using cl(1) by simp
      then have ne: "m \<noteq> []" using cl(3) by simp
      have "search_from LIMIT_PATTERN p' s' = None"
      proof (rule ccontr)
        assume "search_from LIMIT_PATTERN p' s' \<noteq> None"
        then obtain y where "search_from LIMIT_PATTERN p' s' = Some y" by blast
        moreover obtain sk2 m2 k2 p2 s2 where y: "y = (sk2, m2, k2, p2, s2)" by (cases y)
        ultimately have c2: "s' = sk2 @ m2 @ s2"
          "(p2, s2, k2) \<in> set (rmatch LIMIT_PATTERN (rev sk2 @ p', m2 @ s2, []))"
          using search_from_consumes by blast+
        then obtain l2 ws2 ds2 tl2 where l2: "m2 @ s2 = l2 @ ws2 @ ds2 @ tl2 @ s2" "lower l2 = ''limit''"
          using LIMIT_match [OF c2(2)] by blast
        have "length l2 = length (lower l2)" by simp
        also have "\<dots> = 5" using l2(2) by simp
        finally have "5 \<le> length (m2 @ s2)" using l2(1) by simp
        moreover have "length s' \<le> 1" using cl(9) by auto
        moreover have "length (m2 @ s2) \<le> length s'" unfolding c2(1) by simp
        ultimately show False by linarith
      qed
      then have "scan LIMIT_PATTERN p' s' = ([], s')" by (simp add: scan.simps [of LIMIT_PATTERN p' s'])
      then have "re_sub LIMIT_PATTERN (''LIMIT '' @ str_nat L) query = sk @ (''LIMIT'' @ '' '' @ str_nat L @ s')"
        using Some x ne by (simp add: re_sub_def scan.simps [of LIMIT_PATTERN "[]" query])
      then show ?thesis using False Some x cl(8) c own [OF sp]
        by (intro exI [of _ sk] exI [of _ "''LIMIT'' @ '' '' @ str_nat L @ s'"])
           (simp add: enforce_limit_def re_search_def)
    qed
  qed
qed

subsection \<open>What an accepted query satisfies\<close>

definition effective_limit :: "nat \<Rightarrow> nat option \<Rightarrow> nat" where
  "effective_limit cfg arg = (case arg of None \<Rightarrow> cfg | Some m \<Rightarrow> if m = 0 then cfg else m)"

lemma validate_InrD:
  assumes "validate_cypher cfg cypher arg = Inr q"
  defines "query \<equiv> cypher_query_text cypher"
  defines "scrubbed \<equiv> strip_string_literals query"
  shows "q = enforce_limit query (effective_limit cfg arg)" "CHR '';'' \<notin> set query"
    "\<forall>kw \<in> set FORBIDDEN_KEYWORDS. \<not> re_found (keyword_rx kw) (lower scrubbed)"
    "re_match_at_start start_rx (lower scrubbed)"
    "unknown_labels scrubbed = []" "unknown_rels scrubbed = []"
  using assms(1)
  unfolding validate_cypher_def Let_def query_def [symmetric] scrubbed_def [symmetric]
    effective_limit_def [symmetric]
  by (auto split: if_splits option.splits simp: find_None_iff)


text \<open>The query handed to the database ends in a \<open>LIMIT n\<close> clause with \<open>n\<close> at most the
  caller's limit (the configured one when none, or 0, is given).\<close>

theorem validate_cypher_limit:
  assumes "validate_cypher cfg cypher arg = Inr q"
  shows "\<exists>pre tail. q = pre @ tail \<and> prefix pre (cypher_query_text cypher @ '' '')
           \<and> limit_clause (effective_limit cfg arg) tail"
  unfolding validate_InrD(1) [OF assms] by (rule enforce_limit_bounded)

lemma no_keyword:
  "filter (\<lambda>kw. sublist kw l) FORBIDDEN_KEYWORDS = [] \<Longrightarrow>
   find (\<lambda>kw. re_found (keyword_rx kw) l) FORBIDDEN_KEYWORDS = None"
  using keyword_found_sublist by (auto simp: find_None_iff filter_empty_conv)

text \<open>Evaluating the validator step by step, the keywords by plain substring search.\<close>

lemma validate_accepts:
  assumes "cypher_query_text c = q" "lower (strip_string_literals q) = l"
    and "filter (\<lambda>kw. sublist kw l) FORBIDDEN_KEYWORDS = []" "q \<noteq> [] \<and> CHR '';'' \<notin> set q"
    and "re_match_at_start start_rx l" "sublist '' return '' ('' '' @ l @ '' '')"
    and "unknown_labels (strip_string_literals q) = [] \<and> unknown_rels (strip_string_literals q) = []"
  shows "validate_cypher cfg c None = Inr (enforce_limit q cfg)"
  using assms(4-7) unfolding validate_cypher_def Let_def assms(1,2) no_keyword [OF assms(3)] option.case
  by simp

definition good_query :: string where
  "good_query = ''MATCH (p:Paper)-[:CITES]->(q) RETURN p''"

lemma good_query_ok: "validate_cypher 5 good_query None = Inr (good_query @ '' LIMIT 5'')"
proof -
  have "validate_cypher 5 good_query None = Inr (enforce_limit good_query 5)"
    by (rule validate_accepts [of _ good_query "''match (p:paper)-[:cites]->(q) return p''"]; code_simp)
  moreover have "enforce_limit good_query 5 = good_query @ '' LIMIT 5''" by code_simp
  ultimately show ?thesis by simp
qed


lemma validate_cypher_limit_witness:
  "\<exists>pre tail. good_query @ '' LIMIT 5'' = pre @ tail \<and> limit_clause 5 tail"
  using validate_cypher_limit [OF good_query_ok] by (auto simp: effective_limit_def)

subsection \<open>Where the validator and its comments part\<close>

text \<open>
  openCypher string literals allow backslash escapes; \<open>outside_literals\<close> is the text
  outside them by that rule (quote character, then text with escapes, up to the quote).
\<close>

fun outside_literals :: "char option \<Rightarrow> string \<Rightarrow> string" where
  "outside_literals q [] = []"
| "outside_literals None (c # cs) =
     (if c = CHR 0x27 \<or> c = CHR 0x22 then outside_literals (Some c) cs
      else c # outside_literals None cs)"
| "outside_literals (Some q) [c] = []"
| "outside_literals (Some q) (c # d # cs) =
     (if c = CHR 0x5C then outside_literals (Some q) cs
      else if c = q then outside_literals None (d # cs)
      else outside_literals (Some q) (d # cs))"

definition smuggled_query :: string where
  "smuggled_query = ''MATCH (n) WHERE n.k='' @ [CHR 0x27, CHR 0x5C, CHR 0x27, CHR 0x27]
     @ '' DETACH DELETE n WITH '' @ [CHR 0x27] @ ''x'' @ [CHR 0x27] @ '' AS y RETURN y''"

definition smuggled_scrubbed :: string where
  "smuggled_scrubbed = ''match (n) where n.k='' @ [CHR 0x27, CHR 0x27, CHR 0x27, CHR 0x27]
     @ ''x'' @ [CHR 0x27] @ '' as y return y''"

text \<open>The literal scrubber knows no backslash escapes, so a query whose first string is an
  escaped quote is accepted although \<open>DETACH DELETE\<close> stands outside its string literals:
  the comment that a keyword hidden inside quotes cannot execute does not hold.\<close>

theorem validator_accepts_hidden_delete:
  "validate_cypher 100 smuggled_query None = Inr (smuggled_query @ '' LIMIT 100'')
   \<and> sublist '' DETACH DELETE n '' (outside_literals None smuggled_query)"
proof -
  have "validate_cypher 100 smuggled_query None = Inr (enforce_limit smuggled_query 100)"
    by (rule validate_accepts [of _ smuggled_query smuggled_scrubbed]; code_simp)
  moreover have "enforce_limit smuggled_query 100 = smuggled_query @ '' LIMIT 100''" by code_simp
  moreover have "sublist '' DETACH DELETE n '' (outside_literals None smuggled_query)" by code_simp
  ultimately show ?thesis by simp
qed

text \<open>A query is rejected as returning nothing when its \<open>RETURN\<close> starts a new line,
  because the check looks for \<open>return\<close> between two blanks.\<close>

theorem validator_rejects_multiline_return:
  "validate_cypher 100 (''MATCH (p:Paper)'' @ [CHR 0x0A] @ ''RETURN p'') None = Inl NoReturn"
proof -
  let ?q = "''MATCH (p:Paper)'' @ [CHR 0x0A] @ ''RETURN p''"
  let ?l = "''match (p:paper)'' @ [CHR 0x0A] @ ''return p''"
  have q: "cypher_query_text ?q = ?q" by code_simp
  have l: "lower (strip_string_literals ?q) = ?l" by code_simp
  have "filter (\<lambda>kw. sublist kw ?l) FORBIDDEN_KEYWORDS = []" by code_simp
  note k = no_keyword [OF this]
  have m: "re_match_at_start start_rx ?l" by code_simp
  have r: "\<not> sublist '' return '' ('' '' @ ?l @ '' '')" by code_simp
  show ?thesis
    unfolding validate_cypher_def Let_def q l k option.case using m r by simp
qed

end
