(* ===== verification/GraphQuery.thy ===== *)
theory GraphQuery
  imports CypherQuery Entities
begin

section \<open>Questions to the graph (generate_cypher and answer_graph_question of graph/query.py)\<close>

text \<open>
  A model writes the query, the validator of \<open>CypherQuery\<close> decides, the store runs it.  \<open>run_read\<close> of
  the store is a parameter that answers rows, or an exception with its text; the in-memory store
  answers \<open>NotImplementedError\<close>.
\<close>

definition schema_node_line :: "NodeLabel \<Rightarrow> string" where
  "schema_node_line l =
     ''  (:'' @ label_value l @ (if l = PAPER then '' {key, name, paper_id, workspace_id, year}'' else '' {key, name}'') @ '')''"

definition schema_edge_line :: "string \<times> string \<times> string \<Rightarrow> string" where
  "schema_edge_line = (\<lambda>(ty, a, b). ''  (:'' @ a @ '')-[:'' @ ty @ '']->(:'' @ b @ '')'')"

definition schema_description :: string where
  "schema_description = join [CHR 0x0A]
     (''Nodes:'' # map schema_node_line all_labels
      @ ''Relationships:'' # map schema_edge_line (sort_key (\<lambda>(ty, a, b). map code_pt ty) ALLOWED_EDGES))"

text \<open>\<open>str(exc)\<close> of an \<open>UnsafeCypherError\<close>\<close>

definition cypher_message :: "cypher_error \<Rightarrow> string" where
  "cypher_message e =
     (case e of
        EmptyQuery \<Rightarrow> ''Empty query''
      | MultipleStatements \<Rightarrow> ''Multiple statements are not allowed''
      | DisallowedKeyword kw \<Rightarrow> ''Disallowed keyword: '' @ kw
      | BadStart \<Rightarrow> ''Query must start with MATCH, OPTIONAL MATCH, WITH, or UNWIND''
      | NoReturn \<Rightarrow> ''Query must RETURN something''
      | UnknownLabels ls \<Rightarrow> ''Unknown label(s): '' @ sorted_names (remdups ls)
      | UnknownRelationships rs \<Rightarrow> ''Unknown relationship(s): '' @ sorted_names (remdups rs))"

record graph_query_result =
  gq_question :: string
  gq_cypher :: string
  gq_rows :: "(string, pyval) dict list"
  gq_error :: "string option"

definition succeeded :: "graph_query_result \<Rightarrow> bool" where
  "succeeded r \<longleftrightarrow> gq_error r = None"

definition generate_cypher :: "string \<Rightarrow> (string, 'w) act" where
  "generate_cypher question =
     bind_llm (ask NL_TO_CYPHER [(''schema'', schema_description), (''question'', question)] 0 400) (\<lambda>c.
     return_llm (strip (c_text c)))"

definition refused :: "string \<Rightarrow> string \<Rightarrow> string \<Rightarrow> graph_query_result" where
  "refused question cypher msg = \<lparr>gq_question = question, gq_cypher = cypher, gq_rows = [], gq_error = Some msg\<rparr>"

type_synonym run_read = "string \<Rightarrow> py_error \<times> string + (string, pyval) dict list"

definition in_memory_run_read :: run_read where
  "in_memory_run_read cypher =
     Inl (NotImplementedErr, ''The in-memory graph does not execute Cypher. Configure Neo4j (GRAPH_STORE_BACKEND=neo4j) to use natural-language graph queries.'')"

definition execute :: "run_read \<Rightarrow> string \<Rightarrow> string \<Rightarrow> graph_query_result" where
  "execute run question cypher =
     (case run cypher of
        Inl (NotImplementedErr, msg) \<Rightarrow> refused question cypher msg
      | Inl _ \<Rightarrow> refused question cypher ''Query execution failed''
      | Inr rows \<Rightarrow> \<lparr>gq_question = question, gq_cypher = cypher, gq_rows = rows, gq_error = None\<rparr>)"

definition answer_graph_question :: "nat \<Rightarrow> run_read \<Rightarrow> string \<Rightarrow> 'w llm \<Rightarrow> graph_query_result \<times> 'w llm" where
  "answer_graph_question limit run question gw =
     (case generate_cypher question gw of
        (Inl _, gw) \<Rightarrow> (refused question [] ''Could not generate a query'', gw)
      | (Inr raw, gw) \<Rightarrow>
          (case validate_cypher limit raw None of
             Inl e \<Rightarrow> (refused question [] (cypher_message e), gw)
           | Inr cypher \<Rightarrow> (execute run question cypher, gw)))"

text \<open>The queries the validator lets through.\<close>

definition validated :: "nat \<Rightarrow> string \<Rightarrow> bool" where
  "validated limit q \<longleftrightarrow> (\<exists>raw. validate_cypher limit raw None = Inr q)"

text \<open>C30: The store only ever sees validated queries: a store that refused all others would give the same
  answers, whatever the model writes.  Rows come only from the store, for the query that is
  reported; a question without a query reports an error; and on the in-memory store, which runs
  none, every question ends in an error.\<close>

theorem graph_questions_are_validated:
  "answer_graph_question limit run question gw
     = answer_graph_question limit (\<lambda>q. if validated limit q then run q else Inl (RuntimeErr [], [])) question gw
   \<and> (let r = fst (answer_graph_question limit run question gw) in
        gq_question r = question
        \<and> (case gq_error r of
             None \<Rightarrow> validated limit (gq_cypher r) \<and> run (gq_cypher r) = Inr (gq_rows r)
           | Some _ \<Rightarrow> gq_rows r = [] \<and> (gq_cypher r = [] \<or> validated limit (gq_cypher r))))
   \<and> gq_error (fst (answer_graph_question limit in_memory_run_read question gw)) \<noteq> None"
proof -
  obtain g gw1 where g: "generate_cypher question gw = (g, gw1)" by (metis surj_pair)
  show ?thesis
  proof (cases g)
    case (Inl e)
    then show ?thesis by (simp add: answer_graph_question_def g refused_def)
  next
    case (Inr raw)
    show ?thesis
    proof (cases "validate_cypher limit raw None")
      case (Inl e)
      then show ?thesis by (simp add: answer_graph_question_def g Inr refused_def)
    next
      case q: (Inr q)
      then have v: "validated limit q" by (auto simp: validated_def)
      have a: "gq_question (execute run question q) = question
        \<and> (case gq_error (execute run question q) of
             None \<Rightarrow> validated limit (gq_cypher (execute run question q)) \<and> run (gq_cypher (execute run question q)) = Inr (gq_rows (execute run question q))
           | Some _ \<Rightarrow> gq_rows (execute run question q) = []
               \<and> (gq_cypher (execute run question q) = [] \<or> validated limit (gq_cypher (execute run question q))))"
        using v by (auto simp: execute_def refused_def split: sum.split prod.split py_error.split)
      have same: "execute run question q = execute (\<lambda>q. if validated limit q then run q else Inl (RuntimeErr [], [])) question q"
        using v by (simp add: execute_def)
      have b: "gq_error (execute in_memory_run_read question q) \<noteq> None"
        by (simp add: execute_def in_memory_run_read_def refused_def)
      have ans: "answer_graph_question limit r question gw = (execute r question q, gw1)" for r
        by (simp add: answer_graph_question_def g Inr q)
      show ?thesis unfolding ans Let_def fst_conv same [symmetric] using a b by blast
    qed
  qed
qed

end
