(* ===== verification/Metrics.thy ===== *)
theory Metrics
  imports Rag
begin

section \<open>Quality metrics of an answer (eval/metrics.py)\<close>

text \<open>
  The lexical metrics and the grading by a model.  Scores are reals; \<open>tokenize\<close> is the set of the
  content words of a text.
\<close>

definition STOPWORDS :: "string list" where
  "STOPWORDS = words (''a an and are as at be by for from has have in is it its of on or that the ''
     @ ''to was were will with this these those we our they their he she them can could ''
     @ ''should would than then there here when where which who whom what how why ''
     @ ''do does did done been being also into over under between about such only ''
     @ ''very just now both each any all more most other some'')"

definition SENTENCE_SPLIT :: rx where
  "SENTENCE_SPLIT = Cat (Behind True (\<lambda>c. c \<in> set ''.!?'')) (plus (Cls is_space))"

definition MIN_TOKEN_LENGTH :: nat where "MIN_TOKEN_LENGTH = 3"
definition SUPPORT_THRESHOLD :: real where "SUPPORT_THRESHOLD = 3 / 10"

record metric_scores =
  ms_faithfulness :: real
  ms_answer_relevancy :: real
  ms_context_precision :: real
  ms_context_recall :: real
  ms_citation_validity :: real

definition no_scores :: metric_scores where
  "no_scores = \<lparr>ms_faithfulness = 0, ms_answer_relevancy = 0, ms_context_precision = 0, ms_context_recall = 0, ms_citation_validity = 0\<rparr>"

definition round4 :: "real \<Rightarrow> real" where
  "round4 x = of_int (round_half_even (10000 * x)) / 10000"

definition metric_values :: "metric_scores \<Rightarrow> real list" where
  "metric_values m = [ms_faithfulness m, ms_answer_relevancy m, ms_context_precision m, ms_context_recall m, ms_citation_validity m]"

definition overall :: "metric_scores \<Rightarrow> real" where
  "overall m = round4 (sum_list (metric_values m) / real (length (metric_values m)))"

definition scores_dict :: "metric_scores \<Rightarrow> (string \<times> real) list" where
  "scores_dict m =
     [(''faithfulness'', round4 (ms_faithfulness m)), (''answer_relevancy'', round4 (ms_answer_relevancy m)),
      (''context_precision'', round4 (ms_context_precision m)), (''context_recall'', round4 (ms_context_recall m)),
      (''citation_validity'', round4 (ms_citation_validity m)), (''overall'', overall m)]"

subsection \<open>Overlap\<close>

definition token_head :: "char \<Rightarrow> bool" where
  "token_head c \<longleftrightarrow> 97 \<le> code_pt c \<and> code_pt c \<le> 122 \<or> is_digit c"

definition token_tail :: "char \<Rightarrow> bool" where
  "token_tail c \<longleftrightarrow> token_head c \<or> c \<in> set ''_-.''"

definition TOKEN_PATTERN :: rx where
  "TOKEN_PATTERN = Cat (Cls token_head) (star (Cls token_tail))"

definition is_content :: "string \<Rightarrow> bool" where
  "is_content t \<longleftrightarrow> MIN_TOKEN_LENGTH \<le> length t \<and> t \<notin> set STOPWORDS"

definition tokenize :: "string \<Rightarrow> string set" where
  "tokenize text = set (filter is_content (map (strip_by (\<lambda>c. c \<in> set ''.-_'')) (re_findall TOKEN_PATTERN (lower text))))"

definition split_sentences :: "string \<Rightarrow> string list" where
  "split_sentences text = filter (\<lambda>s. s \<noteq> []) (map strip (re_split SENTENCE_SPLIT text))"

definition overlap :: "string \<Rightarrow> string \<Rightarrow> real" where
  "overlap claim evidence =
     (let ts = tokenize claim in if ts = {} then 1 else real (card (ts \<inter> tokenize evidence)) / real (card ts))"

subsection \<open>The metrics\<close>

definition count_where :: "('a \<Rightarrow> bool) \<Rightarrow> 'a list \<Rightarrow> real" where
  "count_where P xs = real (length (filter P xs))"

definition faithfulness :: "string \<Rightarrow> string list \<Rightarrow> real" where
  "faithfulness answer contexts =
     (let sentences = split_sentences answer; evidence = join '' '' contexts in
      if sentences = [] then 0
      else if strip evidence = [] then 0
      else count_where (\<lambda>s. SUPPORT_THRESHOLD \<le> overlap s evidence) sentences / real (length sentences))"

definition answer_relevancy :: "string \<Rightarrow> string \<Rightarrow> real" where
  "answer_relevancy question answer =
     (let ts = tokenize question in
      if ts = {} then 0
      else if strip answer = [] then 0
      else real (card (ts \<inter> tokenize answer)) / real (card ts))"

definition relevant :: "string \<Rightarrow> string \<Rightarrow> string \<Rightarrow> bool" where
  "relevant question ground_truth context \<longleftrightarrow>
     SUPPORT_THRESHOLD \<le> overlap question context
     \<or> ground_truth \<noteq> [] \<and> SUPPORT_THRESHOLD \<le> overlap ground_truth context"

definition context_precision :: "string \<Rightarrow> string list \<Rightarrow> string \<Rightarrow> real" where
  "context_precision question contexts ground_truth =
     (if contexts = [] then 0
      else count_where (relevant question ground_truth) contexts / real (length contexts))"

definition context_recall :: "string \<Rightarrow> string list \<Rightarrow> real" where
  "context_recall ground_truth contexts =
     (let ts = tokenize ground_truth in
      if ts = {} then 1
      else if contexts = [] then 0
      else real (card (ts \<inter> tokenize (join '' '' contexts))) / real (card ts))"

definition MARKER :: rx where
  "MARKER = cats [lit ''['', Cap 1 (plus (Cls is_digit)), lit '']'']"

definition citation_validity :: "string \<Rightarrow> nat \<Rightarrow> real" where
  "citation_validity answer source_count =
     (let markers = re_findall_group 1 MARKER answer in
      if markers = [] then 0
      else
        let valid = extract_citations answer source_count; distinct_markers = set (map nat_of_digits markers) in
        if distinct_markers = {} then 0 else real (length valid) / real (card distinct_markers))"

definition score_case :: "string \<Rightarrow> string \<Rightarrow> string list \<Rightarrow> string \<Rightarrow> nat option \<Rightarrow> metric_scores" where
  "score_case question answer contexts ground_truth source_count =
     \<lparr>ms_faithfulness = faithfulness answer contexts,
      ms_answer_relevancy = answer_relevancy question answer,
      ms_context_precision = context_precision question contexts ground_truth,
      ms_context_recall = (if ground_truth = [] then 1 else context_recall ground_truth contexts),
      ms_citation_validity = citation_validity answer (case source_count of Some n \<Rightarrow> n | None \<Rightarrow> length contexts)\<rparr>"

subsection \<open>Grading by a model\<close>

definition JUDGE_SYSTEM :: string where
  "JUDGE_SYSTEM = ''You grade a retrieval-augmented answer against its sources.'' @ [CHR 0x0A]
     @ ''Score each dimension from 0.0 to 1.0. Judge only what is written; do not ''
     @ ''reward plausible-sounding claims the sources do not support.'' @ [CHR 0x0A]
     @ ''Respond with strict JSON only, no prose, no code fences:'' @ [CHR 0x0A]
     @ ''{\"faithfulness\": 0.0, \"answer_relevancy\": 0.0, \"context_precision\": 0.0, ''
     @ ''\"reason\": \"<one sentence>\"}''"

record judged_score =
  js_scores :: metric_scores
  js_reason :: string
  js_judged :: bool
  js_fallback :: "metric_scores option"

definition judge_prompt :: "string \<Rightarrow> string \<Rightarrow> string list \<Rightarrow> string" where
  "judge_prompt question answer contexts =
     ''Question: '' @ question @ [CHR 0x0A, CHR 0x0A] @ ''Sources:'' @ [CHR 0x0A] @ join [CHR 0x0A] contexts
     @ [CHR 0x0A, CHR 0x0A] @ ''Answer:'' @ [CHR 0x0A] @ answer @ [CHR 0x0A, CHR 0x0A] @ ''Grades:''"

definition judge_request :: "string \<Rightarrow> request" where
  "judge_request body =
     \<lparr>rq_messages = [\<lparr>msg_role = SYSTEM, msg_content = JUDGE_SYSTEM\<rparr>, \<lparr>msg_role = USER, msg_content = body\<rparr>],
      rq_model = None, rq_temperature = 0, rq_max_tokens = 400\<rparr>"

text \<open>A grade of the model: clamped, the lexical score where it is no number.  What remains is finite.\<close>

definition grade_of :: "library \<Rightarrow> (string, pyval) dict \<Rightarrow> string \<Rightarrow> real \<Rightarrow> real res" where
  "grade_of lib payload key lexical =
     bind_res (clamp_confidence (float_of lib) (case dget payload key of None \<Rightarrow> PyNone | Some v \<Rightarrow> v) (Fin lexical))
       (\<lambda>x. Inr (case x of Fin r \<Rightarrow> r | _ \<Rightarrow> 0))"

definition judged_of :: "library \<Rightarrow> metric_scores \<Rightarrow> (string, pyval) dict \<Rightarrow> judged_score res" where
  "judged_of lib lexical payload =
     bind_res (grade_of lib payload ''faithfulness'' (ms_faithfulness lexical)) (\<lambda>f.
     bind_res (grade_of lib payload ''answer_relevancy'' (ms_answer_relevancy lexical)) (\<lambda>a.
     bind_res (grade_of lib payload ''context_precision'' (ms_context_precision lexical)) (\<lambda>c.
     Inr \<lparr>js_scores = lexical\<lparr>ms_faithfulness := f, ms_answer_relevancy := a, ms_context_precision := c\<rparr>,
          js_reason = take 300 (py_str lib (case dget payload ''reason'' of None \<Rightarrow> PyStr [] | Some v \<Rightarrow> v)),
          js_judged = True, js_fallback = Some lexical\<rparr>)))"

definition judge_case :: "library \<Rightarrow> string \<Rightarrow> string \<Rightarrow> string list \<Rightarrow> string \<Rightarrow> (judged_score, 'w) act" where
  "judge_case lib question answer contexts ground_truth gw =
     (let lexical = score_case question answer contexts ground_truth None in
      case gateway_complete (judge_request (judge_prompt question answer contexts)) gw of
        (Inl e, gw) \<Rightarrow> (Inr \<lparr>js_scores = lexical, js_reason = ''judge unavailable'', js_judged = False, js_fallback = None\<rparr>, gw)
      | (Inr c, gw) \<Rightarrow>
          (case load_json_object (json_loads lib) (Some (c_text c)) of
             None \<Rightarrow> (Inr \<lparr>js_scores = lexical, js_reason = ''judge output unreadable'', js_judged = False, js_fallback = None\<rparr>, gw)
           | Some payload \<Rightarrow> lift_llm (judged_of lib lexical payload) gw))"

subsection \<open>Tokens of joined texts\<close>

text \<open>What \<open>findall\<close> returns for a head character followed by tail characters.\<close>

function runs :: "(char \<Rightarrow> bool) \<Rightarrow> (char \<Rightarrow> bool) \<Rightarrow> string \<Rightarrow> string list" where
  "runs A B [] = []"
| "runs A B (c # s) = (if A c then (c # takeWhile B s) # runs A B (dropWhile B s) else runs A B s)"
  by pat_completeness auto
termination
  by (relation "measure (\<lambda>(A, B, s). length s)") (auto simp: less_Suc_eq_le length_dropWhile_le)

lemma search_from_skip:
  "rmatch r (p, c # s, []) = [] \<Longrightarrow> search_from r p (c # s) = map_option (\<lambda>(sk, rest). (c # sk, rest)) (search_from r (c # p) s)"
  by (simp add: search_from.simps [of r p "c # s"])

lemma search_from_hit:
  "rmatch r (p, s, []) = (p', s', k) # sts \<Longrightarrow> search_from r p s = Some ([], take (length s - length s') s, k, p', s')"
  by (simp add: search_from.simps [of r p s])

lemma scan_skip_matches:
  assumes "rmatch r (p, c # s, []) = []"
  shows "map snd (fst (scan r p (c # s))) = map snd (fst (scan r (c # p) s))"
  using assms by (simp add: scan.simps [of r p "c # s"] scan.simps [of r "c # p" s] search_from_skip
      split: option.splits prod.splits)

lemma scan_hit_matches:
  assumes "rmatch r (p, s, []) = (p', s', k) # sts" "length s' < length s"
  shows "map snd (fst (scan r p s)) = (take (length s - length s') s, k) # map snd (fst (scan r p' s'))"
  using assms by (auto simp: scan.simps [of r p s] search_from_hit split: prod.splits)

lemma scan_runs:
  "map fst (map snd (fst (scan (Cat (Cls A) (star (Cls B))) p s))) = runs A B s"
proof (induction A B s arbitrary: p rule: runs.induct)
  case (1 A B)
  show ?case by (simp add: scan.simps [of _ p "[]"] search_from.simps [of _ p "[]"])
next
  case (2 A B c s)
  let ?r = "Cat (Cls A) (star (Cls B))"
  show ?case
  proof (cases "A c")
    case True
    obtain sts where m: "rmatch ?r (p, c # s, []) = (rev (takeWhile B s) @ c # p, dropWhile B s, []) # sts"
      using rmatch_run [of B "c # p" s "[]"] True by (auto simp: star_def)
    have len: "length s = length (takeWhile B s) + length (dropWhile B s)"
      by (metis length_append takeWhile_dropWhile_id)
    have "take (length (takeWhile B s)) s = takeWhile B s"
      by (metis append_eq_conv_conj takeWhile_dropWhile_id)
    with len have "take (length (c # s) - length (dropWhile B s)) (c # s) = c # takeWhile B s" by simp
    then show ?thesis using True "2.IH"(1) [OF True]
      by (simp add: scan_hit_matches [OF m] less_Suc_eq_le length_dropWhile_le del: map_map)
  next
    case False
    then have "rmatch ?r (p, c # s, []) = []" by simp
    then show ?thesis using False "2.IH"(2) [OF False] by (simp add: scan_skip_matches del: map_map)
  qed
qed

lemma runs_append: "\<not> A c \<Longrightarrow> \<not> B c \<Longrightarrow> runs A B (s @ c # t) = runs A B s @ runs A B t"
proof (induction A B s rule: runs.induct)
  case (2 A B d s)
  have "takeWhile B (s @ c # t) = takeWhile B s" "dropWhile B (s @ c # t) = dropWhile B s @ c # t"
    using "2.prems" by (induction s) auto
  then show ?case using 2 by simp
qed simp

lemma tokenize_runs:
  "tokenize text = set (filter is_content (map (strip_by (\<lambda>c. c \<in> set ''.-_'')) (runs token_head token_tail (lower text))))"
  by (simp add: tokenize_def re_findall_def re_finditer_def TOKEN_PATTERN_def scan_runs del: map_map)

lemma tokenize_append: "tokenize (a @ CHR '' '' # b) = tokenize a \<union> tokenize b"
proof -
  have "lower (a @ CHR '' '' # b) = lower a @ CHR '' '' # lower b" by (simp add: lower_def lower_char_def code_pt_def)
  moreover have "\<not> token_head CHR '' ''" "\<not> token_tail CHR '' ''"
    by (simp_all add: token_head_def token_tail_def code_pt_def is_digit_def)
  ultimately show ?thesis by (auto simp: tokenize_runs runs_append)
qed

lemma tokenize_Nil [simp]: "tokenize [] = {}"
  by (simp add: tokenize_runs lower_def)

lemma tokenize_join: "tokenize (join '' '' cs) = \<Union> (tokenize ` set cs)"
  by (induction "'' '' :: string" cs rule: join.induct) (simp_all add: tokenize_append)

lemma finite_tokenize [simp]: "finite (tokenize s)"
  by (simp add: tokenize_def)

subsection \<open>Bounds\<close>

definition in_unit :: "real \<Rightarrow> bool" where
  "in_unit x \<longleftrightarrow> 0 \<le> x \<and> x \<le> 1"

lemma share_in_unit: "a \<le> b \<Longrightarrow> in_unit (real a / real b)"
  by (cases "b = 0") (auto simp: in_unit_def divide_le_eq)

lemma shared_in_unit: "finite A \<Longrightarrow> in_unit (real (card (A \<inter> B)) / real (card A))"
  by (intro share_in_unit card_mono) auto

lemma counted_in_unit: "in_unit (count_where P xs / real (length xs))"
  unfolding count_where_def by (intro share_in_unit) simp

lemma unit_ends [simp]: "in_unit 0" "in_unit 1"
  by (simp_all add: in_unit_def)

lemma match_marker:
  assumes "d \<noteq> []" "list_all is_digit d"
  shows "\<exists>sts. rmatch MARKER (p, ''['' @ d @ '']'' @ t, []) = ('']'' @ rev d @ ''['' @ p, t, [(1, d)]) # sts"
proof -
  obtain c e where d: "d = c # e" using assms(1) by (cases d) auto
  have run: "takeWhile is_digit (e @ '']'' @ t) = e" "dropWhile is_digit (e @ '']'' @ t) = '']'' @ t"
    using assms(2) unfolding d by (induction e) (auto simp: is_digit_def code_pt_def)
  obtain sts where "rmatch (plus (Cls is_digit)) (''['' @ p, c # e @ '']'' @ t, []) = (rev e @ c # ''['' @ p, '']'' @ t, []) # sts"
    using rmatch_plus_run [of is_digit c "''['' @ p" "e @ '']'' @ t" "[]"] assms(2) unfolding run by (auto simp: d)
  then show ?thesis by (simp add: MARKER_def chr_def d)
qed

lemma marker_shape:
  assumes "(p', s', k) \<in> set (rmatch MARKER (p, s, []))"
  shows "\<exists>d. s = ''['' @ d @ '']'' @ s' \<and> list_all is_digit d"
proof -
  from rmatch_consumes [OF assms] obtain w where w: "s = w @ s'" "in_lang MARKER w" by auto
  then obtain v where "w = ''['' @ v @ '']''" "in_lang (plus (Cls is_digit)) v"
    by (auto simp: MARKER_def chr_def elim!: in_lang_CatE in_lang_ClsE in_lang_EpsE in_lang_CapE)
  moreover from this(2) have "list_all is_digit v"
    by (auto simp: plus_def list_all_iff elim!: in_lang_CatE in_lang_ClsE dest!: in_lang_Star)
  ultimately show ?thesis using w by auto
qed

lemma bracket_not_inside:
  "list_all is_digit d \<Longrightarrow> u @ CHR ''['' # x = d @ CHR '']'' # s \<Longrightarrow> \<exists>v. u = d @ CHR '']'' # v \<and> s = v @ CHR ''['' # x"
proof (induction d arbitrary: u)
  case Nil
  then show ?case by (cases u) auto
next
  case (Cons c d)
  then show ?case by (cases u) (auto simp: is_digit_def code_pt_def)
qed

lemma marker_found:
  assumes "d \<noteq> []" "list_all is_digit d"
  shows "d \<in> (\<lambda>mk. group 1 (snd mk)) ` set (map snd (fst (scan MARKER p (u @ ''['' @ d @ '']'' @ t))))"
proof (induction "length u" arbitrary: u p rule: less_induct)
  case less
  show ?case
  proof (cases u)
    case Nil
    obtain sts where m: "rmatch MARKER (p, ''['' @ d @ '']'' @ t, []) = ('']'' @ rev d @ ''['' @ p, t, [(1, d)]) # sts"
      using match_marker [OF assms] by blast
    show ?thesis unfolding Nil append_Nil by (subst scan_hit_matches [OF m]) (simp_all add: group_def)
  next
    case (Cons c v)
    let ?s = "v @ ''['' @ d @ '']'' @ t"
    show ?thesis
    proof (cases "rmatch MARKER (p, c # ?s, [])")
      case Nil
      show ?thesis using less [of v "c # p"] scan_skip_matches [OF Nil] \<open>u = c # v\<close> by (simp del: list.set_map)
    next
      case (Cons st sts)
      obtain p' s' k where st: "st = (p', s', k)" by (cases st)
      obtain e where e: "c # ?s = ''['' @ e @ '']'' @ s'" "list_all is_digit e"
        using marker_shape [of p' s' k p "c # ?s"] Cons st by auto
      then obtain w where w: "v = e @ CHR '']'' # w" "s' = w @ ''['' @ d @ '']'' @ t"
        using bracket_not_inside [of e v "d @ '']'' @ t" s'] by auto
      then have "length s' < length (c # ?s)" "length w < length u" using \<open>u = c # v\<close> by simp_all
      then show ?thesis using less [of w p'] scan_hit_matches [OF Cons [unfolded st]] w(2) \<open>u = c # v\<close> by auto
    qed
  qed
qed

lemma citations_are_markers:
  "set (extract_citations answer n) \<subseteq> nat_of_digits ` set (re_findall_group 1 MARKER answer)"
proof
  fix i assume "i \<in> set (extract_citations answer n)"
  then obtain m k where mk: "(m, k) \<in> set (re_finditer CITATION_PATTERN answer)" "nat_of_digits (group 1 k) = i"
    using foldl_cite [of "[]" n "re_finditer CITATION_PATTERN answer"] by (auto simp: extract_citations_def)
  obtain p0 p' t where t: "sublist (m @ t) answer" "(p', t, k) \<in> set (rmatch CITATION_PATTERN (p0, m @ t, []))"
    using finditer_matches [OF mk(1)] by blast
  obtain d where d: "m @ t = ''['' @ d @ '']'' @ t" "group 1 k = d" "d \<noteq> []" "list_all is_digit d"
    using match_citation [OF t(2)] by blast
  obtain u v where "answer = u @ ''['' @ d @ '']'' @ v"
    using t(1) unfolding sublist_def d(1) by auto
  then have "d \<in> set (re_findall_group 1 MARKER answer)"
    using marker_found [OF d(3,4), of "[]" u v]
    by (simp add: re_findall_group_def re_finditer_def case_prod_beta image_image)
  then show "i \<in> nat_of_digits ` set (re_findall_group 1 MARKER answer)" using d(2) mk(2) by blast
qed

lemma distinct_citations: "distinct (extract_citations answer n)"
  using foldl_cite [of "[]"] by (simp add: extract_citations_def)

lemma citation_validity_unit: "in_unit (citation_validity answer n)"
proof -
  have "length (extract_citations answer n) = card (set (extract_citations answer n))"
    using distinct_card [OF distinct_citations] by simp
  also have "\<dots> \<le> card (nat_of_digits ` set (re_findall_group 1 MARKER answer))"
    by (intro card_mono citations_are_markers) simp
  finally show ?thesis by (simp add: citation_validity_def Let_def share_in_unit)
qed

lemma score_case_unit: "list_all in_unit (metric_values (score_case q a cs gt n))"
proof -
  have "in_unit (faithfulness a cs)" by (simp add: faithfulness_def Let_def counted_in_unit)
  moreover have "in_unit (answer_relevancy q a)" by (simp add: answer_relevancy_def Let_def shared_in_unit)
  moreover have "in_unit (context_precision q cs gt)" by (simp add: context_precision_def counted_in_unit)
  moreover have "in_unit (context_recall gt cs)" by (simp add: context_recall_def Let_def shared_in_unit)
  ultimately show ?thesis by (simp add: score_case_def metric_values_def citation_validity_unit)
qed

lemma round4_unit: "in_unit x \<Longrightarrow> in_unit (round4 x)"
  using round_half_even_mono_int(1) [of 0 "10000 * x"] round_half_even_mono_int(2) [of "10000 * x" 10000]
  by (simp add: in_unit_def round4_def)

lemma overall_unit: "list_all in_unit (metric_values m) \<Longrightarrow> in_unit (overall m)"
  unfolding overall_def by (intro round4_unit) (auto simp: metric_values_def in_unit_def)

lemma grade_of_unit:
  assumes "in_unit x"
  shows "case grade_of lib payload key x of Inr y \<Rightarrow> in_unit y | Inl e \<Rightarrow> e = OverflowErr"
proof -
  let ?v = "case dget payload key of None \<Rightarrow> PyNone | Some v \<Rightarrow> v"
  have "unit_float (Fin x)" using assms by (simp add: in_unit_def)
  then have "(\<exists>y. clamp_confidence (float_of lib) ?v (Fin x) = Inr y \<and> unit_float y) \<or> clamp_confidence (float_of lib) ?v (Fin x) = Inl OverflowErr"
    using clamp_confidence_bounds by blast
  then show ?thesis by (auto simp: grade_of_def unit_float_def in_unit_def)
qed

lemma judged_of_unit:
  assumes "list_all in_unit (metric_values m)"
  shows "case judged_of lib m payload of
      Inr j \<Rightarrow> js_judged j \<and> list_all in_unit (metric_values (js_scores j))
        \<and> ms_context_recall (js_scores j) = ms_context_recall m \<and> ms_citation_validity (js_scores j) = ms_citation_validity m
    | Inl e \<Rightarrow> e = OverflowErr"
proof -
  have u: "in_unit (ms_faithfulness m)" "in_unit (ms_answer_relevancy m)" "in_unit (ms_context_precision m)"
      "in_unit (ms_context_recall m)" "in_unit (ms_citation_validity m)"
    using assms by (simp_all add: metric_values_def)
  note g = grade_of_unit [OF u(1), of lib payload "''faithfulness''"] grade_of_unit [OF u(2), of lib payload "''answer_relevancy''"]
    grade_of_unit [OF u(3), of lib payload "''context_precision''"]
  show ?thesis using g u(4,5) unfolding judged_of_def
    by (auto simp: metric_values_def split: sum.splits simp: bind_res_def)
qed


subsection \<open>More context\<close>

lemma overlap_mono: "tokenize e \<subseteq> tokenize f \<Longrightarrow> overlap c e \<le> overlap c f"
  unfolding overlap_def Let_def by (auto intro!: divide_right_mono card_mono)

lemma count_where_mono: "(\<And>x. P x \<Longrightarrow> Q x) \<Longrightarrow> count_where P xs \<le> count_where Q xs"
  unfolding count_where_def by (induction xs) auto

lemma prefix_join: "prefix (join sep cs) (join sep (cs @ ds))"
proof (induction sep cs rule: join.induct)
  case (2 sep x)
  then show ?case by (cases ds) auto
qed auto

lemma strip_blank: "strip s = [] \<longleftrightarrow> list_all is_space s"
proof -
  have "strip s = [] \<longleftrightarrow> dropWhile is_space s = []"
  proof (cases "dropWhile is_space s")
    case (Cons c t)
    then have "\<not> is_space c" by (metis hd_dropWhile list.distinct(1) list.sel(1))
    then have "\<not> (\<forall>x \<in> set (rev (c # t)). is_space x)" by simp
    then show ?thesis unfolding strip_by_def Cons by (simp only: rev_is_Nil_conv dropWhile_eq_Nil_conv) simp
  next
    case Nil
    show ?thesis unfolding strip_by_def Nil by simp
  qed
  then show ?thesis by (simp add: list_all_iff dropWhile_eq_Nil_conv)
qed

text \<open>Additional context never lowers the recall of the expected answer nor the faithfulness of an
  answer: both only look for words, and joining passages keeps the words of each.\<close>

theorem more_context_never_hurts:
  "context_recall truth cs \<le> context_recall truth (cs @ ds) \<and> faithfulness answer cs \<le> faithfulness answer (cs @ ds)"
proof
  have sub: "tokenize (join '' '' cs) \<subseteq> tokenize (join '' '' (cs @ ds))" by (auto simp: tokenize_join)
  then have "card (tokenize truth \<inter> tokenize (join '' '' cs)) \<le> card (tokenize truth \<inter> tokenize (join '' '' (cs @ ds)))"
    by (intro card_mono) auto
  then show "context_recall truth cs \<le> context_recall truth (cs @ ds)"
    by (auto simp: context_recall_def Let_def divide_right_mono)
  obtain z where z: "join '' '' (cs @ ds) = join '' '' cs @ z" using prefix_join unfolding prefix_def by blast
  have "strip (join '' '' cs) \<noteq> [] \<Longrightarrow> strip (join '' '' (cs @ ds)) \<noteq> []" unfolding strip_blank z by simp
  moreover have "count_where (\<lambda>s. SUPPORT_THRESHOLD \<le> overlap s (join '' '' cs)) xs
      \<le> count_where (\<lambda>s. SUPPORT_THRESHOLD \<le> overlap s (join '' '' (cs @ ds))) xs" for xs
    by (intro count_where_mono) (rule order_trans [OF _ overlap_mono [OF sub]])
  moreover have "0 \<le> count_where P xs" for P :: "string \<Rightarrow> bool" and xs by (simp add: count_where_def)
  ultimately show "faithfulness answer cs \<le> faithfulness answer (cs @ ds)"
    by (auto simp: faithfulness_def Let_def divide_right_mono)
qed

end
