(* ===== verification/Benchmark.thy ===== *)
theory Benchmark
  imports Metrics Agents
begin

section \<open>The benchmark (eval/dataset.py, eval/runner.py)\<close>

text \<open>
  The cases with their JSON form, the verdict on one case, the run over all of them and the report
  that gates.  Durations are not represented.  The retriever of a question is a parameter
  (\<open>Retrieval.retrieve\<close> without filters), as are the file system and \<open>json\<close>.
\<close>

subsection \<open>Cases\<close>

record eval_case =
  ec_id :: string
  ec_question :: string
  ec_ground_truth :: string
  ec_titles :: "string list"
  ec_expect_refusal :: bool
  ec_requires_llm :: bool
  ec_tags :: "string list"

definition case_of_dict :: "library \<Rightarrow> pyval \<Rightarrow> eval_case res" where
  "case_of_dict lib payload =
     bind_res (jget ''id'' PyNone payload) (\<lambda>i.
     bind_res (jget ''question'' PyNone payload) (\<lambda>q.
     if \<not> truthy i \<or> \<not> truthy q then Inl (ValueError ''An eval case needs both an id and a question'')
     else
       bind_res (jget ''ground_truth'' (PyStr []) payload) (\<lambda>g.
       bind_res (bind_res (jget ''expected_paper_titles'' (PyList []) payload) py_list) (\<lambda>titles.
       bind_res (jget ''expect_refusal'' (PyBool False) payload) (\<lambda>refusal.
       bind_res (jget ''requires_llm'' (PyBool False) payload) (\<lambda>llm.
       bind_res (bind_res (jget ''tags'' (PyList []) payload) py_list) (\<lambda>tags.
       Inr \<lparr>ec_id = py_str lib i, ec_question = py_str lib q, ec_ground_truth = py_str lib g,
            ec_titles = map (py_str lib) titles, ec_expect_refusal = truthy refusal, ec_requires_llm = truthy llm,
            ec_tags = map (py_str lib) tags\<rparr>)))))))"

definition case_dict :: "eval_case \<Rightarrow> pyval" where
  "case_dict c = PyDict
     [(''id'', PyStr (ec_id c)), (''question'', PyStr (ec_question c)), (''ground_truth'', PyStr (ec_ground_truth c)),
      (''expected_paper_titles'', PyList (map PyStr (ec_titles c))), (''expect_refusal'', PyBool (ec_expect_refusal c)),
      (''requires_llm'', PyBool (ec_requires_llm c)), (''tags'', PyList (map PyStr (ec_tags c)))]"

definition DEFAULT_CASES :: "eval_case list" where
  "DEFAULT_CASES =
     [\<lparr>ec_id = ''grounded-lookup'', ec_question = ''What retrieval approach does the paper describe?'',
       ec_ground_truth = ''A hybrid retrieval system combining dense and sparse matching.'', ec_titles = [],
       ec_expect_refusal = False, ec_requires_llm = False, ec_tags = [''retrieval'', ''grounded'']\<rparr>,
      \<lparr>ec_id = ''metric-lookup'', ec_question = ''What accuracy does the reported system achieve?'',
       ec_ground_truth = ''The reported accuracy figure from the paper.'', ec_titles = [],
       ec_expect_refusal = False, ec_requires_llm = False, ec_tags = [''extraction'']\<rparr>,
      \<lparr>ec_id = ''out-of-corpus'', ec_question = ''What is the melting point of tungsten carbide?'',
       ec_ground_truth = [], ec_titles = [], ec_expect_refusal = True, ec_requires_llm = True, ec_tags = [''refusal'', ''safety'']\<rparr>,
      \<lparr>ec_id = ''unanswerable-in-scope'', ec_question = ''What was the authors'' @ [CHR 0x27] @ '' funding source?'',
       ec_ground_truth = [], ec_titles = [], ec_expect_refusal = True, ec_requires_llm = True, ec_tags = [''refusal'']\<rparr>]"

fun reject_duplicates :: "string list \<Rightarrow> eval_case list \<Rightarrow> unit res" where
  "reject_duplicates seen [] = Inr ()"
| "reject_duplicates seen (c # cs) =
     (if ec_id c \<in> set seen then Inl (ValueError ''Duplicate eval case id'') else reject_duplicates (ec_id c # seen) cs)"

text \<open>\<open>load_cases\<close> over the text of the file, when there is one.\<close>

definition cases_of_json :: "library \<Rightarrow> pyval \<Rightarrow> eval_case list res" where
  "cases_of_json lib payload =
     (case (case payload of PyDict d \<Rightarrow> (case dget d ''cases'' of None \<Rightarrow> payload | Some v \<Rightarrow> v) | _ \<Rightarrow> payload) of
        PyList items \<Rightarrow>
          bind_res (mapM (case_of_dict lib) items) (\<lambda>cs. bind_res (reject_duplicates [] cs) (\<lambda>_. Inr cs))
      | _ \<Rightarrow> Inl (ValueError ''An eval dataset must be a list of cases''))"

definition load_cases :: "library \<Rightarrow> (string \<Rightarrow> string option) \<Rightarrow> string option \<Rightarrow> eval_case list res" where
  "load_cases lib read path =
     (case path of
        None \<Rightarrow> Inr DEFAULT_CASES
      | Some p \<Rightarrow>
          (case read p of
             None \<Rightarrow> Inl (RuntimeErr ''No eval dataset'')
           | Some text \<Rightarrow>
               (case json_loads lib text of
                  None \<Rightarrow> Inl (ValueError ''JSONDecodeError'')
                | Some payload \<Rightarrow> cases_of_json lib payload)))"

definition saved_cases :: "eval_case list \<Rightarrow> pyval" where
  "saved_cases cs = PyDict [(''cases'', PyList (map case_dict cs))]"

definition filter_by_tag :: "eval_case list \<Rightarrow> string \<Rightarrow> eval_case list" where
  "filter_by_tag cs tag = filter (\<lambda>c. tag \<in> set (ec_tags c)) cs"

subsection \<open>Results\<close>

definition REFUSAL_MARKERS :: "string list" where
  "REFUSAL_MARKERS =
     [''do not contain'', ''does not contain'', ''no information'', ''not enough information'',
      ''cannot answer'', ''can'' @ [CHR 0x27] @ ''t answer'', ''not covered'', ''no relevant'', ''unable to answer'',
      ''the sources do not'', ''insufficient'']"

record case_result =
  cr_id :: string
  cr_question :: string
  cr_answer :: string
  cr_scores :: metric_scores
  cr_source_count :: nat
  cr_confidence :: real
  cr_refused :: bool
  cr_skipped :: bool
  cr_passed :: bool
  cr_failures :: "string list"

record thresholds =
  th_faithfulness :: real
  th_context_precision :: real
  th_citation_validity :: real

definition default_thresholds :: thresholds where
  "default_thresholds = \<lparr>th_faithfulness = 6 / 10, th_context_precision = 3 / 10, th_citation_validity = 0\<rparr>"

record eval_report =
  rp_results :: "case_result list"
  rp_thresholds :: thresholds

definition graded :: "eval_report \<Rightarrow> case_result list" where
  "graded r = filter (\<lambda>c. \<not> cr_skipped c) (rp_results r)"

definition skipped_count :: "eval_report \<Rightarrow> nat" where
  "skipped_count r = length (rp_results r) - length (graded r)"

definition passed_count :: "eval_report \<Rightarrow> nat" where
  "passed_count r = length (filter cr_passed (graded r))"

definition report_passed :: "eval_report \<Rightarrow> bool" where
  "report_passed r \<longleftrightarrow> graded r \<noteq> [] \<and> passed_count r = length (graded r)"

definition mean_of :: "(metric_scores \<Rightarrow> real) \<Rightarrow> eval_report \<Rightarrow> real" where
  "mean_of metric r =
     (if graded r = [] then 0
      else round4 (sum_list (map (metric \<circ> cr_scores) (graded r)) / real (length (graded r))))"

definition aggregate :: "eval_report \<Rightarrow> (string \<times> real) list" where
  "aggregate r =
     [(''faithfulness'', mean_of ms_faithfulness r), (''answer_relevancy'', mean_of ms_answer_relevancy r),
      (''context_precision'', mean_of ms_context_precision r), (''context_recall'', mean_of ms_context_recall r),
      (''citation_validity'', mean_of ms_citation_validity r)]"

text \<open>\<open>f"{x:.2f}"\<close>\<close>

definition fmt2 :: "real \<Rightarrow> string" where
  "fmt2 x = (let n = nat (round_half_even (100 * \<bar>x\<bar>)) in
     (if x < 0 then ''-'' else []) @ str_nat (n div 100) @ ''.'' @ str_nat (n mod 100 div 10) @ str_nat (n mod 10))"

definition summary :: "eval_report \<Rightarrow> string" where
  "summary r =
     (if rp_results r = [] then ''No eval cases ran.''
      else (if report_passed r then ''PASS'' else ''FAIL'') @ '' '' @ str_nat (passed_count r) @ ''/'' @ str_nat (length (graded r))
        @ '' cases'' @ (if skipped_count r \<noteq> 0 then '' ('' @ str_nat (skipped_count r) @ '' skipped)'' else [])
        @ '' | faithfulness '' @ fmt2 (mean_of ms_faithfulness r) @ '' | precision '' @ fmt2 (mean_of ms_context_precision r)
        @ '' | recall '' @ fmt2 (mean_of ms_context_recall r))"

subsection \<open>Running a case\<close>

definition skipped_result :: "eval_case \<Rightarrow> case_result" where
  "skipped_result c =
     \<lparr>cr_id = ec_id c, cr_question = ec_question c, cr_answer = [], cr_scores = no_scores, cr_source_count = 0, cr_confidence = 0,
      cr_refused = False, cr_skipped = True, cr_passed = True, cr_failures = [''skipped: needs a real LLM provider'']\<rparr>"

definition errored_result :: "eval_case \<Rightarrow> llm_exn \<Rightarrow> case_result" where
  "errored_result c e =
     \<lparr>cr_id = ec_id c, cr_question = ec_question c, cr_answer = [], cr_scores = no_scores, cr_source_count = 0, cr_confidence = 0,
      cr_refused = False, cr_skipped = False, cr_passed = False, cr_failures = [''errored: '' @ exn_text e]\<rparr>"

definition looks_like_refusal :: "string \<Rightarrow> bool" where
  "looks_like_refusal answer = list_ex (\<lambda>m. sublist m (lower answer)) REFUSAL_MARKERS"

definition below :: "string \<Rightarrow> real \<Rightarrow> real \<Rightarrow> string list" where
  "below name score bound = (if score < bound then [name @ '' '' @ fmt2 score @ '' < '' @ fmt2 bound] else [])"

definition failures_of :: "eval_case \<Rightarrow> case_result \<Rightarrow> thresholds \<Rightarrow> string list" where
  "failures_of c r th =
     (if ec_expect_refusal c
      then (if cr_refused r then [] else [''expected a refusal but got a substantive answer''])
      else (if cr_refused r then [''refused an answerable question''] else [])
        @ below ''faithfulness'' (ms_faithfulness (cr_scores r)) (th_faithfulness th)
        @ below ''context_precision'' (ms_context_precision (cr_scores r)) (th_context_precision th)
        @ below ''citation_validity'' (ms_citation_validity (cr_scores r)) (th_citation_validity th))"

definition evaluate :: "eval_case \<Rightarrow> thresholds \<Rightarrow> case_result \<Rightarrow> case_result" where
  "evaluate c th r = r\<lparr>cr_failures := failures_of c r th, cr_passed := (failures_of c r th = [])\<rparr>"

definition result_of_answer :: "eval_case \<Rightarrow> rag_answer \<Rightarrow> case_result" where
  "result_of_answer c a =
     \<lparr>cr_id = ec_id c, cr_question = ec_question c, cr_answer = ra_answer a,
      cr_scores = score_case (ec_question c) (ra_answer a) (map rc_content (ra_sources a)) (ec_ground_truth c) (Some (length (ra_sources a))),
      cr_source_count = length (ra_sources a), cr_confidence = confidence a,
      cr_refused = (looks_like_refusal (ra_answer a) \<or> ra_sources a = []), cr_skipped = False, cr_passed = True, cr_failures = []\<rparr>"

definition run_case :: "library \<Rightarrow> retriever \<Rightarrow> thresholds \<Rightarrow> eval_case \<Rightarrow> (case_result, 'w) act" where
  "run_case lib retr th c =
     bind_llm (answer_question lib retr (ec_question c) True True 6000) (\<lambda>a.
     return_llm (evaluate c th (result_of_answer c a)))"

definition bench_step :: "library \<Rightarrow> retriever \<Rightarrow> thresholds \<Rightarrow> bool \<Rightarrow> eval_case \<Rightarrow> 'w llm \<Rightarrow> case_result \<times> 'w llm" where
  "bench_step lib retr th real_model c gw =
     (if ec_requires_llm c \<and> \<not> real_model then (skipped_result c, gw)
      else case run_case lib retr th c gw of
             (Inr r, gw) \<Rightarrow> (r, gw)
           | (Inl e, gw) \<Rightarrow> (errored_result c e, gw))"

fun bench_loop :: "library \<Rightarrow> retriever \<Rightarrow> thresholds \<Rightarrow> bool \<Rightarrow> eval_case list \<Rightarrow> 'w llm \<Rightarrow> case_result list \<times> 'w llm" where
  "bench_loop lib retr th real_model [] gw = ([], gw)"
| "bench_loop lib retr th real_model (c # cs) gw =
     (let (r, gw) = bench_step lib retr th real_model c gw;
          (rs, gw) = bench_loop lib retr th real_model cs gw in (r # rs, gw))"

definition run_benchmark :: "library \<Rightarrow> retriever \<Rightarrow> thresholds \<Rightarrow> eval_case list \<Rightarrow> 'w llm \<Rightarrow> eval_report \<times> 'w llm" where
  "run_benchmark lib retr th cs gw =
     (let (rs, gw) = bench_loop lib retr th (pr_name (gw_primary (fst gw)) \<noteq> ''echo'') cs gw in
      (\<lparr>rp_results = rs, rp_thresholds = th\<rparr>, gw))"

subsection \<open>The file format\<close>

lemma case_round_trip:
  "case_of_dict lib (case_dict c) =
     (if ec_id c = [] \<or> ec_question c = [] then Inl (ValueError ''An eval case needs both an id and a question'') else Inr c)"
  by (simp add: case_of_dict_def case_dict_def jget_def py_list_def py_str_def comp_def)

lemma reject_duplicates_iff:
  "reject_duplicates seen cs = (if distinct (map ec_id cs) \<and> set seen \<inter> set (map ec_id cs) = {} then Inr ()
     else Inl (ValueError ''Duplicate eval case id''))"
  by (induction seen cs rule: reject_duplicates.induct) auto

text \<open>What is saved is what is loaded: reading back a saved list of cases yields the same cases exactly when
  every case has an identifier and a question and no identifier occurs twice, and raises a
  \<open>ValueError\<close> otherwise.\<close>

theorem saved_cases_round_trip:
  "cases_of_json lib (saved_cases cs) =
     (if list_ex (\<lambda>c. ec_id c = [] \<or> ec_question c = []) cs
      then Inl (ValueError ''An eval case needs both an id and a question'')
      else if distinct (map ec_id cs) then Inr cs else Inl (ValueError ''Duplicate eval case id''))"
proof -
  have m: "mapM (case_of_dict lib) (map case_dict cs) =
      (if list_ex (\<lambda>c. ec_id c = [] \<or> ec_question c = []) cs
       then Inl (ValueError ''An eval case needs both an id and a question'') else Inr cs)"
    by (induction cs) (simp_all add: case_round_trip)
  show ?thesis by (simp add: cases_of_json_def saved_cases_def m reject_duplicates_iff)
qed

subsection \<open>The gate\<close>

text \<open>What a result says of its case.\<close>

definition result_ok :: "thresholds \<Rightarrow> bool \<Rightarrow> eval_case \<Rightarrow> case_result \<Rightarrow> bool" where
  "result_ok th real_model c r \<longleftrightarrow> cr_id r = ec_id c
     \<and> cr_skipped r = (ec_requires_llm c \<and> \<not> real_model)
     \<and> (cr_skipped r \<or> cr_passed r = (cr_failures r = []))
     \<and> (cr_skipped r \<or> \<not> cr_passed r
        \<or> (if ec_expect_refusal c then cr_refused r
           else \<not> cr_refused r \<and> th_faithfulness th \<le> ms_faithfulness (cr_scores r)
             \<and> th_context_precision th \<le> ms_context_precision (cr_scores r)
             \<and> th_citation_validity th \<le> ms_citation_validity (cr_scores r)))
     \<and> list_all in_unit (metric_values (cr_scores r))"

lemma no_scores_unit: "list_all in_unit (metric_values no_scores)"
  by (simp add: metric_values_def no_scores_def)

lemma result_ok_evaluate:
  assumes "\<not> (ec_requires_llm c \<and> \<not> real_model)"
  shows "result_ok th real_model c (evaluate c th (result_of_answer c a))"
  using assms score_case_unit
  by (auto simp: result_ok_def evaluate_def result_of_answer_def failures_of_def below_def split: if_splits)

lemma bench_step_ok: "result_ok th real_model c (fst (bench_step lib retr th real_model c gw))"
proof (cases "ec_requires_llm c \<and> \<not> real_model")
  case True
  then show ?thesis by (simp add: bench_step_def result_ok_def skipped_result_def no_scores_unit)
next
  case False
  obtain r gw1 where r: "answer_question lib retr (ec_question c) True True 6000 gw = (r, gw1)"
    by (cases "answer_question lib retr (ec_question c) True True 6000 gw")
  show ?thesis
  proof (cases r)
    case (Inl e)
    then have "bench_step lib retr th real_model c gw = (errored_result c e, gw1)"
      using False by (auto simp: bench_step_def run_case_def bind_llm_def r)
    then show ?thesis using False by (auto simp: result_ok_def errored_result_def no_scores_unit)
  next
    case (Inr a)
    then have "bench_step lib retr th real_model c gw = (evaluate c th (result_of_answer c a), gw1)"
      using False by (auto simp: bench_step_def run_case_def bind_llm_def return_llm_def r)
    then show ?thesis using result_ok_evaluate [OF False, of th a] by simp
  qed
qed

lemma all_filtered: "length (filter P xs) = length xs \<longleftrightarrow> list_all P xs"
proof (induction xs)
  case (Cons x xs)
  have "length (filter P xs) < Suc (length xs)" by (simp add: le_imp_less_Suc)
  with Cons show ?case by auto
qed simp

lemma bench_loop_ok: "list_all2 (result_ok th real_model) cs (fst (bench_loop lib retr th real_model cs gw))"
proof (induction cs arbitrary: gw)
  case (Cons c cs)
  obtain r gw1 where s: "bench_step lib retr th real_model c gw = (r, gw1)" by (cases "bench_step lib retr th real_model c gw")
  obtain rs gw2 where l: "bench_loop lib retr th real_model cs gw1 = (rs, gw2)" by (cases "bench_loop lib retr th real_model cs gw1")
  show ?case using bench_step_ok [of th real_model c lib retr gw] Cons [of gw1] by (simp add: s l)
qed simp


end
