(* ===== verification/GraphRetrieval.thy ===== *)
theory GraphRetrieval
  imports Builder
begin

section \<open>Retrieval over the graph (graph/retrieval.py)\<close>

text \<open>
  From the entities a question names to the papers that share them.  The mirror table and the
  papers are lists of rows; rows that tie under \<open>ORDER BY\<close> keep the order of the table.  Stored
  confidences are finite (\<open>parse_extraction_sound\<close>).
\<close>

definition MAX_SEED_ENTITIES :: nat where "MAX_SEED_ENTITIES = 8"
definition MAX_RELATED_PAPERS :: nat where "MAX_RELATED_PAPERS = 12"
definition MIN_TERM_LENGTH :: nat where "MIN_TERM_LENGTH = 3"

record graph_path =
  gp_paper :: uuid
  gp_title :: string
  gp_label :: string
  gp_entity :: string
  gp_shared :: "string list"

record graph_context =
  gc_seeds :: "(string \<times> string) list"
  gc_paths :: "graph_path list"

definition describe_path :: "library \<Rightarrow> graph_path \<Rightarrow> string" where
  "describe_path lib g = gp_title g @ '' '' @ dash lib @ '' via '' @ lower (gp_label g) @ '' '' @ [CHR 0x27] @ gp_entity g @ [CHR 0x27]"

text \<open>The first occurrences, in order.\<close>

definition context_paper_ids :: "graph_context \<Rightarrow> uuid list" where
  "context_paper_ids c = add_new (\<lambda>i. i) [] (map gp_paper (gc_paths c))"

definition context_summary :: "graph_context \<Rightarrow> string" where
  "context_summary c =
     (if gc_paths c = [] then ''No graph connections found.''
      else let entities = join '', '' (map (\<lambda>(label, name). name @ '' ('' @ label @ '')'') (gc_seeds c)) in
        str_nat (length (context_paper_ids c)) @ '' related paper(s) via '' @ (if entities = [] then ''shared entities'' else entities))"

definition accessible_paper_ids :: "database \<Rightarrow> uuid \<Rightarrow> uuid list" where
  "accessible_paper_ids db user =
     (let ws = map w_id (filter (\<lambda>w. w_owner w = user) (db_workspaces db)) in
      if ws = [] then [] else map p_id (filter (\<lambda>p. p_workspace p \<in> set ws) (db_papers db)))"

definition candidate_keys :: "string \<Rightarrow> string list" where
  "candidate_keys query =
     filter (\<lambda>k. k \<noteq> [])
       (map em_key (ex_entities (extract_with_gazetteer query []))
        @ map normalize_key (filter (\<lambda>t. MIN_TERM_LENGTH \<le> length t) (words query)))"

definition fin_real :: "pyfloat \<Rightarrow> real" where
  "fin_real x = (case x of Fin r \<Rightarrow> r | _ \<Rightarrow> 0)"

definition find_seed_entities :: "entity_row list \<Rightarrow> string \<Rightarrow> uuid list \<Rightarrow> entity_row list" where
  "find_seed_entities entities query paper_ids =
     (if paper_ids = [] then []
      else let keys = candidate_keys query in
        if keys = [] then []
        else take MAX_SEED_ENTITIES (add_new (\<lambda>r. (en_label r, en_key r)) []
          (sort_desc (\<lambda>r. fin_real (en_confidence r))
            (filter (\<lambda>r. en_paper r \<in> set paper_ids \<and> en_key r \<in> set keys) entities))))"

definition path_title :: "paper_row \<Rightarrow> string" where
  "path_title p = (case p_title p of Some (c # t) \<Rightarrow> c # t | _ \<Rightarrow> ''Untitled'')"

text \<open>The join of the seed's mentions with their papers, cut at \<open>limit\<close> before the exclusion.\<close>

definition seed_paths :: "database \<Rightarrow> entity_row list \<Rightarrow> uuid list \<Rightarrow> uuid list \<Rightarrow> nat \<Rightarrow> entity_row \<Rightarrow> graph_path list" where
  "seed_paths db entities accessible excluded n seed =
     map (\<lambda>p. \<lparr>gp_paper = p_id p, gp_title = path_title p, gp_label = en_label seed, gp_entity = en_name seed, gp_shared = []\<rparr>)
       (filter (\<lambda>p. p_id p \<notin> set excluded)
         (take n (concat (map (\<lambda>r. filter (\<lambda>p. p_id p = en_paper r) (db_papers db))
           (filter (\<lambda>r. en_key r = en_key seed \<and> en_label r = en_label seed \<and> en_paper r \<in> set accessible) entities)))))"

text \<open>\<open>_rank_paths\<close>: the first path of each paper collects the others; \<open>(grouped, strength)\<close>.\<close>

definition rank_step :: "graph_path \<Rightarrow> (uuid, graph_path) dict \<times> (uuid, nat) dict \<Rightarrow> (uuid, graph_path) dict \<times> (uuid, nat) dict" where
  "rank_step path st =
     (case st of (grouped, strength) \<Rightarrow>
       case dget grouped (gp_paper path) of
         None \<Rightarrow> (dset (gp_paper path) path grouped, dset (gp_paper path) 1 strength)
       | Some existing \<Rightarrow>
           (dset (gp_paper path)
              (existing\<lparr>gp_shared := gp_shared existing @ [gp_entity path @ '' ('' @ lower (gp_label path) @ '')'']\<rparr>) grouped,
            dset (gp_paper path) (the (dget strength (gp_paper path)) + 1) strength))"

definition rank_paths :: "graph_path list \<Rightarrow> graph_path list" where
  "rank_paths paths =
     (let (grouped, strength) = fold rank_step paths ([], []) in
      sort_desc (\<lambda>g. the (dget strength (gp_paper g))) (dvalues grouped))"

definition expand_graph :: "database \<Rightarrow> entity_row list \<Rightarrow> uuid \<Rightarrow> string \<Rightarrow> uuid list \<Rightarrow> nat \<Rightarrow> graph_context" where
  "expand_graph db entities user query excluded n =
     (let accessible = accessible_paper_ids db user; seeds = find_seed_entities entities query accessible in
      if seeds = [] then \<lparr>gc_seeds = [], gc_paths = []\<rparr>
      else \<lparr>gc_seeds = map (\<lambda>s. (en_label s, en_name s)) seeds,
            gc_paths = take n (rank_paths (concat (map (seed_paths db entities accessible excluded n) seeds)))\<rparr>)"

text \<open>\<open>GROUP BY label, name\<close> with the number of distinct papers, most first.\<close>

definition entity_cooccurrence :: "entity_row list \<Rightarrow> uuid list \<Rightarrow> string option \<Rightarrow> nat \<Rightarrow> (string \<times> string \<times> nat) list" where
  "entity_cooccurrence entities paper_ids label n =
     (if paper_ids = [] then []
      else
        let rows = filter (\<lambda>r. en_paper r \<in> set paper_ids
               \<and> (case label of None \<Rightarrow> True | Some l \<Rightarrow> l = [] \<or> en_label r = l)) entities;
            groups = add_new (\<lambda>g. g) [] (map (\<lambda>r. (en_label r, en_name r)) rows) in
        take n (sort_desc (\<lambda>(l, m, c). c)
          (map (\<lambda>(l, m). (l, m, length (remdups (map en_paper (filter (\<lambda>r. en_label r = l \<and> en_name r = m) rows))))) groups)))"

subsection \<open>Ranking\<close>

definition strength_of :: "graph_path list \<Rightarrow> uuid \<Rightarrow> nat" where
  "strength_of paths u = count_list (map gp_paper paths) u"

lemma strength_snoc: "strength_of (paths @ [g]) u = strength_of paths u + (if gp_paper g = u then 1 else 0)"
  by (simp add: strength_of_def)

lemma strength_zero: "u \<notin> gp_paper ` set paths \<Longrightarrow> strength_of paths u = 0"
  by (auto simp: strength_of_def count_list_0_iff)

text \<open>What a group holds after the paths seen so far.\<close>

definition group_ok :: "graph_path list \<Rightarrow> uuid \<Rightarrow> graph_path \<Rightarrow> bool" where
  "group_ok paths u g \<longleftrightarrow> gp_paper g = u
     \<and> (list_all (\<lambda>h. gp_shared h = []) paths \<longrightarrow> Suc (length (gp_shared g)) = strength_of paths u)
     \<and> (\<exists>h \<in> set paths. gp_paper h = u \<and> gp_title g = gp_title h \<and> gp_label g = gp_label h \<and> gp_entity g = gp_entity h)"

lemma group_ok_snoc: "group_ok paths u g \<Longrightarrow> gp_paper h \<noteq> u \<Longrightarrow> group_ok (paths @ [h]) u g"
  by (auto simp: group_ok_def strength_snoc)

lemma group_ok_more:
  "group_ok paths (gp_paper h) g \<Longrightarrow> group_ok (paths @ [h]) (gp_paper h) (g\<lparr>gp_shared := gp_shared g @ [x]\<rparr>)"
  by (auto simp: group_ok_def strength_snoc)

lemma group_ok_new: "gp_paper h \<notin> gp_paper ` set paths \<Longrightarrow> group_ok (paths @ [h]) (gp_paper h) h"
  by (auto simp: group_ok_def strength_snoc strength_zero)

text \<open>After a run of \<open>rank_step\<close>: one group for each paper seen, with its strength.\<close>

definition ranked :: "graph_path list \<Rightarrow> (uuid, graph_path) dict \<times> (uuid, nat) dict \<Rightarrow> bool" where
  "ranked paths st \<longleftrightarrow> dict_ok (fst st)
     \<and> (\<forall>u. dget (snd st) u = (if u \<in> gp_paper ` set paths then Some (strength_of paths u) else None))
     \<and> (\<forall>u. case dget (fst st) u of None \<Rightarrow> u \<notin> gp_paper ` set paths | Some g \<Rightarrow> u \<in> gp_paper ` set paths \<and> group_ok paths u g)"

lemma ranked_step:
  assumes "ranked paths st"
  shows "ranked (paths @ [g]) (rank_step g st)"
proof -
  obtain d s where st: "st = (d, s)" by (cases st)
  let ?p = "gp_paper g"
  from assms have ok: "dict_ok d" and s: "dget s u = (if u \<in> gp_paper ` set paths then Some (strength_of paths u) else None)"
    and d: "case dget d u of None \<Rightarrow> u \<notin> gp_paper ` set paths | Some h \<Rightarrow> u \<in> gp_paper ` set paths \<and> group_ok paths u h" for u
    by (simp_all add: ranked_def st)
  show ?thesis
  proof (cases "dget d ?p")
    case None
    with d [of ?p] have new: "?p \<notin> gp_paper ` set paths" by simp
    have "case dget (dset ?p g d) u of None \<Rightarrow> u \<notin> gp_paper ` set (paths @ [g])
        | Some h \<Rightarrow> u \<in> gp_paper ` set (paths @ [g]) \<and> group_ok (paths @ [g]) u h" for u
      using d [of u] group_ok_new [OF new] by (auto split: option.splits intro: group_ok_snoc)
    moreover have "dget (dset ?p 1 s) u = (if u \<in> gp_paper ` set (paths @ [g]) then Some (strength_of (paths @ [g]) u) else None)" for u
      using s [of u] new by (simp add: strength_snoc strength_zero)
    ultimately show ?thesis using None ok by (simp add: ranked_def st rank_step_def)
  next
    case (Some e)
    with d [of ?p] have seen: "?p \<in> gp_paper ` set paths" and e: "group_ok paths ?p e" by simp_all
    let ?e = "e\<lparr>gp_shared := gp_shared e @ [gp_entity g @ '' ('' @ lower (gp_label g) @ '')'']\<rparr>"
    have "case dget (dset ?p ?e d) u of None \<Rightarrow> u \<notin> gp_paper ` set (paths @ [g])
        | Some h \<Rightarrow> u \<in> gp_paper ` set (paths @ [g]) \<and> group_ok (paths @ [g]) u h" for u
      using d [of u] group_ok_more [OF e] by (auto split: option.splits intro: group_ok_snoc)
    moreover have "dget (dset ?p (the (dget s ?p) + 1) s) u = (if u \<in> gp_paper ` set (paths @ [g]) then Some (strength_of (paths @ [g]) u) else None)" for u
      using s [of u] s [of ?p] seen by (simp add: strength_snoc)
    ultimately show ?thesis using Some ok by (simp add: ranked_def st rank_step_def)
  qed
qed

lemma ranked_fold: "ranked paths (fold rank_step paths ([], []))"
proof (induction paths rule: rev_induct)
  case Nil
  show ?case by (simp add: ranked_def)
next
  case (snoc g paths)
  then show ?case using ranked_step by simp
qed


lemma rank_paths_props:
  "distinct (map gp_paper (rank_paths paths))
   \<and> gp_paper ` set (rank_paths paths) = gp_paper ` set paths
   \<and> sorted_wrt (\<lambda>g h. strength_of paths (gp_paper h) \<le> strength_of paths (gp_paper g)) (rank_paths paths)
   \<and> (\<forall>g \<in> set (rank_paths paths). \<exists>h \<in> set paths. gp_paper h = gp_paper g \<and> gp_label h = gp_label g \<and> gp_entity h = gp_entity g)"
proof -
  obtain d s where f: "fold rank_step paths ([], []) = (d, s)" by (cases "fold rank_step paths ([], [])")
  with ranked_fold [of paths] have ok: "dict_ok d" and s: "dget s u = (if u \<in> gp_paper ` set paths then Some (strength_of paths u) else None)"
    and d: "case dget d u of None \<Rightarrow> u \<notin> gp_paper ` set paths | Some g \<Rightarrow> u \<in> gp_paper ` set paths \<and> group_ok paths u g" for u
    by (simp_all add: ranked_def)
  have r: "rank_paths paths = sort_desc (\<lambda>g. the (dget s (gp_paper g))) (dvalues d)" by (simp add: rank_paths_def f)
  have mem: "group_ok paths k g \<and> k \<in> gp_paper ` set paths" if "(k, g) \<in> set d" for k g
    using that d [of k] ok by (simp add: dict_ok_mem)
  have keys: "map gp_paper (dvalues d) = dkeys d"
    using mem by (induction d) (auto simp: group_ok_def)
  have all: "set (dkeys d) = gp_paper ` set paths"
  proof
    show "gp_paper ` set paths \<subseteq> set (dkeys d)"
    proof
      fix u assume "u \<in> gp_paper ` set paths"
      with d [of u] obtain g where "dget d u = Some g" by (cases "dget d u") auto
      then show "u \<in> set (dkeys d)" using ok by (force simp flip: dict_ok_mem)
    qed
  qed (use mem in auto)
  have vals: "set (rank_paths paths) = set (dvalues d)" by (simp add: r)
  have "distinct (map gp_paper (rank_paths paths))" using ok keys by (simp only: r distinct_map_sort_desc dict_ok_def)
  moreover have img: "gp_paper ` set (rank_paths paths) = gp_paper ` set paths"
    using keys all by (metis vals set_map)
  moreover have "sorted_wrt (\<lambda>g h. strength_of paths (gp_paper h) \<le> strength_of paths (gp_paper g)) (rank_paths paths)"
  proof (rule sorted_wrt_mono_rel)
    show "sorted_wrt (\<lambda>g h. the (dget s (gp_paper h)) \<le> the (dget s (gp_paper g))) (rank_paths paths)"
      unfolding r by (rule sorted_sort_desc)
    show "strength_of paths (gp_paper h) \<le> strength_of paths (gp_paper g)"
      if "g \<in> set (rank_paths paths)" "h \<in> set (rank_paths paths)" "the (dget s (gp_paper h)) \<le> the (dget s (gp_paper g))" for g h
    proof -
      from that img have "gp_paper g \<in> gp_paper ` set paths" "gp_paper h \<in> gp_paper ` set paths" by blast+
      with that(3) show ?thesis by (simp only: s if_True option.sel)
    qed
  qed
  moreover have "\<forall>g \<in> set (rank_paths paths). \<exists>h \<in> set paths. gp_paper h = gp_paper g \<and> gp_label h = gp_label g \<and> gp_entity h = gp_entity g"
    using mem unfolding vals by (fastforce simp: group_ok_def)
  ultimately show ?thesis by blast
qed

text \<open>Ranking groups the paths by paper: every paper that was reached appears exactly once, under one of
  its own paths, and the papers are ordered by the number of paths that reach them, the most
  connected first.\<close>

theorem rank_paths_correct:
  "distinct (map gp_paper (rank_paths paths))
   \<and> gp_paper ` set (rank_paths paths) = gp_paper ` set paths
   \<and> sorted_wrt (\<lambda>g h. strength_of paths (gp_paper h) \<le> strength_of paths (gp_paper g)) (rank_paths paths)"
  using rank_paths_props by blast

subsection \<open>Expansion\<close>

lemma accessible_owned:
  "u \<in> set (accessible_paper_ids db user) \<longleftrightarrow> list_ex (\<lambda>p. p_id p = u \<and> owns db user p) (db_papers db)"
  by (force simp: accessible_paper_ids_def Let_def list_ex_iff owns_def filter_empty_conv)

lemma find_seed_entities_props:
  "length (find_seed_entities entities query ids) \<le> MAX_SEED_ENTITIES
   \<and> distinct (map (\<lambda>r. (en_label r, en_key r)) (find_seed_entities entities query ids))
   \<and> list_all (\<lambda>r. r \<in> set entities \<and> en_paper r \<in> set ids \<and> en_key r \<in> set (candidate_keys query))
       (find_seed_entities entities query ids)"
proof -
  let ?xs = "sort_desc (\<lambda>r. fin_real (en_confidence r)) (filter (\<lambda>r. en_paper r \<in> set ids \<and> en_key r \<in> set (candidate_keys query)) entities)"
  let ?f = "\<lambda>r. (en_label r, en_key r)"
  from add_new_props [of ?f "[]" ?xs]
  have "distinct (map ?f (take MAX_SEED_ENTITIES (add_new ?f [] ?xs)))" "set (take MAX_SEED_ENTITIES (add_new ?f [] ?xs)) \<subseteq> set ?xs"
    by (auto simp flip: take_map dest: in_set_takeD)
  then show ?thesis unfolding find_seed_entities_def Let_def list_all_iff by auto
qed

text \<open>Why a path is in the context: a seed of that name and label in the user's papers, named by the
  question, and a mention with the same key in the paper.\<close>

definition justified :: "entity_row list \<Rightarrow> string \<Rightarrow> uuid list \<Rightarrow> graph_path \<Rightarrow> bool" where
  "justified entities query ids g \<longleftrightarrow> list_ex (\<lambda>s. en_label s = gp_label g \<and> en_name s = gp_entity g \<and> en_paper s \<in> set ids
     \<and> en_key s \<in> set (candidate_keys query)
     \<and> list_ex (\<lambda>r. en_paper r = gp_paper g \<and> en_key r = en_key s \<and> en_label r = en_label s) entities) entities"

lemma seed_paths_props:
  assumes "g \<in> set (seed_paths db entities ids excluded n s)"
  shows "gp_paper g \<in> set ids \<and> gp_paper g \<notin> set excluded \<and> gp_label g = en_label s \<and> gp_entity g = en_name s
    \<and> list_ex (\<lambda>r. en_paper r = gp_paper g \<and> en_key r = en_key s \<and> en_label r = en_label s) entities"
  using assms by (force simp: seed_paths_def list_ex_iff dest!: in_set_takeD)

lemma expand_paths:
  assumes "g \<in> set (concat (map (seed_paths db entities ids excluded n) (find_seed_entities entities query ids)))"
  shows "gp_paper g \<in> set ids \<and> gp_paper g \<notin> set excluded \<and> justified entities query ids g"
proof -
  from assms obtain s where s: "s \<in> set (find_seed_entities entities query ids)" and g: "g \<in> set (seed_paths db entities ids excluded n s)" by auto
  from s find_seed_entities_props [of entities query ids]
  have "s \<in> set entities" "en_paper s \<in> set ids" "en_key s \<in> set (candidate_keys query)" by (auto simp: list_all_iff)
  with seed_paths_props [OF g] show ?thesis unfolding justified_def list_ex_iff by metis
qed

text \<open>C21: Graph expansion never leaves what the user owns: every paper it returns is in one of the user's
  workspaces, is not one of those to exclude and is justified by an entity that the question names
  and the user's papers mention; no paper comes twice, there are at most \<open>limit\<close> of them and at
  most eight seeds.\<close>

theorem expand_authorized:
  "let c = expand_graph db entities user query excluded n in
     list_all (\<lambda>g. list_ex (\<lambda>p. p_id p = gp_paper g \<and> owns db user p) (db_papers db)
       \<and> gp_paper g \<notin> set excluded
       \<and> justified entities query (accessible_paper_ids db user) g) (gc_paths c)
     \<and> distinct (map gp_paper (gc_paths c)) \<and> length (gc_paths c) \<le> n \<and> length (gc_seeds c) \<le> 8"
proof -
  let ?ids = "accessible_paper_ids db user"
  let ?seeds = "find_seed_entities entities query ?ids"
  let ?paths = "concat (map (seed_paths db entities ?ids excluded n) ?seeds)"
  note r = rank_paths_props [of ?paths]
  have "list_ex (\<lambda>p. p_id p = gp_paper g \<and> owns db user p) (db_papers db) \<and> gp_paper g \<notin> set excluded \<and> justified entities query ?ids g"
    if "g \<in> set (take n (rank_paths ?paths))" for g
  proof -
    from in_set_takeD [OF that] r obtain h where "h \<in> set ?paths" "gp_paper h = gp_paper g" "gp_label h = gp_label g" "gp_entity h = gp_entity g"
      by blast
    then show ?thesis using expand_paths [of h db entities ?ids excluded n query] accessible_owned [of "gp_paper g" db user]
      by (simp add: justified_def)
  qed
  moreover have "distinct (map gp_paper (take n (rank_paths ?paths)))" using r by (simp flip: take_map)
  ultimately show ?thesis using find_seed_entities_props [of entities query ?ids]
    by (auto simp: expand_graph_def Let_def list_all_iff MAX_SEED_ENTITIES_def)
qed

end
