(* ===== verification/Analytics.thy ===== *)
theory Analytics
  imports GraphRetrieval Grouping
begin

section \<open>Networks of a corpus (graph/analytics.py)\<close>

text \<open>
  Co-authorship, citations, shared entities, adoption by year and the most connected papers, read
  from the rows.  A set of identifiers is a list in the order of insertion, where Python's order is
  arbitrary; groups of a \<open>GROUP BY\<close> come in the order of their first rows.
\<close>

record node_view =
  nv_id :: string
  nv_label :: string
  nv_kind :: string
  nv_weight :: int
  nv_meta :: "(string, int) dict"

record edge_view =
  ev_source :: string
  ev_target :: string
  ev_weight :: int
  ev_kind :: string

record network_view =
  nw_nodes :: "node_view list"
  nw_edges :: "edge_view list"

definition empty_network :: network_view where
  "empty_network = \<lparr>nw_nodes = [], nw_edges = []\<rparr>"

definition is_empty :: "network_view \<Rightarrow> bool" where
  "is_empty v \<longleftrightarrow> nw_nodes v = []"

text \<open>\<open>Counter.most_common\<close>: by count, equal counts in the order of insertion.\<close>

definition most_common :: "('k, int) dict \<Rightarrow> ('k \<times> int) list" where
  "most_common c = sort_desc snd c"

subsection \<open>Co-authors\<close>

definition author_names :: "paper_row \<Rightarrow> string list" where
  "author_names p = split_authors (case p_authors p of None \<Rightarrow> [] | Some a \<Rightarrow> a)"

definition sorted_pair :: "string \<times> string \<Rightarrow> string \<times> string" where
  "sorted_pair = (\<lambda>(a, b). if map code_pt b < map code_pt a then (b, a) else (a, b))"

definition author_lists :: "database \<Rightarrow> uuid list \<Rightarrow> string list list" where
  "author_lists db ids = map author_names (filter (\<lambda>p. p_id p \<in> set ids) (db_papers db))"

definition coauthor_pairs :: "string list list \<Rightarrow> (string \<times> string) list" where
  "coauthor_pairs names = map sorted_pair (concat (map ordered_pairs names))"

definition coauthorship_network :: "database \<Rightarrow> uuid list \<Rightarrow> nat \<Rightarrow> network_view" where
  "coauthorship_network db ids limit =
     (if ids = [] then empty_network
      else
        let names = author_lists db ids; paper_counts = counter (concat names); pair_counts = counter (coauthor_pairs names);
            top = map fst (take limit (most_common paper_counts)) in
        \<lparr>nw_nodes = map (\<lambda>a. \<lparr>nv_id = a, nv_label = a, nv_kind = ''Author'', nv_weight = count_of paper_counts a, nv_meta = []\<rparr>) top,
         nw_edges = map (\<lambda>((a, b), c). \<lparr>ev_source = a, ev_target = b, ev_weight = c, ev_kind = ''COAUTHORED''\<rparr>)
           (filter (\<lambda>((a, b), c). a \<in> set top \<and> b \<in> set top) (most_common pair_counts))\<rparr>)"

subsection \<open>Citations\<close>

text \<open>\<open>by_title\<close>: the last paper of a title wins.\<close>

definition paper_by_title :: "paper_row list \<Rightarrow> (string, uuid) dict" where
  "paper_by_title ps =
     fold (\<lambda>p. case p_title p of Some (c # t) \<Rightarrow> dset (normalize_key (c # t)) (p_id p) | _ \<Rightarrow> (\<lambda>d. d)) ps []"

definition cited_pair :: "(string, uuid) dict \<Rightarrow> uuid \<times> parsed_reference \<Rightarrow> (string \<times> string) option" where
  "cited_pair by_title = (\<lambda>(pid, r).
     case rf_title r of
       Some (c # t) \<Rightarrow>
         (case dget by_title (normalize_key (c # t)) of
            None \<Rightarrow> None
          | Some q \<Rightarrow> if q = pid then None else Some (str_uuid pid, str_uuid q))
     | _ \<Rightarrow> None)"

definition citation_pairs :: "database \<Rightarrow> (uuid \<times> parsed_reference) list \<Rightarrow> uuid list \<Rightarrow> (string \<times> string) list" where
  "citation_pairs db refs ids =
     add_new (\<lambda>p. p) [] (List.map_filter (cited_pair (paper_by_title (filter (\<lambda>p. p_id p \<in> set ids) (db_papers db))))
       (take 2000 (filter (\<lambda>r. fst r \<in> set ids) refs)))"

definition citation_network :: "database \<Rightarrow> (uuid \<times> parsed_reference) list \<Rightarrow> uuid list \<Rightarrow> nat \<Rightarrow> network_view" where
  "citation_network db refs ids limit =
     (if ids = [] then empty_network
      else
        let pairs = citation_pairs db refs ids; in_degree = counter (map snd pairs);
            nodes = map (\<lambda>p. \<lparr>nv_id = str_uuid (p_id p), nv_label = path_title p, nv_kind = ''Paper'',
                              nv_weight = count_of in_degree (str_uuid (p_id p)) + 1,
                              nv_meta = [(''citations_within_corpus'', count_of in_degree (str_uuid (p_id p)))]\<rparr>)
              (filter (\<lambda>p. p_id p \<in> set ids) (db_papers db)) in
        \<lparr>nw_nodes = take limit (sort_desc nv_weight nodes),
         nw_edges = map (\<lambda>(a, b). \<lparr>ev_source = a, ev_target = b, ev_weight = 1, ev_kind = ''CITES''\<rparr>) pairs\<rparr>)"

subsection \<open>Shared entities\<close>

definition signature :: "entity_row \<Rightarrow> string \<times> string" where
  "signature r = (en_label r, en_key r)"

text \<open>The mentions joined with their papers, cut at five thousand rows.\<close>

definition mention_rows :: "database \<Rightarrow> entity_row list \<Rightarrow> uuid list \<Rightarrow> string list \<Rightarrow> (entity_row \<times> paper_row) list" where
  "mention_rows db entities ids labels =
     take 5000 (concat (map (\<lambda>r. map (Pair r) (filter (\<lambda>p. p_id p = en_paper r) (db_papers db)))
       (filter (\<lambda>r. en_paper r \<in> set ids \<and> (labels = [] \<or> en_label r \<in> set labels)) entities)))"

definition papers_of_entities :: "(entity_row \<times> paper_row) list \<Rightarrow> ((string \<times> string), string list) dict" where
  "papers_of_entities rows =
     map (\<lambda>(k, ps). (k, add_new (\<lambda>p. p) [] ps)) (group_all (map (\<lambda>(r, p). (signature r, str_uuid (en_paper r))) rows))"

definition entity_id :: "string \<times> string \<Rightarrow> string" where
  "entity_id = (\<lambda>(label, key). label @ '':'' @ key)"

definition entity_network :: "database \<Rightarrow> entity_row list \<Rightarrow> uuid list \<Rightarrow> string list \<Rightarrow> nat \<Rightarrow> nat \<Rightarrow> network_view" where
  "entity_network db entities ids labels min_papers limit =
     (if ids = [] then empty_network
      else
        let rows = mention_rows db entities ids labels;
            names = keep_last (\<lambda>(r, p). signature r) rows;
            titles = fold (\<lambda>(r, p). dset (str_uuid (en_paper r)) (path_title p)) rows [];
            shared = filter (\<lambda>(k, ps). min_papers \<le> length ps) (papers_of_entities rows);
            ranked = take limit (sort_desc (\<lambda>(k, ps). length ps) shared);
            involved = add_new (\<lambda>p. p) [] (concat (map snd ranked)) in
        \<lparr>nw_nodes = map (\<lambda>(k, ps). \<lparr>nv_id = entity_id k, nv_label = (case dget names k of None \<Rightarrow> [] | Some (r, p) \<Rightarrow> en_name r),
                               nv_kind = fst k, nv_weight = int (length ps), nv_meta = []\<rparr>) ranked
           @ map (\<lambda>pid. \<lparr>nv_id = pid, nv_label = (case dget titles pid of None \<Rightarrow> ''Untitled'' | Some t \<Rightarrow> t),
                       nv_kind = ''Paper'', nv_weight = 1, nv_meta = []\<rparr>) involved,
         nw_edges = concat (map (\<lambda>(k, ps). map (\<lambda>pid. \<lparr>ev_source = pid, ev_target = entity_id k, ev_weight = 1, ev_kind = ''MENTIONS''\<rparr>) ps) ranked)\<rparr>)"

subsection \<open>Adoption and connectedness\<close>

text \<open>The rows of the query: a name and a year with the number of mentions.\<close>

definition adoption_rows :: "database \<Rightarrow> entity_row list \<Rightarrow> uuid list \<Rightarrow> string \<Rightarrow> (string \<times> int) list" where
  "adoption_rows db entities ids label =
     concat (map (\<lambda>r. List.map_filter (\<lambda>p. map_option (Pair (en_name r)) (p_year p)) (filter (\<lambda>p. p_id p = en_paper r) (db_papers db)))
       (filter (\<lambda>r. en_paper r \<in> set ids \<and> en_label r = label) entities))"

definition entity_adoption_by_year ::
    "database \<Rightarrow> entity_row list \<Rightarrow> uuid list \<Rightarrow> string \<Rightarrow> nat \<Rightarrow> (string, (int, int) dict) dict" where
  "entity_adoption_by_year db entities ids label top_n =
     (if ids = [] then []
      else
        let series = group_all (map (\<lambda>((name, year), total). (name, (year, total))) (counter (adoption_rows db entities ids label)));
            totals = map (\<lambda>(name, ys). (name, sum_list (map snd ys))) series in
        map (\<lambda>(name, total). (name, sort_key fst (case dget series name of None \<Rightarrow> [] | Some ys \<Rightarrow> ys)))
          (take top_n (most_common totals)))"

definition most_connected_papers :: "database \<Rightarrow> entity_row list \<Rightarrow> uuid list \<Rightarrow> nat \<Rightarrow> (uuid \<times> string \<times> nat) list" where
  "most_connected_papers db entities ids limit =
     (if ids = [] then []
      else take limit (sort_desc (\<lambda>(u, t, d). d)
        (map (\<lambda>p. (p_id p, path_title p, length (remdups (map en_key (filter (\<lambda>r. en_paper r = p_id p) entities)))))
          (filter (\<lambda>p. p_id p \<in> set ids \<and> list_ex (\<lambda>r. en_paper r = p_id p) entities) (db_papers db)))))"


subsection \<open>Co-authors\<close>

lemma distinct_add_new [simp]: "distinct (add_new (\<lambda>x. x) [] xs)"
  and set_add_new [simp]: "set (add_new (\<lambda>x. x) [] xs) = set xs"
  using add_new_props [where sig = "\<lambda>x. x" and seen = "[]" and xs = xs] by simp_all

lemma in_counter: "(k, c) \<in> set (counter xs) \<longleftrightarrow> k \<in> set xs \<and> c = int (count_list xs k)"
  by (auto simp: dict_ok_mem dget_counter)

lemma distinct_counter [simp]: "distinct (map fst (counter xs))"
  using dict_ok_counter [of xs] by (simp only: dict_ok_def)

lemma set_most_common [simp]: "set (most_common c) = set c"
  by (simp add: most_common_def)

lemma distinct_most_common [simp]: "distinct (map fst (most_common c)) = distinct (map fst c)"
  by (simp add: most_common_def)

lemma sorted_most_common: "sorted_wrt (\<lambda>x y. snd y \<le> snd x) (most_common c)"
  unfolding most_common_def by (rule sorted_sort_desc)

lemma take_most_common:
  "x \<in> set (take n (most_common (counter xs))) \<Longrightarrow> fst x \<in> set xs \<and> snd x = int (count_list xs (fst x))"
proof (drule in_set_takeD)
  show "x \<in> set (most_common (counter xs)) \<Longrightarrow> fst x \<in> set xs \<and> snd x = int (count_list xs (fst x))"
    by (cases x) (simp add: in_counter)
qed

lemma most_common_top:
  assumes "x \<in> set xs" "x \<notin> fst ` set (take n (most_common (counter xs)))" "y \<in> fst ` set (take n (most_common (counter xs)))"
  shows "count_list xs x \<le> count_list xs y"
proof -
  let ?m = "most_common (counter xs)"
  from assms(3) obtain c where y: "(y, c) \<in> set (take n ?m)" by auto
  have "(x, int (count_list xs x)) \<in> set (take n ?m @ drop n ?m)" using assms(1) by (simp add: in_counter)
  then have "(x, int (count_list xs x)) \<in> set (drop n ?m)" using assms(2) unfolding set_append by force
  from sorted_wrt_take_drop [OF sorted_most_common y this] take_most_common [OF y] show ?thesis by simp
qed

text \<open>The nodes are the authors with most papers, the edges all their pairs.\<close>

definition author_ids :: "network_view \<Rightarrow> string list" where
  "author_ids v = map nv_id (nw_nodes v)"

definition edge_ends :: "edge_view \<Rightarrow> string \<times> string" where
  "edge_ends e = (ev_source e, ev_target e)"

lemma coauthorship_nodes:
  assumes "ids \<noteq> []"
  shows "author_ids (coauthorship_network db ids n) = map fst (take n (most_common (counter (concat (author_lists db ids)))))"
    and "nw_nodes (coauthorship_network db ids n) = map (\<lambda>a. \<lparr>nv_id = a, nv_label = a, nv_kind = ''Author'',
           nv_weight = int (count_list (concat (author_lists db ids)) a), nv_meta = []\<rparr>) (author_ids (coauthorship_network db ids n))"
  using assms by (simp_all add: coauthorship_network_def author_ids_def Let_def comp_def)

lemma coauthorship_edges:
  assumes "ids \<noteq> []"
  shows "nw_edges (coauthorship_network db ids n) = map (\<lambda>((a, b), c). \<lparr>ev_source = a, ev_target = b, ev_weight = c, ev_kind = ''COAUTHORED''\<rparr>)
     (filter (\<lambda>((a, b), c). a \<in> set (author_ids (coauthorship_network db ids n)) \<and> b \<in> set (author_ids (coauthorship_network db ids n)))
       (most_common (counter (coauthor_pairs (author_lists db ids)))))"
  using assms coauthorship_nodes(1) [OF assms, of db n] by (simp add: coauthorship_network_def Let_def)

lemma author_lists_Nil [simp]: "author_lists db [] = []"
  by (simp add: author_lists_def)

text \<open>The co-authorship network is exact: its nodes are distinct authors, at most \<open>limit\<close>, the most
  frequent first and none left out that occurs more often than one shown; the weight of a node is the
  number of times the author is listed; the edges are exactly the pairs listed together on a paper
  between two authors shown, each once, weighted by the number of such listings.\<close>

theorem coauthorship_network_exact:
  "let v = coauthorship_network db ids limit; names = author_lists db ids in
     distinct (author_ids v) \<and> length (author_ids v) \<le> limit
     \<and> list_all (\<lambda>a. nv_weight a = int (count_list (concat names) (nv_id a)) \<and> 0 < nv_weight a) (nw_nodes v)
     \<and> sorted_wrt (\<lambda>a b. nv_weight b \<le> nv_weight a) (nw_nodes v)
     \<and> list_all (\<lambda>a. a \<in> set (author_ids v) \<or> list_all (\<lambda>b. count_list (concat names) a \<le> count_list (concat names) b) (author_ids v)) (concat names)
     \<and> distinct (map edge_ends (nw_edges v))
     \<and> edge_ends ` set (nw_edges v) = {p \<in> set (coauthor_pairs names). fst p \<in> set (author_ids v) \<and> snd p \<in> set (author_ids v)}
     \<and> list_all (\<lambda>e. ev_weight e = int (count_list (coauthor_pairs names) (edge_ends e))) (nw_edges v)"
proof (cases "ids = []")
  case True
  then show ?thesis by (simp add: coauthorship_network_def empty_network_def author_ids_def coauthor_pairs_def)
next
  case False
  define names where "names = author_lists db ids"
  define v where "v = coauthorship_network db ids limit"
  define top where "top = take limit (most_common (counter (concat names)))"
  note nodes = coauthorship_nodes [OF False, where n = limit and db = db, folded names_def v_def top_def]
  note edges = coauthorship_edges [OF False, where n = limit and db = db, folded names_def v_def]
  have 1: "distinct (author_ids v)" "length (author_ids v) \<le> limit"
    unfolding nodes(1) by (simp_all add: top_def distinct_take flip: take_map)
  have top: "fst x \<in> set (concat names) \<and> snd x = int (count_list (concat names) (fst x))" if "x \<in> set top" for x
    using that unfolding top_def by (rule take_most_common)
  have 2: "nv_weight a = int (count_list (concat names) (nv_id a)) \<and> 0 < nv_weight a" if "a \<in> set (nw_nodes v)" for a
  proof -
    from that obtain x where x: "x \<in> set top" and a: "nv_id a = fst x" "nv_weight a = int (count_list (concat names) (fst x))"
      unfolding nodes by (auto simp: top_def)
    have "count_list (concat names) (fst x) \<noteq> 0" using top [OF x] unfolding count_list_0_iff by simp
    then show ?thesis by (simp add: a)
  qed
  have "sorted_wrt (\<lambda>x y. snd y \<le> snd x) top" unfolding top_def by (intro sorted_wrt_take sorted_most_common)
  then have "sorted_wrt (\<lambda>x y. count_list (concat names) (fst y) \<le> count_list (concat names) (fst x)) top"
    by (rule sorted_wrt_mono_rel [rotated]) (use top in simp)
  then have 3: "sorted_wrt (\<lambda>a b. nv_weight b \<le> nv_weight a) (nw_nodes v)"
    unfolding nodes by (simp add: sorted_wrt_map flip: top_def)
  have 4: "count_list (concat names) a \<le> count_list (concat names) b"
    if "a \<in> set (concat names)" "a \<notin> set (author_ids v)" "b \<in> set (author_ids v)" for a b
    using most_common_top [OF that(1), of limit b] that(2,3) unfolding nodes(1) by (simp add: top_def)
  have ends: "map edge_ends (nw_edges v) = map fst (filter (\<lambda>((a, b), c). a \<in> set (author_ids v) \<and> b \<in> set (author_ids v))
      (most_common (counter (coauthor_pairs names))))"
    unfolding edges by (simp add: edge_ends_def case_prod_unfold comp_def)
  have 5: "distinct (map edge_ends (nw_edges v))"
    unfolding ends by (intro distinct_map_filter) simp
  have 6: "edge_ends ` set (nw_edges v) = {p \<in> set (coauthor_pairs names). fst p \<in> set (author_ids v) \<and> snd p \<in> set (author_ids v)}"
  proof -
    have "edge_ends ` set (nw_edges v) = set (map edge_ends (nw_edges v))" by simp
    also have "\<dots> = {p \<in> set (coauthor_pairs names). fst p \<in> set (author_ids v) \<and> snd p \<in> set (author_ids v)}"
      unfolding ends by (force simp: in_counter)
    finally show ?thesis .
  qed
  have 7: "ev_weight e = int (count_list (coauthor_pairs names) (edge_ends e))" if "e \<in> set (nw_edges v)" for e
    using that unfolding edges by (auto simp: in_counter edge_ends_def)
  show ?thesis
    unfolding Let_def names_def [symmetric] v_def [symmetric] list_all_iff using 1 2 3 4 5 6 7 by blast
qed


subsection \<open>Citations\<close>

lemma paper_by_title_sound:
  "dget (paper_by_title ps) k = Some u \<Longrightarrow> \<exists>p \<in> set ps. \<exists>t. p_id p = u \<and> p_title p = Some t \<and> t \<noteq> [] \<and> normalize_key t = k"
proof (induction ps rule: rev_induct)
  case Nil
  then show ?case by (simp add: paper_by_title_def)
next
  case (snoc p ps)
  then show ?case by (auto simp: paper_by_title_def split: option.splits list.splits if_splits)
qed

text \<open>An edge comes from a reference of a requested paper whose title is that of another one.\<close>

definition cites :: "paper_row list \<Rightarrow> uuid list \<Rightarrow> edge_view \<Rightarrow> uuid \<times> parsed_reference \<Rightarrow> bool" where
  "cites papers ids e = (\<lambda>(u, r). u \<in> set ids \<and> ev_source e = str_uuid u
     \<and> list_ex (\<lambda>p. p_id p \<in> set ids \<and> p_id p \<noteq> u \<and> ev_target e = str_uuid (p_id p)
         \<and> map_option normalize_key (p_title p) = map_option normalize_key (rf_title r) \<and> rf_title r \<noteq> None) papers)"

lemma cited_pair_sound:
  assumes "cited_pair (paper_by_title ps) ur = Some (a, b)"
  shows "a = str_uuid (fst ur) \<and> (\<exists>p \<in> set ps. b = str_uuid (p_id p) \<and> p_id p \<noteq> fst ur
     \<and> map_option normalize_key (p_title p) = map_option normalize_key (rf_title (snd ur)) \<and> rf_title (snd ur) \<noteq> None)"
proof -
  obtain pid r where ur: "ur = (pid, r)" by (cases ur)
  from assms ur obtain c t q where t: "rf_title r = Some (c # t)" "dget (paper_by_title ps) (normalize_key (c # t)) = Some q"
      "q \<noteq> pid" "a = str_uuid pid" "b = str_uuid q"
    by (auto simp: cited_pair_def split: option.splits list.splits if_splits)
  from paper_by_title_sound [OF t(2)] obtain p u where "p \<in> set ps" "p_id p = q" "p_title p = Some u" "normalize_key u = normalize_key (c # t)"
    by blast
  then show ?thesis using t ur by auto
qed

lemma citation_pair_sound:
  assumes "(a, b) \<in> set (citation_pairs db refs ids)"
  shows "list_ex (cites (db_papers db) ids \<lparr>ev_source = a, ev_target = b, ev_weight = w, ev_kind = k\<rparr>) refs"
proof -
  let ?ps = "filter (\<lambda>p. p_id p \<in> set ids) (db_papers db)"
  have "(a, b) \<in> set (List.map_filter (cited_pair (paper_by_title ?ps)) (take 2000 (filter (\<lambda>r. fst r \<in> set ids) refs)))"
    using assms by (simp add: citation_pairs_def)
  then obtain ur where "ur \<in> set (take 2000 (filter (\<lambda>r. fst r \<in> set ids) refs))"
      and c: "cited_pair (paper_by_title ?ps) ur = Some (a, b)"
    by (auto simp: List.map_filter_def)
  then have u: "ur \<in> set refs" "fst ur \<in> set ids" by (auto dest: in_set_takeD)
  have "cites (db_papers db) ids \<lparr>ev_source = a, ev_target = b, ev_weight = w, ev_kind = k\<rparr> ur"
    using cited_pair_sound [OF c] u(2) by (cases ur) (auto simp: cites_def list_ex_iff)
  then show ?thesis using u(1) by (auto simp: list_ex_iff)
qed

text \<open>Every citation shown is one: it leads from a requested paper, one of whose references has the
  title of another requested paper, to that paper, and no pair comes twice; a node is a requested
  paper whose weight is one more than the citations it receives, the most cited first.\<close>

theorem citation_network_sound:
  "let v = citation_network db refs ids limit in
     distinct (map edge_ends (nw_edges v)) \<and> list_all (\<lambda>e. list_ex (cites (db_papers db) ids e) refs) (nw_edges v)
     \<and> length (nw_nodes v) \<le> limit \<and> sorted_wrt (\<lambda>a b. nv_weight b \<le> nv_weight a) (nw_nodes v)
     \<and> list_all (\<lambda>a. nv_weight a = 1 + int (length (filter (\<lambda>e. ev_target e = nv_id a) (nw_edges v)))
          \<and> list_ex (\<lambda>p. p_id p \<in> set ids \<and> nv_id a = str_uuid (p_id p)) (db_papers db)) (nw_nodes v)"
proof (cases "ids = []")
  case True
  then show ?thesis by (simp add: citation_network_def empty_network_def)
next
  case False
  define v where "v = citation_network db refs ids limit"
  define pairs where "pairs = citation_pairs db refs ids"
  have edges: "nw_edges v = map (\<lambda>(a, b). \<lparr>ev_source = a, ev_target = b, ev_weight = 1, ev_kind = ''CITES''\<rparr>) pairs"
    using False by (simp add: v_def citation_network_def pairs_def Let_def)
  have "map edge_ends (nw_edges v) = pairs" by (simp add: edges edge_ends_def case_prod_unfold comp_def)
  moreover have "distinct pairs"
    unfolding pairs_def citation_pairs_def by simp
  ultimately have 1: "distinct (map edge_ends (nw_edges v))" by simp
  have 2: "list_ex (cites (db_papers db) ids e) refs" if "e \<in> set (nw_edges v)" for e
    using that citation_pair_sound unfolding edges pairs_def by fastforce
  have deg: "int (count_list (map snd pairs) x) = int (length (filter (\<lambda>e. ev_target e = x) (nw_edges v)))" for x
    unfolding edges by (simp add: count_list_eq_length_filter filter_map comp_def case_prod_unfold eq_commute)
  have "nw_nodes v = take limit (sort_desc nv_weight (map (\<lambda>p. \<lparr>nv_id = str_uuid (p_id p), nv_label = path_title p, nv_kind = ''Paper'',
      nv_weight = int (count_list (map snd pairs) (str_uuid (p_id p))) + 1,
      nv_meta = [(''citations_within_corpus'', int (count_list (map snd pairs) (str_uuid (p_id p))))]\<rparr>)
        (filter (\<lambda>p. p_id p \<in> set ids) (db_papers db))))"
    using False by (simp add: v_def citation_network_def pairs_def Let_def)
  note nodes = this [unfolded deg]
  have 3: "length (nw_nodes v) \<le> limit" "sorted_wrt (\<lambda>a b. nv_weight b \<le> nv_weight a) (nw_nodes v)"
    unfolding nodes by (simp_all add: sorted_wrt_take sorted_sort_desc)
  have 4: "nv_weight a = 1 + int (length (filter (\<lambda>e. ev_target e = nv_id a) (nw_edges v)))
      \<and> list_ex (\<lambda>p. p_id p \<in> set ids \<and> nv_id a = str_uuid (p_id p)) (db_papers db)" if "a \<in> set (nw_nodes v)" for a
    using that [unfolded nodes, THEN in_set_takeD] by (auto simp: list_ex_iff)
  show ?thesis unfolding Let_def v_def [symmetric] list_all_iff using 1 2 3 4 by blast
qed

subsection \<open>Shared entities\<close>

definition mentions_of :: "uuid list \<Rightarrow> edge_view \<Rightarrow> entity_row \<Rightarrow> bool" where
  "mentions_of ids e r \<longleftrightarrow> en_paper r \<in> set ids \<and> ev_source e = str_uuid (en_paper r) \<and> ev_target e = entity_id (signature r)"

lemma papers_of_entities_sound:
  assumes "(k, ps) \<in> set (papers_of_entities (mention_rows db entities ids labels))" "pid \<in> set ps"
  shows "\<exists>r \<in> set entities. en_paper r \<in> set ids \<and> signature r = k \<and> pid = str_uuid (en_paper r)
    \<and> (labels = [] \<or> en_label r \<in> set labels)"
proof -
  let ?rows = "mention_rows db entities ids labels"
  from assms obtain qs where g: "(k, qs) \<in> set (group_all (map (\<lambda>(r, p). (signature r, str_uuid (en_paper r))) ?rows))" and "pid \<in> set qs"
    unfolding papers_of_entities_def by fastforce
  then have "(k, pid) \<in> set (map (\<lambda>(r, p). (signature r, str_uuid (en_paper r))) ?rows)" unfolding in_group by force
  then obtain r p where rp: "(r, p) \<in> set ?rows" "signature r = k" "pid = str_uuid (en_paper r)" by auto
  have "r \<in> set entities \<and> en_paper r \<in> set ids \<and> (labels = [] \<or> en_label r \<in> set labels)"
    using rp(1) [unfolded mention_rows_def, THEN in_set_takeD] by auto
  then show ?thesis using rp by blast
qed

text \<open>The network of shared entities is closed and justified: the entity nodes come first, at most
  \<open>limit\<close>, each in at least the required number of papers, the most shared first; the paper nodes
  after them are distinct and are exactly the sources of edges; every edge joins two nodes that are
  there and stands for a mention in a requested paper of an entity of a requested label.\<close>

theorem entity_network_sound:
  "let v = entity_network db entities ids labels min_papers limit in
     \<exists>k \<le> limit. list_all (\<lambda>a. int min_papers \<le> nv_weight a) (take k (nw_nodes v))
       \<and> sorted_wrt (\<lambda>a b. nv_weight b \<le> nv_weight a) (take k (nw_nodes v))
       \<and> distinct (map nv_id (drop k (nw_nodes v))) \<and> nv_id ` set (drop k (nw_nodes v)) = ev_source ` set (nw_edges v)
       \<and> list_all (\<lambda>e. ev_target e \<in> nv_id ` set (take k (nw_nodes v))
            \<and> list_ex (\<lambda>r. mentions_of ids e r \<and> (labels = [] \<or> en_label r \<in> set labels)) entities) (nw_edges v)"
proof (cases "ids = []")
  case True
  then show ?thesis by (auto simp: entity_network_def empty_network_def)
next
  case False
  define rows where "rows = mention_rows db entities ids labels"
  define ranked where "ranked = take limit (sort_desc (\<lambda>(k, ps). length ps) (filter (\<lambda>(k, ps). min_papers \<le> length ps) (papers_of_entities rows)))"
  define v where "v = entity_network db entities ids labels min_papers limit"
  obtain f g where f: "\<And>kps. nv_id (f kps) = entity_id (fst kps) \<and> nv_weight (f kps) = int (length (snd kps))"
    and g: "\<And>pid. nv_id (g pid) = pid"
    and nodes: "nw_nodes v = map f ranked @ map g (add_new (\<lambda>p. p) [] (concat (map snd ranked)))"
  proof
    show "nw_nodes v = map (\<lambda>(k, ps). \<lparr>nv_id = entity_id k, nv_label = (case dget (keep_last (\<lambda>(r, p). signature r) rows) k of None \<Rightarrow> [] | Some (r, p) \<Rightarrow> en_name r),
          nv_kind = fst k, nv_weight = int (length ps), nv_meta = []\<rparr>) ranked
        @ map (\<lambda>pid. \<lparr>nv_id = pid, nv_label = (case dget (fold (\<lambda>(r, p). dset (str_uuid (en_paper r)) (path_title p)) rows []) pid of None \<Rightarrow> ''Untitled'' | Some t \<Rightarrow> t),
             nv_kind = ''Paper'', nv_weight = 1, nv_meta = []\<rparr>) (add_new (\<lambda>p. p) [] (concat (map snd ranked)))"
      using False by (simp add: v_def entity_network_def Let_def rows_def ranked_def)
  qed (simp_all add: case_prod_unfold)
  have edges: "nw_edges v = concat (map (\<lambda>(k, ps). map (\<lambda>pid. \<lparr>ev_source = pid, ev_target = entity_id k, ev_weight = 1, ev_kind = ''MENTIONS''\<rparr>) ps) ranked)"
    using False by (simp add: v_def entity_network_def Let_def rows_def ranked_def)
  have ranked: "kps \<in> set (papers_of_entities rows) \<and> min_papers \<le> length (snd kps)" if "kps \<in> set ranked" for kps
    using that [unfolded ranked_def, THEN in_set_takeD] by auto
  have 1: "list_all (\<lambda>a. int min_papers \<le> nv_weight a) (map f ranked)"
    using ranked f by (simp add: list_all_iff)
  have "sorted_wrt (\<lambda>x y. length (snd y) \<le> length (snd x)) ranked"
    unfolding ranked_def case_prod_unfold by (intro sorted_wrt_take sorted_sort_desc)
  then have 2: "sorted_wrt (\<lambda>a b. nv_weight b \<le> nv_weight a) (map f ranked)" by (simp add: sorted_wrt_map f)
  have 3: "distinct (map nv_id (map g (add_new (\<lambda>p. p) [] (concat (map snd ranked)))))" by (simp add: g comp_def)
  have 4: "nv_id ` set (map g (add_new (\<lambda>p. p) [] (concat (map snd ranked)))) = ev_source ` set (nw_edges v)"
    unfolding edges by (force simp: g image_image)
  have 5: "ev_target e \<in> nv_id ` set (map f ranked) \<and> list_ex (\<lambda>r. mentions_of ids e r \<and> (labels = [] \<or> en_label r \<in> set labels)) entities"
    if "e \<in> set (nw_edges v)" for e
  proof -
    from that obtain kps pid where e: "kps \<in> set ranked" "pid \<in> set (snd kps)" "ev_source e = pid" "ev_target e = entity_id (fst kps)"
      unfolding edges by auto
    have "ev_target e = nv_id (f kps)" using e(4) f by simp
    moreover have "\<exists>r \<in> set entities. en_paper r \<in> set ids \<and> signature r = fst kps \<and> pid = str_uuid (en_paper r) \<and> (labels = [] \<or> en_label r \<in> set labels)"
      using papers_of_entities_sound [of "fst kps" "snd kps" db entities ids labels pid] ranked [OF e(1)] e(2) by (simp add: rows_def)
    ultimately show ?thesis using e by (auto simp: list_ex_iff mentions_of_def)
  qed
  have "length ranked \<le> limit" by (simp add: ranked_def)
  then show ?thesis
    unfolding Let_def v_def [symmetric] using 1 2 3 4 5 by (intro exI [of _ "length ranked"]) (simp add: nodes list_all_iff)
qed


subsection \<open>Adoption\<close>

lemma distinct_series:
  assumes "distinct (map fst c)"
  shows "distinct (map fst (map snd (filter (\<lambda>kv. fst kv = n) (map (\<lambda>((name, year), total). (name, (year, total))) c))))"
  using assms by (induction c) (auto simp: image_iff)

lemma adoption_series:
  assumes "(name, ys) \<in> set (group_all (map (\<lambda>((name, year), total). (name, (year, total))) (counter rows)))"
  shows "distinct (map fst ys)" "set ys = {(y, int (count_list rows (name, y))) | y. (name, y) \<in> set rows}"
proof -
  let ?kvs = "map (\<lambda>((name, year), total). (name, (year, total))) (counter rows)"
  have ys: "ys = map snd (filter (\<lambda>kv. fst kv = name) ?kvs)" using assms by (simp add: in_group)
  show "distinct (map fst ys)" unfolding ys by (rule distinct_series) simp
  show "set ys = {(y, int (count_list rows (name, y))) | y. (name, y) \<in> set rows}"
    unfolding ys by (force simp: in_counter)
qed

text \<open>Adoption by year is exact: at most \<open>top_n\<close> names, none twice; the years of a name are strictly
  increasing, are exactly the dated years with a mention in a requested paper, and each carries the
  number of its mentions.\<close>

theorem adoption_exact:
  "let rows = adoption_rows db entities ids label; series = entity_adoption_by_year db entities ids label top_n in
     distinct (map fst series) \<and> length series \<le> top_n
     \<and> list_all (\<lambda>(name, ys). sorted_wrt (<) (map fst ys) \<and> name \<in> fst ` set rows
          \<and> set ys = {(y, int (count_list rows (name, y))) | y. (name, y) \<in> set rows}) series"
proof (cases "ids = []")
  case True
  then show ?thesis by (simp add: entity_adoption_by_year_def)
next
  case False
  define rows where "rows = adoption_rows db entities ids label"
  define series where "series = group_all (map (\<lambda>((name, year), total). (name, (year, total))) (counter rows))"
  define totals where "totals = map (\<lambda>(name, ys). (name, sum_list (map snd ys))) series"
  define top where "top = take top_n (most_common totals)"
  have result: "entity_adoption_by_year db entities ids label top_n
      = map (\<lambda>(name, total). (name, sort_key fst (case dget series name of None \<Rightarrow> [] | Some ys \<Rightarrow> ys))) top"
    using False by (simp add: entity_adoption_by_year_def rows_def series_def totals_def top_def Let_def)
  have keys: "map fst totals = map fst series" by (simp add: totals_def case_prod_unfold comp_def)
  have ok: "dict_ok series" by (simp add: series_def)
  then have "distinct (map fst totals)" by (simp add: keys dict_ok_def)
  then have 1: "distinct (map fst top)" by (simp add: top_def distinct_take flip: take_map)
  have 2: "\<exists>ys. dget series (fst x) = Some ys" if "x \<in> set top" for x
  proof -
    have "fst x \<in> set (map fst totals)" using that [unfolded top_def, THEN in_set_takeD] by simp
    then have "fst x \<in> set (map fst series)" unfolding keys .
    then show ?thesis by (metis list.set_map map_of_eq_None_iff not_None_eq)
  qed
  have 3: "sorted_wrt (<) (map fst (sort_key fst ys)) \<and> name \<in> fst ` set rows
      \<and> set (sort_key fst ys) = {(y, int (count_list rows (name, y))) | y. (name, y) \<in> set rows}"
    if "dget series name = Some ys" for name ys
  proof -
    from that have s: "(name, ys) \<in> set series" using ok by (simp add: dict_ok_mem)
    note a = adoption_series [OF s [unfolded series_def]]
    have "distinct (map fst (sort_key fst ys))" using a(1) by (metis distinct_map distinct_sort set_sort)
    then have "sorted_wrt (<) (map fst (sort_key fst ys))" by (simp add: strict_sorted_iff)
    moreover have "name \<in> fst ` set (map (\<lambda>((name, year), total). (name, (year, total))) (counter rows))"
      using s unfolding series_def in_group by blast
    then have "name \<in> fst ` set rows" by (force simp: in_counter)
    ultimately show ?thesis using a(2) by simp
  qed
  have "list_all (\<lambda>(name, ys). sorted_wrt (<) (map fst ys) \<and> name \<in> fst ` set rows
      \<and> set ys = {(y, int (count_list rows (name, y))) | y. (name, y) \<in> set rows}) (entity_adoption_by_year db entities ids label top_n)"
    unfolding result list_all_iff using 2 3 by fastforce
  moreover have "map fst (entity_adoption_by_year db entities ids label top_n) = map fst top"
    by (simp add: result case_prod_unfold comp_def)
  then have "distinct (map fst (entity_adoption_by_year db entities ids label top_n))" using 1 by simp
  moreover have "length (entity_adoption_by_year db entities ids label top_n) \<le> top_n" by (simp add: result top_def)
  ultimately show ?thesis unfolding Let_def rows_def by blast
qed

subsection \<open>Where the networks and their descriptions part\<close>

definition titled :: "uuid \<Rightarrow> string \<Rightarrow> paper_row" where
  "titled u t = \<lparr>p_id = u, p_workspace = 1, p_uploader = 1, p_title = Some t, p_status = READY, p_filename = [], p_checksum = [],
     p_size = 0, p_storage_key = [], p_page_count = None, p_abstract = None, p_authors = None, p_error = None, p_ocr_pages = 0,
     p_year = None, p_venue = None\<rparr>"

definition two_papers :: database where
  "two_papers = \<lparr>db_workspaces = [], db_papers = [titled 1 ''a'', titled 2 ''b''], db_chunks = []\<rparr>"

definition cites_b :: "(uuid \<times> parsed_reference) list" where
  "cites_b = [(1, \<lparr>rf_order = 1, rf_raw = [], rf_doi = None, rf_arxiv = None, rf_year = None, rf_title = Some ''b''\<rparr>)]"

definition mention :: "uuid \<Rightarrow> string \<Rightarrow> entity_row" where
  "mention u k = \<lparr>en_paper = u, en_label = ''Model'', en_key = k, en_name = k, en_confidence = Fin 1, en_evidence = None\<rparr>"

text \<open>The citation network is cut at its nodes but not at its edges: with a limit of one, paper 2 is
  shown with an edge from a paper that is not shown.  And the most connected papers need not be
  connected: they are ranked by all their entities, not by those they share.\<close>

theorem networks_overstate:
  "author_ids (citation_network two_papers cites_b [1, 2] 1)
     = [str_uuid 2]
   \<and> map edge_ends (nw_edges (citation_network two_papers cites_b [1, 2] 1))
     = [(str_uuid 1, str_uuid 2)]
   \<and> most_connected_papers two_papers [mention 1 ''x'', mention 1 ''y'', mention 2 ''z''] [1, 2] 1 = [(1, ''a'', 2)]"
proof -
  have k: "normalize_key ''a'' = ''a''" "normalize_key ''b'' = ''b''"
    by (simp_all add: normalize_key_def lower_def lower_char_def code_pt_def strip_by_def key_strip_char_def is_space_def)
  have p: "citation_pairs two_papers cites_b [1, 2]
      = [(str_uuid 1, str_uuid 2)]"
    by (simp add: citation_pairs_def cites_b_def two_papers_def titled_def paper_by_title_def cited_pair_def k List.map_filter_def)
  have papers: "db_papers two_papers = [titled 1 ''a'', titled 2 ''b'']" by (simp add: two_papers_def)
  show ?thesis
    unfolding citation_network_def p most_connected_papers_def Let_def papers
    by (simp add: author_ids_def edge_ends_def titled_def mention_def path_title_def sort_desc_def)
qed

end
