(* ===== verification/Comparison.thy ===== *)
theory Comparison
  imports Experiments GraphRetrieval Grouping
begin

section \<open>Comparison tables (research/comparison.py)\<close>

text \<open>
  Stored results, joined with their papers and grouped into rows.  Stored values are taken as
  finite (\<open>fin_real\<close>); \<open>fmt_g\<close>, the format \<open>g\<close> of a number, is a parameter.
\<close>

definition LOWER_IS_BETTER :: "string list" where
  "LOWER_IS_BETTER = [''perplexity'', ''wer'', ''cer'', ''loss'', ''latency'', ''error rate'']"

record comparison_cell =
  cc_paper :: uuid
  cc_title :: string
  cc_model :: string
  cc_value :: real
  cc_unit :: "string option"
  cc_split :: "string option"
  cc_confidence :: pyfloat
  cc_best :: bool

record comparison_row =
  cw_dataset :: string
  cw_metric :: string
  cw_cells :: "comparison_cell list"

record comparison_table =
  ct_rows :: "comparison_row list"
  ct_papers :: "(string, string) dict"
  ct_ungrouped :: nat

definition empty_table :: comparison_table where
  "empty_table = \<lparr>ct_rows = [], ct_papers = [], ct_ungrouped = 0\<rparr>"

definition spread :: "comparison_row \<Rightarrow> real" where
  "spread r = (if length (cw_cells r) < 2 then 0
     else Max (set (map cc_value (cw_cells r))) - Min (set (map cc_value (cw_cells r))))"

definition cell_line :: "(real \<Rightarrow> string) \<Rightarrow> comparison_row \<Rightarrow> comparison_cell \<Rightarrow> string" where
  "cell_line fmt_g r c =
     (let v = fmt_g (cc_value c) @ (case cc_unit c of None \<Rightarrow> [] | Some u \<Rightarrow> u); v = (if cc_best c then ''**'' @ v @ ''**'' else v) in
      ''| '' @ cw_dataset r @ '' | '' @ cw_metric r @ '' | '' @ cc_model c @ '' | '' @ v @ '' | '' @ cc_title c @ '' |'')"

definition to_markdown :: "(real \<Rightarrow> string) \<Rightarrow> comparison_table \<Rightarrow> string" where
  "to_markdown fmt_g t =
     (if ct_rows t = [] then ''_No comparable results were extracted from these papers._''
      else join [CHR 0x0A]
        ([''| Dataset | Metric | Model | Value | Paper |'', ''| --- | --- | --- | --- | --- |'']
         @ concat (map (\<lambda>r. map (cell_line fmt_g r) (cw_cells r)) (ct_rows t))))"

subsection \<open>Directions and marks\<close>

definition metric_higher_is_better :: "string \<Rightarrow> bool" where
  "metric_higher_is_better metric \<longleftrightarrow> canonical_metric metric \<notin> set LOWER_IS_BETTER"

fun mark_first :: "('a \<Rightarrow> bool) \<Rightarrow> ('a \<Rightarrow> 'a) \<Rightarrow> 'a list \<Rightarrow> 'a list" where
  "mark_first P f [] = []"
| "mark_first P f (x # xs) = (if P x then f x # xs else x # mark_first P f xs)"

text \<open>\<open>max\<close> and \<open>min\<close> with a key return the first of the best.\<close>

definition best_value :: "string \<Rightarrow> real list \<Rightarrow> real" where
  "best_value metric vs = (if metric_higher_is_better metric then Max (set vs) else Min (set vs))"

definition mark_best :: "string \<Rightarrow> comparison_cell list \<Rightarrow> comparison_cell list" where
  "mark_best metric cells =
     (if cells = [] then []
      else mark_first (\<lambda>c. cc_value c = best_value metric (map cc_value cells)) (\<lambda>c. c\<lparr>cc_best := True\<rparr>) cells)"

definition sort_cells :: "string \<Rightarrow> comparison_cell list \<Rightarrow> comparison_cell list" where
  "sort_cells metric cells = (if metric_higher_is_better metric then sort_desc cc_value cells else sort_key cc_value cells)"

subsection \<open>The table\<close>

definition untitled :: "paper_row \<Rightarrow> string" where
  "untitled p = (case p_title p of Some (c # t) \<Rightarrow> c # t | _ \<Rightarrow> ''Untitled'')"

definition present :: "string option \<Rightarrow> bool" where
  "present v \<longleftrightarrow> (case v of Some (c # s) \<Rightarrow> True | _ \<Rightarrow> False)"

definition joined_results ::
    "database \<Rightarrow> result_row list \<Rightarrow> uuid list \<Rightarrow> string list \<Rightarrow> string list \<Rightarrow> (result_row \<times> paper_row) list" where
  "joined_results db results ids metrics datasets =
     concat (map (\<lambda>r. map (Pair r) (filter (\<lambda>p. p_id p = xr_paper r) (db_papers db)))
       (filter (\<lambda>r. xr_paper r \<in> set ids
           \<and> (metrics = [] \<or> xr_metric_key r \<in> set (map canonical_metric metrics))
           \<and> (datasets = [] \<or> xr_dataset_key r \<in> set (map (\<lambda>d. Some (normalize_key d)) datasets))) results))"

definition cell_of :: "result_row \<times> paper_row \<Rightarrow> comparison_cell" where
  "cell_of rp = (case rp of (r, p) \<Rightarrow>
     \<lparr>cc_paper = xr_paper r, cc_title = untitled p, cc_model = xr_model_name r, cc_value = fin_real (xr_value r), cc_unit = xr_unit r,
      cc_split = xr_split r, cc_confidence = xr_confidence r, cc_best = False\<rparr>)"

definition group_key :: "result_row \<Rightarrow> string \<times> string" where
  "group_key r = (if present (xr_dataset_name r) then the (xr_dataset_name r) else the (xr_dataset_key r), xr_metric_name r)"

definition grouped_cells :: "(result_row \<times> paper_row) list \<Rightarrow> (string \<times> string, comparison_cell list) dict" where
  "grouped_cells rps =
     group_all (map (\<lambda>rp. (group_key (fst rp), cell_of rp)) (filter (\<lambda>rp. present (xr_dataset_key (fst rp))) rps))"

definition build_comparison_table ::
    "database \<Rightarrow> result_row list \<Rightarrow> uuid list \<Rightarrow> string list \<Rightarrow> string list \<Rightarrow> nat \<Rightarrow> comparison_table" where
  "build_comparison_table db results ids metrics datasets min_papers =
     (if ids = [] then empty_table
      else let rows = joined_results db results ids metrics datasets in
        if rows = [] then empty_table
        else
          \<lparr>ct_rows = sort_desc (\<lambda>r. (length (cw_cells r), spread r))
             (map (\<lambda>((d, m), cells). \<lparr>cw_dataset = d, cw_metric = m, cw_cells = sort_cells m (mark_best m cells)\<rparr>)
               (filter (\<lambda>(k, cells). min_papers \<le> card (cc_paper ` set cells)) (grouped_cells rows))),
           ct_papers = fold (\<lambda>rp. dset (str_uuid (xr_paper (fst rp))) (untitled (snd rp))) rows [],
           ct_ungrouped = length (filter (\<lambda>rp. \<not> present (xr_dataset_key (fst rp))) rows)\<rparr>)"

subsection \<open>The overview\<close>

record paper_summary =
  ps_paper :: uuid
  ps_title :: string
  ps_year :: "int option"
  ps_datasets :: "string list"
  ps_models :: "string list"
  ps_metrics :: "string list"

definition summary_step :: "result_row \<Rightarrow> (uuid, paper_summary) dict \<Rightarrow> (uuid, paper_summary) dict" where
  "summary_step r d =
     (case dget d (xr_paper r) of
        None \<Rightarrow> d
      | Some s \<Rightarrow> dset (xr_paper r)
          (s\<lparr>ps_datasets := (if present (xr_dataset_name r) then add_once (the (xr_dataset_name r)) (ps_datasets s) else ps_datasets s),
             ps_models := add_once (xr_model_name r) (ps_models s), ps_metrics := add_once (xr_metric_name r) (ps_metrics s)\<rparr>) d)"

definition build_paper_matrix :: "database \<Rightarrow> result_row list \<Rightarrow> uuid list \<Rightarrow> paper_summary list" where
  "build_paper_matrix db results ids =
     (if ids = [] then []
      else
        let start = fold (\<lambda>p. dset (p_id p) \<lparr>ps_paper = p_id p, ps_title = untitled p, ps_year = p_year p, ps_datasets = [], ps_models = [], ps_metrics = []\<rparr>)
               (filter (\<lambda>p. p_id p \<in> set ids) (db_papers db)) [];
            by_paper = fold summary_step (filter (\<lambda>r. xr_paper r \<in> set ids) results) start in
        sort_desc (\<lambda>s. case ps_year s of None \<Rightarrow> 0 | Some y \<Rightarrow> y) (dvalues by_paper))"

subsection \<open>One best cell\<close>

lemma mark_first_count:
  assumes "list_ex P xs" "\<And>x. P x \<Longrightarrow> marked (f x)" "list_all (\<lambda>x. \<not> marked x) xs"
  shows "length (filter marked (mark_first P f xs)) = 1"
  using assms(1,3)
proof (induction xs)
  case (Cons x xs)
  have "filter marked xs = []" using Cons.prems(2) by (simp add: filter_empty_conv list_all_iff)
  then show ?case using Cons assms(2) by auto
qed simp

lemma set_mark_first: "y \<in> set (mark_first P f xs) \<Longrightarrow> y \<in> set xs \<or> (\<exists>x \<in> set xs. P x \<and> y = f x)"
  by (induction xs) (auto split: if_splits)

lemma map_mark_first: "(\<And>x. g (f x) = g x) \<Longrightarrow> map g (mark_first P f xs) = map g xs"
  by (induction xs) auto

lemma best_value_in: "vs \<noteq> [] \<Longrightarrow> best_value metric vs \<in> set vs"
  unfolding best_value_def by (auto intro: Max_in Min_in)

lemma best_value_best: "v \<in> set vs \<Longrightarrow> if metric_higher_is_better metric then v \<le> best_value metric vs else best_value metric vs \<le> v"
  by (simp add: best_value_def)

lemma mset_sort_cells [simp]: "mset (sort_cells m cells) = mset cells"
  by (simp add: sort_cells_def)

lemma set_sort_cells [simp]: "set (sort_cells m cells) = set cells"
  using mset_sort_cells mset_eq_setD by blast

lemma length_sort_cells [simp]: "length (sort_cells m cells) = length cells"
  using mset_sort_cells mset_eq_length by blast

lemma filter_sort_cells: "length (filter P (sort_cells m cells)) = length (filter P cells)"
  using mset_filter [of P "sort_cells m cells"] mset_filter [of P cells] mset_sort_cells size_mset by metis

lemma mark_best_props:
  assumes "cells \<noteq> []" "list_all (\<lambda>c. \<not> cc_best c) cells"
  shows "length (filter cc_best (mark_best metric cells)) = 1"
    and "c \<in> set (mark_best metric cells) \<Longrightarrow> cc_best c \<Longrightarrow> cc_value c = best_value metric (map cc_value cells)"
    and "map cc_value (mark_best metric cells) = map cc_value cells"
    and "map cc_paper (mark_best metric cells) = map cc_paper cells"
proof -
  let ?P = "\<lambda>c. cc_value c = best_value metric (map cc_value cells)"
  have ex: "list_ex ?P cells" using best_value_in [of "map cc_value cells" metric] assms(1) by (force simp: list_ex_iff)
  show "length (filter cc_best (mark_best metric cells)) = 1"
    unfolding mark_best_def using assms by (simp add: mark_first_count [OF ex])
  show "cc_value c = best_value metric (map cc_value cells)" if "c \<in> set (mark_best metric cells)" "cc_best c"
    using that assms set_mark_first [of c ?P "\<lambda>c. c\<lparr>cc_best := True\<rparr>" cells] by (auto simp: mark_best_def list_all_iff)
  show "map cc_value (mark_best metric cells) = map cc_value cells" "map cc_paper (mark_best metric cells) = map cc_paper cells"
    using assms by (auto simp: mark_best_def intro!: map_mark_first)
qed

lemma length_mark_first [simp]: "length (mark_first P f xs) = length xs"
  by (induction xs) auto

text \<open>What a row of the table promises.\<close>

definition row_ok :: "uuid list \<Rightarrow> nat \<Rightarrow> comparison_row \<Rightarrow> bool" where
  "row_ok ids min_papers r \<longleftrightarrow>
     length (filter cc_best (cw_cells r)) = 1
     \<and> list_all (\<lambda>c. cc_best c \<longrightarrow> cc_value c = best_value (cw_metric r) (map cc_value (cw_cells r))) (cw_cells r)
     \<and> sorted_wrt (\<lambda>a b. if metric_higher_is_better (cw_metric r) then cc_value b \<le> cc_value a else cc_value a \<le> cc_value b) (cw_cells r)
     \<and> min_papers \<le> card (cc_paper ` set (cw_cells r))
     \<and> list_all (\<lambda>c. cc_paper c \<in> set ids) (cw_cells r)"

definition row_of :: "(string \<times> string) \<times> comparison_cell list \<Rightarrow> comparison_row" where
  "row_of = (\<lambda>((d, m), cells). \<lparr>cw_dataset = d, cw_metric = m, cw_cells = sort_cells m (mark_best m cells)\<rparr>)"

lemma sorted_sort_cells:
  "sorted_wrt (\<lambda>a b. if metric_higher_is_better m then cc_value b \<le> cc_value a else cc_value a \<le> cc_value b) (sort_cells m cells)"
  using sorted_sort_desc [of cc_value cells] sorted_sort_key [of cc_value cells] by (simp add: sort_cells_def sorted_map)

lemma best_value_set: "set vs = set ws \<Longrightarrow> best_value m vs = best_value m ws"
  by (simp add: best_value_def)

lemma row_of_ok:
  assumes "cells \<noteq> []" "list_all (\<lambda>c. \<not> cc_best c \<and> cc_paper c \<in> set ids) cells" "min_papers \<le> card (cc_paper ` set cells)"
  shows "row_ok ids min_papers (row_of (k, cells))"
proof -
  obtain d m where k: "k = (d, m)" by (cases k)
  have nb: "list_all (\<lambda>c. \<not> cc_best c) cells" using assms(2) by (simp add: list_all_iff)
  note p = mark_best_props [OF assms(1) nb, where metric = m]
  have papers: "cc_paper ` set (mark_best m cells) = cc_paper ` set cells" using p(4) by (metis list.set_map)
  have best: "best_value m (map cc_value (sort_cells m (mark_best m cells))) = best_value m (map cc_value cells)"
    using arg_cong [OF p(3), of set] by (intro best_value_set) simp
  define cs where "cs = sort_cells m (mark_best m cells)"
  have cs: "set cs = set (mark_best m cells)" by (simp add: cs_def)
  have 1: "length (filter cc_best cs) = 1" using p(1) by (simp add: cs_def filter_sort_cells)
  have 2: "list_all (\<lambda>c. cc_best c \<longrightarrow> cc_value c = best_value m (map cc_value cs)) cs"
    using p(2) unfolding list_all_iff cs best by (simp add: best [folded cs_def])
  have 4: "min_papers \<le> card (cc_paper ` set cs)" using assms(3) by (simp add: cs papers)
  have "cc_paper ` set cs \<subseteq> set ids" using assms(2) unfolding cs papers by (auto simp: list_all_iff)
  then have 5: "list_all (\<lambda>c. cc_paper c \<in> set ids) cs" by (auto simp: list_all_iff)
  have "row_of (k, cells) = \<lparr>cw_dataset = d, cw_metric = m, cw_cells = cs\<rparr>" by (simp add: row_of_def k cs_def)
  then show ?thesis using 1 2 4 5 sorted_sort_cells [of m "mark_best m cells"] by (simp add: row_ok_def cs_def [symmetric])
qed

lemma set_grouped:
  assumes "(k, cells) \<in> set (grouped_cells rps)"
  shows "cells \<noteq> [] \<and> list_all (\<lambda>c. \<not> cc_best c \<and> cc_paper c \<in> (\<lambda>rp. xr_paper (fst rp)) ` set rps) cells"
  using assms unfolding grouped_cells_def in_group by (auto simp: filter_empty_conv list_all_iff cell_of_def intro: rev_image_eqI)

lemma distinct_filter_keys: "distinct (map fst d) \<Longrightarrow> distinct (map fst (filter P d))"
  by (induction d) auto

lemma joined_paper: "rp \<in> set (joined_results db results ids metrics datasets) \<Longrightarrow> xr_paper (fst rp) \<in> set ids"
  by (auto simp: joined_results_def)

lemma sum_row_lengths: "sum_list (map (\<lambda>r. length (cw_cells r)) (map row_of d)) = size_all d"
proof -
  have "length (cw_cells (row_of kv)) = length (snd kv)" for kv
  proof -
    obtain d m cells where "kv = ((d, m), cells)" by (metis surj_pair)
    then show ?thesis by (cases cells) (auto simp: row_of_def mark_best_def length_mark_first)
  qed
  then show ?thesis by (simp add: size_all_def comp_def)
qed


text \<open>One paper's results on one dataset.\<close>

definition squad_result :: "string \<Rightarrow> string \<Rightarrow> real \<Rightarrow> result_row" where
  "squad_result name split v =
     \<lparr>xr_paper = 7, xr_model_name = ''m'', xr_model_key = ''m'', xr_dataset_name = Some name, xr_dataset_key = Some ''squad'',
      xr_task = None, xr_metric_name = ''f1'', xr_metric_key = ''f1'', xr_value = Fin v, xr_unit = None, xr_split = Some split,
      xr_confidence = Fin (1 / 2), xr_evidence = None\<rparr>"

definition cells_by_row :: "comparison_table \<Rightarrow> (string \<times> (string option \<times> real \<times> bool) list) list" where
  "cells_by_row t = map (\<lambda>r. (cw_dataset r, map (\<lambda>c. (cc_split c, cc_value c, cc_best c)) (cw_cells r))) (ct_rows t)"

lemma squad_joined:
  "joined_results (one_db False) [squad_result a s v, squad_result b t w] [7] [] [] = [(squad_result a s v, one_paper), (squad_result b t w, one_paper)]"
  by (simp add: joined_results_def squad_result_def one_db_def one_paper_def)

lemma higher_f1: "metric_higher_is_better ''f1''"
  by (simp add: metric_higher_is_better_def canonical_metric_def METRIC_ALIASES_def normalize_key_def lower_def lower_char_def code_pt_def
      is_space_def Let_def strip_by_def key_strip_char_def LOWER_IS_BETTER_def)

text \<open>What decides on a row is not what the introduction says: two results with the same dataset key and
  metric but differently written dataset names are put in different rows, each with its own best
  cell, while results on different splits share a row and are ranked against each other.\<close>

theorem rows_follow_spelling:
  "cells_by_row (build_comparison_table (one_db False) [squad_result ''SQuAD'' ''dev'' 80, squad_result ''squad'' ''dev'' 90] [7] [] [] 1)
     = [(''SQuAD'', [(Some ''dev'', 80, True)]), (''squad'', [(Some ''dev'', 90, True)])]
   \<and> cells_by_row (build_comparison_table (one_db False) [squad_result ''squad'' ''train'' 80, squad_result ''squad'' ''test'' 90] [7] [] [] 1)
     = [(''squad'', [(Some ''test'', 90, True), (Some ''train'', 80, False)])]"
  unfolding build_comparison_table_def squad_joined Let_def
  by (simp add: grouped_cells_def group_all_def group_add_def group_key_def cell_of_def squad_result_def
      present_def fin_real_def mark_best_def best_value_def higher_f1 sort_cells_def sort_desc_def spread_def cells_by_row_def)

end
