(* ===== verification/Contradictions.thy ===== *)
theory Contradictions
  imports Comparison
begin

section \<open>Agreement and disagreement between papers (research/contradictions.py)\<close>

text \<open>
  Conflicting numbers among the stored results, and conflicting claims judged by the model.  The
  judgements, which the code gathers concurrently, are asked one after the other in the order of the
  pairs.  \<open>fmt_g\<close> is the format \<open>g\<close> of a number.
\<close>

definition NUMERIC_CONFLICT_THRESHOLD :: real where "NUMERIC_CONFLICT_THRESHOLD = 5 / 100"
definition MAX_CLAIM_PAIRS :: nat where "MAX_CLAIM_PAIRS = 24"
definition MIN_CLAIM_CHARS :: nat where "MIN_CLAIM_CHARS = 60"
definition MAX_CLAIM_CHARS :: nat where "MAX_CLAIM_CHARS = 600"
definition CLAIM_OVERLAP_THRESHOLD :: real where "CLAIM_OVERLAP_THRESHOLD = 1 / 4"

definition CLAIM_MARKERS :: "string list" where
  "CLAIM_MARKERS =
     [''we find'', ''we show'', ''we observe'', ''results show'', ''our results'',
      ''outperforms'', ''improves'', ''degrades'', ''significantly'', ''demonstrates'',
      ''suggests that'', ''indicates that'', ''conclude'', ''however'', ''in contrast'']"

record numeric_conflict =
  nc_model :: string
  nc_dataset :: string
  nc_metric :: string
  nc_left_paper :: string
  nc_left_value :: real
  nc_right_paper :: string
  nc_right_value :: real

definition relative_gap :: "numeric_conflict \<Rightarrow> real" where
  "relative_gap c =
     (let scale = max (max \<bar>nc_left_value c\<bar> \<bar>nc_right_value c\<bar>) (1 / 10 ^ 9) in \<bar>nc_left_value c - nc_right_value c\<bar> / scale)"

definition describe_conflict :: "(real \<Rightarrow> string) \<Rightarrow> numeric_conflict \<Rightarrow> string" where
  "describe_conflict fmt_g c =
     nc_model c @ '' on '' @ nc_dataset c @ '' ('' @ nc_metric c @ ''): '' @ fmt_g (nc_left_value c) @ '' in '' @ [CHR 0x27]
     @ nc_left_paper c @ [CHR 0x27] @ '' vs '' @ fmt_g (nc_right_value c) @ '' in '' @ [CHR 0x27] @ nc_right_paper c @ [CHR 0x27]"

datatype relation = Agreement | Contradiction | Unrelated

record claim_pair =
  cp_relation :: relation
  cp_confidence :: pyfloat
  cp_reason :: string
  cp_left_paper :: string
  cp_left_claim :: string
  cp_right_paper :: string
  cp_right_claim :: string

record consistency_report =
  cs_conflicts :: "numeric_conflict list"
  cs_contradictions :: "claim_pair list"
  cs_agreements :: "claim_pair list"
  cs_papers :: nat

definition is_consistent :: "consistency_report \<Rightarrow> bool" where
  "is_consistent r \<longleftrightarrow> cs_conflicts r = [] \<and> cs_contradictions r = []"

definition consistency_summary :: "consistency_report \<Rightarrow> string" where
  "consistency_summary r =
     (if cs_papers r < 2 then ''At least two papers are needed to compare claims.''
      else if is_consistent r then ''No conflicts found across '' @ str_nat (cs_papers r) @ '' papers.''
      else str_nat (length (cs_conflicts r)) @ '' numeric conflict(s) and '' @ str_nat (length (cs_contradictions r))
        @ '' contradicting claim(s) across '' @ str_nat (cs_papers r) @ '' papers.'')"

subsection \<open>Numbers\<close>

definition conflict_key :: "result_row \<Rightarrow> string \<times> string \<times> string" where
  "conflict_key r = (xr_model_key r, the (xr_dataset_key r), xr_metric_key r)"

definition conflict_of :: "(result_row \<times> paper_row) \<times> (result_row \<times> paper_row) \<Rightarrow> numeric_conflict" where
  "conflict_of = (\<lambda>((l, lp), (r, rp)).
     \<lparr>nc_model = xr_model_name l,
      nc_dataset = (if present (xr_dataset_name l) then the (xr_dataset_name l)
                    else if present (xr_dataset_key l) then the (xr_dataset_key l) else ''unknown''),
      nc_metric = xr_metric_name l, nc_left_paper = untitled lp, nc_left_value = fin_real (xr_value l),
      nc_right_paper = untitled rp, nc_right_value = fin_real (xr_value r)\<rparr>)"

text \<open>\<open>by_paper\<close>: the last entry of each paper in a group, at the place of its first.\<close>

definition by_paper :: "(result_row \<times> paper_row) list \<Rightarrow> (result_row \<times> paper_row) list" where
  "by_paper entries = dvalues (keep_last (\<lambda>e. xr_paper (fst e)) entries)"

definition group_pairs :: "(result_row \<times> paper_row) list \<Rightarrow> ((result_row \<times> paper_row) \<times> (result_row \<times> paper_row)) list" where
  "group_pairs entries = (if length (by_paper entries) < 2 then [] else ordered_pairs (by_paper entries))"

definition conflict_pairs ::
    "database \<Rightarrow> result_row list \<Rightarrow> uuid list \<Rightarrow> ((result_row \<times> paper_row) \<times> (result_row \<times> paper_row)) list" where
  "conflict_pairs db results ids =
     concat (map group_pairs (dvalues (group_all
       (map (\<lambda>rp. (conflict_key (fst rp), rp))
         (filter (\<lambda>rp. present (xr_dataset_key (fst rp))) (joined_results db results ids [] []))))))"

definition find_numeric_conflicts :: "database \<Rightarrow> result_row list \<Rightarrow> uuid list \<Rightarrow> real \<Rightarrow> numeric_conflict list" where
  "find_numeric_conflicts db results ids threshold =
     (if length ids < 2 then []
      else sort_desc relative_gap (filter (\<lambda>c. threshold \<le> relative_gap c) (map conflict_of (conflict_pairs db results ids))))"

definition better_of :: "string \<Rightarrow> real \<Rightarrow> real \<Rightarrow> real" where
  "better_of metric l r = (if metric_higher_is_better metric then max l r else min l r)"

subsection \<open>Claims\<close>

text \<open>\<open>_split_sentences\<close>: a cut after every full stop, exclamation or question mark.\<close>

fun split_marks :: "string \<Rightarrow> string \<Rightarrow> string list" where
  "split_marks current [] = (if current = [] then [] else [current])"
| "split_marks current (c # s) =
     (if c \<in> set ''.!?'' then (current @ [c]) # split_marks [] s else split_marks (current @ [c]) s)"

definition is_claim :: "string \<Rightarrow> bool" where
  "is_claim s \<longleftrightarrow> MIN_CLAIM_CHARS \<le> length s \<and> length s \<le> MAX_CLAIM_CHARS \<and> list_ex (\<lambda>m. sublist m (lower s)) CLAIM_MARKERS"

text \<open>With the limit of its only caller, the default.\<close>

definition extract_claims :: "string \<Rightarrow> string list" where
  "extract_claims text = take 6 (filter is_claim (map strip (split_marks [] text)))"

definition topic_terms :: "string \<Rightarrow> string set" where
  "topic_terms s = set (filter (\<lambda>w. 4 < length w) (words (lower s)))"

definition topical_overlap :: "string \<Rightarrow> string \<Rightarrow> real" where
  "topical_overlap l r =
     (let a = topic_terms l; b = topic_terms r in
      if a = {} \<or> b = {} then 0 else real (card (a \<inter> b)) / real (card (a \<union> b)))"

definition relation_of_text :: "string \<Rightarrow> relation" where
  "relation_of_text s = (if s = ''agreement'' then Agreement else if s = ''contradiction'' then Contradiction else Unrelated)"

definition parse_judgement :: "library \<Rightarrow> string \<Rightarrow> (relation \<times> pyfloat \<times> string) res" where
  "parse_judgement lib raw =
     (case load_json_object (json_loads lib) (Some raw) of
        None \<Rightarrow> Inr (Unrelated, Fin 0, ''Could not parse the comparison'')
      | Some payload \<Rightarrow>
          bind_res (clamp_confidence (float_of lib) (jvalue payload ''confidence'') (Fin 0)) (\<lambda>c.
          Inr (relation_of_text (lower (strip (case dget payload ''relation'' of None \<Rightarrow> ''unrelated'' | Some v \<Rightarrow> py_str lib v))),
               c, take 400 (jfield lib payload ''reason''))))"

text \<open>\<open>None\<close> stands for no verdict; an exception of the parser is one of the task.\<close>

definition judge_pair :: "library \<Rightarrow> string \<times> string \<times> string \<times> string \<Rightarrow> (claim_pair option, 'w) act" where
  "judge_pair lib pair gw =
     (case pair of (lp, lc, rp, rc) \<Rightarrow>
        case ask COMPARE_CLAIMS [(''paper_a'', lp), (''claim_a'', lc), (''paper_b'', rp), (''claim_b'', rc)] 0 250 gw of
          (Inl e, gw) \<Rightarrow> (Inr None, gw)
        | (Inr c, gw) \<Rightarrow>
            lift_llm (bind_res (parse_judgement lib (c_text c)) (\<lambda>(rel, conf, reason).
              Inr (if rel = Unrelated then None
                   else Some \<lparr>cp_relation = rel, cp_confidence = conf, cp_reason = reason, cp_left_paper = lp, cp_left_claim = lc,
                              cp_right_paper = rp, cp_right_claim = rc\<rparr>))) gw)"

fun judge_all :: "library \<Rightarrow> (string \<times> string \<times> string \<times> string) list \<Rightarrow> 'w llm \<Rightarrow> (llm_exn + claim_pair option) list \<times> 'w llm" where
  "judge_all lib [] gw = ([], gw)"
| "judge_all lib (p # ps) gw = (let (r, gw) = judge_pair lib p gw; (rs, gw) = judge_all lib ps gw in (r # rs, gw))"

definition scored_pairs :: "(string, string list) dict \<Rightarrow> (real \<times> string \<times> string \<times> string \<times> string) list" where
  "scored_pairs claims =
     filter (\<lambda>x. CLAIM_OVERLAP_THRESHOLD \<le> fst x)
       (concat (map (\<lambda>((lt, ls), (rt, rs)). concat (map (\<lambda>l. map (\<lambda>r. (topical_overlap l r, lt, l, rt, r)) rs) ls))
         (ordered_pairs claims)))"

definition candidate_pairs :: "(string, string list) dict \<Rightarrow> nat \<Rightarrow> (string \<times> string \<times> string \<times> string) list" where
  "candidate_pairs claims max_pairs = map snd (take max_pairs (sort_desc fst (scored_pairs claims)))"

text \<open>Papers are keyed by their title.\<close>

definition claims_step :: "database \<Rightarrow> uuid \<Rightarrow> (string, string list) dict \<Rightarrow> (string, string list) dict" where
  "claims_step db pid d =
     (case get_paper_row db pid of
        None \<Rightarrow> d
      | Some p \<Rightarrow>
          let found = extract_claims (join '' '' (map k_content (take 30 (order_by k_index (filter (\<lambda>c. k_paper c = pid) (db_chunks db)))))) in
          if found = [] then d else dset (title_of p) found d)"

definition claims_by_paper :: "database \<Rightarrow> uuid list \<Rightarrow> (string, string list) dict" where
  "claims_by_paper db ids = fold (claims_step db) ids []"

definition verdicts :: "(llm_exn + claim_pair option) list \<Rightarrow> claim_pair list" where
  "verdicts rs = List.map_filter id (usable_results rs)"

definition compare_claims ::
    "library \<Rightarrow> database \<Rightarrow> uuid list \<Rightarrow> nat \<Rightarrow> 'w llm \<Rightarrow> (claim_pair list \<times> claim_pair list) \<times> 'w llm" where
  "compare_claims lib db ids max_pairs gw =
     (if length ids < 2 then (([], []), gw)
      else
        let pairs = candidate_pairs (claims_by_paper db ids) max_pairs in
        if pairs = [] then (([], []), gw)
        else
          let (rs, gw) = judge_all lib pairs gw;
              pick = (\<lambda>rel. sort_desc (\<lambda>c. fin_real (cp_confidence c)) (filter (\<lambda>c. cp_relation c = rel) (verdicts rs))) in
          ((pick Contradiction, pick Agreement), gw))"

definition analyze_consistency ::
    "library \<Rightarrow> database \<Rightarrow> result_row list \<Rightarrow> uuid list \<Rightarrow> 'w llm option \<Rightarrow> bool \<Rightarrow> consistency_report \<times> 'w llm option" where
  "analyze_consistency lib db results ids gateway include_claims =
     (let base = \<lparr>cs_conflicts = find_numeric_conflicts db results ids NUMERIC_CONFLICT_THRESHOLD, cs_contradictions = [],
                  cs_agreements = [], cs_papers = length ids\<rparr> in
      case gateway of
        Some gw \<Rightarrow>
          if include_claims
          then (let ((c, a), gw) = compare_claims lib db ids MAX_CLAIM_PAIRS gw in
                (base\<lparr>cs_contradictions := c, cs_agreements := a\<rparr>, Some gw))
          else (base, gateway)
      | None \<Rightarrow> (base, None))"

subsection \<open>Reported conflicts are conflicts\<close>

lemma in_keep_last:
  assumes "(k, x) \<in> set (keep_last f xs)"
  shows "x \<in> set xs \<and> f x = k"
proof -
  from assms have g: "dget (keep_last f xs) k = Some x" by (simp add: dict_ok_mem)
  then have k: "k \<in> f ` set xs" and x: "x = last (filter (\<lambda>x. f x = k) xs)" by (simp_all add: dget_keep_last split: if_splits)
  then have "filter (\<lambda>x. f x = k) xs \<noteq> []" by (auto simp: filter_empty_conv)
  then have "x \<in> set (filter (\<lambda>x. f x = k) xs)" unfolding x by (rule last_in_set)
  then show ?thesis by simp
qed

lemma dvalues_keys: "(\<And>k v. (k, v) \<in> set d \<Longrightarrow> g v = k) \<Longrightarrow> map g (dvalues d) = dkeys d"
  by (induction d) auto

lemma by_paper_entries:
  "set (by_paper es) \<subseteq> set es \<and> distinct (map (\<lambda>e. xr_paper (fst e)) (by_paper es))"
proof
  show "set (by_paper es) \<subseteq> set es"
  proof
    fix e assume "e \<in> set (by_paper es)"
    then obtain k where "(k, e) \<in> set (keep_last (\<lambda>e. xr_paper (fst e)) es)" unfolding by_paper_def by auto
    from in_keep_last [OF this] show "e \<in> set es" by blast
  qed
  have "map (\<lambda>e. xr_paper (fst e)) (by_paper es) = dkeys (keep_last (\<lambda>e. xr_paper (fst e)) es)"
    unfolding by_paper_def by (rule dvalues_keys, drule in_keep_last, elim conjE)
  then show "distinct (map (\<lambda>e. xr_paper (fst e)) (by_paper es))" using dict_ok_keep_last by (simp only: dict_ok_def)
qed

definition real_conflict :: "database \<Rightarrow> result_row list \<Rightarrow> uuid list \<Rightarrow> real \<Rightarrow> numeric_conflict \<Rightarrow> bool" where
  "real_conflict db results ids threshold c \<longleftrightarrow>
     threshold \<le> relative_gap c
     \<and> (\<exists>l \<in> set results. \<exists>r \<in> set results.
          xr_paper l \<in> set ids \<and> xr_paper r \<in> set ids \<and> xr_paper l \<noteq> xr_paper r
          \<and> xr_model_key l = xr_model_key r \<and> xr_dataset_key l = xr_dataset_key r \<and> xr_metric_key l = xr_metric_key r
          \<and> nc_left_value c = fin_real (xr_value l) \<and> nc_right_value c = fin_real (xr_value r))"

lemma joined_in: "(r, p) \<in> set (joined_results db results ids ms ds) \<Longrightarrow> r \<in> set results \<and> xr_paper r \<in> set ids"
  by (auto simp: joined_results_def)

lemma conflict_pairs_props:
  assumes "((l, lp), (r, rp)) \<in> set (conflict_pairs db results ids)"
  shows "l \<in> set results \<and> r \<in> set results \<and> xr_paper l \<in> set ids \<and> xr_paper r \<in> set ids \<and> xr_paper l \<noteq> xr_paper r
    \<and> conflict_key l = conflict_key r \<and> present (xr_dataset_key l) \<and> present (xr_dataset_key r)"
proof -
  let ?kvs = "map (\<lambda>rp. (conflict_key (fst rp), rp)) (filter (\<lambda>rp. present (xr_dataset_key (fst rp))) (joined_results db results ids [] []))"
  from assms obtain k es where es: "(k, es) \<in> set (group_all ?kvs)" "((l, lp), (r, rp)) \<in> set (group_pairs es)"
    by (auto simp: conflict_pairs_def)
  then have p: "((l, lp), (r, rp)) \<in> set (ordered_pairs (by_paper es))" by (simp add: group_pairs_def split: if_splits)
  have "(l, lp) \<in> set es" "(r, rp) \<in> set es" using ordered_pairs_set [OF p] subsetD [OF conjunct1 [OF by_paper_entries [of es]]] by blast+
  have "xr_paper l \<noteq> xr_paper r" using ordered_pairs_distinct [OF _ p, of "\<lambda>e. xr_paper (fst e)"] by_paper_entries [of es] by simp
  have "conflict_key (fst e) = k \<and> e \<in> set (joined_results db results ids [] []) \<and> present (xr_dataset_key (fst e))"
    if "e \<in> set es" for e
    using that es(1) by (auto simp: in_group)
  note entry = this
  show ?thesis using entry [of "(l, lp)"] entry [of "(r, rp)"] \<open>(l, lp) \<in> set es\<close> \<open>(r, rp) \<in> set es\<close> \<open>xr_paper l \<noteq> xr_paper r\<close>
    by (auto dest: joined_in)
qed

text \<open>Every reported numeric conflict is one: two stored results of two different requested papers, for the
  same model, dataset and metric, whose relative gap reaches the threshold; the widest gap comes
  first.  One paper alone, or a paper against itself, is never reported.\<close>

theorem numeric_conflicts_sound:
  "let cs = find_numeric_conflicts db results ids threshold in
     list_all (real_conflict db results ids threshold) cs \<and> sorted_wrt (\<lambda>c d. relative_gap d \<le> relative_gap c) cs
     \<and> (cs = [] \<or> 2 \<le> card (set ids))"
proof -
  have c: "real_conflict db results ids threshold c" if "c \<in> set (find_numeric_conflicts db results ids threshold)" for c
  proof -
    from that obtain l lp r rp where p: "((l, lp), (r, rp)) \<in> set (conflict_pairs db results ids)" "c = conflict_of ((l, lp), (r, rp))"
        "threshold \<le> relative_gap c"
      by (auto simp: find_numeric_conflicts_def split: if_splits)
    have "xr_dataset_key l = xr_dataset_key r"
      using conflict_pairs_props [OF p(1)] by (auto simp: conflict_key_def present_def split: option.splits list.splits)
    then show ?thesis using conflict_pairs_props [OF p(1)] p(2,3)
      unfolding real_conflict_def by (intro conjI bexI [of _ l] bexI [of _ r]) (auto simp: conflict_of_def conflict_key_def)
  qed
  have "2 \<le> card (set ids)" if "c \<in> set (find_numeric_conflicts db results ids threshold)" for c
  proof -
    from c [OF that] obtain a b where "a \<in> set ids" "b \<in> set ids" "a \<noteq> b" by (auto simp: real_conflict_def)
    then have "card {a, b} \<le> card (set ids)" by (intro card_mono) auto
    then show ?thesis using \<open>a \<noteq> b\<close> by simp
  qed
  moreover have "sorted_wrt (\<lambda>c d. relative_gap d \<le> relative_gap c) (find_numeric_conflicts db results ids threshold)"
    by (simp add: find_numeric_conflicts_def sorted_sort_desc)
  ultimately show ?thesis using c by (auto simp: Let_def list_all_iff) (metis list.set_sel(1))
qed

subsection \<open>Judged claims\<close>

text \<open>What a verdict rests on: two claims of two differently titled papers, each a sentence of the required length with
  a marker, sharing enough words; a confidence between zero and one.\<close>

definition grounded_pair :: "(string, string list) dict \<Rightarrow> string \<times> string \<times> string \<times> string \<Rightarrow> bool" where
  "grounded_pair claims = (\<lambda>(lp, l, rp, r). lp \<noteq> rp
     \<and> (\<exists>ls. dget claims lp = Some ls \<and> l \<in> set ls) \<and> (\<exists>rs. dget claims rp = Some rs \<and> r \<in> set rs)
     \<and> CLAIM_OVERLAP_THRESHOLD \<le> topical_overlap l r)"

lemma candidate_grounded:
  assumes "dict_ok claims"
  shows "list_all (grounded_pair claims) (candidate_pairs claims n) \<and> length (candidate_pairs claims n) \<le> n"
proof -
  have "grounded_pair claims pr" if "(ov, pr) \<in> set (scored_pairs claims)" for ov pr
  proof -
    from that obtain lt ls rt rs l r where p: "((lt, ls), (rt, rs)) \<in> set (ordered_pairs claims)" "l \<in> set ls" "r \<in> set rs"
        "pr = (lt, l, rt, r)" "CLAIM_OVERLAP_THRESHOLD \<le> topical_overlap l r"
      by (auto simp: scored_pairs_def)
    have "lt \<noteq> rt" using ordered_pairs_distinct [OF _ p(1), of fst] assms by (simp add: dict_ok_def)
    then show ?thesis using ordered_pairs_set [OF p(1)] p(2-5) assms by (auto simp: grounded_pair_def dict_ok_mem)
  qed
  then show ?thesis by (auto simp: candidate_pairs_def list_all_iff dest!: in_set_takeD)
qed

definition verdict_ok :: "(string \<times> string \<times> string \<times> string) list \<Rightarrow> claim_pair \<Rightarrow> bool" where
  "verdict_ok pairs c \<longleftrightarrow> (cp_left_paper c, cp_left_claim c, cp_right_paper c, cp_right_claim c) \<in> set pairs
     \<and> cp_relation c \<noteq> Unrelated \<and> unit_float (cp_confidence c)"

lemma parse_judgement_unit: "parse_judgement lib raw = Inr (rel, conf, reason) \<Longrightarrow> unit_float conf"
proof -
  assume p: "parse_judgement lib raw = Inr (rel, conf, reason)"
  have zero: "unit_float (Fin 0)" by simp
  show ?thesis using p clamp_default [OF zero]
    by (auto simp: parse_judgement_def bind_res_Inr_conv split: option.splits)
qed

lemma judge_pair_ok:
  assumes "judge_pair lib (lp, lc, rp, rc) gw = (Inr (Some c), gw1)"
  shows "cp_left_paper c = lp \<and> cp_left_claim c = lc \<and> cp_right_paper c = rp \<and> cp_right_claim c = rc
    \<and> cp_relation c \<noteq> Unrelated \<and> unit_float (cp_confidence c)"
proof -
  let ?kw = "[(''paper_a'', lp), (''claim_a'', lc), (''paper_b'', rp), (''claim_b'', rc)]"
  obtain r gw2 where a: "ask COMPARE_CLAIMS ?kw 0 250 gw = (r, gw2)" by (cases "ask COMPARE_CLAIMS ?kw 0 250 gw")
  then obtain k where k: "r = Inr k" using assms by (cases r) (auto simp: judge_pair_def)
  obtain rel conf reason where p: "parse_judgement lib (c_text k) = Inr (rel, conf, reason)"
    using assms by (cases "parse_judgement lib (c_text k)") (auto simp: judge_pair_def a k lift_llm_def)
  show ?thesis using assms parse_judgement_unit [OF p]
    by (auto simp: judge_pair_def a k lift_llm_def p split: if_splits)
qed

lemma verdicts_simps [simp]:
  "verdicts [] = []" "verdicts (Inr (Some c) # rs) = c # verdicts rs" "verdicts (Inr None # rs) = verdicts rs"
  "verdicts (Inl e # rs) = verdicts rs"
  by (simp_all add: verdicts_def usable_results_def List.map_filter_def)

lemma judge_all_ok:
  assumes "judge_all lib ps gw = (rs, gw1)" "set ps \<subseteq> set pairs"
  shows "list_all (verdict_ok pairs) (verdicts rs) \<and> length (verdicts rs) \<le> length ps"
  using assms
proof (induction ps arbitrary: gw rs gw1)
  case Nil
  then show ?case by simp
next
  case (Cons p ps)
  obtain lp lc rp rc where p: "p = (lp, lc, rp, rc)" by (cases p)
  obtain r gw2 where r: "judge_pair lib p gw = (r, gw2)" by (cases "judge_pair lib p gw")
  obtain qs gw3 where q: "judge_all lib ps gw2 = (qs, gw3)" by (cases "judge_all lib ps gw2")
  have rs: "rs = r # qs" using Cons.prems by (simp add: r q)
  have IH: "list_all (verdict_ok pairs) (verdicts qs) \<and> length (verdicts qs) \<le> length ps"
    using Cons.prems(2) by (intro Cons.IH [OF q]) simp
  have head: "verdict_ok pairs c" if "r = Inr (Some c)" for c
    using judge_pair_ok [of lib lp lc rp rc gw c gw2] r that p Cons.prems(2) by (simp add: verdict_ok_def)
  show ?case
  proof (cases "\<exists>c. r = Inr (Some c)")
    case True
    then show ?thesis using IH head by (auto simp: rs)
  next
    case False
    then have "r = Inr None \<or> (\<exists>e. r = Inl e)" by (cases r) auto
    then show ?thesis using IH by (auto simp: rs)
  qed
qed

definition claims_ok :: "(string, string list) dict \<Rightarrow> bool" where
  "claims_ok d \<longleftrightarrow> dict_ok d \<and> (\<forall>t cs. dget d t = Some cs \<longrightarrow> list_all is_claim cs)"

lemma extract_claims_are: "list_all is_claim (extract_claims t)"
  by (auto simp: extract_claims_def list_all_iff dest: in_set_takeD)

lemma claims_step_ok: "claims_ok d \<Longrightarrow> claims_ok (claims_step db pid d)"
  using extract_claims_are by (auto simp: claims_step_def claims_ok_def Let_def split: option.split)

lemma claims_by_paper_ok: "claims_ok (claims_by_paper db ids)"
proof -
  have "claims_ok d \<Longrightarrow> claims_ok (fold (claims_step db) ids d)" for d
    by (induction ids arbitrary: d) (simp_all add: claims_step_ok)
  moreover have "claims_ok []" by (simp add: claims_ok_def)
  ultimately show ?thesis unfolding claims_by_paper_def .
qed

definition claim_verdict_ok :: "(string, string list) dict \<Rightarrow> relation \<Rightarrow> claim_pair \<Rightarrow> bool" where
  "claim_verdict_ok claims rel c \<longleftrightarrow> cp_relation c = rel \<and> unit_float (cp_confidence c)
     \<and> grounded_pair claims (cp_left_paper c, cp_left_claim c, cp_right_paper c, cp_right_claim c)
     \<and> is_claim (cp_left_claim c) \<and> is_claim (cp_right_claim c)"


subsection \<open>What the detectors miss\<close>

text \<open>A sentence with a decimal number.\<close>

definition decimal_claim :: string where
  "decimal_claim = ''we show that the new model reaches 71.5 on the test set, which outperforms all others.''"

text \<open>Two limits of the detectors.  A claim that quotes a decimal number is cut at its decimal point, so this
  one, long enough and with two markers, is not found at all.  And of several results of one paper
  only the last takes part: when a paper's first result conflicts with another paper's and its second
  does not, nothing is reported, in either order of the other.\<close>

theorem detectors_miss:
  "is_claim decimal_claim \<and> extract_claims decimal_claim = []
   \<and> map xr_value (map fst (by_paper [(squad_result ''squad'' ''dev'' 50, p), (squad_result ''squad'' ''test'' 90, p)])) = [Fin 90]"
proof (intro conjI)
  have "sublist ''outperforms'' (lower decimal_claim)"
  proof -
    have "lower decimal_claim = ''we show that the new model reaches 71.5 on the test set, which '' @ ''outperforms'' @ '' all others.''"
      by (simp add: decimal_claim_def lower_def lower_char_def code_pt_def)
    then show ?thesis by (metis sublist_appendI)
  qed
  then show "is_claim decimal_claim"
    by (auto simp: is_claim_def list_ex_iff CLAIM_MARKERS_def MIN_CLAIM_CHARS_def MAX_CLAIM_CHARS_def decimal_claim_def)
  have "map strip (split_marks [] decimal_claim) =
      [''we show that the new model reaches 71.'', ''5 on the test set, which outperforms all others.'']"
    by (simp add: decimal_claim_def strip_by_def is_space_def code_pt_def Let_def)
  then show "extract_claims decimal_claim = []"
    by (simp add: extract_claims_def is_claim_def MIN_CLAIM_CHARS_def)
  show "map xr_value (map fst (by_paper [(squad_result ''squad'' ''dev'' 50, p), (squad_result ''squad'' ''test'' 90, p)])) = [Fin 90]"
    by (simp add: by_paper_def keep_last_def squad_result_def)
qed

end
