(* ===== verification/Gaps.thy ===== *)
theory Gaps
  imports Contradictions
begin

section \<open>Research gaps (research/gaps.py)\<close>

text \<open>
  Gaps by set arithmetic over the mirrored entities and the stored results, gaps the authors state,
  and the directions a model suggests.  The mirror table is a list of rows, as in \<open>Builder\<close>.
\<close>

definition MIN_CORPUS_COVERAGE :: real where "MIN_CORPUS_COVERAGE = 4 / 10"
definition MAX_STRUCTURAL_GAPS :: nat where "MAX_STRUCTURAL_GAPS = 12"

definition FUTURE_WORK_MARKERS :: "string list" where
  "FUTURE_WORK_MARKERS =
     [''future work'', ''future research'', ''we leave'', ''left for future'',
      ''remains an open'', ''open question'', ''an interesting direction'',
      ''further work'', ''we plan to'', ''has yet to be'', ''remains unexplored'']"

record structural_gap =
  sg_kind :: string
  sg_description :: string
  sg_evidence :: "string list"
  sg_strength :: real

record suggested_direction =
  sd_gap :: string
  sd_rationale :: string
  sd_direction :: string
  sd_confidence :: pyfloat
  sd_indices :: "int list"

record gap_report =
  gr_topic :: string
  gr_structural :: "structural_gap list"
  gr_stated :: "(string \<times> string) list"
  gr_directions :: "suggested_direction list"
  gr_papers :: nat

definition has_findings :: "gap_report \<Rightarrow> bool" where
  "has_findings r \<longleftrightarrow> gr_structural r \<noteq> [] \<or> gr_stated r \<noteq> [] \<or> gr_directions r \<noteq> []"

definition gap_summary :: "gap_report \<Rightarrow> string" where
  "gap_summary r =
     (if \<not> has_findings r then ''No gaps identified across '' @ str_nat (gr_papers r) @ '' papers.''
      else str_nat (length (gr_structural r)) @ '' structural gap(s), '' @ str_nat (length (gr_stated r)) @ '' stated ''
        @ ''by the authors, '' @ str_nat (length (gr_directions r)) @ '' suggested direction(s).'')"

subsection \<open>Structural gaps\<close>

definition title_or_untitled :: "database \<Rightarrow> uuid \<Rightarrow> string" where
  "title_or_untitled db pid = (case get_paper_row db pid of None \<Rightarrow> ''Untitled'' | Some p \<Rightarrow> untitled p)"

text \<open>\<open>coverage\<close>: the papers of each label and name.\<close>

definition coverage_of :: "entity_row list \<Rightarrow> uuid list \<Rightarrow> (string \<times> string, uuid list) dict" where
  "coverage_of entities ids =
     group_all (map (\<lambda>r. ((en_label r, en_name r), en_paper r)) (filter (\<lambda>r. en_paper r \<in> set ids) entities))"

definition coverage_gap :: "database \<Rightarrow> uuid list \<Rightarrow> (string \<times> string) \<times> uuid list \<Rightarrow> structural_gap list" where
  "coverage_gap db ids = (\<lambda>((label, name), covered).
     let ratio = real (card (set covered)) / real (length ids); missing = filter (\<lambda>i. i \<notin> set covered) ids in
     if ratio < MIN_CORPUS_COVERAGE \<or> 1 \<le> ratio then []
     else if missing = [] then []
     else [\<lparr>sg_kind = ''unused_'' @ lower label,
            sg_description = name @ '' appears in '' @ str_nat (card (set covered)) @ '' of '' @ str_nat (length ids)
              @ '' papers but is absent '' @ ''from '' @ str_nat (length missing),
            sg_evidence = map (title_or_untitled db) (take 5 missing), sg_strength = ratio\<rparr>])"

definition find_coverage_gaps :: "database \<Rightarrow> entity_row list \<Rightarrow> uuid list \<Rightarrow> structural_gap list" where
  "find_coverage_gaps db entities ids =
     (if length ids < 3 then []
      else take MAX_STRUCTURAL_GAPS (sort_desc sg_strength (concat (map (coverage_gap db ids) (coverage_of entities ids)))))"

definition tested_results :: "result_row list \<Rightarrow> uuid list \<Rightarrow> result_row list" where
  "tested_results results ids = filter (\<lambda>r. xr_paper r \<in> set ids \<and> xr_dataset_key r \<noteq> None) results"

definition dataset_key :: "result_row \<Rightarrow> string" where
  "dataset_key r = the (xr_dataset_key r)"

definition dataset_label :: "result_row \<Rightarrow> string" where
  "dataset_label r = (if present (xr_dataset_name r) then the (xr_dataset_name r) else dataset_key r)"

definition untested :: "result_row list \<Rightarrow> string \<Rightarrow> string list" where
  "untested rs model =
     map (\<lambda>(k, r). dataset_label r)
       (filter (\<lambda>(k, r). (model, k) \<notin> set (map (\<lambda>r. (xr_model_key r, dataset_key r)) rs)) (keep_last dataset_key rs))"

definition evaluation_gap :: "result_row list \<Rightarrow> string \<times> result_row \<Rightarrow> structural_gap list" where
  "evaluation_gap rs = (\<lambda>(model, r).
     let missing = untested rs model; n = length (keep_last dataset_key rs) in
     if missing = [] \<or> length missing = n then []
     else [\<lparr>sg_kind = ''untested_pairing'', sg_description = xr_model_name r @ '' is never evaluated on '' @ join '', '' (take 3 missing),
            sg_evidence = take 5 missing, sg_strength = 1 - real (length missing) / real n\<rparr>])"

definition find_evaluation_gaps :: "result_row list \<Rightarrow> uuid list \<Rightarrow> structural_gap list" where
  "find_evaluation_gaps results ids =
     (let rs = tested_results results ids in
      if length ids < 2 then []
      else if rs = [] then []
      else if length (keep_last xr_model_key rs) < 2 \<or> length (keep_last dataset_key rs) < 2 then []
      else take MAX_STRUCTURAL_GAPS (sort_desc sg_strength (concat (map (evaluation_gap rs) (keep_last xr_model_key rs)))))"

subsection \<open>Stated gaps\<close>

definition find_marker :: "string \<Rightarrow> nat option" where
  "find_marker lowered =
     (case find (\<lambda>m. sublist m lowered) FUTURE_WORK_MARKERS of
        None \<Rightarrow> None
      | Some m \<Rightarrow> map_option (\<lambda>h. length (fst h)) (search_from (lit m) [] lowered))"

definition stated_of :: "paper_row \<Rightarrow> chunk_row \<Rightarrow> (string \<times> string) list" where
  "stated_of p c =
     (case find_marker (lower (k_content c)) of
        None \<Rightarrow> []
      | Some pos \<Rightarrow> [(title_of p, join '' '' (words (take (pos + 320 - (pos - 80)) (drop (pos - 80) (k_content c)))))])"

definition find_stated_gaps :: "database \<Rightarrow> uuid list \<Rightarrow> nat \<Rightarrow> (string \<times> string) list" where
  "find_stated_gaps db ids per_paper =
     concat (map (\<lambda>pid. case get_paper_row db pid of
         None \<Rightarrow> []
       | Some p \<Rightarrow> take per_paper (concat (map (stated_of p)
           (take 12 (sort_desc k_index (filter (\<lambda>c. k_paper c = pid) (db_chunks db))))))) ids)"

subsection \<open>Suggestions\<close>

definition gap_lines :: "gap_report \<Rightarrow> string list" where
  "gap_lines r =
     map (\<lambda>g. ''Structural: '' @ sg_description g) (gr_structural r)
     @ map (\<lambda>(t, s). ''Stated in '' @ [CHR 0x27] @ t @ [CHR 0x27] @ '': '' @ s) (gr_stated r)"

definition gap_evidence :: "gap_report \<Rightarrow> string" where
  "gap_evidence r = join [CHR 0x0A] (map (\<lambda>(i, s). ''['' @ str_nat i @ ''] '' @ s) (enumerate 1 (gap_lines r)))"

text \<open>\<open>int(i)\<close> of a number, \<open>None\<close> for what is no number; a not-a-number or an infinity raises.\<close>

definition index_of :: "pyval \<Rightarrow> int option res" where
  "index_of v = (case v of
     PyInt i \<Rightarrow> Inr (Some i)
   | PyBool b \<Rightarrow> Inr (Some (if b then 1 else 0))
   | PyFloat f \<Rightarrow> (case f of
       Fin r \<Rightarrow> Inr (Some (if 0 \<le> r then \<lfloor>r\<rfloor> else \<lceil>r\<rceil>))
     | NaN \<Rightarrow> Inl (ValueError ''cannot convert float NaN to integer'')
     | _ \<Rightarrow> Inl OverflowErr)
   | _ \<Rightarrow> Inr None)"

definition direction_of :: "library \<Rightarrow> (string, pyval) dict \<Rightarrow> suggested_direction list res" where
  "direction_of lib item =
     (if \<not> truthy (jvalue item ''gap'') then Inr []
      else
        bind_res (let v = jvalue item ''evidence_indices'' in if truthy v then py_list v else Inr []) (\<lambda>vs.
        bind_res (mapM index_of vs) (\<lambda>is.
        bind_res (clamp_confidence (float_of lib) (jvalue item ''confidence'') (Fin (1 / 2))) (\<lambda>c.
        Inr [\<lparr>sd_gap = take 500 (jfield lib item ''gap''), sd_rationale = take 800 (jfield lib item ''rationale''),
              sd_direction = take 800 (jfield lib item ''suggested_direction''), sd_confidence = c,
              sd_indices = take 8 (filter (\<lambda>i. 0 < i) (List.map_filter id is))\<rparr>]))))"

definition parse_gaps_payload :: "library \<Rightarrow> string \<Rightarrow> suggested_direction list res" where
  "parse_gaps_payload lib raw =
     (case load_json_object (json_loads lib) (Some raw) of
        None \<Rightarrow> Inr []
      | Some payload \<Rightarrow>
          bind_res (jitems payload ''gaps'') (\<lambda>items.
          bind_res (mapM (direction_of lib) items) (\<lambda>ds. Inr (sort_desc (\<lambda>d. fin_real (sd_confidence d)) (concat ds)))))"

definition conflict_gap :: "(real \<Rightarrow> string) \<Rightarrow> numeric_conflict \<Rightarrow> structural_gap" where
  "conflict_gap fmt_g c =
     \<lparr>sg_kind = ''unresolved_conflict'', sg_description = ''Unreconciled result: '' @ describe_conflict fmt_g c,
      sg_evidence = [nc_left_paper c, nc_right_paper c], sg_strength = min 1 (relative_gap c)\<rparr>"

definition gap_findings :: "(real \<Rightarrow> string) \<Rightarrow> database \<Rightarrow> entity_row list \<Rightarrow> result_row list \<Rightarrow> uuid list \<Rightarrow> string \<Rightarrow> gap_report" where
  "gap_findings fmt_g db entities results ids topic =
     \<lparr>gr_topic = topic,
      gr_structural = find_coverage_gaps db entities ids @ find_evaluation_gaps results ids
        @ map (conflict_gap fmt_g) (take 5 (find_numeric_conflicts db results ids NUMERIC_CONFLICT_THRESHOLD)),
      gr_stated = find_stated_gaps db ids 2, gr_directions = [], gr_papers = length ids\<rparr>"

definition discover_gaps ::
    "library \<Rightarrow> (real \<Rightarrow> string) \<Rightarrow> database \<Rightarrow> entity_row list \<Rightarrow> result_row list \<Rightarrow> uuid list \<Rightarrow> string \<Rightarrow> 'w llm option
       \<Rightarrow> gap_report \<times> 'w llm option" where
  "discover_gaps lib fmt_g db entities results ids topic gateway =
     (let report = gap_findings fmt_g db entities results ids topic in
      case gateway of
        None \<Rightarrow> (report, None)
      | Some gw \<Rightarrow>
          if gr_structural report = [] \<and> gr_stated report = [] then (report, gateway)
          else case bind_llm (ask IDENTIFY_GAPS [(''topic'', topic), (''evidence'', gap_evidence report)] (4 / 10) 1200)
                      (\<lambda>c. lift_llm (parse_gaps_payload lib (c_text c))) gw of
                 (Inl e, gw) \<Rightarrow> (report, Some gw)
               | (Inr ds, gw) \<Rightarrow> (report\<lparr>gr_directions := ds\<rparr>, Some gw))"

subsection \<open>Structural gaps are there\<close>

text \<open>A coverage gap: an entity that at least two in five of the papers mention and one of them does not.\<close>

definition coverage_gap_ok :: "entity_row list \<Rightarrow> uuid list \<Rightarrow> structural_gap \<Rightarrow> bool" where
  "coverage_gap_ok entities ids g \<longleftrightarrow>
     MIN_CORPUS_COVERAGE \<le> sg_strength g \<and> sg_strength g < 1 \<and> sg_evidence g \<noteq> [] \<and> length (sg_evidence g) \<le> 5
     \<and> (\<exists>label name. sg_kind g = ''unused_'' @ lower label
          \<and> sg_strength g = real (card {i \<in> set ids. \<exists>r \<in> set entities. en_paper r = i \<and> en_label r = label \<and> en_name r = name}) / real (length ids)
          \<and> (\<exists>i \<in> set ids. \<forall>r \<in> set entities. \<not> (en_paper r = i \<and> en_label r = label \<and> en_name r = name)))"

lemma coverage_papers:
  assumes "((label, name), covered) \<in> set (coverage_of entities ids)"
  shows "set covered = {i \<in> set ids. \<exists>r \<in> set entities. en_paper r = i \<and> en_label r = label \<and> en_name r = name}"
  using assms by (force simp: coverage_of_def in_group)

lemma coverage_gap_props:
  assumes "((label, name), covered) \<in> set (coverage_of entities ids)" "g \<in> set (coverage_gap db ids ((label, name), covered))"
  shows "coverage_gap_ok entities ids g"
proof -
  note s = coverage_papers [OF assms(1)]
  let ?missing = "filter (\<lambda>i. i \<notin> set covered) ids"
  have m: "?missing \<noteq> []" and r: "\<not> real (card (set covered)) / real (length ids) < MIN_CORPUS_COVERAGE"
      "\<not> 1 \<le> real (card (set covered)) / real (length ids)"
      "sg_strength g = real (card (set covered)) / real (length ids)" "sg_kind g = ''unused_'' @ lower label"
      "sg_evidence g = map (title_or_untitled db) (take 5 ?missing)"
    using assms(2) by (auto simp: coverage_gap_def Let_def split: if_splits)
  obtain i where i: "i \<in> set ids" "i \<notin> set covered" using m by (auto simp: filter_empty_conv)
  then have none: "\<exists>i \<in> set ids. \<forall>r \<in> set entities. \<not> (en_paper r = i \<and> en_label r = label \<and> en_name r = name)" using s by blast
  show ?thesis unfolding coverage_gap_ok_def
    by (intro conjI exI [of _ label] exI [of _ name]) (use r m i(1) none in \<open>auto simp: s [symmetric]\<close>)
qed

text \<open>An evaluation gap: a model with results on some dataset and on none of those named.\<close>

definition evaluation_gap_ok :: "result_row list \<Rightarrow> structural_gap \<Rightarrow> bool" where
  "evaluation_gap_ok rs g \<longleftrightarrow>
     0 < sg_strength g \<and> sg_strength g < 1 \<and> sg_evidence g \<noteq> [] \<and> length (sg_evidence g) \<le> 5
     \<and> (\<exists>m \<in> set rs. list_all (\<lambda>name. \<exists>d \<in> set rs. dataset_label d = name
          \<and> (\<forall>r \<in> set rs. \<not> (xr_model_key r = xr_model_key m \<and> dataset_key r = dataset_key d))) (sg_evidence g))"

lemma untested_missing:
  assumes "name \<in> set (untested rs model)"
  shows "\<exists>d \<in> set rs. dataset_label d = name \<and> (\<forall>r \<in> set rs. \<not> (xr_model_key r = model \<and> dataset_key r = dataset_key d))"
proof -
  from assms obtain k d where d: "(k, d) \<in> set (keep_last dataset_key rs)" "name = dataset_label d"
      "(model, k) \<notin> set (map (\<lambda>r. (xr_model_key r, dataset_key r)) rs)"
    by (auto simp: untested_def)
  from in_keep_last [OF d(1)] have "d \<in> set rs" "dataset_key d = k" by simp_all
  then show ?thesis using d(2,3) by (intro bexI [of _ d]) (auto simp: image_iff)
qed

lemma evaluation_gap_props:
  assumes "(model, m) \<in> set (keep_last xr_model_key rs)" "g \<in> set (evaluation_gap rs (model, m))"
  shows "evaluation_gap_ok rs g"
proof -
  from in_keep_last [OF assms(1)] have m: "m \<in> set rs" "xr_model_key m = model" by simp_all
  have g: "untested rs model \<noteq> []" "length (untested rs model) \<noteq> length (keep_last dataset_key rs)"
      "sg_evidence g = take 5 (untested rs model)"
      "sg_strength g = 1 - real (length (untested rs model)) / real (length (keep_last dataset_key rs))"
    using assms(2) by (auto simp: evaluation_gap_def Let_def split: if_splits)
  have "length (untested rs model) \<le> length (keep_last dataset_key rs)" by (simp add: untested_def)
  then have n: "length (untested rs model) < length (keep_last dataset_key rs)" using g(2) by simp
  have "0 < length (untested rs model)" using g(1) by simp
  then have "0 < real (length (untested rs model)) / real (length (keep_last dataset_key rs))"
    "real (length (untested rs model)) / real (length (keep_last dataset_key rs)) < 1"
    using n by (simp_all del: length_greater_0_conv)
  then have "0 < sg_strength g" "sg_strength g < 1" unfolding g(4) by linarith+
  moreover have "list_all (\<lambda>name. \<exists>d \<in> set rs. dataset_label d = name
      \<and> (\<forall>r \<in> set rs. \<not> (xr_model_key r = xr_model_key m \<and> dataset_key r = dataset_key d))) (sg_evidence g)"
    unfolding list_all_iff m(2) g(3) using untested_missing by (blast dest: in_set_takeD)
  ultimately show ?thesis unfolding evaluation_gap_ok_def using m(1) g(1,3) by (auto simp del: list_all_iff)
qed

text \<open>Structural gaps are found in the data: a coverage gap names an entity that at least 40 percent, but not all, of the
  papers mention, its strength is that share, and some requested paper does not mention it; an
  evaluation gap names datasets of the corpus on which a model of the corpus has no result, its
  strength strictly between zero and one.  Both lists are cut at twelve, the strongest first.\<close>

theorem structural_gaps_sound:
  "list_all (coverage_gap_ok entities ids) (find_coverage_gaps db entities ids)
   \<and> list_all (evaluation_gap_ok (tested_results results ids)) (find_evaluation_gaps results ids)
   \<and> length (find_coverage_gaps db entities ids) \<le> 12 \<and> length (find_evaluation_gaps results ids) \<le> 12
   \<and> sorted_wrt (\<lambda>g h. sg_strength h \<le> sg_strength g) (find_coverage_gaps db entities ids)
   \<and> sorted_wrt (\<lambda>g h. sg_strength h \<le> sg_strength g) (find_evaluation_gaps results ids)"
proof (intro conjI)
  show "list_all (coverage_gap_ok entities ids) (find_coverage_gaps db entities ids)"
    using coverage_gap_props by (fastforce simp: find_coverage_gaps_def list_all_iff dest!: in_set_takeD)
  show "list_all (evaluation_gap_ok (tested_results results ids)) (find_evaluation_gaps results ids)"
    using evaluation_gap_props by (fastforce simp: find_evaluation_gaps_def Let_def list_all_iff dest!: in_set_takeD)
  show "length (find_coverage_gaps db entities ids) \<le> 12" "length (find_evaluation_gaps results ids) \<le> 12"
    by (simp_all add: find_coverage_gaps_def find_evaluation_gaps_def MAX_STRUCTURAL_GAPS_def Let_def)
  show "sorted_wrt (\<lambda>g h. sg_strength h \<le> sg_strength g) (find_coverage_gaps db entities ids)"
    "sorted_wrt (\<lambda>g h. sg_strength h \<le> sg_strength g) (find_evaluation_gaps results ids)"
    by (simp_all add: find_coverage_gaps_def find_evaluation_gaps_def Let_def sorted_sort_desc sorted_wrt_take)
qed

subsection \<open>Suggestions\<close>

definition direction_ok :: "suggested_direction \<Rightarrow> bool" where
  "direction_ok d \<longleftrightarrow> unit_float (sd_confidence d) \<and> length (sd_indices d) \<le> 8 \<and> list_all (\<lambda>i. 0 < i) (sd_indices d) \<and> length (sd_gap d) \<le> 500"

lemma positive_take: "list_all (\<lambda>i. 0 < i) (take n (filter (\<lambda>i. 0 < (i :: int)) xs))"
  by (auto simp: list_all_iff dest: in_set_takeD)

lemma direction_of_ok:
  assumes "direction_of lib item = Inr ds"
  shows "list_all direction_ok ds"
proof -
  have half: "unit_float (Fin (1 / 2))" by simp
  show ?thesis using assms clamp_default [OF half]
    by (auto simp: direction_of_def direction_ok_def bind_res_Inr_conv positive_take split: if_splits)
qed

lemma parse_gaps_ok:
  assumes "parse_gaps_payload lib raw = Inr ds"
  shows "list_all direction_ok ds"
proof (cases "load_json_object (json_loads lib) (Some raw)")
  case None
  then show ?thesis using assms by (simp add: parse_gaps_payload_def)
next
  case (Some payload)
  then obtain items dss where m: "mapM (direction_of lib) items = Inr dss" "set ds = set (concat dss)"
    using assms by (auto simp: parse_gaps_payload_def bind_res_Inr_conv)
  have "list_all direction_ok xs" if "xs \<in> set dss" for xs
    using list_all2_ex1 [OF m(1) [unfolded mapM_Inr_conv] that] direction_of_ok by blast
  then show ?thesis unfolding list_all_iff m(2) by auto
qed

lemma lifted_answer: "bind_llm m (\<lambda>c. lift_llm (f c)) gw = (Inr x, gw1) \<Longrightarrow> \<exists>c. f c = Inr x"
  by (auto simp: bind_llm_def lift_llm_def split: prod.splits sum.splits)

text \<open>The model only adds directions: what was found in the data is the same with and without it, whatever it
  answers; a direction has a confidence between zero and one and at most eight positive evidence
  numbers.  That the numbers exist is not checked.\<close>

theorem gap_directions_only_added:
  "case discover_gaps lib fmt_g db entities results ids topic gateway of (r, _) \<Rightarrow>
     r\<lparr>gr_directions := []\<rparr> = gap_findings fmt_g db entities results ids topic
     \<and> list_all direction_ok (gr_directions r)
     \<and> (if gr_structural r = [] \<and> gr_stated r = [] then gr_directions r = [] else True)"
proof -
  define base where "base = gap_findings fmt_g db entities results ids topic"
  have b: "gr_directions base = []" by (simp add: base_def gap_findings_def)
  have same: "(base\<lparr>gr_directions := ds\<rparr>)\<lparr>gr_directions := []\<rparr> = base" for ds using b by simp
  show ?thesis
  proof (cases "gateway = None \<or> (gr_structural base = [] \<and> gr_stated base = [])")
    case True
    then show ?thesis using b by (auto simp: discover_gaps_def base_def [symmetric] Let_def split: option.split)
  next
    case False
    then obtain gw where gw: "gateway = Some gw" by (cases gateway) auto
    obtain r gw1 where a: "bind_llm (ask IDENTIFY_GAPS [(''topic'', topic), (''evidence'', gap_evidence base)] (4 / 10) 1200)
        (\<lambda>c. lift_llm (parse_gaps_payload lib (c_text c))) gw = (r, gw1)" by (metis surj_pair)
    show ?thesis
    proof (cases r)
      case (Inl e)
      then show ?thesis using False b gw a by (simp add: discover_gaps_def base_def [symmetric] Let_def)
    next
      case (Inr ds)
      then obtain c :: completion where "parse_gaps_payload lib (c_text c) = Inr ds"
        using lifted_answer [OF a [unfolded Inr]] by blast
      then have "list_all direction_ok ds" by (rule parse_gaps_ok)
      moreover have "discover_gaps lib fmt_g db entities results ids topic gateway = (base\<lparr>gr_directions := ds\<rparr>, Some gw1)"
        using False gw a Inr by (auto simp: discover_gaps_def base_def [symmetric] Let_def)
      ultimately show ?thesis using False gw b same by (auto simp: base_def [symmetric])
    qed
  qed
qed

end
