(* ===== verification/Review.thy ===== *)
theory Review
  imports Experiments
begin

section \<open>Literature reviews (research/review.py)\<close>

text \<open>
  The numbered sources, the outline, the drafting of each section from retrieved passages and the
  export.  The retriever of a query among given papers is a parameter (\<open>Retrieval.retrieve\<close> with a
  filter on papers).  The sections, which the code drafts concurrently, are drafted one after the
  other; the date of the export is a parameter.
\<close>

definition MAX_PAPERS :: nat where "MAX_PAPERS = 40"
definition MAX_SECTIONS :: nat where "MAX_SECTIONS = 8"

definition DEFAULT_SECTIONS :: "(string \<times> string) list" where
  "DEFAULT_SECTIONS =
     [(''Overview'', ''What problem this area addresses and why it matters''),
      (''Approaches'', ''The main methods and how they differ''),
      (''Evaluation'', ''Datasets, benchmarks, and reported results''),
      (''Open problems'', ''Limitations the papers themselves identify'')]"

record review_source =
  rs_index :: nat
  rs_paper :: uuid
  rs_title :: string
  rs_authors :: "string option"
  rs_year :: "int option"

definition text_of :: "string option \<Rightarrow> string" where
  "text_of v = (case v of None \<Rightarrow> [] | Some s \<Rightarrow> s)"

definition year_of :: "int option \<Rightarrow> int" where
  "year_of y = (case y of None \<Rightarrow> 0 | Some i \<Rightarrow> i)"

definition year_text :: "int option \<Rightarrow> string" where
  "year_text y = (if year_of y = 0 then [] else str_int (year_of y))"

definition source_citation :: "review_source \<Rightarrow> string" where
  "source_citation s =
     join ''. '' ((if text_of (rs_authors s) = [] then [] else [text_of (rs_authors s)]) @ [rs_title s]
       @ (if year_text (rs_year s) = [] then [] else [year_text (rs_year s)]))"

text \<open>\<open>re.sub("[^a-z0-9]", "", s.lower())\<close>; the part of a text before the first occurrence of a character.\<close>

definition slug :: "string \<Rightarrow> string" where
  "slug s = filter (\<lambda>c. 97 \<le> code_pt c \<and> code_pt c \<le> 122 \<or> is_digit c) (lower s)"

definition before :: "char \<Rightarrow> string \<Rightarrow> string" where
  "before c s = takeWhile (\<lambda>d. d \<noteq> c) s"

definition bibtex_key :: "review_source \<Rightarrow> string" where
  "bibtex_key s =
     (let ws = words (before CHR '','' (if text_of (rs_authors s) = [] then ''unknown'' else text_of (rs_authors s)));
          first_author = (if ws = [] then ''unknown'' else last ws);
          name = (if take 20 (slug first_author) = [] then ''unknown'' else take 20 (slug first_author)) in
      name @ year_text (rs_year s) @ take 12 (slug (before CHR '' '' (rs_title s))))"

record review_section =
  sc_heading :: string
  sc_focus :: string
  sc_text :: string
  sc_indices :: "nat list"

record literature_review =
  lr_topic :: string
  lr_title :: string
  lr_sections :: "review_section list"
  lr_sources :: "review_source list"
  lr_usage :: usage

definition cited_sources :: "literature_review \<Rightarrow> review_source list" where
  "cited_sources r = filter (\<lambda>s. rs_index s \<in> set (concat (map sc_indices (lr_sections r)))) (lr_sources r)"

definition word_count :: "literature_review \<Rightarrow> nat" where
  "word_count r = sum_list (map (\<lambda>s. length (words (sc_text s))) (lr_sections r))"

definition review_markdown :: "string \<Rightarrow> literature_review \<Rightarrow> string" where
  "review_markdown date r =
     (let cited = cited_sources r in
      join [CHR 0x0A]
        ([''# '' @ lr_title r, []]
         @ concat (map (\<lambda>s. [''## '' @ sc_heading s, [],
              if strip (sc_text s) = [] then ''_No supporting sources were found._'' else strip (sc_text s), []]) (lr_sections r))
         @ (if cited = [] then []
            else [''## References'', []] @ map (\<lambda>s. str_nat (rs_index s) @ ''. '' @ source_citation s) cited @ [[]])
         @ [''_Generated '' @ date @ '' from '' @ str_nat (length (lr_sources r)) @ '' paper(s)._'']))"

definition bibtex_entry :: "review_source \<Rightarrow> string" where
  "bibtex_entry s =
     ''@article{'' @ bibtex_key s @ '','' @ [CHR 0x0A]
     @ join ('','' @ [CHR 0x0A])
         ([''  title = {'' @ rs_title s @ ''}'']
          @ (if text_of (rs_authors s) = [] then [] else [''  author = {'' @ text_of (rs_authors s) @ ''}''])
          @ (if year_text (rs_year s) = [] then [] else [''  year = {'' @ year_text (rs_year s) @ ''}'']))
     @ [CHR 0x0A] @ ''}''"

definition to_bibtex :: "literature_review \<Rightarrow> string" where
  "to_bibtex r = join [CHR 0x0A, CHR 0x0A] (map bibtex_entry (cited_sources r))"

subsection \<open>Sources and outline\<close>

definition load_sources :: "database \<Rightarrow> uuid list \<Rightarrow> review_source list" where
  "load_sources db ids =
     map (\<lambda>(i, p). \<lparr>rs_index = i, rs_paper = p_id p, rs_title = title_of p, rs_authors = p_authors p, rs_year = p_year p\<rparr>)
       (enumerate 1 (sort_desc (\<lambda>p. year_of (p_year p)) (take MAX_PAPERS (filter (\<lambda>p. p_id p \<in> set ids) (db_papers db)))))"

definition paper_list :: "review_source list \<Rightarrow> string" where
  "paper_list sources = join [CHR 0x0A] (map (\<lambda>s. ''['' @ str_nat (rs_index s) @ ''] '' @ source_citation s) sources)"

definition new_section :: "string \<Rightarrow> string \<Rightarrow> review_section" where
  "new_section heading focus = \<lparr>sc_heading = heading, sc_focus = focus, sc_text = [], sc_indices = []\<rparr>"

definition default_sections :: "review_section list" where
  "default_sections = map (\<lambda>(h, f). new_section h f) DEFAULT_SECTIONS"

text \<open>\<open>payload["sections"][:8]\<close>, of which only dictionaries with a heading count.\<close>

definition first_sections :: "pyval \<Rightarrow> (string, pyval) dict list res" where
  "first_sections v = (case v of
     PyList vs \<Rightarrow> Inr (List.map_filter as_object (take MAX_SECTIONS vs))
   | PyStr s \<Rightarrow> Inr []
   | _ \<Rightarrow> Inl (TypeErr ''not subscriptable by a slice''))"

definition outline_of :: "library \<Rightarrow> string \<Rightarrow> string \<Rightarrow> (string \<times> review_section list) res" where
  "outline_of lib fallback raw =
     (case load_json_object (json_loads lib) (Some raw) of
        None \<Rightarrow> Inr (fallback, default_sections)
      | Some payload \<Rightarrow>
          if payload = [] \<or> \<not> truthy (jvalue payload ''sections'') then Inr (fallback, default_sections)
          else
            bind_res (first_sections (jvalue payload ''sections'')) (\<lambda>items.
            let sections = map (\<lambda>d. new_section (take 200 (jfield lib d ''heading'')) (take 500 (jfield lib d ''focus'')))
                  (filter (\<lambda>d. truthy (jvalue d ''heading'')) items) in
            Inr (take 300 (if truthy (jvalue payload ''title'') then jfield lib payload ''title'' else fallback),
                 if sections = [] then default_sections else sections)))"

definition plan_outline :: "library \<Rightarrow> string \<Rightarrow> review_source list \<Rightarrow> (string \<times> review_section list \<times> usage, 'w) act" where
  "plan_outline lib topic sources gw =
     (let fallback = ''A Review of '' @ topic in
      case ask REVIEW_OUTLINE [(''topic'', topic), (''papers'', paper_list sources)] (3 / 10) 900 gw of
        (Inl e, gw) \<Rightarrow> (Inr (fallback, default_sections, no_usage), gw)
      | (Inr c, gw) \<Rightarrow> lift_llm (bind_res (outline_of lib fallback (c_text c)) (\<lambda>(t, s). Inr (t, s, c_usage c))) gw)"

subsection \<open>Drafting\<close>

definition index_of_paper :: "review_source list \<Rightarrow> uuid \<Rightarrow> nat option" where
  "index_of_paper sources pid = dget (fold (\<lambda>s. dset (rs_paper s) (rs_index s)) sources []) pid"

definition passage_block :: "nat \<Rightarrow> retrieved_chunk \<Rightarrow> string" where
  "passage_block i c =
     ''['' @ str_nat i @ ''] '' @ (case rc_title c of None \<Rightarrow> ''None'' | Some t \<Rightarrow> t) @ '' ('' @ (case rc_section c of Some (x # s) \<Rightarrow> x # s | _ \<Rightarrow> ''body'') @ '')''
     @ [CHR 0x0A] @ strip (rc_content c)"

definition section_sources :: "retrieved_chunk list \<Rightarrow> review_source list \<Rightarrow> string \<times> nat list" where
  "section_sources cs sources =
     (let hits = List.map_filter (\<lambda>c. map_option (\<lambda>i. (i, c)) (index_of_paper sources (rc_paper c))) cs in
      (join [CHR 0x0A, CHR 0x0A] (map (\<lambda>(i, c). passage_block i c) hits), add_new (\<lambda>i. i) [] (map fst hits)))"

text \<open>Only markers that point at a source the section was given.\<close>

definition resolve_citations :: "string \<Rightarrow> nat list \<Rightarrow> review_source list \<Rightarrow> nat list" where
  "resolve_citations text available sources = filter (\<lambda>i. i \<in> set available) (extract_citations text (length sources))"

definition section_query :: "string \<Rightarrow> review_section \<Rightarrow> string" where
  "section_query topic s = strip (topic @ ''. '' @ sc_heading s @ ''. '' @ sc_focus s)"

definition draft_section ::
    "(string \<Rightarrow> uuid list \<Rightarrow> retrieved_chunk list res) \<Rightarrow> string \<Rightarrow> review_source list \<Rightarrow> review_section \<Rightarrow> (review_section, 'w) act" where
  "draft_section retr topic sources s gw =
     (case retr (section_query topic s) (map rs_paper sources) of
        Inl e \<Rightarrow> (Inl (OtherExn e), gw)
      | Inr cs \<Rightarrow>
          if cs = [] then (Inr (s\<lparr>sc_text := ''The available papers do not cover this aspect.''\<rparr>), gw)
          else
            let (rendered, available) = section_sources cs sources in
            case ask REVIEW_SECTION [(''topic'', topic), (''heading'', sc_heading s), (''focus'', sc_focus s), (''sources'', rendered)] (3 / 10) 1200 gw of
              (Inl e, gw) \<Rightarrow> (Inr (s\<lparr>sc_text := ''This section could not be generated.''\<rparr>), gw)
            | (Inr c, gw) \<Rightarrow>
                (Inr (s\<lparr>sc_text := strip (c_text c), sc_indices := resolve_citations (strip (c_text c)) available sources\<rparr>), gw))"

fun draft_all ::
    "(string \<Rightarrow> uuid list \<Rightarrow> retrieved_chunk list res) \<Rightarrow> string \<Rightarrow> review_source list \<Rightarrow> review_section list \<Rightarrow> (review_section list, 'w) act" where
  "draft_all retr topic sources [] gw = (Inr [], gw)"
| "draft_all retr topic sources (s # ss) gw =
     bind_llm (draft_section retr topic sources s) (\<lambda>d. bind_llm (draft_all retr topic sources ss) (\<lambda>ds. return_llm (d # ds))) gw"

definition generate_literature_review ::
    "library \<Rightarrow> (string \<Rightarrow> uuid list \<Rightarrow> retrieved_chunk list res) \<Rightarrow> database \<Rightarrow> string \<Rightarrow> uuid list \<Rightarrow> nat \<Rightarrow> (literature_review, 'w) act" where
  "generate_literature_review lib retr db topic ids max_sections =
     (let sources = load_sources db ids in
      if sources = []
      then return_llm \<lparr>lr_topic = topic, lr_title = ''A Review of '' @ topic, lr_sections = [], lr_sources = [], lr_usage = no_usage\<rparr>
      else
        bind_llm (plan_outline lib topic sources) (\<lambda>(title, sections, u).
        bind_llm (draft_all retr topic sources (take max_sections sections)) (\<lambda>drafted.
        return_llm \<lparr>lr_topic = topic, lr_title = title, lr_sections = drafted, lr_sources = sources, lr_usage = u\<rparr>)))"

subsection \<open>Citations stay with their sources\<close>

lemma load_sources_numbered:
  "map rs_index (load_sources db ids) = [1..<length (load_sources db ids) + 1]
   \<and> length (load_sources db ids) \<le> 40
   \<and> list_all (\<lambda>s. rs_paper s \<in> set ids \<and> rs_paper s \<in> p_id ` set (db_papers db)) (load_sources db ids)"
proof -
  let ?ps = "sort_desc (\<lambda>p. year_of (p_year p)) (take MAX_PAPERS (filter (\<lambda>p. p_id p \<in> set ids) (db_papers db)))"
  have "map rs_index (load_sources db ids) = map fst (enumerate 1 ?ps)"
    unfolding load_sources_def map_map by (intro map_cong) auto
  then have "map rs_index (load_sources db ids) = [1..<length (load_sources db ids) + 1]"
    by (simp add: load_sources_def)
  moreover have "length (load_sources db ids) \<le> 40" by (simp add: load_sources_def MAX_PAPERS_def)
  moreover have "rs_paper s \<in> set ids \<and> rs_paper s \<in> p_id ` set (db_papers db)" if "s \<in> set (load_sources db ids)" for s
  proof -
    from that obtain i p where "p \<in> set ?ps" "rs_paper s = p_id p"
      by (auto simp: load_sources_def enumerate_eq_zip dest!: set_zip_rightD)
    then show ?thesis by (auto dest!: in_set_takeD)
  qed
  ultimately show ?thesis by (simp add: list_all_iff)
qed

lemma index_of_paper_sound:
  assumes "index_of_paper sources pid = Some i"
  shows "\<exists>s \<in> set sources. rs_index s = i \<and> rs_paper s = pid"
proof -
  have "dget (fold (\<lambda>s. dset (rs_paper s) (rs_index s)) ss []) pid = Some i \<Longrightarrow> \<exists>s \<in> set ss. rs_index s = i \<and> rs_paper s = pid" for ss
    by (induction ss rule: rev_induct) (auto split: if_splits)
  then show ?thesis using assms by (simp add: index_of_paper_def)
qed

lemma section_sources_sound:
  assumes "i \<in> set (snd (section_sources cs sources))"
  shows "\<exists>s \<in> set sources. \<exists>c \<in> set cs. rs_index s = i \<and> rs_paper s = rc_paper c"
proof -
  let ?hits = "List.map_filter (\<lambda>c. map_option (\<lambda>i. (i, c)) (index_of_paper sources (rc_paper c))) cs"
  have "i \<in> fst ` set ?hits" using assms add_new_props [of "\<lambda>i. i" "[]" "map fst ?hits"] by (auto simp: section_sources_def Let_def)
  then obtain c where "c \<in> set cs" "index_of_paper sources (rc_paper c) = Some i"
    by (auto simp: List.map_filter_def)
  then show ?thesis using index_of_paper_sound by blast
qed

text \<open>A cited number is written in the section and names a source of which the section was given a passage.\<close>

definition section_ok ::
    "(string \<Rightarrow> uuid list \<Rightarrow> retrieved_chunk list res) \<Rightarrow> string \<Rightarrow> review_source list \<Rightarrow> review_section \<Rightarrow> bool" where
  "section_ok retr topic sources s \<longleftrightarrow> sorted_wrt (<) (sc_indices s)
     \<and> list_all (\<lambda>i. i \<in> set (extract_citations (sc_text s) (length sources))
          \<and> (\<exists>src \<in> set sources. rs_index src = i
               \<and> (\<exists>cs. retr (section_query topic s) (map rs_paper sources) = Inr cs \<and> rs_paper src \<in> rc_paper ` set cs))) (sc_indices s)"

lemma query_fields:
  "section_query topic (s\<lparr>sc_text := t\<rparr>) = section_query topic s" "section_query topic (s\<lparr>sc_indices := is\<rparr>) = section_query topic s"
  by (simp_all add: section_query_def)

lemma sorted_citations: "sorted_wrt (<) (extract_citations t n)"
  using foldl_cite [of "[]"] by (simp add: extract_citations_def strict_sorted_iff)

lemma draft_section_ok:
  assumes "draft_section retr topic sources s gw = (Inr d, gw1)" "sc_indices s = []"
  shows "section_ok retr topic sources d"
proof (cases "retr (section_query topic s) (map rs_paper sources)")
  case (Inl e)
  then show ?thesis using assms by (simp add: draft_section_def)
next
  case (Inr cs)
  obtain rendered available where ss: "section_sources cs sources = (rendered, available)" by (cases "section_sources cs sources")
  let ?kw = "[(''topic'', topic), (''heading'', sc_heading s), (''focus'', sc_focus s), (''sources'', rendered)]"
  obtain r gw2 where a: "ask REVIEW_SECTION ?kw (3 / 10) 1200 gw = (r, gw2)" by (metis surj_pair)
  have d: "(\<exists>t. d = s\<lparr>sc_text := t\<rparr>) \<or> (\<exists>t. d = s\<lparr>sc_text := t, sc_indices := resolve_citations t available sources\<rparr>)"
    using assms(1) Inr ss a by (cases r) (auto simp: draft_section_def split: if_splits)
  have src: "\<exists>src \<in> set sources. rs_index src = i \<and> rs_paper src \<in> rc_paper ` set cs" if "i \<in> set available" for i
    using section_sources_sound [of i cs sources] that ss by auto
  from d show ?thesis
  proof (elim disjE exE)
    fix t assume "d = s\<lparr>sc_text := t\<rparr>"
    then show ?thesis using assms(2) by (simp add: section_ok_def)
  next
    fix t assume "d = s\<lparr>sc_text := t, sc_indices := resolve_citations t available sources\<rparr>"
    then show ?thesis using src Inr sorted_citations
      by (auto simp: section_ok_def query_fields resolve_citations_def list_all_iff sorted_wrt_filter)
  qed
qed

lemma draft_all_ok:
  assumes "draft_all retr topic sources ss gw = (Inr ds, gw1)" "list_all (\<lambda>s. sc_indices s = []) ss"
  shows "list_all (section_ok retr topic sources) ds \<and> length ds = length ss"
  using assms
proof (induction ss arbitrary: gw ds)
  case (Cons s ss)
  obtain d gw2 where d: "draft_section retr topic sources s gw = (Inr d, gw2)"
    and rest: "bind_llm (draft_all retr topic sources ss) (\<lambda>ds. return_llm (d # ds)) gw2 = (Inr ds, gw1)"
    using Cons.prems(1) by (auto simp: bind_llm_def split: prod.splits sum.splits)
  obtain es gw3 where es: "draft_all retr topic sources ss gw2 = (Inr es, gw3)" "ds = d # es" "gw3 = gw1"
    using rest by (auto simp: bind_llm_def return_llm_def split: prod.splits sum.splits)
  then show ?case using Cons.IH [of gw2 es] draft_section_ok [OF d] Cons.prems(2) by simp
qed simp

lemma outline_empty:
  assumes "outline_of lib fallback raw = Inr (t, ss)"
  shows "list_all (\<lambda>s. sc_indices s = []) ss \<and> length ss \<le> 8"
proof -
  have dflt: "list_all (\<lambda>s. sc_indices s = []) default_sections \<and> length default_sections \<le> 8"
    by (simp add: default_sections_def DEFAULT_SECTIONS_def new_section_def)
  have len: "length (List.map_filter f ys) \<le> length ys" for f :: "pyval \<Rightarrow> (string, pyval) dict option" and ys
    by (simp add: List.map_filter_def)
  have "length (List.map_filter f (take 8 xs)) \<le> 8" for f :: "pyval \<Rightarrow> (string, pyval) dict option" and xs
    using len [of f "take 8 xs"] by simp
  then have "length items \<le> 8" if "first_sections v = Inr items" for v items
    using that by (auto simp: first_sections_def MAX_SECTIONS_def split: pyval.splits)
  then have "length (filter P items) \<le> 8" if "first_sections v = Inr items" for v items P
    using that by (meson length_filter_le order_trans)
  then show ?thesis using assms dflt
    by (auto simp: outline_of_def Let_def bind_res_Inr_conv list_all_iff new_section_def split: option.splits if_splits)
qed

lemma plan_outline_empty:
  assumes "plan_outline lib topic sources gw = (Inr (t, ss, u), gw1)"
  shows "list_all (\<lambda>s. sc_indices s = []) ss \<and> length ss \<le> 8"
proof -
  obtain r gw2 where a: "ask REVIEW_OUTLINE [(''topic'', topic), (''papers'', paper_list sources)] (3 / 10) 900 gw = (r, gw2)" by (metis surj_pair)
  show ?thesis
  proof (cases r)
    case (Inl e)
    then show ?thesis using assms a
      by (auto simp: plan_outline_def Let_def default_sections_def DEFAULT_SECTIONS_def new_section_def)
  next
    case (Inr c)
    then have "outline_of lib (''A Review of '' @ topic) (c_text c) = Inr (t, ss)"
      using assms a by (auto simp: plan_outline_def Let_def lift_llm_def bind_res_def split: sum.splits)
    then show ?thesis by (rule outline_empty)
  qed
qed

text \<open>C27: Citations of a review never drift off their sources: the sources are numbered from one without gaps and are
  requested papers; a number that a section cites is written in its text, names one of the sources, and
  that paper is among the passages retrieved for the section's own query.  There are at most eight
  sections, and no more than asked for.\<close>

theorem review_citations_sound:
  "case generate_literature_review lib retr db topic ids n gw of
     (Inr r, _) \<Rightarrow>
       map rs_index (lr_sources r) = [1..<length (lr_sources r) + 1]
       \<and> list_all (\<lambda>s. rs_paper s \<in> set ids) (lr_sources r)
       \<and> list_all (section_ok retr topic (lr_sources r)) (lr_sections r)
       \<and> length (lr_sections r) \<le> min n 8
       \<and> set (concat (map sc_indices (lr_sections r))) = rs_index ` set (cited_sources r)
   | (Inl _, _) \<Rightarrow> True"
proof -
  define sources where "sources = load_sources db ids"
  note num = load_sources_numbered [of db ids, folded sources_def]
  have main: "list_all (section_ok retr topic sources) (lr_sections r) \<and> length (lr_sections r) \<le> min n 8 \<and> lr_sources r = sources"
    if "generate_literature_review lib retr db topic ids n gw = (Inr r, gw1)" "sources \<noteq> []" for r gw1
  proof -
    note h = that
    obtain t' ss u' gw2 where p: "plan_outline lib topic sources gw = (Inr (t', ss, u'), gw2)"
      and rest: "bind_llm (draft_all retr topic sources (take n ss)) (\<lambda>drafted. return_llm
        \<lparr>lr_topic = topic, lr_title = t', lr_sections = drafted, lr_sources = sources, lr_usage = u'\<rparr>) gw2 = (Inr r, gw1)"
      using h(1,2) by (auto simp: generate_literature_review_def sources_def [symmetric] Let_def bind_llm_def split: prod.splits sum.splits)
    obtain es gw3 where e: "draft_all retr topic sources (take n ss) gw2 = (Inr es, gw3)"
      and r: "r = \<lparr>lr_topic = topic, lr_title = t', lr_sections = es, lr_sources = sources, lr_usage = u'\<rparr>"
      using rest by (auto simp: bind_llm_def return_llm_def split: prod.splits sum.splits)
    have "list_all (\<lambda>s. sc_indices s = []) (take n ss)"
      using plan_outline_empty [OF p] by (auto simp: list_all_iff dest: in_set_takeD)
    then show ?thesis using draft_all_ok [OF e] plan_outline_empty [OF p] r by auto
  qed
  have cited: "set (concat (map sc_indices (lr_sections r))) = rs_index ` set (cited_sources r)"
    if "list_all (section_ok retr topic (lr_sources r)) (lr_sections r)" for r
    using that by (fastforce simp: cited_sources_def section_ok_def list_all_iff)
  show ?thesis
  proof (cases "sources = []")
    case True
    then show ?thesis by (simp add: generate_literature_review_def sources_def return_llm_def cited_sources_def)
  next
    case False
    obtain res gw1 where g: "generate_literature_review lib retr db topic ids n gw = (res, gw1)" by (metis surj_pair)
    show ?thesis
    proof (cases res)
      case (Inl e)
      then show ?thesis by (simp add: g)
    next
      case (Inr r)
      note m = main [OF g [unfolded Inr] False]
      then have "list_all (section_ok retr topic (lr_sources r)) (lr_sections r)" by simp
      then show ?thesis unfolding g Inr prod.case sum.case using m num cited [of r] by (auto simp: list_all_iff simp del: set_concat set_map upt_Suc)
    qed
  qed
qed

text \<open>The keys of the exported bibliography are not unique: two papers of the same first author and year whose
  titles begin with the same word get the same key, and the usage of a review is that of the outline
  alone, whatever its sections cost.\<close>

theorem bibtex_keys_clash:
  "bibtex_key \<lparr>rs_index = 1, rs_paper = 1, rs_title = ''Deep nets'', rs_authors = Some ''Ann Lee, Bo Ek'', rs_year = Some 2020\<rparr>
     = bibtex_key \<lparr>rs_index = 2, rs_paper = 2, rs_title = ''Deep trees'', rs_authors = Some ''Cy Lee'', rs_year = Some 2020\<rparr>
   \<and> (case generate_literature_review lib retr db topic ids n gw of
        (Inr r, _) \<Rightarrow> lr_usage r = (case plan_outline lib topic (load_sources db ids) gw of
            (Inr (_, _, u), _) \<Rightarrow> if load_sources db ids = [] then no_usage else u | (Inl _, _) \<Rightarrow> no_usage)
      | (Inl _, _) \<Rightarrow> True)"
proof
  show "bibtex_key \<lparr>rs_index = 1, rs_paper = 1, rs_title = ''Deep nets'', rs_authors = Some ''Ann Lee, Bo Ek'', rs_year = Some 2020\<rparr>
     = bibtex_key \<lparr>rs_index = 2, rs_paper = 2, rs_title = ''Deep trees'', rs_authors = Some ''Cy Lee'', rs_year = Some 2020\<rparr>"
    by (simp add: bibtex_key_def before_def text_of_def slug_def lower_def lower_char_def code_pt_def is_digit_def is_space_def Let_def)
  show "case generate_literature_review lib retr db topic ids n gw of
        (Inr r, _) \<Rightarrow> lr_usage r = (case plan_outline lib topic (load_sources db ids) gw of
            (Inr (_, _, u), _) \<Rightarrow> if load_sources db ids = [] then no_usage else u | (Inl _, _) \<Rightarrow> no_usage)
      | (Inl _, _) \<Rightarrow> True"
    by (auto simp: generate_literature_review_def Let_def bind_llm_def return_llm_def split: prod.splits sum.splits)
qed

end
