(* ===== verification/Trends.thy ===== *)
theory Trends
  imports Contradictions
begin

section \<open>Trends and timelines (research/trends.py)\<close>

text \<open>
  The papers by year, the entities by year with a direction, the best value of a metric by year, and
  the narrative of the model.  Groups of a \<open>GROUP BY\<close> come in the order of their first rows.
\<close>

definition MIN_YEARS_FOR_TREND :: nat where "MIN_YEARS_FOR_TREND = 2"
definition EMERGING_WINDOW :: nat where "EMERGING_WINDOW = 2"

record year_bucket =
  yb_year :: int
  yb_count :: nat
  yb_titles :: "string list"

record timeline =
  tl_buckets :: "year_bucket list"
  tl_undated :: nat

definition span :: "timeline \<Rightarrow> (int \<times> int) option" where
  "span t = (if tl_buckets t = [] then None else Some (yb_year (hd (tl_buckets t)), yb_year (last (tl_buckets t))))"

definition total_papers :: "timeline \<Rightarrow> nat" where
  "total_papers t = sum_list (map yb_count (tl_buckets t)) + tl_undated t"

record entity_trend =
  et_label :: string
  et_name :: string
  et_by_year :: "(int, nat) dict"
  et_total :: nat

definition first_seen :: "entity_trend \<Rightarrow> int option" where
  "first_seen t = (if et_by_year t = [] then None else Some (Min (set (dkeys (et_by_year t)))))"

datatype trend_direction = New | Emerging | Rising | Declining | Steady

definition direction_value :: "trend_direction \<Rightarrow> string" where
  "direction_value d = (case d of New \<Rightarrow> ''new'' | Emerging \<Rightarrow> ''emerging'' | Rising \<Rightarrow> ''rising'' | Declining \<Rightarrow> ''declining'' | Steady \<Rightarrow> ''steady'')"

text \<open>The sum over the last two years with mentions, against the sum over all years before.\<close>

definition recent_years :: "entity_trend \<Rightarrow> int list" where
  "recent_years t = (let ys = sort (dkeys (et_by_year t)) in drop (length ys - EMERGING_WINDOW) ys)"

definition mentions :: "entity_trend \<Rightarrow> int list \<Rightarrow> nat" where
  "mentions t ys = sum_list (map (\<lambda>y. the (dget (et_by_year t) y)) ys)"

definition direction :: "entity_trend \<Rightarrow> trend_direction" where
  "direction t =
     (if length (et_by_year t) < MIN_YEARS_FOR_TREND then New
      else
        let split = recent_years t;
            recent = mentions t split;
            earlier = mentions t (filter (\<lambda>y. y \<notin> set split) (sort (dkeys (et_by_year t)))) in
        if earlier = 0 then Emerging
        else
          let ratio = real recent / real earlier in
          if 3 / 2 \<le> ratio then Rising else if ratio \<le> 1 / 2 then Declining else Steady)"

record metric_progression =
  mp_dataset :: "string option"
  mp_metric :: string
  mp_points :: "(int \<times> real \<times> string) list"

definition improvement :: "metric_progression \<Rightarrow> real option" where
  "improvement p = (if length (mp_points p) < 2 then None else Some (fst (snd (last (mp_points p))) - fst (snd (hd (mp_points p)))))"

record trend_report =
  tr_timeline :: timeline
  tr_entities :: "entity_trend list"
  tr_progressions :: "metric_progression list"
  tr_narrative :: string

definition rising :: "trend_report \<Rightarrow> entity_trend list" where
  "rising r = filter (\<lambda>t. direction t \<in> {Rising, Emerging}) (tr_entities r)"

definition declining :: "trend_report \<Rightarrow> entity_trend list" where
  "declining r = filter (\<lambda>t. direction t = Declining) (tr_entities r)"

subsection \<open>Computation\<close>

definition sorted_titles :: "string list \<Rightarrow> string list" where
  "sorted_titles ts = sort_key (map code_pt) ts"

definition requested :: "database \<Rightarrow> uuid list \<Rightarrow> paper_row list" where
  "requested db ids = filter (\<lambda>p. p_id p \<in> set ids) (db_papers db)"

definition by_year :: "paper_row list \<Rightarrow> (int, string list) dict" where
  "by_year ps = group_all (List.map_filter (\<lambda>p. map_option (\<lambda>y. (y, untitled p)) (p_year p)) ps)"

definition build_timeline :: "database \<Rightarrow> uuid list \<Rightarrow> timeline" where
  "build_timeline db ids =
     (if ids = [] then \<lparr>tl_buckets = [], tl_undated = 0\<rparr>
      else
        \<lparr>tl_buckets = map (\<lambda>(y, ts). \<lparr>yb_year = y, yb_count = length ts, yb_titles = take 20 (sorted_titles ts)\<rparr>)
           (sort_key fst (by_year (requested db ids))),
         tl_undated = length (filter (\<lambda>p. p_year p = None) (requested db ids))\<rparr>)"

definition entity_rows :: "database \<Rightarrow> entity_row list \<Rightarrow> uuid list \<Rightarrow> string list \<Rightarrow> ((string \<times> string) \<times> int \<times> nat) list" where
  "entity_rows db entities ids labels =
     map (\<lambda>((l, n, y), us). ((l, n), y, card (set us)))
       (group_all (concat (map (\<lambda>r. List.map_filter (\<lambda>p. map_option (\<lambda>y. ((en_label r, en_name r, y), en_paper r)) (p_year p))
             (filter (\<lambda>p. p_id p = en_paper r) (db_papers db)))
         (filter (\<lambda>r. en_paper r \<in> set ids \<and> (labels = [] \<or> en_label r \<in> set labels)) entities))))"

definition entity_trends :: "database \<Rightarrow> entity_row list \<Rightarrow> uuid list \<Rightarrow> string list \<Rightarrow> nat \<Rightarrow> entity_trend list" where
  "entity_trends db entities ids labels top_n =
     (if ids = [] then []
      else take top_n (sort_desc et_total
        (map (\<lambda>((l, n), ycs). \<lparr>et_label = l, et_name = n, et_by_year = sort_key fst ycs, et_total = sum_list (map snd ycs)\<rparr>)
          (group_all (entity_rows db entities ids labels)))))"

type_synonym progress = "(string option \<times> string, (int, real \<times> string) dict) dict"

definition better :: "string \<Rightarrow> real \<Rightarrow> real \<Rightarrow> bool" where
  "better metric v w = (if metric_higher_is_better metric then w < v else v < w)"

definition progress_step :: "(string option \<times> string) \<times> int \<times> real \<times> string \<Rightarrow> progress \<Rightarrow> progress" where
  "progress_step row best =
     (case row of (key, year, value, model) \<Rightarrow>
        let pts = (case dget best key of None \<Rightarrow> [] | Some p \<Rightarrow> p) in
        case dget pts year of
          None \<Rightarrow> dset key (dset year (value, model) pts) best
        | Some (current, _) \<Rightarrow>
            if better (snd key) value current then dset key (dset year (value, model) pts) best else dset key pts best)"

definition progress_rows :: "database \<Rightarrow> result_row list \<Rightarrow> uuid list \<Rightarrow> ((string option \<times> string) \<times> int \<times> real \<times> string) list" where
  "progress_rows db results ids =
     concat (map (\<lambda>r. List.map_filter (\<lambda>p. map_option (\<lambda>y. ((xr_dataset_name r, xr_metric_name r), y, fin_real (xr_value r), xr_model_name r)) (p_year p))
         (filter (\<lambda>p. p_id p = xr_paper r) (db_papers db)))
       (filter (\<lambda>r. xr_paper r \<in> set ids \<and> xr_dataset_key r \<noteq> None) results))"

definition metric_progressions :: "database \<Rightarrow> result_row list \<Rightarrow> uuid list \<Rightarrow> nat \<Rightarrow> metric_progression list" where
  "metric_progressions db results ids top_n =
     (if ids = [] then []
      else take top_n (sort_desc (\<lambda>p. length (mp_points p))
        (map (\<lambda>((d, m), pts). \<lparr>mp_dataset = d, mp_metric = m, mp_points = sort_key fst pts\<rparr>)
          (filter (\<lambda>(k, pts). MIN_YEARS_FOR_TREND \<le> length pts) (fold progress_step (progress_rows db results ids) [])))))"

definition opt_text :: "string option \<Rightarrow> string" where
  "opt_text v = (case v of None \<Rightarrow> ''None'' | Some s \<Rightarrow> s)"

definition trend_evidence :: "(real \<Rightarrow> string) \<Rightarrow> trend_report \<Rightarrow> string" where
  "trend_evidence fmt_g r = join [CHR 0x0A]
     (map (\<lambda>b. str_int (yb_year b) @ '': '' @ str_nat (yb_count b) @ '' paper(s)'') (tl_buckets (tr_timeline r))
      @ map (\<lambda>t. et_name t @ '' ('' @ et_label t @ '', '' @ direction_value (direction t) @ ''): ''
          @ join '', '' (map (\<lambda>(y, c). str_int y @ ''='' @ str_nat c) (et_by_year t))) (take 10 (tr_entities r))
      @ map (\<lambda>p. opt_text (mp_dataset p) @ '' / '' @ mp_metric p @ '': ''
          @ join '', '' (map (\<lambda>(y, v, m). str_int y @ '': '' @ fmt_g v @ '' ('' @ m @ '')'') (mp_points p))) (take 5 (tr_progressions r)))"

definition analyze_trends ::
    "(real \<Rightarrow> string) \<Rightarrow> database \<Rightarrow> entity_row list \<Rightarrow> result_row list \<Rightarrow> uuid list \<Rightarrow> string \<Rightarrow> string list \<Rightarrow> 'w llm option
       \<Rightarrow> trend_report \<times> 'w llm option" where
  "analyze_trends fmt_g db entities results ids topic labels gateway =
     (let report = \<lparr>tr_timeline = build_timeline db ids, tr_entities = entity_trends db entities ids labels 15,
                    tr_progressions = metric_progressions db results ids 6, tr_narrative = []\<rparr> in
      case gateway of
        None \<Rightarrow> (report, None)
      | Some gw \<Rightarrow>
          if tl_buckets (tr_timeline report) = [] then (report, gateway)
          else case ask SYNTHESIZE_TREND [(''topic'', topic), (''evidence'', trend_evidence fmt_g report)] (1 / 5) 350 gw of
                 (Inl e, gw) \<Rightarrow> (report, Some gw)
               | (Inr c, gw) \<Rightarrow> (report\<lparr>tr_narrative := strip (c_text c)\<rparr>, Some gw))"

subsection \<open>The timeline counts every paper once\<close>

lemma sum_by_year: "sum_list (map (\<lambda>kv. length (snd kv)) (by_year ps)) + length (filter (\<lambda>p. p_year p = None) ps) = length ps"
proof -
  have "length (List.map_filter (\<lambda>p. map_option (\<lambda>y. (y, untitled p)) (p_year p)) ps) = length (filter (\<lambda>p. p_year p \<noteq> None) ps)"
    by (simp add: List.map_filter_def)
  then show ?thesis using length_groups [of "List.map_filter (\<lambda>p. map_option (\<lambda>y. (y, untitled p)) (p_year p)) ps"]
      sum_length_filter_compl [of "\<lambda>p. p_year p = None" ps]
    by (simp add: by_year_def size_all_def)
qed

lemma sorted_keys:
  assumes "dict_ok d"
  shows "sorted_wrt (<) (map fst (sort_key fst d))"
proof -
  have "distinct (map fst (sort_key fst d))"
    using assms by (simp add: dict_ok_def distinct_map)
  then show ?thesis by (simp add: strict_sorted_iff)
qed

lemma sum_list_sort_key: "sum_list (map f (sort_key g xs)) = (sum_list (map f xs) :: nat)"
  using mset_sort [of g xs] by (metis mset_map sum_mset_sum_list)

text \<open>The timeline accounts for every requested paper exactly once, in the bucket of its year or among the
  undated; the years are strictly increasing and no bucket is empty.\<close>

theorem timeline_complete:
  "total_papers (build_timeline db ids) = length (requested db ids)
   \<and> sorted_wrt (<) (map yb_year (tl_buckets (build_timeline db ids)))
   \<and> list_all (\<lambda>b. 0 < yb_count b \<and> yb_count b = length (filter (\<lambda>p. p_year p = Some (yb_year b)) (requested db ids))
        \<and> length (yb_titles b) = min 20 (yb_count b)) (tl_buckets (build_timeline db ids))"
proof (cases "ids = []")
  case True
  then show ?thesis by (simp add: build_timeline_def total_papers_def requested_def)
next
  case False
  define ps where "ps = requested db ids"
  let ?kvs = "List.map_filter (\<lambda>p. map_option (\<lambda>y. (y, untitled p)) (p_year p)) ps"
  have "sum_list (map (\<lambda>kv. length (snd kv)) (sort_key fst (by_year ps))) = sum_list (map (\<lambda>kv. length (snd kv)) (by_year ps))"
    by (rule sum_list_sort_key)
  then have "total_papers (build_timeline db ids) = length ps"
    using False sum_by_year [of ps] by (simp add: build_timeline_def total_papers_def ps_def [symmetric] comp_def case_prod_beta)
  moreover have "sorted_wrt (<) (map yb_year (tl_buckets (build_timeline db ids)))"
    using False sorted_keys [of "by_year ps"] by (simp add: build_timeline_def ps_def [symmetric] by_year_def comp_def case_prod_beta)
  moreover have "filter (\<lambda>p. p_year p = Some y) ps \<noteq> [] \<and> length ts = length (filter (\<lambda>p. p_year p = Some y) ps)" if "(y, ts) \<in> set (by_year ps)" for y ts
  proof -
    have y: "y \<in> fst ` set ?kvs" and ts: "ts = map snd (filter (\<lambda>kv. fst kv = y) ?kvs)"
      using that by (simp_all add: by_year_def in_group)
    have "length (filter (\<lambda>kv. fst kv = y) (List.map_filter (\<lambda>p. map_option (\<lambda>y. (y, untitled p)) (p_year p)) qs)) = length (filter (\<lambda>p. p_year p = Some y) qs)" for qs
      by (induction qs) (auto simp: List.map_filter_def)
    then have "length ts = length (filter (\<lambda>p. p_year p = Some y) ps)" unfolding ts length_map .
    moreover have "ts \<noteq> []"
    proof -
      from y obtain kv where "kv \<in> set ?kvs" "fst kv = y" by blast
      then have "filter (\<lambda>kv. fst kv = y) ?kvs \<noteq> []" unfolding filter_empty_conv by blast
      then show ?thesis unfolding ts by simp
    qed
    ultimately show ?thesis by (metis length_greater_0_conv)
  qed
  ultimately show ?thesis using False
    by (auto simp: build_timeline_def ps_def [symmetric] list_all_iff sorted_titles_def)
qed

subsection \<open>The best of each year\<close>

text \<open>Each point is a reported value of its year that no other reported value of that year beats.\<close>

definition point_ok :: "((string option \<times> string) \<times> int \<times> real \<times> string) list \<Rightarrow> string option \<times> string \<Rightarrow> int \<times> real \<times> string \<Rightarrow> bool" where
  "point_ok rows key = (\<lambda>(y, v, m). (key, y, v, m) \<in> set rows
     \<and> (\<forall>w n. (key, y, w, n) \<in> set rows \<longrightarrow> \<not> better (snd key) w v))"

definition progress_ok :: "((string option \<times> string) \<times> int \<times> real \<times> string) list \<Rightarrow> progress \<Rightarrow> bool" where
  "progress_ok rows best \<longleftrightarrow> dict_ok best
     \<and> (\<forall>key pts. dget best key = Some pts \<longrightarrow> dict_ok pts \<and> (\<forall>y vm. dget pts y = Some vm \<longrightarrow> point_ok rows key (y, vm)))
     \<and> (\<forall>key y v m. (key, y, v, m) \<in> set rows \<longrightarrow> (\<exists>pts. dget best key = Some pts \<and> dget pts y \<noteq> None))"

lemma better_trans: "better m u v \<Longrightarrow> \<not> better m w v \<Longrightarrow> \<not> better m w u"
  by (auto simp: better_def split: if_splits)

lemma better_irrefl: "\<not> better m v v"
  by (simp add: better_def)

text \<open>The value of a year after one more row.\<close>

lemma point_ok_keep:
  assumes "point_ok rows key (y, v, m)" "\<not> (k = key \<and> yr = y \<and> better (snd key) w v)"
  shows "point_ok (rows @ [(k, yr, w, n)]) key (y, v, m)"
  using assms by (auto simp: point_ok_def)

lemma point_ok_replace:
  assumes "point_ok rows key (y, v, m)" "better (snd key) w v"
  shows "point_ok (rows @ [(key, y, w, n)]) key (y, w, n)"
  using assms better_trans [of "snd key" w v] better_irrefl by (auto simp: point_ok_def)

lemma point_ok_first:
  assumes "\<forall>v m. (key, y, v, m) \<notin> set rows"
  shows "point_ok (rows @ [(key, y, w, n)]) key (y, w, n)"
  using assms better_irrefl by (auto simp: point_ok_def)

lemma progress_step_ok:
  assumes "progress_ok rows best"
  shows "progress_ok (rows @ [(key, yr, w, n)]) (progress_step (key, yr, w, n) best)"
proof -
  define pts where "pts = (case dget best key of None \<Rightarrow> [] | Some p \<Rightarrow> p)"
  have ok: "dict_ok best" using assms by (simp add: progress_ok_def)
  have old: "dict_ok p \<and> (\<forall>y vm. dget p y = Some vm \<longrightarrow> point_ok rows k (y, vm))" if "dget best k = Some p" for k p
    using assms that unfolding progress_ok_def by blast
  have all: "\<exists>p. dget best k = Some p \<and> dget p y \<noteq> None" if "(k, y, v, m) \<in> set rows" for k y v m
    using assms that unfolding progress_ok_def by blast
  have pts: "dict_ok pts" "\<And>y vm. dget pts y = Some vm \<Longrightarrow> point_ok rows key (y, vm)"
    using old [of key] by (auto simp: pts_def split: option.splits)
  have kept: "point_ok (rows @ [(key, yr, w, n)]) k (y, vm)" if "dget best k = Some p" "dget p y = Some vm" "k \<noteq> key" for k p y vm
    using old [OF that(1)] that(2,3) by (cases vm) (auto intro: point_ok_keep)
  have here: "point_ok (rows @ [(key, yr, w, n)]) key (y, vm)" if "dget pts y = Some vm" "y \<noteq> yr" for y vm
    using pts(2) [OF that(1)] that(2) by (cases vm) (auto intro: point_ok_keep)
  define new where "new = (case dget pts yr of None \<Rightarrow> dset yr (w, n) pts | Some (c, _) \<Rightarrow> if better (snd key) w c then dset yr (w, n) pts else pts)"
  have step: "progress_step (key, yr, w, n) best = dset key new best"
    by (simp add: progress_step_def pts_def [symmetric] new_def Let_def split: option.split)
  have new_ok: "dict_ok new" "dget new yr \<noteq> None" "\<And>y. y \<noteq> yr \<Longrightarrow> dget new y = dget pts y"
    using pts(1) by (auto simp: new_def split: option.splits)
  have point: "point_ok (rows @ [(key, yr, w, n)]) key (yr, vm)" if "dget new yr = Some vm" for vm
  proof (cases "dget pts yr")
    case None
    then have "dget best key = None \<or> (\<exists>p. dget best key = Some p \<and> dget p yr = None)" by (cases "dget best key") (auto simp: pts_def)
    then have "\<forall>v m. (key, yr, v, m) \<notin> set rows" using all [of key yr] by fastforce
    then show ?thesis using that None point_ok_first [of key yr rows w n] by (auto simp: new_def)
  next
    case (Some cm)
    obtain c m where cm: "cm = (c, m)" by (cases cm)
    note old_point = pts(2) [OF Some [unfolded cm]]
    show ?thesis
    proof (cases "better (snd key) w c")
      case True
      then show ?thesis using that Some cm point_ok_replace [OF old_point True, of n] by (auto simp: new_def)
    next
      case False
      then show ?thesis using that Some cm point_ok_keep [OF old_point, of key yr w n] by (auto simp: new_def)
    qed
  qed
  have "\<exists>p. dget (dset key new best) k = Some p \<and> dget p y \<noteq> None" if "(k, y, v, m) \<in> set (rows @ [(key, yr, w, n)])" for k y v m
  proof (cases "k = key")
    case True
    then show ?thesis using that new_ok(2,3) all [of key y v m] by (cases "y = yr") (auto simp: pts_def)
  next
    case False
    then show ?thesis using that all [of k y v m] by auto
  qed
  moreover have "dict_ok p \<and> (\<forall>y vm. dget p y = Some vm \<longrightarrow> point_ok (rows @ [(key, yr, w, n)]) k (y, vm))"
    if "dget (dset key new best) k = Some p" for k p
  proof (cases "k = key")
    case True
    then have "p = new" using that by simp
    moreover have "point_ok (rows @ [(key, yr, w, n)]) key (y, vm)" if "dget new y = Some vm" for y vm
      using that point here new_ok(3) by (cases "y = yr") simp_all
    ultimately show ?thesis using new_ok(1) True by simp
  next
    case False
    then have "dget best k = Some p" using that by simp
    then show ?thesis using old kept False by blast
  qed
  ultimately show ?thesis unfolding step progress_ok_def using ok by (simp only: dict_ok_dset) blast
qed

lemma progress_fold_ok: "progress_ok rows (fold progress_step rows [])"
proof (induction rows rule: rev_induct)
  case Nil
  then show ?case by (simp add: progress_ok_def)
next
  case (snoc row rows)
  obtain k y v m where "row = (k, y, v, m)" by (cases row)
  then show ?case using snoc progress_step_ok by simp
qed

definition progression_ok :: "((string option \<times> string) \<times> int \<times> real \<times> string) list \<Rightarrow> metric_progression \<Rightarrow> bool" where
  "progression_ok rows p \<longleftrightarrow> sorted_wrt (<) (map fst (mp_points p)) \<and> 2 \<le> length (mp_points p)
     \<and> list_all (point_ok rows (mp_dataset p, mp_metric p)) (mp_points p)"

text \<open>A progression shows the best reported value of each year: its years are strictly increasing and at least two;
  every point is a stored result of a requested paper of that year, for that dataset and metric, that no
  other such result beats in the metric's own direction.  The progressions with most years come
  first.\<close>

theorem progressions_sound:
  "list_all (progression_ok (progress_rows db results ids)) (metric_progressions db results ids n)
   \<and> length (metric_progressions db results ids n) \<le> n
   \<and> sorted_wrt (\<lambda>p q. length (mp_points q) \<le> length (mp_points p)) (metric_progressions db results ids n)"
proof (cases "ids = []")
  case True
  then show ?thesis by (simp add: metric_progressions_def)
next
  case False
  define rows where "rows = progress_rows db results ids"
  define best where "best = fold progress_step rows []"
  have ok: "progress_ok rows best" unfolding best_def by (rule progress_fold_ok)
  have "progression_ok rows \<lparr>mp_dataset = d, mp_metric = m, mp_points = sort_key fst pts\<rparr>"
    if "((d, m), pts) \<in> set best" "2 \<le> length pts" for d m pts
  proof -
    have "dget best (d, m) = Some pts" using that(1) ok by (simp add: progress_ok_def dict_ok_mem)
    then have pts: "dict_ok pts" "\<And>y vm. dget pts y = Some vm \<Longrightarrow> point_ok rows (d, m) (y, vm)"
      using ok unfolding progress_ok_def by blast+
    have "point_ok rows (d, m) (y, vm)" if "(y, vm) \<in> set pts" for y vm
      using that pts by (simp add: dict_ok_mem)
    then show ?thesis using sorted_keys [OF pts(1)] that(2) by (auto simp: progression_ok_def list_all_iff)
  qed
  then have "list_all (progression_ok rows) (metric_progressions db results ids n)"
    using False by (auto simp: metric_progressions_def rows_def [symmetric] best_def [symmetric] list_all_iff MIN_YEARS_FOR_TREND_def
        dest!: in_set_takeD)
  then show ?thesis using False by (simp add: metric_progressions_def rows_def sorted_sort_desc sorted_wrt_take)
qed

text \<open>The direction of an entity compares the last two of its own years with mentions, not the last years of the
  corpus: an entity with mentions in exactly two years is emerging even when they fall, and one that
  nobody mentions since its last burst still counts as rising.\<close>

theorem direction_ignores_corpus:
  "direction \<lparr>et_label = l, et_name = n, et_by_year = [(2001, 50), (2002, 1)], et_total = 51\<rparr> = Emerging
   \<and> direction \<lparr>et_label = l, et_name = n, et_by_year = [(1990, 1), (1991, 2), (1992, 2)], et_total = 5\<rparr> = Rising"
  by (simp add: direction_def recent_years_def mentions_def MIN_YEARS_FOR_TREND_def EMERGING_WINDOW_def Let_def)

end
