(* ===== verification/Corpus.thy ===== *)
theory Corpus
  imports Analytics Gaps Review Trends
begin

section \<open>What a caller may read (accessible_paper_ids in api/v1/endpoints/graph.py, _scope in api/v1/endpoints/insights.py)\<close>

text \<open>
  The tables the analyses read, the papers of a caller, and the scope of a request.  A query without
  \<open>ORDER BY\<close> answers in the order of the table.  An analysis is a function of the tables and of the
  identifiers it is asked for; the locale \<open>analysis\<close> is the contract that makes the scope enough to
  keep other users' rows out of its answer.
\<close>

record corpus =
  co_db :: database
  co_results :: "result_row list"
  co_entities :: "entity_row list"
  co_refs :: "(uuid \<times> parsed_reference) list"

definition accessible_paper_ids :: "database \<Rightarrow> uuid \<Rightarrow> uuid list" where
  "accessible_paper_ids db user =
     (let workspace_ids = map w_id (filter (\<lambda>w. w_owner w = user) (db_workspaces db)) in
      if workspace_ids = [] then []
      else map p_id (filter (\<lambda>p. p_workspace p \<in> set workspace_ids) (db_papers db)))"

definition scope :: "database \<Rightarrow> uuid \<Rightarrow> uuid list \<Rightarrow> uuid list" where
  "scope db user wanted =
     (let accessible = accessible_paper_ids db user in
      if wanted = [] then accessible else filter (\<lambda>i. i \<in> set accessible) wanted)"

subsection \<open>The caller's own rows\<close>

definition keep_rows :: "(workspace_row \<Rightarrow> bool) \<Rightarrow> uuid list \<Rightarrow> corpus \<Rightarrow> corpus" where
  "keep_rows P ids c =
     \<lparr>co_db = \<lparr>db_workspaces = filter P (db_workspaces (co_db c)), db_papers = filter (\<lambda>p. p_id p \<in> set ids) (db_papers (co_db c)),
               db_chunks = filter (\<lambda>k. k_paper k \<in> set ids) (db_chunks (co_db c))\<rparr>,
      co_results = filter (\<lambda>r. xr_paper r \<in> set ids) (co_results c),
      co_entities = filter (\<lambda>r. en_paper r \<in> set ids) (co_entities c),
      co_refs = filter (\<lambda>r. fst r \<in> set ids) (co_refs c)\<rparr>"

definition own_rows :: "uuid \<Rightarrow> corpus \<Rightarrow> corpus" where
  "own_rows user c = keep_rows (\<lambda>w. w_owner w = user) (accessible_paper_ids (co_db c) user) c"

lemma keep_rows_simps [simp]:
  "db_papers (co_db (keep_rows P A c)) = filter (\<lambda>p. p_id p \<in> set A) (db_papers (co_db c))"
  "db_chunks (co_db (keep_rows P A c)) = filter (\<lambda>k. k_paper k \<in> set A) (db_chunks (co_db c))"
  "db_workspaces (co_db (keep_rows P A c)) = filter P (db_workspaces (co_db c))"
  "co_results (keep_rows P A c) = filter (\<lambda>r. xr_paper r \<in> set A) (co_results c)"
  "co_entities (keep_rows P A c) = filter (\<lambda>r. en_paper r \<in> set A) (co_entities c)"
  "co_refs (keep_rows P A c) = filter (\<lambda>r. fst r \<in> set A) (co_refs c)"
  by (simp_all add: keep_rows_def)

lemma accessible_is_owned: "accessible_paper_ids db user = map p_id (owned_papers db user)"
proof (cases "filter (\<lambda>w. w_owner w = user) (db_workspaces db) = []")
  case True
  then show ?thesis by (simp add: accessible_paper_ids_def owned_papers_def del: list.set_map set_filter)
qed (simp add: accessible_paper_ids_def owned_papers_def)

lemma accessible_own_rows [simp]: "accessible_paper_ids (co_db (own_rows user c)) user = accessible_paper_ids (co_db c) user"
proof -
  have "filter (\<lambda>p. Q p \<and> p_id p \<in> p_id ` {p \<in> set ps. Q p}) ps = filter Q ps" for Q :: "paper_row \<Rightarrow> bool" and ps
    by (rule filter_cong) auto
  from this [of "\<lambda>p. p_workspace p \<in> set (map w_id (filter (\<lambda>w. w_owner w = user) (db_workspaces (co_db c))))"]
  show ?thesis by (simp add: own_rows_def accessible_is_owned owned_papers_def conj_commute)
qed

lemma scope_own_rows [simp]: "scope (co_db (own_rows user c)) user wanted = scope (co_db c) user wanted"
  by (simp add: scope_def)

lemma scope_accessible: "set (scope db user wanted) \<subseteq> set (accessible_paper_ids db user)"
  by (auto simp: scope_def Let_def)

subsection \<open>Analyses that read only what they are asked for\<close>

locale analysis =
  fixes f :: "corpus \<Rightarrow> uuid list \<Rightarrow> 'r"
  assumes reads_only: "set ids \<subseteq> set A \<Longrightarrow> f (keep_rows P A c) ids = f c ids"
begin

lemma answer_from_own_rows: "f (own_rows user c) (scope (co_db (own_rows user c)) user wanted) = f c (scope (co_db c) user wanted)"
  using reads_only [OF scope_accessible] by (simp add: own_rows_def [symmetric]) (simp add: own_rows_def)

lemma whole_library: "f (own_rows user c) (accessible_paper_ids (co_db c) user) = f c (accessible_paper_ids (co_db c) user)"
  unfolding own_rows_def by (rule reads_only) simp

lemma same_own_rows_same_answer:
  assumes "own_rows user c = own_rows user c'"
  shows "f c (scope (co_db c) user wanted) = f c' (scope (co_db c') user wanted)"
  using answer_from_own_rows [of user c wanted] answer_from_own_rows [of user c' wanted] assms by simp

end

subsection \<open>Each analysis is one\<close>

declare filter_filter [simp del]

lemma filter_kept: "(\<And>x. P x \<Longrightarrow> Q x) \<Longrightarrow> filter P (filter Q xs) = filter P xs"
  by (induction xs) auto

lemma concat_map_kept:
  "(\<And>x. P x \<Longrightarrow> Q x) \<Longrightarrow> (\<And>x. P x \<Longrightarrow> g x = h x) \<Longrightarrow> concat (map g (filter P (filter Q xs))) = concat (map h (filter P xs))"
  by (auto simp: filter_kept intro!: arg_cong [where f = concat] map_cong)

lemma paper_kept: "i \<in> set A \<Longrightarrow> filter (\<lambda>p. p_id p = i) (filter (\<lambda>p. p_id p \<in> set A) ps) = filter (\<lambda>p. p_id p = i) ps"
  by (rule filter_kept) simp

lemma requested_kept:
  "set ids \<subseteq> set A \<Longrightarrow> filter (\<lambda>p. p_id p \<in> set ids) (filter (\<lambda>p. p_id p \<in> set A) ps) = filter (\<lambda>p. p_id p \<in> set ids) ps"
  by (rule filter_kept) auto

lemma row_kept: "i \<in> set A \<Longrightarrow> get_paper_row (co_db (keep_rows P A c)) i = get_paper_row (co_db c) i"
proof -
  assume i: "i \<in> set A"
  have "find Q ps = (case filter Q ps of [] \<Rightarrow> None | x # _ \<Rightarrow> Some x)" for Q :: "paper_row \<Rightarrow> bool" and ps
    by (induction ps) auto
  then show ?thesis by (simp only: get_paper_row_def keep_rows_simps paper_kept [OF i])
qed

lemma chunks_kept:
  "i \<in> set A \<Longrightarrow> filter (\<lambda>k. k_paper k = i) (filter (\<lambda>k. k_paper k \<in> set A) ks) = filter (\<lambda>k. k_paper k = i) ks"
  by (rule filter_kept) simp

lemma joined_kept:
  "set ids \<subseteq> set A \<Longrightarrow>
   joined_results (co_db (keep_rows P A c)) (co_results (keep_rows P A c)) ids ms ds = joined_results (co_db c) (co_results c) ids ms ds"
  unfolding joined_results_def keep_rows_simps by (rule concat_map_kept) (auto simp: paper_kept subset_iff)

lemma comparison_kept:
  "set ids \<subseteq> set A \<Longrightarrow>
   build_comparison_table (co_db (keep_rows P A c)) (co_results (keep_rows P A c)) ids ms ds n
   = build_comparison_table (co_db c) (co_results c) ids ms ds n"
  by (simp only: build_comparison_table_def joined_kept)

lemma matrix_kept:
  "set ids \<subseteq> set A \<Longrightarrow>
   build_paper_matrix (co_db (keep_rows P A c)) (co_results (keep_rows P A c)) ids = build_paper_matrix (co_db c) (co_results c) ids"
proof -
  assume ids: "set ids \<subseteq> set A"
  have "filter (\<lambda>r. xr_paper r \<in> set ids) (filter (\<lambda>r. xr_paper r \<in> set A) rs) = filter (\<lambda>r. xr_paper r \<in> set ids) rs" for rs
    by (rule filter_kept) (use ids in auto)
  note rows = this
  show ?thesis by (simp only: rows build_paper_matrix_def keep_rows_simps requested_kept [OF ids])
qed

lemma conflicts_kept:
  "set ids \<subseteq> set A \<Longrightarrow>
   find_numeric_conflicts (co_db (keep_rows P A c)) (co_results (keep_rows P A c)) ids t = find_numeric_conflicts (co_db c) (co_results c) ids t"
  by (simp only: find_numeric_conflicts_def conflict_pairs_def joined_kept)

lemma claims_kept: "set ids \<subseteq> set A \<Longrightarrow> claims_by_paper (co_db (keep_rows P A c)) ids = claims_by_paper (co_db c) ids"
  unfolding claims_by_paper_def
  by (rule fold_cong) (auto simp: claims_step_def row_kept chunks_kept subset_iff split: option.split)

lemma consistency_kept:
  "set ids \<subseteq> set A \<Longrightarrow>
   analyze_consistency lib (co_db (keep_rows P A c)) (co_results (keep_rows P A c)) ids gw inc
   = analyze_consistency lib (co_db c) (co_results c) ids gw inc"
  by (simp only: analyze_consistency_def compare_claims_def claims_kept conflicts_kept)

lemma coverage_kept:
  assumes "set ids \<subseteq> set A"
  shows "find_coverage_gaps (co_db (keep_rows P A c)) (co_entities (keep_rows P A c)) ids = find_coverage_gaps (co_db c) (co_entities c) ids"
proof -
  have "filter (\<lambda>r. en_paper r \<in> set ids) (filter (\<lambda>r. en_paper r \<in> set A) es) = filter (\<lambda>r. en_paper r \<in> set ids) es" for es
    by (rule filter_kept) (use assms in auto)
  note rows = this
  have c: "coverage_of (co_entities (keep_rows P A c)) ids = coverage_of (co_entities c) ids" by (simp only: rows coverage_of_def keep_rows_simps)
  have "map (title_or_untitled (co_db (keep_rows P A c))) (take n (filter Q ids)) = map (title_or_untitled (co_db c)) (take n (filter Q ids))" for n Q
    using assms by (auto simp: title_or_untitled_def row_kept subset_iff dest!: in_set_takeD)
  note titles = this
  have g: "coverage_gap (co_db (keep_rows P A c)) ids = coverage_gap (co_db c) ids" by (simp only: coverage_gap_def titles Let_def)
  show ?thesis by (simp only: find_coverage_gaps_def c g)
qed

lemma evaluation_kept:
  "set ids \<subseteq> set A \<Longrightarrow> find_evaluation_gaps (co_results (keep_rows P A c)) ids = find_evaluation_gaps (co_results c) ids"
proof -
  assume ids: "set ids \<subseteq> set A"
  have "tested_results (co_results (keep_rows P A c)) ids = tested_results (co_results c) ids"
    unfolding tested_results_def keep_rows_simps by (rule filter_kept) (use ids in auto)
  then show ?thesis by (simp only: find_evaluation_gaps_def)
qed

lemma stated_kept:
  "set ids \<subseteq> set A \<Longrightarrow> find_stated_gaps (co_db (keep_rows P A c)) ids n = find_stated_gaps (co_db c) ids n"
  unfolding find_stated_gaps_def
  by (intro arg_cong [where f = concat] map_cong) (auto simp: row_kept chunks_kept subset_iff split: option.split)

lemma gaps_kept:
  "set ids \<subseteq> set A \<Longrightarrow>
   discover_gaps lib fmt_g (co_db (keep_rows P A c)) (co_entities (keep_rows P A c)) (co_results (keep_rows P A c)) ids topic gw
   = discover_gaps lib fmt_g (co_db c) (co_entities c) (co_results c) ids topic gw"
  by (simp only: discover_gaps_def gap_findings_def coverage_kept evaluation_kept stated_kept conflicts_kept)

lemma entity_rows_kept:
  "set ids \<subseteq> set A \<Longrightarrow>
   entity_rows (co_db (keep_rows P A c)) (co_entities (keep_rows P A c)) ids ls = entity_rows (co_db c) (co_entities c) ids ls"
  unfolding entity_rows_def keep_rows_simps
  by (subst concat_map_kept [where h = "\<lambda>r. List.map_filter (\<lambda>p. map_option (\<lambda>y. ((en_label r, en_name r, y), en_paper r)) (p_year p))
        (filter (\<lambda>p. p_id p = en_paper r) (db_papers (co_db c)))"]) (auto simp: paper_kept subset_iff)

lemma progress_rows_kept:
  "set ids \<subseteq> set A \<Longrightarrow>
   progress_rows (co_db (keep_rows P A c)) (co_results (keep_rows P A c)) ids = progress_rows (co_db c) (co_results c) ids"
  unfolding progress_rows_def keep_rows_simps by (rule concat_map_kept) (auto simp: paper_kept subset_iff)

lemma timeline_kept: "set ids \<subseteq> set A \<Longrightarrow> build_timeline (co_db (keep_rows P A c)) ids = build_timeline (co_db c) ids"
  by (simp only: build_timeline_def requested_def keep_rows_simps requested_kept)

lemma trends_kept:
  "set ids \<subseteq> set A \<Longrightarrow>
   analyze_trends fmt_g (co_db (keep_rows P A c)) (co_entities (keep_rows P A c)) (co_results (keep_rows P A c)) ids topic ls gw
   = analyze_trends fmt_g (co_db c) (co_entities c) (co_results c) ids topic ls gw"
  by (simp only: analyze_trends_def timeline_kept entity_trends_def metric_progressions_def entity_rows_kept progress_rows_kept)

lemma review_kept:
  "set ids \<subseteq> set A \<Longrightarrow>
   generate_literature_review lib retr (co_db (keep_rows P A c)) topic ids n = generate_literature_review lib retr (co_db c) topic ids n"
  by (simp only: generate_literature_review_def load_sources_def keep_rows_simps requested_kept)

lemma coauthors_kept:
  "set ids \<subseteq> set A \<Longrightarrow> coauthorship_network (co_db (keep_rows P A c)) ids n = coauthorship_network (co_db c) ids n"
  by (simp only: coauthorship_network_def author_lists_def keep_rows_simps requested_kept)

lemma citations_kept:
  assumes "set ids \<subseteq> set A"
  shows "citation_network (co_db (keep_rows P A c)) (co_refs (keep_rows P A c)) ids n = citation_network (co_db c) (co_refs c) ids n"
proof -
  have "filter (\<lambda>r. fst r \<in> set ids) (filter (\<lambda>r. fst r \<in> set A) rs) = filter (\<lambda>r. fst r \<in> set ids) rs" for rs :: "(uuid \<times> parsed_reference) list"
    by (rule filter_kept) (use assms in auto)
  note rows = this
  show ?thesis by (simp only: rows citation_network_def citation_pairs_def keep_rows_simps requested_kept [OF assms])
qed

lemma entities_kept:
  "set ids \<subseteq> set A \<Longrightarrow>
   entity_network (co_db (keep_rows P A c)) (co_entities (keep_rows P A c)) ids ls m n = entity_network (co_db c) (co_entities c) ids ls m n"
proof -
  assume ids: "set ids \<subseteq> set A"
  have "concat (map (\<lambda>r. map (Pair r) (filter (\<lambda>p. p_id p = en_paper r) (filter (\<lambda>p. p_id p \<in> set A) (db_papers (co_db c)))))
      (filter (\<lambda>r. en_paper r \<in> set ids \<and> (ls = [] \<or> en_label r \<in> set ls)) (filter (\<lambda>r. en_paper r \<in> set A) (co_entities c))))
    = concat (map (\<lambda>r. map (Pair r) (filter (\<lambda>p. p_id p = en_paper r) (db_papers (co_db c))))
      (filter (\<lambda>r. en_paper r \<in> set ids \<and> (ls = [] \<or> en_label r \<in> set ls)) (co_entities c)))"
    by (rule concat_map_kept) (use ids in \<open>auto simp: paper_kept subset_iff\<close>)
  then show ?thesis by (simp only: entity_network_def mention_rows_def keep_rows_simps)
qed

lemma cooccurrence_kept:
  "set ids \<subseteq> set A \<Longrightarrow> entity_cooccurrence (co_entities (keep_rows P A c)) ids l n = entity_cooccurrence (co_entities c) ids l n"
proof -
  assume ids: "set ids \<subseteq> set A"
  have "filter (\<lambda>r. en_paper r \<in> set ids \<and> Q r) (filter (\<lambda>r. en_paper r \<in> set A) es) = filter (\<lambda>r. en_paper r \<in> set ids \<and> Q r) es" for es Q
    by (rule filter_kept) (use ids in auto)
  note rows = this
  show ?thesis by (simp only: rows entity_cooccurrence_def keep_rows_simps)
qed

lemma connected_kept:
  assumes "set ids \<subseteq> set A"
  shows "most_connected_papers (co_db (keep_rows P A c)) (co_entities (keep_rows P A c)) ids n = most_connected_papers (co_db c) (co_entities c) ids n"
proof -
  let ?es = "co_entities c" and ?ps = "db_papers (co_db c)"
  have "filter (\<lambda>p. p_id p \<in> set ids \<and> list_ex (\<lambda>r. en_paper r = p_id p) (filter (\<lambda>r. en_paper r \<in> set A) ?es)) (filter (\<lambda>p. p_id p \<in> set A) ?ps)
      = filter (\<lambda>p. p_id p \<in> set ids \<and> list_ex (\<lambda>r. en_paper r = p_id p) ?es) ?ps"
    using assms by (auto simp: list_ex_iff filter_filter subset_iff intro!: filter_cong)
  moreover have "filter (\<lambda>r. en_paper r = p_id p) (filter (\<lambda>r. en_paper r \<in> set A) ?es) = filter (\<lambda>r. en_paper r = p_id p) ?es"
    if "p \<in> set (filter (\<lambda>p. p_id p \<in> set ids \<and> list_ex (\<lambda>r. en_paper r = p_id p) ?es) ?ps)" for p
    by (rule filter_kept) (use that assms in auto)
  ultimately show ?thesis by (simp only: most_connected_papers_def keep_rows_simps cong: map_cong)
qed

declare filter_filter [simp]

interpretation comparisons: analysis "\<lambda>c ids. build_comparison_table (co_db c) (co_results c) ids ms ds n" for ms ds n
  by unfold_locales (rule comparison_kept)

interpretation matrices: analysis "\<lambda>c. build_paper_matrix (co_db c) (co_results c)"
  by unfold_locales (rule matrix_kept)

interpretation consistencies: analysis "\<lambda>c ids. analyze_consistency lib (co_db c) (co_results c) ids gw inc" for lib gw inc
  by unfold_locales (rule consistency_kept)

interpretation gap_reports: analysis "\<lambda>c ids. discover_gaps lib fmt_g (co_db c) (co_entities c) (co_results c) ids topic gw" for lib fmt_g topic gw
  by unfold_locales (rule gaps_kept)

interpretation trend_reports: analysis "\<lambda>c ids. analyze_trends fmt_g (co_db c) (co_entities c) (co_results c) ids topic ls gw" for fmt_g topic ls gw
  by unfold_locales (rule trends_kept)

interpretation reviews: analysis "\<lambda>c ids. generate_literature_review lib retr (co_db c) topic ids n" for lib retr topic n
  by unfold_locales (rule review_kept)

interpretation coauthors: analysis "\<lambda>c ids. coauthorship_network (co_db c) ids n" for n
  by unfold_locales (rule coauthors_kept)

interpretation citations: analysis "\<lambda>c ids. citation_network (co_db c) (co_refs c) ids n" for n
  by unfold_locales (rule citations_kept)

interpretation shared_entities: analysis "\<lambda>c ids. entity_network (co_db c) (co_entities c) ids ls m n" for ls m n
  by unfold_locales (rule entities_kept)

interpretation cooccurrences: analysis "\<lambda>c ids. entity_cooccurrence (co_entities c) ids l n" for l n
  by unfold_locales (rule cooccurrence_kept)

interpretation connections: analysis "\<lambda>c ids. most_connected_papers (co_db c) (co_entities c) ids n" for n
  by unfold_locales (rule connected_kept)

end
