(* ===== verification/Insights.thy ===== *)
theory Insights
  imports Corpus Http
begin

section \<open>The analysis endpoints (api/v1/endpoints/insights.py, schemas/insights.py)\<close>

text \<open>
  Requests, responses and handlers.  A request that breaks a bound of its schema is refused before
  the handler runs (\<open>RequestInvalid\<close>), a response that breaks its schema ends in an error of the
  server (\<open>ResponseInvalid\<close>).  The format \<open>g\<close> of a number, the JSON library and the retriever of
  the caller are parameters.
\<close>

subsection \<open>Requests\<close>

definition MAX_PAPERS_PER_REQUEST :: nat where "MAX_PAPERS_PER_REQUEST = 50"

record paper_scope_request =
  rq_papers :: "uuid list"

record comparison_request = paper_scope_request +
  cq_metrics :: "string list"
  cq_datasets :: "string list"
  cq_min_papers :: nat

record trend_request = paper_scope_request +
  tq_topic :: string
  tq_labels :: "string list"

record consistency_request = paper_scope_request +
  sq_include_claims :: bool

record gap_request = paper_scope_request +
  gq_topic :: string

record review_request = paper_scope_request +
  vq_topic :: string
  vq_max_sections :: nat

definition valid_scope :: "'a paper_scope_request_scheme \<Rightarrow> bool" where
  "valid_scope r \<longleftrightarrow> length (rq_papers r) \<le> MAX_PAPERS_PER_REQUEST"

definition valid_comparison :: "comparison_request \<Rightarrow> bool" where
  "valid_comparison r \<longleftrightarrow> valid_scope r \<and> length (cq_metrics r) \<le> 20 \<and> length (cq_datasets r) \<le> 20
     \<and> 1 \<le> cq_min_papers r \<and> cq_min_papers r \<le> 20"

definition valid_trend :: "trend_request \<Rightarrow> bool" where
  "valid_trend r \<longleftrightarrow> valid_scope r \<and> length (tq_topic r) \<le> 300 \<and> length (tq_labels r) \<le> 10"

definition valid_gap :: "gap_request \<Rightarrow> bool" where
  "valid_gap r \<longleftrightarrow> valid_scope r \<and> length (gq_topic r) \<le> 300"

definition valid_review :: "review_request \<Rightarrow> bool" where
  "valid_review r \<longleftrightarrow> valid_scope r \<and> 1 \<le> length (vq_topic r) \<and> length (vq_topic r) \<le> 300
     \<and> 1 \<le> vq_max_sections r \<and> vq_max_sections r \<le> 8"

subsection \<open>Comparison and matrix\<close>

record cell_payload =
  cy_paper :: uuid
  cy_title :: string
  cy_model :: string
  cy_value :: real
  cy_unit :: "string option"
  cy_split :: "string option"
  cy_best :: bool

record row_payload =
  ry_dataset :: string
  ry_metric :: string
  ry_spread :: real
  ry_cells :: "cell_payload list"

record comparison_response =
  cr_rows :: "row_payload list"
  cr_ungrouped :: nat
  cr_markdown :: string

definition cell_payload_of :: "comparison_cell \<Rightarrow> cell_payload" where
  "cell_payload_of c = \<lparr>cy_paper = cc_paper c, cy_title = cc_title c, cy_model = cc_model c, cy_value = cc_value c, cy_unit = cc_unit c,
     cy_split = cc_split c, cy_best = cc_best c\<rparr>"

definition row_payload_of :: "comparison_row \<Rightarrow> row_payload" where
  "row_payload_of r = \<lparr>ry_dataset = cw_dataset r, ry_metric = cw_metric r, ry_spread = spread r, ry_cells = map cell_payload_of (cw_cells r)\<rparr>"

definition comparison :: "(real \<Rightarrow> string) \<Rightarrow> corpus \<Rightarrow> uuid \<Rightarrow> comparison_request \<Rightarrow> failure + comparison_response" where
  "comparison fmt_g c user r =
     answered (valid_comparison r)
       (let ids = scope (co_db c) user (rq_papers r);
            t = build_comparison_table (co_db c) (co_results c) ids (cq_metrics r) (cq_datasets r) (cq_min_papers r) in
        \<lparr>cr_rows = map row_payload_of (ct_rows t), cr_ungrouped = ct_ungrouped t, cr_markdown = to_markdown fmt_g t\<rparr>)"

definition matrix :: "corpus \<Rightarrow> uuid \<Rightarrow> paper_scope_request \<Rightarrow> failure + paper_summary list" where
  "matrix c user r =
     answered (valid_scope r)
       (let ids = scope (co_db c) user (rq_papers r) in
        map (\<lambda>s. \<lparr>ps_paper = ps_paper s, ps_title = ps_title s, ps_year = ps_year s, ps_datasets = ps_datasets s,
                  ps_models = ps_models s, ps_metrics = ps_metrics s\<rparr>) (build_paper_matrix (co_db c) (co_results c) ids))"

subsection \<open>Trends\<close>

record entity_trend_payload =
  ey_label :: string
  ey_name :: string
  ey_by_year :: "(int, nat) dict"
  ey_total :: nat
  ey_direction :: string
  ey_first_seen :: "int option"

record progression_payload =
  pg_dataset :: string
  pg_metric :: string
  pg_points :: "(int \<times> real \<times> string) list"
  pg_improvement :: "real option"

record trend_response =
  ty_narrative :: string
  ty_timeline :: "year_bucket list"
  ty_undated :: nat
  ty_entities :: "entity_trend_payload list"
  ty_progressions :: "progression_payload list"

definition entity_payload_of :: "entity_trend \<Rightarrow> entity_trend_payload" where
  "entity_payload_of t = \<lparr>ey_label = et_label t, ey_name = et_name t, ey_by_year = et_by_year t, ey_total = et_total t,
     ey_direction = direction_value (direction t), ey_first_seen = first_seen t\<rparr>"

text \<open>The schema wants a dataset; the column may be empty.\<close>

definition progression_payload_of :: "metric_progression \<Rightarrow> failure + progression_payload" where
  "progression_payload_of p =
     (case mp_dataset p of
        None \<Rightarrow> Inl ResponseInvalid
      | Some d \<Rightarrow> Inr \<lparr>pg_dataset = d, pg_metric = mp_metric p, pg_points = mp_points p, pg_improvement = improvement p\<rparr>)"

definition trend_response_of :: "trend_report \<Rightarrow> failure + trend_response" where
  "trend_response_of t =
     (case all_payloads (map progression_payload_of (tr_progressions t)) of
        Inl e \<Rightarrow> Inl e
      | Inr ps \<Rightarrow> Inr \<lparr>ty_narrative = tr_narrative t, ty_timeline = tl_buckets (tr_timeline t), ty_undated = tl_undated (tr_timeline t),
                      ty_entities = map entity_payload_of (tr_entities t), ty_progressions = ps\<rparr>)"

definition trends :: "(real \<Rightarrow> string) \<Rightarrow> corpus \<Rightarrow> uuid \<Rightarrow> trend_request \<Rightarrow> 'w llm \<Rightarrow> (failure + trend_response) \<times> 'w llm option" where
  "trends fmt_g c user r gw =
     (if \<not> valid_trend r then (Inl RequestInvalid, Some gw)
      else
        let ids = scope (co_db c) user (rq_papers r);
            (report, gw) = analyze_trends fmt_g (co_db c) (co_entities c) (co_results c) ids (tq_topic r) (tq_labels r) (Some gw) in
        (trend_response_of report, gw))"

subsection \<open>Consistency\<close>

record conflict_payload =
  ny_conflict :: numeric_conflict
  ny_gap :: real

record consistency_response =
  sy_summary :: string
  sy_consistent :: bool
  sy_papers :: nat
  sy_conflicts :: "conflict_payload list"
  sy_contradictions :: "claim_pair list"
  sy_agreements :: "claim_pair list"

definition conflict_payload_of :: "numeric_conflict \<Rightarrow> conflict_payload" where
  "conflict_payload_of c = \<lparr>ny_conflict = c, ny_gap = relative_gap c\<rparr>"

definition consistency_response_of :: "consistency_report \<Rightarrow> consistency_response" where
  "consistency_response_of r = \<lparr>sy_summary = consistency_summary r, sy_consistent = is_consistent r, sy_papers = cs_papers r,
     sy_conflicts = map conflict_payload_of (cs_conflicts r), sy_contradictions = cs_contradictions r, sy_agreements = cs_agreements r\<rparr>"

definition consistency ::
    "library \<Rightarrow> corpus \<Rightarrow> uuid \<Rightarrow> consistency_request \<Rightarrow> 'w llm \<Rightarrow> failure + consistency_response \<times> 'w llm option" where
  "consistency lib c user r gw =
     answered (valid_scope r)
       (let ids = scope (co_db c) user (rq_papers r);
            gateway = (if sq_include_claims r then Some gw else None);
            (report, gw) = analyze_consistency lib (co_db c) (co_results c) ids gateway (sq_include_claims r) in
        (consistency_response_of report, gw))"

subsection \<open>Gaps\<close>

record gap_response =
  gy_topic :: string
  gy_summary :: string
  gy_papers :: nat
  gy_structural :: "structural_gap list"
  gy_stated :: "(string \<times> string) list"
  gy_directions :: "(string \<times> string \<times> string \<times> pyfloat) list"

definition gap_response_of :: "gap_report \<Rightarrow> gap_response" where
  "gap_response_of r = \<lparr>gy_topic = gr_topic r, gy_summary = gap_summary r, gy_papers = gr_papers r, gy_structural = gr_structural r,
     gy_stated = gr_stated r, gy_directions = map (\<lambda>d. (sd_gap d, sd_rationale d, sd_direction d, sd_confidence d)) (gr_directions r)\<rparr>"

definition gaps ::
    "library \<Rightarrow> (real \<Rightarrow> string) \<Rightarrow> corpus \<Rightarrow> uuid \<Rightarrow> gap_request \<Rightarrow> 'w llm \<Rightarrow> failure + gap_response \<times> 'w llm option" where
  "gaps lib fmt_g c user r gw =
     answered (valid_gap r)
       (let ids = scope (co_db c) user (rq_papers r);
            (report, gw) = discover_gaps lib fmt_g (co_db c) (co_entities c) (co_results c) ids (gq_topic r) (Some gw) in
        (gap_response_of report, gw))"

subsection \<open>Review\<close>

record source_payload =
  oy_source :: review_source
  oy_citation :: string

record review_response =
  vy_topic :: string
  vy_title :: string
  vy_sections :: "review_section list"
  vy_sources :: "source_payload list"
  vy_word_count :: nat
  vy_markdown :: string
  vy_bibtex :: string

definition source_payload_of :: "review_source \<Rightarrow> source_payload" where
  "source_payload_of s = \<lparr>oy_source = s, oy_citation = source_citation s\<rparr>"

definition review_response_of :: "string \<Rightarrow> literature_review \<Rightarrow> review_response" where
  "review_response_of date v = \<lparr>vy_topic = lr_topic v, vy_title = lr_title v, vy_sections = lr_sections v,
     vy_sources = map source_payload_of (lr_sources v), vy_word_count = word_count v, vy_markdown = review_markdown date v,
     vy_bibtex = to_bibtex v\<rparr>"

text \<open>An exception of the drafting is not caught by the handler.\<close>

definition review ::
    "library \<Rightarrow> string \<Rightarrow> (string \<Rightarrow> uuid list \<Rightarrow> retrieved_chunk list res) \<Rightarrow> corpus \<Rightarrow> uuid \<Rightarrow> review_request \<Rightarrow> 'w llm
       \<Rightarrow> failure + (llm_exn + review_response) \<times> 'w llm" where
  "review lib date retr c user r gw =
     answered (valid_review r)
       (let ids = scope (co_db c) user (rq_papers r) in
        bind_llm (generate_literature_review lib retr (co_db c) (vq_topic r) ids (vq_max_sections r))
          (\<lambda>v. return_llm (review_response_of date v)) gw)"

subsection \<open>Answers from the caller's own rows\<close>


subsection \<open>Responses of the right shape\<close>

text \<open>A stored result has a dataset name whenever it has a dataset key; extraction stores no others.\<close>

definition named :: "result_row \<Rightarrow> bool" where
  "named r \<longleftrightarrow> (xr_dataset_key r \<noteq> None \<longrightarrow> xr_dataset_name r \<noteq> None)"

lemma named_result_row: "named (result_row_of pid r)"
proof (cases "er_dataset r")
  case (Some s)
  then show ?thesis by (cases s) (simp_all add: named_def result_row_of_def clip_text_def)
qed (simp add: named_def result_row_of_def)

lemma persist_named: "list_all named rows \<Longrightarrow> list_all named (persist_results pid rs rows)"
  by (auto simp: persist_results_def list_all_iff named_result_row)

lemma progress_step_keys: "set (dkeys (progress_step row d)) \<subseteq> insert (fst row) (set (dkeys d))"
  by (cases row) (auto simp: progress_step_def Let_def dkeys_dset simp del: set_map list.set_map split: option.split if_splits)

lemma progress_keys: "set (dkeys (fold progress_step rows d)) \<subseteq> fst ` set rows \<union> set (dkeys d)"
proof (induction rows arbitrary: d)
  case (Cons row rows)
  show ?case using Cons [of "progress_step row d"] progress_step_keys [of row d] by auto
qed simp

lemma progressions_named:
  assumes "list_all named results" "p \<in> set (metric_progressions db results ids n)"
  shows "mp_dataset p \<noteq> None"
proof -
  let ?best = "fold progress_step (progress_rows db results ids) []"
  have "(mp_dataset p, mp_metric p) \<in> set (dkeys ?best)"
    using assms(2) by (force simp: metric_progressions_def dest!: in_set_takeD split: if_splits)
  then have "(mp_dataset p, mp_metric p) \<in> fst ` set (progress_rows db results ids)"
    using progress_keys [of "progress_rows db results ids" "[]"] by auto
  then obtain r where "r \<in> set results" "xr_dataset_key r \<noteq> None" "mp_dataset p = xr_dataset_name r"
    by (auto simp: progress_rows_def List.map_filter_def)
  then show ?thesis using assms(1) by (auto simp: named_def list_all_iff)
qed

text \<open>With the results extraction stores, no response on trends breaks its schema.\<close>

theorem trend_responses_valid:
  "if list_all named (co_results c)
   then fst (trends fmt_g c user r gw) \<noteq> Inl ResponseInvalid \<and> list_all named (persist_results pid rs (co_results c))
   else True"
proof -
  have "trend_response_of t \<noteq> Inl ResponseInvalid" if "list_all (\<lambda>p. mp_dataset p \<noteq> None) (tr_progressions t)" for t
  proof -
    have "all_payloads (map progression_payload_of (tr_progressions t)) \<noteq> Inl ResponseInvalid"
      by (rule all_payloads_valid) (use that in \<open>auto simp: progression_payload_of_def list_all_iff\<close>)
    then show ?thesis by (auto simp: trend_response_of_def split: sum.split)
  qed
  moreover have "tr_progressions (fst (analyze_trends fmt_g db es rs ids topic ls (Some gw))) = metric_progressions db rs ids 6" for db es rs ids topic ls
    by (simp add: analyze_trends_def Let_def split: prod.split sum.split)
  moreover note progressions_named
  ultimately have "list_all named (co_results c) \<Longrightarrow> fst (trends fmt_g c user r gw) \<noteq> Inl ResponseInvalid"
    by (simp add: trends_def Let_def case_prod_beta list_all_iff)
  then show ?thesis using persist_named by simp
qed

subsection \<open>Identifiers named twice\<close>

definition one_corpus :: corpus where
  "one_corpus = \<lparr>co_db = (one_db False)\<lparr>db_workspaces := [\<lparr>w_id = 3, w_owner = 1\<rparr>]\<rparr>, co_results = [], co_entities = [], co_refs = []\<rparr>"

text \<open>A request that names its only paper twice counts it as two papers: the report claims to have found no
  conflicts across them, where a request naming it once is told that two papers are needed.\<close>

lemma str_two: "str_nat (Suc (Suc 0)) = ''2''"
  by code_simp

theorem duplicate_identifiers_counted:
  "map_sum id (\<lambda>(r, g). (sy_summary r, sy_papers r)) (consistency lib one_corpus 1 \<lparr>rq_papers = [7, 7], sq_include_claims = False\<rparr> gw)
     = Inr (''No conflicts found across 2 papers.'', 2)
   \<and> map_sum id (\<lambda>(r, g). (sy_summary r, sy_papers r)) (consistency lib one_corpus 1 \<lparr>rq_papers = [7], sq_include_claims = False\<rparr> gw)
     = Inr (''At least two papers are needed to compare claims.'', 1)"
  by (simp add: consistency_def answered_def valid_scope_def MAX_PAPERS_PER_REQUEST_def scope_def accessible_paper_ids_def one_corpus_def
      one_db_def one_paper_def analyze_consistency_def find_numeric_conflicts_def conflict_pairs_def joined_results_def
      group_all_def consistency_response_of_def consistency_summary_def is_consistent_def str_two)

end
