(* ===== verification/GraphApi.thy ===== *)
theory GraphApi
  imports Corpus GraphQuery Accounts
begin

section \<open>The graph endpoints (api/v1/endpoints/graph.py, schemas/graph.py)\<close>

text \<open>
  Overview, networks, the walk from a node, and questions.  A query parameter outside its bounds is
  refused before the handler runs (\<open>Unprocessable\<close>); \<open>Raised\<close> is an exception of the handler, which
  the handlers of \<open>Accounts\<close> turn into a response.  The user of \<open>neighbors\<close> and of \<open>query\<close> is only
  asked to be logged in.
\<close>

datatype api_error = Unprocessable | Raised app_error

definition VIEWS :: "string list" where
  "VIEWS = [''entities'', ''citations'', ''authors'']"

definition known_labels :: "string list" where
  "known_labels = map label_value all_labels"

subsection \<open>Overview\<close>

record overview_response =
  ov_papers :: nat
  ov_counts :: "(string, nat) dict"
  ov_entities :: "(string \<times> string \<times> nat) list"
  ov_connected :: "(uuid \<times> string \<times> nat) list"

definition overview :: "corpus \<Rightarrow> graph_store \<Rightarrow> uuid \<Rightarrow> overview_response" where
  "overview c store user =
     (let ids = accessible_paper_ids (co_db c) user in
      \<lparr>ov_papers = length ids, ov_counts = counts store, ov_entities = entity_cooccurrence (co_entities c) ids None 20,
       ov_connected = most_connected_papers (co_db c) (co_entities c) ids 10\<rparr>)"

subsection \<open>Networks\<close>

record network_response =
  nr_view :: string
  nr_nodes :: "node_view list"
  nr_edges :: "edge_view list"
  nr_node_count :: nat
  nr_edge_count :: nat

definition to_response :: "string \<Rightarrow> network_view \<Rightarrow> network_response" where
  "to_response view v = \<lparr>nr_view = view, nr_nodes = nw_nodes v, nr_edges = nw_edges v, nr_node_count = length (nw_nodes v),
     nr_edge_count = length (nw_edges v)\<rparr>"

text \<open>\<open>labels\<close> is empty when the parameter is missing.\<close>

definition network :: "library \<Rightarrow> corpus \<Rightarrow> uuid \<Rightarrow> string \<Rightarrow> string list \<Rightarrow> nat \<Rightarrow> api_error + network_response" where
  "network lib c user view labels min_papers =
     (if min_papers < 1 \<or> 50 < min_papers then Inl Unprocessable
      else if view \<notin> set VIEWS
      then Inl (Raised (InvalidInputError (''Unknown view '' @ repr_of lib (PyStr view) @ ''. Choose one of: '' @ join '', '' VIEWS)))
      else if labels \<noteq> [] \<and> \<not> set labels \<subseteq> set known_labels
      then Inl (Raised (InvalidInputError (''Unknown label(s): '' @ sorted_names (remdups (filter (\<lambda>l. l \<notin> set known_labels) labels)))))
      else
        let ids = accessible_paper_ids (co_db c) user in
        Inr (to_response view
          (if view = ''citations'' then citation_network (co_db c) (co_refs c) ids 80
           else if view = ''authors'' then coauthorship_network (co_db c) ids 60
           else entity_network (co_db c) (co_entities c) ids labels min_papers 60)))"

subsection \<open>Neighbors and questions\<close>

record neighbor_payload =
  nb_label :: string
  nb_key :: string
  nb_name :: string
  nb_relationship :: string
  nb_distance :: nat

record neighbors_response =
  nn_label :: string
  nn_key :: string
  nn_neighbors :: "neighbor_payload list"

definition neighbor_payload_of :: "library \<Rightarrow> (nat \<Rightarrow> props) \<Rightarrow> hit \<Rightarrow> neighbor_payload" where
  "neighbor_payload_of lib heap h =
     \<lparr>nb_label = n_label (h_node h), nb_key = n_key (h_node h),
      nb_name = py_str lib (case dget (heap (n_props (h_node h))) ''name'' of None \<Rightarrow> PyStr (n_key (h_node h)) | Some v \<Rightarrow> v),
      nb_relationship = h_rel h, nb_distance = h_dist h\<rparr>"

definition neighbors_of ::
    "library \<Rightarrow> (string list \<Rightarrow> string list) \<Rightarrow> graph_store \<Rightarrow> uuid \<Rightarrow> string \<Rightarrow> string \<Rightarrow> int \<Rightarrow> int \<Rightarrow> api_error + neighbors_response" where
  "neighbors_of lib it store user label key depth limit =
     (if key = [] \<or> 255 < length key \<or> depth < 1 \<or> 3 < depth \<or> limit < 1 \<or> 200 < limit then Inl Unprocessable
      else if label \<notin> set known_labels then Inl (Raised (InvalidInputError (''Unknown node label: '' @ repr_of lib (PyStr label))))
      else
        (case neighbors it store label key depth [] limit of
           Inl e \<Rightarrow> Inl (Raised (Unhandled e))
         | Inr hits \<Rightarrow> Inr \<lparr>nn_label = label, nn_key = key, nn_neighbors = map (neighbor_payload_of lib (g_heap store)) hits\<rparr>))"

definition graph_query :: "nat \<Rightarrow> run_read \<Rightarrow> uuid \<Rightarrow> string \<Rightarrow> 'w llm \<Rightarrow> (api_error + graph_query_result) \<times> 'w llm" where
  "graph_query row_limit run user question gw =
     (if question = [] \<or> 1000 < length question then (Inl Unprocessable, gw)
      else let (r, gw) = answer_graph_question row_limit run question gw in
        (Inr \<lparr>gq_question = gq_question r, gq_cypher = gq_cypher r, gq_rows = gq_rows r, gq_error = gq_error r\<rparr>, gw))"

subsection \<open>Networks of the caller's own papers\<close>

text \<open>The overview and the networks are computed from the caller's own rows, and a network asked for with a
  view or a label that does not exist is refused with the status 422, whatever the tables hold; every
  other request with parameters in their bounds is answered, with counts that are those of its lists.\<close>

theorem networks_of_own_rows:
  "overview (own_rows user c) store user = overview c store user
   \<and> network lib (own_rows user c) user view labels n = network lib c user view labels n
   \<and> (case network lib c user view labels n of
        Inr r \<Rightarrow> 1 \<le> n \<and> n \<le> 50 \<and> nr_view r = view \<and> view \<in> set VIEWS \<and> set labels \<subseteq> set known_labels
          \<and> nr_node_count r = length (nr_nodes r) \<and> nr_edge_count r = length (nr_edges r)
      | Inl Unprocessable \<Rightarrow> n = 0 \<or> 50 < n
      | Inl (Raised e) \<Rightarrow> status_code e = 422 \<and> (view \<notin> set VIEWS \<or> \<not> set labels \<subseteq> set known_labels))"
proof (intro conjI)
  show "overview (own_rows user c) store user = overview c store user"
    by (simp add: overview_def Let_def cooccurrences.whole_library connections.whole_library del: keep_rows_simps)
  show "network lib (own_rows user c) user view labels n = network lib c user view labels n"
    by (simp add: network_def Let_def citations.whole_library coauthors.whole_library shared_entities.whole_library)
  show "case network lib c user view labels n of
        Inr r \<Rightarrow> 1 \<le> n \<and> n \<le> 50 \<and> nr_view r = view \<and> view \<in> set VIEWS \<and> set labels \<subseteq> set known_labels
          \<and> nr_node_count r = length (nr_nodes r) \<and> nr_edge_count r = length (nr_edges r)
      | Inl Unprocessable \<Rightarrow> n = 0 \<or> 50 < n
      | Inl (Raised e) \<Rightarrow> status_code e = 422 \<and> (view \<notin> set VIEWS \<or> \<not> set labels \<subseteq> set known_labels)"
    by (auto simp: network_def Let_def to_response_def status_code_def)
qed

subsection \<open>What the graph shows to everybody\<close>

text \<open>Alice's paper, in the graph; Bob owns nothing.\<close>

definition alices_paper :: graph_node where
  "alices_paper = \<lparr>n_label = ''Paper'', n_key = ''p1'', n_props = 1\<rparr>"

definition squad_node :: graph_node where
  "squad_node = \<lparr>n_label = ''Dataset'', n_key = ''squad'', n_props = 2\<rparr>"

definition uses_squad :: graph_rel where
  "uses_squad = \<lparr>r_type = ''USES_DATASET'', r_start = alices_paper, r_end = squad_node, r_props = 3\<rparr>"

definition alices_graph :: graph_store where
  "alices_graph =
     fst (upsert_relationships [uses_squad]
       (empty_store\<lparr>g_heap := (\<lambda>_. [])(1 := [(''name'', PyStr ''Unpublished draft'')], 2 := [(''name'', PyStr ''SQuAD'')])\<rparr>))"

definition alices_corpus :: corpus where
  "alices_corpus = \<lparr>co_db = \<lparr>db_workspaces = [\<lparr>w_id = 1, w_owner = 10\<rparr>, \<lparr>w_id = 2, w_owner = 20\<rparr>],
       db_papers = [one_paper\<lparr>p_workspace := 1\<rparr>], db_chunks = []\<rparr>,
     co_results = [], co_entities = [], co_refs = []\<rparr>"

lemma uses_squad_ends:
  "r_type uses_squad = ''USES_DATASET''" "r_start uses_squad = alices_paper" "r_end uses_squad = squad_node"
  "n_label alices_paper = ''Paper''" "n_key alices_paper = ''p1''" "n_props alices_paper = 1" "n_label squad_node = ''Dataset''"
  "node_uid alices_paper = ''Paper:p1''" "node_uid squad_node = ''Dataset:squad''"
  by (simp_all add: uses_squad_def alices_paper_def squad_node_def node_uid_def)

lemma alices_graph_eq:
  "g_nodes alices_graph = [(''Paper:p1'', alices_paper), (''Dataset:squad'', squad_node)]"
  "g_edges alices_graph = [(rel_uid uses_squad, uses_squad)]"
  "g_out alices_graph = (\<lambda>_. [])(''Paper:p1'' := [rel_uid uses_squad])"
  "g_in alices_graph = (\<lambda>_. [])(''Dataset:squad'' := [rel_uid uses_squad])"
  "g_heap alices_graph 1 = [(''name'', PyStr ''Unpublished draft'')]"
  by (simp_all add: alices_graph_def upsert_relationships_def upsert_relationship_def setdefault_node_def empty_store_def register_edge_def
      uses_squad_ends Let_def set_add_def)

lemma squad_key: "normalize_key ''squad'' = ''squad''"
  by (simp add: normalize_key_def lower_def lower_char_def code_pt_def is_space_def Let_def strip_by_def key_strip_char_def)

text \<open>The walk does not ask whose the papers are: Bob (20), who can read no paper, is shown the title of Alice's
  when he asks for the neighbors of a data set she uses, and the overview counts the nodes of everybody.\<close>

theorem neighbors_of_all_users:
  "ov_papers (overview alices_corpus alices_graph 20) = 0
   \<and> ov_counts (overview alices_corpus alices_graph 20) = [(''Paper'', 1), (''Dataset'', 1), (''_relationships'', 1)]
   \<and> map_sum id (\<lambda>r. map nb_name (nn_neighbors r)) (neighbors_of lib id alices_graph 20 ''Dataset'' ''squad'' 1 50) = Inr [''Unpublished draft'']"
proof (intro conjI)
  show "ov_papers (overview alices_corpus alices_graph 20) = 0"
    by (simp add: overview_def alices_corpus_def accessible_paper_ids_def one_paper_def)
  show "ov_counts (overview alices_corpus alices_graph 20) = [(''Paper'', 1), (''Dataset'', 1), (''_relationships'', 1)]"
    by (simp add: overview_def Let_def alices_graph_eq counts_def uses_squad_ends)
  show "map_sum id (\<lambda>r. map nb_name (nn_neighbors r)) (neighbors_of lib id alices_graph 20 ''Dataset'' ''squad'' 1 50) = Inr [''Unpublished draft'']"
    by (simp add: neighbors_of_def neighbors_def squad_key Let_def alices_graph_eq [simplified] uses_squad_ends known_labels_def all_labels_def py_take_def neighbor_payload_of_def py_str_def)
qed

end
