(* ===== verification/Bibliography.thy ===== *)
theory Bibliography
  imports Ingest Captures
begin

section \<open>The bibliography of a paper (ingestion/references.py)\<close>

text \<open>
  Finding the references section, splitting it into entries, and the identifiers, year and guessed
  title of each.  The patterns are terms of \<open>rx\<close>; under \<open>re.IGNORECASE\<close> letters are compared in lower
  case.
\<close>

subsection \<open>Patterns\<close>

definition digit :: rx where "digit = Cls is_digit"
definition spaces :: rx where "spaces = star (Cls is_space)"
definition spaces1 :: rx where "spaces1 = plus (Cls is_space)"

definition letter :: "char \<Rightarrow> bool" where
  "letter c \<longleftrightarrow> (let n = code_pt c in (65 \<le> n \<and> n \<le> 90) \<or> (97 \<le> n \<and> n \<le> 122))"

definition upper_letter :: "char \<Rightarrow> bool" where
  "upper_letter c \<longleftrightarrow> 65 \<le> code_pt c \<and> code_pt c \<le> 90"

definition heading_number :: "rx list \<Rightarrow> rx" where
  "heading_number rs = opt (cats [alts rs, opt (one_of '').)''), spaces])"

definition REFERENCES_HEADING :: rx where
  "REFERENCES_HEADING = cats
     [LineStart, spaces, heading_number [plus (one_of ''IVXLC''), plus digit],
      Cap 1 (alts [lit ''REFERENCES'', lit ''References'', lit ''REFERENCE'', lit ''Bibliography'', lit ''BIBLIOGRAPHY'', lit ''Works Cited'']),
      spaces, LineEnd]"

definition POST_REFERENCES_HEADING :: rx where
  "POST_REFERENCES_HEADING = cats
     [LineStart, spaces, heading_number [plus (one_of ''IVXLC''), plus digit, Cls upper_letter],
      Cap 1 (alts [lit ''APPENDIX'', lit ''Appendix'', lit ''APPENDICES'', lit ''Supplementary'', lit ''SUPPLEMENTARY'']), WordBoundary]"

definition up_to_three :: rx where
  "up_to_three = Cat digit (upto_n 2 digit)"

definition NUMBERED_ENTRY :: rx where
  "NUMBERED_ENTRY = cats
     [LineStart, spaces,
      alts [cats [chr CHR ''['', Cap 1 up_to_three, chr CHR '']''], cats [chr CHR ''('', Cap 2 up_to_three, chr CHR '')''],
            cats [Cap 3 up_to_three, chr CHR ''.'']],
      spaces1]"

definition doi_char :: "char \<Rightarrow> bool" where
  "doi_char c \<longleftrightarrow> c \<in> set ''-._;()/:'' \<or> letter c \<or> is_digit c"

definition DOI_PATTERN :: rx where
  "DOI_PATTERN = Cat WordBoundary
     (Cap 1 (cats [lit ''10.'', digit, digit, digit, digit, upto_n 5 digit, chr CHR ''/'', plus (Cls doi_char)]))"

definition version :: rx where
  "version = opt (Cat (ilit ''v'') (plus digit))"

definition ARXIV_PATTERN :: rx where
  "ARXIV_PATTERN = cats
     [WordBoundary, ilit ''arxiv'', Cls (\<lambda>c. c = CHR '':'' \<or> is_space c), spaces,
      Cap 1 (Alt (cats [digit, digit, digit, digit, chr CHR ''.'', digit, digit, digit, digit, upto_n 1 digit, version])
        (cats [plus (Cls (\<lambda>c. letter c \<or> c = CHR ''-'')), opt (cats [chr CHR ''.'', Cls letter, Cls letter]), chr CHR ''/'',
               digit, digit, digit, digit, digit, digit, digit, version]))]"

definition YEAR_PATTERN :: rx where
  "YEAR_PATTERN = cats
     [WordBoundary,
      Cap 1 (Alt (cats [chr CHR ''1'', one_of ''89'', digit, digit])
                 (cats [lit ''20'', Cls (\<lambda>c. c \<in> set ''01234''), digit])),
      WordBoundary]"

definition BLANK_LINE :: rx where
  "BLANK_LINE = cats [chr (CHR 0x0A), spaces, chr (CHR 0x0A)]"

definition MIN_ENTRY_LENGTH :: nat where "MIN_ENTRY_LENGTH = 20"
definition MAX_ENTRY_LENGTH :: nat where "MAX_ENTRY_LENGTH = 2000"
definition MAX_REFERENCES :: nat where "MAX_REFERENCES = 500"

subsection \<open>The section and its entries\<close>

definition clean :: "string \<Rightarrow> string" where
  "clean s = strip (re_sub spaces1 '' '' s)"

text \<open>The text after the last match, which is what \<open>scan\<close> leaves.\<close>

definition find_references_section :: "string \<Rightarrow> string option" where
  "find_references_section text =
     (let (ms, after) = scan REFERENCES_HEADING [] text in
      if ms = [] then None
      else
        let section = (case search_from POST_REFERENCES_HEADING [] after of
               None \<Rightarrow> after
             | Some (skipped, _) \<Rightarrow> take (length skipped) after) in
        if strip section = [] then None else Some (strip section))"

definition trim_doi :: "string \<Rightarrow> string" where
  "trim_doi s = rev (dropWhile (\<lambda>c. c \<in> set ''.,;)]}>'') (rev s))"

text \<open>An entry reaches from the end of its marker to the start of the next one.\<close>

definition split_numbered :: "string \<Rightarrow> string list" where
  "split_numbered section =
     (let (ms, rest) = scan NUMBERED_ENTRY [] section in
      if length ms < 2 then [] else tl (map fst ms) @ [rest])"

definition split_unnumbered :: "string \<Rightarrow> string list" where
  "split_unnumbered section = filter (\<lambda>b. strip b \<noteq> []) (re_split BLANK_LINE section)"

subsection \<open>The title\<close>

definition looks_like_authors :: "string \<Rightarrow> bool" where
  "looks_like_authors segment \<longleftrightarrow>
     2 \<le> length (re_findall (cats [WordBoundary, Cls upper_letter, chr CHR ''.'']) segment)
     \<or> re_found (cats [WordBoundary, ilit ''et al'', opt (chr CHR ''.'')]) segment \<and> length segment < 60"

definition looks_like_venue :: "string \<Rightarrow> bool" where
  "looks_like_venue segment \<longleftrightarrow>
     re_match_at_start (cats [StartOfText,
       Cap 1 (alts [lit ''In'', lit ''Proceedings'', lit ''Proc.'', lit ''Journal'', lit ''Trans.'', lit ''Advances'', lit ''IEEE'', lit ''ACM'',
                    Cat (lit ''Vol'') (opt (chr CHR ''.'')), Cat (lit ''pp'') (opt (chr CHR ''.''))]),
       WordBoundary]) segment"

definition without_identifiers :: "string \<Rightarrow> string" where
  "without_identifiers entry =
     re_sub (cats [WordBoundary, alts [ilit ''doi'', ilit ''arxiv'', ilit ''url'', Cat (ilit ''http'') (opt (ilit ''s''))],
                   star (Cls (\<lambda>c. \<not> is_space c))]) []
       (re_sub ARXIV_PATTERN [] (re_sub DOI_PATTERN [] entry))"

definition candidate :: "string \<Rightarrow> string" where
  "candidate segment = strip_by (\<lambda>c. c \<in> set '' .,;:'') (clean segment)"

definition acceptable_title :: "string \<Rightarrow> bool" where
  "acceptable_title t \<longleftrightarrow> \<not> length t < 15 \<and> \<not> (looks_like_authors t \<or> looks_like_venue t)"

definition guess_title :: "string \<Rightarrow> string option" where
  "guess_title entry =
     map_option (take 500) (find acceptable_title
       (map candidate (re_split (Cat (Behind True (\<lambda>c. c \<in> set ''.?'')) spaces1) (without_identifiers entry))))"

subsection \<open>The references\<close>

definition found_group :: "rx \<Rightarrow> string \<Rightarrow> string option" where
  "found_group r text = map_option (\<lambda>(m, k). group 1 k) (re_search r text)"

definition reference_of :: "nat \<Rightarrow> string \<Rightarrow> parsed_reference" where
  "reference_of order text =
     \<lparr>rf_order = order, rf_raw = text, rf_doi = map_option trim_doi (found_group DOI_PATTERN text),
      rf_arxiv = found_group ARXIV_PATTERN text, rf_year = map_option (\<lambda>y. int (nat_of_digits y)) (found_group YEAR_PATTERN text),
      rf_title = guess_title text\<rparr>"

fun add_references :: "string list \<Rightarrow> parsed_reference list \<Rightarrow> parsed_reference list" where
  "add_references [] refs = refs"
| "add_references (raw # raws) refs =
     (let text = clean raw in
      if length text < MIN_ENTRY_LENGTH then add_references raws refs
      else
        let refs = refs @ [reference_of (length refs + 1) (take MAX_ENTRY_LENGTH text)] in
        if MAX_REFERENCES \<le> length refs then refs else add_references raws refs)"

definition raw_entries :: "string \<Rightarrow> string list" where
  "raw_entries section = (if split_numbered section \<noteq> [] then split_numbered section else split_unnumbered section)"

definition parse_references :: "string \<Rightarrow> parsed_reference list" where
  "parse_references text =
     (case find_references_section text of None \<Rightarrow> [] | Some section \<Rightarrow> add_references (raw_entries section) [])"

subsection \<open>What a found group is\<close>

lemma found_group_captured:
  assumes "found_group r text = Some w" "always_set 1 r"
  shows "cap_ok r text (1, w)"
proof -
  from assms(1) obtain sk m k p t where f: "search_from r [] text = Some (sk, m, k, p, t)" and w: "w = group 1 k"
    by (auto simp: found_group_def re_search_def)
  note c = search_from_consumes [OF f]
  then have k: "(p, t, k) \<in> set (rmatch r (rev sk @ [], m @ t, []))" and whole: "text = sk @ m @ t" by auto
  have "map_of k 1 \<noteq> None" using rmatch_sets [OF assms(2) k] by (simp add: map_of_eq_None_iff)
  then obtain v where "map_of k 1 = Some v" by blast
  then have "(1, w) \<in> set k" using w by (simp add: group_def map_of_SomeD)
  then have "cap_ok r (m @ t) (1, w)" using rmatch_caps [OF k] by auto
  then show ?thesis unfolding whole by (rule cap_ok_mono) auto
qed

lemma dropWhile_stop: "\<not> P c \<Longrightarrow> dropWhile P (xs @ c # ys) = dropWhile P xs @ c # ys"
  by (induction xs) auto

lemma trim_doi_prefix: "prefix (trim_doi w) w"
  unfolding trim_doi_def by (metis prefix_def rev_append rev_rev_ident takeWhile_dropWhile_id)

lemma caps_DOI: "caps DOI_PATTERN = {(1, cats [lit ''10.'', digit, digit, digit, digit, upto_n 5 digit, chr CHR ''/'', plus (Cls doi_char)])}"
  using caps_upto_n [of 5 digit] by (auto simp: DOI_PATTERN_def digit_def chr_def plus_def simp del: lit.simps upto_n.simps)

lemma doi_found:
  assumes "found_group DOI_PATTERN t = Some w"
  shows "prefix ''10.'' (trim_doi w) \<and> sublist (trim_doi w) t"
proof -
  have "always_set 1 DOI_PATTERN" by (simp add: DOI_PATTERN_def)
  from found_group_captured [OF assms this]
  have w: "in_lang (cats [lit ''10.'', digit, digit, digit, digit, upto_n 5 digit, chr CHR ''/'', plus (Cls doi_char)]) w" "sublist w t"
    by (auto simp: cap_ok_def caps_DOI)
  then obtain u v where uv: "w = ''10.'' @ u @ CHR ''/'' # v"
  proof -
    obtain a b d where "w = ''10.'' @ a @ b @ d" "in_lang (chr CHR ''/'') b"
      using w(1) by (simp add: in_lang_simps(3) in_lang_lit del: lit.simps upto_n.simps) (metis append.assoc)
    then show ?thesis using that [of a d] by (auto simp: chr_def in_lang_simps)
  qed
  have "trim_doi w = ''10.'' @ u @ CHR ''/'' # rev (dropWhile (\<lambda>c. c \<in> set ''.,;)]}>'') (rev v))"
    unfolding uv trim_doi_def by (simp add: dropWhile_stop)
  then have "prefix ''10.'' (trim_doi w)" by simp
  moreover have "sublist (trim_doi w) t"
    using trim_doi_prefix [THEN prefix_imp_sublist] w(2) by (rule sublist_order.order.trans)
  ultimately show ?thesis ..
qed

lemma arxiv_found: "found_group ARXIV_PATTERN t = Some w \<Longrightarrow> sublist w t"
  using found_group_captured [of ARXIV_PATTERN t w] by (simp add: ARXIV_PATTERN_def cap_ok_def)

lemma caps_YEAR: "caps YEAR_PATTERN = {(1, Alt (cats [chr CHR ''1'', one_of ''89'', digit, digit]) (cats [lit ''20'', Cls (\<lambda>c. c \<in> set ''01234''), digit]))}"
  by (simp add: YEAR_PATTERN_def chr_def one_of_def digit_def)

lemma code_pt_digits:
  "code_pt CHR ''0'' = 48" "code_pt CHR ''1'' = 49" "code_pt CHR ''2'' = 50" "code_pt CHR ''3'' = 51" "code_pt CHR ''4'' = 52"
  "code_pt CHR ''8'' = 56" "code_pt CHR ''9'' = 57"
  by (simp_all add: code_pt_def)

lemma year_found:
  assumes "found_group YEAR_PATTERN t = Some w"
  shows "sublist w t \<and> length w = 4 \<and> list_all is_digit w \<and> 1800 \<le> nat_of_digits w \<and> nat_of_digits w < 2050"
proof -
  have "always_set 1 YEAR_PATTERN" by (simp add: YEAR_PATTERN_def)
  from found_group_captured [OF assms this]
  have w: "in_lang (Alt (cats [chr CHR ''1'', one_of ''89'', digit, digit]) (cats [lit ''20'', Cls (\<lambda>c. c \<in> set ''01234''), digit])) w" "sublist w t"
    by (auto simp: cap_ok_def caps_YEAR)
  then consider c d e where "w = [CHR ''1'', c, d, e]" "c = CHR ''8'' \<or> c = CHR ''9''" "is_digit d" "is_digit e"
    | c d where "w = [CHR ''2'', CHR ''0'', c, d]" "c \<in> set ''01234''" "is_digit d"
    by (auto simp: chr_def one_of_def digit_def in_lang_simps)
  then show ?thesis
    using w(2) by cases (auto simp: nat_of_digits_def is_digit_def Let_def code_pt_digits)
qed

lemma title_found:
  assumes "guess_title t = Some w"
  shows "\<exists>c. w = take 500 c \<and> 15 \<le> length c \<and> \<not> looks_like_authors c \<and> \<not> looks_like_venue c"
  using assms by (auto simp: guess_title_def find_Some_iff acceptable_title_def)

subsection \<open>Entries are parts of the text\<close>

lemma scan_parts:
  assumes "scan r p s = (ms, rest)"
  shows "sublist rest s" "(sk, m, k) \<in> set ms \<Longrightarrow> sublist sk s"
proof -
  have s: "concat (map (\<lambda>(sk, m, k). sk @ m) ms) @ rest = s" by (rule scan_text [OF assms])
  then show "sublist rest s" by (metis sublist_append_leftI)
  assume "(sk, m, k) \<in> set ms"
  then obtain xs ys where "ms = xs @ (sk, m, k) # ys" by (metis split_list)
  then have "s = concat (map (\<lambda>(sk, m, k). sk @ m) xs) @ sk @ (m @ concat (map (\<lambda>(sk, m, k). sk @ m) ys) @ rest)"
    using s by simp
  then show "sublist sk s" by (metis sublist_appendI)
qed

lemma numbered_parts: "e \<in> set (split_numbered sec) \<Longrightarrow> sublist e sec"
  using scan_parts [of NUMBERED_ENTRY "[]" sec]
  by (cases "scan NUMBERED_ENTRY [] sec") (auto simp: split_numbered_def split: if_splits dest!: list.set_sel(2) [rotated])

lemma unnumbered_parts: "e \<in> set (split_unnumbered sec) \<Longrightarrow> sublist e sec"
proof -
  assume "e \<in> set (split_unnumbered sec)"
  then have "e \<in> set (re_split BLANK_LINE sec)" by (simp add: split_unnumbered_def)
  then show ?thesis using scan_parts [of BLANK_LINE "[]" sec] by (cases "scan BLANK_LINE [] sec") (auto simp: re_split_def)
qed

lemma section_part:
  assumes "find_references_section t = Some sec"
  shows "sublist sec t"
proof -
  obtain ms after where m: "scan REFERENCES_HEADING [] t = (ms, after)" by fastforce
  from assms obtain n where "sec = strip (take n after) \<or> sec = strip after"
    by (auto simp: find_references_section_def m Let_def split: if_splits option.splits)
  moreover have "sublist (take n after) after" by simp
  ultimately have "sublist sec after" using strip_by_sublist [of is_space] by (auto intro: sublist_order.order.trans)
  then show ?thesis using scan_parts(1) [OF m] by (rule sublist_order.order.trans)
qed

lemma raw_entry_part: "find_references_section t = Some sec \<Longrightarrow> e \<in> set (raw_entries sec) \<Longrightarrow> sublist e t"
    by (cases "split_numbered sec = []")
     (auto simp: raw_entries_def intro: sublist_order.order.trans [OF unnumbered_parts section_part] sublist_order.order.trans [OF numbered_parts section_part])

lemma clean_words: "clean s = join '' '' (words s)"
  by (simp add: clean_def spaces1_def strip_collapse_spaces)

subsection \<open>The loop\<close>

text \<open>The entries that count, in order, at most as many as are wanted.\<close>

definition usable_entries :: "string list \<Rightarrow> string list" where
  "usable_entries raws = filter (\<lambda>t. MIN_ENTRY_LENGTH \<le> length t) (map clean raws)"

lemma add_references_eq:
  assumes "length refs < MAX_REFERENCES"
  shows "add_references raws refs =
    refs @ map (\<lambda>(i, t). reference_of i (take MAX_ENTRY_LENGTH t))
      (enumerate (length refs + 1) (take (MAX_REFERENCES - length refs) (usable_entries raws)))"
  using assms
proof (induction raws refs rule: add_references.induct)
  case (1 refs)
  then show ?case by (simp add: usable_entries_def)
next
  case (2 raw raws refs)
  show ?case
  proof (cases "length (clean raw) < MIN_ENTRY_LENGTH")
    case True
    then show ?thesis using "2.IH"(1) "2.prems" by (simp add: usable_entries_def)
  next
    case False
    have d: "MAX_REFERENCES - length refs = Suc (MAX_REFERENCES - Suc (length refs))" using "2.prems" by simp
    have u: "usable_entries (raw # raws) = clean raw # usable_entries raws" using False by (simp add: usable_entries_def)
    show ?thesis
    proof (cases "MAX_REFERENCES \<le> Suc (length refs)")
      case True
      then show ?thesis using False "2.prems" d u by (simp add: Let_def)
    next
      case more: False
      then show ?thesis using "2.IH"(2) [OF refl False refl] False d u by (simp add: Let_def)
    qed
  qed
qed

text \<open>What a stored reference promises about the text of the paper.\<close>

definition reference_ok :: "string \<Rightarrow> parsed_reference \<Rightarrow> bool" where
  "reference_ok t r \<longleftrightarrow>
     20 \<le> length (rf_raw r) \<and> length (rf_raw r) \<le> 2000 \<and> (\<exists>e. sublist e t \<and> rf_raw r = take 2000 (join '' '' (words e)))
     \<and> (case rf_doi r of None \<Rightarrow> True | Some d \<Rightarrow> prefix ''10.'' d \<and> sublist d (rf_raw r))
     \<and> (case rf_arxiv r of None \<Rightarrow> True | Some a \<Rightarrow> sublist a (rf_raw r))
     \<and> (case rf_year r of None \<Rightarrow> True
          | Some y \<Rightarrow> 1800 \<le> y \<and> y < 2050 \<and> (\<exists>w. sublist w (rf_raw r) \<and> length w = 4 \<and> list_all is_digit w \<and> y = int (nat_of_digits w)))
     \<and> (case rf_title r of None \<Rightarrow> True
          | Some w \<Rightarrow> \<exists>c. w = take 500 c \<and> 15 \<le> length c \<and> \<not> looks_like_authors c \<and> \<not> looks_like_venue c)"

lemma reference_of_ok:
  assumes "sublist e t" "20 \<le> length (clean e)"
  shows "reference_ok t (reference_of i (take 2000 (clean e)))"
proof -
  let ?r = "take 2000 (clean e)"
  have "20 \<le> length ?r" "length ?r \<le> 2000" using assms(2) by simp_all
  moreover have "\<exists>e. sublist e t \<and> ?r = take 2000 (join '' '' (words e))" using assms(1) by (auto simp: clean_words)
  moreover have "case found_group YEAR_PATTERN ?r of None \<Rightarrow> True | Some w \<Rightarrow> 1800 \<le> int (nat_of_digits w) \<and> int (nat_of_digits w) < 2050
      \<and> sublist w ?r \<and> length w = 4 \<and> list_all is_digit w"
    using year_found [of ?r] by (auto split: option.split)
  ultimately show ?thesis
    using doi_found [of ?r] arxiv_found [of ?r] title_found [of ?r]
    by (auto simp: reference_ok_def reference_of_def split: option.splits)
qed

definition used_entries :: "string \<Rightarrow> string list" where
  "used_entries sec = take 500 (usable_entries (raw_entries sec))"

lemma references_eq:
  "parse_references t = (case find_references_section t of None \<Rightarrow> []
     | Some sec \<Rightarrow> map (\<lambda>(i, u). reference_of i (take 2000 u)) (enumerate 1 (used_entries sec)))"
  using add_references_eq [of "[]"]
  by (simp add: parse_references_def used_entries_def MAX_REFERENCES_def MAX_ENTRY_LENGTH_def split: option.split)

lemma references_ok: "list_all (reference_ok t) (parse_references t)"
proof (cases "find_references_section t")
  case (Some sec)
  have "reference_ok t (reference_of i (take 2000 u))" if "(i, u) \<in> set (enumerate 1 (used_entries sec))" for i u
  proof -
    have "u \<in> set (used_entries sec)" using that by (metis enumerate_eq_zip set_zip_rightD)
    then obtain e where "e \<in> set (raw_entries sec)" "u = clean e" "20 \<le> length u"
      by (auto simp: used_entries_def usable_entries_def MIN_ENTRY_LENGTH_def dest!: in_set_takeD)
    then show ?thesis using reference_of_ok raw_entry_part [OF Some] by blast
  qed
  then show ?thesis by (auto simp: references_eq Some list_all_iff)
qed (simp add: references_eq)

text \<open>C31: Every reference found is there.  The references of a paper are numbered from one, at most 500, and are
  exactly the usable entries of its bibliography in order; the text of each is a part of the paper
  with its white space normalised, of 20 to 2000 characters; its DOI, which begins with 10., its arXiv
  number and its year, between 1800 and 2049, are written in it; and a title is a segment of at least
  15 characters that looks like neither authors nor a venue.\<close>

theorem parse_references_sound:
  "list_all (reference_ok t) (parse_references t)
   \<and> map rf_order (parse_references t) = [1..<length (parse_references t) + 1]
   \<and> length (parse_references t) \<le> 500
   \<and> map rf_raw (parse_references t) =
       (case find_references_section t of
          None \<Rightarrow> []
        | Some sec \<Rightarrow> map (take 2000) (take 500 (filter (\<lambda>e. 20 \<le> length e) (map (\<lambda>e. join '' '' (words e)) (raw_entries sec)))))"
proof (cases "find_references_section t")
  case None
  then show ?thesis by (simp add: references_eq)
next
  case (Some sec)
  define us where "us = used_entries sec"
  have refs: "parse_references t = map (\<lambda>(i, u). reference_of i (take 2000 u)) (enumerate 1 us)"
    by (simp add: references_eq Some us_def)
  have "map rf_order (parse_references t) = map fst (enumerate 1 us)"
    unfolding refs map_map by (rule map_cong) (auto simp: reference_of_def)
  then have 2: "map rf_order (parse_references t) = [1..<length (parse_references t) + 1]" by (simp add: refs)
  have 3: "length (parse_references t) \<le> 500" by (simp add: refs us_def used_entries_def)
  have "map rf_raw (parse_references t) = map (take 2000) (map snd (enumerate 1 us))"
    unfolding refs map_map by (rule map_cong) (auto simp: reference_of_def)
  then have 4: "map rf_raw (parse_references t) = map (take 2000) us" by simp
  have 5: "clean = (\<lambda>e. join '' '' (words e))" by (rule ext) (rule clean_words)
  show ?thesis using references_ok 2 3 4 Some
    by (simp add: us_def used_entries_def usable_entries_def MIN_ENTRY_LENGTH_def 5)
qed

subsection \<open>Wrong years\<close>

text \<open>The year is the first number that looks like one: of a preprint that is the beginning of its arXiv number,
  for which no year of publication has to be given at all.\<close>

theorem year_of_arxiv_number:
  "rf_year (reference_of 1 ''J. Devlin. BERT. arXiv:1810.04805, 2018.'') = Some 1810
   \<and> rf_year (reference_of 1 ''J. Devlin. BERT. arXiv:1907.11692'') = Some 1907"
proof -
  have "found_group YEAR_PATTERN ''J. Devlin. BERT. arXiv:1810.04805, 2018.'' = Some ''1810''"
    "found_group YEAR_PATTERN ''J. Devlin. BERT. arXiv:1907.11692'' = Some ''1907''" by code_simp+
  then show ?thesis by (simp add: reference_of_def nat_of_digits_def code_pt_def)
qed

end
