(* ===== verification/PageAssets.thy ===== *)
theory PageAssets
  imports Bibliography
begin

section \<open>Tables, figures and OCR (ingestion/assets.py, ingestion/ocr.py)\<close>

text \<open>
  What PyMuPDF reads from a page is data of the model (\<open>pdf_page\<close>): texts, blocks and tables, each an
  exception where the call raises.  The conversion of an image, the rendering of a page and Tesseract
  are parameters.  Coordinates are reals.  The long dash a caption may have after its number lies
  outside Latin-1.
\<close>

subsection \<open>Pages\<close>

record text_block =
  bx_top :: real
  bx_bottom :: real
  bx_text :: string

record dict_line =
  li_spans :: "(string \<times> real) list"
  li_top :: real

type_synonym bbox = "real \<times> real \<times> real \<times> real"

record dict_block =
  bl_type :: int
  bl_lines :: "dict_line list"
  bl_bbox :: bbox
  bl_image :: "nat list option"

record found_table =
  ft_rows :: "string option list list res"
  ft_bbox :: bbox

record pdf_page =
  pp_text :: string
  pp_blocks :: "text_block list res"
  pp_dict :: "dict_block list res"
  pp_tables :: "found_table list res"
  pp_height :: real
  pp_png :: "nat \<Rightarrow> nat list"

subsection \<open>Tables as Markdown\<close>

definition text_or_empty :: "string option \<Rightarrow> string" where
  "text_or_empty v = (case v of None \<Rightarrow> [] | Some s \<Rightarrow> s)"

definition escape_bars :: "string \<Rightarrow> string" where
  "escape_bars s = concat (map (\<lambda>c. if c = CHR ''|'' then [CHR 0x5C, CHR ''|''] else [c]) s)"

definition table_line :: "string list \<Rightarrow> string" where
  "table_line cells = ''| '' @ join '' | '' cells @ '' |''"

definition row_width :: "string option list list \<Rightarrow> nat" where
  "row_width rows = Max (set (map length rows))"

definition normalized_row :: "nat \<Rightarrow> string option list \<Rightarrow> string list" where
  "normalized_row width row = map (\<lambda>c. escape_bars (clean (text_or_empty c))) row @ replicate (width - length row) []"

definition cells_to_markdown :: "string option list list \<Rightarrow> string" where
  "cells_to_markdown rows =
     (if rows = [] then []
      else
        let width = row_width rows in
        if width = 0 then []
        else
          let normalized = map (normalized_row width) rows in
          join [CHR 0x0A]
            (table_line (hd normalized) # table_line (replicate width ''---'') # map table_line (tl normalized)))"

subsection \<open>Captions\<close>

definition CAPTION_PATTERN :: rx where
  "CAPTION_PATTERN = cats
     [StartOfText, spaces,
      alts [lit ''Table'', lit ''TABLE'', lit ''Figure'', lit ''FIGURE'', Cat (lit ''Fig'') (opt (chr CHR ''.'')), Cat (lit ''FIG'') (opt (chr CHR ''.''))],
      spaces, Cap 1 (Alt (plus digit) (plus (one_of ''IVXLC''))), spaces, opt (one_of ''.:-''), spaces,
      Cap 2 (star (Cls (\<lambda>c. c \<noteq> CHR 0x0A))), EndOfText]"

definition MAX_CAPTION_DISTANCE :: real where "MAX_CAPTION_DISTANCE = 60"
definition MIN_FIGURE_AREA :: real where "MIN_FIGURE_AREA = 5000"
definition MAX_CAPTION_LENGTH :: nat where "MAX_CAPTION_LENGTH = 1000"

definition caption_distance :: "bbox \<Rightarrow> text_block \<Rightarrow> real" where
  "caption_distance bb b = (case bb of (_, y0, _, y1) \<Rightarrow> min \<bar>bx_top b - y1\<bar> \<bar>y0 - bx_bottom b\<bar>)"

definition is_caption :: "bbox \<Rightarrow> string \<Rightarrow> text_block \<Rightarrow> bool" where
  "is_caption bb keyword b \<longleftrightarrow>
     (let text = clean (bx_text b) in
      text \<noteq> [] \<and> re_match_at_start CAPTION_PATTERN text \<and> sublist (lower keyword) (lower (take 12 text))
      \<and> \<not> MAX_CAPTION_DISTANCE < caption_distance bb b)"

definition caption_step :: "bbox \<Rightarrow> string \<Rightarrow> text_block \<Rightarrow> (real \<times> string) option \<Rightarrow> (real \<times> string) option" where
  "caption_step bb keyword b best =
     (if \<not> is_caption bb keyword b then best
      else
        let new = Some (caption_distance bb b, take MAX_CAPTION_LENGTH (clean (bx_text b))) in
        case best of None \<Rightarrow> new | Some (d, _) \<Rightarrow> if caption_distance bb b < d then new else best)"

definition find_caption :: "pdf_page \<Rightarrow> bbox \<Rightarrow> string \<Rightarrow> string option" where
  "find_caption page bb keyword =
     (case pp_blocks page of
        Inl e \<Rightarrow> None
      | Inr blocks \<Rightarrow> map_option snd (fold (caption_step bb keyword) blocks None))"

subsection \<open>Extraction\<close>

definition table_of :: "pdf_page \<Rightarrow> int \<Rightarrow> found_table \<Rightarrow> extracted_table list" where
  "table_of page number t =
     (case ft_rows t of
        Inl e \<Rightarrow> []
      | Inr rows \<Rightarrow>
          let markdown = cells_to_markdown rows in
          if markdown = [] then []
          else [\<lparr>tb_page = number, tb_caption = find_caption page (ft_bbox t) ''table'', tb_markdown = markdown\<rparr>])"

definition extract_tables :: "pdf_page \<Rightarrow> int \<Rightarrow> extracted_table list" where
  "extract_tables page number =
     (case pp_tables page of Inl e \<Rightarrow> [] | Inr found \<Rightarrow> concat (map (table_of page number) found))"

definition figure_of :: "(nat list \<Rightarrow> nat list option) \<Rightarrow> pdf_page \<Rightarrow> int \<Rightarrow> dict_block \<Rightarrow> extracted_figure list" where
  "figure_of to_png page number b =
     (if bl_type b \<noteq> 1 then []
      else case bl_bbox b of (x0, y0, x1, y1) \<Rightarrow>
        if (x1 - x0) * (y1 - y0) < MIN_FIGURE_AREA then []
        else [\<lparr>fg_page = number, fg_caption = find_caption page (bl_bbox b) ''fig'',
               fg_image = (case bl_image b of Some (x # raw) \<Rightarrow> to_png (x # raw) | _ \<Rightarrow> None)\<rparr>])"

text \<open>This call of PyMuPDF is not guarded.\<close>

definition extract_figures :: "(nat list \<Rightarrow> nat list option) \<Rightarrow> pdf_page \<Rightarrow> int \<Rightarrow> extracted_figure list res" where
  "extract_figures to_png page number =
     bind_res (pp_dict page) (\<lambda>blocks. Inr (concat (map (figure_of to_png page number) blocks)))"

subsection \<open>OCR\<close>

definition MIN_CHARS_FOR_TEXT_LAYER :: nat where "MIN_CHARS_FOR_TEXT_LAYER = 100"

datatype ocr_engine = NullOcr | Tesseract string

text \<open>Tesseract, where it is installed: the pages of text it reads from an image in a language.\<close>

type_synonym tesseract = "(string \<Rightarrow> nat list \<Rightarrow> string list res) option"

definition get_ocr_engine :: "bool \<Rightarrow> string \<Rightarrow> ocr_engine" where
  "get_ocr_engine ocr_enabled language = (if \<not> ocr_enabled then NullOcr else Tesseract language)"

definition is_available :: "tesseract \<Rightarrow> ocr_engine \<Rightarrow> bool" where
  "is_available tess e = (case e of NullOcr \<Rightarrow> False | Tesseract l \<Rightarrow> tess \<noteq> None)"

definition image_to_text :: "tesseract \<Rightarrow> ocr_engine \<Rightarrow> nat list \<Rightarrow> string res" where
  "image_to_text tess e img =
     (case e of
        NullOcr \<Rightarrow> Inl (RuntimeErr ''OCR is disabled (OCR_ENABLED=false)'')
      | Tesseract l \<Rightarrow>
          (case tess of
             None \<Rightarrow> Inl (RuntimeErr ''Tesseract is not installed or TESSDATA_PREFIX is unset. Install Tesseract, or set OCR_ENABLED=false to skip scanned pages.'')
           | Some read \<Rightarrow> bind_res (read l img) (\<lambda>ps. Inr (join [CHR 0x0A] ps))))"

text \<open>\<open>RuntimeError\<close>, with its subclasses, and \<open>ValueError\<close>\<close>

definition ocr_caught :: "py_error \<Rightarrow> bool" where
  "ocr_caught e = (case e of RuntimeErr _ \<Rightarrow> True | NotImplementedErr \<Rightarrow> True | ValueError _ \<Rightarrow> True | _ \<Rightarrow> False)"

definition has_text_layer :: "string \<Rightarrow> bool" where
  "has_text_layer t \<longleftrightarrow> \<not> length (strip t) < MIN_CHARS_FOR_TEXT_LAYER"

fun ocr_loop :: "(nat \<Rightarrow> string res) \<Rightarrow> nat list \<Rightarrow> string list \<times> nat \<Rightarrow> (string list \<times> nat) res" where
  "ocr_loop read [] st = Inr st"
| "ocr_loop read (i # is) (updated, recognized) =
     (case read i of
        Inl e \<Rightarrow> if ocr_caught e then ocr_loop read is (updated, recognized) else Inl e
      | Inr t \<Rightarrow> ocr_loop read is (if strip t \<noteq> [] then (updated[i := t], recognized + 1) else (updated, recognized)))"

definition ocr_document :: "tesseract \<Rightarrow> ocr_engine \<Rightarrow> nat \<Rightarrow> pdf_page list \<Rightarrow> string list \<Rightarrow> (string list \<times> nat) res" where
  "ocr_document tess engine dpi document page_texts =
     (let needs_ocr = filter (\<lambda>i. \<not> has_text_layer (page_texts ! i)) [0..<length page_texts] in
      if needs_ocr = [] then Inr (page_texts, 0)
      else if \<not> is_available tess engine then Inr (page_texts, 0)
      else ocr_loop (\<lambda>i. image_to_text tess engine (pp_png (document ! i) dpi)) needs_ocr (page_texts, 0))"

subsection \<open>Reading a table back\<close>

text \<open>A reader of Markdown: cells end at a bar that no backslash escapes.\<close>

fun split_cells :: "string \<Rightarrow> string \<Rightarrow> string list" where
  "split_cells cur [] = [cur]"
| "split_cells cur (c # s) =
     (if c = CHR ''|'' then cur # split_cells [] s
      else if c = CHR 0x5C \<and> s \<noteq> [] \<and> hd s = CHR ''|'' then split_cells (cur @ [CHR ''|'']) (tl s)
      else split_cells (cur @ [c]) s)"

definition read_line :: "string \<Rightarrow> string list" where
  "read_line l = map strip (butlast (tl (split_cells [] l)))"

lemma split_cells_escaped:
  assumes "t = [] \<or> hd t \<noteq> CHR ''|''"
  shows "split_cells cur (escape_bars s @ t) = split_cells (cur @ s) t"
proof (induction s arbitrary: cur)
  case (Cons c s)
  have "escape_bars s @ t = [] \<or> hd (escape_bars s @ t) \<noteq> CHR ''|''"
    using assms by (cases s) (auto simp: escape_bars_def)
  then show ?case using Cons [of "cur @ [c]"] by (auto simp: escape_bars_def)
qed (simp add: escape_bars_def)

lemma split_joined:
  assumes "xs \<noteq> []"
  shows "split_cells cur (join '' | '' (map escape_bars xs) @ '' |'')
    = (case map (\<lambda>x. '' '' @ x @ '' '') xs of y # ys \<Rightarrow> (cur @ tl y) # ys @ [[]] | [] \<Rightarrow> [])"
  using assms
proof (induction xs arbitrary: cur)
  case (Cons x xs)
  show ?case
  proof (cases xs)
    case Nil
    then show ?thesis using split_cells_escaped [of "'' |''" cur x] by simp
  next
    case (Cons x2 ys)
    have "split_cells cur (escape_bars x @ '' | '' @ join '' | '' (map escape_bars xs) @ '' |'')
        = (cur @ x @ '' '') # split_cells '' '' (join '' | '' (map escape_bars xs) @ '' |'')"
      using split_cells_escaped [of "'' | '' @ join '' | '' (map escape_bars xs) @ '' |''" cur x] by simp
    then show ?thesis using Cons.IH Cons by simp
  qed
qed simp

lemma strip_Cons: "P c \<Longrightarrow> strip_by P (c # s) = strip_by P s"
  by (simp add: strip_by_def)

lemma strip_snoc: "P c \<Longrightarrow> strip_by P (s @ [c]) = strip_by P s"
  by (cases "\<forall>x \<in> set s. P x") (auto simp: strip_by_def dropWhile_append dropWhile_eq_Nil_conv dest: set_dropWhileD)

lemma read_table_line:
  assumes "xs \<noteq> []" "list_all (\<lambda>x. strip x = x) xs"
  shows "read_line (table_line (map escape_bars xs)) = xs"
proof -
  have "split_cells [] (table_line (map escape_bars xs)) = [] # map (\<lambda>x. '' '' @ x @ '' '') xs @ [[]]"
    using split_joined [OF assms(1), of "'' ''"] by (cases xs) (auto simp: table_line_def)
  moreover have "strip ('' '' @ x @ '' '') = strip x" for x
    by (simp add: strip_Cons strip_snoc is_space_def code_pt_def)
  ultimately show ?thesis using assms(2) by (simp add: read_line_def list_all_iff cong: map_cong)
qed

text \<open>The cells of a row as they are meant: their white space normalised, missing ones empty.\<close>

definition clean_row :: "nat \<Rightarrow> string option list \<Rightarrow> string list" where
  "clean_row width row = map (\<lambda>c. join '' '' (words (text_or_empty c))) row @ replicate (width - length row) []"

lemma normalized_clean: "normalized_row width row = map escape_bars (clean_row width row)"
  by (simp add: normalized_row_def clean_row_def clean_words escape_bars_def)

lemma clean_tidy: "strip (join '' '' (words t)) = join '' '' (words t)"
  using strip_by_idem [of is_space "re_sub (plus (Cls is_space)) '' '' t"] by (simp add: strip_collapse_spaces)

lemma clean_row_tidy: "list_all (\<lambda>x. strip x = x) (clean_row width row)"
  by (auto simp: clean_row_def list_all_iff clean_tidy) (simp add: strip_by_def)

lemma newline_free_words: "CHR 0x0A \<notin> set (join '' '' (words t))"
proof
  assume "CHR 0x0A \<in> set (join '' '' (words t))"
  then have "CHR 0x0A \<in> set (concat (words t))" using set_join [of "CHR 0x0A" "'' ''" "words t"] by auto
  then show False using words_no_space by (fastforce simp: is_space_def code_pt_def)
qed

lemma newline_free_line:
  assumes "list_all (\<lambda>x. CHR 0x0A \<notin> set x) xs"
  shows "CHR 0x0A \<notin> set (table_line (map escape_bars xs))"
proof
  assume "CHR 0x0A \<in> set (table_line (map escape_bars xs))"
  then have "CHR 0x0A \<in> set (join '' | '' (map escape_bars xs))" by (simp add: table_line_def)
  then have "CHR 0x0A \<in> set (concat (map escape_bars xs))" using set_join [of "CHR 0x0A" "'' | ''" "map escape_bars xs"] by auto
  then show False using assms by (auto simp: escape_bars_def list_all_iff split: if_splits)
qed

lemma clean_row_newline: "list_all (\<lambda>x. CHR 0x0A \<notin> set x) (clean_row width row)"
  by (auto simp: clean_row_def list_all_iff newline_free_words)

lemma escape_dashes: "escape_bars ''---'' = ''---''"
  by (simp add: escape_bars_def)

text \<open>C33: A table survives its Markdown: cut into lines and read back cell by cell, with escaped bars taken as
  text, it has its own rows, each padded to the widest and with the white space of its cells normalised,
  and after the first one a row of dashes.  A table without rows or columns has no Markdown.\<close>

theorem table_markdown_reads_back:
  "if rows \<noteq> [] \<and> row_width rows \<noteq> 0
   then map read_line (split_on (CHR 0x0A) (cells_to_markdown rows))
          = clean_row (row_width rows) (hd rows) # replicate (row_width rows) ''---'' # map (clean_row (row_width rows)) (tl rows)
   else cells_to_markdown rows = []"
proof (cases "rows \<noteq> [] \<and> row_width rows \<noteq> 0")
  case False
  then show ?thesis by (simp only: if_False) (auto simp: cells_to_markdown_def)
next
  case True
  define w where "w = row_width rows"
  obtain r rs where rows: "rows = r # rs" using True by (cases rows) auto
  let ?T = "clean_row w r # replicate w ''---'' # map (clean_row w) rs"
  have md: "cells_to_markdown rows = join [CHR 0x0A] (map (\<lambda>xs. table_line (map escape_bars xs)) ?T)"
    using True rows by (simp add: cells_to_markdown_def w_def normalized_clean escape_dashes comp_def Let_def)
  have wide: "w \<le> length (clean_row w x)" for x by (simp add: clean_row_def)
  have ne: "xs \<noteq> []" if "xs \<in> set ?T" for xs
  proof -
    have "w \<le> length xs" using that wide by auto
    moreover have "0 < w" using True by (simp add: w_def)
    ultimately show ?thesis by auto
  qed
  have tidy: "list_all (\<lambda>x. strip x = x) xs \<and> list_all (\<lambda>x. CHR 0x0A \<notin> set x) xs" if "xs \<in> set ?T" for xs
    using that clean_row_tidy clean_row_newline by (auto simp: list_all_iff strip_by_def is_space_def code_pt_def)
  have lines: "split_on (CHR 0x0A) (cells_to_markdown rows) = map (\<lambda>xs. table_line (map escape_bars xs)) ?T"
  proof -
    have "CHR 0x0A \<notin> set (table_line (map escape_bars xs))" if "xs \<in> set ?T" for xs
      using newline_free_line tidy [OF that] by blast
    then have "list_all (\<lambda>l. CHR 0x0A \<notin> set l) (map (\<lambda>xs. table_line (map escape_bars xs)) ?T)"
      unfolding list_all_iff list.set_map by blast
    then show ?thesis unfolding md by (intro split_on_join) simp_all
  qed
  have "map read_line (map (\<lambda>xs. table_line (map escape_bars xs)) ?T) = ?T"
    unfolding map_map comp_def by (rule map_idI) (use ne tidy read_table_line in blast)
  then show ?thesis using True rows lines by (simp add: w_def)
qed

subsection \<open>The nearest caption\<close>

lemma caption_fold:
  assumes "fold (caption_step bb kw) bs best = Some (d, t)"
  shows "(best = Some (d, t) \<or> (\<exists>b \<in> set bs. is_caption bb kw b \<and> d = caption_distance bb b \<and> t = take MAX_CAPTION_LENGTH (clean (bx_text b))))
    \<and> list_all (\<lambda>b. \<not> is_caption bb kw b \<or> d \<le> caption_distance bb b) bs \<and> (case best of None \<Rightarrow> True | Some (d0, _) \<Rightarrow> d \<le> d0)"
  using assms
proof (induction bs arbitrary: best)
  case (Cons b bs)
  note IH = Cons.IH [OF Cons.prems [unfolded fold_Cons comp_apply]]
  show ?case
  proof (cases "is_caption bb kw b")
    case False
    then show ?thesis using IH by (simp add: caption_step_def)
  next
    case True
    then show ?thesis using IH by (cases best) (auto simp: caption_step_def split: if_splits prod.splits)
  qed
qed simp

lemma caption_step_Some: "caption_step bb kw b (Some x) \<noteq> None"
  by (cases x) (simp add: caption_step_def Let_def)

lemma caption_fold_Some: "fold (caption_step bb kw) bs (Some x) \<noteq> None"
proof (induction bs arbitrary: x)
  case (Cons b bs)
  obtain y where "caption_step bb kw b (Some x) = Some y" using caption_step_Some by blast
  then show ?case using Cons [of y] by simp
qed simp

lemma caption_step_None:
  "caption_step bb kw b None = (if is_caption bb kw b then Some (caption_distance bb b, take MAX_CAPTION_LENGTH (clean (bx_text b))) else None)"
  by (simp add: caption_step_def)

lemma caption_fold_None: "fold (caption_step bb kw) bs None = None \<longleftrightarrow> list_all (\<lambda>b. \<not> is_caption bb kw b) bs"
proof (induction bs)
  case (Cons b bs)
  show ?case
  proof (cases "is_caption bb kw b")
    case True
    then show ?thesis using caption_fold_Some by (simp add: caption_step_None del: not_None_eq)
  next
    case False
    then show ?thesis using Cons by (simp add: caption_step_None)
  qed
qed simp

text \<open>The caption of an element is the text of a caption block of its kind, within 60 points, that no other
  such block is nearer than; it has none only if there is no such block.\<close>

theorem nearest_caption:
  "case pp_blocks page of
     Inl _ \<Rightarrow> find_caption page bb kw = None
   | Inr bs \<Rightarrow>
       (case find_caption page bb kw of
          None \<Rightarrow> list_all (\<lambda>b. \<not> is_caption bb kw b) bs
        | Some t \<Rightarrow> list_ex (\<lambda>b. is_caption bb kw b \<and> t = take 1000 (clean (bx_text b))
            \<and> list_all (\<lambda>b'. \<not> is_caption bb kw b' \<or> caption_distance bb b \<le> caption_distance bb b') bs) bs)"
proof (cases "pp_blocks page")
  case (Inr bs)
  show ?thesis
  proof (cases "fold (caption_step bb kw) bs None")
    case None
    then show ?thesis using Inr caption_fold_None [of bb kw bs] by (simp add: find_caption_def)
  next
    case (Some dt)
    obtain d t where dt: "dt = (d, t)" by (cases dt)
    show ?thesis using caption_fold [OF Some [unfolded dt]] Inr Some dt
      by (auto simp: find_caption_def list_ex_iff MAX_CAPTION_LENGTH_def)
  qed
qed (simp add: find_caption_def)

subsection \<open>Pages read by OCR\<close>

text \<open>What is kept of reading a page: a text that is not blank.\<close>

definition recognized :: "(nat \<Rightarrow> string res) \<Rightarrow> nat \<Rightarrow> string option" where
  "recognized read i = (case read i of Inr t \<Rightarrow> if strip t \<noteq> [] then Some t else None | Inl _ \<Rightarrow> None)"

definition ocr_result_ok :: "(nat \<Rightarrow> string res) \<Rightarrow> nat list \<Rightarrow> string list \<times> nat \<Rightarrow> (string list \<times> nat) res \<Rightarrow> bool" where
  "ocr_result_ok read is st r \<longleftrightarrow>
     (case r of
        Inl e \<Rightarrow> \<not> ocr_caught e \<and> (\<exists>i \<in> set is. read i = Inl e)
      | Inr (us, m) \<Rightarrow> length us = length (fst st) \<and> m = snd st + length (filter (\<lambda>i. recognized read i \<noteq> None) is)
          \<and> (\<forall>j < length (fst st). us ! j
               = (case (if j \<in> set is then recognized read j else None) of None \<Rightarrow> fst st ! j | Some t \<Rightarrow> t)))"

lemma ocr_result_skip:
  assumes "ocr_result_ok read is st r" "recognized read i = None" "i \<notin> set is"
  shows "ocr_result_ok read (i # is) st r"
proof (cases r)
  case (Inr um)
  have "(if j \<in> set (i # is) then recognized read j else None) = (if j \<in> set is then recognized read j else None)" for j
    using assms(2) by auto
  then show ?thesis using assms Inr unfolding ocr_result_ok_def by simp
qed (use assms in \<open>auto simp: ocr_result_ok_def\<close>)

lemma ocr_result_set:
  assumes "ocr_result_ok read is (ts[i := t], n + 1) r" "recognized read i = Some t" "i \<notin> set is"
  shows "ocr_result_ok read (i # is) (ts, n) r"
proof (cases r)
  case (Inr um)
  have "(case (if j \<in> set (i # is) then recognized read j else None) of None \<Rightarrow> ts ! j | Some u \<Rightarrow> u)
      = (case (if j \<in> set is then recognized read j else None) of None \<Rightarrow> ts[i := t] ! j | Some u \<Rightarrow> u)" if "j < length ts" for j
    using that assms(2,3) by (cases "j = i"; cases "recognized read j") (auto simp: nth_list_update)
  then show ?thesis using assms Inr by (simp add: ocr_result_ok_def split: prod.splits cong: option.case_cong)
qed (use assms in \<open>auto simp: ocr_result_ok_def\<close>)

lemma ocr_loop_result: "distinct is \<Longrightarrow> ocr_result_ok read is (ts, n) (ocr_loop read is (ts, n))"
proof (induction "is" arbitrary: ts n)
  case Nil
  then show ?case by (simp add: ocr_result_ok_def)
next
  case (Cons i js)
  have d: "distinct js" "i \<notin> set js" using Cons.prems by simp_all
  consider e where "read i = Inl e" "\<not> ocr_caught e" | "recognized read i = None" "ocr_loop read (i # js) (ts, n) = ocr_loop read js (ts, n)"
    | t where "recognized read i = Some t" "ocr_loop read (i # js) (ts, n) = ocr_loop read js (ts[i := t], n + 1)"
  proof (cases "read i")
    case (Inl e)
    then show ?thesis using that(1) [of e] that(2) by (cases "ocr_caught e") (simp_all add: recognized_def)
  next
    case (Inr t)
    then show ?thesis using that(2) that(3) [of t] by (cases "strip t = []") (simp_all add: recognized_def)
  qed
  then show ?case
  proof cases
    case 1
    then show ?thesis by (simp add: ocr_result_ok_def)
  next
    case 2
    then show ?thesis using ocr_result_skip [OF Cons.IH [OF d(1)] 2(1) d(2)] by simp
  next
    case (3 t)
    then show ?thesis using ocr_result_set [OF Cons.IH [OF d(1)] 3(1) d(2)] by simp
  qed
qed

text \<open>The texts after OCR: every page with a text layer keeps it, and every other page has what was read from it,
  where the engine is there and reads something; the number reported is that of the pages replaced.  An
  exception that is not the engine's own ends the whole document.\<close>

theorem ocr_fills_empty_pages:
  "let read = (\<lambda>i. image_to_text tess engine (pp_png (doc ! i) dpi));
       empty = filter (\<lambda>i. \<not> has_text_layer (ts ! i)) [0..<length ts] in
   case ocr_document tess engine dpi doc ts of
     Inl e \<Rightarrow> \<not> ocr_caught e \<and> list_ex (\<lambda>i. read i = Inl e) empty
   | Inr (us, m) \<Rightarrow>
       us = map (\<lambda>i. if has_text_layer (ts ! i) \<or> \<not> is_available tess engine then ts ! i
                     else case recognized read i of None \<Rightarrow> ts ! i | Some t \<Rightarrow> t) [0..<length ts]
       \<and> m = (if is_available tess engine then length (filter (\<lambda>i. recognized read i \<noteq> None) empty) else 0)"
proof -
  define read where "read = (\<lambda>i. image_to_text tess engine (pp_png (doc ! i) dpi))"
  define empty where "empty = filter (\<lambda>i. \<not> has_text_layer (ts ! i)) [0..<length ts]"
  have ok: "ocr_result_ok read empty (ts, 0) (ocr_loop read empty (ts, 0))" by (rule ocr_loop_result) (simp add: empty_def)
  have eq: "ocr_document tess engine dpi doc ts =
      (if empty = [] \<or> \<not> is_available tess engine then Inr (ts, 0) else ocr_loop read empty (ts, 0))"
    by (simp add: ocr_document_def empty_def read_def Let_def)
  have same: "ts = map (\<lambda>i. if has_text_layer (ts ! i) \<or> \<not> is_available tess engine then ts ! i
        else case recognized read i of None \<Rightarrow> ts ! i | Some t \<Rightarrow> t) [0..<length ts]" if "empty = [] \<or> \<not> is_available tess engine"
    by (rule nth_equalityI) (use that in \<open>auto simp: empty_def filter_empty_conv\<close>)
  show ?thesis unfolding Let_def read_def [symmetric] empty_def [symmetric]
  proof (cases "empty = [] \<or> \<not> is_available tess engine")
    case True
    then show "case ocr_document tess engine dpi doc ts of Inl e \<Rightarrow> \<not> ocr_caught e \<and> list_ex (\<lambda>i. read i = Inl e) empty
      | Inr (us, m) \<Rightarrow> us = map (\<lambda>i. if has_text_layer (ts ! i) \<or> \<not> is_available tess engine then ts ! i
          else case recognized read i of None \<Rightarrow> ts ! i | Some t \<Rightarrow> t) [0..<length ts]
        \<and> m = (if is_available tess engine then length (filter (\<lambda>i. recognized read i \<noteq> None) empty) else 0)"
      using same by (auto simp: eq)
  next
    case False
    then have e: "ocr_document tess engine dpi doc ts = ocr_loop read empty (ts, 0)" by (simp add: eq)
    show "case ocr_document tess engine dpi doc ts of Inl e \<Rightarrow> \<not> ocr_caught e \<and> list_ex (\<lambda>i. read i = Inl e) empty
      | Inr (us, m) \<Rightarrow> us = map (\<lambda>i. if has_text_layer (ts ! i) \<or> \<not> is_available tess engine then ts ! i
          else case recognized read i of None \<Rightarrow> ts ! i | Some t \<Rightarrow> t) [0..<length ts]
        \<and> m = (if is_available tess engine then length (filter (\<lambda>i. recognized read i \<noteq> None) empty) else 0)"
    proof (cases "ocr_loop read empty (ts, 0)")
      case (Inl x)
      then show ?thesis using ok by (simp add: e ocr_result_ok_def list_ex_iff)
    next
      case (Inr um)
      obtain us m where um: "um = (us, m)" by (cases um)
      note r = ok [unfolded Inr um ocr_result_ok_def, simplified]
      have "us = map (\<lambda>i. if has_text_layer (ts ! i) \<or> \<not> is_available tess engine then ts ! i
          else case recognized read i of None \<Rightarrow> ts ! i | Some t \<Rightarrow> t) [0..<length ts]"
        by (rule nth_equalityI) (use r False in \<open>auto simp: empty_def cong: option.case_cong\<close>)
      moreover have "m = length (filter (\<lambda>i. recognized read i \<noteq> None) empty)" using r by simp
      ultimately show ?thesis using False by (simp add: e Inr um)
    qed
  qed
qed

end
