(* ===== verification/PdfParse.thy ===== *)
theory PdfParse
  imports PageAssets
begin

section \<open>Parsing a PDF (ingestion/pdf_parser.py)\<close>

text \<open>
  From the pages PyMuPDF reads to the parsed document of \<open>Ingest\<close>.  Opening the file is a parameter
  that answers a document or the text of its exception.  The embedded title and author may be missing.
\<close>

definition JUNK_TITLE_PATTERN :: rx where
  "JUNK_TITLE_PATTERN = cats
     [StartOfText,
      Cap 1 (alts [ilit ''untitled'', ilit ''microsoft word'', Cat (ilit ''document'') (star digit), ilit ''paper'', ilit ''manuscript'', plus digit,
        cats [star (Cls (\<lambda>c. c \<noteq> CHR 0x0A)), chr CHR ''.'',
              Cap 2 (alts [ilit ''dvi'', ilit ''tex'', ilit ''doc'', ilit ''docx'', ilit ''pdf'', ilit ''indd''])]]),
      EndOfText]"

definition blank_opt :: rx where "blank_opt = opt (Cls is_space)"

text \<open>Under \<open>re.IGNORECASE\<close>; the long dash of the second branch is outside Latin-1.\<close>

definition ABSTRACT_PATTERN :: rx where
  "ABSTRACT_PATTERN = Alt
     (cats [WordBoundary, ilit ''a'', blank_opt, ilit ''b'', blank_opt, ilit ''s'', blank_opt, ilit ''t'', blank_opt, ilit ''r'', blank_opt,
            ilit ''a'', blank_opt, ilit ''c'', blank_opt, ilit ''t'', WordBoundary])
     (cats [WordBoundary, ilit ''abstract'', WordBoundary, spaces, opt (one_of ''-:.'')])"

definition ABSTRACT_END_PATTERN :: rx where
  "ABSTRACT_END_PATTERN = cats
     [chr (CHR 0x0A), spaces, heading_number [plus (one_of ''IVX''), plus digit],
      alts [lit ''INTRODUCTION'', lit ''Introduction'', lit ''KEYWORDS'', lit ''Keywords'', lit ''Index Terms'', lit ''CCS CONCEPTS''],
      WordBoundary]"

definition MIN_TITLE_LENGTH :: nat where "MIN_TITLE_LENGTH = 6"
definition MAX_TITLE_LENGTH :: nat where "MAX_TITLE_LENGTH = 400"
definition MAX_ABSTRACT_LENGTH :: nat where "MAX_ABSTRACT_LENGTH = 5000"

definition clean_opt :: "string option \<Rightarrow> string option" where
  "clean_opt v = (case v of Some (c # s) \<Rightarrow> (if clean (c # s) = [] then None else Some (clean (c # s))) | _ \<Rightarrow> None)"

definition is_usable_title :: "string option \<Rightarrow> bool" where
  "is_usable_title t \<longleftrightarrow>
     (case t of
        Some (c # s) \<Rightarrow>
          if length (c # s) < MIN_TITLE_LENGTH \<or> MAX_TITLE_LENGTH < length (c # s) then False
          else \<not> re_match_at_start JUNK_TITLE_PATTERN (strip (c # s))
      | _ \<Rightarrow> False)"

subsection \<open>Title, abstract, authors\<close>

definition line_candidate :: "dict_line \<Rightarrow> (real \<times> real \<times> string) list" where
  "line_candidate l =
     (if li_spans l = [] then []
      else case clean_opt (Some (concat (map fst (li_spans l)))) of
             None \<Rightarrow> []
           | Some text \<Rightarrow> [(Max (set (map snd (li_spans l))), li_top l, text)])"

definition extract_title_from_layout :: "pdf_page \<Rightarrow> string option" where
  "extract_title_from_layout page =
     (case pp_dict page of
        Inl e \<Rightarrow> None
      | Inr blocks \<Rightarrow>
          let candidates = concat (map (\<lambda>b. concat (map line_candidate (bl_lines b))) blocks) in
          if candidates = [] then None
          else
            let largest = Max (set (map fst candidates));
                title_lines = map (snd \<circ> snd) (filter (\<lambda>(size, y, text). largest - 1 / 2 \<le> size \<and> y < pp_height page * (1 / 2))
                  (sort_key (fst \<circ> snd) candidates));
                title = clean_opt (Some (join '' '' title_lines)) in
            if is_usable_title title then title else None)"

definition extract_abstract :: "string \<Rightarrow> string option" where
  "extract_abstract text =
     (case search_from ABSTRACT_PATTERN [] text of
        None \<Rightarrow> None
      | Some (_, _, _, _, body) \<Rightarrow>
          let body = (case search_from ABSTRACT_END_PATTERN [] body of None \<Rightarrow> body | Some (skipped, _) \<Rightarrow> take (length skipped) body) in
          clean_opt (Some (take MAX_ABSTRACT_LENGTH body)))"

definition extract_authors :: "string option \<Rightarrow> string option" where
  "extract_authors v = (case clean_opt v of None \<Rightarrow> None | Some a \<Rightarrow> if 1000 < length a then None else Some a)"

subsection \<open>The document\<close>

record pdf_document =
  dc_pages :: "pdf_page list"
  dc_title :: "string option"
  dc_author :: "string option"

record parse_settings =
  ps_enable_ocr :: bool
  ps_enable_tables :: bool
  ps_enable_figures :: bool
  ps_dpi :: nat

definition all_figures :: "(nat list \<Rightarrow> nat list option) \<Rightarrow> pdf_page list \<Rightarrow> extracted_figure list res" where
  "all_figures to_png ps = bind_res (mapM (\<lambda>(i, p). extract_figures to_png p (int i)) (enumerate 1 ps)) (\<lambda>fs. Inr (concat fs))"

definition all_tables :: "pdf_page list \<Rightarrow> extracted_table list" where
  "all_tables ps = concat (map (\<lambda>(i, p). extract_tables p (int i)) (enumerate 1 ps))"

definition choose_title :: "pdf_document \<Rightarrow> string option" where
  "choose_title doc =
     (let title = clean_opt (dc_title doc) in
      if \<not> is_usable_title title \<and> dc_pages doc \<noteq> [] then extract_title_from_layout (hd (dc_pages doc))
      else if \<not> is_usable_title title then None
      else title)"

definition parse_document ::
    "tesseract \<Rightarrow> ocr_engine \<Rightarrow> (nat list \<Rightarrow> nat list option) \<Rightarrow> parse_settings \<Rightarrow> pdf_document \<Rightarrow> parsed_document res" where
  "parse_document tess engine to_png cfg doc =
     (let texts = map pp_text (dc_pages doc) in
      bind_res (if ps_enable_ocr cfg then ocr_document tess engine (ps_dpi cfg) (dc_pages doc) texts else Inr (texts, 0)) (\<lambda>(ocr_texts, ocr_pages).
      bind_res (if ps_enable_figures cfg then all_figures to_png (dc_pages doc) else Inr []) (\<lambda>figures.
        let pages = (if ocr_pages \<noteq> 0 then ocr_texts else texts);
            total_chars = sum_list (map (\<lambda>t. length (strip t)) pages) in
        Inr \<lparr>pd_page_count = length (dc_pages doc), pd_pages = pages, pd_title = choose_title doc, pd_authors = extract_authors (dc_author doc),
             pd_abstract = extract_abstract (join PARA_SEP (take 3 pages)), pd_scanned = (pages \<noteq> [] \<and> total_chars < 100 * length pages),
             pd_ocr_pages = ocr_pages, pd_tables = (if ps_enable_tables cfg then all_tables (dc_pages doc) else []), pd_figures = figures,
             pd_references = parse_references (join PARA_SEP pages)\<rparr>)))"

definition parse_pdf ::
    "(nat list \<Rightarrow> string + pdf_document) \<Rightarrow> tesseract \<Rightarrow> ocr_engine \<Rightarrow> (nat list \<Rightarrow> nat list option) \<Rightarrow> parse_settings
       \<Rightarrow> nat list \<Rightarrow> parse_failure + parsed_document" where
  "parse_pdf open_pdf tess engine to_png cfg bytes =
     (case open_pdf bytes of
        Inl msg \<Rightarrow> Inl (PdfParseError (''Could not open file as a PDF: '' @ msg))
      | Inr doc \<Rightarrow> (case parse_document tess engine to_png cfg doc of Inl e \<Rightarrow> Inl (OtherFailure e) | Inr d \<Rightarrow> Inr d))"

subsection \<open>What a parsed document promises\<close>

lemma usable_layout: "extract_title_from_layout p = Some t \<Longrightarrow> is_usable_title (Some t)"
  by (auto simp: extract_title_from_layout_def Let_def split: sum.splits if_splits)

lemma choose_title_usable: "choose_title doc = Some t \<Longrightarrow> is_usable_title (Some t)"
  using usable_layout by (auto simp: choose_title_def Let_def split: if_splits)

lemma clean_opt_Some: "clean_opt v = Some t \<Longrightarrow> \<exists>s. v = Some s \<and> t = join '' '' (words s)"
  by (auto simp: clean_opt_def clean_words split: option.splits list.splits if_splits)

lemma abstract_part:
  assumes "extract_abstract t = Some a"
  shows "\<exists>e. sublist e t \<and> length e \<le> 5000 \<and> a = join '' '' (words e)"
proof -
  from assms obtain sk m k p body where f: "search_from ABSTRACT_PATTERN [] t = Some (sk, m, k, p, body)"
    by (auto simp: extract_abstract_def split: option.splits)
  have "t = (sk @ m) @ body @ []" using search_from_consumes [OF f] by simp
  then have "sublist body t" unfolding sublist_def by blast
  moreover obtain n where "clean_opt (Some (take 5000 (take n body))) = Some a"
  proof (cases "search_from ABSTRACT_END_PATTERN [] body")
    case None
    then show ?thesis using assms f that [of "length body"] by (simp add: extract_abstract_def MAX_ABSTRACT_LENGTH_def)
  next
    case (Some x)
    obtain skipped y where "x = (skipped, y)" by (cases x)
    then show ?thesis using assms f Some that [of "length skipped"] by (simp add: extract_abstract_def MAX_ABSTRACT_LENGTH_def)
  qed
  then have "a = join '' '' (words (take 5000 (take n body)))" using clean_opt_Some by blast
  moreover have "sublist (take 5000 (take n body)) body" by (simp add: min_def)
  ultimately show ?thesis by (intro exI [of _ "take 5000 (take n body)"]) (auto intro: sublist_order.order.trans)
qed

lemma authors_short: "extract_authors v = Some a \<Longrightarrow> length a \<le> 1000"
  by (auto simp: extract_authors_def split: option.splits if_splits)

lemma numbered_pages: "(i, p) \<in> set (enumerate 1 ps) \<Longrightarrow> 1 \<le> i \<and> i \<le> length ps"
  by (auto simp: in_set_enumerate_eq)

lemma table_pages: "list_all (\<lambda>t. 1 \<le> tb_page t \<and> tb_page t \<le> int (length ps)) (all_tables ps)"
proof -
  have "tb_page t = n" if "t \<in> set (extract_tables p n)" for t p n
    using that by (auto simp: extract_tables_def table_of_def Let_def split: sum.splits if_splits)
  then show ?thesis using numbered_pages [of _ _ ps] by (fastforce simp: all_tables_def list_all_iff)
qed

lemma figure_pages:
  assumes "all_figures to_png ps = Inr fs"
  shows "list_all (\<lambda>f. 1 \<le> fg_page f \<and> fg_page f \<le> int (length ps)) fs"
proof -
  have page: "fg_page f = n" if "extract_figures to_png p n = Inr gs" "f \<in> set gs" for f p n gs
    using that by (auto simp: extract_figures_def figure_of_def bind_res_Inr_conv split: if_splits prod.splits)
  from assms obtain gss where m: "mapM (\<lambda>(i, p). extract_figures to_png p (int i)) (enumerate 1 ps) = Inr gss" "fs = concat gss"
    by (auto simp: all_figures_def bind_res_Inr_conv)
  have "1 \<le> fg_page f \<and> fg_page f \<le> int (length ps)" if g: "gs \<in> set gss" and f: "f \<in> set gs" for gs f
  proof -
    obtain i p where ip: "(i, p) \<in> set (enumerate 1 ps)" "extract_figures to_png p (int i) = Inr gs"
      using list_all2_ex1 [OF m(1) [unfolded mapM_Inr_conv] g] by (auto split: prod.splits)
    show ?thesis using page [OF ip(2) f] numbered_pages [OF ip(1)] by simp
  qed
  then show ?thesis unfolding m(2) by (auto simp: list_all_iff)
qed

lemma abstract_sound:
  "case extract_abstract t of None \<Rightarrow> True | Some a \<Rightarrow> \<exists>e. sublist e t \<and> length e \<le> 5000 \<and> a = join '' '' (words e)"
  using abstract_part [of t] by (auto split: option.splits)

text \<open>What is promised of a document parsed from the pages \<open>ps\<close>.\<close>

definition parsed_ok :: "pdf_document \<Rightarrow> parsed_document \<Rightarrow> bool" where
  "parsed_ok doc d \<longleftrightarrow>
     pd_page_count d = length (dc_pages doc)
     \<and> list_all2 (\<lambda>p t. t = pp_text p \<or> \<not> has_text_layer (pp_text p) \<and> strip t \<noteq> []) (dc_pages doc) (pd_pages d)
     \<and> (case pd_title d of None \<Rightarrow> True | Some t \<Rightarrow> is_usable_title (Some t))
     \<and> (case pd_authors d of None \<Rightarrow> True | Some a \<Rightarrow> length a \<le> 1000)
     \<and> (case pd_abstract d of None \<Rightarrow> True
        | Some a \<Rightarrow> \<exists>e. sublist e (join PARA_SEP (take 3 (pd_pages d))) \<and> length e \<le> 5000 \<and> a = join '' '' (words e))
     \<and> list_all (\<lambda>t. 1 \<le> tb_page t \<and> tb_page t \<le> int (pd_page_count d)) (pd_tables d)
     \<and> list_all (\<lambda>f. 1 \<le> fg_page f \<and> fg_page f \<le> int (pd_page_count d)) (pd_figures d)
     \<and> list_all (reference_ok (full_text d)) (pd_references d)"

lemma pages_kept:
  assumes "ocr_document tess engine dpi ps (map pp_text ps) = Inr (us, n)"
  shows "list_all2 (\<lambda>p t. t = pp_text p \<or> \<not> has_text_layer (pp_text p) \<and> strip t \<noteq> []) ps us"
proof -
  have us: "us = map (\<lambda>i. if has_text_layer (map pp_text ps ! i) \<or> \<not> is_available tess engine then map pp_text ps ! i
      else case recognized (\<lambda>i. image_to_text tess engine (pp_png (ps ! i) dpi)) i of None \<Rightarrow> map pp_text ps ! i | Some t \<Rightarrow> t)
        [0..<length (map pp_text ps)]"
    using ocr_fills_empty_pages [of tess engine ps dpi "map pp_text ps"] unfolding assms Let_def by simp
  have "strip t \<noteq> []" if "recognized r i = Some t" for r i t
    using that by (auto simp: recognized_def split: sum.splits if_splits)
  then show ?thesis unfolding us by (auto simp: list_all2_conv_all_nth split: option.splits)
qed

lemma parse_document_ok:
  assumes "parse_document tess engine to_png cfg doc = Inr d"
  shows "parsed_ok doc d"
proof -
  define ps where "ps = dc_pages doc"
  let ?o = "if ps_enable_ocr cfg then ocr_document tess engine (ps_dpi cfg) (dc_pages doc) (map pp_text (dc_pages doc))
      else Inr (map pp_text (dc_pages doc), 0)"
  let ?f = "if ps_enable_figures cfg then all_figures to_png (dc_pages doc) else Inr []"
  obtain un where un: "?o = Inr un" using assms by (cases ?o) (simp_all add: parse_document_def Let_def)
  obtain us n where o: "?o = Inr (us, n)" using un by (cases un) blast
  obtain fs where f: "?f = Inr fs" using assms o by (cases ?f) (simp_all add: parse_document_def Let_def)
  have d: "pd_page_count d = length ps" "pd_pages d = (if n \<noteq> 0 then us else map pp_text ps)" "pd_title d = choose_title doc"
      "pd_authors d = extract_authors (dc_author doc)" "pd_abstract d = extract_abstract (join PARA_SEP (take 3 (pd_pages d)))"
      "pd_tables d = (if ps_enable_tables cfg then all_tables ps else [])" "pd_figures d = fs"
      "pd_references d = parse_references (join PARA_SEP (pd_pages d))"
    using assms by (auto simp: parse_document_def Let_def o f ps_def)
  have same: "list_all2 (\<lambda>p t. t = pp_text p \<or> \<not> has_text_layer (pp_text p) \<and> strip t \<noteq> []) ps (map pp_text ps)"
    by (simp add: list_all2_conv_all_nth)
  then have "list_all2 (\<lambda>p t. t = pp_text p \<or> \<not> has_text_layer (pp_text p) \<and> strip t \<noteq> []) ps (pd_pages d)"
    using o pages_kept [of tess engine "ps_dpi cfg" ps us n] unfolding d(2) by (auto simp: ps_def split: if_splits)
  moreover have "list_all (\<lambda>t. 1 \<le> tb_page t \<and> tb_page t \<le> int (length ps)) (pd_tables d)"
    using table_pages [of ps] by (simp add: d)
  moreover have "list_all (\<lambda>f. 1 \<le> fg_page f \<and> fg_page f \<le> int (length ps)) (pd_figures d)"
    using f figure_pages [of to_png ps fs] by (auto simp: d ps_def split: if_splits)
  moreover have "list_all (reference_ok (full_text d)) (pd_references d)"
    using references_ok by (simp add: d(8) full_text_def)
  moreover have "case pd_title d of None \<Rightarrow> True | Some t \<Rightarrow> is_usable_title (Some t)"
    using choose_title_usable [of doc] by (auto simp: d split: option.splits)
  moreover have "case pd_authors d of None \<Rightarrow> True | Some a \<Rightarrow> length a \<le> 1000"
    using authors_short [of "dc_author doc"] by (auto simp: d split: option.splits)
  moreover note abstract_sound [of "join PARA_SEP (take 3 (pd_pages d))", folded d(5)]
  ultimately show ?thesis unfolding parsed_ok_def d(1) ps_def [symmetric] by blast
qed

text \<open>C34: A file that does not open is a \<open>PdfParseError\<close>, which the ingestion task reports, and any other failure is
  not.  Otherwise the document has one text per page of the PDF, that of its text layer unless OCR read
  an image page; its title, if any, is no placeholder; its abstract is a piece of the first three pages
  with normalised white space; its tables and figures lie on pages of the PDF; and every reference is
  found in its text.\<close>

theorem parse_pdf_correct:
  "case (open_pdf bytes, parse_pdf open_pdf tess engine to_png cfg bytes) of
     (Inl msg, r) \<Rightarrow> r = Inl (PdfParseError (''Could not open file as a PDF: '' @ msg))
   | (Inr doc, Inr d) \<Rightarrow> parsed_ok doc d
   | (Inr doc, Inl f) \<Rightarrow> (case f of PdfParseError _ \<Rightarrow> False | OtherFailure e \<Rightarrow> parse_document tess engine to_png cfg doc = Inl e)"
  using parse_document_ok by (auto simp: parse_pdf_def split: sum.splits)

subsection \<open>From the PDF to the stored references\<close>

lemma replace_assets_refs:
  "replace_assets pid d s = (Inr u, t) \<Longrightarrow> pl_refs t = filter (\<lambda>r. fst r \<noteq> pid) (pl_refs s) @ map (Pair pid) (pd_references d)"
  by (auto simp: replace_assets_def Let_def split: prod.splits sum.splits)

text \<open>The references a processed paper has in the database are those of its PDF, and only those.\<close>

theorem stored_references_found:
  "case process_rows (parse_pdf open_pdf tess engine to_png cfg) ids pid s of
     (Inr (Ready d n), t) \<Rightarrow>
       map snd (filter (\<lambda>r. fst r = pid) (pl_refs t)) = parse_references (full_text d)
       \<and> filter (\<lambda>r. fst r \<noteq> pid) (pl_refs t) = filter (\<lambda>r. fst r \<noteq> pid) (pl_refs s)
   | _ \<Rightarrow> True"
proof -
  have "map snd (filter (\<lambda>r. fst r = pid) (pl_refs t)) = parse_references (full_text d)
      \<and> filter (\<lambda>r. fst r \<noteq> pid) (pl_refs t) = filter (\<lambda>r. fst r \<noteq> pid) (pl_refs s)"
    if r: "process_rows (parse_pdf open_pdf tess engine to_png cfg) ids pid s = (Inr (Ready d n), t)" for d n t
  proof -
    have refs: "pd_references d = parse_references (full_text d)" if "parse_pdf open_pdf tess engine to_png cfg bytes = Inr d" for bytes
      using that by (auto simp: parse_pdf_def parse_document_def Let_def bind_res_Inr_conv full_text_def split: sum.splits)
    obtain p where g: "get_paper_row (db_of s) pid = Some p" using r by (auto simp: process_rows_def split: option.splits)
    define s0 where "s0 = set_paper pid (\<lambda>p. p\<lparr>p_status := PROCESSING, p_error := None\<rparr>) s"
    define st where "st = sv_blobs (pl_service s0)"
    note run = r [unfolded process_rows_def g option.case Let_def, folded s0_def st_def]
    have p1: "open_and_parse (parse_pdf open_pdf tess engine to_png cfg) (p_storage_key p) st = Inr d"
      using run by (auto split: sum.splits parse_failure.splits prod.splits)
    define s1 where "s1 = set_paper pid (mark_ready d) s0"
    obtain u t1 where p2: "replace_assets pid d s1 = (Inr u, t1)" "replace_chunks ids pid d t1 = (n, t)"
      using run unfolding p1 by (auto simp: s1_def split: sum.splits prod.splits)
    have p3: "pl_refs s1 = pl_refs s" by (simp add: s1_def s0_def set_paper_def)
    have p4: "pl_refs t = pl_refs t1" using p2(2) by (auto simp: replace_chunks_def Let_def)
    note p = p1 p2(1) p3 p4
    have d: "pd_references d = parse_references (full_text d)"
      using p(1) refs by (auto simp: open_and_parse_def split: sum.splits py_error.splits)
    have "filter (\<lambda>r. fst r = pid) (map (Pair pid) xs) = map (Pair pid) xs" "filter (\<lambda>r. fst r \<noteq> pid) (map (Pair pid) xs) = []"
      for xs :: "parsed_reference list" by (induction xs) simp_all
    then show ?thesis by (simp add: p replace_assets_refs [OF p(2)] d comp_def)
  qed
  then show ?thesis by (auto split: prod.splits sum.splits outcome.splits)
qed

text \<open>The separator after the heading stays in the abstract: the first branch of the pattern, which is meant for
  spaced capitals, matches the plain heading too.\<close>

theorem abstract_keeps_separator:
  "extract_abstract ''Abstract: We prove it.'' = Some '': We prove it.''"
  by code_simp

end
