(* ===== verification/Spec2Isabelle.thy ===== *)
theory Spec2Isabelle
  imports GraphPersist EmbedVendors RemoteGraph RemoteVectors Operations ResearchApi AuthApi GraphQuery Embeddings ResearchGraph Benchmark Accounts Middleware Insights GraphApi ChatApi PdfParse
begin

text \<open>
  A verification library for the backend of ResearchMind (\<open>src/backend/app\<close>), a service that
  ingests scientific papers, indexes them for retrieval, projects them into a knowledge graph and
  answers research questions over them with language models.

  \<^bold>\<open>The program and its parts.\<close>
  A user uploads a PDF into a workspace (\<open>services/paper_service.py\<close>, with \<open>core/validation.py\<close> and
  \<open>core/storage.py\<close>).  A worker parses and chunks it (\<open>worker/tasks.py\<close>, \<open>ingestion/\<close>), embeds the
  chunks and puts them into a vector store and a BM25 index (\<open>retrieval/indexer.py\<close>,
  \<open>vector_store.py\<close>, \<open>sparse.py\<close>, \<open>embeddings.py\<close>), and extracts entities and reported results
  (\<open>graph/extraction.py\<close>, \<open>graph/builder.py\<close>, \<open>research/extraction.py\<close>).  A question is answered by
  retrieving passages (\<open>retrieval/service.py\<close> over \<open>fusion.py\<close> and \<open>reranker.py\<close>), packing them under
  a token budget and asking a model through the gateway (\<open>llm/\<close>), or by a graph of agents
  (\<open>agents/\<close>).  On top are analyses of a corpus (\<open>research/\<close>, \<open>graph/analytics.py\<close>,
  \<open>graph/retrieval.py\<close>) and a benchmark of the answers (\<open>eval/\<close>).  All of it is reached over HTTP
  (\<open>api/v1/endpoints/\<close>, \<open>schemas/\<close>) behind accounts (\<open>services/user_service.py\<close>, \<open>core/security.py\<close>)
  and middleware (\<open>core/middleware.py\<close>, \<open>core/metrics.py\<close>).

  \<^bold>\<open>How the code is represented.\<close>
  A class becomes a record, an enumeration a datatype, a method a function of the state that answers
  the new state.  \<open>Prelude\<close> has the fragment of Python that all components use: exceptions as values
  (\<open>'a res = py_error + 'a\<close>, composed with \<open>bind_res\<close>), insertion-ordered dictionaries as association
  lists (\<open>dget\<close>, \<open>dset\<close>, \<open>ddel\<close>), stable sorting with \<open>reverse=True\<close> (\<open>sort_desc\<close>), slices, strings as
  lists of Latin-1 characters, decimal numerals.  \<open>PyVal\<close> has values whose type the code leaves open
  (parsed JSON, metadata): equality, truth, UUIDs.  \<open>Regex\<close> has a matcher with captures and
  backtracking order for the patterns of module \<open>re\<close>, its language and the soundness of a match; every
  pattern of the code is transcribed as a term of type \<open>rx\<close>.  Floats are reals where the code only
  adds, divides and compares finite ones, and \<open>pyfloat\<close> (with infinities and NaN) where a value comes
  from a model.  An asynchronous call of a model is a function of the gateway's state
  (\<open>('a, 'w) act\<close> in \<open>Context\<close>); what \<open>asyncio.gather\<close> runs concurrently is run in order.

  \<^bold>\<open>The theories, in the order of their imports.\<close>
  \<^item> \<open>GraphSchema\<close>, \<open>GraphStore\<close>, \<open>GraphPersist\<close>, \<open>RemoteGraph\<close> (\<open>graph/schema.py\<close>, \<open>graph/store.py\<close>): the
    vocabulary, the in-memory store with its two adjacency indexes and its file, the statements of the
    Neo4j backend.  Lemmas: representation invariant of every reachable store, deletion of a paper,
    breadth-first search finds exactly the shortest distances, a saved store loads again, no data
    reaches the text of an update.
  \<^item> \<open>CypherQuery\<close>, \<open>GraphQuery\<close> (\<open>graph/query.py\<close>): the validator of generated Cypher and the questions
    answered with it.  Lemmas: an accepted query contains no forbidden keyword outside strings, only
    known labels, and a bounded \<open>LIMIT\<close>; nothing else is executed.
  \<^item> \<open>VectorStore\<close>, \<open>RemoteVectors\<close>, \<open>SparseIndex\<close>, \<open>Fusion\<close>, \<open>Reranker\<close>, \<open>Embeddings\<close>, \<open>EmbedVendors\<close>,
    \<open>Database\<close>, \<open>Indexer\<close>, \<open>Retrieval\<close> (\<open>retrieval/\<close>, \<open>models/\<close>): lemmas on exact statistics, refinement
    of the exact store by the FAISS and the Qdrant backend under the documented behaviour of both, order of
    fused and reranked results, vectors in the order of their texts, chunk table and indexes in step,
    authorisation of every retrieved passage.
  \<^item> \<open>Json\<close>, \<open>Gateway\<close>, \<open>Prompts\<close>, \<open>Context\<close>, \<open>Rag\<close>, \<open>ChatApi\<close> (\<open>llm/\<close>, the chat and search endpoints):
    lemmas on bounded retries, the usage account, prompts that render, what packing keeps, sources of an
    answer, the stream of an answer.
  \<^item> \<open>AgentPrompts\<close>, \<open>Tools\<close>, \<open>AgentState\<close>, \<open>Agents\<close>, \<open>ResearchGraph\<close>, \<open>ResearchApi\<close> (\<open>agents/\<close>, the research
    endpoints): the agents, the routing as a step relation, termination, invariant of every reachable
    state, a run that never ends, responses that keep their schema.
  \<^item> \<open>Bibliography\<close>, \<open>PageAssets\<close>, \<open>PdfParse\<close> with \<open>Captures\<close> (groups of a match), \<open>Chunking\<close>
    (\<open>ingestion/\<close>): references, tables, figures and OCR, the document as a whole, chunks that lose no word.
  \<^item> \<open>Validation\<close>, \<open>Storage\<close>, \<open>Papers\<close>, \<open>Ingest\<close> (\<open>core/\<close>, \<open>services/\<close>, \<open>worker/\<close>): lemmas on keys that
    stay inside the storage root, blobs that outlive no paper and are missing for none, the outcomes of
    processing.
  \<^item> \<open>Entities\<close>, \<open>Builder\<close>, \<open>GraphRetrieval\<close>, \<open>Grouping\<close>, \<open>Analytics\<close> (\<open>graph/\<close>): extraction, projection into
    the graph, expansion of a question over shared entities, networks counted over groups of rows.
  \<^item> \<open>Experiments\<close>, \<open>Comparison\<close>, \<open>Contradictions\<close>, \<open>Gaps\<close>, \<open>Review\<close>, \<open>Trends\<close> (\<open>research/\<close>): every
    analysis with the statement that what it reports is in the stored data.
  \<^item> \<open>Metrics\<close>, \<open>Benchmark\<close> (\<open>eval/\<close>): scores are proportions, cases survive being saved, the gate.
  \<^item> \<open>Accounts\<close>, \<open>AuthApi\<close> (\<open>services/\<close>, \<open>core/security.py\<close>, \<open>api/v1/deps.py\<close>, the account endpoints): who a
    caller is, keys that stay revoked, digests that no answer depends on.
  \<^item> \<open>Http\<close>, \<open>Corpus\<close>, \<open>Insights\<close>, \<open>GraphApi\<close> (the analysis and graph endpoints): requests and responses with
    their schemas; answers depend only on the rows the caller may read.
  \<^item> \<open>Middleware\<close>, \<open>Operations\<close> (\<open>core/\<close>, \<open>main.py\<close>, the operator endpoints): the stack around the routes,
    what is recorded, what operators see.
  \<^item> \<open>Worker\<close> (\<open>worker/tasks.py\<close>, \<open>endpoints/papers.py\<close>): the components above composed.  The state is the
    record \<open>app\<close> of all tables, blobs, indexes, the graph and the queue; uploads, deletions, restarts
    and executions of queued tasks in any order are the steps.  Lemmas: consistency of every reachable
    state, the queue empties, an uploaded paper becomes searchable.

  \<^bold>\<open>Interfaces.\<close>
  The contracts between components are locales, interpreted on the code's own definitions:
  \<open>vector_store\<close> (what an upsert keeps of the records; the in-memory and the FAISS store), \<open>reranker\<close>
  (scores for the candidates of a rerank; the lexical and the no-op scorer), \<open>llm_provider\<close> (what a
  call does to the network and what it may answer; the three vendors and the echo), \<open>credential_store\<close>
  (what revokes a key stays; the tables of accounts), \<open>analysis\<close> (an answer that depends on the rows of
  its papers only; the analyses and the networks).

  \<^bold>\<open>Bounds and fuel.\<close>
  Retry loops are bounded by the code's own constants (three attempts).  A research run is cut at the
  recursion limit of LangGraph, a parameter; fourteen supersteps suffice unless the critic or the
  reviser fails, and then no number does (both are theorems).  An upload causes at most eleven executions
  of tasks: one to process the paper, four to embed it, three each for the graph and the results.  All
  other loops are structural or have a measure.

  \<^bold>\<open>Parameters.\<close>
  Code that is not under \<open>src\<close> is an argument: \<open>json.loads\<close> and \<open>json.dumps\<close>, \<open>float\<close> of a string, \<open>repr\<close>
  and number formats (record \<open>library\<close> in \<open>Rag\<close>), SHA-256, NFKC, bcrypt, the JWT library, the FAISS index,
  the cross-encoder and the local embedding model, the HTTP network, what PyMuPDF reads from a document,
  the conversion of images, Tesseract, the Neo4j driver, the Qdrant client, \<open>ILIKE\<close>, the web search, the
  Prometheus client, CORS and the error middleware of Starlette; new identifiers and durations.  What the
  code relies on is stated where it is used: \<open>qdrant_law\<close>, \<open>starlette_errors\<close>, the laws of the index in
  \<open>VectorStore\<close>.

  \<^bold>\<open>Not modelled.\<close>
  Configuration and logging, the rate limit, the assembly of routers, the Alembic migrations, the
  declarative parts of the tables, the plumbing of sessions and of Celery (a queued task runs once, and
  one after the other): declarations over libraries.  The meaning of Cypher: statements are data here.
  Concurrency (locks, \<open>asyncio\<close>), time stamps and durations.  The command line of the benchmark and the
  script that typesets a report.
\<close>

end
